(* ===== verification/SB_Prelude.thy ===== *)
theory SB_Prelude
  imports Main "HOL-Library.Multiset"
begin

section \<open>Shared library: strings, SQL comparison, tables and results\<close>

text \<open>
  What the component theories share.
  \<^item> ASCII case mapping and prefix trimming: the part of Go's package strings that the sources
    use on state names (ToLower, ToUpper, EqualFold, TrimPrefix, HasPrefix).
  \<^item> Comparison of character columns under the collation the storage schema declares
    (utf8mb4 0900 ai ci): case does not count, so \<open>sql_eq\<close> and not equality is what a WHERE clause
    of the model evaluates.
  \<^item> Tables as lists of rows, with the facts about changing the rows a predicate selects.
  \<^item> Results: \<open>Inl\<close> is the returned error, \<open>Inr\<close> the returned value.
  Go strings are byte strings; the case mapping here changes the 26 ASCII letters and leaves
  every other byte alone, which is what Go computes on ASCII text.
\<close>

named_theorems state_consts \<open>the string values of the state constants\<close>
named_theorems row_simps \<open>how an operation changes single columns of a row\<close>

subsection \<open>ASCII case mapping\<close>

definition ascii_lower :: "char \<Rightarrow> char" where
  "ascii_lower c = (let n = (of_char c :: nat) in if 65 \<le> n \<and> n \<le> 90 then char_of (n + 32) else c)"

definition ascii_upper :: "char \<Rightarrow> char" where
  "ascii_upper c = (let n = (of_char c :: nat) in if 97 \<le> n \<and> n \<le> 122 then char_of (n - 32) else c)"

definition to_lower :: "string \<Rightarrow> string" where
  "to_lower s = map ascii_lower s"

definition to_upper :: "string \<Rightarrow> string" where
  "to_upper s = map ascii_upper s"

definition equal_fold :: "string \<Rightarrow> string \<Rightarrow> bool" where
  "equal_fold s t \<longleftrightarrow> to_lower s = to_lower t"

lemma ascii_lower_idem [simp]: "ascii_lower (ascii_lower c) = ascii_lower c"
  by (simp add: ascii_lower_def Let_def)

lemma ascii_lower_upper [simp]: "ascii_lower (ascii_upper c) = ascii_lower c"
proof -
  have "(of_char c - 32 :: nat) mod 256 = of_char c - 32" if "(of_char c :: nat) \<le> 122"
    using that by simp
  then show ?thesis by (auto simp: ascii_lower_def ascii_upper_def Let_def)
qed

lemma ascii_upper_lower [simp]: "ascii_upper (ascii_lower c) = ascii_upper c"
  by (simp add: ascii_lower_def ascii_upper_def Let_def)

lemma ascii_lower_not_upper: "\<not> (65 \<le> (of_char (ascii_lower c) :: nat) \<and> of_char (ascii_lower c) \<le> (90 :: nat))"
  by (simp add: ascii_lower_def Let_def)

lemma to_lower_idem [simp]: "to_lower (to_lower s) = to_lower s"
  by (simp add: to_lower_def)

lemma to_lower_to_upper [simp]: "to_lower (to_upper s) = to_lower s"
  by (simp add: to_lower_def to_upper_def)

lemma to_upper_to_lower [simp]: "to_upper (to_lower s) = to_upper s"
  by (simp add: to_lower_def to_upper_def)

lemma to_lower_Nil [simp]: "to_lower [] = []"
  by (simp add: to_lower_def)

lemma to_lower_Nil_iff [simp]: "to_lower s = [] \<longleftrightarrow> s = []"
  by (simp add: to_lower_def)

lemma to_upper_eq_iff: "to_upper s = to_upper t \<longleftrightarrow> to_lower s = to_lower t"
  by (metis to_lower_to_upper to_upper_to_lower)

subsection \<open>Prefixes\<close>

fun has_prefix :: "string \<Rightarrow> string \<Rightarrow> bool" where
  "has_prefix s [] = True"
| "has_prefix [] (p # ps) = False"
| "has_prefix (c # s) (p # ps) = (c = p \<and> has_prefix s ps)"

definition trim_prefix :: "string \<Rightarrow> string \<Rightarrow> string" where
  "trim_prefix s p = (if has_prefix s p then drop (length p) s else s)"

lemma has_prefix_append: "has_prefix s p \<longleftrightarrow> (\<exists>t. s = p @ t)"
  by (induction s p rule: has_prefix.induct) auto

lemma trim_prefix_append [simp]: "trim_prefix (p @ t) p = t"
  by (auto simp: trim_prefix_def has_prefix_append)

subsection \<open>Comparison of character columns\<close>

definition sql_eq :: "string \<Rightarrow> string \<Rightarrow> bool" where
  "sql_eq a b \<longleftrightarrow> to_lower a = to_lower b"

definition sql_in :: "string \<Rightarrow> string list \<Rightarrow> bool" where
  "sql_in a xs \<longleftrightarrow> list_ex (sql_eq a) xs"

definition canonical :: "string \<Rightarrow> bool" where
  "canonical s \<longleftrightarrow> to_lower s = s"

lemma sql_eq_refl [simp]: "sql_eq a a"
  by (simp add: sql_eq_def)

lemma sql_eq_sym: "sql_eq a b \<longleftrightarrow> sql_eq b a"
  by (auto simp: sql_eq_def)

lemma sql_eq_trans: "sql_eq a b \<Longrightarrow> sql_eq b c \<Longrightarrow> sql_eq a c"
  by (simp add: sql_eq_def)

lemma sql_eq_canonical: "canonical a \<Longrightarrow> canonical b \<Longrightarrow> sql_eq a b \<longleftrightarrow> a = b"
  by (simp add: sql_eq_def canonical_def)

lemma sql_in_iff: "sql_in a xs \<longleftrightarrow> (\<exists>x \<in> set xs. sql_eq a x)"
  by (simp add: sql_in_def list_ex_iff)

subsection \<open>Tables\<close>

text \<open>
  A table is the list of its rows. \<open>update_where p f t\<close> is an UPDATE: it changes the rows that \<open>p\<close>
  selects. \<open>rows_changed\<close> is what MySQL reports as affected rows by default: the rows whose
  columns really changed, not the rows matched.
\<close>

definition update_where :: "('r \<Rightarrow> bool) \<Rightarrow> ('r \<Rightarrow> 'r) \<Rightarrow> 'r list \<Rightarrow> 'r list" where
  "update_where p f t = map (\<lambda>r. if p r then f r else r) t"

definition rows_changed :: "('r \<Rightarrow> bool) \<Rightarrow> ('r \<Rightarrow> 'r) \<Rightarrow> 'r list \<Rightarrow> nat" where
  "rows_changed p f t = length (filter (\<lambda>r. p r \<and> f r \<noteq> r) t)"

lemma length_update_where [simp]: "length (update_where p f t) = length t"
  by (simp add: update_where_def)

lemma set_update_where: "set (update_where p f t) = (\<lambda>r. if p r then f r else r) ` set t"
  by (simp add: update_where_def)

lemma in_update_whereE:
  assumes "r \<in> set (update_where p f t)"
  obtains q where "q \<in> set t" "p q" "r = f q" | "r \<in> set t" "\<not> p r"
  using assms by (auto simp: update_where_def split: if_splits)

lemma update_where_no_change: "rows_changed p f t = 0 \<Longrightarrow> update_where p f t = t"
  by (auto simp: rows_changed_def update_where_def filter_empty_conv intro!: map_idI)

lemma update_where_none: "(\<And>r. r \<in> set t \<Longrightarrow> \<not> p r) \<Longrightarrow> update_where p f t = t"
  by (auto simp: update_where_def intro!: map_idI)

lemma rows_changed_none: "(\<And>r. r \<in> set t \<Longrightarrow> \<not> p r) \<Longrightarrow> rows_changed p f t = 0"
  by (auto simp: rows_changed_def filter_empty_conv)

lemma rows_changed_pos_iff: "0 < rows_changed p f t \<longleftrightarrow> (\<exists>r \<in> set t. p r \<and> f r \<noteq> r)"
  by (auto simp: rows_changed_def filter_empty_conv simp flip: length_greater_0_conv)

lemma map_update_where_same:
  "(\<And>r. r \<in> set t \<Longrightarrow> p r \<Longrightarrow> k (f r) = k r) \<Longrightarrow> map k (update_where p f t) = map k t"
  by (auto simp: update_where_def)

lemma list_ex_update_where:
  "(\<And>r. sel r \<Longrightarrow> P (f r) = P r) \<Longrightarrow> list_ex P (update_where sel f t) = list_ex P t"
  by (induction t) (auto simp: update_where_def)

lemma find_update_where:
  assumes "\<And>r. p (f r) = p r"
  shows "find p (update_where sel f t) = map_option (\<lambda>r. if sel r then f r else r) (find p t)"
  by (induction t) (auto simp: update_where_def assms)

lemma update_where_hit: "r \<in> set t \<Longrightarrow> p r \<Longrightarrow> f r \<in> set (update_where p f t)"
  by (auto simp: set_update_where image_iff)

subsection \<open>Counting, first matching rule, bounded search\<close>

lemma count_list_pos_iff: "0 < count_list xs x \<longleftrightarrow> x \<in> set xs"
  by (metis count_notin count_list_0_iff gr0I less_not_refl)

lemma count_list_eq_length_iff: "count_list xs x = length xs \<longleftrightarrow> set xs \<subseteq> {x}"
proof (induction xs)
  case (Cons y ys)
  then show ?case using count_le_length [of ys x] by auto
qed simp

lemma count_list_two_eq_length_iff:
  "x \<noteq> y \<Longrightarrow> count_list xs x + count_list xs y = length xs \<longleftrightarrow> set xs \<subseteq> {x, y}"
proof (induction xs)
  case (Cons z zs)
  have "count_list zs x + count_list zs y \<le> length zs"
    using Cons.prems by (induction zs) auto
  with Cons show ?case by auto
qed simp

text \<open>\<open>first_rule\<close> is a decision list: the value of the first rule whose condition holds.\<close>

fun first_rule :: "(bool \<times> 'a) list \<Rightarrow> 'a \<Rightarrow> 'a" where
  "first_rule [] d = d"
| "first_rule ((b, x) # rs) d = (if b then x else first_rule rs d)"

lemma first_rule_in: "first_rule rs d = x \<Longrightarrow> x = d \<or> (True, x) \<in> set rs"
  by (induction rs) (auto split: if_splits)

lemma ex_ge_split: "(\<exists>i \<ge> n. P i) \<longleftrightarrow> P n \<or> (\<exists>i \<ge> Suc n. P i)"
  by (metis Suc_le_eq le_eq_less_or_eq)

subsection \<open>Results\<close>

fun bind_result :: "'e + 'a \<Rightarrow> ('a \<Rightarrow> 'e + 'b) \<Rightarrow> 'e + 'b" where
  "bind_result (Inl e) f = Inl e"
| "bind_result (Inr a) f = f a"

lemma bind_result_Inr_iff: "bind_result r f = Inr b \<longleftrightarrow> (\<exists>a. r = Inr a \<and> f a = Inr b)"
  by (cases r) auto

lemma bind_result_Inl_iff: "bind_result r f = Inl e \<longleftrightarrow> r = Inl e \<or> (\<exists>a. r = Inr a \<and> f a = Inl e)"
  by (cases r) auto

end
