(* ===== verification/SB_State.thy ===== *)
theory SB_State
  imports SB_Prelude
begin

section \<open>Canonical states (pkg/state)\<close>

text \<open>
  The state vocabulary of applies, operations and tasks, and the functions the control plane
  makes its decisions with: the aggregation of task states into an apply state
  (\<^verbatim>\<open>DeriveApplyState\<close>), the rollout projection over operations
  (\<^verbatim>\<open>DeriveRolloutApplyState\<close>), the metadata registry (\<^verbatim>\<open>LookupApply\<close>) and the normalisation of the
  state spellings that protobuf, Spirit and Vitess use. States are strings, as in the source.
  The status strings of Spirit and Vitess come from third-party packages and are the
  parameter \<open>engine_status\<close> of the definitions that read them.
\<close>

subsection \<open>Apply states (apply.go)\<close>

definition Apply_Pending :: string where [state_consts]: "Apply_Pending = ''pending''"
definition Apply_Running :: string where [state_consts]: "Apply_Running = ''running''"
definition Apply_RunningDegraded :: string where [state_consts]: "Apply_RunningDegraded = ''running_degraded''"
definition Apply_Paused :: string where [state_consts]: "Apply_Paused = ''paused''"
definition Apply_Resuming :: string where [state_consts]: "Apply_Resuming = ''resuming''"
definition Apply_WaitingForDeploy :: string where [state_consts]: "Apply_WaitingForDeploy = ''waiting_for_deploy''"
definition Apply_WaitingForCutover :: string where [state_consts]: "Apply_WaitingForCutover = ''waiting_for_cutover''"
definition Apply_Recovering :: string where [state_consts]: "Apply_Recovering = ''recovering''"
definition Apply_CuttingOver :: string where [state_consts]: "Apply_CuttingOver = ''cutting_over''"
definition Apply_RevertWindow :: string where [state_consts]: "Apply_RevertWindow = ''revert_window''"
definition Apply_Completed :: string where [state_consts]: "Apply_Completed = ''completed''"
definition Apply_Failed :: string where [state_consts]: "Apply_Failed = ''failed''"
definition Apply_FailedRetryable :: string where [state_consts]: "Apply_FailedRetryable = ''failed_retryable''"
definition Apply_Stopped :: string where [state_consts]: "Apply_Stopped = ''stopped''"
definition Apply_Cancelled :: string where [state_consts]: "Apply_Cancelled = ''cancelled''"
definition Apply_Reverted :: string where [state_consts]: "Apply_Reverted = ''reverted''"
definition Apply_PreparingBranch :: string where [state_consts]: "Apply_PreparingBranch = ''preparing_branch''"
definition Apply_ApplyingBranchChanges :: string where [state_consts]: "Apply_ApplyingBranchChanges = ''applying_branch_changes''"
definition Apply_ValidatingBranch :: string where [state_consts]: "Apply_ValidatingBranch = ''validating_branch''"
definition Apply_CreatingDeployRequest :: string where [state_consts]: "Apply_CreatingDeployRequest = ''creating_deploy_request''"
definition Apply_ValidatingDeployRequest :: string where [state_consts]: "Apply_ValidatingDeployRequest = ''validating_deploy_request''"

text \<open>Every value of the struct \<^verbatim>\<open>Apply\<close>, in the order the source declares them.\<close>

definition Apply_states :: "string list" where
  "Apply_states = [Apply_Pending, Apply_Running, Apply_RunningDegraded, Apply_Paused,
     Apply_Resuming, Apply_WaitingForDeploy, Apply_WaitingForCutover, Apply_Recovering,
     Apply_CuttingOver, Apply_RevertWindow, Apply_Completed, Apply_Failed,
     Apply_FailedRetryable, Apply_Stopped, Apply_Cancelled, Apply_Reverted,
     Apply_PreparingBranch, Apply_ApplyingBranchChanges, Apply_ValidatingBranch, Apply_CreatingDeployRequest,
     Apply_ValidatingDeployRequest]"

subsection \<open>Task states (task.go)\<close>

definition Task_Pending :: string where [state_consts]: "Task_Pending = ''pending''"
definition Task_Running :: string where [state_consts]: "Task_Running = ''running''"
definition Task_Checksumming :: string where [state_consts]: "Task_Checksumming = ''checksumming''"
definition Task_WaitingForDeploy :: string where [state_consts]: "Task_WaitingForDeploy = ''waiting_for_deploy''"
definition Task_WaitingForCutover :: string where [state_consts]: "Task_WaitingForCutover = ''waiting_for_cutover''"
definition Task_Recovering :: string where [state_consts]: "Task_Recovering = ''recovering''"
definition Task_CuttingOver :: string where [state_consts]: "Task_CuttingOver = ''cutting_over''"
definition Task_RevertWindow :: string where [state_consts]: "Task_RevertWindow = ''revert_window''"
definition Task_Completed :: string where [state_consts]: "Task_Completed = ''completed''"
definition Task_Failed :: string where [state_consts]: "Task_Failed = ''failed''"
definition Task_FailedRetryable :: string where [state_consts]: "Task_FailedRetryable = ''failed_retryable''"
definition Task_Stopped :: string where [state_consts]: "Task_Stopped = ''stopped''"
definition Task_Reverted :: string where [state_consts]: "Task_Reverted = ''reverted''"
definition Task_Cancelled :: string where [state_consts]: "Task_Cancelled = ''cancelled''"

text \<open>Every value of the struct \<^verbatim>\<open>Task\<close>.\<close>

definition Task_states :: "string list" where
  "Task_states = [Task_Pending, Task_Running, Task_Checksumming, Task_WaitingForDeploy,
     Task_WaitingForCutover, Task_Recovering, Task_CuttingOver, Task_RevertWindow,
     Task_Completed, Task_Failed, Task_FailedRetryable, Task_Stopped,
     Task_Reverted, Task_Cancelled]"

text \<open>
  The values are pairwise different and spelled in lower case. With these facts in the simpset
  the state names stay folded in every proof below.
\<close>

lemma Apply_states_distinct: "distinct Apply_states"
  by code_simp

lemma Apply_states_canonical: "list_all canonical Apply_states"
  by code_simp

lemma Task_states_distinct: "distinct Task_states"
  by code_simp

lemma Task_states_canonical: "list_all canonical Task_states"
  by code_simp

lemma Task_eq_Apply:
  "Task_Pending = Apply_Pending"
  "Task_Running = Apply_Running"
  "Task_WaitingForDeploy = Apply_WaitingForDeploy"
  "Task_WaitingForCutover = Apply_WaitingForCutover"
  "Task_Recovering = Apply_Recovering"
  "Task_CuttingOver = Apply_CuttingOver"
  "Task_RevertWindow = Apply_RevertWindow"
  "Task_Completed = Apply_Completed"
  "Task_Failed = Apply_Failed"
  "Task_FailedRetryable = Apply_FailedRetryable"
  "Task_Stopped = Apply_Stopped"
  "Task_Reverted = Apply_Reverted"
  "Task_Cancelled = Apply_Cancelled"
  by (simp_all add: state_consts)

lemma Apply_states_distinct_rev: "distinct (rev Apply_states)"
  by (simp only: distinct_rev Apply_states_distinct)

lemmas Apply_states_neq = Apply_states_distinct [unfolded Apply_states_def, simplified]
lemmas Apply_states_neq_sym = Apply_states_distinct_rev [unfolded Apply_states_def, simplified]

declare Task_eq_Apply [simp] Apply_states_neq [simp] Apply_states_neq_sym [simp]

lemma Checksumming_neq [simp]: "s \<in> set Apply_states \<Longrightarrow> Task_Checksumming \<noteq> s"
  "s \<in> set Apply_states \<Longrightarrow> s \<noteq> Task_Checksumming"
proof -
  have "list_all (\<lambda>s. s \<noteq> Task_Checksumming) Apply_states" by code_simp
  then show "s \<in> set Apply_states \<Longrightarrow> Task_Checksumming \<noteq> s"
    "s \<in> set Apply_states \<Longrightarrow> s \<noteq> Task_Checksumming" by (auto simp: list_all_iff)
qed

subsection \<open>State spellings (resolve.go)\<close>

definition NoActiveChange :: string where [state_consts]: "NoActiveChange = ''no_active_change''"

definition NormalizeState :: "string \<Rightarrow> string" where
  "NormalizeState s0 =
     (let s = to_lower (trim_prefix s0 ''STATE_'') in
      if s = [] then NoActiveChange
      else if s = ''recovering_cutover'' then Apply_Recovering
      else s)"

subsection \<open>Aggregating task states (apply.go)\<close>

definition normalizeApplyState :: "string \<Rightarrow> string" where
  "normalizeApplyState raw =
     (let u = to_upper raw in
      if u = ''PENDING'' then Apply_Pending
      else if u = ''RUNNING'' then Apply_Running
      else if u = ''CHECKSUMMING'' then Apply_Running
      else if u = ''RUNNING_DEGRADED'' then Apply_RunningDegraded
      else if u = ''PAUSED'' then Apply_Paused
      else if u = ''WAITING_FOR_DEPLOY'' then Apply_WaitingForDeploy
      else if u = ''WAITING_FOR_CUTOVER'' then Apply_WaitingForCutover
      else if u = ''RECOVERING'' \<or> u = ''RECOVERING_CUTOVER'' then Apply_Recovering
      else if u = ''CUTTING_OVER'' then Apply_CuttingOver
      else if u = ''REVERT_WINDOW'' then Apply_RevertWindow
      else if u = ''COMPLETED'' \<or> u = ''COMPLETE'' then Apply_Completed
      else if u = ''FAILED'' then Apply_Failed
      else if u = ''FAILED_RETRYABLE'' then Apply_FailedRetryable
      else if u = ''STOPPED'' then Apply_Stopped
      else if u = ''CANCELLED'' then Apply_Cancelled
      else if u = ''REVERTED'' then Apply_Reverted
      else if u = ''VALIDATING_BRANCH'' then Apply_ValidatingBranch
      else if u = ''VALIDATING_DEPLOY_REQUEST'' then Apply_ValidatingDeployRequest
      else Apply_Pending)"

definition DeriveApplyState :: "string list \<Rightarrow> string" where
  "DeriveApplyState taskStates =
     (if length taskStates = 0 then Apply_Pending
      else
        let counts = count_list (map normalizeApplyState taskStates);
            total = length taskStates in
        if counts Apply_Failed > 0 then Apply_Failed
        else if counts Apply_FailedRetryable > 0 then Apply_FailedRetryable
        else if counts Apply_Cancelled > 0 then Apply_Cancelled
        else if counts Apply_Stopped > 0 then Apply_Stopped
        else if counts Apply_Reverted > 0 then Apply_Reverted
        else if counts Apply_Completed = total then Apply_Completed
        else if counts Apply_Recovering > 0 then Apply_Recovering
        else if counts Apply_CuttingOver > 0 then Apply_CuttingOver
        else if counts Apply_WaitingForCutover + counts Apply_Completed = total
             \<and> counts Apply_WaitingForCutover > 0 then Apply_WaitingForCutover
        else if counts Apply_WaitingForDeploy + counts Apply_Completed = total
             \<and> counts Apply_WaitingForDeploy > 0 then Apply_WaitingForDeploy
        else if counts Apply_RevertWindow > 0 then Apply_RevertWindow
        else if counts Apply_Running > 0 then Apply_Running
        else Apply_Pending)"

subsection \<open>Metadata registry (metadata.go)\<close>

record ApplyStateInfo =
  Info_Label :: string
  Info_Terminal :: bool
  Info_SetupPhase :: bool

definition zeroApplyStateInfo :: ApplyStateInfo where
  "zeroApplyStateInfo = \<lparr>Info_Label = [], Info_Terminal = False, Info_SetupPhase = False\<rparr>"

definition applyMetadata :: "(string \<times> ApplyStateInfo) list" where
  "applyMetadata =
    [(Apply_Pending, \<lparr>Info_Label = ''Pending'', Info_Terminal = False, Info_SetupPhase = True\<rparr>),
     (Apply_Running, \<lparr>Info_Label = ''Running'', Info_Terminal = False, Info_SetupPhase = False\<rparr>),
     (Apply_RunningDegraded, \<lparr>Info_Label = ''Running (degraded)'', Info_Terminal = False, Info_SetupPhase = False\<rparr>),
     (Apply_Paused, \<lparr>Info_Label = ''Paused'', Info_Terminal = False, Info_SetupPhase = False\<rparr>),
     (Apply_Resuming, \<lparr>Info_Label = ''Resuming'', Info_Terminal = False, Info_SetupPhase = False\<rparr>),
     (Apply_WaitingForDeploy, \<lparr>Info_Label = ''Waiting for deploy'', Info_Terminal = False, Info_SetupPhase = True\<rparr>),
     (Apply_WaitingForCutover, \<lparr>Info_Label = ''Waiting for cutover'', Info_Terminal = False, Info_SetupPhase = False\<rparr>),
     (Apply_Recovering, \<lparr>Info_Label = ''Recovering'', Info_Terminal = False, Info_SetupPhase = False\<rparr>),
     (Apply_CuttingOver, \<lparr>Info_Label = ''Cutting over'', Info_Terminal = False, Info_SetupPhase = False\<rparr>),
     (Apply_RevertWindow, \<lparr>Info_Label = ''Revert window'', Info_Terminal = False, Info_SetupPhase = False\<rparr>),
     (Apply_Completed, \<lparr>Info_Label = ''Completed'', Info_Terminal = True, Info_SetupPhase = False\<rparr>),
     (Apply_Failed, \<lparr>Info_Label = ''Failed'', Info_Terminal = True, Info_SetupPhase = False\<rparr>),
     (Apply_FailedRetryable, \<lparr>Info_Label = ''Retrying'', Info_Terminal = False, Info_SetupPhase = False\<rparr>),
     (Apply_Stopped, \<lparr>Info_Label = ''Stopped'', Info_Terminal = True, Info_SetupPhase = False\<rparr>),
     (Apply_Cancelled, \<lparr>Info_Label = ''Cancelled'', Info_Terminal = True, Info_SetupPhase = False\<rparr>),
     (Apply_Reverted, \<lparr>Info_Label = ''Reverted'', Info_Terminal = True, Info_SetupPhase = False\<rparr>),
     (Apply_PreparingBranch, \<lparr>Info_Label = ''Preparing branch'', Info_Terminal = False, Info_SetupPhase = True\<rparr>),
     (Apply_ApplyingBranchChanges, \<lparr>Info_Label = ''Applying changes to branch'', Info_Terminal = False, Info_SetupPhase = True\<rparr>),
     (Apply_ValidatingBranch, \<lparr>Info_Label = ''Validating branch'', Info_Terminal = False, Info_SetupPhase = True\<rparr>),
     (Apply_CreatingDeployRequest, \<lparr>Info_Label = ''Creating deploy request'', Info_Terminal = False, Info_SetupPhase = True\<rparr>),
     (Apply_ValidatingDeployRequest, \<lparr>Info_Label = ''Validating deploy request'', Info_Terminal = False, Info_SetupPhase = True\<rparr>)]"

definition LookupApply :: "string \<Rightarrow> ApplyStateInfo \<times> bool" where
  "LookupApply s = (case map_of applyMetadata s of
       Some info \<Rightarrow> (info, True) | None \<Rightarrow> (zeroApplyStateInfo, False))"

definition Label :: "string \<Rightarrow> string" where
  "Label s = (case map_of applyMetadata s of Some info \<Rightarrow> Info_Label info | None \<Rightarrow> s)"

subsection \<open>Classifying states (apply.go, apply\_operation.go)\<close>

definition IsState :: "string \<Rightarrow> string list \<Rightarrow> bool" where
  "IsState s expected = list_ex (\<lambda>e. NormalizeState s = NormalizeState e) expected"

definition IsTerminalApplyState :: "string \<Rightarrow> bool" where
  "IsTerminalApplyState s = (case LookupApply (NormalizeState s) of (info, ok) \<Rightarrow> ok \<and> Info_Terminal info)"

definition IsRunningApplyState :: "string \<Rightarrow> bool" where
  "IsRunningApplyState s = IsState s [Apply_Running, Apply_RunningDegraded]"

definition IsSetupPhase :: "string \<Rightarrow> bool" where
  "IsSetupPhase s = (case LookupApply (NormalizeState s) of (info, ok) \<Rightarrow> ok \<and> Info_SetupPhase info)"

definition IsPlanetScaleEngine :: "string \<Rightarrow> bool" where
  "IsPlanetScaleEngine engine \<longleftrightarrow>
     equal_fold engine ''planetscale'' \<or> equal_fold engine ''ENGINE_PLANETSCALE''"

definition InitialActiveApplyState :: "string \<Rightarrow> string" where
  "InitialActiveApplyState engine =
     (if IsPlanetScaleEngine engine then Apply_PreparingBranch else Apply_Running)"

definition IsApplyOperationTerminal :: "string \<Rightarrow> bool" where
  "IsApplyOperationTerminal s = IsTerminalApplyState s"

subsection \<open>The rollout projection (apply.go)\<close>

record RolloutChild =
  Child_State :: string
  ContinueOnFailure :: bool
  PauseOnFailure :: bool

text \<open>
  \<open>hasLaterNonTerminal children i\<close> is the source's loop from \<open>i + 1\<close> to the end. The loop over the children
  is \<open>rollout_scan\<close>: its three accumulators are \<open>allTerminal\<close>, \<open>hardFail\<close> and \<open>pausedHold\<close>, its last
  argument counts the index of the current child.
\<close>

definition hasLaterNonTerminal :: "RolloutChild list \<Rightarrow> nat \<Rightarrow> bool" where
  "hasLaterNonTerminal children failedIndex =
     list_ex (\<lambda>c. \<not> IsTerminalApplyState (Child_State c)) (drop (failedIndex + 1) children)"

fun rollout_scan ::
  "RolloutChild list \<Rightarrow> RolloutChild list \<Rightarrow> nat \<Rightarrow> bool \<times> bool \<times> bool \<Rightarrow> bool \<times> bool \<times> bool" where
  "rollout_scan children [] i acc = acc"
| "rollout_scan children (c # cs) i (allTerminal, hardFail, pausedHold) =
     (let allTerminal' = (if \<not> IsTerminalApplyState (Child_State c) then False else allTerminal) in
      if \<not> IsState (Child_State c) [Apply_Failed]
        then rollout_scan children cs (Suc i) (allTerminal', hardFail, pausedHold)
      else if ContinueOnFailure c \<and> PauseOnFailure c
        then rollout_scan children cs (Suc i) (allTerminal', True, pausedHold)
      else if ContinueOnFailure c
        then rollout_scan children cs (Suc i) (allTerminal', hardFail, pausedHold)
      else if PauseOnFailure c \<and> hasLaterNonTerminal children i
        then rollout_scan children cs (Suc i) (allTerminal', hardFail, True)
      else if PauseOnFailure c
        then rollout_scan children cs (Suc i) (allTerminal', hardFail, pausedHold)
      else rollout_scan children cs (Suc i) (allTerminal', True, pausedHold))"

definition DeriveRolloutApplyState :: "RolloutChild list \<Rightarrow> string" where
  "DeriveRolloutApplyState children =
     (if length children = 0 then Apply_Pending
      else
        let base = DeriveApplyState (map Child_State children) in
        if \<not> IsState base [Apply_Failed] then base
        else
          case rollout_scan children children 0 (True, False, False) of
            (allTerminal, hardFail, pausedHold) \<Rightarrow>
              if hardFail then Apply_Failed
              else if pausedHold then Apply_Paused
              else if allTerminal then Apply_Failed
              else Apply_RunningDegraded)"

subsection \<open>Task states reported by engines (task.go, vitess.go)\<close>

definition TerminalTaskStates :: "string list" where
  "TerminalTaskStates = [Task_Completed, Task_Failed, Task_Reverted, Task_Cancelled]"

definition IsTerminalTaskState :: "string \<Rightarrow> bool" where
  "IsTerminalTaskState s \<longleftrightarrow>
     s = Task_Completed \<or> s = Task_Failed \<or> s = Task_Reverted \<or> s = Task_Cancelled"

definition IsInFlightTaskState :: "string \<Rightarrow> bool" where
  "IsInFlightTaskState s =
     (let n = NormalizeState s in
      n = Task_Running \<or> n = Task_Checksumming \<or> n = Task_WaitingForCutover \<or> n = Task_CuttingOver
      \<or> n = Task_WaitingForDeploy \<or> n = Task_Recovering)"

text \<open>
  The strings that the packages vitess.io/vitess/go/vt/schema (\<^verbatim>\<open>OnlineDDLStatus\<close>) and
  github.com/block/spirit/pkg/status (\<^verbatim>\<open>State.String()\<close>) supply.
\<close>

record engine_status =
  vitess_Requested :: string
  vitess_Cancelled :: string
  vitess_Queued :: string
  vitess_Ready :: string
  vitess_Running :: string
  vitess_Complete :: string
  vitess_Failed :: string
  spirit_Close :: string
  spirit_Checksum :: string
  spirit_CopyRows :: string
  spirit_Initial :: string
  spirit_ApplyChangeset :: string
  spirit_RestoreSecondaryIndexes :: string
  spirit_AnalyzeTable :: string
  spirit_PostChecksum :: string
  spirit_ErrCleanup :: string
  spirit_WaitingOnSentinelTable :: string
  spirit_CutOver :: string

definition task_passthrough :: "string \<Rightarrow> bool" where
  "task_passthrough s \<longleftrightarrow>
     s \<in> set [Task_Pending, Task_Running, Task_Checksumming, Task_Completed, Task_Stopped, Task_Failed,
       Task_FailedRetryable, Task_RevertWindow, Task_Reverted,
       Task_WaitingForDeploy, Task_WaitingForCutover, Task_Recovering,
       Task_CuttingOver, Task_Cancelled]"

definition NormalizeTaskStatus :: "engine_status \<Rightarrow> string \<Rightarrow> string" where
  "NormalizeTaskStatus es raw =
     (let s = trim_prefix (trim_prefix raw ''STATE_'') ''state_'' in
      if s = vitess_Complete es \<or> s = spirit_Close es then Task_Completed
      else if s = spirit_Checksum es then Task_Checksumming
      else if s = spirit_CopyRows es \<or> s = spirit_Initial es \<or> s = spirit_ApplyChangeset es
        \<or> s = spirit_RestoreSecondaryIndexes es \<or> s = spirit_AnalyzeTable es
        \<or> s = spirit_PostChecksum es \<or> s = spirit_ErrCleanup es then Task_Running
      else if s = vitess_Running es then Task_Running
      else if s = spirit_WaitingOnSentinelTable es \<or> s = ''ready_to_complete'' then Task_WaitingForCutover
      else if s = spirit_CutOver es then Task_CuttingOver
      else if s = vitess_Queued es \<or> s = vitess_Ready es \<or> s = vitess_Requested es then Task_Pending
      else if s = vitess_Failed es then Task_Failed
      else if s = vitess_Cancelled es then Task_Cancelled
      else if task_passthrough s then s
      else
        let normalized = NormalizeState s in
        if normalized = NormalizeState (vitess_Complete es) then Task_Completed
        else if task_passthrough normalized then normalized
        else Task_Running)"

definition NormalizeShardStatus :: "engine_status \<Rightarrow> string \<Rightarrow> string" where
  "NormalizeShardStatus es raw = NormalizeTaskStatus es raw"

definition IsTerminalVitessState :: "engine_status \<Rightarrow> string \<Rightarrow> bool" where
  "IsTerminalVitessState es s =
     (let l = to_lower s in l = vitess_Complete es \<or> l = vitess_Failed es \<or> l = vitess_Cancelled es)"

subsection \<open>Facts about single state names\<close>

lemma NormalizeState_Apply [simp]: "s \<in> set Apply_states \<Longrightarrow> NormalizeState s = s"
proof -
  have "list_all (\<lambda>s. NormalizeState s = s) Apply_states" by code_simp
  then show "s \<in> set Apply_states \<Longrightarrow> NormalizeState s = s" by (auto simp: list_all_iff)
qed

lemma NormalizeState_Task [simp]: "s \<in> set Task_states \<Longrightarrow> NormalizeState s = s"
proof -
  have "list_all (\<lambda>s. NormalizeState s = s) Task_states" by code_simp
  then show "s \<in> set Task_states \<Longrightarrow> NormalizeState s = s" by (auto simp: list_all_iff)
qed

lemma Apply_states_member [simp]:
  "Apply_Pending \<in> set Apply_states"
  "Apply_Running \<in> set Apply_states"
  "Apply_RunningDegraded \<in> set Apply_states"
  "Apply_Paused \<in> set Apply_states"
  "Apply_Resuming \<in> set Apply_states"
  "Apply_WaitingForDeploy \<in> set Apply_states"
  "Apply_WaitingForCutover \<in> set Apply_states"
  "Apply_Recovering \<in> set Apply_states"
  "Apply_CuttingOver \<in> set Apply_states"
  "Apply_RevertWindow \<in> set Apply_states"
  "Apply_Completed \<in> set Apply_states"
  "Apply_Failed \<in> set Apply_states"
  "Apply_FailedRetryable \<in> set Apply_states"
  "Apply_Stopped \<in> set Apply_states"
  "Apply_Cancelled \<in> set Apply_states"
  "Apply_Reverted \<in> set Apply_states"
  "Apply_PreparingBranch \<in> set Apply_states"
  "Apply_ApplyingBranchChanges \<in> set Apply_states"
  "Apply_ValidatingBranch \<in> set Apply_states"
  "Apply_CreatingDeployRequest \<in> set Apply_states"
  "Apply_ValidatingDeployRequest \<in> set Apply_states"
  by (simp_all add: Apply_states_def)

lemma NormalizeState_idem_aux: "trim_prefix (to_lower s) ''STATE_'' = to_lower s"
proof -
  have "\<not> has_prefix (to_lower s) ''STATE_''"
  proof
    assume "has_prefix (to_lower s) ''STATE_''"
    then obtain c cs where "s = c # cs" and c: "ascii_lower c = CHR ''S''"
      by (cases s) (auto simp: to_lower_def)
    have "(of_char (ascii_lower c) :: nat) = 83" by (simp add: c)
    with ascii_lower_not_upper [of c] show False by simp
  qed
  then show ?thesis by (simp add: trim_prefix_def)
qed

lemma IsState_one [simp]: "IsState s [e] \<longleftrightarrow> NormalizeState s = NormalizeState e"
  by (simp add: IsState_def)

lemma IsState_Cons: "IsState s (e # es) \<longleftrightarrow> NormalizeState s = NormalizeState e \<or> IsState s es"
  by (simp add: IsState_def)

lemma normalizeApplyState_range: "normalizeApplyState raw \<in> set Apply_states"
  by (simp add: normalizeApplyState_def Let_def)

text \<open>Upper-case spellings and the aggregation's reading of each canonical state.\<close>

lemma Apply_upper:
  "to_upper Apply_Pending = ''PENDING''"
  "to_upper Apply_Running = ''RUNNING''"
  "to_upper Apply_RunningDegraded = ''RUNNING_DEGRADED''"
  "to_upper Apply_Paused = ''PAUSED''"
  "to_upper Apply_Resuming = ''RESUMING''"
  "to_upper Apply_WaitingForDeploy = ''WAITING_FOR_DEPLOY''"
  "to_upper Apply_WaitingForCutover = ''WAITING_FOR_CUTOVER''"
  "to_upper Apply_Recovering = ''RECOVERING''"
  "to_upper Apply_CuttingOver = ''CUTTING_OVER''"
  "to_upper Apply_RevertWindow = ''REVERT_WINDOW''"
  "to_upper Apply_Completed = ''COMPLETED''"
  "to_upper Apply_Failed = ''FAILED''"
  "to_upper Apply_FailedRetryable = ''FAILED_RETRYABLE''"
  "to_upper Apply_Stopped = ''STOPPED''"
  "to_upper Apply_Cancelled = ''CANCELLED''"
  "to_upper Apply_Reverted = ''REVERTED''"
  "to_upper Apply_PreparingBranch = ''PREPARING_BRANCH''"
  "to_upper Apply_ApplyingBranchChanges = ''APPLYING_BRANCH_CHANGES''"
  "to_upper Apply_ValidatingBranch = ''VALIDATING_BRANCH''"
  "to_upper Apply_CreatingDeployRequest = ''CREATING_DEPLOY_REQUEST''"
  "to_upper Apply_ValidatingDeployRequest = ''VALIDATING_DEPLOY_REQUEST''"
  by code_simp+

lemma normalizeApplyState_Apply:
  "normalizeApplyState Apply_Pending = Apply_Pending"
  "normalizeApplyState Apply_Running = Apply_Running"
  "normalizeApplyState Apply_RunningDegraded = Apply_RunningDegraded"
  "normalizeApplyState Apply_Paused = Apply_Paused"
  "normalizeApplyState Apply_Resuming = Apply_Pending"
  "normalizeApplyState Apply_WaitingForDeploy = Apply_WaitingForDeploy"
  "normalizeApplyState Apply_WaitingForCutover = Apply_WaitingForCutover"
  "normalizeApplyState Apply_Recovering = Apply_Recovering"
  "normalizeApplyState Apply_CuttingOver = Apply_CuttingOver"
  "normalizeApplyState Apply_RevertWindow = Apply_RevertWindow"
  "normalizeApplyState Apply_Completed = Apply_Completed"
  "normalizeApplyState Apply_Failed = Apply_Failed"
  "normalizeApplyState Apply_FailedRetryable = Apply_FailedRetryable"
  "normalizeApplyState Apply_Stopped = Apply_Stopped"
  "normalizeApplyState Apply_Cancelled = Apply_Cancelled"
  "normalizeApplyState Apply_Reverted = Apply_Reverted"
  "normalizeApplyState Apply_PreparingBranch = Apply_Pending"
  "normalizeApplyState Apply_ApplyingBranchChanges = Apply_Pending"
  "normalizeApplyState Apply_ValidatingBranch = Apply_ValidatingBranch"
  "normalizeApplyState Apply_CreatingDeployRequest = Apply_Pending"
  "normalizeApplyState Apply_ValidatingDeployRequest = Apply_ValidatingDeployRequest"
  unfolding normalizeApplyState_def Let_def Apply_upper by simp_all

declare normalizeApplyState_Apply [simp]

lemma to_lower_Apply [simp]: "s \<in> set Apply_states \<Longrightarrow> to_lower s = s"
  using Apply_states_canonical by (auto simp: list_all_iff canonical_def)

subsection \<open>Aggregation\<close>

text \<open>
  The reference reading of the aggregation: the first rule that applies decides, each rule a
  statement about some or all of the (normalised) task states.
\<close>

definition derive_rules :: "string set \<Rightarrow> (bool \<times> string) list" where
  "derive_rules N =
     [(N = {}, Apply_Pending),
      (Apply_Failed \<in> N, Apply_Failed),
      (Apply_FailedRetryable \<in> N, Apply_FailedRetryable),
      (Apply_Cancelled \<in> N, Apply_Cancelled),
      (Apply_Stopped \<in> N, Apply_Stopped),
      (Apply_Reverted \<in> N, Apply_Reverted),
      (N = {Apply_Completed}, Apply_Completed),
      (Apply_Recovering \<in> N, Apply_Recovering),
      (Apply_CuttingOver \<in> N, Apply_CuttingOver),
      (Apply_WaitingForCutover \<in> N \<and> N \<subseteq> {Apply_WaitingForCutover, Apply_Completed}, Apply_WaitingForCutover),
      (Apply_WaitingForDeploy \<in> N \<and> N \<subseteq> {Apply_WaitingForDeploy, Apply_Completed}, Apply_WaitingForDeploy),
      (Apply_RevertWindow \<in> N, Apply_RevertWindow),
      (Apply_Running \<in> N, Apply_Running)]"

lemma DeriveApplyState_rules:
  "DeriveApplyState ts = first_rule (derive_rules (normalizeApplyState ` set ts)) Apply_Pending"
proof (cases "ts = []")
  case True
  then show ?thesis by (simp add: DeriveApplyState_def derive_rules_def)
next
  case False
  define ns where "ns = map normalizeApplyState ts"
  have len: "length ts = length ns" and ne: "set ns \<noteq> {}" and im: "normalizeApplyState ` set ts = set ns"
    using False by (auto simp: ns_def)
  have one: "count_list ns x = length ns \<longleftrightarrow> set ns = {x}" for x
    using ne by (auto simp: count_list_eq_length_iff subset_singleton_iff)
  have two: "count_list ns Apply_WaitingForCutover + count_list ns Apply_Completed = length ns
      \<longleftrightarrow> set ns \<subseteq> {Apply_WaitingForCutover, Apply_Completed}"
    "count_list ns Apply_WaitingForDeploy + count_list ns Apply_Completed = length ns
      \<longleftrightarrow> set ns \<subseteq> {Apply_WaitingForDeploy, Apply_Completed}"
    by (rule count_list_two_eq_length_iff; simp)+
  show ?thesis
    using False
    by (simp add: DeriveApplyState_def derive_rules_def im len ne one two count_list_pos_iff
        Let_def conj_commute flip: ns_def)
qed

lemma DeriveApplyState_mset:
  "mset ts = mset ts' \<Longrightarrow> DeriveApplyState ts = DeriveApplyState ts'"
  by (metis DeriveApplyState_rules mset_eq_setD)

lemma derive_rules_values: "(b, x) \<in> set (derive_rules N) \<Longrightarrow> x \<in> set Apply_states"
  unfolding derive_rules_def set_simps insert_iff empty_iff prod.inject by (elim disjE conjE FalseE) simp_all

lemma DeriveApplyState_range: "DeriveApplyState ts \<in> set Apply_states"
proof -
  have "x = Apply_Pending \<or> (True, x) \<in> set (derive_rules N) \<Longrightarrow> x \<in> set Apply_states" for x N
    using derive_rules_values by auto
  then show ?thesis unfolding DeriveApplyState_rules using first_rule_in by metis
qed

lemma derive_Failed_rule: "(b, Apply_Failed) \<in> set (derive_rules N) \<Longrightarrow> b = (Apply_Failed \<in> N)"
  by (simp add: derive_rules_def)

lemma derive_Failed_first: "Apply_Failed \<in> N \<Longrightarrow> first_rule (derive_rules N) d = Apply_Failed"
  by (cases "N = {}") (simp_all add: derive_rules_def)

lemma derive_Completed_rule: "(b, Apply_Completed) \<in> set (derive_rules N) \<Longrightarrow> b = (N = {Apply_Completed})"
  by (simp add: derive_rules_def)

lemma DeriveApplyState_failed_iff:
  "DeriveApplyState ts = Apply_Failed \<longleftrightarrow> Apply_Failed \<in> normalizeApplyState ` set ts"
proof
  assume "DeriveApplyState ts = Apply_Failed"
  then show "Apply_Failed \<in> normalizeApplyState ` set ts"
    unfolding DeriveApplyState_rules by (auto dest!: first_rule_in derive_Failed_rule)
next
  assume "Apply_Failed \<in> normalizeApplyState ` set ts"
  then show "DeriveApplyState ts = Apply_Failed"
    unfolding DeriveApplyState_rules by (rule derive_Failed_first)
qed

lemma DeriveApplyState_completed_iff:
  "DeriveApplyState ts = Apply_Completed \<longleftrightarrow> normalizeApplyState ` set ts = {Apply_Completed}"
proof
  assume "DeriveApplyState ts = Apply_Completed"
  then show "normalizeApplyState ` set ts = {Apply_Completed}"
    unfolding DeriveApplyState_rules by (auto dest!: first_rule_in derive_Completed_rule)
next
  assume "normalizeApplyState ` set ts = {Apply_Completed}"
  then show "DeriveApplyState ts = Apply_Completed"
    by (simp add: DeriveApplyState_rules derive_rules_def)
qed

lemma IsTerminalApplyState_iff:
  "IsTerminalApplyState s \<longleftrightarrow>
     NormalizeState s \<in> {Apply_Completed, Apply_Failed, Apply_Stopped, Apply_Cancelled, Apply_Reverted}"
  by (auto simp: IsTerminalApplyState_def LookupApply_def applyMetadata_def zeroApplyStateInfo_def
      split: if_splits)

lemma IsSetupPhase_iff:
  "IsSetupPhase s \<longleftrightarrow> NormalizeState s \<in> {Apply_Pending, Apply_WaitingForDeploy, Apply_PreparingBranch,
     Apply_ApplyingBranchChanges, Apply_ValidatingBranch, Apply_CreatingDeployRequest, Apply_ValidatingDeployRequest}"
  by (auto simp: IsSetupPhase_def LookupApply_def applyMetadata_def zeroApplyStateInfo_def
      split: if_splits)

text \<open>The classification of one child of a rollout whose state is failed.\<close>

definition hard_failure :: "RolloutChild \<Rightarrow> bool" where
  "hard_failure c \<longleftrightarrow> IsState (Child_State c) [Apply_Failed] \<and> ContinueOnFailure c = PauseOnFailure c"

definition pause_held :: "RolloutChild list \<Rightarrow> nat \<Rightarrow> bool" where
  "pause_held cs i \<longleftrightarrow> i < length cs \<and> IsState (Child_State (cs ! i)) [Apply_Failed]
     \<and> PauseOnFailure (cs ! i) \<and> \<not> ContinueOnFailure (cs ! i)
     \<and> (\<exists>j > i. j < length cs \<and> \<not> IsTerminalApplyState (Child_State (cs ! j)))"

lemma hasLaterNonTerminal_iff:
  "hasLaterNonTerminal cs i \<longleftrightarrow> (\<exists>j > i. j < length cs \<and> \<not> IsTerminalApplyState (Child_State (cs ! j)))"
proof
  assume "hasLaterNonTerminal cs i"
  then obtain k where "k < length cs - (i + 1)" "\<not> IsTerminalApplyState (Child_State (cs ! (i + 1 + k)))"
    by (auto simp: hasLaterNonTerminal_def list_ex_iff in_set_conv_nth)
  then show "\<exists>j > i. j < length cs \<and> \<not> IsTerminalApplyState (Child_State (cs ! j))"
    by (intro exI [of _ "i + 1 + k"]) auto
next
  assume "\<exists>j > i. j < length cs \<and> \<not> IsTerminalApplyState (Child_State (cs ! j))"
  then obtain j where j: "i < j" "j < length cs" "\<not> IsTerminalApplyState (Child_State (cs ! j))" by blast
  then have "drop (i + 1) cs ! (j - (i + 1)) = cs ! j" "j - (i + 1) < length (drop (i + 1) cs)" by auto
  with j show "hasLaterNonTerminal cs i"
    unfolding hasLaterNonTerminal_def list_ex_iff by (metis nth_mem)
qed

lemma rollout_scan_eq:
  "rollout_scan (pre @ cs) cs (length pre) (t, h, p) =
     (t \<and> (\<forall>c \<in> set cs. IsTerminalApplyState (Child_State c)),
      h \<or> (\<exists>c \<in> set cs. hard_failure c),
      p \<or> (\<exists>i \<ge> length pre. pause_held (pre @ cs) i))"
proof (induction cs arbitrary: pre t h p)
  case Nil
  show ?case by (auto simp: pause_held_def)
next
  case (Cons c cs)
  have IH: "rollout_scan (pre @ c # cs) cs (Suc (length pre)) (t, h, p) =
     (t \<and> (\<forall>c \<in> set cs. IsTerminalApplyState (Child_State c)),
      h \<or> (\<exists>c \<in> set cs. hard_failure c),
      p \<or> (\<exists>i \<ge> Suc (length pre). pause_held (pre @ c # cs) i))" for t h p
    using Cons.IH [of "pre @ [c]"] by simp
  have split: "(\<exists>i \<ge> length pre. pause_held (pre @ c # cs) i) \<longleftrightarrow>
      pause_held (pre @ c # cs) (length pre) \<or> (\<exists>i \<ge> Suc (length pre). pause_held (pre @ c # cs) i)"
    by (rule ex_ge_split)
  have here: "pause_held (pre @ c # cs) (length pre) \<longleftrightarrow> IsState (Child_State c) [Apply_Failed]
      \<and> PauseOnFailure c \<and> \<not> ContinueOnFailure c \<and> hasLaterNonTerminal (pre @ c # cs) (length pre)"
    by (auto simp: pause_held_def hasLaterNonTerminal_iff)
  have hard: "(\<exists>d \<in> set (c # cs). hard_failure d) \<longleftrightarrow>
      (IsState (Child_State c) [Apply_Failed] \<and> ContinueOnFailure c = PauseOnFailure c) \<or> (\<exists>d \<in> set cs. hard_failure d)"
    by (simp add: hard_failure_def)
  show ?case
    unfolding split here hard
    by (cases "IsState (Child_State c) [Apply_Failed]"; cases "ContinueOnFailure c"; cases "PauseOnFailure c")
      (simp_all add: IH Let_def del: IsState_one)
qed

lemma DeriveRolloutApplyState_spec:
  "DeriveRolloutApplyState cs =
     (if \<forall>c \<in> set cs. normalizeApplyState (Child_State c) \<noteq> Apply_Failed
        then DeriveApplyState (map Child_State cs)
      else if \<exists>c \<in> set cs. hard_failure c then Apply_Failed
      else if \<exists>i. pause_held cs i then Apply_Paused
      else if \<forall>c \<in> set cs. IsTerminalApplyState (Child_State c) then Apply_Failed
      else Apply_RunningDegraded)"
proof -
  have scan: "rollout_scan cs cs 0 (True, False, False) =
      ((\<forall>c \<in> set cs. IsTerminalApplyState (Child_State c)), (\<exists>c \<in> set cs. hard_failure c), (\<exists>i. pause_held cs i))"
    using rollout_scan_eq [of "[]" cs True False False] by simp
  have base: "IsState (DeriveApplyState (map Child_State cs)) [Apply_Failed] \<longleftrightarrow>
      (\<exists>c \<in> set cs. normalizeApplyState (Child_State c) = Apply_Failed)"
    using DeriveApplyState_failed_iff [of "map Child_State cs"] DeriveApplyState_range [of "map Child_State cs"]
    by (simp add: image_iff) metis
  show ?thesis
  proof (cases "cs = []")
    case True
    then show ?thesis by (simp add: DeriveRolloutApplyState_def DeriveApplyState_def)
  next
    case False
    then show ?thesis by (simp add: DeriveRolloutApplyState_def Let_def scan base del: IsState_one)
  qed
qed

subsection \<open>Normalisation\<close>

lemma NormalizeState_idem: "NormalizeState (NormalizeState s) = NormalizeState s"
proof -
  define t where "t = to_lower (trim_prefix s ''STATE_'')"
  have fx: "to_lower (trim_prefix t ''STATE_'') = t"
    by (simp add: t_def NormalizeState_idem_aux)
  have none: "NormalizeState NoActiveChange = NoActiveChange" by code_simp
  have s: "NormalizeState s = (if t = [] then NoActiveChange
      else if t = ''recovering_cutover'' then Apply_Recovering else t)"
    by (simp add: NormalizeState_def Let_def t_def)
  have "NormalizeState t = (if t = [] then NoActiveChange
      else if t = ''recovering_cutover'' then Apply_Recovering else t)"
    by (simp only: NormalizeState_def Let_def fx)
  then show ?thesis unfolding s by (simp add: none)
qed

lemma task_passthrough_iff: "task_passthrough s \<longleftrightarrow> s \<in> set Task_states"
  unfolding task_passthrough_def Task_states_def by (simp del: Task_eq_Apply) blast

lemma NormalizeTaskStatus_range: "NormalizeTaskStatus es raw \<in> set Task_states"
proof -
  have m: "Task_Completed \<in> set Task_states" "Task_Checksumming \<in> set Task_states" "Task_Running \<in> set Task_states"
    "Task_WaitingForCutover \<in> set Task_states" "Task_CuttingOver \<in> set Task_states" "Task_Pending \<in> set Task_states"
    "Task_Failed \<in> set Task_states" "Task_Cancelled \<in> set Task_states"
    by (simp_all add: Task_states_def)
  show ?thesis
    unfolding NormalizeTaskStatus_def Let_def task_passthrough_iff
    using m by (simp del: Task_eq_Apply)
qed
text \<open>The values of the third-party status strings that pkg/state/README.md documents.\<close>

definition documented_status :: "engine_status \<Rightarrow> bool" where
  "documented_status es \<longleftrightarrow>
     vitess_Requested es = ''requested'' \<and> vitess_Cancelled es = ''cancelled'' \<and> vitess_Queued es = ''queued''
     \<and> vitess_Ready es = ''ready'' \<and> vitess_Running es = ''running'' \<and> vitess_Complete es = ''complete''
     \<and> vitess_Failed es = ''failed'' \<and> spirit_Close es = ''close'' \<and> spirit_Checksum es = ''checksum''
     \<and> spirit_CopyRows es = ''copyRows'' \<and> spirit_Initial es = ''initial''
     \<and> spirit_ApplyChangeset es = ''applyChangeset'' \<and> spirit_RestoreSecondaryIndexes es = ''restoreSecondaryIndexes''
     \<and> spirit_AnalyzeTable es = ''analyzeTable'' \<and> spirit_PostChecksum es = ''postChecksum''
     \<and> spirit_WaitingOnSentinelTable es = ''waitingOnSentinelTable'' \<and> spirit_CutOver es = ''cutOver''
     \<and> spirit_ErrCleanup es \<notin> set Task_states"

lemma NormalizeTaskStatus_Task:
  assumes "documented_status es" "s \<in> set Task_states"
  shows "NormalizeTaskStatus es s = s"
proof -
  have "list_all (\<lambda>s. s \<noteq> spirit_ErrCleanup es \<longrightarrow> NormalizeTaskStatus es s = s) Task_states"
    using assms(1)
    by (simp add: documented_status_def NormalizeTaskStatus_def Let_def task_passthrough_def Task_states_def
        trim_prefix_def state_consts del: Task_eq_Apply)
  with assms show ?thesis by (auto simp: list_all_iff documented_status_def)
qed


subsection \<open>Properties\<close>

text \<open>
  The aggregation of task states is a decision list over which states occur: the counting
  code returns the value of the first rule that holds, whatever the number and the order of the tasks.
\<close>

theorem derive_apply_state_priority:
  "DeriveApplyState ts = first_rule (derive_rules (normalizeApplyState ` set ts)) Apply_Pending"
  by (rule DeriveApplyState_rules)

text \<open>
 The rollout projection, read declaratively: without a failed child it is the plain
  aggregation; a failure under halt (or under contradictory flags) makes the apply failed; a
  failure under an unreleased pause holds the apply paused while later work remains; otherwise the verdict is failed once
  every child is terminal and running degraded before.
\<close>

theorem rollout_projection_spec:
  "DeriveRolloutApplyState cs =
     (if \<forall>c \<in> set cs. normalizeApplyState (Child_State c) \<noteq> Apply_Failed
        then DeriveApplyState (map Child_State cs)
      else if \<exists>c \<in> set cs. hard_failure c then Apply_Failed
      else if \<exists>i. pause_held cs i then Apply_Paused
      else if \<forall>c \<in> set cs. IsTerminalApplyState (Child_State c) then Apply_Failed
      else Apply_RunningDegraded)"
  by (rule DeriveRolloutApplyState_spec)

theorem rollout_projection_spec_witness:
  "DeriveRolloutApplyState [\<lparr>Child_State = Apply_Failed, ContinueOnFailure = True, PauseOnFailure = False\<rparr>,
       \<lparr>Child_State = Apply_Running, ContinueOnFailure = True, PauseOnFailure = False\<rparr>] = Apply_RunningDegraded
   \<and> \<not> (\<forall>c \<in> set [\<lparr>Child_State = Apply_Failed, ContinueOnFailure = True, PauseOnFailure = False\<rparr>,
       \<lparr>Child_State = Apply_Running, ContinueOnFailure = True, PauseOnFailure = False\<rparr>].
         normalizeApplyState (Child_State c) \<noteq> Apply_Failed)"
  by (auto simp: rollout_projection_spec hard_failure_def pause_held_def IsTerminalApplyState_iff nth_Cons'
      split: if_splits)

lemma DeriveApplyState_no_hold: "DeriveApplyState ts \<notin> {Apply_Paused, Apply_RunningDegraded}"
proof -
  have "DeriveApplyState ts \<in> insert Apply_Pending (snd ` set (derive_rules (normalizeApplyState ` set ts)))"
    using first_rule_in [OF DeriveApplyState_rules [symmetric], of ts] by force
  moreover have "insert Apply_Pending (snd ` set (derive_rules N)) \<inter> {Apply_Paused, Apply_RunningDegraded} = {}" for N
    by (simp add: derive_rules_def)
  ultimately show ?thesis by blast
qed

text \<open>
  (C27) The projected state of a rollout neither masks a failed deployment nor invents one. It is failed, paused or running degraded exactly when some
  deployment failed; it is failed at once when one failed whose policy is to halt (or whose flags contradict each other), and failed when
  one failed and all deployments are terminal; it is paused only when a deployment failed whose policy is to pause and a later one is not terminal; and it
  is running degraded only while some deployment is not terminal and none failed whose policy is to halt.
\<close>

theorem rollout_failure_never_masked:
  "((\<exists>c \<in> set cs. normalizeApplyState (Child_State c) = Apply_Failed)
      \<longleftrightarrow> DeriveRolloutApplyState cs \<in> {Apply_Failed, Apply_Paused, Apply_RunningDegraded})
   \<and> (\<forall>c \<in> set cs. Child_State c = Apply_Failed \<and> ContinueOnFailure c = PauseOnFailure c \<longrightarrow> DeriveRolloutApplyState cs = Apply_Failed)
   \<and> ((\<exists>c \<in> set cs. normalizeApplyState (Child_State c) = Apply_Failed) \<and> (\<forall>c \<in> set cs. IsTerminalApplyState (Child_State c))
      \<longrightarrow> DeriveRolloutApplyState cs = Apply_Failed)
   \<and> (DeriveRolloutApplyState cs = Apply_Paused \<longrightarrow> (\<exists>i j. i < j \<and> j < length cs \<and> IsState (Child_State (cs ! i)) [Apply_Failed]
        \<and> PauseOnFailure (cs ! i) \<and> \<not> ContinueOnFailure (cs ! i) \<and> \<not> IsTerminalApplyState (Child_State (cs ! j))))
   \<and> (DeriveRolloutApplyState cs = Apply_RunningDegraded \<longrightarrow> (\<exists>c \<in> set cs. \<not> IsTerminalApplyState (Child_State c))
        \<and> (\<forall>c \<in> set cs. IsState (Child_State c) [Apply_Failed] \<longrightarrow> ContinueOnFailure c \<noteq> PauseOnFailure c))"
proof -
  let ?D = "DeriveRolloutApplyState cs" and ?failed = "\<exists>c \<in> set cs. normalizeApplyState (Child_State c) = Apply_Failed"
  have none: "?D = DeriveApplyState (map Child_State cs) \<and> ?D \<notin> {Apply_Failed, Apply_Paused, Apply_RunningDegraded}" if "\<not> ?failed"
  proof -
    from that have D: "?D = DeriveApplyState (map Child_State cs)" by (simp add: DeriveRolloutApplyState_spec)
    have "DeriveApplyState (map Child_State cs) \<noteq> Apply_Failed" using that DeriveApplyState_failed_iff [of "map Child_State cs"] by (auto simp: image_iff)
    with D DeriveApplyState_no_hold [of "map Child_State cs"] show ?thesis by simp
  qed
  have some: "?D = (if \<exists>c \<in> set cs. hard_failure c then Apply_Failed else if \<exists>i. pause_held cs i then Apply_Paused
      else if \<forall>c \<in> set cs. IsTerminalApplyState (Child_State c) then Apply_Failed else Apply_RunningDegraded)" if ?failed
    using that by (subst DeriveRolloutApplyState_spec) auto
  have held: "\<not> (\<exists>i. pause_held cs i)" if "\<forall>c \<in> set cs. IsTerminalApplyState (Child_State c)" using that by (auto simp: pause_held_def)
  have 1: "?failed \<longleftrightarrow> ?D \<in> {Apply_Failed, Apply_Paused, Apply_RunningDegraded}"
  proof
    assume ?failed
    from some [OF this] show "?D \<in> {Apply_Failed, Apply_Paused, Apply_RunningDegraded}" by (simp split: if_splits)
  qed (use none in blast)
  have 2: "?D = Apply_Failed" if "c \<in> set cs" "Child_State c = Apply_Failed" "ContinueOnFailure c = PauseOnFailure c" for c
  proof -
    have "hard_failure c" ?failed using that by (auto simp: hard_failure_def intro!: bexI [of _ c])
    with some that(1) show ?thesis by auto
  qed
  have 3: "?D = Apply_Failed" if ?failed "\<forall>c \<in> set cs. IsTerminalApplyState (Child_State c)" using some [OF that(1)] held [OF that(2)] that(2) by simp
  have 4: "\<exists>i j. i < j \<and> j < length cs \<and> IsState (Child_State (cs ! i)) [Apply_Failed] \<and> PauseOnFailure (cs ! i) \<and> \<not> ContinueOnFailure (cs ! i)
      \<and> \<not> IsTerminalApplyState (Child_State (cs ! j))" if "?D = Apply_Paused"
  proof -
    have ?failed using 1 that by simp
    with that some obtain i where "pause_held cs i" by (auto split: if_splits)
    then show ?thesis unfolding pause_held_def by blast
  qed
  have 5: "(\<exists>c \<in> set cs. \<not> IsTerminalApplyState (Child_State c)) \<and> \<not> (\<exists>c \<in> set cs. hard_failure c)" if "?D = Apply_RunningDegraded"
  proof -
    have ?failed using 1 that by simp
    with that some show ?thesis by (auto split: if_splits)
  qed
  show ?thesis using 1 2 3 4 5 unfolding hard_failure_def by blast
qed

theorem rollout_failure_never_masked_witness:
  "DeriveRolloutApplyState
     [\<lparr>Child_State = ''FAILED'', ContinueOnFailure = True, PauseOnFailure = False\<rparr>,
      \<lparr>Child_State = Apply_Completed, ContinueOnFailure = True, PauseOnFailure = False\<rparr>] = Apply_Failed"
proof -
  let ?cs = "[\<lparr>Child_State = ''FAILED'', ContinueOnFailure = True, PauseOnFailure = False\<rparr>,
      \<lparr>Child_State = Apply_Completed, ContinueOnFailure = True, PauseOnFailure = False\<rparr>]"
  have "normalizeApplyState (Child_State (hd ?cs)) = Apply_Failed" "\<forall>c \<in> set ?cs. IsTerminalApplyState (Child_State c)" by (code_simp, code_simp)
  then have "(\<exists>c \<in> set ?cs. normalizeApplyState (Child_State c) = Apply_Failed) \<and> (\<forall>c \<in> set ?cs. IsTerminalApplyState (Child_State c))" by simp
  with rollout_failure_never_masked [of ?cs] show ?thesis by blast
qed

text \<open> Normalising a state spelling twice is normalising it once.\<close>

theorem normalize_state_idempotent: "NormalizeState (NormalizeState s) = NormalizeState s"
  by (rule NormalizeState_idem)

text \<open>
 Whatever an engine reports, the normalised task status is one of the canonical task states;
  and with the documented status strings of Spirit and Vitess it is a fixed point of the normalisation.
\<close>

theorem normalize_task_status_canonical:
  assumes "documented_status es"
  shows "NormalizeTaskStatus es raw \<in> set Task_states
    \<and> NormalizeTaskStatus es (NormalizeTaskStatus es raw) = NormalizeTaskStatus es raw"
  using NormalizeTaskStatus_Task [OF assms] NormalizeTaskStatus_range by blast

theorem normalize_task_status_canonical_witness:
  "\<exists>es. documented_status es \<and> NormalizeTaskStatus es ''STATE_copyRows'' = Task_Running
     \<and> NormalizeTaskStatus es Task_Running = Task_Running"
proof -
  define es where "es = \<lparr>vitess_Requested = ''requested'', vitess_Cancelled = ''cancelled'', vitess_Queued = ''queued'',
     vitess_Ready = ''ready'', vitess_Running = ''running'', vitess_Complete = ''complete'', vitess_Failed = ''failed'',
     spirit_Close = ''close'', spirit_Checksum = ''checksum'', spirit_CopyRows = ''copyRows'', spirit_Initial = ''initial'',
     spirit_ApplyChangeset = ''applyChangeset'', spirit_RestoreSecondaryIndexes = ''restoreSecondaryIndexes'',
     spirit_AnalyzeTable = ''analyzeTable'', spirit_PostChecksum = ''postChecksum'', spirit_ErrCleanup = ''errCleanup'',
     spirit_WaitingOnSentinelTable = ''waitingOnSentinelTable'', spirit_CutOver = ''cutOver''\<rparr>"
  have d: "documented_status es" unfolding es_def by code_simp
  have r: "NormalizeTaskStatus es ''STATE_copyRows'' = Task_Running" unfolding es_def by code_simp
  from normalize_task_status_canonical [OF d, of "''STATE_copyRows''"] d r show ?thesis by auto
qed

text \<open>
 The metadata registry knows every canonical apply state, the terminal states are exactly
  completed, failed, stopped, cancelled and reverted in whatever spelling, and no state is both terminal and a
  setup phase.
\<close>

theorem apply_registry_classifies:
  "list_all (\<lambda>s. snd (LookupApply s)) Apply_states
   \<and> (IsTerminalApplyState s \<longleftrightarrow> NormalizeState s \<in>
        {Apply_Completed, Apply_Failed, Apply_Stopped, Apply_Cancelled, Apply_Reverted})
   \<and> \<not> (IsTerminalApplyState s \<and> IsSetupPhase s)"
proof -
  have "list_all (\<lambda>s. snd (LookupApply s)) Apply_states" by code_simp
  moreover have "{Apply_Completed, Apply_Failed, Apply_Stopped, Apply_Cancelled, Apply_Reverted} \<inter>
      {Apply_Pending, Apply_WaitingForDeploy, Apply_PreparingBranch, Apply_ApplyingBranchChanges,
       Apply_ValidatingBranch, Apply_CreatingDeployRequest, Apply_ValidatingDeployRequest} = {}" by simp
  ultimately show ?thesis unfolding IsTerminalApplyState_iff IsSetupPhase_iff by blast
qed

text \<open>
 The aggregation keeps every canonical apply state except resuming, preparing branch,
  applying branch changes and creating deploy request, which it reads as pending.
\<close>

theorem aggregation_reads_four_states_as_pending:
  "filter (\<lambda>s. normalizeApplyState s \<noteq> s) Apply_states =
     [Apply_Resuming, Apply_PreparingBranch, Apply_ApplyingBranchChanges, Apply_CreatingDeployRequest]
   \<and> list_all (\<lambda>s. DeriveApplyState [s] = Apply_Pending)
     [Apply_Resuming, Apply_PreparingBranch, Apply_ApplyingBranchChanges, Apply_CreatingDeployRequest]"
  unfolding Apply_states_def by (simp add: DeriveApplyState_def)

end
