(* ===== verification/SB_Storage.thy ===== *)
theory SB_Storage
  imports SB_State "HOL-Library.List_Lexorder" "HOL-Library.Char_ord"
begin

section \<open>Storage records, leases and options (pkg/storage)\<close>

text \<open>
  The rows of the storage tables as records, the lease capabilities that authorise writes,
  the storage errors, and the durable apply options with their two encodings (the option map
  of the API and the JSON column). A nullable column is an option value; the source reads a NULL text as
  the empty string (\<open>null_text\<close>). Times are seconds since the epoch, which is the resolution of
  the DATETIME columns.
\<close>

subsection \<open>Policies, engines, control operations (types.go)\<close>

definition CutoverPolicyRolling :: string where "CutoverPolicyRolling = ''rolling''"
definition CutoverPolicyBarrier :: string where "CutoverPolicyBarrier = ''barrier''"
definition OnFailureHalt :: string where "OnFailureHalt = ''halt''"
definition OnFailureContinue :: string where "OnFailureContinue = ''continue''"
definition OnFailurePause :: string where "OnFailurePause = ''pause''"
definition DatabaseTypeVitess :: string where "DatabaseTypeVitess = ''vitess''"
definition DatabaseTypeMySQL :: string where "DatabaseTypeMySQL = ''mysql''"
definition DatabaseTypeStrata :: string where "DatabaseTypeStrata = ''strata''"
definition EngineSpirit :: string where "EngineSpirit = ''spirit''"
definition EnginePlanetScale :: string where "EnginePlanetScale = ''planetscale''"
definition EngineStrata :: string where "EngineStrata = ''strata''"
definition ApplyOperationKindWork :: string where "ApplyOperationKindWork = ''work''"
definition ApplyOperationKindGroupFinalizer :: string where "ApplyOperationKindGroupFinalizer = ''group_finalizer''"
definition ControlOperationStart :: string where "ControlOperationStart = ''start''"
definition ControlOperationStop :: string where "ControlOperationStop = ''stop''"
definition ControlOperationCutover :: string where "ControlOperationCutover = ''cutover''"
definition ControlRequestPending :: string where "ControlRequestPending = ''pending''"
definition ControlRequestCompleted :: string where "ControlRequestCompleted = ''completed''"
definition ControlRequestFailed :: string where "ControlRequestFailed = ''failed''"

definition EngineForType :: "string \<Rightarrow> string" where
  "EngineForType dbType =
     (if dbType = DatabaseTypeVitess then EnginePlanetScale
      else if dbType = DatabaseTypeStrata then EngineStrata
      else EngineSpirit)"

lemmas storage_consts =
  CutoverPolicyRolling_def CutoverPolicyBarrier_def OnFailureHalt_def OnFailureContinue_def OnFailurePause_def
  DatabaseTypeVitess_def DatabaseTypeMySQL_def DatabaseTypeStrata_def EngineSpirit_def EnginePlanetScale_def
  EngineStrata_def ApplyOperationKindWork_def ApplyOperationKindGroupFinalizer_def ControlOperationStart_def
  ControlOperationStop_def ControlOperationCutover_def ControlRequestPending_def ControlRequestCompleted_def
  ControlRequestFailed_def

subsection \<open>Errors (errors.go)\<close>

text \<open>
  The sentinel errors of the package, which callers compare with \<^verbatim>\<open>errors.Is\<close>, and \<open>ErrOther\<close>
  for errors that carry only a message. The wrapping text of an error is not modelled.
\<close>

datatype storage_error =
    ErrLockHeld | ErrLockNotFound | ErrLockNotOwned | ErrCheckNotFound | ErrSettingNotFound
  | ErrApplyNotFound | ErrApplyIDExists | ErrActiveApplyExists | ErrApplyLeaseLost
  | ErrPlanNotFound | ErrPlanIDExists | ErrTaskNotFound | ErrApplyCommentNotFound
  | ErrApplyOperationNotFound | ErrApplyOperationExists | ErrEngineResumeStateNotFound
  | ErrOther string

subsection \<open>Leases (lease.go)\<close>

record ApplyLease =
  al_ApplyID :: int
  al_Owner :: string
  al_Token :: string

definition ApplyLease_Valid :: "ApplyLease \<Rightarrow> bool" where
  "ApplyLease_Valid l \<longleftrightarrow> al_ApplyID l > 0 \<and> al_Token l \<noteq> []"

record OperationLease =
  ol_ApplyID :: int
  ol_OperationID :: int
  ol_Owner :: string
  ol_Token :: string

definition OperationLease_Valid :: "OperationLease \<Rightarrow> bool" where
  "OperationLease_Valid l \<longleftrightarrow> ol_ApplyID l > 0 \<and> ol_OperationID l > 0 \<and> ol_Token l \<noteq> []"

text \<open>The two context keys of the package: what a call's context carries.\<close>

record call_ctx =
  ctx_apply_lease :: "ApplyLease option"
  ctx_operation_lease :: "OperationLease option"

definition background :: call_ctx where
  "background = \<lparr>ctx_apply_lease = None, ctx_operation_lease = None\<rparr>"

definition WithApplyLease :: "call_ctx \<Rightarrow> ApplyLease \<Rightarrow> call_ctx" where
  "WithApplyLease ctx lease = ctx\<lparr>ctx_apply_lease := Some lease\<rparr>"

definition ApplyLeaseFromContext :: "call_ctx \<Rightarrow> ApplyLease option" where
  "ApplyLeaseFromContext ctx = ctx_apply_lease ctx"

definition WithOperationLease :: "call_ctx \<Rightarrow> OperationLease \<Rightarrow> call_ctx" where
  "WithOperationLease ctx lease = ctx\<lparr>ctx_operation_lease := Some lease\<rparr>"

definition OperationLeaseFromContext :: "call_ctx \<Rightarrow> OperationLease option" where
  "OperationLeaseFromContext ctx = ctx_operation_lease ctx"

subsection \<open>Apply options: API map and JSON column (types.go)\<close>

record ApplyOptions =
  AllowUnsafe :: bool
  Branch :: string
  DeferCutover :: bool
  DeferDeploy :: bool
  SkipRevert :: bool
  Volume :: int
  Target :: string
  Rollback :: bool

definition emptyApplyOptions :: ApplyOptions where
  "emptyApplyOptions = \<lparr>AllowUnsafe = False, Branch = [], DeferCutover = False, DeferDeploy = False,
     SkipRevert = False, Volume = 0, Target = [], Rollback = False\<rparr>"

text \<open>
  \<open>atoi\<close> is \<^verbatim>\<open>strconv.Atoi\<close>: an optional sign, at least one decimal digit, a value of 64 bits; anything else
  is the error (\<open>None\<close>). \<open>itoa\<close> is \<^verbatim>\<open>strconv.Itoa\<close>.
\<close>

definition digit_of :: "char \<Rightarrow> nat option" where
  "digit_of c = (let n = (of_char c :: nat) in if 48 \<le> n \<and> n \<le> 57 then Some (n - 48) else None)"

fun parse_digits :: "nat \<Rightarrow> string \<Rightarrow> nat option" where
  "parse_digits acc [] = Some acc"
| "parse_digits acc (c # cs) = (case digit_of c of None \<Rightarrow> None | Some d \<Rightarrow> parse_digits (10 * acc + d) cs)"

definition atoi :: "string \<Rightarrow> int option" where
  "atoi s =
     (let neg = has_prefix s ''-'';
          body = (if has_prefix s ''-'' \<or> has_prefix s ''+'' then drop 1 s else s) in
      if body = [] then None
      else case parse_digits 0 body of
        None \<Rightarrow> None
      | Some n \<Rightarrow> (let v = (if neg then - int n else int n) in
          if - (2 ^ 63) \<le> v \<and> v < 2 ^ 63 then Some v else None))"

fun itoa_nat :: "nat \<Rightarrow> string" where
  "itoa_nat n = (if n < 10 then [char_of (48 + n)] else itoa_nat (n div 10) @ [char_of (48 + n mod 10)])"

declare itoa_nat.simps [simp del]

definition itoa :: "int \<Rightarrow> string" where
  "itoa v = (if v < 0 then CHR ''-'' # itoa_nat (nat (- v)) else itoa_nat (nat v))"

text \<open>Reading a Go map of strings: a missing key reads as the empty string.\<close>

definition map_get :: "(string \<rightharpoonup> string) \<Rightarrow> string \<Rightarrow> string" where
  "map_get m k = (case m k of Some v \<Rightarrow> v | None \<Rightarrow> [])"

definition ApplyOptionsFromMap :: "(string \<rightharpoonup> string) \<Rightarrow> ApplyOptions" where
  "ApplyOptionsFromMap options =
     (let opts = \<lparr>AllowUnsafe = (map_get options ''allow_unsafe'' = ''true''),
            Branch = map_get options ''branch'',
            DeferCutover = (map_get options ''defer_cutover'' = ''true''),
            DeferDeploy = (map_get options ''defer_deploy'' = ''true''),
            SkipRevert = (map_get options ''skip_revert'' = ''true''),
            Volume = 0,
            Target = map_get options ''target'',
            Rollback = (map_get options ''rollback'' = ''true'')\<rparr>;
          rawVolume = map_get options ''volume'' in
      if rawVolume \<noteq> [] then
        (case atoi rawVolume of
           Some volume \<Rightarrow> if volume \<ge> 1 \<and> volume \<le> 11 then opts\<lparr>Volume := volume\<rparr> else opts
         | None \<Rightarrow> opts)
      else opts)"

definition put_if :: "bool \<Rightarrow> string \<Rightarrow> string \<Rightarrow> (string \<rightharpoonup> string) \<Rightarrow> (string \<rightharpoonup> string)" where
  "put_if b k v m = (if b then m(k \<mapsto> v) else m)"

definition ApplyOptions_Map :: "ApplyOptions \<Rightarrow> (string \<rightharpoonup> string)" where
  "ApplyOptions_Map opts =
     put_if (Rollback opts) ''rollback'' ''true''
     (put_if (Target opts \<noteq> []) ''target'' (Target opts)
     (put_if (Volume opts > 0) ''volume'' (itoa (Volume opts))
     (put_if (SkipRevert opts) ''skip_revert'' ''true''
     (put_if (DeferDeploy opts) ''defer_deploy'' ''true''
     (put_if (DeferCutover opts) ''defer_cutover'' ''true''
     (put_if (Branch opts \<noteq> []) ''branch'' (Branch opts)
     (put_if (AllowUnsafe opts) ''allow_unsafe'' ''true'' Map.empty)))))))"

text \<open>
  The JSON column. A JSON value as far as the options need it; \<open>JOther\<close> stands for arrays and objects. The
  decoder follows encoding/json: a key selects the field with that name, or else with that name up to case; null leaves the
  field; a value of another type is an error, and then the source falls back to the empty
  options. The encoder omits zero values (the tags all say omitempty).
\<close>

datatype json = JNull | JBool bool | JNum int | JStr string | JOther

type_synonym json_object = "(string \<times> json) list"

definition option_keys :: "string list" where
  "option_keys = [''allow_unsafe'', ''branch'', ''defer_cutover'', ''defer_deploy'', ''skip_revert'',
     ''volume'', ''target'', ''rollback'']"

definition option_key :: "string \<Rightarrow> string option" where
  "option_key k = (if k \<in> set option_keys then Some k else find (\<lambda>f. equal_fold f k) option_keys)"

definition decode_bool :: "json \<Rightarrow> (bool \<Rightarrow> ApplyOptions) \<Rightarrow> ApplyOptions \<Rightarrow> ApplyOptions option" where
  "decode_bool v f o0 = (case v of JBool b \<Rightarrow> Some (f b) | JNull \<Rightarrow> Some o0 | _ \<Rightarrow> None)"

definition decode_string :: "json \<Rightarrow> (string \<Rightarrow> ApplyOptions) \<Rightarrow> ApplyOptions \<Rightarrow> ApplyOptions option" where
  "decode_string v f o0 = (case v of JStr s \<Rightarrow> Some (f s) | JNull \<Rightarrow> Some o0 | _ \<Rightarrow> None)"

definition decode_int :: "json \<Rightarrow> (int \<Rightarrow> ApplyOptions) \<Rightarrow> ApplyOptions \<Rightarrow> ApplyOptions option" where
  "decode_int v f o0 = (case v of JNum n \<Rightarrow> Some (f n) | JNull \<Rightarrow> Some o0 | _ \<Rightarrow> None)"

definition decode_field :: "string \<times> json \<Rightarrow> ApplyOptions \<Rightarrow> ApplyOptions option" where
  "decode_field kv o0 = (case kv of (k, v) \<Rightarrow>
     (case option_key k of
        None \<Rightarrow> Some o0
      | Some f \<Rightarrow>
          if f = ''allow_unsafe'' then decode_bool v (\<lambda>b. o0\<lparr>AllowUnsafe := b\<rparr>) o0
          else if f = ''branch'' then decode_string v (\<lambda>s. o0\<lparr>Branch := s\<rparr>) o0
          else if f = ''defer_cutover'' then decode_bool v (\<lambda>b. o0\<lparr>DeferCutover := b\<rparr>) o0
          else if f = ''defer_deploy'' then decode_bool v (\<lambda>b. o0\<lparr>DeferDeploy := b\<rparr>) o0
          else if f = ''skip_revert'' then decode_bool v (\<lambda>b. o0\<lparr>SkipRevert := b\<rparr>) o0
          else if f = ''volume'' then decode_int v (\<lambda>n. o0\<lparr>Volume := n\<rparr>) o0
          else if f = ''target'' then decode_string v (\<lambda>s. o0\<lparr>Target := s\<rparr>) o0
          else decode_bool v (\<lambda>b. o0\<lparr>Rollback := b\<rparr>) o0))"

fun decode_fields :: "json_object \<Rightarrow> ApplyOptions \<Rightarrow> ApplyOptions option" where
  "decode_fields [] o0 = Some o0"
| "decode_fields (kv # kvs) o0 = (case decode_field kv o0 of None \<Rightarrow> None | Some o1 \<Rightarrow> decode_fields kvs o1)"

definition ParseApplyOptions :: "json_object option \<Rightarrow> ApplyOptions" where
  "ParseApplyOptions data = (case data of
       None \<Rightarrow> emptyApplyOptions
     | Some obj \<Rightarrow> (case decode_fields obj emptyApplyOptions of
           None \<Rightarrow> emptyApplyOptions
         | Some opts \<Rightarrow> opts))"

definition MarshalApplyOptions :: "ApplyOptions \<Rightarrow> json_object" where
  "MarshalApplyOptions opts =
     (if AllowUnsafe opts then [(''allow_unsafe'', JBool True)] else [])
     @ (if Branch opts \<noteq> [] then [(''branch'', JStr (Branch opts))] else [])
     @ (if DeferCutover opts then [(''defer_cutover'', JBool True)] else [])
     @ (if DeferDeploy opts then [(''defer_deploy'', JBool True)] else [])
     @ (if SkipRevert opts then [(''skip_revert'', JBool True)] else [])
     @ (if Volume opts \<noteq> 0 then [(''volume'', JNum (Volume opts))] else [])
     @ (if Target opts \<noteq> [] then [(''target'', JStr (Target opts))] else [])
     @ (if Rollback opts then [(''rollback'', JBool True)] else [])"

subsection \<open>Rows (types.go)\<close>

record Apply =
  ap_ID :: int
  ap_ApplyIdentifier :: string
  ap_LockID :: int
  ap_PlanID :: int
  ap_Database :: string
  ap_DatabaseType :: string
  ap_Repository :: string
  ap_PullRequest :: int
  ap_Environment :: string
  ap_Deployment :: string
  ap_Caller :: string
  ap_InstallationID :: int
  ap_ExternalID :: string
  ap_IdempotencyKey :: "string option"
  ap_Engine :: string
  ap_State :: string
  ap_ErrorMessage :: "string option"
  ap_Options :: "json_object option"
  ap_Attempt :: int
  ap_LeaseOwner :: string
  ap_LeaseToken :: string
  ap_LeaseAcquiredAt :: "int option"
  ap_CreatedAt :: int
  ap_StartedAt :: "int option"
  ap_CompletedAt :: "int option"
  ap_RevertSkippedAt :: "int option"
  ap_UpdatedAt :: int

record ApplyOperation =
  op_ID :: int
  op_ApplyID :: int
  op_Deployment :: string
  op_OperationKey :: string
  op_OperationKind :: string
  op_Target :: string
  op_State :: string
  op_ErrorMessage :: "string option"
  op_CutoverPolicy :: string
  op_OnFailure :: string
  op_Attempt :: int
  op_StartedAt :: "int option"
  op_CompletedAt :: "int option"
  op_LeaseOwner :: string
  op_LeaseToken :: string
  op_LeaseAcquiredAt :: "int option"
  op_EngineResumeContext :: "string option"
  op_EngineResumeMetadata :: "string option"
  op_CreatedAt :: int
  op_UpdatedAt :: int

record Task =
  tk_ID :: int
  tk_TaskIdentifier :: string
  tk_ApplyID :: int
  tk_ApplyOperationID :: "int option"
  tk_PlanID :: int
  tk_Database :: string
  tk_DatabaseType :: string
  tk_Engine :: string
  tk_Repository :: string
  tk_PullRequest :: int
  tk_Environment :: string
  tk_State :: string
  tk_ErrorMessage :: "string option"
  tk_Options :: string
  tk_Attempt :: int
  tk_Namespace :: string
  tk_TableName :: string
  tk_Shard :: string
  tk_DDL :: string
  tk_DDLAction :: string
  tk_RowsCopied :: int
  tk_RowsTotal :: int
  tk_ProgressPercent :: int
  tk_ETASeconds :: int
  tk_ChecksumRowsChecked :: int
  tk_ChecksumRowsTotal :: int
  tk_CutoverAttempts :: int
  tk_IsInstant :: bool
  tk_ReadyToComplete :: bool
  tk_EngineMigrationID :: string
  tk_CreatedAt :: int
  tk_UpdatedAt :: int
  tk_StartedAt :: "int option"
  tk_CompletedAt :: "int option"

record ApplyControlRequest =
  cr_ID :: int
  cr_ApplyID :: int
  cr_Operation :: string
  cr_Status :: string
  cr_RequestedBy :: string
  cr_ErrorMessage :: "string option"
  cr_Metadata :: string
  cr_CompletedAt :: "int option"
  cr_CreatedAt :: int
  cr_UpdatedAt :: int

record EngineResumeState =
  rs_ApplyOperationID :: int
  rs_MigrationContext :: string
  rs_Metadata :: string

text \<open>
  The tables, each with its AUTO\_INCREMENT counter. Rows are in insertion order, which is the order of their
  primary keys.
\<close>

record db =
  db_applies :: "Apply list"
  db_operations :: "ApplyOperation list"
  db_tasks :: "Task list"
  db_control_requests :: "ApplyControlRequest list"
  next_apply_id :: int
  next_operation_id :: int
  next_task_id :: int
  next_control_request_id :: int

definition empty_db :: db where
  "empty_db = \<lparr>db_applies = [], db_operations = [], db_tasks = [], db_control_requests = [],
     next_apply_id = 1, next_operation_id = 1, next_task_id = 1, next_control_request_id = 1\<rparr>"

definition nullString :: "string \<Rightarrow> string option" where
  "nullString s = (if s = [] then None else Some s)"

definition null_text :: "string option \<Rightarrow> string" where
  "null_text v = (case v of Some s \<Rightarrow> s | None \<Rightarrow> [])"

definition coalesce :: "'a option \<Rightarrow> 'a \<Rightarrow> 'a option" where
  "coalesce v d = (case v of Some x \<Rightarrow> Some x | None \<Rightarrow> Some d)"

definition Apply_Lease :: "Apply option \<Rightarrow> ApplyLease" where
  "Apply_Lease a = (case a of
       None \<Rightarrow> \<lparr>al_ApplyID = 0, al_Owner = [], al_Token = []\<rparr>
     | Some r \<Rightarrow> \<lparr>al_ApplyID = ap_ID r, al_Owner = ap_LeaseOwner r, al_Token = ap_LeaseToken r\<rparr>)"

definition ApplyOperation_Lease :: "ApplyOperation option \<Rightarrow> OperationLease" where
  "ApplyOperation_Lease op = (case op of
       None \<Rightarrow> \<lparr>ol_ApplyID = 0, ol_OperationID = 0, ol_Owner = [], ol_Token = []\<rparr>
     | Some r \<Rightarrow> \<lparr>ol_ApplyID = op_ApplyID r, ol_OperationID = op_ID r,
                   ol_Owner = op_LeaseOwner r, ol_Token = op_LeaseToken r\<rparr>)"

definition GetOptions :: "Apply \<Rightarrow> ApplyOptions" where
  "GetOptions a = ParseApplyOptions (ap_Options a)"

definition SetOptions :: "Apply \<Rightarrow> ApplyOptions \<Rightarrow> Apply" where
  "SetOptions a opts = a\<lparr>ap_Options := Some (MarshalApplyOptions opts)\<rparr>"

definition IsRollback :: "Apply option \<Rightarrow> bool" where
  "IsRollback a = (case a of None \<Rightarrow> False | Some r \<Rightarrow> Rollback (ParseApplyOptions (ap_Options r)))"

subsection \<open>Plans (types.go)\<close>

record TableChange =
  tc_Namespace :: string
  tc_Table :: string
  tc_DDL :: string
  tc_Operation :: string

record ShardPlan =
  sp_Shard :: string
  sp_Namespace :: string
  sp_NeedsChange :: bool

record NamespacePlanData =
  np_Tables :: "TableChange list"
  np_Shards :: "ShardPlan list"
  np_OriginalFiles :: "(string \<times> string) list"
  np_OriginalFilesCaptured :: bool
  np_Artifacts :: "(string \<times> string) list"

text \<open>
  The map from namespaces to plan data as an association list with distinct keys; a value is a pointer,
  so \<open>None\<close> is nil. Ranging over the tables of a nil value panics in the source, which is the result \<open>None\<close> of
  \<open>FlatDDLChanges\<close>.
\<close>

type_synonym namespaces = "(string \<times> NamespacePlanData option) list"

fun flat_changes :: "namespaces \<Rightarrow> TableChange list option" where
  "flat_changes [] = Some []"
| "flat_changes ((k, None) # kvs) = None"
| "flat_changes ((k, Some d) # kvs) = (case flat_changes kvs of
       None \<Rightarrow> None
     | Some rest \<Rightarrow> Some (map (\<lambda>tc. if tc_Namespace tc = [] then tc\<lparr>tc_Namespace := k\<rparr> else tc) (np_Tables d) @ rest))"

definition FlatDDLChanges :: "namespaces \<Rightarrow> TableChange list option" where
  "FlatDDLChanges nss = (if length nss = 0 then Some [] else flat_changes (sort_key fst nss))"

definition HasOriginalFilesCapture :: "namespaces option \<Rightarrow> bool" where
  "HasOriginalFilesCapture p = (case p of
       None \<Rightarrow> False
     | Some nss \<Rightarrow> length nss \<noteq> 0 \<and>
         list_all (\<lambda>(k, ns). case ns of None \<Rightarrow> False | Some d \<Rightarrow> np_OriginalFilesCaptured d) nss)"

subsection \<open>Facts about options and leases\<close>

lemma coalesce_simps [simp]: "coalesce (Some x) d = Some x" "coalesce None d = Some d"
  by (simp_all add: coalesce_def)

lemma null_text_nullString [simp]: "null_text (nullString s) = s"
  by (simp add: null_text_def nullString_def)

lemma option_key_self [simp]: "k \<in> set option_keys \<Longrightarrow> option_key k = Some k"
  by (simp add: option_key_def)

lemma decode_fields_append:
  "decode_fields (xs @ ys) o0 = (case decode_fields xs o0 of None \<Rightarrow> None | Some o1 \<Rightarrow> decode_fields ys o1)"
  by (induction xs arbitrary: o0) (auto split: option.splits)

lemma itoa_volume: "v \<in> {1..11} \<Longrightarrow> itoa v \<noteq> [] \<and> atoi (itoa v) = Some v"
proof -
  have "list_all (\<lambda>v. itoa v \<noteq> [] \<and> atoi (itoa v) = Some v) [1..11]" by code_simp
  then show "v \<in> {1..11} \<Longrightarrow> ?thesis" by (auto simp: list_all_iff)
qed

text \<open>Decoding one encoded field, for each of the eight fields.\<close>

lemma decode_encoded_field:
  "decode_fields (if b then [(''allow_unsafe'', JBool True)] else []) o0 = Some (o0\<lparr>AllowUnsafe := b \<or> AllowUnsafe o0\<rparr>)"
  "decode_fields (if s \<noteq> [] then [(''branch'', JStr s)] else []) o0 = Some (o0\<lparr>Branch := if s = [] then Branch o0 else s\<rparr>)"
  "decode_fields (if b then [(''defer_cutover'', JBool True)] else []) o0 = Some (o0\<lparr>DeferCutover := b \<or> DeferCutover o0\<rparr>)"
  "decode_fields (if b then [(''defer_deploy'', JBool True)] else []) o0 = Some (o0\<lparr>DeferDeploy := b \<or> DeferDeploy o0\<rparr>)"
  "decode_fields (if b then [(''skip_revert'', JBool True)] else []) o0 = Some (o0\<lparr>SkipRevert := b \<or> SkipRevert o0\<rparr>)"
  "decode_fields (if n \<noteq> 0 then [(''volume'', JNum n)] else []) o0 = Some (o0\<lparr>Volume := if n = 0 then Volume o0 else n\<rparr>)"
  "decode_fields (if s \<noteq> [] then [(''target'', JStr s)] else []) o0 = Some (o0\<lparr>Target := if s = [] then Target o0 else s\<rparr>)"
  "decode_fields (if b then [(''rollback'', JBool True)] else []) o0 = Some (o0\<lparr>Rollback := b \<or> Rollback o0\<rparr>)"
  by (simp_all add: decode_field_def option_keys_def decode_bool_def decode_string_def decode_int_def)

lemma Parse_Marshal: "ParseApplyOptions (Some (MarshalApplyOptions opts)) = opts"
proof -
  have "decode_fields (MarshalApplyOptions opts) emptyApplyOptions = Some opts"
    unfolding MarshalApplyOptions_def decode_fields_append decode_encoded_field option.case
    by (simp add: emptyApplyOptions_def)
  then show ?thesis by (simp add: ParseApplyOptions_def)
qed

lemma FromMap_Map: 
  assumes "0 \<le> Volume opts" "Volume opts \<le> 11"
  shows "ApplyOptionsFromMap (ApplyOptions_Map opts) = opts"
proof -
  have v: "Volume opts > 0 \<Longrightarrow> itoa (Volume opts) \<noteq> [] \<and> atoi (itoa (Volume opts)) = Some (Volume opts)"
    using itoa_volume [of "Volume opts"] assms by simp
  have g: "map_get (put_if b k v m) k' = (if b \<and> k = k' then v else map_get m k')" for b k v m k'
    by (simp add: put_if_def map_get_def)
  have e: "map_get Map.empty k = []" for k by (simp add: map_get_def)
  show ?thesis
    using v assms by (cases opts) (auto simp: ApplyOptionsFromMap_def ApplyOptions_Map_def g e)
qed

text \<open>Options JSON round trip: what the JSON column stores for any options value, \<open>ParseApplyOptions\<close> reads
back unchanged; zero values are omitted by the encoder and restored by the decoder.\<close>

theorem apply_options_json_roundtrip:
  "ParseApplyOptions (Some (MarshalApplyOptions opts)) = opts"
  by (rule Parse_Marshal)

text \<open>Options map round trip: the API's option map of any options value whose volume is unset or one of the
valid volumes 1 to 11 is read back unchanged by \<open>ApplyOptionsFromMap\<close>.\<close>

theorem apply_options_map_roundtrip:
  assumes "0 \<le> Volume opts" "Volume opts \<le> 11"
  shows "ApplyOptionsFromMap (ApplyOptions_Map opts) = opts"
  using assms by (rule FromMap_Map)

theorem apply_options_map_roundtrip_witness:
  "ApplyOptionsFromMap (ApplyOptions_Map (emptyApplyOptions\<lparr>DeferCutover := True, Branch := ''main'', Volume := 11\<rparr>))
     = emptyApplyOptions\<lparr>DeferCutover := True, Branch := ''main'', Volume := 11\<rparr>"
  by (rule apply_options_map_roundtrip) (simp_all add: emptyApplyOptions_def)

end
