(* ===== verification/SB_Leases.thy ===== *)
theory SB_Leases
  imports SB_Storage
begin

section \<open>Lease guards and state sets of the MySQL store (applies.go, apply\_operations.go)\<close>

text \<open>
  What the store's operations share: the sets of states their queries list, the lease a call's context carries and how it guards
  a write, and the re-check that tells a lost lease from a write that changed no column.
  A lease token is compared by the server, hence with \<open>sql_eq\<close>.
\<close>

subsection \<open>Sets of states (applies.go)\<close>

definition maxRecoveryAttempts :: int where "maxRecoveryAttempts = 10"
definition retryableRecoveryFreshnessDays :: int where "retryableRecoveryFreshnessDays = 1"

text \<open>INTERVAL 1 MINUTE and INTERVAL 1 DAY in seconds.\<close>

definition applyOperationHeartbeatStaleness :: int where "applyOperationHeartbeatStaleness = 60"
definition days :: "int \<Rightarrow> int" where "days n = n * 86400"

definition claimableApplyStates :: "string list" where
  "claimableApplyStates =
     [Apply_Running, Apply_RunningDegraded, Apply_Resuming, Apply_WaitingForDeploy, Apply_WaitingForCutover,
      Apply_Recovering, ''recovering_cutover'', Apply_CuttingOver, Apply_RevertWindow, Apply_PreparingBranch,
      Apply_ApplyingBranchChanges, Apply_ValidatingBranch, Apply_CreatingDeployRequest, Apply_ValidatingDeployRequest]"

definition terminalApplyStates :: "string list" where
  "terminalApplyStates = [Apply_Completed, Apply_Failed, Apply_Stopped, Apply_Cancelled, Apply_Reverted]"

definition isActiveApplyState :: "string \<Rightarrow> bool" where
  "isActiveApplyState applyState \<longleftrightarrow> \<not> IsTerminalApplyState applyState"

definition hasApplyTarget :: "string \<Rightarrow> string \<Rightarrow> string \<Rightarrow> bool" where
  "hasApplyTarget database dbType environment \<longleftrightarrow> database \<noteq> [] \<and> dbType \<noteq> [] \<and> environment \<noteq> []"

definition nonTerminalApplyStatePredicate :: "string \<Rightarrow> bool" where
  "nonTerminalApplyStatePredicate st \<longleftrightarrow> \<not> sql_in st terminalApplyStates"

definition isStartingClaim :: "string \<Rightarrow> bool" where
  "isStartingClaim applyState \<longleftrightarrow> IsState applyState [Apply_Pending, Apply_Stopped, Apply_FailedRetryable]"

subsection \<open>The apply lease (applies.go)\<close>

text \<open>\<open>Inr None\<close> is a context without a lease; a lease that is invalid or for another apply is refused.\<close>

definition applyLeaseFromContext :: "call_ctx \<Rightarrow> int \<Rightarrow> storage_error + ApplyLease option" where
  "applyLeaseFromContext ctx applyID = (case ApplyLeaseFromContext ctx of
       None \<Rightarrow> Inr None
     | Some lease \<Rightarrow>
         if \<not> ApplyLease_Valid lease then Inl ErrApplyLeaseLost
         else if al_ApplyID lease \<noteq> applyID then Inl ErrApplyLeaseLost
         else Inr (Some lease))"

definition applyLeaseMatches :: "ApplyLease \<Rightarrow> db \<Rightarrow> bool" where
  "applyLeaseMatches lease d \<longleftrightarrow>
     list_ex (\<lambda>a. ap_ID a = al_ApplyID lease \<and> sql_eq (ap_LeaseToken a) (al_Token lease)) (db_applies d)"

definition ensureApplyLeaseStillOwned :: "ApplyLease \<Rightarrow> db \<Rightarrow> storage_error + unit" where
  "ensureApplyLeaseStillOwned lease d = (if applyLeaseMatches lease d then Inr () else Inl ErrApplyLeaseLost)"

definition confirmLeaseOnZeroRows :: "nat \<Rightarrow> ApplyLease \<Rightarrow> db \<Rightarrow> storage_error + nat" where
  "confirmLeaseOnZeroRows rows lease d =
     (if rows = 0 then bind_result (ensureApplyLeaseStillOwned lease d) (\<lambda>_. Inr rows) else Inr rows)"

subsection \<open>The operation lease (apply\_operations.go)\<close>

definition operationLeaseOwnsRow :: "int \<Rightarrow> string \<Rightarrow> db \<Rightarrow> bool" where
  "operationLeaseOwnsRow i token d \<longleftrightarrow>
     list_ex (\<lambda>r. op_ID r = i \<and> sql_eq (op_LeaseToken r) token) (db_operations d)"

definition ensureOperationLeaseStillOwned :: "OperationLease \<Rightarrow> db \<Rightarrow> storage_error + unit" where
  "ensureOperationLeaseStillOwned lease d =
     (if operationLeaseOwnsRow (ol_OperationID lease) (ol_Token lease) d then Inr () else Inl ErrApplyLeaseLost)"

definition operationLeaseOwnsApply :: "OperationLease \<Rightarrow> int \<Rightarrow> db \<Rightarrow> bool" where
  "operationLeaseOwnsApply lease applyID d \<longleftrightarrow>
     list_ex (\<lambda>r. op_ID r = ol_OperationID lease \<and> op_ApplyID r = applyID \<and>
                  sql_eq (op_LeaseToken r) (ol_Token lease)) (db_operations d)"

definition ensureOperationLeaseOwnsApply :: "OperationLease \<Rightarrow> int \<Rightarrow> db \<Rightarrow> storage_error + unit" where
  "ensureOperationLeaseOwnsApply lease applyID d =
     (if operationLeaseOwnsApply lease applyID d then Inr () else Inl ErrApplyLeaseLost)"

datatype operationWriteGuard =
    operationGuardNone
  | operationGuardApply ApplyLease
  | operationGuardOperation OperationLease

definition operationWriteGuardFromContext :: "call_ctx \<Rightarrow> storage_error + operationWriteGuard" where
  "operationWriteGuardFromContext ctx = (case OperationLeaseFromContext ctx of
       Some lease \<Rightarrow> if \<not> OperationLease_Valid lease then Inl ErrApplyLeaseLost else Inr (operationGuardOperation lease)
     | None \<Rightarrow> (case ApplyLeaseFromContext ctx of
           Some lease \<Rightarrow> if \<not> ApplyLease_Valid lease then Inl ErrApplyLeaseLost else Inr (operationGuardApply lease)
         | None \<Rightarrow> Inr operationGuardNone))"

text \<open>The guard's JOIN and WHERE fragments with their bind arguments, as the rows they admit.\<close>

definition guard_admits :: "operationWriteGuard \<Rightarrow> db \<Rightarrow> ApplyOperation \<Rightarrow> bool" where
  "guard_admits g d r = (case g of
       operationGuardNone \<Rightarrow> True
     | operationGuardApply lease \<Rightarrow>
         list_ex (\<lambda>a. ap_ID a = op_ApplyID r \<and> sql_eq (ap_LeaseToken a) (al_Token lease)) (db_applies d)
         \<and> op_ApplyID r = al_ApplyID lease
     | operationGuardOperation lease \<Rightarrow> sql_eq (op_LeaseToken r) (ol_Token lease))"

subsection \<open>Well-formed tables\<close>

text \<open>
  What the schema's keys guarantee: primary keys are positive, distinct and below the counter, and the unique keys hold under the
  column's collation.
\<close>

definition operation_key_of :: "ApplyOperation \<Rightarrow> int \<times> string \<times> string" where
  "operation_key_of r = (op_ApplyID r, to_lower (op_Deployment r), to_lower (op_OperationKey r))"

definition ids_below :: "int list \<Rightarrow> int \<Rightarrow> bool" where
  "ids_below ids n \<longleftrightarrow> distinct ids \<and> list_all (\<lambda>i. 0 < i \<and> i < n) ids \<and> 0 < n"

definition wf_operations :: "db \<Rightarrow> bool" where
  "wf_operations d \<longleftrightarrow> ids_below (map op_ID (db_operations d)) (next_operation_id d)
     \<and> distinct (map operation_key_of (db_operations d))"

definition wf_applies :: "db \<Rightarrow> bool" where
  "wf_applies d \<longleftrightarrow> ids_below (map ap_ID (db_applies d)) (next_apply_id d)
     \<and> distinct (map (\<lambda>a. to_lower (ap_ApplyIdentifier a)) (db_applies d))"

lemma ids_below_snoc: "ids_below ids n \<Longrightarrow> ids_below (ids @ [n]) (n + 1)"
  by (auto simp: ids_below_def list_all_iff)

lemma wf_operations_distinct: "wf_operations d \<Longrightarrow> distinct (map op_ID (db_operations d))"
  by (simp add: wf_operations_def ids_below_def)

lemma wf_applies_distinct: "wf_applies d \<Longrightarrow> distinct (map ap_ID (db_applies d))"
  by (simp add: wf_applies_def ids_below_def)

lemma operation_unique:
  "wf_operations d \<Longrightarrow> r \<in> set (db_operations d) \<Longrightarrow> r' \<in> set (db_operations d) \<Longrightarrow> op_ID r = op_ID r' \<Longrightarrow> r = r'"
  using wf_operations_distinct by (metis distinct_map inj_on_def)

lemma apply_unique:
  "wf_applies d \<Longrightarrow> a \<in> set (db_applies d) \<Longrightarrow> a' \<in> set (db_applies d) \<Longrightarrow> ap_ID a = ap_ID a' \<Longrightarrow> a = a'"
  using wf_applies_distinct by (metis distinct_map inj_on_def)

subsection \<open>The state sets partition the apply states\<close>

lemma sql_eq_Apply [simp]: "s \<in> set Apply_states \<Longrightarrow> t \<in> set Apply_states \<Longrightarrow> sql_eq s t \<longleftrightarrow> s = t"
  by (simp add: sql_eq_def)

end
