(* ===== verification/SB_Op_Store.thy ===== *)
theory SB_Op_Store
  imports SB_Leases "HOL-Library.Product_Lexorder"
begin

section \<open>The operation store (pkg/storage/mysqlstore/apply\_operations.go)\<close>

text \<open>
  The rows a driver claims: one per deployment and operation key of an apply. An operation of the store that changes tables is a function from the
  database to an error or the new database; an error leaves the database as it was, because the statement
  or its transaction did not commit. \<open>now\<close> is the server's NOW() and \<open>time_Now\<close> the client's clock, \<open>token\<close> is the
  fresh UUID of a claim, \<open>locked\<close> are the ids of the rows other transactions have locked
  (SKIP LOCKED). A claim runs a SELECT and then an UPDATE under READ COMMITTED: what other transactions commit in
  between is the argument \<open>between\<close> of the claim.
\<close>

subsection \<open>Rows\<close>

text \<open>
  ON UPDATE CURRENT\_TIMESTAMP: a statement that does not set updated\_at itself stamps it on the rows
  it changes.
\<close>

definition on_update :: "int \<Rightarrow> (ApplyOperation \<Rightarrow> ApplyOperation) \<Rightarrow> ApplyOperation \<Rightarrow> ApplyOperation" where
  "on_update now f r = (let r' = f r in if r' = r then r else r'\<lparr>op_UpdatedAt := now\<rparr>)"

definition operation_order :: "ApplyOperation \<Rightarrow> int \<times> int" where
  "operation_order r = (op_CreatedAt r, op_ID r)"

definition insertApplyOperation :: "int \<Rightarrow> ApplyOperation \<Rightarrow> db \<Rightarrow> storage_error + (ApplyOperation \<times> db)" where
  "insertApplyOperation now ad d =
     (let stateVal = (if op_State ad = [] then Apply_Pending else op_State ad);
          cutoverPolicy = (if op_CutoverPolicy ad = [] then CutoverPolicyRolling else op_CutoverPolicy ad);
          onFailure = (if op_OnFailure ad = [] then OnFailureHalt else op_OnFailure ad);
          operationKind = (if op_OperationKind ad = [] then ApplyOperationKindWork else op_OperationKind ad);
          i = next_operation_id d;
          row = \<lparr>op_ID = i, op_ApplyID = op_ApplyID ad, op_Deployment = op_Deployment ad, op_OperationKey = op_OperationKey ad,
            op_OperationKind = operationKind, op_Target = op_Target ad, op_State = stateVal,
            op_ErrorMessage = nullString (null_text (op_ErrorMessage ad)), op_CutoverPolicy = cutoverPolicy, op_OnFailure = onFailure,
            op_Attempt = 0, op_StartedAt = op_StartedAt ad, op_CompletedAt = op_CompletedAt ad,
            op_LeaseOwner = [], op_LeaseToken = [], op_LeaseAcquiredAt = None,
            op_EngineResumeContext = nullString (null_text (op_EngineResumeContext ad)),
            op_EngineResumeMetadata = nullString (null_text (op_EngineResumeMetadata ad)),
            op_CreatedAt = now, op_UpdatedAt = now\<rparr> in
      if list_ex (\<lambda>r. operation_key_of r = operation_key_of row) (db_operations d) then Inl ErrApplyOperationExists
      else Inr (ad\<lparr>op_ID := i, op_State := stateVal, op_OperationKind := operationKind,
                   op_CutoverPolicy := cutoverPolicy, op_OnFailure := onFailure\<rparr>,
                d\<lparr>db_operations := db_operations d @ [row], next_operation_id := i + 1\<rparr>))"

definition op_Get :: "int \<Rightarrow> db \<Rightarrow> ApplyOperation option" where
  "op_Get i d = find (\<lambda>r. op_ID r = i) (db_operations d)"

definition GetByApplyDeploymentAndOperationKey :: "int \<Rightarrow> string \<Rightarrow> string \<Rightarrow> db \<Rightarrow> ApplyOperation option" where
  "GetByApplyDeploymentAndOperationKey applyID deployment operationKey d =
     find (\<lambda>r. op_ApplyID r = applyID \<and> sql_eq (op_Deployment r) deployment \<and> sql_eq (op_OperationKey r) operationKey)
       (db_operations d)"

definition GetByApplyAndDeployment :: "int \<Rightarrow> string \<Rightarrow> db \<Rightarrow> ApplyOperation option" where
  "GetByApplyAndDeployment applyID deployment d = GetByApplyDeploymentAndOperationKey applyID deployment [] d"

definition ListByApply :: "int \<Rightarrow> db \<Rightarrow> ApplyOperation list" where
  "ListByApply applyID d = sort_key operation_order (filter (\<lambda>r. op_ApplyID r = applyID) (db_operations d))"

subsection \<open>Guarded writes of one row\<close>

definition applyOperationExists :: "int \<Rightarrow> db \<Rightarrow> bool" where
  "applyOperationExists i d \<longleftrightarrow> list_ex (\<lambda>r. op_ID r = i) (db_operations d)"

definition applyOperationMissingResult :: "bool \<Rightarrow> storage_error + unit" where
  "applyOperationMissingResult missingOK = (if missingOK then Inr () else Inl ErrApplyOperationNotFound)"

text \<open>The pair (Exists, BelongsToLease) of the source's result struct.\<close>

definition applyOperationLeaseMatch :: "int \<Rightarrow> ApplyLease \<Rightarrow> db \<Rightarrow> bool \<times> bool" where
  "applyOperationLeaseMatch i lease d = (case op_Get i d of
       None \<Rightarrow> (False, False)
     | Some r \<Rightarrow> (True, op_ApplyID r = al_ApplyID lease))"

definition checkUpdatedOrExists :: "nat \<Rightarrow> int \<Rightarrow> operationWriteGuard \<Rightarrow> bool \<Rightarrow> db \<Rightarrow> storage_error + unit" where
  "checkUpdatedOrExists rows i guard missingOK d =
     (if rows > 0 then Inr ()
      else case guard of
        operationGuardOperation lease \<Rightarrow>
          if operationLeaseOwnsRow i (ol_Token lease) d then Inr ()
          else if \<not> applyOperationExists i d then applyOperationMissingResult missingOK
          else Inl ErrApplyLeaseLost
      | operationGuardApply lease \<Rightarrow>
          bind_result (ensureApplyLeaseStillOwned lease d) (\<lambda>_.
            case applyOperationLeaseMatch i lease d of (ex, belongs) \<Rightarrow>
              if \<not> ex then applyOperationMissingResult missingOK
              else if \<not> belongs then Inl ErrApplyLeaseLost
              else Inr ())
      | operationGuardNone \<Rightarrow>
          if \<not> applyOperationExists i d then applyOperationMissingResult missingOK else Inr ())"

text \<open>One guarded UPDATE of row \<open>i\<close> with the effect \<open>f\<close> on the row, and the check of its row count.\<close>

definition guarded_update ::
  "operationWriteGuard \<Rightarrow> int \<Rightarrow> bool \<Rightarrow> (ApplyOperation \<Rightarrow> ApplyOperation) \<Rightarrow> db \<Rightarrow> storage_error + db" where
  "guarded_update guard i missingOK f d =
     (let sel = (\<lambda>r. op_ID r = i \<and> guard_admits guard d r);
          d' = d\<lparr>db_operations := update_where sel f (db_operations d)\<rparr> in
      bind_result (checkUpdatedOrExists (rows_changed sel f (db_operations d)) i guard missingOK d') (\<lambda>_. Inr d'))"

definition execStateUpdate ::
  "int \<Rightarrow> call_ctx \<Rightarrow> int \<Rightarrow> (ApplyOperation \<Rightarrow> ApplyOperation) \<Rightarrow> db \<Rightarrow> storage_error + db" where
  "execStateUpdate now ctx i setClause d =
     bind_result (operationWriteGuardFromContext ctx) (\<lambda>guard. guarded_update guard i False (on_update now setClause) d)"

definition UpdateState :: "int \<Rightarrow> call_ctx \<Rightarrow> int \<Rightarrow> string \<Rightarrow> db \<Rightarrow> storage_error + db" where
  "UpdateState now ctx i newState d = execStateUpdate now ctx i (\<lambda>r. r\<lparr>op_State := newState\<rparr>) d"

definition MarkStarted :: "int \<Rightarrow> call_ctx \<Rightarrow> int \<Rightarrow> db \<Rightarrow> storage_error + db" where
  "MarkStarted now ctx i d = execStateUpdate now ctx i
     (\<lambda>r. r\<lparr>op_State := Apply_Running, op_StartedAt := coalesce (op_StartedAt r) now\<rparr>) d"

definition MarkCompleted :: "int \<Rightarrow> call_ctx \<Rightarrow> int \<Rightarrow> db \<Rightarrow> storage_error + db" where
  "MarkCompleted now ctx i d = execStateUpdate now ctx i
     (\<lambda>r. r\<lparr>op_State := Apply_Completed, op_CompletedAt := coalesce (op_CompletedAt r) now\<rparr>) d"

definition MarkFailed :: "int \<Rightarrow> call_ctx \<Rightarrow> int \<Rightarrow> string \<Rightarrow> db \<Rightarrow> storage_error + db" where
  "MarkFailed now ctx i errMsg d = execStateUpdate now ctx i
     (\<lambda>r. r\<lparr>op_State := Apply_Failed, op_ErrorMessage := nullString errMsg,
            op_CompletedAt := coalesce (op_CompletedAt r) now\<rparr>) d"

definition MarkTerminal :: "int \<Rightarrow> call_ctx \<Rightarrow> int \<Rightarrow> string \<Rightarrow> db \<Rightarrow> storage_error + db" where
  "MarkTerminal now ctx i newState d = execStateUpdate now ctx i
     (\<lambda>r. r\<lparr>op_State := newState, op_CompletedAt := coalesce (op_CompletedAt r) now\<rparr>) d"

definition SaveEngineResumeState ::
  "int \<Rightarrow> call_ctx \<Rightarrow> int \<Rightarrow> EngineResumeState option \<Rightarrow> db \<Rightarrow> storage_error + db" where
  "SaveEngineResumeState now ctx operationID resumeState d = (case resumeState of
       None \<Rightarrow> Inl (ErrOther ''resume state is nil'')
     | Some rs \<Rightarrow>
         if rs_ApplyOperationID rs \<noteq> 0 \<and> rs_ApplyOperationID rs \<noteq> operationID
         then Inl (ErrOther ''resume state belongs to another apply_operation'')
         else bind_result (operationWriteGuardFromContext ctx) (\<lambda>guard.
           let metadata = (if rs_Metadata rs = [] then ''{}'' else rs_Metadata rs) in
           guarded_update guard operationID False
             (on_update now (\<lambda>r. r\<lparr>op_EngineResumeContext := nullString (rs_MigrationContext rs),
                                    op_EngineResumeMetadata := Some metadata\<rparr>)) d))"

definition GetEngineResumeState :: "int \<Rightarrow> db \<Rightarrow> storage_error + EngineResumeState" where
  "GetEngineResumeState operationID d = (case op_Get operationID d of
       None \<Rightarrow> Inl ErrApplyOperationNotFound
     | Some r \<Rightarrow>
         if op_EngineResumeMetadata r = None \<or> null_text (op_EngineResumeMetadata r) = [] then Inl ErrEngineResumeStateNotFound
         else Inr \<lparr>rs_ApplyOperationID = operationID, rs_MigrationContext = null_text (op_EngineResumeContext r),
                   rs_Metadata = null_text (op_EngineResumeMetadata r)\<rparr>)"

definition op_Heartbeat :: "int \<Rightarrow> call_ctx \<Rightarrow> int \<Rightarrow> db \<Rightarrow> storage_error + db" where
  "op_Heartbeat now ctx i d = bind_result (operationWriteGuardFromContext ctx) (\<lambda>guard.
     guarded_update guard i True (\<lambda>r. r\<lparr>op_UpdatedAt := now\<rparr>) d)"

subsection \<open>Writes of all rows of an apply\<close>

definition DeleteByApply :: "call_ctx \<Rightarrow> int \<Rightarrow> db \<Rightarrow> storage_error + db" where
  "DeleteByApply ctx applyID d = bind_result (applyLeaseFromContext ctx applyID) (\<lambda>hasLease. case hasLease of
       None \<Rightarrow> Inr (d\<lparr>db_operations := filter (\<lambda>r. op_ApplyID r \<noteq> applyID) (db_operations d)\<rparr>)
     | Some lease \<Rightarrow>
         (let sel = (\<lambda>r. op_ApplyID r = applyID
                \<and> list_ex (\<lambda>a. ap_ID a = op_ApplyID r \<and> sql_eq (ap_LeaseToken a) (al_Token lease)) (db_applies d));
              d' = d\<lparr>db_operations := filter (\<lambda>r. \<not> sel r) (db_operations d)\<rparr> in
          bind_result (confirmLeaseOnZeroRows (length (filter sel (db_operations d))) lease d') (\<lambda>_. Inr d')))"

definition stop_row :: "int \<Rightarrow> ApplyOperation \<Rightarrow> ApplyOperation" where
  "stop_row now r = r\<lparr>op_State := Apply_Stopped, op_UpdatedAt := now\<rparr>"

definition MarkPendingStoppedByApply :: "int \<Rightarrow> call_ctx \<Rightarrow> int \<Rightarrow> db \<Rightarrow> storage_error + (nat \<times> db)" where
  "MarkPendingStoppedByApply now ctx applyID d = (case OperationLeaseFromContext ctx of
       Some opLease \<Rightarrow>
         if \<not> OperationLease_Valid opLease then Inl ErrApplyLeaseLost
         else if ol_ApplyID opLease \<noteq> applyID then Inl ErrApplyLeaseLost
         else
           (let sel = (\<lambda>r. op_ApplyID r = applyID \<and> sql_eq (op_State r) Apply_Pending
                  \<and> list_ex (\<lambda>o'. op_ApplyID o' = op_ApplyID r \<and> op_ID o' = ol_OperationID opLease
                       \<and> sql_eq (op_LeaseToken o') (ol_Token opLease)) (db_operations d));
                d' = d\<lparr>db_operations := update_where sel (stop_row now) (db_operations d)\<rparr>;
                rows = rows_changed sel (stop_row now) (db_operations d) in
            if rows = 0 then bind_result (ensureOperationLeaseStillOwned opLease d') (\<lambda>_. Inr (rows, d'))
            else Inr (rows, d'))
     | None \<Rightarrow> bind_result (applyLeaseFromContext ctx applyID) (\<lambda>hasLease. case hasLease of
           None \<Rightarrow>
             (let sel = (\<lambda>r. op_ApplyID r = applyID \<and> sql_eq (op_State r) Apply_Pending) in
              Inr (rows_changed sel (stop_row now) (db_operations d),
                   d\<lparr>db_operations := update_where sel (stop_row now) (db_operations d)\<rparr>))
         | Some lease \<Rightarrow>
             (let sel = (\<lambda>r. op_ApplyID r = applyID \<and> sql_eq (op_State r) Apply_Pending
                    \<and> list_ex (\<lambda>a. ap_ID a = op_ApplyID r \<and> sql_eq (ap_LeaseToken a) (al_Token lease)) (db_applies d));
                  d' = d\<lparr>db_operations := update_where sel (stop_row now) (db_operations d)\<rparr> in
              bind_result (confirmLeaseOnZeroRows (rows_changed sel (stop_row now) (db_operations d)) lease d')
                (\<lambda>rows. Inr (rows, d')))))"

subsection \<open>Claiming the next operation\<close>

text \<open>The EXISTS subqueries of the claim queries.\<close>

definition pending_request :: "db \<Rightarrow> int \<Rightarrow> string \<Rightarrow> bool" where
  "pending_request d applyID operation \<longleftrightarrow>
     list_ex (\<lambda>cr. cr_ApplyID cr = applyID \<and> sql_eq (cr_Operation cr) operation
       \<and> sql_eq (cr_Status cr) ControlRequestPending) (db_control_requests d)"

definition has_sibling :: "db \<Rightarrow> ApplyOperation \<Rightarrow> bool" where
  "has_sibling d r \<longleftrightarrow> list_ex (\<lambda>s. op_ApplyID s = op_ApplyID r \<and> op_ID s \<noteq> op_ID r) (db_operations d)"

definition is_stale :: "int \<Rightarrow> int \<Rightarrow> bool" where
  "is_stale now updated \<longleftrightarrow> updated < now - applyOperationHeartbeatStaleness"

text \<open>An earlier deployment that has not settled for the purpose of starting \<open>r\<close>: the policy decides.\<close>

definition blocks_start :: "ApplyOperation \<Rightarrow> ApplyOperation \<Rightarrow> bool" where
  "blocks_start r earlier \<longleftrightarrow>
     op_ApplyID earlier = op_ApplyID r
     \<and> \<not> sql_eq (op_Deployment earlier) (op_Deployment r)
     \<and> operation_order earlier < operation_order r
     \<and> ((sql_eq (op_CutoverPolicy r) CutoverPolicyBarrier
           \<and> \<not> sql_in (op_State earlier) [Apply_WaitingForCutover, Apply_CuttingOver, Apply_RevertWindow, Apply_Completed])
        \<or> (\<not> sql_eq (op_CutoverPolicy r) CutoverPolicyBarrier \<and> \<not> sql_eq (op_State earlier) Apply_Completed))
     \<and> \<not> (sql_eq (op_OnFailure r) OnFailureContinue \<and> sql_eq (op_State earlier) Apply_Failed)"

text \<open>SUBSTRING\_INDEX(key, '/', 1): the namespace of an operation key.\<close>

definition key_namespace :: "string \<Rightarrow> string" where
  "key_namespace k = takeWhile (\<lambda>c. c \<noteq> CHR ''/'') k"

definition blocks_finalizer :: "ApplyOperation \<Rightarrow> ApplyOperation \<Rightarrow> bool" where
  "blocks_finalizer r sibling \<longleftrightarrow>
     op_ApplyID sibling = op_ApplyID r
     \<and> sql_eq (op_Deployment sibling) (op_Deployment r)
     \<and> sql_eq (op_OperationKind sibling) ApplyOperationKindWork
     \<and> sql_eq (key_namespace (op_OperationKey sibling)) (key_namespace (op_OperationKey r))
     \<and> \<not> sql_eq (op_State sibling) Apply_Completed"

definition startable :: "db \<Rightarrow> ApplyOperation \<Rightarrow> bool" where
  "startable d r \<longleftrightarrow>
     sql_eq (op_State r) Apply_Pending
     \<and> ((\<not> sql_eq (op_OperationKind r) ApplyOperationKindGroupFinalizer \<and> \<not> list_ex (blocks_start r) (db_operations d))
        \<or> (sql_eq (op_OperationKind r) ApplyOperationKindGroupFinalizer
             \<and> \<not> list_ex (blocks_finalizer r) (db_operations d)))
     \<and> \<not> pending_request d (op_ApplyID r) ControlOperationStop"

definition stale_active :: "int \<Rightarrow> db \<Rightarrow> ApplyOperation \<Rightarrow> bool" where
  "stale_active now d r \<longleftrightarrow>
     sql_in (op_State r) claimableApplyStates
     \<and> is_stale now (op_UpdatedAt r)
     \<and> \<not> (sql_eq (op_State r) Apply_WaitingForCutover \<and> sql_eq (op_CutoverPolicy r) CutoverPolicyBarrier \<and> has_sibling d r)"

definition resumable :: "db \<Rightarrow> ApplyOperation \<Rightarrow> bool" where
  "resumable d r \<longleftrightarrow> sql_eq (op_State r) Apply_Stopped \<and> pending_request d (op_ApplyID r) ControlOperationStart"

definition deferred_deploy :: "int \<Rightarrow> db \<Rightarrow> ApplyOperation \<Rightarrow> bool" where
  "deferred_deploy now d r \<longleftrightarrow>
     sql_in (op_State r) claimableApplyStates
     \<and> list_ex (\<lambda>a. ap_ID a = op_ApplyID r \<and> sql_eq (ap_State a) Apply_WaitingForDeploy) (db_applies d)
     \<and> list_ex (\<lambda>cr. cr_ApplyID cr = op_ApplyID r \<and> sql_eq (cr_Operation cr) ControlOperationStart
          \<and> sql_eq (cr_Status cr) ControlRequestPending
          \<and> (case op_LeaseAcquiredAt r of None \<Rightarrow> True | Some t \<Rightarrow> t < cr_UpdatedAt cr \<or> op_UpdatedAt r < now - 60))
        (db_control_requests d)"

definition retryable :: "int \<Rightarrow> db \<Rightarrow> ApplyOperation \<Rightarrow> bool" where
  "retryable now d r \<longleftrightarrow>
     sql_eq (op_State r) Apply_FailedRetryable
     \<and> list_ex (\<lambda>a. ap_ID a = op_ApplyID r
          \<and> ((sql_eq (ap_State a) Apply_FailedRetryable \<and> ap_Attempt a < maxRecoveryAttempts
               \<and> ap_UpdatedAt a \<ge> now - days retryableRecoveryFreshnessDays)
             \<or> (sql_in (ap_State a) claimableApplyStates \<and> is_stale now (ap_UpdatedAt a)))) (db_applies d)"

definition claimable_operation :: "int \<Rightarrow> db \<Rightarrow> ApplyOperation \<Rightarrow> bool" where
  "claimable_operation now d r \<longleftrightarrow>
     startable d r \<or> stale_active now d r \<or> resumable d r \<or> deferred_deploy now d r \<or> retryable now d r"

text \<open>ORDER BY created\_at, id LIMIT 1 FOR UPDATE SKIP LOCKED.\<close>

definition first_unlocked :: "(ApplyOperation \<Rightarrow> bool) \<Rightarrow> int list \<Rightarrow> db \<Rightarrow> ApplyOperation option" where
  "first_unlocked p locked d =
     find (\<lambda>r. p r \<and> op_ID r \<notin> set locked) (sort_key operation_order (db_operations d))"

definition select_next_operation :: "int \<Rightarrow> int list \<Rightarrow> db \<Rightarrow> ApplyOperation option" where
  "select_next_operation now locked d = first_unlocked (claimable_operation now d) locked d"

definition lease_row :: "int \<Rightarrow> string \<Rightarrow> string \<Rightarrow> ApplyOperation \<Rightarrow> ApplyOperation" where
  "lease_row now owner token r = r\<lparr>op_UpdatedAt := now, op_LeaseOwner := owner, op_LeaseToken := token,
     op_LeaseAcquiredAt := Some now\<rparr>"

definition start_row :: "int \<Rightarrow> string \<Rightarrow> string \<Rightarrow> ApplyOperation \<Rightarrow> ApplyOperation" where
  "start_row now owner token r =
     (lease_row now owner token r)\<lparr>op_State := Apply_Running, op_StartedAt := coalesce (op_StartedAt r) now\<rparr>"

definition resume_row :: "int \<Rightarrow> string \<Rightarrow> string \<Rightarrow> ApplyOperation \<Rightarrow> ApplyOperation" where
  "resume_row now owner token r = (lease_row now owner token r)\<lparr>op_State := Apply_Resuming\<rparr>"

text \<open>
  The redispatch of a retryable operation: the operation's own attempt counts while the parent is still
  failed\_retryable, and a multi-operation apply is charged one unit of its budget, up to the budget.
\<close>

definition bump_attempt :: "int \<Rightarrow> int \<Rightarrow> db \<Rightarrow> nat \<times> db" where
  "bump_attempt now i d =
     (let sel = (\<lambda>r. op_ID r = i
            \<and> list_ex (\<lambda>a. ap_ID a = op_ApplyID r \<and> sql_eq (ap_State a) Apply_FailedRetryable) (db_applies d));
          f = on_update now (\<lambda>r. r\<lparr>op_Attempt := op_Attempt r + 1\<rparr>) in
      (rows_changed sel f (db_operations d), d\<lparr>db_operations := update_where sel f (db_operations d)\<rparr>))"

definition consume_budget :: "int \<Rightarrow> int \<Rightarrow> int \<Rightarrow> db \<Rightarrow> db" where
  "consume_budget now applyID i d = d\<lparr>db_applies := update_where
     (\<lambda>a. ap_ID a = applyID \<and> sql_eq (ap_State a) Apply_FailedRetryable \<and> ap_Attempt a < maxRecoveryAttempts
        \<and> list_ex (\<lambda>s. op_ApplyID s = ap_ID a \<and> op_ID s \<noteq> i) (db_operations d))
     (\<lambda>a. a\<lparr>ap_Attempt := ap_Attempt a + 1, ap_UpdatedAt := now\<rparr>) (db_applies d)\<rparr>"

text \<open>
  The claim's UPDATE on the selected row \<open>ad\<close>, in the database as it is then. \<open>None\<close> is the clean back-off
  (the transaction rolls back).
\<close>

definition claim_operation :: "int \<Rightarrow> string \<Rightarrow> string \<Rightarrow> ApplyOperation \<Rightarrow> db \<Rightarrow> (ApplyOperation \<times> db) option" where
  "claim_operation now owner token ad d =
     (if op_State ad = Apply_Pending then
        (let sel = (\<lambda>r. op_ID r = op_ID ad \<and> sql_eq (op_State r) Apply_Pending
               \<and> \<not> pending_request d (op_ApplyID ad) ControlOperationStop) in
         if rows_changed sel (start_row now owner token) (db_operations d) = 0 then None
         else Some (ad, d\<lparr>db_operations := update_where sel (start_row now owner token) (db_operations d)\<rparr>))
      else if op_State ad = Apply_Stopped then
        (let sel = (\<lambda>r. op_ID r = op_ID ad \<and> sql_eq (op_State r) Apply_Stopped) in
         if rows_changed sel (resume_row now owner token) (db_operations d) = 0 then None
         else Some (ad, d\<lparr>db_operations := update_where sel (resume_row now owner token) (db_operations d)\<rparr>))
      else
        (let d1 = d\<lparr>db_operations := update_where (\<lambda>r. op_ID r = op_ID ad) (lease_row now owner token) (db_operations d)\<rparr> in
         if op_State ad = Apply_FailedRetryable then
           (case bump_attempt now (op_ID ad) d1 of (bumped, d2) \<Rightarrow>
              Some (if bumped > 0 then ad\<lparr>op_Attempt := op_Attempt ad + 1\<rparr> else ad,
                    consume_budget now (op_ApplyID ad) (op_ID ad) d2))
         else Some (ad, d1)))"

definition with_lease :: "string \<Rightarrow> string \<Rightarrow> int \<Rightarrow> ApplyOperation \<Rightarrow> ApplyOperation" where
  "with_lease owner token time_Now ad =
     ad\<lparr>op_LeaseOwner := owner, op_LeaseToken := token, op_LeaseAcquiredAt := Some time_Now\<rparr>"

definition FindNextApplyOperation ::
  "int \<Rightarrow> int \<Rightarrow> int list \<Rightarrow> (db \<Rightarrow> db) \<Rightarrow> string \<Rightarrow> string \<Rightarrow> db \<Rightarrow> storage_error + (ApplyOperation option \<times> db)" where
  "FindNextApplyOperation now time_Now locked between token owner d =
     (if owner = [] then Inl ErrApplyLeaseLost
      else case select_next_operation now locked d of
        None \<Rightarrow> Inr (None, d)
      | Some ad \<Rightarrow> (case claim_operation now owner token ad (between d) of
            None \<Rightarrow> Inr (None, between d)
          | Some (ad', d') \<Rightarrow> Inr (Some (with_lease owner token time_Now ad'), d')))"

subsection \<open>Claiming the next cutover\<close>

text \<open>\<open>JSON_EXTRACT(options, '$.defer_cutover') <=> CAST('true' AS JSON)\<close>; a JSON object keeps the last value of a key.\<close>

definition defer_cutover_set :: "Apply \<Rightarrow> bool" where
  "defer_cutover_set a = (case ap_Options a of
       None \<Rightarrow> False
     | Some obj \<Rightarrow> map_of (rev obj) ''defer_cutover'' = Some (JBool True))"

definition cutover_eligible :: "db \<Rightarrow> ApplyOperation \<Rightarrow> bool" where
  "cutover_eligible d r \<longleftrightarrow>
     sql_eq (op_CutoverPolicy r) CutoverPolicyBarrier
     \<and> has_sibling d r
     \<and> list_ex (\<lambda>a. ap_ID a = op_ApplyID r \<and> \<not> defer_cutover_set a) (db_applies d)"

definition blocks_cutover :: "ApplyOperation \<Rightarrow> ApplyOperation \<Rightarrow> bool" where
  "blocks_cutover r earlier \<longleftrightarrow>
     op_ApplyID earlier = op_ApplyID r
     \<and> operation_order earlier < operation_order r
     \<and> \<not> sql_eq (op_State earlier) Apply_Completed
     \<and> \<not> (sql_eq (op_OnFailure r) OnFailureContinue \<and> sql_eq (op_State earlier) Apply_Failed)"

definition cutover_ready :: "db \<Rightarrow> ApplyOperation \<Rightarrow> bool" where
  "cutover_ready d r \<longleftrightarrow>
     sql_eq (op_State r) Apply_WaitingForCutover
     \<and> \<not> list_ex (blocks_cutover r) (db_operations d)
     \<and> \<not> pending_request d (op_ApplyID r) ControlOperationStop"

definition claimable_cutover :: "int \<Rightarrow> db \<Rightarrow> ApplyOperation \<Rightarrow> bool" where
  "claimable_cutover now d r \<longleftrightarrow>
     cutover_eligible d r
     \<and> (cutover_ready d r
        \<or> (sql_in (op_State r) [Apply_CuttingOver, Apply_RevertWindow] \<and> is_stale now (op_UpdatedAt r)))"

definition select_next_cutover :: "int \<Rightarrow> int list \<Rightarrow> db \<Rightarrow> ApplyOperation option" where
  "select_next_cutover now locked d = first_unlocked (claimable_cutover now d) locked d"

definition cutover_row :: "int \<Rightarrow> string \<Rightarrow> string \<Rightarrow> ApplyOperation \<Rightarrow> ApplyOperation" where
  "cutover_row now owner token r = (lease_row now owner token r)\<lparr>op_State := Apply_CuttingOver\<rparr>"

definition claim_cutover :: "int \<Rightarrow> string \<Rightarrow> string \<Rightarrow> ApplyOperation \<Rightarrow> db \<Rightarrow> db option" where
  "claim_cutover now owner token ad d =
     (if op_State ad = Apply_WaitingForCutover then
        (let sel = (\<lambda>r. op_ID r = op_ID ad \<and> sql_eq (op_State r) Apply_WaitingForCutover
               \<and> \<not> pending_request d (op_ApplyID ad) ControlOperationStop) in
         if rows_changed sel (cutover_row now owner token) (db_operations d) = 0 then None
         else Some (d\<lparr>db_operations := update_where sel (cutover_row now owner token) (db_operations d)\<rparr>))
      else Some (d\<lparr>db_operations := update_where (\<lambda>r. op_ID r = op_ID ad) (lease_row now owner token) (db_operations d)\<rparr>))"

definition FindNextApplyOperationCutover ::
  "int \<Rightarrow> int \<Rightarrow> int list \<Rightarrow> (db \<Rightarrow> db) \<Rightarrow> string \<Rightarrow> string \<Rightarrow> db \<Rightarrow> storage_error + (ApplyOperation option \<times> db)" where
  "FindNextApplyOperationCutover now time_Now locked between token owner d =
     (if owner = [] then Inl ErrApplyLeaseLost
      else case select_next_cutover now locked d of
        None \<Rightarrow> Inr (None, d)
      | Some ad \<Rightarrow> (case claim_cutover now owner token ad (between d) of
            None \<Rightarrow> Inr (None, between d)
          | Some d' \<Rightarrow> Inr (Some (with_lease owner token time_Now ad), d')))"

subsection \<open>The writes of one operation row, as one family\<close>

text \<open>Every operation of the store that writes a single row under the write guard.\<close>

datatype op_write =
    W_UpdateState string | W_MarkStarted | W_MarkCompleted | W_MarkFailed string | W_MarkTerminal string
  | W_SaveEngineResumeState string string | W_Heartbeat

fun run_write :: "op_write \<Rightarrow> int \<Rightarrow> call_ctx \<Rightarrow> int \<Rightarrow> db \<Rightarrow> storage_error + db" where
  "run_write (W_UpdateState st) now ctx i d = UpdateState now ctx i st d"
| "run_write W_MarkStarted now ctx i d = MarkStarted now ctx i d"
| "run_write W_MarkCompleted now ctx i d = MarkCompleted now ctx i d"
| "run_write (W_MarkFailed msg) now ctx i d = MarkFailed now ctx i msg d"
| "run_write (W_MarkTerminal st) now ctx i d = MarkTerminal now ctx i st d"
| "run_write (W_SaveEngineResumeState c m) now ctx i d = SaveEngineResumeState now ctx i
     (Some \<lparr>rs_ApplyOperationID = i, rs_MigrationContext = c, rs_Metadata = m\<rparr>) d"
| "run_write W_Heartbeat now ctx i d = op_Heartbeat now ctx i d"

text \<open>The state a write leaves in the row, given the state before.\<close>

fun written_state :: "op_write \<Rightarrow> string \<Rightarrow> string" where
  "written_state (W_UpdateState st) old = st"
| "written_state W_MarkStarted old = Apply_Running"
| "written_state W_MarkCompleted old = Apply_Completed"
| "written_state (W_MarkFailed msg) old = Apply_Failed"
| "written_state (W_MarkTerminal st) old = st"
| "written_state (W_SaveEngineResumeState c m) old = old"
| "written_state W_Heartbeat old = old"

text \<open>The columns that no operation changes after the insert, and with them the lease columns.\<close>

definition same_identity :: "ApplyOperation \<Rightarrow> ApplyOperation \<Rightarrow> bool" where
  "same_identity r r' \<longleftrightarrow> op_ID r' = op_ID r \<and> op_ApplyID r' = op_ApplyID r \<and> op_Deployment r' = op_Deployment r
     \<and> op_OperationKey r' = op_OperationKey r \<and> op_OperationKind r' = op_OperationKind r \<and> op_Target r' = op_Target r
     \<and> op_CutoverPolicy r' = op_CutoverPolicy r \<and> op_OnFailure r' = op_OnFailure r \<and> op_CreatedAt r' = op_CreatedAt r"

definition same_lease :: "ApplyOperation \<Rightarrow> ApplyOperation \<Rightarrow> bool" where
  "same_lease r r' \<longleftrightarrow> op_LeaseOwner r' = op_LeaseOwner r \<and> op_LeaseToken r' = op_LeaseToken r
     \<and> op_LeaseAcquiredAt r' = op_LeaseAcquiredAt r"

lemma same_identity_refl [simp]: "same_identity r r" "same_lease r r"
  by (simp_all add: same_identity_def same_lease_def)

lemma same_identityD:
  "same_identity r r' \<Longrightarrow> op_ID r' = op_ID r"
  "same_identity r r' \<Longrightarrow> op_ApplyID r' = op_ApplyID r"
  "same_identity r r' \<Longrightarrow> operation_order r' = operation_order r"
  "same_identity r r' \<Longrightarrow> operation_key_of r' = operation_key_of r"
  by (simp_all add: same_identity_def operation_order_def operation_key_of_def)

lemma row_identity [row_simps]:
  "same_identity r (lease_row now owner token r)"
  "same_identity r (start_row now owner token r)"
  "same_identity r (resume_row now owner token r)"
  "same_identity r (cutover_row now owner token r)"
  "same_identity r (stop_row now r)"
  "same_lease r (stop_row now r)"
  by (simp_all add: same_identity_def same_lease_def lease_row_def start_row_def resume_row_def cutover_row_def stop_row_def)

lemma row_token [row_simps]:
  "op_LeaseToken (lease_row now owner token r) = token"
  "op_LeaseToken (start_row now owner token r) = token"
  "op_LeaseToken (resume_row now owner token r) = token"
  "op_LeaseToken (cutover_row now owner token r) = token"
  by (simp_all add: lease_row_def start_row_def resume_row_def cutover_row_def)

lemma row_state [row_simps]:
  "op_State (lease_row now owner token r) = op_State r"
  "op_State (start_row now owner token r) = Apply_Running"
  "op_State (resume_row now owner token r) = Apply_Resuming"
  "op_State (cutover_row now owner token r) = Apply_CuttingOver"
  "op_State (stop_row now r) = Apply_Stopped"
  by (simp_all add: lease_row_def start_row_def resume_row_def cutover_row_def stop_row_def)

subsection \<open>The contract of a guarded write\<close>

text \<open>
  What a driver relies on when it writes the row of the operation it drives: the write is refused once the lease is not current,
  and a write that succeeds changes that row only, and neither its identity nor its lease.
\<close>

locale lease_guarded_write =
  fixes wr :: "int \<Rightarrow> call_ctx \<Rightarrow> int \<Rightarrow> db \<Rightarrow> storage_error + db"
  assumes write_invalid: "ctx_operation_lease (ctx :: call_ctx) = Some l \<Longrightarrow> \<not> OperationLease_Valid l
      \<Longrightarrow> wr now ctx i d = Inl ErrApplyLeaseLost"
    and write_lost: "ctx_operation_lease ctx = Some l \<Longrightarrow> applyOperationExists i d
      \<Longrightarrow> \<not> operationLeaseOwnsRow i (ol_Token l) d \<Longrightarrow> wr now ctx i d = Inl ErrApplyLeaseLost"
    and write_owned: "ctx_operation_lease ctx = Some l \<Longrightarrow> OperationLease_Valid l
      \<Longrightarrow> operationLeaseOwnsRow i (ol_Token l) d \<Longrightarrow> \<exists>d'. wr now ctx i d = Inr d'"
    and write_frame: "wr now ctx i d = Inr d' \<Longrightarrow> \<exists>f. d' = d\<lparr>db_operations := map f (db_operations d)\<rparr>
      \<and> (\<forall>r. same_identity r (f r) \<and> same_lease r (f r) \<and> (op_ID r \<noteq> i \<longrightarrow> f r = r))"
begin

lemma write_keeps_wf:
  assumes "wr now ctx i d = Inr d'" "wf_operations d"
  shows "wf_operations d'"
proof -
  from write_frame [OF assms(1)] obtain f where d': "d' = d\<lparr>db_operations := map f (db_operations d)\<rparr>"
    and f: "\<And>r. same_identity r (f r)" by blast
  have "op_ID \<circ> f = op_ID" "operation_key_of \<circ> f = operation_key_of"
    using same_identityD [OF f] by (simp_all add: fun_eq_iff)
  with assms(2) d' show ?thesis by (simp add: wf_operations_def)
qed

lemma write_keeps_ownership:
  assumes "wr now ctx i d = Inr d'"
  shows "operationLeaseOwnsRow j token d' = operationLeaseOwnsRow j token d"
proof -
  from write_frame [OF assms] obtain f where d': "d' = d\<lparr>db_operations := map f (db_operations d)\<rparr>"
    and f: "\<And>r. same_identity r (f r)" "\<And>r. same_lease r (f r)" by blast
  have "op_ID (f r) = op_ID r" "op_LeaseToken (f r) = op_LeaseToken r" for r
    using f(2) same_identityD(1) [OF f(1)] by (simp_all add: same_lease_def)
  with d' show ?thesis by (simp add: operationLeaseOwnsRow_def list_ex_iff)
qed

end

lemma guarded_update_frame:
  assumes "guarded_update guard i missingOK f d = Inr d'"
  shows "d' = d\<lparr>db_operations := update_where (\<lambda>r. op_ID r = i \<and> guard_admits guard d r) f (db_operations d)\<rparr>"
  using assms by (simp add: guarded_update_def Let_def bind_result_Inr_iff)

lemma guarded_update_lost:
  assumes "applyOperationExists i d" "\<not> operationLeaseOwnsRow i (ol_Token l) d"
  shows "guarded_update (operationGuardOperation l) i missingOK f d = Inl ErrApplyLeaseLost"
proof -
  let ?sel = "\<lambda>r. op_ID r = i \<and> guard_admits (operationGuardOperation l) d r"
  have none: "\<not> ?sel r" if "r \<in> set (db_operations d)" for r
    using assms(2) that by (auto simp: operationLeaseOwnsRow_def list_ex_iff guard_admits_def)
  then have "update_where ?sel f (db_operations d) = db_operations d" by (rule update_where_none)
  moreover have "rows_changed ?sel f (db_operations d) = 0" using none by (rule rows_changed_none)
  ultimately show ?thesis using assms by (simp add: guarded_update_def checkUpdatedOrExists_def)
qed

lemma guarded_update_owned:
  assumes "operationLeaseOwnsRow i (ol_Token l) d" "\<And>r. op_ID (f r) = op_ID r \<and> op_LeaseToken (f r) = op_LeaseToken r"
  shows "\<exists>d'. guarded_update (operationGuardOperation l) i missingOK f d = Inr d'"
proof -
  let ?sel = "\<lambda>r. op_ID r = i \<and> guard_admits (operationGuardOperation l) d r"
  let ?d = "d\<lparr>db_operations := update_where ?sel f (db_operations d)\<rparr>"
  from assms(1) obtain r where r: "r \<in> set (db_operations d)" "op_ID r = i" "sql_eq (op_LeaseToken r) (ol_Token l)"
    by (auto simp: operationLeaseOwnsRow_def list_ex_iff)
  have "(if ?sel r then f r else r) \<in> set (db_operations ?d)" using r(1) by (auto simp: set_update_where)
  with r assms(2) have "operationLeaseOwnsRow i (ol_Token l) ?d"
    unfolding operationLeaseOwnsRow_def list_ex_iff by (intro bexI [of _ "if ?sel r then f r else r"]) auto
  then show ?thesis by (simp add: guarded_update_def checkUpdatedOrExists_def Let_def)
qed

lemma on_update_identity:
  "same_identity r (f r) \<Longrightarrow> same_identity r (on_update now f r)"
  "same_lease r (f r) \<Longrightarrow> same_lease r (on_update now f r)"
  "op_State (on_update now f r) = op_State (f r)"
  by (simp_all add: on_update_def same_identity_def same_lease_def Let_def)

text \<open>The effect each write has on its row, and the write as one guarded update.\<close>

fun write_effect :: "op_write \<Rightarrow> int \<Rightarrow> ApplyOperation \<Rightarrow> ApplyOperation" where
  "write_effect (W_UpdateState st) now = on_update now (\<lambda>r. r\<lparr>op_State := st\<rparr>)"
| "write_effect W_MarkStarted now = on_update now
     (\<lambda>r. r\<lparr>op_State := Apply_Running, op_StartedAt := coalesce (op_StartedAt r) now\<rparr>)"
| "write_effect W_MarkCompleted now = on_update now
     (\<lambda>r. r\<lparr>op_State := Apply_Completed, op_CompletedAt := coalesce (op_CompletedAt r) now\<rparr>)"
| "write_effect (W_MarkFailed msg) now = on_update now
     (\<lambda>r. r\<lparr>op_State := Apply_Failed, op_ErrorMessage := nullString msg, op_CompletedAt := coalesce (op_CompletedAt r) now\<rparr>)"
| "write_effect (W_MarkTerminal st) now = on_update now
     (\<lambda>r. r\<lparr>op_State := st, op_CompletedAt := coalesce (op_CompletedAt r) now\<rparr>)"
| "write_effect (W_SaveEngineResumeState c m) now = on_update now
     (\<lambda>r. r\<lparr>op_EngineResumeContext := nullString c, op_EngineResumeMetadata := Some (if m = [] then ''{}'' else m)\<rparr>)"
| "write_effect W_Heartbeat now = (\<lambda>r. r\<lparr>op_UpdatedAt := now\<rparr>)"

lemma run_write_eq:
  "run_write w now ctx i d =
     bind_result (operationWriteGuardFromContext ctx) (\<lambda>guard. guarded_update guard i (w = W_Heartbeat) (write_effect w now) d)"
  by (cases w) (simp_all add: UpdateState_def MarkStarted_def MarkCompleted_def MarkFailed_def MarkTerminal_def
      execStateUpdate_def SaveEngineResumeState_def op_Heartbeat_def Let_def)

lemma write_effect_keeps:
  "same_identity r (write_effect w now r)" "same_lease r (write_effect w now r)"
  "op_State (write_effect w now r) = written_state w (op_State r)"
  by (cases w; simp add: on_update_identity same_identity_def same_lease_def; simp add: on_update_def Let_def same_identity_def same_lease_def)+

interpretation opw: lease_guarded_write "run_write w" for w
proof
  fix ctx :: call_ctx and l now i d d'
  assume l: "ctx_operation_lease ctx = Some l"
  show "\<not> OperationLease_Valid l \<Longrightarrow> run_write w now ctx i d = Inl ErrApplyLeaseLost"
    using l by (simp add: run_write_eq operationWriteGuardFromContext_def OperationLeaseFromContext_def)
  show "applyOperationExists i d \<Longrightarrow> \<not> operationLeaseOwnsRow i (ol_Token l) d
      \<Longrightarrow> run_write w now ctx i d = Inl ErrApplyLeaseLost"
    using l by (simp add: run_write_eq operationWriteGuardFromContext_def OperationLeaseFromContext_def guarded_update_lost)
  show "OperationLease_Valid l \<Longrightarrow> operationLeaseOwnsRow i (ol_Token l) d
      \<Longrightarrow> \<exists>d'. run_write w now ctx i d = Inr d'"
    using l write_effect_keeps [where w = w and now = now] guarded_update_owned [of i l d "write_effect w now"]
    by (simp add: run_write_eq operationWriteGuardFromContext_def OperationLeaseFromContext_def same_lease_def same_identity_def)
next
  fix now i d d' and ctx :: call_ctx
  assume "run_write w now ctx i d = Inr d'"
  then obtain g where "d' = d\<lparr>db_operations := update_where (\<lambda>r. op_ID r = i \<and> guard_admits g d r) (write_effect w now) (db_operations d)\<rparr>"
    by (auto simp: run_write_eq bind_result_Inr_iff dest: guarded_update_frame)
  then show "\<exists>f. d' = d\<lparr>db_operations := map f (db_operations d)\<rparr>
      \<and> (\<forall>r. same_identity r (f r) \<and> same_lease r (f r) \<and> (op_ID r \<noteq> i \<longrightarrow> f r = r))"
    using write_effect_keeps [where w = w and now = now]
    by (intro exI [of _ "\<lambda>r. if op_ID r = i \<and> guard_admits g d r then write_effect w now r else r"]) (simp add: update_where_def)
qed

subsection \<open>What a claim does\<close>

lemma first_unlocked_SomeD:
  assumes "first_unlocked p locked d = Some r"
  shows "r \<in> set (db_operations d)" "p r" "op_ID r \<notin> set locked"
    "\<And>q. q \<in> set (db_operations d) \<Longrightarrow> p q \<Longrightarrow> op_ID q \<notin> set locked \<Longrightarrow> operation_order r \<le> operation_order q"
proof -
  let ?xs = "sort_key operation_order (db_operations d)"
  from assms obtain i where i: "i < length ?xs" "?xs ! i = r" "p r" "op_ID r \<notin> set locked"
    and first: "\<And>j. j < i \<Longrightarrow> \<not> (p (?xs ! j) \<and> op_ID (?xs ! j) \<notin> set locked)"
    unfolding first_unlocked_def find_Some_iff by blast
  show "p r" "op_ID r \<notin> set locked" using i by auto
  show "r \<in> set (db_operations d)" using i nth_mem [OF i(1)] by simp
  fix q assume q: "q \<in> set (db_operations d)" "p q" "op_ID q \<notin> set locked"
  from q(1) obtain j where j: "j < length ?xs" "?xs ! j = q" by (metis in_set_conv_nth set_sort)
  have "i \<le> j" using first [of j] q j by (meson not_le)
  moreover have "sorted (map operation_order ?xs)" by simp
  ultimately have "map operation_order ?xs ! i \<le> map operation_order ?xs ! j"
    using j by (intro sorted_nth_mono) auto
  then show "operation_order r \<le> operation_order q" using i j by simp
qed

text \<open>Whatever its branch, a claim changes the claimed row only, keeps every row's identity, and puts its token on the claimed row.\<close>

definition claims_row :: "int \<Rightarrow> string \<Rightarrow> db \<Rightarrow> db \<Rightarrow> bool" where
  "claims_row i token d d' \<longleftrightarrow> (\<exists>f. db_operations d' = map f (db_operations d)
     \<and> (\<forall>r. same_identity r (f r) \<and> (op_ID r \<noteq> i \<longrightarrow> f r = r))
     \<and> (\<forall>r \<in> set (db_operations d). op_ID r = i \<longrightarrow> op_LeaseToken (f r) = token))"

lemma claims_row_intro:
  assumes "db_operations d' = update_where sel f (db_operations d)"
    "\<And>r. same_identity r (f r)" "\<And>r. sel r \<Longrightarrow> op_ID r = i" "\<And>r. op_LeaseToken (f r) = token"
    "\<And>r. r \<in> set (db_operations d) \<Longrightarrow> op_ID r = i \<Longrightarrow> sel r"
  shows "claims_row i token d d'"
  unfolding claims_row_def
  by (intro exI [of _ "\<lambda>r. if sel r then f r else r"]) (use assms in \<open>auto simp: update_where_def\<close>)

lemma rows_changed_unique:
  assumes "wf_operations d" "rows_changed sel f (db_operations d) \<noteq> 0" "\<And>r. sel r \<Longrightarrow> op_ID r = i"
    "r \<in> set (db_operations d)" "op_ID r = i"
  shows "sel r"
proof -
  from assms(2) obtain q where "q \<in> set (db_operations d)" "sel q"
    using rows_changed_pos_iff [of sel f "db_operations d"] by auto
  with assms show ?thesis using operation_unique by metis
qed

lemma guarded_claim_claims_row:
  assumes "wf_operations d" "rows_changed sel f (db_operations d) \<noteq> 0"
    "db_operations d' = update_where sel f (db_operations d)"
    "\<And>r. sel r \<Longrightarrow> op_ID r = i" "\<And>r. same_identity r (f r)" "\<And>r. op_LeaseToken (f r) = token"
  shows "claims_row i token d d'"
  using assms(3) _ _ _ rows_changed_unique [OF assms(1,2,4)]
  by (rule claims_row_intro) (use assms in auto)

lemma claims_row_trans_keep:
  assumes "claims_row i token d d1"
    and "db_operations d2 = update_where sel f (db_operations d1)"
    "\<And>r. sel r \<Longrightarrow> op_ID r = i" "\<And>r. same_identity r (f r)" "\<And>r. same_lease r (f r)"
  shows "claims_row i token d d2"
proof -
  from assms(1) obtain g where g: "db_operations d1 = map g (db_operations d)" "\<And>r. same_identity r (g r)"
    "\<And>r. op_ID r \<noteq> i \<Longrightarrow> g r = r" "\<And>r. r \<in> set (db_operations d) \<Longrightarrow> op_ID r = i \<Longrightarrow> op_LeaseToken (g r) = token"
    unfolding claims_row_def by blast
  let ?h = "\<lambda>r. if sel (g r) then f (g r) else g r"
  have "db_operations d2 = map ?h (db_operations d)" using assms(2) g(1) by (simp add: update_where_def)
  moreover have "same_identity r (?h r)" for r
    using g(2) [of r] assms(4) [of "g r"] by (auto simp: same_identity_def)
  moreover have "?h r = r" if "op_ID r \<noteq> i" for r
    using that g(3) [OF that] assms(3) [of r] by auto
  moreover have "op_LeaseToken (?h r) = token" if "r \<in> set (db_operations d)" "op_ID r = i" for r
    using g(4) [OF that] assms(5) [of "g r"] by (auto simp: same_lease_def)
  ultimately show ?thesis unfolding claims_row_def by blast
qed

lemma bump_attempt_claims_row:
  assumes "claims_row i token d d1" "bump_attempt now i d1 = (b, d2)"
  shows "claims_row i token d d2"
proof -
  let ?f = "on_update now (\<lambda>r. r\<lparr>op_Attempt := op_Attempt r + 1\<rparr>)"
  have "same_identity r (?f r)" "same_lease r (?f r)" for r
    by (rule on_update_identity; simp add: same_identity_def same_lease_def)+
  moreover have "db_operations d2 = update_where (\<lambda>r. op_ID r = i
      \<and> list_ex (\<lambda>a. ap_ID a = op_ApplyID r \<and> sql_eq (ap_State a) Apply_FailedRetryable) (db_applies d1)) ?f (db_operations d1)"
    using assms(2) by (auto simp: bump_attempt_def Let_def)
  ultimately show ?thesis using claims_row_trans_keep [OF assms(1)] by blast
qed

lemma claim_operation_claims_row:
  assumes "claim_operation now owner token ad d = Some (ad', d')" "wf_operations d"
  shows "claims_row (op_ID ad) token d d'"
proof -
  let ?d1 = "d\<lparr>db_operations := update_where (\<lambda>r. op_ID r = op_ID ad) (lease_row now owner token) (db_operations d)\<rparr>"
  consider (pending) "op_State ad = Apply_Pending" | (stopped) "op_State ad = Apply_Stopped"
    | (retry) "op_State ad = Apply_FailedRetryable"
    | (other) "op_State ad \<noteq> Apply_Pending" "op_State ad \<noteq> Apply_Stopped" "op_State ad \<noteq> Apply_FailedRetryable"
    by blast
  then show ?thesis
  proof cases
    case pending
    let ?sel = "\<lambda>r. op_ID r = op_ID ad \<and> sql_eq (op_State r) Apply_Pending
      \<and> \<not> pending_request d (op_ApplyID ad) ControlOperationStop"
    from pending assms(1) have "rows_changed ?sel (start_row now owner token) (db_operations d) \<noteq> 0"
      "db_operations d' = update_where ?sel (start_row now owner token) (db_operations d)"
      by (auto simp: claim_operation_def Let_def split: if_splits)
    with assms(2) show ?thesis by (rule guarded_claim_claims_row) (simp_all add: row_simps)
  next
    case stopped
    let ?sel = "\<lambda>r. op_ID r = op_ID ad \<and> sql_eq (op_State r) Apply_Stopped"
    from stopped assms(1) have "rows_changed ?sel (resume_row now owner token) (db_operations d) \<noteq> 0"
      "db_operations d' = update_where ?sel (resume_row now owner token) (db_operations d)"
      by (auto simp: claim_operation_def Let_def split: if_splits)
    with assms(2) show ?thesis by (rule guarded_claim_claims_row) (simp_all add: row_simps)
  next
    case other
    then have "d' = ?d1" using assms(1) by (auto simp: claim_operation_def Let_def)
    then show ?thesis by (auto simp: row_simps intro!: claims_row_intro)
  next
    case retry
    then obtain b d2 where d2: "bump_attempt now (op_ID ad) ?d1 = (b, d2)" and "db_operations d' = db_operations d2"
      using assms(1) by (auto simp: claim_operation_def Let_def consume_budget_def split: prod.splits)
    have "claims_row (op_ID ad) token d ?d1" by (auto simp: row_simps intro!: claims_row_intro)
    then have "claims_row (op_ID ad) token d d2" using d2 by (rule bump_attempt_claims_row)
    then show ?thesis using \<open>db_operations d' = db_operations d2\<close> by (simp add: claims_row_def)
  qed
qed

lemma claim_cutover_claims_row:
  assumes "claim_cutover now owner token ad d = Some d'" "wf_operations d"
  shows "claims_row (op_ID ad) token d d'"
proof (cases "op_State ad = Apply_WaitingForCutover")
  case True
  let ?sel = "\<lambda>r. op_ID r = op_ID ad \<and> sql_eq (op_State r) Apply_WaitingForCutover
    \<and> \<not> pending_request d (op_ApplyID ad) ControlOperationStop"
  from True assms(1) have "rows_changed ?sel (cutover_row now owner token) (db_operations d) \<noteq> 0"
    "db_operations d' = update_where ?sel (cutover_row now owner token) (db_operations d)"
    by (auto simp: claim_cutover_def Let_def split: if_splits)
  with assms(2) show ?thesis by (rule guarded_claim_claims_row) (simp_all add: row_simps)
next
  case False
  then show ?thesis using assms(1) by (auto simp: claim_cutover_def row_simps intro!: claims_row_intro)
qed

lemma claims_row_owns:
  assumes "claims_row i token d d'" "applyOperationExists i d"
  shows "operationLeaseOwnsRow i t d' \<longleftrightarrow> sql_eq token t" "applyOperationExists i d'"
proof -
  from assms(1) obtain f where f: "db_operations d' = map f (db_operations d)" "\<And>r. same_identity r (f r)"
    "\<And>r. r \<in> set (db_operations d) \<Longrightarrow> op_ID r = i \<Longrightarrow> op_LeaseToken (f r) = token"
    unfolding claims_row_def by blast
  from assms(2) obtain r where r: "r \<in> set (db_operations d)" "op_ID r = i"
    by (auto simp: applyOperationExists_def list_ex_iff)
  show "applyOperationExists i d'"
    using r f(1) same_identityD(1) [OF f(2)] by (auto simp: applyOperationExists_def list_ex_iff)
  show "operationLeaseOwnsRow i t d' \<longleftrightarrow> sql_eq token t"
    using r f(1,3) same_identityD(1) [OF f(2)] by (auto simp: operationLeaseOwnsRow_def list_ex_iff)
qed

lemma claims_row_wf:
  assumes "claims_row i token d d'" "next_operation_id d' = next_operation_id d" "wf_operations d"
  shows "wf_operations d'"
proof -
  from assms(1) obtain f where f: "db_operations d' = map f (db_operations d)" "\<And>r. same_identity r (f r)"
    unfolding claims_row_def by blast
  have "op_ID \<circ> f = op_ID" "operation_key_of \<circ> f = operation_key_of"
    using same_identityD [OF f(2)] by (simp_all add: fun_eq_iff)
  with assms(2,3) f(1) show ?thesis by (simp add: wf_operations_def)
qed

lemma FindNextApplyOperation_SomeD:
  assumes "FindNextApplyOperation now time_Now locked between token owner d = Inr (Some ad, d')"
  obtains ad0 ad1 where "select_next_operation now locked d = Some ad0"
    "claim_operation now owner token ad0 (between d) = Some (ad1, d')" "ad = with_lease owner token time_Now ad1"
proof -
  from assms obtain ad0 where sel: "select_next_operation now locked d = Some ad0"
    by (cases "select_next_operation now locked d") (simp_all add: FindNextApplyOperation_def split: if_splits)
  with assms obtain x where cl: "claim_operation now owner token ad0 (between d) = Some x"
    by (cases "claim_operation now owner token ad0 (between d)") (simp_all add: FindNextApplyOperation_def split: if_splits)
  with sel assms have "ad = with_lease owner token time_Now (fst x)" "d' = snd x"
    by (simp_all add: FindNextApplyOperation_def split: if_splits prod.splits)
  with sel cl show thesis by (intro that [of ad0 "fst x"]) simp_all
qed

lemma claim_operation_returns:
  assumes "claim_operation now owner token ad d = Some (ad', d')"
  shows "op_ID ad' = op_ID ad" "op_ApplyID ad' = op_ApplyID ad" "op_State ad' = op_State ad"
    "next_operation_id d' = next_operation_id d" "db_control_requests d' = db_control_requests d"
  using assms
  by (simp_all add: claim_operation_def Let_def bump_attempt_def consume_budget_def split: if_splits)
    (elim conjE; hypsubst; simp)+

lemma FindNextApplyOperationCutover_SomeD:
  assumes "FindNextApplyOperationCutover now time_Now locked between token owner d = Inr (Some ad, d')"
  obtains ad0 where "select_next_cutover now locked d = Some ad0"
    "claim_cutover now owner token ad0 (between d) = Some d'" "ad = with_lease owner token time_Now ad0"
proof -
  from assms obtain ad0 where sel: "select_next_cutover now locked d = Some ad0"
    by (cases "select_next_cutover now locked d") (simp_all add: FindNextApplyOperationCutover_def split: if_splits)
  with assms obtain x where cl: "claim_cutover now owner token ad0 (between d) = Some x"
    by (cases "claim_cutover now owner token ad0 (between d)") (simp_all add: FindNextApplyOperationCutover_def split: if_splits)
  with sel assms have "ad = with_lease owner token time_Now ad0" "d' = x"
    by (simp_all add: FindNextApplyOperationCutover_def split: if_splits)
  with sel cl show thesis by (intro that [of ad0]) simp_all
qed

text \<open>A lease whose token is not the one the claim stored cannot write the claimed row, in any of the writes.\<close>

lemma claims_row_fences:
  assumes "claims_row i token d d'" "applyOperationExists i d" "ctx_operation_lease ctx = Some l" "\<not> sql_eq token (ol_Token l)"
  shows "run_write w n ctx i d' = Inl ErrApplyLeaseLost"
  using assms claims_row_owns [OF assms(1,2)] by (intro opw.write_lost) auto

lemma claims_row_authorises:
  assumes "claims_row i token d d'" "applyOperationExists i d" "ctx_operation_lease ctx = Some l" "OperationLease_Valid l"
    "ol_Token l = token"
  shows "\<exists>d''. run_write w n ctx i d' = Inr d''"
  using claims_row_owns(1) [OF assms(1,2)] assms(5) by (intro opw.write_owned [OF assms(3,4)]) simp

subsection \<open>A concrete rollout, for the witnesses\<close>

text \<open>Two deployments of apply 1 under the barrier policy, in the given states.\<close>

definition sample_operation :: "int \<Rightarrow> string \<Rightarrow> string \<Rightarrow> string \<Rightarrow> ApplyOperation" where
  "sample_operation i dep st token = \<lparr>op_ID = i, op_ApplyID = 1, op_Deployment = dep, op_OperationKey = [],
     op_OperationKind = ApplyOperationKindWork, op_Target = [], op_State = st, op_ErrorMessage = None,
     op_CutoverPolicy = CutoverPolicyBarrier, op_OnFailure = OnFailureHalt, op_Attempt = 0, op_StartedAt = None,
     op_CompletedAt = None, op_LeaseOwner = [], op_LeaseToken = token, op_LeaseAcquiredAt = None,
     op_EngineResumeContext = None, op_EngineResumeMetadata = None, op_CreatedAt = 100, op_UpdatedAt = 100\<rparr>"

definition sample_apply :: "string \<Rightarrow> Apply" where
  "sample_apply st = \<lparr>ap_ID = 1, ap_ApplyIdentifier = ''a1'', ap_LockID = 1, ap_PlanID = 1, ap_Database = ''shop'',
     ap_DatabaseType = ''mysql'', ap_Repository = [], ap_PullRequest = 0, ap_Environment = ''prod'', ap_Deployment = ''eu'',
     ap_Caller = [], ap_InstallationID = 0, ap_ExternalID = [], ap_IdempotencyKey = None, ap_Engine = ''spirit'',
     ap_State = st, ap_ErrorMessage = None, ap_Options = Some [], ap_Attempt = 0, ap_LeaseOwner = [], ap_LeaseToken = ''ta'',
     ap_LeaseAcquiredAt = None, ap_CreatedAt = 100, ap_StartedAt = None, ap_CompletedAt = None, ap_RevertSkippedAt = None,
     ap_UpdatedAt = 100\<rparr>"

definition sample_db :: "string \<Rightarrow> string \<Rightarrow> db" where
  "sample_db st1 st2 = empty_db\<lparr>db_applies := [sample_apply Apply_Running],
     db_operations := [sample_operation 1 ''eu'' st1 ''t1'', sample_operation 2 ''us'' st2 ''t2''],
     next_apply_id := 2, next_operation_id := 3\<rparr>"

definition sample_lease :: "int \<Rightarrow> string \<Rightarrow> call_ctx" where
  "sample_lease i token = WithOperationLease background \<lparr>ol_ApplyID = 1, ol_OperationID = i, ol_Owner = ''w'', ol_Token = token\<rparr>"

subsection \<open>Properties\<close>

text \<open>Fencing (C4): once a claim has handed an operation to a new driver, every write of that operation's row
under a lease with another token - state changes, completion, failure, resume state and heartbeat alike - is refused
with the lost-lease error, whatever other transactions committed while the claim was running. A refused write
leaves the database as it was.\<close>

theorem claim_fences_previous_driver:
  assumes "FindNextApplyOperation now time_Now locked between token owner d = Inr (Some ad, d')"
    and "wf_operations (between d)" "applyOperationExists (op_ID ad) (between d)"
    and "ctx_operation_lease ctx = Some l" "\<not> sql_eq token (ol_Token l)"
  shows "run_write w n ctx (op_ID ad) d' = Inl ErrApplyLeaseLost"
proof -
  from assms(1) obtain ad0 ad1 where cl: "claim_operation now owner token ad0 (between d) = Some (ad1, d')"
    and "ad = with_lease owner token time_Now ad1" by (rule FindNextApplyOperation_SomeD)
  then have "op_ID ad = op_ID ad0" using claim_operation_returns(1) [OF cl] by (simp add: with_lease_def)
  with claim_operation_claims_row [OF cl assms(2)] assms(3-5) show ?thesis by (metis claims_row_fences)
qed

theorem claim_fences_previous_driver_witness:
  "run_write W_MarkCompleted 201 (sample_lease 1 ''t1'') 1
     (snd (projr (FindNextApplyOperation 200 200 [] id ''new'' ''w2'' (sample_db Apply_Running Apply_Pending)))) = Inl ErrApplyLeaseLost"
proof -
  let ?r = "FindNextApplyOperation 200 200 [] id ''new'' ''w2'' (sample_db Apply_Running Apply_Pending)"
  let ?ad = "with_lease ''w2'' ''new'' 200 (sample_operation 1 ''eu'' Apply_Running ''t1'')"
  let ?l = "\<lparr>ol_ApplyID = 1, ol_OperationID = 1, ol_Owner = ''w'', ol_Token = ''t1''\<rparr>"
  have "?r = Inr (Some ?ad, snd (projr ?r))" "wf_operations (id (sample_db Apply_Running Apply_Pending))"
    "applyOperationExists (op_ID ?ad) (id (sample_db Apply_Running Apply_Pending))"
    "ctx_operation_lease (sample_lease 1 ''t1'') = Some ?l" "\<not> sql_eq ''new'' (ol_Token ?l)" by code_simp+
  then have "run_write W_MarkCompleted 201 (sample_lease 1 ''t1'') (op_ID ?ad) (snd (projr ?r)) = Inl ErrApplyLeaseLost"
    by (rule claim_fences_previous_driver)
  moreover have "op_ID ?ad = 1" by code_simp
  ultimately show ?thesis by simp
qed

text \<open>Lease round trip: the lease of the row a claim returns authorises every write of that row.\<close>

theorem claim_lease_authorises_owner:
  assumes "FindNextApplyOperation now time_Now locked between token owner d = Inr (Some ad, d')"
    and "wf_operations (between d)" "applyOperationExists (op_ID ad) (between d)"
    and "op_ID ad > 0" "op_ApplyID ad > 0" "token \<noteq> []"
  shows "\<exists>d''. run_write w n (WithOperationLease background (ApplyOperation_Lease (Some ad))) (op_ID ad) d' = Inr d''"
proof -
  from assms(1) obtain ad0 ad1 where cl: "claim_operation now owner token ad0 (between d) = Some (ad1, d')"
    and ad: "ad = with_lease owner token time_Now ad1" by (rule FindNextApplyOperation_SomeD)
  have i: "op_ID ad = op_ID ad0" using claim_operation_returns(1) [OF cl] ad by (simp add: with_lease_def)
  let ?l = "ApplyOperation_Lease (Some ad)"
  have "ctx_operation_lease (WithOperationLease background ?l) = Some ?l" by (simp add: WithOperationLease_def)
  moreover have "OperationLease_Valid ?l" "ol_Token ?l = token"
    using assms(4-6) ad by (simp_all add: OperationLease_Valid_def ApplyOperation_Lease_def with_lease_def)
  ultimately show ?thesis
    using claims_row_authorises [OF claim_operation_claims_row [OF cl assms(2), folded i] assms(3)] by blast
qed

theorem claim_lease_authorises_owner_witness:
  "\<exists>d''. run_write W_MarkCompleted 201 (WithOperationLease background (ApplyOperation_Lease
       (fst (projr (FindNextApplyOperation 200 200 [] id ''new'' ''w2'' (sample_db Apply_Running Apply_Pending)))))) 1
     (snd (projr (FindNextApplyOperation 200 200 [] id ''new'' ''w2'' (sample_db Apply_Running Apply_Pending)))) = Inr d''"
proof -
  let ?r = "FindNextApplyOperation 200 200 [] id ''new'' ''w2'' (sample_db Apply_Running Apply_Pending)"
  let ?ad = "with_lease ''w2'' ''new'' 200 (sample_operation 1 ''eu'' Apply_Running ''t1'')"
  have r: "?r = Inr (Some ?ad, snd (projr ?r))" "wf_operations (id (sample_db Apply_Running Apply_Pending))"
    "applyOperationExists (op_ID ?ad) (id (sample_db Apply_Running Apply_Pending))" "op_ID ?ad > 0" "op_ApplyID ?ad > 0"
    by code_simp+
  then have "\<exists>d''. run_write W_MarkCompleted 201 (WithOperationLease background (ApplyOperation_Lease (Some ?ad))) (op_ID ?ad)
      (snd (projr ?r)) = Inr d''"
    by (rule claim_lease_authorises_owner) simp
  moreover have "op_ID ?ad = 1" "fst (projr ?r) = Some ?ad" by code_simp+
  ultimately show ?thesis by simp
qed

text \<open>A stop that commits inside the claim's window wins: when a stop request is pending by the time the claim writes,
the pending operation it selected is not started; the claim returns nothing and changes nothing.\<close>

theorem pending_stop_blocks_start:
  assumes "select_next_operation now locked d = Some ad" "op_State ad = Apply_Pending" "owner \<noteq> []"
    and "pending_request (between d) (op_ApplyID ad) ControlOperationStop"
  shows "FindNextApplyOperation now time_Now locked between token owner d = Inr (None, between d)"
  using assms by (simp add: FindNextApplyOperation_def claim_operation_def rows_changed_def)

text \<open>The same for a cutover: a stop pending when the cutover claim writes keeps the parked operation parked.\<close>

theorem pending_stop_blocks_cutover:
  assumes "select_next_cutover now locked d = Some ad" "op_State ad = Apply_WaitingForCutover" "owner \<noteq> []"
    and "pending_request (between d) (op_ApplyID ad) ControlOperationStop"
  shows "FindNextApplyOperationCutover now time_Now locked between token owner d = Inr (None, between d)"
  using assms by (simp add: FindNextApplyOperationCutover_def claim_cutover_def rows_changed_def)

theorem pending_stop_blocks_cutover_witness:
  "let d = sample_db Apply_Completed Apply_WaitingForCutover;
       stop = (\<lambda>d. d\<lparr>db_control_requests := [\<lparr>cr_ID = 1, cr_ApplyID = 1, cr_Operation = ControlOperationStop,
         cr_Status = ControlRequestPending, cr_RequestedBy = [], cr_ErrorMessage = None, cr_Metadata = [],
         cr_CompletedAt = None, cr_CreatedAt = 150, cr_UpdatedAt = 150\<rparr>]\<rparr>) in
   FindNextApplyOperationCutover 200 200 [] stop ''new'' ''w2'' d = Inr (None, stop d)"
  unfolding Let_def
  by (rule pending_stop_blocks_cutover [where ad = "sample_operation 2 ''us'' Apply_WaitingForCutover ''t2''"]) code_simp+

text \<open>Fair choice: the row a claim selects is claimable and unlocked, and no claimable unlocked row comes before it in
the order of creation.\<close>

theorem claim_takes_first_claimable:
  assumes "select_next_operation now locked d = Some ad"
  shows "claimable_operation now d ad \<and> op_ID ad \<notin> set locked \<and>
    (\<forall>r \<in> set (db_operations d). claimable_operation now d r \<longrightarrow> op_ID r \<notin> set locked
       \<longrightarrow> operation_order ad \<le> operation_order r)"
  using assms first_unlocked_SomeD [of "claimable_operation now d" locked d ad]
  by (simp add: select_next_operation_def)

theorem claim_takes_first_claimable_witness:
  "claimable_operation 200 (sample_db Apply_Running Apply_Pending) (sample_operation 1 ''eu'' Apply_Running ''t1'')"
proof -
  have "select_next_operation 200 [] (sample_db Apply_Running Apply_Pending) = Some (sample_operation 1 ''eu'' Apply_Running ''t1'')"
    by code_simp
  from claim_takes_first_claimable [OF this] show ?thesis by (elim conjE)
qed

subsection \<open>When a guarded write succeeds\<close>

lemma write_effect_idem: "w \<noteq> W_Heartbeat \<Longrightarrow> write_effect w later (write_effect w now r) = write_effect w now r"
  by (cases w; cases r; simp add: on_update_def Let_def coalesce_def split: option.splits)

lemma on_update_columns:
  "op_EngineResumeContext (on_update now f r) = op_EngineResumeContext (f r)"
  "op_EngineResumeMetadata (on_update now f r) = op_EngineResumeMetadata (f r)"
  by (simp_all add: on_update_def Let_def)

definition admitted_row :: "operationWriteGuard \<Rightarrow> int \<Rightarrow> db \<Rightarrow> bool" where
  "admitted_row guard i d \<longleftrightarrow> list_ex (\<lambda>r. op_ID r = i \<and> guard_admits guard d r) (db_operations d)"

lemma op_Get_eq:
  assumes "wf_operations d" "r \<in> set (db_operations d)" "op_ID r = i"
  shows "op_Get i d = Some r"
proof (cases "op_Get i d")
  case None
  then show ?thesis using assms by (auto simp: op_Get_def find_None_iff)
next
  case (Some q)
  then have "q \<in> set (db_operations d)" "op_ID q = i" by (auto simp: op_Get_def find_Some_iff)
  with assms Some show ?thesis using operation_unique by metis
qed

lemma op_Get_SomeD: "op_Get i d = Some r \<Longrightarrow> r \<in> set (db_operations d) \<and> op_ID r = i"
  by (auto simp: op_Get_def find_Some_iff)

lemma checkUpdatedOrExists_zero_iff:
  assumes "wf_operations d"
  shows "checkUpdatedOrExists 0 i guard False d = Inr () \<longleftrightarrow> admitted_row guard i d"
proof (cases guard)
  case operationGuardNone
  then show ?thesis by (simp add: checkUpdatedOrExists_def admitted_row_def applyOperationExists_def
        applyOperationMissingResult_def guard_admits_def)
next
  case (operationGuardOperation l)
  then show ?thesis by (simp add: checkUpdatedOrExists_def admitted_row_def operationLeaseOwnsRow_def
        applyOperationMissingResult_def guard_admits_def)
next
  case (operationGuardApply l)
  show ?thesis
  proof (cases "op_Get i d")
    case None
    then have "\<not> admitted_row guard i d" by (auto simp: admitted_row_def list_ex_iff op_Get_def find_None_iff)
    with None operationGuardApply show ?thesis
      by (simp add: checkUpdatedOrExists_def bind_result_Inr_iff applyOperationLeaseMatch_def applyOperationMissingResult_def)
  next
    case (Some r)
    then have r: "r \<in> set (db_operations d)" "op_ID r = i" by (auto dest: op_Get_SomeD)
    have "admitted_row guard i d \<longleftrightarrow> guard_admits guard d r"
      using r operation_unique [OF assms] by (auto simp: admitted_row_def list_ex_iff)
    also have "\<dots> \<longleftrightarrow> applyLeaseMatches l d \<and> op_ApplyID r = al_ApplyID l"
      using operationGuardApply by (auto simp: guard_admits_def applyLeaseMatches_def list_ex_iff)
    finally show ?thesis using operationGuardApply Some
      by (simp add: checkUpdatedOrExists_def bind_result_Inr_iff applyOperationLeaseMatch_def ensureApplyLeaseStillOwned_def)
  qed
qed

lemma keep_wf_operations:
  assumes "wf_operations d" "\<And>r. same_identity r (f r)"
  shows "wf_operations (d\<lparr>db_operations := update_where sel f (db_operations d)\<rparr>)"
proof -
  have "map op_ID (update_where sel f (db_operations d)) = map op_ID (db_operations d)"
    "map operation_key_of (update_where sel f (db_operations d)) = map operation_key_of (db_operations d)"
    using same_identityD [OF assms(2)] by (simp_all add: map_update_where_same)
  with assms(1) show ?thesis by (simp add: wf_operations_def)
qed

lemma guard_admits_update:
  assumes "\<And>r. same_identity r (f r)" "\<And>r. same_lease r (f r)"
  shows "guard_admits guard (d\<lparr>db_operations := rows\<rparr>) r = guard_admits guard d r"
    "guard_admits guard d (f r) = guard_admits guard d r"
  using same_identityD(2) [OF assms(1)] assms(2) by (auto simp: guard_admits_def same_lease_def split: operationWriteGuard.splits)

lemma admitted_row_update:
  assumes "\<And>r. same_identity r (f r)" "\<And>r. same_lease r (f r)"
  shows "admitted_row guard i (d\<lparr>db_operations := update_where sel f (db_operations d)\<rparr>) = admitted_row guard i d"
  using guard_admits_update [OF assms] same_identityD(1) [OF assms(1)]
  by (simp add: admitted_row_def list_ex_update_where)

lemma guarded_update_eq:
  assumes wf: "wf_operations d" and f: "\<And>r. same_identity r (f r)" "\<And>r. same_lease r (f r)"
  shows "guarded_update guard i False f d = Inr d' \<longleftrightarrow> admitted_row guard i d
     \<and> d' = d\<lparr>db_operations := update_where (\<lambda>r. op_ID r = i \<and> guard_admits guard d r) f (db_operations d)\<rparr>"
proof -
  let ?sel = "\<lambda>r. op_ID r = i \<and> guard_admits guard d r"
  let ?n = "rows_changed ?sel f (db_operations d)"
  let ?d = "d\<lparr>db_operations := update_where ?sel f (db_operations d)\<rparr>"
  have "checkUpdatedOrExists ?n i guard False ?d = Inr () \<longleftrightarrow> admitted_row guard i d"
  proof (cases ?n)
    case 0
    then show ?thesis
      using checkUpdatedOrExists_zero_iff [OF keep_wf_operations [OF wf f(1)]] admitted_row_update [OF f] by simp
  next
    case (Suc k)
    then have "admitted_row guard i d"
      using rows_changed_pos_iff [of ?sel f "db_operations d"] by (auto simp: admitted_row_def list_ex_iff)
    with Suc show ?thesis by (simp add: checkUpdatedOrExists_def)
  qed
  then show ?thesis by (auto simp: guarded_update_def Let_def bind_result_Inr_iff)
qed

lemma guarded_update_again:
  assumes wf: "wf_operations d" and f: "\<And>r. same_identity r (f r)" "\<And>r. same_lease r (f r)"
    and g: "\<And>r. same_identity r (g r)" "\<And>r. same_lease r (g r)"
    and upd: "guarded_update guard i False f d = Inr d'" and gf: "\<And>r. g (f r) = f r"
  shows "guarded_update guard i False g d' = Inr d'"
proof -
  let ?sel = "\<lambda>r. op_ID r = i \<and> guard_admits guard d r"
  have d': "admitted_row guard i d" "d' = d\<lparr>db_operations := update_where ?sel f (db_operations d)\<rparr>"
    using upd guarded_update_eq [OF wf f] by auto
  have "update_where (\<lambda>r. op_ID r = i \<and> guard_admits guard d' r) g (db_operations d') = db_operations d'"
    using gf guard_admits_update [OF f] by (auto simp: d' update_where_def)
  moreover have "wf_operations d'" "admitted_row guard i d'"
    using keep_wf_operations [OF wf f(1)] admitted_row_update [OF f] d' by auto
  ultimately show ?thesis using guarded_update_eq [OF _ g, of d' guard i d'] by simp
qed

lemma run_write_guarded:
  assumes "run_write w now ctx i d = Inr d'" "w \<noteq> W_Heartbeat"
  obtains guard where "operationWriteGuardFromContext ctx = Inr guard"
    "guarded_update guard i False (write_effect w now) d = Inr d'"
  using assms by (auto simp: run_write_eq bind_result_Inr_iff)

text \<open>Idempotence: repeating a completed, failed or terminal mark, a start or a state change - at any later time - succeeds and
leaves the database exactly as the first call did: no timestamp is rewritten.\<close>

theorem state_writes_idempotent:
  assumes "run_write w now ctx i d = Inr d'" "wf_operations d" "w \<noteq> W_Heartbeat"
  shows "run_write w later ctx i d' = Inr d'"
proof -
  from assms(1,3) obtain guard where g: "operationWriteGuardFromContext ctx = Inr guard"
    "guarded_update guard i False (write_effect w now) d = Inr d'" by (rule run_write_guarded)
  have "guarded_update guard i False (write_effect w later) d' = Inr d'"
    using assms(2) write_effect_keeps(1,2) write_effect_keeps(1,2) g(2) write_effect_idem [OF assms(3)]
    by (rule guarded_update_again)
  with g(1) assms(3) show ?thesis by (simp add: run_write_eq)
qed

theorem state_writes_idempotent_witness:
  "let d' = projr (run_write W_MarkCompleted 201 (sample_lease 1 ''t1'') 1 (sample_db Apply_Running Apply_Pending)) in
   run_write W_MarkCompleted 999 (sample_lease 1 ''t1'') 1 d' = Inr d'"
  unfolding Let_def
  by (rule state_writes_idempotent [where now = 201 and d = "sample_db Apply_Running Apply_Pending"]) code_simp+

text \<open>Resume-state round trip: engine resume state that was saved under any guard is what the next read returns; an empty
metadata document is stored as the empty object.\<close>

theorem engine_resume_state_roundtrip:
  assumes "SaveEngineResumeState now ctx i (Some rs) d = Inr d'" "wf_operations d"
  shows "GetEngineResumeState i d' = Inr (rs\<lparr>rs_ApplyOperationID := i,
     rs_Metadata := if rs_Metadata rs = [] then ''{}'' else rs_Metadata rs\<rparr>)"
proof -
  let ?f = "on_update now (\<lambda>r. r\<lparr>op_EngineResumeContext := nullString (rs_MigrationContext rs),
     op_EngineResumeMetadata := Some (if rs_Metadata rs = [] then ''{}'' else rs_Metadata rs)\<rparr>)"
  have f: "same_identity r (?f r)" "same_lease r (?f r)" for r
    by (rule on_update_identity; simp add: same_identity_def same_lease_def)+
  from assms(1) obtain guard where "guarded_update guard i False ?f d = Inr d'"
    by (auto simp: SaveEngineResumeState_def Let_def bind_result_Inr_iff split: if_splits)
  then have d': "admitted_row guard i d"
    "d' = d\<lparr>db_operations := update_where (\<lambda>r. op_ID r = i \<and> guard_admits guard d r) ?f (db_operations d)\<rparr>"
    using guarded_update_eq [OF assms(2) f] by auto
  from d'(1) obtain r where r: "r \<in> set (db_operations d)" "op_ID r = i" "guard_admits guard d r"
    by (auto simp: admitted_row_def list_ex_iff)
  have "wf_operations d'" using keep_wf_operations [OF assms(2) f(1)] d'(2) by simp
  moreover have "?f r \<in> set (db_operations d')" using r by (auto simp: d'(2) set_update_where)
  moreover have "op_ID (?f r) = i" using same_identityD(1) [OF f(1)] r by simp
  ultimately have "op_Get i d' = Some (?f r)" by (rule op_Get_eq)
  then show ?thesis by (cases rs) (simp add: GetEngineResumeState_def on_update_columns null_text_def nullString_def)
qed

theorem engine_resume_state_roundtrip_witness:
  "let rs = \<lparr>rs_ApplyOperationID = 0, rs_MigrationContext = ''ctx'', rs_Metadata = []\<rparr> in
   GetEngineResumeState 1 (projr (SaveEngineResumeState 201 (sample_lease 1 ''t1'') 1 (Some rs) (sample_db Apply_Running Apply_Pending)))
     = Inr (rs\<lparr>rs_ApplyOperationID := 1, rs_Metadata := if rs_Metadata rs = [] then ''{}'' else rs_Metadata rs\<rparr>)"
  unfolding Let_def
  by (rule engine_resume_state_roundtrip [where now = 201 and ctx = "sample_lease 1 ''t1''" and d = "sample_db Apply_Running Apply_Pending"]) code_simp+

end
