(* ===== verification/SB_Apply_Store.thy ===== *)
theory SB_Apply_Store
  imports SB_Op_Store
begin

section \<open>The apply store (pkg/storage/mysqlstore/applies.go)\<close>

text \<open>
  Creating an apply with its operations and tasks, the direct update and the projected compare-and-swap of its state, the three claims, and
  the expiry of retryable failures. The named lock of a target serialises the creators and starters of applies on that target, so the check
  for another active apply and the write that follows it are one step here; waiting for that lock, and
  failures of the connection, are not modelled. The conventions are those of the operation store.
\<close>

subsection \<open>One active apply per target\<close>

text \<open>The loop of dedupeDeployments with its set of seen values, then slices.Sort.\<close>

fun dedupe_loop :: "string list \<Rightarrow> string list \<Rightarrow> string list" where
  "dedupe_loop seen [] = []"
| "dedupe_loop seen (x # xs) = (if x \<in> set seen then dedupe_loop seen xs else x # dedupe_loop (x # seen) xs)"

definition dedupeDeployments :: "string list \<Rightarrow> string list" where
  "dedupeDeployments deployments = sort (dedupe_loop [] deployments)"

definition operationDeploymentsForApply :: "int \<Rightarrow> db \<Rightarrow> string list" where
  "operationDeploymentsForApply applyID d = map op_Deployment (filter (\<lambda>r. op_ApplyID r = applyID) (db_operations d))"

definition checkNoActiveApplyForTargets ::
  "string \<Rightarrow> string \<Rightarrow> string \<Rightarrow> string list \<Rightarrow> int \<Rightarrow> db \<Rightarrow> storage_error + unit" where
  "checkNoActiveApplyForTargets database dbType environment deployments0 excludeApplyID d =
     (let deployments = dedupeDeployments deployments0 in
      if length deployments = 0 then Inl (ErrOther ''active apply target requires at least one deployment'')
      else if list_ex (\<lambda>a. sql_eq (ap_Database a) database \<and> sql_eq (ap_DatabaseType a) dbType
           \<and> sql_eq (ap_Environment a) environment
           \<and> nonTerminalApplyStatePredicate (ap_State a)
           \<and> (sql_in (ap_Deployment a) deployments
              \<or> list_ex (\<lambda>r. op_ApplyID r = ap_ID a \<and> sql_in (op_Deployment r) deployments) (db_operations d))
           \<and> (excludeApplyID > 0 \<longrightarrow> ap_ID a \<noteq> excludeApplyID)) (db_applies d)
      then Inl ErrActiveApplyExists
      else Inr ())"

text \<open>Taking the target's named lock needs a full target (acquireApplyTargetLockConn).\<close>

definition acquireApplyTargetLockConn :: "string \<Rightarrow> string \<Rightarrow> string \<Rightarrow> storage_error + unit" where
  "acquireApplyTargetLockConn database dbType environment =
     (if \<not> hasApplyTarget database dbType environment then Inl (ErrOther ''active apply target is required'') else Inr ())"

definition applyTargetForUpdate :: "Apply \<Rightarrow> db \<Rightarrow> string \<times> string \<times> string \<times> string" where
  "applyTargetForUpdate apply d =
     (if hasApplyTarget (ap_Database apply) (ap_DatabaseType apply) (ap_Environment apply) \<and> ap_Deployment apply \<noteq> []
      then (ap_Database apply, ap_DatabaseType apply, ap_Environment apply, ap_Deployment apply)
      else case find (\<lambda>a. ap_ID a = ap_ID apply) (db_applies d) of
          None \<Rightarrow> ([], [], [], [])
        | Some a \<Rightarrow> (ap_Database a, ap_DatabaseType a, ap_Environment a, ap_Deployment a))"

subsection \<open>Creating applies\<close>

definition new_apply_row :: "int \<Rightarrow> int \<Rightarrow> Apply \<Rightarrow> Apply" where
  "new_apply_row now i apply = apply\<lparr>ap_ID := i,
     ap_IdempotencyKey := nullString (null_text (ap_IdempotencyKey apply)),
     ap_ErrorMessage := Some (null_text (ap_ErrorMessage apply)),
     ap_Options := (case ap_Options apply of None \<Rightarrow> Some [] | Some obj \<Rightarrow> Some obj),
     ap_LeaseOwner := [], ap_LeaseToken := [], ap_LeaseAcquiredAt := None,
     ap_StartedAt := None, ap_CompletedAt := None, ap_RevertSkippedAt := None,
     ap_CreatedAt := now, ap_UpdatedAt := now\<rparr>"

text \<open>The INSERT, with its two unique keys; a NULL idempotency key collides with nothing.\<close>

definition insert_apply :: "int \<Rightarrow> Apply \<Rightarrow> db \<Rightarrow> storage_error + (int \<times> db)" where
  "insert_apply now apply d =
     (let i = next_apply_id d; row = new_apply_row now i apply in
      if list_ex (\<lambda>a. sql_eq (ap_ApplyIdentifier a) (ap_ApplyIdentifier row)
           \<or> (case (ap_IdempotencyKey a, ap_IdempotencyKey row) of (Some k, Some k') \<Rightarrow> sql_eq k k' | _ \<Rightarrow> False)) (db_applies d)
      then Inl ErrApplyIDExists
      else Inr (i, d\<lparr>db_applies := db_applies d @ [row], next_apply_id := i + 1\<rparr>))"

text \<open>
  A creation is one step: the lock on its target, taken before the check and held until the commit, keeps other creations for that target out. The name
  of that lock is a hash of the exact database, type and environment, while the check compares them without regard to case; so
  two creations that spell the same target differently take different locks, and that they run one after the other is an assumption here. The names
  come from the server's configuration, which is looked up by the exact name.
\<close>

definition createWithRows ::
  "int \<Rightarrow> Apply \<Rightarrow> string list \<Rightarrow> (int \<Rightarrow> db \<Rightarrow> storage_error + db) \<Rightarrow> db \<Rightarrow> storage_error + (int \<times> db)" where
  "createWithRows now apply newDeployments writeRows d =
     (let lockTarget = isActiveApplyState (ap_State apply) in
      bind_result (if lockTarget then acquireApplyTargetLockConn (ap_Database apply) (ap_DatabaseType apply) (ap_Environment apply) else Inr ()) (\<lambda>_.
      bind_result (if lockTarget then checkNoActiveApplyForTargets (ap_Database apply) (ap_DatabaseType apply) (ap_Environment apply) newDeployments 0 d
                   else Inr ()) (\<lambda>_.
      bind_result (insert_apply now apply d) (\<lambda>(i, d1).
      bind_result (writeRows i d1) (\<lambda>d2. Inr (i, d2))))))"

definition ap_Create :: "int \<Rightarrow> Apply \<Rightarrow> db \<Rightarrow> storage_error + (int \<times> db)" where
  "ap_Create now apply d =
     (let lockTarget = isActiveApplyState (ap_State apply) in
      bind_result (if lockTarget then acquireApplyTargetLockConn (ap_Database apply) (ap_DatabaseType apply) (ap_Environment apply) else Inr ()) (\<lambda>_.
      bind_result (if lockTarget then checkNoActiveApplyForTargets (ap_Database apply) (ap_DatabaseType apply) (ap_Environment apply) [ap_Deployment apply] 0 d
                   else Inr ()) (\<lambda>_.
      insert_apply now apply d)))"

definition insertTask :: "int \<Rightarrow> Task \<Rightarrow> db \<Rightarrow> storage_error + (int \<times> db)" where
  "insertTask now task d =
     (let i = next_task_id d;
          row = task\<lparr>tk_ID := i, tk_ErrorMessage := nullString (null_text (tk_ErrorMessage task)),
                     tk_Options := (if tk_Options task = [] then ''{}'' else tk_Options task)\<rparr> in
      if list_ex (\<lambda>t. sql_eq (tk_TaskIdentifier t) (tk_TaskIdentifier task)) (db_tasks d)
      then Inl (ErrOther ''duplicate task identifier'')
      else Inr (i, d\<lparr>db_tasks := db_tasks d @ [row], next_task_id := i + 1\<rparr>))"

fun insert_operations :: "int \<Rightarrow> int \<Rightarrow> ApplyOperation list \<Rightarrow> db \<Rightarrow> storage_error + (ApplyOperation list \<times> db)" where
  "insert_operations now applyID [] d = Inr ([], d)"
| "insert_operations now applyID (ad # ads) d =
     bind_result (insertApplyOperation now (ad\<lparr>op_ApplyID := applyID\<rparr>) d) (\<lambda>(ad', d1).
     bind_result (insert_operations now applyID ads d1) (\<lambda>(ads', d2). Inr (ad' # ads', d2)))"

fun insert_tasks :: "int \<Rightarrow> int \<Rightarrow> Task list \<Rightarrow> db \<Rightarrow> storage_error + db" where
  "insert_tasks now applyID [] d = Inr d"
| "insert_tasks now applyID (t # ts) d =
     bind_result (insertTask now (t\<lparr>tk_ApplyID := applyID\<rparr>) d) (\<lambda>(i, d1). insert_tasks now applyID ts d1)"

text \<open>Each task's link to one of the operations just inserted.\<close>

definition link_task :: "ApplyOperation list \<Rightarrow> Task \<Rightarrow> storage_error + Task" where
  "link_task operations task =
     (let inserted = map op_ID operations in
      if length operations = 0 then
        (case tk_ApplyOperationID task of
           Some i \<Rightarrow> Inl (ErrOther ''task has apply_operation_id but apply has no operations'')
         | None \<Rightarrow> Inr task)
      else if length operations = 1 then
        (case tk_ApplyOperationID task of
           None \<Rightarrow> Inr (task\<lparr>tk_ApplyOperationID := Some (op_ID (hd operations))\<rparr>)
         | Some i \<Rightarrow> if i \<in> set inserted then Inr task
                     else Inl (ErrOther ''apply_operation_id does not match any inserted operation''))
      else
        (case tk_ApplyOperationID task of
           None \<Rightarrow> Inl (ErrOther ''task missing apply_operation_id'')
         | Some i \<Rightarrow> if i \<in> set inserted then Inr task
                     else Inl (ErrOther ''apply_operation_id does not match any inserted operation'')))"

fun link_tasks :: "ApplyOperation list \<Rightarrow> Task list \<Rightarrow> storage_error + Task list" where
  "link_tasks operations [] = Inr []"
| "link_tasks operations (t # ts) =
     bind_result (link_task operations t) (\<lambda>t'. bind_result (link_tasks operations ts) (\<lambda>ts'. Inr (t' # ts')))"

definition insertApplyTasksAndOperations ::
  "int \<Rightarrow> Task list \<Rightarrow> ApplyOperation list \<Rightarrow> int \<Rightarrow> db \<Rightarrow> storage_error + db" where
  "insertApplyTasksAndOperations now tasks operations applyID d =
     bind_result (insert_operations now applyID operations d) (\<lambda>(operations', d1).
     bind_result (link_tasks operations' tasks) (\<lambda>tasks'.
     insert_tasks now applyID tasks' d1))"

definition CreateWithTasksAndOperations ::
  "int \<Rightarrow> Apply \<Rightarrow> Task list \<Rightarrow> ApplyOperation list \<Rightarrow> db \<Rightarrow> storage_error + (int \<times> db)" where
  "CreateWithTasksAndOperations now apply tasks operations d =
     createWithRows now apply (ap_Deployment apply # map op_Deployment operations)
       (insertApplyTasksAndOperations now tasks operations) d"

definition CreateWithTasks :: "int \<Rightarrow> Apply \<Rightarrow> Task list \<Rightarrow> db \<Rightarrow> storage_error + (int \<times> db)" where
  "CreateWithTasks now apply tasks d = CreateWithTasksAndOperations now apply tasks [] d"

text \<open>A group is a pointer to a struct of pointers; \<open>None\<close> is nil.\<close>

record ApplyOperationWithTasks =
  og_Operation :: "ApplyOperation option"
  og_Tasks :: "Task option list"
  og_AllowTaskless :: bool

fun insert_group_tasks :: "int \<Rightarrow> int \<Rightarrow> int \<Rightarrow> Task option list \<Rightarrow> db \<Rightarrow> storage_error + db" where
  "insert_group_tasks now applyID opID [] d = Inr d"
| "insert_group_tasks now applyID opID (None # ts) d = Inl (ErrOther ''grouped operation has a nil task'')"
| "insert_group_tasks now applyID opID (Some t # ts) d =
     bind_result (insertTask now (t\<lparr>tk_ApplyID := applyID, tk_ApplyOperationID := Some opID\<rparr>) d)
       (\<lambda>(i, d1). insert_group_tasks now applyID opID ts d1)"

definition insert_group :: "int \<Rightarrow> int \<Rightarrow> ApplyOperationWithTasks option \<Rightarrow> db \<Rightarrow> storage_error + db" where
  "insert_group now applyID grp d = (case grp of
       None \<Rightarrow> Inl (ErrOther ''grouped operation is nil'')
     | Some g \<Rightarrow> (case og_Operation g of
           None \<Rightarrow> Inl (ErrOther ''grouped operation is missing its operation row'')
         | Some ad \<Rightarrow>
             if length (og_Tasks g) = 0 \<and> op_OperationKind ad \<noteq> ApplyOperationKindGroupFinalizer \<and> \<not> og_AllowTaskless g
             then Inl (ErrOther ''grouped work operation has no tasks'')
             else bind_result (insertApplyOperation now (ad\<lparr>op_ApplyID := applyID\<rparr>) d) (\<lambda>(ad', d1).
               insert_group_tasks now applyID (op_ID ad') (og_Tasks g) d1)))"

fun insert_groups :: "int \<Rightarrow> int \<Rightarrow> ApplyOperationWithTasks option list \<Rightarrow> db \<Rightarrow> storage_error + db" where
  "insert_groups now applyID [] d = Inr d"
| "insert_groups now applyID (g # gs) d = bind_result (insert_group now applyID g d) (insert_groups now applyID gs)"

definition insertApplyGroupedOperations ::
  "int \<Rightarrow> ApplyOperationWithTasks option list \<Rightarrow> int \<Rightarrow> db \<Rightarrow> storage_error + db" where
  "insertApplyGroupedOperations now groups applyID d =
     (if length groups = 0 then Inl (ErrOther ''grouped operations are empty'') else insert_groups now applyID groups d)"

definition group_deployments :: "ApplyOperationWithTasks option list \<Rightarrow> string list" where
  "group_deployments groups = concat (map (\<lambda>g. case g of None \<Rightarrow> [] | Some g' \<Rightarrow>
     (case og_Operation g' of None \<Rightarrow> [] | Some ad \<Rightarrow> [op_Deployment ad])) groups)"

definition CreateWithGroupedOperations ::
  "int \<Rightarrow> Apply \<Rightarrow> ApplyOperationWithTasks option list \<Rightarrow> db \<Rightarrow> storage_error + (int \<times> db)" where
  "CreateWithGroupedOperations now apply groups d =
     createWithRows now apply (ap_Deployment apply # group_deployments groups) (insertApplyGroupedOperations now groups) d"

subsection \<open>Reads\<close>

definition ap_Get :: "int \<Rightarrow> db \<Rightarrow> Apply option" where
  "ap_Get i d = find (\<lambda>a. ap_ID a = i) (db_applies d)"

definition GetByApplyIdentifier :: "string \<Rightarrow> db \<Rightarrow> Apply option" where
  "GetByApplyIdentifier applyIdentifier d = find (\<lambda>a. sql_eq (ap_ApplyIdentifier a) applyIdentifier) (db_applies d)"

definition GetByIdempotencyKey :: "string \<Rightarrow> db \<Rightarrow> Apply option" where
  "GetByIdempotencyKey idempotencyKey d =
     (if idempotencyKey = [] then None
      else find (\<lambda>a. case ap_IdempotencyKey a of None \<Rightarrow> False | Some k \<Rightarrow> sql_eq k idempotencyKey) (db_applies d))"

definition GetByPlan :: "int \<Rightarrow> db \<Rightarrow> Apply option" where
  "GetByPlan planID d = find (\<lambda>a. ap_PlanID a = planID) (db_applies d)"

text \<open>ORDER BY created\_at DESC.\<close>

definition newest_first :: "Apply list \<Rightarrow> Apply list" where
  "newest_first = sort_key (\<lambda>a. - ap_CreatedAt a)"

definition GetByLock :: "int \<Rightarrow> db \<Rightarrow> Apply list" where
  "GetByLock lockID d = newest_first (filter (\<lambda>a. ap_LockID a = lockID) (db_applies d))"

definition GetInProgress :: "db \<Rightarrow> Apply list" where
  "GetInProgress d = newest_first (filter (\<lambda>a. nonTerminalApplyStatePredicate (ap_State a)) (db_applies d))"

record RecentAppliesFilter =
  rf_Limit :: int
  rf_Environment :: string
  rf_States :: "string list"

definition GetRecent :: "RecentAppliesFilter \<Rightarrow> db \<Rightarrow> Apply list" where
  "GetRecent f d = take (nat (rf_Limit f)) (sort_key (\<lambda>a. (- ap_CreatedAt a, - ap_ID a))
     (filter (\<lambda>a. (rf_Environment f = [] \<or> sql_eq (ap_Environment a) (rf_Environment f))
        \<and> (length (rf_States f) = 0 \<or> sql_in (ap_State a) (rf_States f))) (db_applies d)))"

definition GetByDatabase :: "string \<Rightarrow> string \<Rightarrow> string \<Rightarrow> db \<Rightarrow> Apply list" where
  "GetByDatabase database dbType environment d = newest_first (filter (\<lambda>a. sql_eq (ap_Database a) database
     \<and> (dbType = [] \<or> sql_eq (ap_DatabaseType a) dbType)
     \<and> (environment = [] \<or> sql_eq (ap_Environment a) environment)) (db_applies d))"

definition GetByPR :: "string \<Rightarrow> int \<Rightarrow> db \<Rightarrow> Apply list" where
  "GetByPR repo pr d = newest_first (filter (\<lambda>a. sql_eq (ap_Repository a) repo \<and> ap_PullRequest a = pr) (db_applies d))"

subsection \<open>Updates\<close>

definition operation_lease_only :: "call_ctx \<Rightarrow> bool" where
  "operation_lease_only ctx \<longleftrightarrow> OperationLeaseFromContext ctx \<noteq> None \<and> ApplyLeaseFromContext ctx = None"

definition lease_predicate :: "ApplyLease option \<Rightarrow> Apply \<Rightarrow> bool" where
  "lease_predicate hasLease a = (case hasLease of None \<Rightarrow> True | Some lease \<Rightarrow> sql_eq (ap_LeaseToken a) (al_Token lease))"

definition updated_apply_row :: "int \<Rightarrow> Apply \<Rightarrow> Apply \<Rightarrow> Apply" where
  "updated_apply_row now apply a =
     (let a' = a\<lparr>ap_State := ap_State apply, ap_ErrorMessage := Some (null_text (ap_ErrorMessage apply)),
                 ap_Attempt := ap_Attempt apply, ap_ExternalID := ap_ExternalID apply,
                 ap_StartedAt := ap_StartedAt apply, ap_CompletedAt := ap_CompletedAt apply, ap_UpdatedAt := now\<rparr> in
      case ap_Options apply of None \<Rightarrow> a' | Some obj \<Rightarrow> a'\<lparr>ap_Options := Some obj\<rparr>)"

definition ap_Update :: "int \<Rightarrow> call_ctx \<Rightarrow> Apply \<Rightarrow> db \<Rightarrow> storage_error + db" where
  "ap_Update now ctx apply d =
     (if operation_lease_only ctx then Inl ErrApplyLeaseLost
      else bind_result (applyLeaseFromContext ctx (ap_ID apply)) (\<lambda>hasLease.
        let lockTarget = isActiveApplyState (ap_State apply);
            (database, dbType, environment, deployment) =
              (if lockTarget \<and> (\<not> hasApplyTarget (ap_Database apply) (ap_DatabaseType apply) (ap_Environment apply)
                   \<or> ap_Deployment apply = [])
               then applyTargetForUpdate apply d
               else (ap_Database apply, ap_DatabaseType apply, ap_Environment apply, ap_Deployment apply));
            shouldLockTarget = (lockTarget \<and> hasApplyTarget database dbType environment) in
        bind_result (if shouldLockTarget
            then checkNoActiveApplyForTargets database dbType environment
                   (operationDeploymentsForApply (ap_ID apply) d @ [deployment]) (ap_ID apply) d
            else Inr ()) (\<lambda>_.
        let sel = (\<lambda>a. ap_ID a = ap_ID apply \<and> lease_predicate hasLease a);
            d' = d\<lparr>db_applies := update_where sel (updated_apply_row now apply) (db_applies d)\<rparr> in
        case hasLease of
          None \<Rightarrow> Inr d'
        | Some lease \<Rightarrow>
            if rows_changed sel (updated_apply_row now apply) (db_applies d) = 0
            then bind_result (ensureApplyLeaseStillOwned lease d') (\<lambda>_. Inr d')
            else Inr d')))"

datatype derivedStateGuard = DerivedUnguarded | DerivedOperation OperationLease | DerivedApply ApplyLease

definition derivedStateGuardForContext :: "call_ctx \<Rightarrow> int \<Rightarrow> storage_error + derivedStateGuard" where
  "derivedStateGuardForContext ctx applyID = (case OperationLeaseFromContext ctx of
       Some opLease \<Rightarrow>
         if \<not> OperationLease_Valid opLease then Inl ErrApplyLeaseLost
         else if ol_ApplyID opLease \<noteq> applyID then Inl ErrApplyLeaseLost
         else Inr (DerivedOperation opLease)
     | None \<Rightarrow> bind_result (applyLeaseFromContext ctx applyID) (\<lambda>hasLease. case hasLease of
           Some lease \<Rightarrow> Inr (DerivedApply lease)
         | None \<Rightarrow> Inr DerivedUnguarded))"

definition derived_predicate :: "derivedStateGuard \<Rightarrow> int \<Rightarrow> db \<Rightarrow> Apply \<Rightarrow> bool" where
  "derived_predicate guard applyID d a = (case guard of
       DerivedUnguarded \<Rightarrow> True
     | DerivedOperation opLease \<Rightarrow> operationLeaseOwnsApply opLease applyID d
     | DerivedApply lease \<Rightarrow> sql_eq (ap_LeaseToken a) (al_Token lease))"

definition ensure_derived_owned :: "derivedStateGuard \<Rightarrow> int \<Rightarrow> db \<Rightarrow> storage_error + unit" where
  "ensure_derived_owned guard applyID d = (case guard of
       DerivedUnguarded \<Rightarrow> Inr ()
     | DerivedOperation opLease \<Rightarrow> ensureOperationLeaseOwnsApply opLease applyID d
     | DerivedApply lease \<Rightarrow> ensureApplyLeaseStillOwned lease d)"

definition derived_row :: "int \<Rightarrow> string \<Rightarrow> string \<Rightarrow> int option \<Rightarrow> int option \<Rightarrow> Apply \<Rightarrow> Apply" where
  "derived_row now newState errorMessage startedAt completedAt a =
     a\<lparr>ap_State := newState, ap_ErrorMessage := Some errorMessage,
       ap_StartedAt := (case ap_StartedAt a of None \<Rightarrow> startedAt | Some t \<Rightarrow> Some t),
       ap_CompletedAt := completedAt, ap_UpdatedAt := now\<rparr>"

definition UpdateDerivedState ::
  "int \<Rightarrow> call_ctx \<Rightarrow> int \<Rightarrow> string \<Rightarrow> string \<Rightarrow> string \<Rightarrow> int option \<Rightarrow> int option \<Rightarrow> db \<Rightarrow> storage_error + (bool \<times> db)" where
  "UpdateDerivedState now ctx applyID expectedState newState errorMessage startedAt completedAt d =
     bind_result (derivedStateGuardForContext ctx applyID) (\<lambda>guard.
       let sel = (\<lambda>a. ap_ID a = applyID \<and> sql_eq (ap_State a) expectedState \<and> derived_predicate guard applyID d a);
           f = derived_row now newState errorMessage startedAt completedAt;
           d' = d\<lparr>db_applies := update_where sel f (db_applies d)\<rparr> in
       if rows_changed sel f (db_applies d) > 0 then Inr (True, d')
       else bind_result (ensure_derived_owned guard applyID d') (\<lambda>_.
         if \<not> IsState newState [expectedState] then Inr (False, d')
         else case ap_Get applyID d' of
             None \<Rightarrow> Inr (False, d')
           | Some a \<Rightarrow> Inr (IsState (ap_State a) [expectedState], d')))"

definition SetRevertSkipped :: "int \<Rightarrow> int \<Rightarrow> db \<Rightarrow> db" where
  "SetRevertSkipped applyID at d = d\<lparr>db_applies :=
     update_where (\<lambda>a. ap_ID a = applyID) (\<lambda>a. a\<lparr>ap_RevertSkippedAt := Some at\<rparr>) (db_applies d)\<rparr>"

definition ap_Heartbeat :: "int \<Rightarrow> call_ctx \<Rightarrow> int \<Rightarrow> db \<Rightarrow> storage_error + db" where
  "ap_Heartbeat now ctx applyID d =
     (if operation_lease_only ctx then Inl ErrApplyLeaseLost
      else bind_result (applyLeaseFromContext ctx applyID) (\<lambda>hasLease.
        let sel = (\<lambda>a. ap_ID a = applyID \<and> lease_predicate hasLease a);
            d' = d\<lparr>db_applies := update_where sel (\<lambda>a. a\<lparr>ap_UpdatedAt := now\<rparr>) (db_applies d)\<rparr> in
        case hasLease of
          None \<Rightarrow> Inr d'
        | Some lease \<Rightarrow>
            bind_result (confirmLeaseOnZeroRows (rows_changed sel (\<lambda>a. a\<lparr>ap_UpdatedAt := now\<rparr>) (db_applies d)) lease d') (\<lambda>_. Inr d')))"

definition CheckLease :: "ApplyLease \<Rightarrow> db \<Rightarrow> storage_error + unit" where
  "CheckLease lease d = (if \<not> ApplyLease_Valid lease then Inl ErrApplyLeaseLost else ensureApplyLeaseStillOwned lease d)"

definition ap_Delete :: "int \<Rightarrow> db \<Rightarrow> storage_error + db" where
  "ap_Delete i d =
     (if filter (\<lambda>a. ap_ID a = i) (db_applies d) = [] then Inl ErrApplyNotFound
      else Inr (d\<lparr>db_operations := filter (\<lambda>r. op_ApplyID r \<noteq> i) (db_operations d),
                  db_applies := filter (\<lambda>a. ap_ID a \<noteq> i) (db_applies d)\<rparr>))"

definition DeleteByPR :: "string \<Rightarrow> int \<Rightarrow> db \<Rightarrow> db" where
  "DeleteByPR repo pr d =
     (let hit = (\<lambda>a. sql_eq (ap_Repository a) repo \<and> ap_PullRequest a = pr) in
      d\<lparr>db_operations := filter (\<lambda>r. \<not> list_ex (\<lambda>a. ap_ID a = op_ApplyID r \<and> hit a) (db_applies d)) (db_operations d),
        db_applies := filter (\<lambda>a. \<not> hit a) (db_applies d)\<rparr>)"

subsection \<open>Claims\<close>

definition claimable_apply :: "int \<Rightarrow> db \<Rightarrow> Apply \<Rightarrow> bool" where
  "claimable_apply now d a \<longleftrightarrow>
     (sql_eq (ap_State a) Apply_Pending \<and> list_ex (\<lambda>t. tk_ApplyID t = ap_ID a) (db_tasks d))
     \<or> (sql_in (ap_State a) claimableApplyStates \<and> ap_UpdatedAt a < now - 60)
     \<or> (sql_eq (ap_State a) Apply_FailedRetryable \<and> ap_Attempt a < maxRecoveryAttempts
          \<and> ap_UpdatedAt a \<ge> now - days retryableRecoveryFreshnessDays)
     \<or> (sql_eq (ap_State a) Apply_Pending \<and> pending_request d (ap_ID a) ControlOperationStart)
     \<or> (sql_eq (ap_State a) Apply_Stopped \<and> pending_request d (ap_ID a) ControlOperationStart)
     \<or> (sql_eq (ap_State a) Apply_WaitingForDeploy
          \<and> list_ex (\<lambda>cr. cr_ApplyID cr = ap_ID a \<and> sql_eq (cr_Operation cr) ControlOperationStart
               \<and> sql_eq (cr_Status cr) ControlRequestPending
               \<and> (case ap_LeaseAcquiredAt a of None \<Rightarrow> True | Some t \<Rightarrow> t < cr_UpdatedAt cr \<or> ap_UpdatedAt a < now - 60))
             (db_control_requests d))"

definition first_unlocked_apply :: "(Apply \<Rightarrow> bool) \<Rightarrow> int list \<Rightarrow> db \<Rightarrow> Apply option" where
  "first_unlocked_apply p locked d =
     find (\<lambda>a. p a \<and> ap_ID a \<notin> set locked) (sort_key ap_CreatedAt (db_applies d))"

definition select_next_apply :: "int \<Rightarrow> int list \<Rightarrow> db \<Rightarrow> Apply option" where
  "select_next_apply now locked d = first_unlocked_apply (claimable_apply now d) locked d"

definition select_apply_by_id :: "int \<Rightarrow> int list \<Rightarrow> int \<Rightarrow> db \<Rightarrow> Apply option" where
  "select_apply_by_id now locked applyID d =
     find (\<lambda>a. ap_ID a = applyID \<and> claimable_apply now d a \<and> ap_ID a \<notin> set locked) (db_applies d)"

definition reconcilable_apply :: "db \<Rightarrow> Apply \<Rightarrow> bool" where
  "reconcilable_apply d a \<longleftrightarrow>
     sql_in (ap_State a) (Apply_Pending # claimableApplyStates)
     \<and> pending_request d (ap_ID a) ControlOperationStop
     \<and> list_ex (\<lambda>r. op_ApplyID r = ap_ID a \<and> sql_eq (op_State r) Apply_Pending) (db_operations d)
     \<and> \<not> list_ex (\<lambda>r. op_ApplyID r = ap_ID a \<and> sql_in (op_State r) claimableApplyStates) (db_operations d)"

datatype claimOutcome = claimLostRace | claimAcquired | claimAcquiredCommitted | claimRefusedActiveTarget

definition claimedAndComplete :: "claimOutcome \<Rightarrow> bool" where
  "claimedAndComplete oc \<longleftrightarrow> oc = claimAcquiredCommitted"

definition claimed_apply_row :: "int \<Rightarrow> string \<Rightarrow> string \<Rightarrow> string \<Rightarrow> string \<Rightarrow> Apply \<Rightarrow> Apply" where
  "claimed_apply_row now from targetState owner token a =
     a\<lparr>ap_State := targetState, ap_UpdatedAt := now, ap_LeaseOwner := owner, ap_LeaseToken := token,
       ap_LeaseAcquiredAt := Some now,
       ap_Attempt := (if sql_eq from Apply_FailedRetryable then ap_Attempt a + 1 else ap_Attempt a),
       ap_CompletedAt := None,
       ap_ErrorMessage := (if sql_eq from Apply_FailedRetryable then Some [] else ap_ErrorMessage a)\<rparr>"

text \<open>The result is \<open>None\<close> for a lost race, else the apply as the caller gets it and the database.\<close>

definition transitionClaimToState ::
  "int \<Rightarrow> Apply \<Rightarrow> string \<Rightarrow> string \<Rightarrow> string \<Rightarrow> db \<Rightarrow> (Apply \<times> db) option" where
  "transitionClaimToState now apply targetState owner token d =
     (let sel = (\<lambda>a. ap_ID a = ap_ID apply \<and> sql_eq (ap_State a) (ap_State apply));
          f = claimed_apply_row now (ap_State apply) targetState owner token in
      if rows_changed sel f (db_applies d) = 0 then None
      else Some (if IsState (ap_State apply) [Apply_FailedRetryable]
                   then apply\<lparr>ap_Attempt := ap_Attempt apply + 1, ap_ErrorMessage := Some []\<rparr> else apply,
                 d\<lparr>db_applies := update_where sel f (db_applies d)\<rparr>))"

definition failPendingStartControlRequestTx :: "int \<Rightarrow> int \<Rightarrow> string \<Rightarrow> db \<Rightarrow> db" where
  "failPendingStartControlRequestTx now applyID reason d = d\<lparr>db_control_requests := update_where
     (\<lambda>cr. cr_ApplyID cr = applyID \<and> sql_eq (cr_Operation cr) ControlOperationStart \<and> sql_eq (cr_Status cr) ControlRequestPending)
     (\<lambda>cr. cr\<lparr>cr_Status := ControlRequestFailed, cr_ErrorMessage := Some reason,
              cr_CompletedAt := coalesce (cr_CompletedAt cr) now, cr_UpdatedAt := now\<rparr>) (db_control_requests d)\<rparr>"

definition refuseStoppedClaimForActiveTarget :: "int \<Rightarrow> Apply \<Rightarrow> string \<Rightarrow> string \<Rightarrow> string \<Rightarrow> db \<Rightarrow> claimOutcome \<times> Apply \<times> db" where
  "refuseStoppedClaimForActiveTarget now apply database dbType environment d =
     (claimRefusedActiveTarget, apply,
      failPendingStartControlRequestTx now (ap_ID apply)
        (''start refused: another active apply exists for '' @ database @ ''/'' @ dbType @ ''/'' @ environment) d)"

definition claimStoppedApplyUnderTargetLock ::
  "int \<Rightarrow> Apply \<Rightarrow> string \<Rightarrow> string \<Rightarrow> db \<Rightarrow> storage_error + (claimOutcome \<times> Apply \<times> db)" where
  "claimStoppedApplyUnderTargetLock now apply owner token d =
     (case applyTargetForUpdate apply d of (database, dbType, environment, deployment) \<Rightarrow>
        if \<not> hasApplyTarget database dbType environment then Inl (ErrOther ''stopped apply is missing target metadata'')
        else case checkNoActiveApplyForTargets database dbType environment
               (operationDeploymentsForApply (ap_ID apply) d @ [deployment]) (ap_ID apply) d of
            Inl e \<Rightarrow>
              if e \<noteq> ErrActiveApplyExists then Inl e
              else Inr (refuseStoppedClaimForActiveTarget now apply database dbType environment d)
          | Inr _ \<Rightarrow> (case transitionClaimToState now apply Apply_Resuming owner token d of
                None \<Rightarrow> Inr (claimLostRace, apply, d)
              | Some (apply', d') \<Rightarrow> Inr (claimAcquiredCommitted, apply', d')))"

definition persistApplyClaim ::
  "int \<Rightarrow> int \<Rightarrow> Apply \<Rightarrow> string \<Rightarrow> string \<Rightarrow> db \<Rightarrow> storage_error + (claimOutcome \<times> Apply \<times> db)" where
  "persistApplyClaim now time_Now apply0 owner token d =
     (let apply = apply0\<lparr>ap_LeaseOwner := owner, ap_LeaseToken := token, ap_LeaseAcquiredAt := Some time_Now\<rparr> in
      if IsState (ap_State apply) [Apply_Stopped] then claimStoppedApplyUnderTargetLock now apply owner token d
      else if isStartingClaim (ap_State apply) then
        (case transitionClaimToState now apply Apply_Running owner token d of
           None \<Rightarrow> Inr (claimLostRace, apply, d)
         | Some (apply', d') \<Rightarrow> Inr (claimAcquired, apply', d'))
      else Inr (claimAcquired, apply, d\<lparr>db_applies := update_where (\<lambda>a. ap_ID a = ap_ID apply)
        (\<lambda>a. a\<lparr>ap_UpdatedAt := now, ap_LeaseOwner := owner, ap_LeaseToken := token, ap_LeaseAcquiredAt := Some now\<rparr>)
        (db_applies d)\<rparr>))"

text \<open>The end of a claim: only an acquired claim returns its apply; a lost race rolls back, a refusal is committed.\<close>

definition finish_claim :: "db \<Rightarrow> claimOutcome \<times> Apply \<times> db \<Rightarrow> Apply option \<times> db" where
  "finish_claim d r = (case r of (oc, apply, d') \<Rightarrow>
     if claimedAndComplete oc then (Some apply, d')
     else if oc = claimRefusedActiveTarget then (None, d')
     else if oc \<noteq> claimAcquired then (None, d)
     else (Some apply, d'))"

definition FindNextApply ::
  "int \<Rightarrow> int \<Rightarrow> int list \<Rightarrow> (db \<Rightarrow> db) \<Rightarrow> string \<Rightarrow> string \<Rightarrow> db \<Rightarrow> storage_error + (Apply option \<times> db)" where
  "FindNextApply now time_Now locked between token owner d =
     (if owner = [] then Inl ErrApplyLeaseLost
      else case select_next_apply now locked d of
        None \<Rightarrow> Inr (None, d)
      | Some apply \<Rightarrow> bind_result (persistApplyClaim now time_Now apply owner token (between d))
          (\<lambda>r. Inr (finish_claim (between d) r)))"

definition ClaimApplyByID ::
  "int \<Rightarrow> int \<Rightarrow> int list \<Rightarrow> (db \<Rightarrow> db) \<Rightarrow> string \<Rightarrow> int \<Rightarrow> string \<Rightarrow> db \<Rightarrow> storage_error + (Apply option \<times> db)" where
  "ClaimApplyByID now time_Now locked between token applyID owner d =
     (if owner = [] then Inl ErrApplyLeaseLost
      else case select_apply_by_id now locked applyID d of
        None \<Rightarrow> Inr (None, d)
      | Some apply \<Rightarrow> bind_result (persistApplyClaim now time_Now apply owner token (between d))
          (\<lambda>r. Inr (finish_claim (between d) r)))"

definition FindNextApplyForStopReconciliation ::
  "int \<Rightarrow> int \<Rightarrow> int list \<Rightarrow> (db \<Rightarrow> db) \<Rightarrow> string \<Rightarrow> string \<Rightarrow> db \<Rightarrow> storage_error + (Apply option \<times> db)" where
  "FindNextApplyForStopReconciliation now time_Now locked between token owner d =
     (if owner = [] then Inl ErrApplyLeaseLost
      else case first_unlocked_apply (reconcilable_apply d) locked d of
        None \<Rightarrow> Inr (None, d)
      | Some apply \<Rightarrow> bind_result (persistApplyClaim now time_Now apply owner token (between d))
          (\<lambda>(oc, apply', d'). Inr (if oc \<noteq> claimAcquired then (None, if oc = claimLostRace then between d else d') else (Some apply', d'))))"

subsection \<open>Expiry of retryable failures\<close>

datatype RetryableExpirationReason = RetryableExpirationAttemptBudget | RetryableExpirationRecoveryWindow

definition retryableExpirationReason :: "Apply \<Rightarrow> RetryableExpirationReason" where
  "retryableExpirationReason apply =
     (if ap_Attempt apply \<ge> maxRecoveryAttempts then RetryableExpirationAttemptBudget else RetryableExpirationRecoveryWindow)"

definition expired_retryable :: "int \<Rightarrow> Apply \<Rightarrow> bool" where
  "expired_retryable now a \<longleftrightarrow> sql_eq (ap_State a) Apply_FailedRetryable
     \<and> (ap_Attempt a \<ge> maxRecoveryAttempts \<or> ap_UpdatedAt a < now - days retryableRecoveryFreshnessDays)"

definition ExpireRetryable :: "int \<Rightarrow> int \<Rightarrow> db \<Rightarrow> (Apply \<times> RetryableExpirationReason) list \<times> db" where
  "ExpireRetryable now time_Now d =
     (let applies = filter (expired_retryable now) (db_applies d); ids = map ap_ID applies in
      if length applies = 0 then ([], d)
      else
        (map (\<lambda>a. (a\<lparr>ap_State := Apply_Failed, ap_CompletedAt := Some time_Now, ap_UpdatedAt := time_Now\<rparr>, retryableExpirationReason a)) applies,
         d\<lparr>db_tasks := update_where (\<lambda>t. \<not> sql_in (tk_State t) TerminalTaskStates \<and> tk_ApplyID t \<in> set ids)
             (\<lambda>t. t\<lparr>tk_State := Task_Failed, tk_CompletedAt := coalesce (tk_CompletedAt t) now, tk_UpdatedAt := now\<rparr>) (db_tasks d),
           db_operations := update_where (\<lambda>r. sql_eq (op_State r) Apply_FailedRetryable \<and> op_ApplyID r \<in> set ids)
             (\<lambda>r. r\<lparr>op_State := Apply_Failed, op_CompletedAt := coalesce (op_CompletedAt r) now, op_UpdatedAt := now\<rparr>) (db_operations d),
           db_applies := update_where (\<lambda>a. ap_ID a \<in> set ids)
             (\<lambda>a. a\<lparr>ap_State := Apply_Failed, ap_CompletedAt := coalesce (ap_CompletedAt a) now, ap_UpdatedAt := now\<rparr>) (db_applies d)\<rparr>))"

subsection \<open>The invariant: one active apply per target\<close>

text \<open>
  The targets of an apply are its primary deployment and the deployments of its operations. No two non-terminal applies of
  the same database, type and environment share one.
\<close>

definition apply_targets :: "db \<Rightarrow> Apply \<Rightarrow> string list" where
  "apply_targets d a = ap_Deployment a # operationDeploymentsForApply (ap_ID a) d"

definition same_database :: "Apply \<Rightarrow> Apply \<Rightarrow> bool" where
  "same_database a b \<longleftrightarrow> sql_eq (ap_Database a) (ap_Database b) \<and> sql_eq (ap_DatabaseType a) (ap_DatabaseType b)
     \<and> sql_eq (ap_Environment a) (ap_Environment b)"

definition share_target :: "string list \<Rightarrow> string list \<Rightarrow> bool" where
  "share_target xs ys \<longleftrightarrow> list_ex (\<lambda>x. sql_in x ys) xs"

definition one_active :: "db \<Rightarrow> bool" where
  "one_active d \<longleftrightarrow> list_all (\<lambda>a. list_all (\<lambda>b. ap_ID a \<noteq> ap_ID b \<and> nonTerminalApplyStatePredicate (ap_State a)
     \<and> nonTerminalApplyStatePredicate (ap_State b) \<and> same_database a b
     \<longrightarrow> \<not> share_target (apply_targets d a) (apply_targets d b)) (db_applies d)) (db_applies d)"

definition wf_refs :: "db \<Rightarrow> bool" where
  "wf_refs d \<longleftrightarrow> list_all (\<lambda>r. op_ApplyID r < next_apply_id d) (db_operations d)"

lemma share_target_iff: "share_target xs ys \<longleftrightarrow> (\<exists>x \<in> set xs. \<exists>y \<in> set ys. sql_eq x y)"
  by (auto simp: share_target_def list_ex_iff sql_in_iff)

lemma share_target_sym: "share_target xs ys \<longleftrightarrow> share_target ys xs"
  unfolding share_target_iff using sql_eq_sym by blast

lemma same_database_sym: "same_database a b \<longleftrightarrow> same_database b a"
  unfolding same_database_def using sql_eq_sym by metis

lemma one_active_iff:
  "one_active d \<longleftrightarrow> (\<forall>a \<in> set (db_applies d). \<forall>b \<in> set (db_applies d). ap_ID a \<noteq> ap_ID b
     \<longrightarrow> nonTerminalApplyStatePredicate (ap_State a) \<longrightarrow> nonTerminalApplyStatePredicate (ap_State b) \<longrightarrow> same_database a b
     \<longrightarrow> \<not> share_target (apply_targets d a) (apply_targets d b))"
  unfolding one_active_def list_all_iff by blast

lemma set_dedupe_loop: "set (dedupe_loop seen xs) = set xs - set seen"
  by (induction seen xs rule: dedupe_loop.induct) auto

lemma dedupe_loop_distinct: "distinct (dedupe_loop seen xs)"
  by (induction seen xs rule: dedupe_loop.induct) (auto simp: set_dedupe_loop)

lemma set_dedupeDeployments [simp]: "set (dedupeDeployments xs) = set xs"
  by (simp add: dedupeDeployments_def set_dedupe_loop)

lemma sql_in_dedupe [simp]: "sql_in x (dedupeDeployments xs) = sql_in x xs"
  by (simp add: sql_in_iff)

lemma nonTerminal_iff_active:
  "st \<in> set Apply_states \<Longrightarrow> nonTerminalApplyStatePredicate st \<longleftrightarrow> isActiveApplyState st"
  by (auto simp: nonTerminalApplyStatePredicate_def isActiveApplyState_def IsTerminalApplyState_iff sql_in_iff terminalApplyStates_def)

lemma checkNoActive_OkD:
  assumes "checkNoActiveApplyForTargets database dbType environment deployments ex d = Inr ()"
    and "a \<in> set (db_applies d)" "sql_eq (ap_Database a) database" "sql_eq (ap_DatabaseType a) dbType"
    "sql_eq (ap_Environment a) environment" "nonTerminalApplyStatePredicate (ap_State a)" "ap_ID a \<noteq> ex"
  shows "\<not> share_target (apply_targets d a) deployments"
proof
  assume "share_target (apply_targets d a) deployments"
  then have "sql_in (ap_Deployment a) deployments
      \<or> list_ex (\<lambda>r. op_ApplyID r = ap_ID a \<and> sql_in (op_Deployment r) deployments) (db_operations d)"
    by (auto simp: share_target_def apply_targets_def operationDeploymentsForApply_def list_ex_iff)
  with assms show False
    by (auto simp: checkNoActiveApplyForTargets_def Let_def list_ex_iff split: if_splits)
qed

subsection \<open>Creation keeps the invariant\<close>

text \<open>
  What the shared create path relies on of the rows a caller writes with the apply (the source's type applyCreateWriter): they are new
  operations of the new apply, in the deployments the overlap check was given, and tasks.
\<close>

locale apply_create_writer =
  fixes writeRows :: "int \<Rightarrow> db \<Rightarrow> storage_error + db" and newDeployments :: "string list"
  assumes writer_applies: "writeRows i d = Inr d' \<Longrightarrow> db_applies d' = db_applies d \<and> next_apply_id d' = next_apply_id d
      \<and> db_control_requests d' = db_control_requests d"
    and writer_operations: "writeRows i d = Inr d' \<Longrightarrow> \<exists>new. db_operations d' = db_operations d @ new
      \<and> (\<forall>r \<in> set new. op_ApplyID r = i \<and> op_Deployment r \<in> set newDeployments)"
    and writer_wf: "writeRows i d = Inr d' \<Longrightarrow> wf_operations d \<Longrightarrow> wf_operations d'"
begin

lemma createD:
  assumes "createWithRows now apply newDeployments writeRows d = Inr (i, d')"
  obtains new where "i = next_apply_id d" "db_applies d' = db_applies d @ [new_apply_row now i apply]"
    "next_apply_id d' = i + 1" "db_operations d' = db_operations d @ new"
    "\<And>r. r \<in> set new \<Longrightarrow> op_ApplyID r = i \<and> op_Deployment r \<in> set newDeployments"
    "isActiveApplyState (ap_State apply) \<Longrightarrow> checkNoActiveApplyForTargets (ap_Database apply) (ap_DatabaseType apply)
       (ap_Environment apply) newDeployments 0 d = Inr ()"
proof -
  from assms obtain d1 where ins: "insert_apply now apply d = Inr (i, d1)" and wr: "writeRows i d1 = Inr d'"
    and chk: "isActiveApplyState (ap_State apply) \<Longrightarrow> checkNoActiveApplyForTargets (ap_Database apply) (ap_DatabaseType apply)
       (ap_Environment apply) newDeployments 0 d = Inr ()"
    by (auto simp: createWithRows_def Let_def bind_result_Inr_iff split: if_splits)
  from ins have d1: "i = next_apply_id d" "d1 = d\<lparr>db_applies := db_applies d @ [new_apply_row now i apply], next_apply_id := i + 1\<rparr>"
    by (auto simp: insert_apply_def Let_def split: if_splits)
  from writer_operations [OF wr] d1(2) obtain new where "db_operations d' = db_operations d @ new"
    "\<forall>r \<in> set new. op_ApplyID r = i \<and> op_Deployment r \<in> set newDeployments" by auto
  with writer_applies [OF wr] d1 chk show thesis by (intro that [of new]) auto
qed

lemma create_keeps_one_active:
  assumes cr: "createWithRows now apply newDeployments writeRows d = Inr (i, d')"
    and inv: "one_active d" and wf: "wf_refs d" "wf_applies d"
    and dep: "ap_Deployment apply \<in> set newDeployments" and st: "ap_State apply \<in> set Apply_states"
  shows "one_active d'"
proof -
  from cr obtain new where i: "i = next_apply_id d" and as: "db_applies d' = db_applies d @ [new_apply_row now i apply]"
    and ops: "db_operations d' = db_operations d @ new"
    and new: "\<And>r. r \<in> set new \<Longrightarrow> op_ApplyID r = i \<and> op_Deployment r \<in> set newDeployments"
    and chk: "isActiveApplyState (ap_State apply) \<Longrightarrow> checkNoActiveApplyForTargets (ap_Database apply) (ap_DatabaseType apply)
       (ap_Environment apply) newDeployments 0 d = Inr ()" by (rule createD) blast
  let ?row = "new_apply_row now i apply"
  have old: "apply_targets d' a = apply_targets d a" "0 < ap_ID a" "ap_ID a \<noteq> i" if "a \<in> set (db_applies d)" for a
  proof -
    show "0 < ap_ID a" and ne: "ap_ID a \<noteq> i"
      using that wf(2) i by (auto simp: wf_applies_def ids_below_def list_all_iff)
    then have "filter (\<lambda>r. op_ApplyID r = ap_ID a) new = []" using new by (auto simp: filter_empty_conv)
    then show "apply_targets d' a = apply_targets d a" by (simp add: apply_targets_def operationDeploymentsForApply_def ops)
  qed
  have newt: "set (apply_targets d' ?row) \<subseteq> set newDeployments"
    using new dep wf(1) i
    by (auto simp: apply_targets_def operationDeploymentsForApply_def ops new_apply_row_def wf_refs_def list_all_iff)
  have cross: "\<not> share_target (apply_targets d' a) (apply_targets d' ?row)"
    if "a \<in> set (db_applies d)" "nonTerminalApplyStatePredicate (ap_State a)"
      "nonTerminalApplyStatePredicate (ap_State ?row)" "same_database a ?row" for a
  proof -
    have "isActiveApplyState (ap_State apply)"
      using that(3) nonTerminal_iff_active [OF st] by (simp add: new_apply_row_def)
    from checkNoActive_OkD [OF chk [OF this] that(1)] that(2,4) old(2) [OF that(1)]
    have "\<not> share_target (apply_targets d a) newDeployments" by (simp add: same_database_def new_apply_row_def)
    with newt old(1) [OF that(1)] show ?thesis by (auto simp: share_target_iff)
  qed
  show ?thesis
    unfolding one_active_iff as
    using inv cross old(1) share_target_sym same_database_sym
    by (simp add: one_active_iff ball_Un)
qed

end

text \<open>The frame of the row inserts: what a successful insert of operations or tasks leaves alone.\<close>

definition rows_added :: "int \<Rightarrow> string set \<Rightarrow> db \<Rightarrow> db \<Rightarrow> bool" where
  "rows_added i deps d d' \<longleftrightarrow> db_applies d' = db_applies d \<and> next_apply_id d' = next_apply_id d
     \<and> db_control_requests d' = db_control_requests d
     \<and> (\<exists>new. db_operations d' = db_operations d @ new \<and> (\<forall>r \<in> set new. op_ApplyID r = i \<and> op_Deployment r \<in> deps))
     \<and> (wf_operations d \<longrightarrow> wf_operations d')"

lemma rows_added_refl: "rows_added i deps d d"
  by (simp add: rows_added_def)

lemma rows_added_trans:
  assumes "rows_added i A d d1" "rows_added i B d1 d2" "A \<subseteq> C" "B \<subseteq> C"
  shows "rows_added i C d d2"
proof -
  from assms(1,2) obtain n1 n2 where "db_operations d1 = db_operations d @ n1" "\<forall>r \<in> set n1. op_ApplyID r = i \<and> op_Deployment r \<in> A"
    "db_operations d2 = db_operations d1 @ n2" "\<forall>r \<in> set n2. op_ApplyID r = i \<and> op_Deployment r \<in> B"
    by (auto simp: rows_added_def)
  with assms(3,4) have "db_operations d2 = db_operations d @ (n1 @ n2)"
    "\<forall>r \<in> set (n1 @ n2). op_ApplyID r = i \<and> op_Deployment r \<in> C" by auto
  then have "\<exists>new. db_operations d2 = db_operations d @ new \<and> (\<forall>r \<in> set new. op_ApplyID r = i \<and> op_Deployment r \<in> C)" by blast
  with assms(1,2) show ?thesis by (simp add: rows_added_def)
qed

lemma insertApplyOperation_added:
  assumes "insertApplyOperation now ad d = Inr (ad', d')"
  shows "rows_added (op_ApplyID ad) {op_Deployment ad} d d'"
proof -
  from assms obtain row where d': "d' = d\<lparr>db_operations := db_operations d @ [row], next_operation_id := next_operation_id d + 1\<rparr>"
    and row: "op_ID row = next_operation_id d" "op_ApplyID row = op_ApplyID ad" "op_Deployment row = op_Deployment ad"
    and new: "\<not> list_ex (\<lambda>r. operation_key_of r = operation_key_of row) (db_operations d)"
    by (auto simp: insertApplyOperation_def Let_def split: if_splits)
  have "wf_operations d'" if wf: "wf_operations d"
  proof -
    have "operation_key_of row \<notin> operation_key_of ` set (db_operations d)" using new by (auto simp: list_ex_iff)
    moreover have "ids_below (map op_ID (db_operations d) @ [op_ID row]) (next_operation_id d + 1)"
      using wf row(1) ids_below_snoc by (simp add: wf_operations_def)
    ultimately show ?thesis using wf by (simp add: wf_operations_def d')
  qed
  with row show ?thesis by (simp add: rows_added_def d')
qed

lemma insertTask_added: "insertTask now t d = Inr (j, d') \<Longrightarrow> rows_added i {} d d'"
  by (auto simp: insertTask_def Let_def rows_added_def wf_operations_def split: if_splits)

lemma insert_operations_added:
  "insert_operations now i ads d = Inr (ads', d') \<Longrightarrow> rows_added i (op_Deployment ` set ads) d d'"
proof (induction ads arbitrary: d ads' d')
  case (Cons ad ads)
  then obtain ad1 d1 ads1 where "insertApplyOperation now (ad\<lparr>op_ApplyID := i\<rparr>) d = Inr (ad1, d1)"
    "insert_operations now i ads d1 = Inr (ads1, d')" by (auto simp: bind_result_Inr_iff)
  then have "rows_added i {op_Deployment ad} d d1" "rows_added i (op_Deployment ` set ads) d1 d'"
    using Cons.IH insertApplyOperation_added [of now "ad\<lparr>op_ApplyID := i\<rparr>" d] by auto
  then show ?case by (rule rows_added_trans) auto
qed (simp add: rows_added_refl)

lemma insert_tasks_added: "insert_tasks now i ts d = Inr d' \<Longrightarrow> rows_added i {} d d'"
proof (induction ts arbitrary: d)
  case (Cons t ts)
  then obtain j d1 where "insertTask now (t\<lparr>tk_ApplyID := i\<rparr>) d = Inr (j, d1)" "insert_tasks now i ts d1 = Inr d'"
    by (auto simp: bind_result_Inr_iff)
  then have "rows_added i {} d d1" "rows_added i {} d1 d'" using Cons.IH by (auto dest: insertTask_added)
  then show ?case by (rule rows_added_trans) auto
qed (simp add: rows_added_refl)

lemma insert_group_tasks_added: "insert_group_tasks now i opID ts d = Inr d' \<Longrightarrow> rows_added i {} d d'"
proof (induction now i opID ts d rule: insert_group_tasks.induct)
  case (3 now i opID t ts d)
  then obtain j d1 where t: "insertTask now (t\<lparr>tk_ApplyID := i, tk_ApplyOperationID := Some opID\<rparr>) d = Inr (j, d1)"
    "insert_group_tasks now i opID ts d1 = Inr d'" by (auto simp: bind_result_Inr_iff)
  then have "rows_added i {} d d1" "rows_added i {} d1 d'" using 3 by (auto dest: insertTask_added)
  then show ?case by (rule rows_added_trans) auto
qed (auto simp: rows_added_refl)

lemma insertApplyTasksAndOperations_added:
  assumes "insertApplyTasksAndOperations now tasks operations i d = Inr d'"
  shows "rows_added i (op_Deployment ` set operations) d d'"
proof -
  from assms obtain ops1 d1 ts1 where "insert_operations now i operations d = Inr (ops1, d1)" "insert_tasks now i ts1 d1 = Inr d'"
    by (auto simp: insertApplyTasksAndOperations_def bind_result_Inr_iff)
  then show ?thesis using rows_added_trans [OF insert_operations_added insert_tasks_added] by blast
qed

lemma insert_group_added:
  assumes "insert_group now i g d = Inr d'"
  shows "rows_added i (set (group_deployments [g])) d d'"
proof -
  from assms obtain h ad where g: "g = Some h" "og_Operation h = Some ad"
    by (cases g; cases "og_Operation (the g)") (auto simp: insert_group_def)
  with assms obtain ad1 d1 where ins: "insertApplyOperation now (ad\<lparr>op_ApplyID := i\<rparr>) d = Inr (ad1, d1)"
    "insert_group_tasks now i (op_ID ad1) (og_Tasks h) d1 = Inr d'"
    by (auto simp: insert_group_def bind_result_Inr_iff split: if_splits)
  have "rows_added i {op_Deployment ad} d d1" using insertApplyOperation_added [OF ins(1)] by simp
  moreover have "rows_added i {} d1 d'" using ins(2) by (rule insert_group_tasks_added)
  ultimately show ?thesis by (rule rows_added_trans) (use g in \<open>auto simp: group_deployments_def\<close>)
qed

lemma insert_groups_added: "insert_groups now i gs d = Inr d' \<Longrightarrow> rows_added i (set (group_deployments gs)) d d'"
proof (induction gs arbitrary: d)
  case (Cons g gs)
  then obtain d1 where "insert_group now i g d = Inr d1" "insert_groups now i gs d1 = Inr d'" by (auto simp: bind_result_Inr_iff)
  then have "rows_added i (set (group_deployments [g])) d d1" "rows_added i (set (group_deployments gs)) d1 d'"
    using Cons.IH insert_group_added by blast+
  then show ?case by (rule rows_added_trans) (auto simp: group_deployments_def)
qed (simp add: rows_added_refl)

lemma rows_added_writer:
  assumes "\<And>i d d'. writeRows i d = Inr d' \<Longrightarrow> rows_added i (set deps) d d'" "set deps \<subseteq> set newDeployments"
  shows "apply_create_writer writeRows newDeployments"
proof
  fix i d d' assume "writeRows i d = Inr d'"
  then have r: "rows_added i (set deps) d d'" by (rule assms(1))
  then show "db_applies d' = db_applies d \<and> next_apply_id d' = next_apply_id d \<and> db_control_requests d' = db_control_requests d"
    by (simp add: rows_added_def)
  show "\<exists>new. db_operations d' = db_operations d @ new \<and> (\<forall>r \<in> set new. op_ApplyID r = i \<and> op_Deployment r \<in> set newDeployments)"
    using r assms(2) by (auto simp: rows_added_def)
  show "wf_operations d \<Longrightarrow> wf_operations d'" using r by (simp add: rows_added_def)
qed

interpretation ctasks: apply_create_writer "insertApplyTasksAndOperations now tasks operations" "x # map op_Deployment operations"
  for now tasks operations x
  by (rule rows_added_writer [where deps = "map op_Deployment operations"])
    (auto dest: insertApplyTasksAndOperations_added)

interpretation cgroups: apply_create_writer "insertApplyGroupedOperations now groups" "x # group_deployments groups"
  for now groups x
  by (rule rows_added_writer [where deps = "group_deployments groups"])
    (auto simp: insertApplyGroupedOperations_def dest: insert_groups_added split: if_splits)

subsection \<open>Claims keep the invariant\<close>

lemma one_active_cong:
  "db_applies d' = db_applies d \<Longrightarrow> db_operations d' = db_operations d \<Longrightarrow> one_active d' = one_active d"
  by (simp add: one_active_def apply_targets_def operationDeploymentsForApply_def)

definition same_target :: "Apply \<Rightarrow> Apply \<Rightarrow> bool" where
  "same_target a b \<longleftrightarrow> ap_ID b = ap_ID a \<and> ap_Database b = ap_Database a \<and> ap_DatabaseType b = ap_DatabaseType a
     \<and> ap_Environment b = ap_Environment a \<and> ap_Deployment b = ap_Deployment a"

lemma update_applies_one_active:
  assumes f: "\<And>a. same_target a (f a)"
    and main: "\<And>a b. a \<in> set (db_applies d) \<Longrightarrow> b \<in> set (db_applies d) \<Longrightarrow> ap_ID a \<noteq> ap_ID b
      \<Longrightarrow> nonTerminalApplyStatePredicate (ap_State (if sel a then f a else a))
      \<Longrightarrow> nonTerminalApplyStatePredicate (ap_State (if sel b then f b else b)) \<Longrightarrow> same_database a b
      \<Longrightarrow> \<not> share_target (apply_targets d a) (apply_targets d b)"
  shows "one_active (d\<lparr>db_applies := update_where sel f (db_applies d)\<rparr>)"
proof -
  let ?g = "\<lambda>a. if sel a then f a else a"
  let ?d = "d\<lparr>db_applies := update_where sel f (db_applies d)\<rparr>"
  have g: "same_target a (?g a)" for a using f by (simp add: same_target_def)
  have t: "apply_targets ?d (?g a) = apply_targets d a" "same_database (?g a) (?g b) = same_database a b" "ap_ID (?g a) = ap_ID a" for a b
    using g [of a] g [of b] by (simp_all add: apply_targets_def operationDeploymentsForApply_def same_database_def same_target_def)
  have "set (db_applies ?d) = ?g ` set (db_applies d)" by (simp add: update_where_def)
  then show ?thesis unfolding one_active_iff using main t by (simp del: if_image_distrib)
qed

lemma update_keeps_one_active:
  assumes "one_active d" "\<And>a. same_target a (f a)"
    "\<And>a. a \<in> set (db_applies d) \<Longrightarrow> sel a \<Longrightarrow> nonTerminalApplyStatePredicate (ap_State (f a)) \<Longrightarrow> nonTerminalApplyStatePredicate (ap_State a)"
  shows "one_active (d\<lparr>db_applies := update_where sel f (db_applies d)\<rparr>)"
proof (rule update_applies_one_active)
  fix a b
  assume ab: "a \<in> set (db_applies d)" "b \<in> set (db_applies d)" "ap_ID a \<noteq> ap_ID b" "same_database a b"
    and nt: "nonTerminalApplyStatePredicate (ap_State (if sel a then f a else a))"
    "nonTerminalApplyStatePredicate (ap_State (if sel b then f b else b))"
  have "nonTerminalApplyStatePredicate (ap_State a)" using nt(1) ab(1) assms(3) by (cases "sel a") auto
  moreover have "nonTerminalApplyStatePredicate (ap_State b)" using nt(2) ab(2) assms(3) by (cases "sel b") auto
  ultimately show "\<not> share_target (apply_targets d a) (apply_targets d b)"
    using assms(1) ab by (auto simp: one_active_iff)
qed (rule assms(2))

text \<open>Activating one apply whose targets no other active apply shares.\<close>

lemma activate_keeps_one_active:
  assumes "one_active d" "\<And>a. same_target a (f a)" "\<And>a. sel a \<Longrightarrow> ap_ID a = i"
    "\<And>a b. a \<in> set (db_applies d) \<Longrightarrow> b \<in> set (db_applies d) \<Longrightarrow> sel a \<Longrightarrow> ap_ID b \<noteq> i
      \<Longrightarrow> nonTerminalApplyStatePredicate (ap_State b) \<Longrightarrow> same_database b a
      \<Longrightarrow> \<not> share_target (apply_targets d b) (apply_targets d a)"
  shows "one_active (d\<lparr>db_applies := update_where sel f (db_applies d)\<rparr>)"
proof (rule update_applies_one_active)
  fix a b
  assume ab: "a \<in> set (db_applies d)" "b \<in> set (db_applies d)" "ap_ID a \<noteq> ap_ID b" "same_database a b"
    and nt: "nonTerminalApplyStatePredicate (ap_State (if sel a then f a else a))"
    "nonTerminalApplyStatePredicate (ap_State (if sel b then f b else b))"
  consider (left) "sel a" "\<not> sel b" | (right) "sel b" "\<not> sel a" | (neither) "\<not> sel a" "\<not> sel b"
    using assms(3) ab(3) by metis
  then show "\<not> share_target (apply_targets d a) (apply_targets d b)"
  proof cases
    case left
    then show ?thesis using assms(3) [of a] assms(4) [of a b] ab nt(2) same_database_sym share_target_sym by auto
  next
    case right
    then show ?thesis using assms(3) [of b] assms(4) [of b a] ab nt(1) by auto
  next
    case neither
    then show ?thesis using assms(1) ab nt by (auto simp: one_active_iff)
  qed
qed (rule assms(2))

lemma sql_eq_NormalizeState:
  assumes "sql_eq s st" "st \<in> set Apply_states"
  shows "NormalizeState s = st"
proof -
  have "list_all (\<lambda>st. \<not> has_prefix st ''state_'') Apply_states" by code_simp
  then have st: "\<not> has_prefix st ''state_''" using assms(2) by (auto simp: list_all_iff)
  have low: "to_lower s = st" using assms by (simp add: sql_eq_def)
  have "\<not> has_prefix s ''STATE_''"
  proof
    assume "has_prefix s ''STATE_''"
    then obtain t where "s = ''STATE_'' @ t" by (auto simp: has_prefix_append)
    then have "to_lower s = to_lower ''STATE_'' @ to_lower t" by (simp add: to_lower_def)
    moreover have "to_lower ''STATE_'' = ''state_''" by code_simp
    ultimately show False using st low by (auto simp: has_prefix_append)
  qed
  then have "trim_prefix s ''STATE_'' = s" by (simp add: trim_prefix_def)
  then have "NormalizeState s = NormalizeState (to_lower s)" by (simp add: NormalizeState_def NormalizeState_idem_aux)
  then have "NormalizeState s = NormalizeState st" by (simp only: low)
  with assms(2) show ?thesis by simp
qed

lemma sql_in_active:
  assumes "sql_in s (Apply_Pending # Apply_FailedRetryable # claimableApplyStates)"
  shows "nonTerminalApplyStatePredicate s"
proof -
  have "\<not> sql_in ''recovering_cutover'' terminalApplyStates" by code_simp
  then have "list_all (\<lambda>x. \<not> sql_in x terminalApplyStates) (Apply_Pending # Apply_FailedRetryable # claimableApplyStates)"
    by (simp add: claimableApplyStates_def) (simp add: sql_in_iff terminalApplyStates_def)
  then show ?thesis
    using assms sql_eq_trans sql_eq_sym unfolding nonTerminalApplyStatePredicate_def sql_in_iff list_all_iff by blast
qed

lemma claimable_apply_active:
  assumes "claimable_apply now d a"
  shows "NormalizeState (ap_State a) = Apply_Stopped \<or> nonTerminalApplyStatePredicate (ap_State a)"
proof -
  have "Apply_WaitingForDeploy \<in> set claimableApplyStates" by (simp add: claimableApplyStates_def)
  with assms consider "sql_eq (ap_State a) Apply_Stopped" | "sql_in (ap_State a) (Apply_Pending # Apply_FailedRetryable # claimableApplyStates)"
    unfolding claimable_apply_def sql_in_iff by (meson list.set_intros)
  then show ?thesis by cases (simp_all add: sql_eq_NormalizeState sql_in_active)
qed

lemma apply_row_unique: "wf_applies d \<Longrightarrow> a \<in> set (db_applies d) \<Longrightarrow> ap_Get (ap_ID a) d = Some a"
proof -
  assume wf: "wf_applies d" and a: "a \<in> set (db_applies d)"
  then obtain b where b: "ap_Get (ap_ID a) d = Some b" by (cases "ap_Get (ap_ID a) d") (auto simp: ap_Get_def find_None_iff)
  then have "b \<in> set (db_applies d)" "ap_ID b = ap_ID a" by (auto simp: ap_Get_def find_Some_iff)
  with apply_unique [OF wf _ a] b show ?thesis by simp
qed

lemma applyTargetForUpdate_row:
  assumes "wf_applies d" "a \<in> set (db_applies d)" "same_target a apply"
  shows "applyTargetForUpdate apply d = (ap_Database a, ap_DatabaseType a, ap_Environment a, ap_Deployment a)"
  using apply_row_unique [OF assms(1,2)] assms(3) by (simp add: applyTargetForUpdate_def same_target_def ap_Get_def)

lemma check_target_apart:
  assumes chk: "checkNoActiveApplyForTargets (ap_Database a) (ap_DatabaseType a) (ap_Environment a)
      (operationDeploymentsForApply (ap_ID a) d @ [ap_Deployment a]) (ap_ID a) d = Inr ()"
    and b: "b \<in> set (db_applies d)" "ap_ID b \<noteq> ap_ID a" "nonTerminalApplyStatePredicate (ap_State b)" "same_database b a"
  shows "\<not> share_target (apply_targets d b) (apply_targets d a)"
proof -
  have "\<not> share_target (apply_targets d b) (operationDeploymentsForApply (ap_ID a) d @ [ap_Deployment a])"
    using checkNoActive_OkD [OF chk b(1)] b by (simp add: same_database_def)
  moreover have "set (operationDeploymentsForApply (ap_ID a) d @ [ap_Deployment a]) = set (apply_targets d a)"
    by (auto simp: apply_targets_def)
  ultimately show ?thesis unfolding share_target_iff by metis
qed

lemma claimed_apply_row_target: "same_target a (claimed_apply_row now from st owner token a)"
  by (simp add: same_target_def claimed_apply_row_def)

lemma transitionClaimToState_SomeD:
  assumes "transitionClaimToState now apply st owner token d = Some (apply', d')"
  shows "d' = d\<lparr>db_applies := update_where (\<lambda>a. ap_ID a = ap_ID apply \<and> sql_eq (ap_State a) (ap_State apply))
    (claimed_apply_row now (ap_State apply) st owner token) (db_applies d)\<rparr>"
  using assms by (auto simp: transitionClaimToState_def Let_def split: if_splits)

lemma sql_eq_nonTerminal: "sql_eq s t \<Longrightarrow> nonTerminalApplyStatePredicate s = nonTerminalApplyStatePredicate t"
  unfolding nonTerminalApplyStatePredicate_def sql_in_iff using sql_eq_sym sql_eq_trans by blast

lemma claimStopped_one_active:
  assumes "claimStoppedApplyUnderTargetLock now apply owner token d = Inr (oc, apply', d')"
    and inv: "one_active d" and wf: "wf_applies d" and a: "a \<in> set (db_applies d)" "same_target a apply"
  shows "one_active d'"
proof -
  have i: "ap_ID apply = ap_ID a" using a(2) by (simp add: same_target_def)
  let ?chk = "checkNoActiveApplyForTargets (ap_Database a) (ap_DatabaseType a) (ap_Environment a)
    (operationDeploymentsForApply (ap_ID a) d @ [ap_Deployment a]) (ap_ID a) d"
  note tgt = applyTargetForUpdate_row [OF wf a]
  show ?thesis
  proof (cases ?chk)
    case (Inl e)
    then have "db_applies d' = db_applies d \<and> db_operations d' = db_operations d"
      using assms(1) tgt i by (auto simp: claimStoppedApplyUnderTargetLock_def refuseStoppedClaimForActiveTarget_def
          failPendingStartControlRequestTx_def split: if_splits)
    then show ?thesis using inv one_active_cong by blast
  next
    case (Inr u)
    then have chk: "?chk = Inr ()" by simp
    show ?thesis
    proof (cases "transitionClaimToState now apply Apply_Resuming owner token d")
      case None
      then show ?thesis using assms(1) tgt i Inr inv by (auto simp: claimStoppedApplyUnderTargetLock_def split: if_splits)
    next
      case (Some p)
      then have "transitionClaimToState now apply Apply_Resuming owner token d = Some (apply', d')"
        using assms(1) tgt i Inr by (auto simp: claimStoppedApplyUnderTargetLock_def split: if_splits prod.splits)
      have apart: "\<not> share_target (apply_targets d b) (apply_targets d a')"
        if "a' \<in> set (db_applies d)" "ap_ID a' = ap_ID apply" "b \<in> set (db_applies d)" "ap_ID b \<noteq> ap_ID a"
          "nonTerminalApplyStatePredicate (ap_State b)" "same_database b a'" for a' b
        using check_target_apart [OF chk] apply_unique [OF wf that(1) a(1)] that i by auto
      from transitionClaimToState_SomeD [OF \<open>transitionClaimToState now apply Apply_Resuming owner token d = Some (apply', d')\<close>]
      show ?thesis using apart i
        by (simp only:) (rule activate_keeps_one_active [where i = "ap_ID a"], simp_all add: inv claimed_apply_row_target)
    qed
  qed
qed

lemma persistApplyClaim_one_active:
  assumes cl: "persistApplyClaim now time_Now apply owner token d = Inr (oc, apply', d')"
    and inv: "one_active d" and wf: "wf_applies d" and a: "apply \<in> set (db_applies d)"
    and st: "NormalizeState (ap_State apply) = Apply_Stopped \<or> nonTerminalApplyStatePredicate (ap_State apply)"
  shows "one_active d'"
proof -
  let ?apply = "apply\<lparr>ap_LeaseOwner := owner, ap_LeaseToken := token, ap_LeaseAcquiredAt := Some time_Now\<rparr>"
  consider (stopped) "NormalizeState (ap_State apply) = Apply_Stopped"
    | (starting) "NormalizeState (ap_State apply) \<noteq> Apply_Stopped" "isStartingClaim (ap_State apply)"
    | (active) "NormalizeState (ap_State apply) \<noteq> Apply_Stopped" "\<not> isStartingClaim (ap_State apply)" by blast
  then show ?thesis
  proof cases
    case stopped
    then have "claimStoppedApplyUnderTargetLock now ?apply owner token d = Inr (oc, apply', d')"
      using cl by (simp add: persistApplyClaim_def)
    then show ?thesis using inv wf a by (rule claimStopped_one_active) (simp add: same_target_def)
  next
    case starting
    show ?thesis
    proof (cases "transitionClaimToState now ?apply Apply_Running owner token d")
      case None
      then show ?thesis using cl starting inv by (auto simp: persistApplyClaim_def)
    next
      case (Some p)
      then have "transitionClaimToState now ?apply Apply_Running owner token d = Some (apply', d')"
        using cl starting by (auto simp: persistApplyClaim_def split: prod.splits)
      from transitionClaimToState_SomeD [OF this] show ?thesis
        using st starting(1) sql_eq_nonTerminal
        by (auto intro!: update_keeps_one_active inv claimed_apply_row_target)
    qed
  next
    case active
    then show ?thesis
      using cl inv by (auto simp: persistApplyClaim_def same_target_def intro!: update_keeps_one_active)
  qed
qed

lemma finish_claim_one_active:
  "one_active d \<Longrightarrow> one_active d' \<Longrightarrow> one_active (snd (finish_claim d (oc, a, d')))"
  by (auto simp: finish_claim_def claimedAndComplete_def)

subsection \<open>Properties\<close>

text \<open>One active apply per target, creation (C5): creating an apply with grouped operations - the fan-out over deployments -
keeps the invariant that no two non-terminal applies of one database, type and environment share a deployment, counting the
primary deployment and the deployments of all operations.\<close>

theorem create_grouped_keeps_one_active:
  assumes "CreateWithGroupedOperations now apply groups d = Inr (i, d')"
    and "one_active d" "wf_refs d" "wf_applies d" "ap_State apply \<in> set Apply_states"
  shows "one_active d'"
  using assms unfolding CreateWithGroupedOperations_def by (auto intro: cgroups.create_keeps_one_active)

definition sample_groups :: "ApplyOperationWithTasks option list" where
  "sample_groups = map (\<lambda>dep. Some \<lparr>og_Operation = Some (sample_operation 0 dep [] []), og_Tasks = [], og_AllowTaskless = True\<rparr>)
     [''eu'', ''us'']"

theorem create_grouped_keeps_one_active_witness:
  "one_active (snd (projr (CreateWithGroupedOperations 100 (sample_apply Apply_Pending) sample_groups empty_db)))"
proof -
  let ?r = "CreateWithGroupedOperations 100 (sample_apply Apply_Pending) sample_groups empty_db"
  have "?r = Inr (1, snd (projr ?r))" "one_active empty_db" "wf_refs empty_db" "wf_applies empty_db" by code_simp+
  then show ?thesis by (rule create_grouped_keeps_one_active) (simp add: sample_apply_def)
qed

text \<open>The same for applies created with a list of operations, the path of single-deployment applies.\<close>

theorem create_with_operations_keeps_one_active:
  assumes "CreateWithTasksAndOperations now apply tasks operations d = Inr (i, d')"
    and "one_active d" "wf_refs d" "wf_applies d" "ap_State apply \<in> set Apply_states"
  shows "one_active d'"
  using assms unfolding CreateWithTasksAndOperations_def by (auto intro: ctasks.create_keeps_one_active)

theorem create_with_operations_keeps_one_active_witness:
  "one_active (snd (projr (CreateWithTasksAndOperations 100 (sample_apply Apply_Pending) [] [sample_operation 0 ''eu'' [] []] empty_db)))"
proof -
  let ?r = "CreateWithTasksAndOperations 100 (sample_apply Apply_Pending) [] [sample_operation 0 ''eu'' [] []] empty_db"
  have "?r = Inr (1, snd (projr ?r))" "one_active empty_db" "wf_refs empty_db" "wf_applies empty_db" by code_simp+
  then show ?thesis by (rule create_with_operations_keeps_one_active) (simp add: sample_apply_def)
qed

text \<open>Overlap is refused (C6): creating an active apply fails with the active-apply error, and creates nothing, when a non-terminal
apply of the same database, type and environment owns one of the new deployments, be it as its primary deployment or through
an operation that has already completed.\<close>

theorem create_refuses_overlap:
  assumes "a \<in> set (db_applies d)" "nonTerminalApplyStatePredicate (ap_State a)" "same_database a apply"
    and "share_target (apply_targets d a) (ap_Deployment apply # map op_Deployment operations)"
    and "isActiveApplyState (ap_State apply)" "hasApplyTarget (ap_Database apply) (ap_DatabaseType apply) (ap_Environment apply)"
  shows "CreateWithTasksAndOperations now apply tasks operations d = Inl ErrActiveApplyExists"
proof -
  let ?deps = "ap_Deployment apply # map op_Deployment operations"
  have "set (dedupeDeployments ?deps) \<noteq> {}" by simp
  then have ne: "dedupeDeployments ?deps \<noteq> []" by (metis set_empty)
  have "sql_in (ap_Deployment a) ?deps \<or> list_ex (\<lambda>r. op_ApplyID r = ap_ID a \<and> sql_in (op_Deployment r) ?deps) (db_operations d)"
    using assms(4) by (auto simp: share_target_def apply_targets_def operationDeploymentsForApply_def list_ex_iff)
  with assms ne have "checkNoActiveApplyForTargets (ap_Database apply) (ap_DatabaseType apply) (ap_Environment apply) ?deps 0 d
      = Inl ErrActiveApplyExists"
    by (auto simp: checkNoActiveApplyForTargets_def Let_def list_ex_iff same_database_def)
  with assms show ?thesis
    by (simp add: CreateWithTasksAndOperations_def createWithRows_def acquireApplyTargetLockConn_def)
qed

theorem create_refuses_overlap_witness:
  "CreateWithTasksAndOperations 300 ((sample_apply Apply_Pending)\<lparr>ap_ApplyIdentifier := ''a2'', ap_Deployment := ''US''\<rparr>) [] []
     (sample_db Apply_Running Apply_Completed) = Inl ErrActiveApplyExists"
proof (rule create_refuses_overlap)
  show "sample_apply Apply_Running \<in> set (db_applies (sample_db Apply_Running Apply_Completed))" by (simp add: sample_db_def)
qed code_simp+

text \<open>One active apply per target, claims (C7): claiming the next apply keeps the invariant, in every branch: a queued, retried or
recovered apply was active before, and a stopped apply is resumed only after the re-check under the target lock. The
row lock of the claim's SELECT is the assumption that the selected row is still there unchanged when the claim writes.\<close>

theorem claim_apply_keeps_one_active:
  assumes "FindNextApply now time_Now locked between token owner d = Inr (claimed, d')"
    and "one_active d" "one_active (between d)" "wf_applies (between d)"
    and "\<forall>a. select_next_apply now locked d = Some a \<longrightarrow> a \<in> set (db_applies (between d))"
  shows "one_active d'"
proof (cases "select_next_apply now locked d")
  case None
  then show ?thesis using assms(1,2) by (auto simp: FindNextApply_def split: if_splits)
next
  case (Some a)
  then have "claimable_apply now d a"
    by (auto simp: select_next_apply_def first_unlocked_apply_def find_Some_iff)
  then have st: "NormalizeState (ap_State a) = Apply_Stopped \<or> nonTerminalApplyStatePredicate (ap_State a)"
    by (rule claimable_apply_active)
  from Some assms(1) obtain oc a' d1 where cl: "persistApplyClaim now time_Now a owner token (between d) = Inr (oc, a', d1)"
    and "d' = snd (finish_claim (between d) (oc, a', d1))"
    by (auto simp: FindNextApply_def bind_result_Inr_iff split: if_splits)
  moreover have "one_active d1"
    using persistApplyClaim_one_active [OF cl assms(3,4)] assms(5) Some st by blast
  ultimately show ?thesis using finish_claim_one_active [OF assms(3)] by simp
qed

theorem claim_apply_keeps_one_active_witness:
  "one_active (snd (projr (FindNextApply 300 300 [] id ''new'' ''w'' (sample_db Apply_Running Apply_Pending))))"
proof -
  let ?d = "sample_db Apply_Running Apply_Pending"
  let ?r = "FindNextApply 300 300 [] id ''new'' ''w'' ?d"
  have "?r = Inr (fst (projr ?r), snd (projr ?r))" "one_active ?d" "one_active (id ?d)" "wf_applies (id ?d)" by code_simp+
  then show ?thesis
  proof (rule claim_apply_keeps_one_active)
    show "\<forall>a. select_next_apply 300 [] ?d = Some a \<longrightarrow> a \<in> set (db_applies (id ?d))"
      by (auto simp: select_next_apply_def first_unlocked_apply_def find_Some_iff) (metis nth_mem set_sort length_sort)
  qed
qed


lemma claimed_rows_token:
  assumes wf: "wf_applies d" and a: "a \<in> set (db_applies d)" "ap_ID a = i"
    and f: "\<And>a. ap_ID (f a) = ap_ID a \<and> ap_LeaseToken (f a) = token"
    and sel: "\<And>a. sel a \<Longrightarrow> ap_ID a = i" "rows_changed sel f (db_applies d) \<noteq> 0 \<or> sel a"
    and l: "al_ApplyID l = i" "\<not> sql_eq token (al_Token l)"
  shows "\<not> applyLeaseMatches l (d\<lparr>db_applies := update_where sel f (db_applies d)\<rparr>)"
proof -
  have "sel b" if "b \<in> set (db_applies d)" "ap_ID b = i" for b
    using sel a that rows_changed_pos_iff [of sel f "db_applies d"] apply_unique [OF wf] by (metis gr0I)
  with f l show ?thesis by (auto simp: applyLeaseMatches_def list_ex_iff update_where_def)
qed

lemma persistApplyClaim_token:
  assumes cl: "persistApplyClaim now time_Now apply owner token d = Inr (oc, apply', d')" "oc = claimAcquired \<or> oc = claimAcquiredCommitted"
    and wf: "wf_applies d" and a: "apply \<in> set (db_applies d)"
    and l: "al_ApplyID l = ap_ID apply" "\<not> sql_eq token (al_Token l)"
  shows "\<not> applyLeaseMatches l d'" "ap_ID apply' = ap_ID apply"
proof -
  let ?apply = "apply\<lparr>ap_LeaseOwner := owner, ap_LeaseToken := token, ap_LeaseAcquiredAt := Some time_Now\<rparr>"
  let ?sel = "\<lambda>a. ap_ID a = ap_ID apply \<and> sql_eq (ap_State a) (ap_State apply)"
  have "(\<exists>st. transitionClaimToState now ?apply st owner token d = Some (apply', d')) \<or>
    d' = d\<lparr>db_applies := update_where (\<lambda>a. ap_ID a = ap_ID apply)
        (\<lambda>a. a\<lparr>ap_UpdatedAt := now, ap_LeaseOwner := owner, ap_LeaseToken := token, ap_LeaseAcquiredAt := Some now\<rparr>) (db_applies d)\<rparr>
      \<and> apply' = ?apply"
    using cl by (auto simp: persistApplyClaim_def Let_def claimStoppedApplyUnderTargetLock_def refuseStoppedClaimForActiveTarget_def
        split: if_splits option.splits prod.splits sum.splits)
  then have "\<not> applyLeaseMatches l d' \<and> ap_ID apply' = ap_ID apply"
  proof
    assume "\<exists>st. transitionClaimToState now ?apply st owner token d = Some (apply', d')"
    then obtain st where t: "transitionClaimToState now ?apply st owner token d = Some (apply', d')" by blast
    then have "ap_ID apply' = ap_ID apply" "rows_changed ?sel (claimed_apply_row now (ap_State apply) st owner token) (db_applies d) \<noteq> 0"
      by (auto simp: transitionClaimToState_def Let_def split: if_splits)
    with transitionClaimToState_SomeD [OF t] show ?thesis
      using claimed_rows_token [OF wf a refl, of "claimed_apply_row now (ap_State apply) st owner token" token ?sel l] l
      by (simp add: claimed_apply_row_def)
  next
    assume "d' = d\<lparr>db_applies := update_where (\<lambda>a. ap_ID a = ap_ID apply)
        (\<lambda>a. a\<lparr>ap_UpdatedAt := now, ap_LeaseOwner := owner, ap_LeaseToken := token, ap_LeaseAcquiredAt := Some now\<rparr>) (db_applies d)\<rparr>
      \<and> apply' = ?apply"
    then show ?thesis
      using claimed_rows_token [OF wf a refl, of
          "\<lambda>a. a\<lparr>ap_UpdatedAt := now, ap_LeaseOwner := owner, ap_LeaseToken := token, ap_LeaseAcquiredAt := Some now\<rparr>"
          token "\<lambda>a. ap_ID a = ap_ID apply" l] l by simp
  qed
  then show "\<not> applyLeaseMatches l d'" "ap_ID apply' = ap_ID apply" by auto
qed

lemma FindNextApply_SomeD:
  assumes "FindNextApply now time_Now locked between token owner d = Inr (Some a, d')"
  obtains a0 oc where "select_next_apply now locked d = Some a0"
    "persistApplyClaim now time_Now a0 owner token (between d) = Inr (oc, a, d')" "oc = claimAcquired \<or> oc = claimAcquiredCommitted"
proof -
  from assms obtain a0 where sel: "select_next_apply now locked d = Some a0"
    by (cases "select_next_apply now locked d") (simp_all add: FindNextApply_def split: if_splits)
  with assms obtain oc a1 d1 where "persistApplyClaim now time_Now a0 owner token (between d) = Inr (oc, a1, d1)"
    "finish_claim (between d) (oc, a1, d1) = (Some a, d')"
    by (auto simp: FindNextApply_def bind_result_Inr_iff split: if_splits)
  then have "persistApplyClaim now time_Now a0 owner token (between d) = Inr (oc, a, d')" "oc = claimAcquired \<or> oc = claimAcquiredCommitted"
    by (auto simp: finish_claim_def claimedAndComplete_def split: if_splits)
  with sel show thesis by (rule that)
qed

text \<open>Fencing of apply owners: once a claim has handed an apply to a new owner, the lease check that guards external side effects
fails with the lost-lease error for every lease of that apply with another token.\<close>

theorem claim_apply_fences_previous_owner:
  assumes "FindNextApply now time_Now locked between token owner d = Inr (Some a, d')"
    and "wf_applies (between d)" "\<forall>a. select_next_apply now locked d = Some a \<longrightarrow> a \<in> set (db_applies (between d))"
    and "al_ApplyID l = ap_ID a" "\<not> sql_eq token (al_Token l)"
  shows "CheckLease l d' = Inl ErrApplyLeaseLost"
proof -
  from assms(1) obtain a0 oc where a0: "select_next_apply now locked d = Some a0"
    and cl: "persistApplyClaim now time_Now a0 owner token (between d) = Inr (oc, a, d')" "oc = claimAcquired \<or> oc = claimAcquiredCommitted"
    by (rule FindNextApply_SomeD)
  have mem: "a0 \<in> set (db_applies (between d))" using assms(3) a0 by blast
  have "ap_ID a = ap_ID a0"
    using persistApplyClaim_token(2) [OF cl assms(2) mem, of "\<lparr>al_ApplyID = ap_ID a0, al_Owner = [], al_Token = CHR ''x'' # token\<rparr>"]
    by (simp add: sql_eq_def to_lower_def)
  then have "\<not> applyLeaseMatches l d'" using persistApplyClaim_token(1) [OF cl assms(2) mem] assms(4,5) by simp
  then show ?thesis by (simp add: CheckLease_def ensureApplyLeaseStillOwned_def)
qed

theorem claim_apply_fences_previous_owner_witness:
  "CheckLease \<lparr>al_ApplyID = 1, al_Owner = ''w1'', al_Token = ''ta''\<rparr>
     (snd (projr (FindNextApply 300 300 [] id ''new'' ''w2'' (sample_db Apply_Running Apply_Pending)))) = Inl ErrApplyLeaseLost"
proof -
  let ?d = "sample_db Apply_Running Apply_Pending"
  let ?r = "FindNextApply 300 300 [] id ''new'' ''w2'' ?d"
  let ?a = "(sample_apply Apply_Running)\<lparr>ap_LeaseOwner := ''w2'', ap_LeaseToken := ''new'', ap_LeaseAcquiredAt := Some 300\<rparr>"
  have "?r = Inr (Some ?a, snd (projr ?r))" "wf_applies (id ?d)" by code_simp+
  then show ?thesis
  proof (rule claim_apply_fences_previous_owner)
    show "\<forall>a. select_next_apply 300 [] ?d = Some a \<longrightarrow> a \<in> set (db_applies (id ?d))"
      by (auto simp: select_next_apply_def first_unlocked_apply_def find_Some_iff) (metis nth_mem set_sort length_sort)
  qed code_simp+
qed

text \<open>A stale projection clobbers nothing: the compare-and-swap of the projected state leaves the database as it is when
the apply no longer holds the state the projection was computed from.\<close>

theorem stale_projection_changes_nothing:
  assumes "UpdateDerivedState now ctx applyID expectedState newState msg startedAt completedAt d = Inr (swapped, d')"
    and "\<forall>a \<in> set (db_applies d). ap_ID a = applyID \<longrightarrow> \<not> sql_eq (ap_State a) expectedState"
  shows "d' = d"
proof -
  have "update_where (\<lambda>a. ap_ID a = applyID \<and> sql_eq (ap_State a) expectedState \<and> derived_predicate g applyID d a) f (db_applies d) = db_applies d" for g f
    using assms(2) by (intro update_where_none) auto
  with assms(1) show ?thesis
    by (auto simp: UpdateDerivedState_def Let_def bind_result_Inr_iff split: if_splits option.splits)
qed

theorem stale_projection_changes_nothing_witness:
  "snd (projr (UpdateDerivedState 300 (sample_lease 1 ''t1'') 1 Apply_Pending Apply_Running [] None None (sample_db Apply_Running Apply_Pending)))
     = sample_db Apply_Running Apply_Pending"
proof -
  let ?d = "sample_db Apply_Running Apply_Pending"
  let ?r = "UpdateDerivedState 300 (sample_lease 1 ''t1'') 1 Apply_Pending Apply_Running [] None None ?d"
  have "?r = Inr (fst (projr ?r), snd (projr ?r))" by code_simp
  moreover have "\<forall>a \<in> set (db_applies ?d). ap_ID a = 1 \<longrightarrow> \<not> sql_eq (ap_State a) Apply_Pending" by code_simp
  ultimately show ?thesis by (rule stale_projection_changes_nothing)
qed

text \<open>The projection needs a current lease: a drive whose operation lease no longer owns an operation of the apply cannot move the
apply's state.\<close>

theorem projection_needs_current_lease:
  assumes "ctx_operation_lease ctx = Some l" "\<not> operationLeaseOwnsApply l applyID d"
  shows "UpdateDerivedState now ctx applyID expectedState newState msg startedAt completedAt d = Inl ErrApplyLeaseLost"
proof (cases "OperationLease_Valid l \<and> ol_ApplyID l = applyID")
  case True
  let ?sel = "\<lambda>a. ap_ID a = applyID \<and> sql_eq (ap_State a) expectedState \<and> derived_predicate (DerivedOperation l) applyID d a"
  have "rows_changed ?sel f (db_applies d) = 0" "update_where ?sel f (db_applies d) = db_applies d" for f
    using assms(2) by (simp_all add: derived_predicate_def rows_changed_none update_where_none)
  with True assms show ?thesis
    by (simp add: UpdateDerivedState_def derivedStateGuardForContext_def OperationLeaseFromContext_def ensure_derived_owned_def
        ensureOperationLeaseOwnsApply_def)
next
  case False
  then show ?thesis using assms(1)
    by (auto simp: UpdateDerivedState_def derivedStateGuardForContext_def OperationLeaseFromContext_def)
qed

theorem projection_needs_current_lease_witness:
  "UpdateDerivedState 300 (sample_lease 1 ''old'') 1 Apply_Running Apply_Completed [] None None (sample_db Apply_Completed Apply_Completed)
     = Inl ErrApplyLeaseLost"
  by (rule projection_needs_current_lease) code_simp+

subsection \<open>The retry budget\<close>

definition budget_ok :: "db \<Rightarrow> bool" where
  "budget_ok d \<longleftrightarrow> list_all (\<lambda>a. ap_Attempt a \<le> maxRecoveryAttempts) (db_applies d)"

lemma claim_operation_budget:
  assumes "claim_operation now owner token ad d = Some (ad', d')" "budget_ok d"
  shows "budget_ok d'"
proof -
  have b: "budget_ok (consume_budget now i j e)" if "budget_ok e" for i j e
    using that by (auto simp: budget_ok_def consume_budget_def list_all_iff update_where_def)
  have "db_applies d' = db_applies d \<or> (\<exists>e. d' = consume_budget now (op_ApplyID ad) (op_ID ad) e \<and> db_applies e = db_applies d)"
    using assms(1) by (auto simp: claim_operation_def Let_def bump_attempt_def split: if_splits prod.splits)
  then show ?thesis using assms(2) b by (auto simp: budget_ok_def)
qed

text \<open>Operation claims respect the retry budget: no claim of an operation pushes an apply beyond the ten recovery attempts, however
many drivers redispatch operations of the same apply.\<close>

theorem operation_claim_respects_budget:
  assumes "FindNextApplyOperation now time_Now locked between token owner d = Inr (claimed, d')"
    and "budget_ok d" "budget_ok (between d)"
  shows "budget_ok d'"
proof (cases "select_next_operation now locked d")
  case None
  then show ?thesis using assms by (auto simp: FindNextApplyOperation_def split: if_splits)
next
  case (Some ad)
  show ?thesis
  proof (cases "claim_operation now owner token ad (between d)")
    case None
    then show ?thesis using assms Some by (auto simp: FindNextApplyOperation_def split: if_splits)
  next
    case (Some p)
    then have "claim_operation now owner token ad (between d) = Some (fst p, d')"
      using assms(1) \<open>select_next_operation now locked d = Some ad\<close>
      by (auto simp: FindNextApplyOperation_def split: if_splits prod.splits)
    then show ?thesis using claim_operation_budget assms(3) by blast
  qed
qed

definition retry_db :: "int \<Rightarrow> db" where
  "retry_db n = (sample_db Apply_FailedRetryable Apply_Completed)\<lparr>db_applies := [(sample_apply Apply_FailedRetryable)\<lparr>ap_Attempt := n\<rparr>]\<rparr>"

text \<open>Expiry settles what retries cannot: after an expiry run no apply is left that has spent its budget or outlived the recovery window
while failed-retryable, and no operation of an expired apply is left failed-retryable to block its siblings.\<close>

theorem expire_retryable_settles:
  assumes "ExpireRetryable now time_Now d = (expired, d')"
  shows "(\<forall>a \<in> set (db_applies d'). \<not> expired_retryable now a)
    \<and> (\<forall>e \<in> set expired. \<forall>r \<in> set (db_operations d'). op_ApplyID r = ap_ID (fst e) \<longrightarrow> \<not> sql_eq (op_State r) Apply_FailedRetryable)"
proof (cases "filter (expired_retryable now) (db_applies d) = []")
  case True
  then show ?thesis using assms by (auto simp: ExpireRetryable_def filter_empty_conv)
next
  case False
  have no: "\<not> sql_eq Apply_Failed Apply_FailedRetryable" by simp
  from False assms show ?thesis
    by (auto simp: ExpireRetryable_def Let_def update_where_def expired_retryable_def no split: if_splits)
qed

theorem expire_retryable_settles_witness:
  "\<not> expired_retryable 300 (hd (db_applies (snd (ExpireRetryable 300 300 (retry_db 10)))))"
proof -
  have "ExpireRetryable 300 300 (retry_db 10) = (fst (ExpireRetryable 300 300 (retry_db 10)), snd (ExpireRetryable 300 300 (retry_db 10)))"
    by simp
  note settled = expire_retryable_settles [OF this]
  have "hd (db_applies (snd (ExpireRetryable 300 300 (retry_db 10)))) \<in> set (db_applies (snd (ExpireRetryable 300 300 (retry_db 10))))" by code_simp
  with settled show ?thesis by blast
qed

end
