(* ===== verification/SB_Control_Requests.thy ===== *)
theory SB_Control_Requests
  imports SB_Apply_Store
begin

section \<open>Control requests (pkg/storage/mysqlstore/control\_requests.go)\<close>

text \<open>
  Durable requests to start, stop or cut over an apply: at most one row per apply and operation, reset to pending when it is requested
  again, completed or failed by the owner of the apply. The retry of RequestPending after a duplicate insert
  is the second call of requestPending on the database the winner left.
\<close>

definition getByApplyOperationForUpdate :: "int \<Rightarrow> string \<Rightarrow> db \<Rightarrow> ApplyControlRequest option" where
  "getByApplyOperationForUpdate applyID operation d =
     find (\<lambda>cr. cr_ApplyID cr = applyID \<and> sql_eq (cr_Operation cr) operation) (db_control_requests d)"

definition getByIDForUpdate :: "int \<Rightarrow> db \<Rightarrow> ApplyControlRequest option" where
  "getByIDForUpdate i d = find (\<lambda>cr. cr_ID cr = i) (db_control_requests d)"

definition nullJSON :: "string \<Rightarrow> string" where
  "nullJSON b = (if b = [] then ''{}'' else b)"

definition reset_request :: "int \<Rightarrow> ApplyControlRequest \<Rightarrow> ApplyControlRequest \<Rightarrow> ApplyControlRequest" where
  "reset_request now req cr = cr\<lparr>cr_Status := ControlRequestPending, cr_RequestedBy := cr_RequestedBy req,
     cr_ErrorMessage := None, cr_Metadata := nullJSON (cr_Metadata req), cr_CompletedAt := None, cr_UpdatedAt := now\<rparr>"

definition new_request :: "int \<Rightarrow> int \<Rightarrow> ApplyControlRequest \<Rightarrow> ApplyControlRequest" where
  "new_request now i req = \<lparr>cr_ID = i, cr_ApplyID = cr_ApplyID req, cr_Operation = cr_Operation req,
     cr_Status = ControlRequestPending, cr_RequestedBy = cr_RequestedBy req,
     cr_ErrorMessage = nullString (null_text (cr_ErrorMessage req)), cr_Metadata = nullJSON (cr_Metadata req),
     cr_CompletedAt = None, cr_CreatedAt = now, cr_UpdatedAt = now\<rparr>"

text \<open>
  The read locks an existing row; when there is none, another transaction may insert one before this INSERT: \<open>between\<close> is what commits in
  that window, and the unique key turns it into a duplicate error (\<open>Inl\<close>).
\<close>

definition requestPending ::
  "int \<Rightarrow> (db \<Rightarrow> db) \<Rightarrow> ApplyControlRequest \<Rightarrow> db \<Rightarrow> storage_error + (ApplyControlRequest option \<times> bool \<times> db)" where
  "requestPending now between req d = (case getByApplyOperationForUpdate (cr_ApplyID req) (cr_Operation req) d of
       Some existing \<Rightarrow>
         if cr_Status existing = ControlRequestPending then Inr (Some existing, True, d)
         else (let d' = d\<lparr>db_control_requests := update_where (\<lambda>cr. cr_ID cr = cr_ID existing) (reset_request now req)
                  (db_control_requests d)\<rparr> in
               Inr (getByIDForUpdate (cr_ID existing) d', False, d'))
     | None \<Rightarrow>
         (let d1 = between d; i = next_control_request_id d1 in
          if getByApplyOperationForUpdate (cr_ApplyID req) (cr_Operation req) d1 \<noteq> None
          then Inl (ErrOther ''Duplicate entry'')
          else (let d' = d1\<lparr>db_control_requests := db_control_requests d1 @ [new_request now i req],
                            next_control_request_id := i + 1\<rparr> in
                Inr (getByIDForUpdate i d', False, d'))))"

definition RequestPending ::
  "int \<Rightarrow> (db \<Rightarrow> db) \<Rightarrow> (db \<Rightarrow> db) \<Rightarrow> ApplyControlRequest \<Rightarrow> db \<Rightarrow> storage_error + (ApplyControlRequest option \<times> bool \<times> db)" where
  "RequestPending now between between2 req d = (case requestPending now between req d of
       Inr r \<Rightarrow> Inr r
     | Inl e \<Rightarrow> requestPending now between2 req (between d))"

definition GetPending :: "int \<Rightarrow> string \<Rightarrow> db \<Rightarrow> ApplyControlRequest option" where
  "GetPending applyID operation d =
     find (\<lambda>cr. cr_ApplyID cr = applyID \<and> sql_eq (cr_Operation cr) operation \<and> sql_eq (cr_Status cr) ControlRequestPending)
       (db_control_requests d)"

definition finish_pending ::
  "(ApplyControlRequest \<Rightarrow> ApplyControlRequest) \<Rightarrow> call_ctx \<Rightarrow> int \<Rightarrow> string \<Rightarrow> db \<Rightarrow> storage_error + db" where
  "finish_pending f ctx applyID operation d = bind_result (applyLeaseFromContext ctx applyID) (\<lambda>hasLease.
     let sel = (\<lambda>cr. cr_ApplyID cr = applyID \<and> sql_eq (cr_Operation cr) operation \<and> sql_eq (cr_Status cr) ControlRequestPending
            \<and> (case hasLease of None \<Rightarrow> True | Some lease \<Rightarrow>
                 list_ex (\<lambda>a. ap_ID a = cr_ApplyID cr \<and> sql_eq (ap_LeaseToken a) (al_Token lease)) (db_applies d)));
         d' = d\<lparr>db_control_requests := update_where sel f (db_control_requests d)\<rparr> in
     case hasLease of
       None \<Rightarrow> Inr d'
     | Some lease \<Rightarrow> bind_result (confirmLeaseOnZeroRows (rows_changed sel f (db_control_requests d)) lease d') (\<lambda>_. Inr d'))"

definition CompletePending :: "int \<Rightarrow> call_ctx \<Rightarrow> int \<Rightarrow> string \<Rightarrow> db \<Rightarrow> storage_error + db" where
  "CompletePending now ctx applyID operation d = finish_pending
     (\<lambda>cr. cr\<lparr>cr_Status := ControlRequestCompleted, cr_CompletedAt := coalesce (cr_CompletedAt cr) now, cr_UpdatedAt := now\<rparr>)
     ctx applyID operation d"

definition FailPending :: "int \<Rightarrow> call_ctx \<Rightarrow> int \<Rightarrow> string \<Rightarrow> string \<Rightarrow> db \<Rightarrow> storage_error + db" where
  "FailPending now ctx applyID operation errorMessage d = finish_pending
     (\<lambda>cr. cr\<lparr>cr_Status := ControlRequestFailed, cr_ErrorMessage := nullString errorMessage,
              cr_CompletedAt := coalesce (cr_CompletedAt cr) now, cr_UpdatedAt := now\<rparr>)
     ctx applyID operation d"

subsection \<open>Facts\<close>

definition wf_requests :: "db \<Rightarrow> bool" where
  "wf_requests d \<longleftrightarrow> ids_below (map cr_ID (db_control_requests d)) (next_control_request_id d)
     \<and> distinct (map (\<lambda>cr. (cr_ApplyID cr, to_lower (cr_Operation cr))) (db_control_requests d))"

lemma pending_request_GetPending: "pending_request d applyID operation \<longleftrightarrow> GetPending applyID operation d \<noteq> None"
  by (auto simp: pending_request_def GetPending_def list_ex_iff find_None_iff)

lemma pending_requestI:
  "cr \<in> set (db_control_requests d) \<Longrightarrow> cr_ApplyID cr = i \<Longrightarrow> sql_eq (cr_Operation cr) operation
   \<Longrightarrow> cr_Status cr = ControlRequestPending \<Longrightarrow> pending_request d i operation"
  by (auto simp: pending_request_def list_ex_iff)

lemma requestPending_pending:
  assumes "requestPending now between req d = Inr (r, already, d')"
  shows "pending_request d' (cr_ApplyID req) (cr_Operation req)"
proof (cases "getByApplyOperationForUpdate (cr_ApplyID req) (cr_Operation req) d")
  case None
  then have "\<exists>i. new_request now i req \<in> set (db_control_requests d')"
    using assms by (auto simp: requestPending_def Let_def split: if_splits)
  then obtain i where "new_request now i req \<in> set (db_control_requests d')" by blast
  then show ?thesis by (rule pending_requestI) (simp_all add: new_request_def)
next
  case (Some e)
  then have e: "e \<in> set (db_control_requests d)" "cr_ApplyID e = cr_ApplyID req" "sql_eq (cr_Operation e) (cr_Operation req)"
    by (auto simp: getByApplyOperationForUpdate_def find_Some_iff)
  show ?thesis
  proof (cases "cr_Status e = ControlRequestPending")
    case True
    then have "d' = d" using assms Some by (simp add: requestPending_def)
    with e True show ?thesis by (auto intro: pending_requestI)
  next
    case False
    then have "d' = d\<lparr>db_control_requests := update_where (\<lambda>cr. cr_ID cr = cr_ID e) (reset_request now req) (db_control_requests d)\<rparr>"
      using assms Some by (auto simp: requestPending_def Let_def)
    then have "reset_request now req e \<in> set (db_control_requests d')" using e(1) by (auto simp: set_update_where)
    then show ?thesis by (rule pending_requestI) (use e in \<open>simp_all add: reset_request_def\<close>)
  qed
qed

text \<open>Under a lease the update touches every pending row or the lease is lost, because all rows of an apply join the same apply row.\<close>

lemma finish_pendingD:
  assumes "finish_pending f ctx applyID operation d = Inr d'"
  shows "db_control_requests d' = update_where (\<lambda>cr. cr_ApplyID cr = applyID \<and> sql_eq (cr_Operation cr) operation
     \<and> sql_eq (cr_Status cr) ControlRequestPending) f (db_control_requests d)"
proof -
  let ?own = "\<lambda>l. list_ex (\<lambda>a. ap_ID a = applyID \<and> sql_eq (ap_LeaseToken a) (al_Token l)) (db_applies d)"
  let ?sel = "\<lambda>cr. cr_ApplyID cr = applyID \<and> sql_eq (cr_Operation cr) operation \<and> sql_eq (cr_Status cr) ControlRequestPending"
  from assms obtain hl where hl: "applyLeaseFromContext ctx applyID = Inr hl"
    by (auto simp: finish_pending_def bind_result_Inr_iff)
  show ?thesis
  proof (cases hl)
    case None
    then show ?thesis using assms hl by (auto simp: finish_pending_def Let_def)
  next
    case (Some l)
    let ?sel' = "\<lambda>cr. ?sel cr \<and> ?own l"
    have eq: "(\<lambda>cr. cr_ApplyID cr = applyID \<and> sql_eq (cr_Operation cr) operation \<and> sql_eq (cr_Status cr) ControlRequestPending
        \<and> list_ex (\<lambda>a. ap_ID a = cr_ApplyID cr \<and> sql_eq (ap_LeaseToken a) (al_Token l)) (db_applies d)) = ?sel'" by auto
    let ?d' = "d\<lparr>db_control_requests := update_where ?sel' f (db_control_requests d)\<rparr>"
    let ?orig = "\<lambda>cr. cr_ApplyID cr = applyID \<and> sql_eq (cr_Operation cr) operation \<and> sql_eq (cr_Status cr) ControlRequestPending
        \<and> list_ex (\<lambda>a. ap_ID a = cr_ApplyID cr \<and> sql_eq (ap_LeaseToken a) (al_Token l)) (db_applies d)"
    have "confirmLeaseOnZeroRows (rows_changed ?orig f (db_control_requests d)) l
        (d\<lparr>db_control_requests := update_where ?orig f (db_control_requests d)\<rparr>) \<noteq> Inl ErrApplyLeaseLost"
      "d' = d\<lparr>db_control_requests := update_where ?orig f (db_control_requests d)\<rparr>"
      using assms hl Some by (auto simp: finish_pending_def Let_def bind_result_Inr_iff)
    note r = this [unfolded eq]
    have "al_ApplyID l = applyID" using hl Some by (auto simp: applyLeaseFromContext_def split: option.splits if_splits)
    with r(1) have "?own l"
      using rows_changed_none [of "db_control_requests d" ?sel' f]
      by (cases "?own l") (auto simp: confirmLeaseOnZeroRows_def ensureApplyLeaseStillOwned_def applyLeaseMatches_def)
    with r(2) show ?thesis by simp
  qed
qed

text \<open>A request is pending once it is made: whatever row was there before - none, a completed or failed one that is reset, a pending
one - and also when another caller inserted the row first, a successful request leaves a pending row for that apply and operation, so the claim gates see it.\<close>

theorem request_leaves_pending:
  assumes "RequestPending now between between2 req d = Inr (r, already, d')"
  shows "pending_request d' (cr_ApplyID req) (cr_Operation req)"
  using assms requestPending_pending unfolding RequestPending_def by (auto split: sum.splits)

definition sample_stop :: ApplyControlRequest where
  "sample_stop = \<lparr>cr_ID = 0, cr_ApplyID = 1, cr_Operation = ControlOperationStop, cr_Status = [], cr_RequestedBy = ''op'',
     cr_ErrorMessage = None, cr_Metadata = [], cr_CompletedAt = None, cr_CreatedAt = 0, cr_UpdatedAt = 0\<rparr>"

theorem request_leaves_pending_witness:
  "pending_request (snd (snd (projr (RequestPending 300 id id sample_stop (sample_db Apply_Running Apply_Pending)))))
     (cr_ApplyID sample_stop) (cr_Operation sample_stop)"
proof -
  let ?r = "RequestPending 300 id id sample_stop (sample_db Apply_Running Apply_Pending)"
  have "?r = Inr (fst (projr ?r), fst (snd (projr ?r)), snd (snd (projr ?r)))" by code_simp
  then show ?thesis by (rule request_leaves_pending)
qed

lemma finished_not_pending:
  assumes "CompletePending now ctx applyID operation d = Inr d'"
  shows "\<not> pending_request d' applyID operation"
proof -
  have ne: "\<not> sql_eq ControlRequestCompleted ControlRequestPending" by code_simp
  let ?sel = "\<lambda>cr. cr_ApplyID cr = applyID \<and> sql_eq (cr_Operation cr) operation \<and> sql_eq (cr_Status cr) ControlRequestPending"
  note rows = finish_pendingD [OF assms [unfolded CompletePending_def]]
  have "\<not> ?sel cr" if "cr \<in> set (db_control_requests d')" for cr
    using that [unfolded rows] by (rule in_update_whereE) (simp_all add: ne)
  then show ?thesis by (auto simp: pending_request_def list_ex_iff)
qed

text \<open>A completed request stops gating: after the owner completed a request - with a current lease or with none - no pending row of that
apply and operation is left, so a later start or cutover is not held back by it.\<close>

theorem complete_clears_pending:
  assumes "CompletePending now ctx applyID operation d = Inr d'"
  shows "\<not> pending_request d' applyID operation"
  using assms by (rule finished_not_pending)

theorem complete_clears_pending_witness:
  "\<not> pending_request (projr (CompletePending 301 background 1 ControlOperationStop
       (snd (snd (projr (RequestPending 300 id id sample_stop (sample_db Apply_Running Apply_Pending))))))) 1 ControlOperationStop"
  by (rule complete_clears_pending [where now = 301 and ctx = background
        and d = "snd (snd (projr (RequestPending 300 id id sample_stop (sample_db Apply_Running Apply_Pending))))"]) code_simp

end
