(* ===== verification/SB_Rollout.thy ===== *)
theory SB_Rollout
  imports SB_Control_Requests
begin

section \<open>The rollout of one apply as a step relation\<close>

text \<open>
  Many drivers run at once: a driver's claim is a transaction that selects and locks a row in one step and writes it in a later
  one; between the two, other drivers claim other rows, write the rows they drive, operators request stops, and the expiry settles retries. A state is
  the database with the claims in flight, whose selected rows are locked: no other claim selects them (SKIP LOCKED) and no statement writes
  them. The relation is for a fixed apply \<open>A\<close> whose operations are released at the cutover barrier. What the drivers of its operations promise is
  \<open>disciplined\<close>: they leave completed and failed operations as they are, and they do not start a cutover themselves, which is what the copy drive's
  release at the barrier (pkg/tern/cutover\_barrier.go) is for. Writes of the applies and control-request tables are unrestricted.
\<close>

record rollout =
  ro_db :: db
  ro_copy :: "ApplyOperation list"
  ro_cut :: "ApplyOperation list"

definition in_flight :: "rollout \<Rightarrow> ApplyOperation list" where
  "in_flight s = ro_copy s @ ro_cut s"

definition locked_ids :: "rollout \<Rightarrow> int list" where
  "locked_ids s = map op_ID (in_flight s)"

definition cutover_phase :: "ApplyOperation \<Rightarrow> bool" where
  "cutover_phase r \<longleftrightarrow> sql_in (op_State r) [Apply_CuttingOver, Apply_RevertWindow]"

definition settled_for :: "ApplyOperation \<Rightarrow> ApplyOperation \<Rightarrow> bool" where
  "settled_for r e \<longleftrightarrow> sql_eq (op_State e) Apply_Completed
     \<or> (sql_eq (op_OnFailure r) OnFailureContinue \<and> sql_eq (op_State e) Apply_Failed)"

definition disciplined :: "int \<Rightarrow> op_write \<Rightarrow> int \<Rightarrow> db \<Rightarrow> bool" where
  "disciplined A w i d \<longleftrightarrow> list_all (\<lambda>r. op_ID r = i \<and> op_ApplyID r = A \<longrightarrow>
     (sql_eq (op_State r) Apply_Completed \<longrightarrow> sql_eq (written_state w (op_State r)) Apply_Completed)
     \<and> (sql_eq (op_State r) Apply_Failed \<longrightarrow> sql_eq (written_state w (op_State r)) Apply_Failed)
     \<and> (sql_in (written_state w (op_State r)) [Apply_CuttingOver, Apply_RevertWindow] \<longrightarrow> cutover_phase r)) (db_operations d)"

inductive rollout_step :: "int \<Rightarrow> rollout \<Rightarrow> rollout \<Rightarrow> bool" for A where
  select_copy: "select_next_operation now (locked_ids s) (ro_db s) = Some ad \<Longrightarrow> rollout_step A s (s\<lparr>ro_copy := ad # ro_copy s\<rparr>)"
| claim_copy: "ad \<in> set (ro_copy s) \<Longrightarrow> claim_operation now owner token ad (ro_db s) = Some (ad', d')
    \<Longrightarrow> rollout_step A s (s\<lparr>ro_db := d', ro_copy := remove1 ad (ro_copy s)\<rparr>)"
| back_off_copy: "ad \<in> set (ro_copy s) \<Longrightarrow> claim_operation now owner token ad (ro_db s) = None
    \<Longrightarrow> rollout_step A s (s\<lparr>ro_copy := remove1 ad (ro_copy s)\<rparr>)"
| select_cut: "select_next_cutover now (locked_ids s) (ro_db s) = Some ad \<Longrightarrow> rollout_step A s (s\<lparr>ro_cut := ad # ro_cut s\<rparr>)"
| claim_cut: "ad \<in> set (ro_cut s) \<Longrightarrow> claim_cutover now owner token ad (ro_db s) = Some d'
    \<Longrightarrow> rollout_step A s (s\<lparr>ro_db := d', ro_cut := remove1 ad (ro_cut s)\<rparr>)"
| back_off_cut: "ad \<in> set (ro_cut s) \<Longrightarrow> claim_cutover now owner token ad (ro_db s) = None
    \<Longrightarrow> rollout_step A s (s\<lparr>ro_cut := remove1 ad (ro_cut s)\<rparr>)"
| driver_write: "run_write w now ctx i (ro_db s) = Inr d' \<Longrightarrow> i \<notin> set (locked_ids s) \<Longrightarrow> disciplined A w i (ro_db s)
    \<Longrightarrow> rollout_step A s (s\<lparr>ro_db := d'\<rparr>)"
| stop_pending: "MarkPendingStoppedByApply now ctx j (ro_db s) = Inr (n, d')
    \<Longrightarrow> \<forall>ad \<in> set (in_flight s). op_ApplyID ad \<noteq> j \<or> \<not> sql_eq (op_State ad) Apply_Pending \<Longrightarrow> rollout_step A s (s\<lparr>ro_db := d'\<rparr>)"
| expire: "ExpireRetryable now time_Now (ro_db s) = (expired, d')
    \<Longrightarrow> \<forall>ad \<in> set (in_flight s). \<not> sql_eq (op_State ad) Apply_FailedRetryable \<Longrightarrow> rollout_step A s (s\<lparr>ro_db := d'\<rparr>)"
| requests: "rollout_step A s (s\<lparr>ro_db := (ro_db s)\<lparr>db_control_requests := crs\<rparr>\<rparr>)"
| applies: "rollout_step A s (s\<lparr>ro_db := (ro_db s)\<lparr>db_applies := as\<rparr>\<rparr>)"

inductive_cases rollout_stepE: "rollout_step A s s'"

subsection \<open>How a step changes the operations\<close>

text \<open>
  \<open>evolves A L C d d'\<close>: the operations of \<open>d'\<close> are those of \<open>d\<close>, row by row, with the rows of \<open>L\<close> unchanged; the operations of \<open>A\<close> keep completed and
  failed, and only the rows of \<open>C\<close> enter the cutover phase.
\<close>

definition row_evolves :: "int \<Rightarrow> int set \<Rightarrow> ApplyOperation \<Rightarrow> ApplyOperation \<Rightarrow> bool" where
  "row_evolves A C r r' \<longleftrightarrow> same_identity r r' \<and> (op_ApplyID r = A \<longrightarrow>
     (sql_eq (op_State r) Apply_Completed \<longrightarrow> sql_eq (op_State r') Apply_Completed)
     \<and> (sql_eq (op_State r) Apply_Failed \<longrightarrow> sql_eq (op_State r') Apply_Failed)
     \<and> (cutover_phase r' \<longrightarrow> cutover_phase r \<or> op_ID r \<in> C))"

definition evolves :: "int \<Rightarrow> int set \<Rightarrow> int set \<Rightarrow> db \<Rightarrow> db \<Rightarrow> bool" where
  "evolves A L C d d' \<longleftrightarrow> next_operation_id d' = next_operation_id d \<and> (\<exists>g. db_operations d' = map g (db_operations d)
     \<and> (\<forall>r \<in> set (db_operations d). row_evolves A C r (g r) \<and> (op_ID r \<in> L \<longrightarrow> g r = r)))"

lemma row_evolves_refl [simp]: "row_evolves A C r r"
  by (simp add: row_evolves_def)

lemma evolves_refl: "db_operations d' = db_operations d \<Longrightarrow> next_operation_id d' = next_operation_id d \<Longrightarrow> evolves A L C d d'"
  unfolding evolves_def by (intro conjI exI [of _ "\<lambda>r. r"]) simp_all

lemma evolves_update_where:
  assumes "db_operations d' = update_where sel f (db_operations d)" "next_operation_id d' = next_operation_id d"
    "\<And>r. r \<in> set (db_operations d) \<Longrightarrow> sel r \<Longrightarrow> row_evolves A C r (f r)"
    "\<And>r. r \<in> set (db_operations d) \<Longrightarrow> sel r \<Longrightarrow> op_ID r \<notin> L"
  shows "evolves A L C d d'"
  unfolding evolves_def
  by (intro conjI exI [of _ "\<lambda>r. if sel r then f r else r"]) (use assms in \<open>auto simp: update_where_def\<close>)

lemma evolves_wf: "evolves A L C d d' \<Longrightarrow> wf_operations d \<Longrightarrow> wf_operations d'"
proof -
  assume ev: "evolves A L C d d'" and wf: "wf_operations d"
  then obtain g where g: "db_operations d' = map g (db_operations d)"
    "\<And>r. r \<in> set (db_operations d) \<Longrightarrow> same_identity r (g r)" "next_operation_id d' = next_operation_id d"
    by (auto simp: evolves_def row_evolves_def)
  have "map op_ID (db_operations d') = map op_ID (db_operations d)" "map operation_key_of (db_operations d') = map operation_key_of (db_operations d)"
    using g(1) same_identityD [OF g(2)] by simp_all
  with g(3) wf show ?thesis by (simp add: wf_operations_def)
qed

text \<open>The states the claims name are different from completed, failed and the cutover phase.\<close>

lemma state_facts:
  "\<not> sql_eq Apply_Pending Apply_Completed" "\<not> sql_eq Apply_Pending Apply_Failed"
  "\<not> sql_eq Apply_Stopped Apply_Completed" "\<not> sql_eq Apply_Stopped Apply_Failed"
  "\<not> sql_eq Apply_FailedRetryable Apply_Completed" "\<not> sql_eq Apply_FailedRetryable Apply_Failed"
  "\<not> sql_eq Apply_WaitingForCutover Apply_Completed" "\<not> sql_eq Apply_WaitingForCutover Apply_Failed"
  "\<not> sql_in Apply_Running [Apply_CuttingOver, Apply_RevertWindow]" "\<not> sql_in Apply_Resuming [Apply_CuttingOver, Apply_RevertWindow]"
  "\<not> sql_in Apply_Stopped [Apply_CuttingOver, Apply_RevertWindow]" "\<not> sql_in Apply_Failed [Apply_CuttingOver, Apply_RevertWindow]"
  by (simp_all add: sql_in_def)

lemma sql_eq_cong: "sql_eq s t \<Longrightarrow> sql_eq s u = sql_eq t u"
  by (simp add: sql_eq_def)

lemma row_evolves_state:
  assumes "same_identity r r'" "sql_eq (op_State r) st" "\<not> sql_eq st Apply_Completed" "\<not> sql_eq st Apply_Failed"
    "\<not> sql_in (op_State r') [Apply_CuttingOver, Apply_RevertWindow] \<or> op_ID r \<in> C"
  shows "row_evolves A C r r'"
  using assms sql_eq_cong [OF assms(2)] by (auto simp: row_evolves_def cutover_phase_def)

lemma row_evolves_same_state: "same_identity r r' \<Longrightarrow> op_State r' = op_State r \<Longrightarrow> row_evolves A C r r'"
  by (simp add: row_evolves_def cutover_phase_def)

lemma lease_row_evolves: "row_evolves A C r (lease_row now owner token r)"
  by (rule row_evolves_same_state) (simp_all add: row_simps)

lemma evolves_trans:
  assumes "evolves A L C d d1" "evolves A L C d1 d2"
  shows "evolves A L C d d2"
proof -
  from assms obtain g h where g: "db_operations d1 = map g (db_operations d)" "\<And>r. r \<in> set (db_operations d) \<Longrightarrow> row_evolves A C r (g r)"
      "\<And>r. r \<in> set (db_operations d) \<Longrightarrow> op_ID r \<in> L \<Longrightarrow> g r = r"
    and h: "db_operations d2 = map h (db_operations d1)" "\<And>r. r \<in> set (db_operations d1) \<Longrightarrow> row_evolves A C r (h r)"
      "\<And>r. r \<in> set (db_operations d1) \<Longrightarrow> op_ID r \<in> L \<Longrightarrow> h r = r"
    unfolding evolves_def by blast
  have "row_evolves A C r (h (g r)) \<and> (op_ID r \<in> L \<longrightarrow> h (g r) = r)" if "r \<in> set (db_operations d)" for r
  proof
    have m: "g r \<in> set (db_operations d1)" using that g(1) by simp
    show "row_evolves A C r (h (g r))"
      using g(2) [OF that] h(2) [OF m] by (auto simp: row_evolves_def same_identity_def)
    show "op_ID r \<in> L \<longrightarrow> h (g r) = r" using g(3) [OF that] h(3) [OF m] by auto
  qed
  then show ?thesis using assms g(1) h(1) unfolding evolves_def by (intro conjI exI [of _ "h \<circ> g"]) auto
qed

lemma claim_operation_evolves:
  assumes cl: "claim_operation now owner token ad d = Some (ad', d')" and L: "op_ID ad \<notin> L"
  shows "evolves A L {} d d'"
proof -
  let ?d1 = "d\<lparr>db_operations := update_where (\<lambda>r. op_ID r = op_ID ad) (lease_row now owner token) (db_operations d)\<rparr>"
  have ev1: "evolves A L {} d ?d1"
    by (rule evolves_update_where [where sel = "\<lambda>r. op_ID r = op_ID ad" and f = "lease_row now owner token"])
      (use L in \<open>simp_all add: lease_row_evolves\<close>)
  consider (pending) "op_State ad = Apply_Pending" | (stopped) "op_State ad = Apply_Stopped"
    | (retry) "op_State ad = Apply_FailedRetryable"
    | (other) "op_State ad \<noteq> Apply_Pending" "op_State ad \<noteq> Apply_Stopped" "op_State ad \<noteq> Apply_FailedRetryable" by blast
  then show ?thesis
  proof cases
    case pending
    then have "\<exists>sel. db_operations d' = update_where sel (start_row now owner token) (db_operations d)
        \<and> next_operation_id d' = next_operation_id d \<and> (\<forall>r. sel r \<longrightarrow> op_ID r = op_ID ad \<and> sql_eq (op_State r) Apply_Pending)"
      using cl by (auto simp: claim_operation_def Let_def split: if_splits intro!: exI)
    then show ?thesis using L by (auto intro!: evolves_update_where row_evolves_state simp: row_simps state_facts)
  next
    case stopped
    then have "\<exists>sel. db_operations d' = update_where sel (resume_row now owner token) (db_operations d)
        \<and> next_operation_id d' = next_operation_id d \<and> (\<forall>r. sel r \<longrightarrow> op_ID r = op_ID ad \<and> sql_eq (op_State r) Apply_Stopped)"
      using cl by (auto simp: claim_operation_def Let_def split: if_splits intro!: exI)
    then show ?thesis using L by (auto intro!: evolves_update_where row_evolves_state simp: row_simps state_facts)
  next
    case other
    then have "d' = ?d1" using cl by (auto simp: claim_operation_def Let_def)
    with ev1 show ?thesis by simp
  next
    case retry
    then obtain b d2 where d2: "bump_attempt now (op_ID ad) ?d1 = (b, d2)" and d': "db_operations d' = db_operations d2"
        "next_operation_id d' = next_operation_id d2"
      using cl by (auto simp: claim_operation_def Let_def consume_budget_def split: prod.splits)
    let ?f = "on_update now (\<lambda>r. r\<lparr>op_Attempt := op_Attempt r + 1\<rparr>)"
    have f: "row_evolves A C r (?f r)" for C r
      by (rule row_evolves_same_state) (auto simp: on_update_def Let_def same_identity_def)
    have "evolves A L {} ?d1 d2"
      using d2 L f by (auto simp: bump_attempt_def Let_def intro!: evolves_update_where)
    with ev1 have "evolves A L {} d d2" by (rule evolves_trans)
    with d' show ?thesis by (simp add: evolves_def)
  qed
qed

lemma claim_cutover_evolves:
  assumes cl: "claim_cutover now owner token ad d = Some d'" and L: "op_ID ad \<notin> L"
  shows "evolves A L (if op_State ad = Apply_WaitingForCutover then {op_ID ad} else {}) d d'"
proof (cases "op_State ad = Apply_WaitingForCutover")
  case True
  then have "\<exists>sel. db_operations d' = update_where sel (cutover_row now owner token) (db_operations d)
      \<and> next_operation_id d' = next_operation_id d \<and> (\<forall>r. sel r \<longrightarrow> op_ID r = op_ID ad \<and> sql_eq (op_State r) Apply_WaitingForCutover)"
    using cl by (auto simp: claim_cutover_def Let_def split: if_splits intro!: exI)
  then show ?thesis using L True
    by (auto intro!: evolves_update_where row_evolves_state [where st = Apply_WaitingForCutover] simp: row_simps state_facts)
next
  case False
  then show ?thesis using cl L by (auto simp: claim_cutover_def lease_row_evolves intro!: evolves_update_where)
qed

lemma run_write_evolves:
  assumes "run_write w now ctx i d = Inr d'" "disciplined A w i d" "i \<notin> L"
  shows "evolves A L {} d d'"
proof -
  from assms(1) obtain g where d': "d' = d\<lparr>db_operations := update_where (\<lambda>r. op_ID r = i \<and> guard_admits g d r) (write_effect w now) (db_operations d)\<rparr>"
    by (auto simp: run_write_eq bind_result_Inr_iff dest: guarded_update_frame)
  have "row_evolves A {} r (write_effect w now r)" if "r \<in> set (db_operations d)" "op_ID r = i" for r
    using assms(2) that write_effect_keeps [where r = r and w = w and now = now]
    by (auto simp: row_evolves_def disciplined_def list_all_iff cutover_phase_def write_effect_keeps)
  with d' assms(3) show ?thesis by (auto intro!: evolves_update_where)
qed

lemma MarkPendingStopped_rows:
  assumes "MarkPendingStoppedByApply now ctx j d = Inr (n, d')"
  shows "\<exists>sel. d' = d\<lparr>db_operations := update_where sel (stop_row now) (db_operations d)\<rparr>
    \<and> (\<forall>r. sel r \<longrightarrow> op_ApplyID r = j \<and> sql_eq (op_State r) Apply_Pending)"
proof (cases "OperationLeaseFromContext ctx")
  case (Some l)
  let ?sel = "\<lambda>r. op_ApplyID r = j \<and> sql_eq (op_State r) Apply_Pending
      \<and> list_ex (\<lambda>o'. op_ApplyID o' = op_ApplyID r \<and> op_ID o' = ol_OperationID l \<and> sql_eq (op_LeaseToken o') (ol_Token l)) (db_operations d)"
  have "d' = d\<lparr>db_operations := update_where ?sel (stop_row now) (db_operations d)\<rparr>"
    using assms Some by (auto simp: MarkPendingStoppedByApply_def Let_def bind_result_Inr_iff split: if_splits)
  then show ?thesis by (intro exI [of _ ?sel]) simp
next
  case None
  then obtain hl where hl: "applyLeaseFromContext ctx j = Inr hl"
    using assms by (auto simp: MarkPendingStoppedByApply_def bind_result_Inr_iff)
  let ?sel = "\<lambda>r. op_ApplyID r = j \<and> sql_eq (op_State r) Apply_Pending \<and> (case hl of None \<Rightarrow> True | Some l \<Rightarrow>
      list_ex (\<lambda>a. ap_ID a = op_ApplyID r \<and> sql_eq (ap_LeaseToken a) (al_Token l)) (db_applies d))"
  have "d' = d\<lparr>db_operations := update_where ?sel (stop_row now) (db_operations d)\<rparr>"
    using assms None hl by (cases hl) (auto simp: MarkPendingStoppedByApply_def Let_def bind_result_Inr_iff)
  then show ?thesis by (intro exI [of _ ?sel]) simp
qed

lemma stop_pending_evolves:
  assumes "MarkPendingStoppedByApply now ctx j d = Inr (n, d')"
    and "\<And>r. r \<in> set (db_operations d) \<Longrightarrow> op_ID r \<in> L \<Longrightarrow> op_ApplyID r \<noteq> j \<or> \<not> sql_eq (op_State r) Apply_Pending"
  shows "evolves A L {} d d'"
proof -
  from MarkPendingStopped_rows [OF assms(1)] obtain sel where
    "d' = d\<lparr>db_operations := update_where sel (stop_row now) (db_operations d)\<rparr>"
    and sel: "\<And>r. sel r \<Longrightarrow> op_ApplyID r = j \<and> sql_eq (op_State r) Apply_Pending" by blast
  then show ?thesis using assms(2)
    by (auto intro!: evolves_update_where row_evolves_state [where st = Apply_Pending] simp: row_simps state_facts dest: sel)
qed

lemma expire_evolves:
  assumes "ExpireRetryable now time_Now d = (ex, d')"
    and "\<And>r. r \<in> set (db_operations d) \<Longrightarrow> op_ID r \<in> L \<Longrightarrow> \<not> sql_eq (op_State r) Apply_FailedRetryable"
  shows "evolves A L {} d d'"
proof (cases "filter (expired_retryable now) (db_applies d) = []")
  case True
  then show ?thesis using assms(1) by (auto simp: ExpireRetryable_def intro: evolves_refl)
next
  case False
  let ?f = "\<lambda>r. r\<lparr>op_State := Apply_Failed, op_CompletedAt := coalesce (op_CompletedAt r) now, op_UpdatedAt := now\<rparr>"
  have f: "row_evolves A {} r (?f r)" if "sql_eq (op_State r) Apply_FailedRetryable" for r
    using that by (intro row_evolves_state [where st = Apply_FailedRetryable]) (simp_all add: same_identity_def state_facts)
  show ?thesis
  proof (rule evolves_update_where)
    show "db_operations d' = update_where (\<lambda>r. sql_eq (op_State r) Apply_FailedRetryable
        \<and> op_ApplyID r \<in> set (map ap_ID (filter (expired_retryable now) (db_applies d)))) ?f (db_operations d)"
      using False assms(1) by (auto simp: ExpireRetryable_def Let_def)
    show "next_operation_id d' = next_operation_id d" using False assms(1) by (auto simp: ExpireRetryable_def Let_def)
  qed (use assms(2) f in auto)
qed

subsection \<open>The invariant\<close>

definition earlier_settled :: "db \<Rightarrow> ApplyOperation \<Rightarrow> bool" where
  "earlier_settled d r \<longleftrightarrow> (\<forall>e \<in> set (db_operations d). op_ApplyID e = op_ApplyID r \<longrightarrow> operation_order e < operation_order r
     \<longrightarrow> settled_for r e)"

definition rollout_inv :: "int \<Rightarrow> rollout \<Rightarrow> bool" where
  "rollout_inv A s \<longleftrightarrow> wf_operations (ro_db s) \<and> distinct (locked_ids s)
     \<and> (\<forall>ad \<in> set (in_flight s). ad \<in> set (db_operations (ro_db s)))
     \<and> (\<forall>r \<in> set (db_operations (ro_db s)). op_ApplyID r = A \<longrightarrow> cutover_phase r \<longrightarrow> earlier_settled (ro_db s) r)
     \<and> (\<forall>ad \<in> set (ro_cut s). op_ApplyID ad = A \<longrightarrow> op_State ad = Apply_WaitingForCutover \<longrightarrow> earlier_settled (ro_db s) ad)"

text \<open>Settled operations stay settled, so a gate that was open at the SELECT is still open at the UPDATE.\<close>

lemma earlier_settled_evolves:
  assumes "evolves A L C d d'" "earlier_settled d r" "op_ApplyID r = A" "same_identity r r'"
  shows "earlier_settled d' r'"
  unfolding earlier_settled_def
proof (intro ballI impI)
  fix e' assume e': "e' \<in> set (db_operations d')" "op_ApplyID e' = op_ApplyID r'" "operation_order e' < operation_order r'"
  from assms(1) obtain g where g: "db_operations d' = map g (db_operations d)"
    "\<And>r. r \<in> set (db_operations d) \<Longrightarrow> row_evolves A C r (g r)" unfolding evolves_def by blast
  from e'(1) g(1) obtain e where e: "e \<in> set (db_operations d)" "e' = g e" by auto
  have id: "same_identity e e'" using g(2) [OF e(1)] e(2) by (simp add: row_evolves_def)
  have "settled_for r e"
    using assms(2) e(1) e' same_identityD(2,3) [OF id] same_identityD(2,3) [OF assms(4)] by (simp add: earlier_settled_def)
  moreover have "op_ApplyID e = A" using e'(2) assms(3) same_identityD(2) [OF id] same_identityD(2) [OF assms(4)] by simp
  moreover have "op_OnFailure r' = op_OnFailure r" using assms(4) by (simp add: same_identity_def)
  ultimately show "settled_for r' e'" using g(2) [OF e(1)] e(2) by (auto simp: settled_for_def row_evolves_def)
qed

lemma rollout_inv_evolves:
  assumes inv: "rollout_inv A s" and ev: "evolves A (set (map op_ID (copies @ cuts))) C (ro_db s) d'"
    and fl: "set copies \<subseteq> set (ro_copy s)" "set cuts \<subseteq> set (ro_cut s)" "distinct (map op_ID (copies @ cuts))"
    and C: "\<And>r. r \<in> set (db_operations (ro_db s)) \<Longrightarrow> op_ID r \<in> C \<Longrightarrow> op_ApplyID r = A \<Longrightarrow> earlier_settled (ro_db s) r"
  shows "rollout_inv A (s\<lparr>ro_db := d', ro_copy := copies, ro_cut := cuts\<rparr>)"
proof -
  let ?d = "ro_db s"
  have wf: "wf_operations ?d" using inv by (simp add: rollout_inv_def)
  from ev obtain g where g: "db_operations d' = map g (db_operations ?d)"
    "\<And>r. r \<in> set (db_operations ?d) \<Longrightarrow> row_evolves A C r (g r)"
    "\<And>r. r \<in> set (db_operations ?d) \<Longrightarrow> op_ID r \<in> set (map op_ID (copies @ cuts)) \<Longrightarrow> g r = r" unfolding evolves_def by blast
  have mem: "ad \<in> set (db_operations d')" if "ad \<in> set (copies @ cuts)" for ad
  proof -
    have "ad \<in> set (db_operations ?d)" using inv fl(1,2) that by (auto simp: rollout_inv_def in_flight_def)
    with g(3) [of ad] that g(1) show ?thesis by force
  qed
  have ph: "earlier_settled d' r'" if r': "r' \<in> set (db_operations d')" "op_ApplyID r' = A" "cutover_phase r'" for r'
  proof -
    from r'(1) g(1) obtain r where r: "r \<in> set (db_operations ?d)" "r' = g r" by auto
    have row: "row_evolves A C r r'" using g(2) [OF r(1)] r(2) by simp
    then have id: "same_identity r r'" by (simp add: row_evolves_def)
    have A: "op_ApplyID r = A" using r'(2) same_identityD(2) [OF id] by simp
    have "cutover_phase r \<or> op_ID r \<in> C" using row A r'(3) by (auto simp: row_evolves_def)
    then have "earlier_settled ?d r" using inv C r(1) A by (auto simp: rollout_inv_def)
    with ev show ?thesis using A id by (rule earlier_settled_evolves)
  qed
  have cutl: "earlier_settled d' ad" if "ad \<in> set cuts" "op_ApplyID ad = A" "op_State ad = Apply_WaitingForCutover" for ad
  proof -
    have "earlier_settled ?d ad" using inv fl(2) that by (auto simp: rollout_inv_def)
    with ev show ?thesis using that(2) by (rule earlier_settled_evolves) simp
  qed
  show ?thesis
    unfolding rollout_inv_def
    using evolves_wf [OF ev wf] fl(3) mem ph cutl by (simp add: locked_ids_def in_flight_def)
qed

lemma remove1_ids:
  assumes "distinct (map op_ID (xs @ ys))" "ad \<in> set xs"
  shows "op_ID ad \<notin> set (map op_ID (remove1 ad xs @ ys))" "distinct (map op_ID (remove1 ad xs @ ys))"
proof -
  have d: "distinct (map op_ID xs)" "distinct (map op_ID ys)" "set (map op_ID xs) \<inter> set (map op_ID ys) = {}"
    using assms(1) by auto
  have "xs = takeWhile (\<lambda>x. x \<noteq> ad) xs @ ad # tl (dropWhile (\<lambda>x. x \<noteq> ad) xs)"
    using assms(2) by (metis (mono_tags, lifting) dropWhile_eq_Nil_conv hd_dropWhile list.collapse takeWhile_dropWhile_id)
  then obtain us vs where xs: "xs = us @ ad # vs" "ad \<notin> set us"
    using set_takeWhileD by metis
  then have "remove1 ad xs = us @ vs" by (simp add: remove1_append)
  with d xs show "op_ID ad \<notin> set (map op_ID (remove1 ad xs @ ys))" "distinct (map op_ID (remove1 ad xs @ ys))" by auto
qed

lemma cutover_ready_settled:
  assumes "claimable_cutover now d r" "op_State r = Apply_WaitingForCutover"
  shows "earlier_settled d r"
proof -
  have "\<not> sql_in (op_State r) [Apply_CuttingOver, Apply_RevertWindow]" using assms(2) by (simp add: sql_in_def)
  then have "\<not> list_ex (blocks_cutover r) (db_operations d)"
    using assms(1) by (auto simp: claimable_cutover_def cutover_ready_def)
  then show ?thesis by (auto simp: earlier_settled_def list_ex_iff blocks_cutover_def settled_for_def)
qed

lemma rollout_inv_add:
  assumes inv: "rollout_inv A s" and "ad \<in> set (db_operations (ro_db s))" "op_ID ad \<notin> set (locked_ids s)"
  shows "rollout_inv A (s\<lparr>ro_copy := ad # ro_copy s\<rparr>)"
    "(op_ApplyID ad = A \<Longrightarrow> op_State ad = Apply_WaitingForCutover \<Longrightarrow> earlier_settled (ro_db s) ad)
      \<Longrightarrow> rollout_inv A (s\<lparr>ro_cut := ad # ro_cut s\<rparr>)"
  using assms by (auto simp: rollout_inv_def locked_ids_def in_flight_def)

lemma rollout_inv_db:
  assumes "rollout_inv A s" "evolves A (set (locked_ids s)) {} (ro_db s) d'"
  shows "rollout_inv A (s\<lparr>ro_db := d'\<rparr>)"
proof -
  have "distinct (map op_ID (ro_copy s @ ro_cut s))" using assms(1) by (simp add: rollout_inv_def locked_ids_def in_flight_def)
  moreover have "evolves A (set (map op_ID (ro_copy s @ ro_cut s))) {} (ro_db s) d'"
    using assms(2) by (simp add: locked_ids_def in_flight_def)
  ultimately have "rollout_inv A (s\<lparr>ro_db := d', ro_copy := ro_copy s, ro_cut := ro_cut s\<rparr>)"
    using assms(1) by (intro rollout_inv_evolves) auto
  then show ?thesis by (cases s) simp
qed

lemma remove_claim:
  assumes "rollout_inv A s"
  shows "ad \<in> set (ro_copy s) \<Longrightarrow> op_ID ad \<notin> set (map op_ID (remove1 ad (ro_copy s) @ ro_cut s))
      \<and> distinct (map op_ID (remove1 ad (ro_copy s) @ ro_cut s))"
    and "ad \<in> set (ro_cut s) \<Longrightarrow> op_ID ad \<notin> set (map op_ID (ro_copy s @ remove1 ad (ro_cut s)))
      \<and> distinct (map op_ID (ro_copy s @ remove1 ad (ro_cut s)))"
proof -
  have d: "distinct (map op_ID (ro_copy s @ ro_cut s))" "distinct (map op_ID (ro_cut s @ ro_copy s))"
    using assms by (auto simp: rollout_inv_def locked_ids_def in_flight_def)
  show "ad \<in> set (ro_copy s) \<Longrightarrow> op_ID ad \<notin> set (map op_ID (remove1 ad (ro_copy s) @ ro_cut s))
      \<and> distinct (map op_ID (remove1 ad (ro_copy s) @ ro_cut s))"
    using remove1_ids [OF d(1)] by blast
  show "ad \<in> set (ro_cut s) \<Longrightarrow> op_ID ad \<notin> set (map op_ID (ro_copy s @ remove1 ad (ro_cut s)))
      \<and> distinct (map op_ID (ro_copy s @ remove1 ad (ro_cut s)))"
    using remove1_ids [OF d(2), of ad] by auto
qed

lemma rollout_inv_claim_copy:
  assumes inv: "rollout_inv A s" and ad: "ad \<in> set (ro_copy s)"
    and ev: "evolves A (set (map op_ID (remove1 ad (ro_copy s) @ ro_cut s))) {} (ro_db s) d'"
  shows "rollout_inv A (s\<lparr>ro_db := d', ro_copy := remove1 ad (ro_copy s)\<rparr>)"
proof -
  have "rollout_inv A (s\<lparr>ro_db := d', ro_copy := remove1 ad (ro_copy s), ro_cut := ro_cut s\<rparr>)"
    using inv ev remove_claim(1) [OF inv ad] by (intro rollout_inv_evolves) (auto simp: set_remove1_subset dest: notin_set_remove1)
  then show ?thesis by (cases s) simp
qed

lemma rollout_inv_claim_cut:
  assumes inv: "rollout_inv A s" and ad: "ad \<in> set (ro_cut s)"
    and ev: "evolves A (set (map op_ID (ro_copy s @ remove1 ad (ro_cut s)))) C (ro_db s) d'"
    and C: "C = {} \<or> C = {op_ID ad} \<and> op_State ad = Apply_WaitingForCutover"
  shows "rollout_inv A (s\<lparr>ro_db := d', ro_cut := remove1 ad (ro_cut s)\<rparr>)"
proof -
  have mem: "ad \<in> set (db_operations (ro_db s))" and wf: "wf_operations (ro_db s)"
    using inv ad by (auto simp: rollout_inv_def in_flight_def)
  have "earlier_settled (ro_db s) r" if "r \<in> set (db_operations (ro_db s))" "op_ID r \<in> C" "op_ApplyID r = A" for r
  proof -
    have "r = ad" "op_State ad = Apply_WaitingForCutover" using C that operation_unique [OF wf that(1) mem] by auto
    then show ?thesis using inv ad that(3) by (auto simp: rollout_inv_def)
  qed
  then have "rollout_inv A (s\<lparr>ro_db := d', ro_copy := ro_copy s, ro_cut := remove1 ad (ro_cut s)\<rparr>)"
    using inv ev remove_claim(2) [OF inv ad] by (intro rollout_inv_evolves) (auto dest: notin_set_remove1)
  then show ?thesis by (cases s) simp
qed

lemma locked_row_in_flight:
  assumes "rollout_inv A s" "r \<in> set (db_operations (ro_db s))" "op_ID r \<in> set (locked_ids s)"
  shows "r \<in> set (in_flight s)"
proof -
  from assms(3) obtain x where x: "x \<in> set (in_flight s)" "op_ID x = op_ID r" by (auto simp: locked_ids_def)
  moreover have "x \<in> set (db_operations (ro_db s))" "wf_operations (ro_db s)" using assms(1) x(1) by (auto simp: rollout_inv_def)
  ultimately show ?thesis using operation_unique assms(2) by metis
qed

lemma rollout_step_inv:
  assumes "rollout_step A s s'" "rollout_inv A s"
  shows "rollout_inv A s'"
  using assms
proof (induction rule: rollout_step.induct)
  case (select_copy now s ad)
  then show ?case using first_unlocked_SomeD by (auto simp: select_next_operation_def intro!: rollout_inv_add(1))
next
  case (claim_copy ad s now owner token ad' d')
  then show ?case using remove_claim(1) [OF claim_copy.prems claim_copy.hyps(1)] by (intro rollout_inv_claim_copy claim_operation_evolves) auto
next
  case (back_off_copy ad s now owner token)
  then have "rollout_inv A (s\<lparr>ro_db := ro_db s, ro_copy := remove1 ad (ro_copy s)\<rparr>)"
    by (intro rollout_inv_claim_copy evolves_refl) auto
  then show ?case by (cases s) simp
next
  case (select_cut now s ad)
  then have "ad \<in> set (db_operations (ro_db s))" "op_ID ad \<notin> set (locked_ids s)" "claimable_cutover now (ro_db s) ad"
    using first_unlocked_SomeD by (auto simp: select_next_cutover_def)
  then show ?case using select_cut.prems cutover_ready_settled by (auto intro!: rollout_inv_add(2))
next
  case (claim_cut ad s now owner token d')
  then show ?case using remove_claim(2) [OF claim_cut.prems claim_cut.hyps(1)]
    by (intro rollout_inv_claim_cut [where C = "if op_State ad = Apply_WaitingForCutover then {op_ID ad} else {}"] claim_cutover_evolves) auto
next
  case (back_off_cut ad s now owner token)
  then have "rollout_inv A (s\<lparr>ro_db := ro_db s, ro_cut := remove1 ad (ro_cut s)\<rparr>)"
    by (intro rollout_inv_claim_cut [where C = "{}"] evolves_refl) auto
  then show ?case by (cases s) simp
next
  case (driver_write w now ctx i s d')
  then show ?case by (intro rollout_inv_db run_write_evolves) auto
next
  case (stop_pending now ctx j s n d')
  have "op_ApplyID r \<noteq> j \<or> \<not> sql_eq (op_State r) Apply_Pending" if "r \<in> set (db_operations (ro_db s))" "op_ID r \<in> set (locked_ids s)" for r
    using stop_pending locked_row_in_flight that by blast
  with stop_pending show ?case by (intro rollout_inv_db stop_pending_evolves) auto
next
  case (expire now time_Now s expired d')
  have "\<not> sql_eq (op_State r) Apply_FailedRetryable" if "r \<in> set (db_operations (ro_db s))" "op_ID r \<in> set (locked_ids s)" for r
    using expire locked_row_in_flight that by blast
  with expire show ?case by (intro rollout_inv_db expire_evolves) auto
next
  case (requests s crs)
  then show ?case by (intro rollout_inv_db evolves_refl) auto
next
  case (applies s as)
  then show ?case by (intro rollout_inv_db evolves_refl) auto
qed

lemma rollout_reachable_inv:
  assumes "(rollout_step A)\<^sup>*\<^sup>* s s'" "rollout_inv A s"
  shows "rollout_inv A s'"
  using assms by (induction rule: rtranclp_induct) (auto intro: rollout_step_inv)

lemma rollout_inv_start:
  assumes "wf_operations (ro_db s)" "in_flight s = []"
    "\<And>r. r \<in> set (db_operations (ro_db s)) \<Longrightarrow> op_ApplyID r = A \<Longrightarrow> \<not> cutover_phase r"
  shows "rollout_inv A s"
  using assms by (auto simp: rollout_inv_def locked_ids_def in_flight_def)

lemma operation_order_total:
  assumes "wf_operations d" "r \<in> set (db_operations d)" "r' \<in> set (db_operations d)" "r \<noteq> r'"
  shows "operation_order r < operation_order r' \<or> operation_order r' < operation_order r"
proof -
  have "op_ID r \<noteq> op_ID r'" using assms operation_unique by blast
  then show ?thesis by (auto simp: operation_order_def less_prod_def)
qed

lemma cutover_phase_unsettled: "cutover_phase e \<Longrightarrow> \<not> settled_for r e"
  by (auto simp: cutover_phase_def settled_for_def sql_in_def sql_eq_def)

subsection \<open>A sample rollout\<close>

text \<open>Two parked deployments: the first is claimed for cutover and completed, then the second is claimed.\<close>

definition sample_parked :: rollout where
  "sample_parked = \<lparr>ro_db = sample_db Apply_WaitingForCutover Apply_WaitingForCutover, ro_copy = [], ro_cut = []\<rparr>"

definition sample_first_cut :: db where
  "sample_first_cut = the (claim_cutover 200 ''w'' ''n1'' (sample_operation 1 ''eu'' Apply_WaitingForCutover ''t1'')
     (sample_db Apply_WaitingForCutover Apply_WaitingForCutover))"

definition sample_first_done :: db where
  "sample_first_done = projr (run_write W_MarkCompleted 201 (sample_lease 1 ''n1'') 1 sample_first_cut)"

definition sample_second_cut :: db where
  "sample_second_cut = the (claim_cutover 202 ''w'' ''n2'' (sample_operation 2 ''us'' Apply_WaitingForCutover ''t2'') sample_first_done)"

lemma sample_rollout_first: "(rollout_step 1)\<^sup>*\<^sup>* sample_parked (sample_parked\<lparr>ro_db := sample_first_cut\<rparr>)"
proof -
  let ?r = "sample_operation 1 ''eu'' Apply_WaitingForCutover ''t1''"
  have "select_next_cutover 200 (locked_ids sample_parked) (ro_db sample_parked) = Some ?r" by code_simp
  then have 1: "rollout_step 1 sample_parked (sample_parked\<lparr>ro_cut := ?r # ro_cut sample_parked\<rparr>)" by (rule rollout_step.select_cut)
  let ?s = "sample_parked\<lparr>ro_cut := [?r]\<rparr>"
  have "?r \<in> set (ro_cut ?s)" "claim_cutover 200 ''w'' ''n1'' ?r (ro_db ?s) = Some sample_first_cut" by code_simp+
  then have 2: "rollout_step 1 ?s (?s\<lparr>ro_db := sample_first_cut, ro_cut := remove1 ?r (ro_cut ?s)\<rparr>)" by (rule rollout_step.claim_cut)
  have "sample_parked\<lparr>ro_cut := ?r # ro_cut sample_parked\<rparr> = ?s"
    "?s\<lparr>ro_db := sample_first_cut, ro_cut := remove1 ?r (ro_cut ?s)\<rparr> = sample_parked\<lparr>ro_db := sample_first_cut\<rparr>"
    by (simp_all add: sample_parked_def)
  with 1 2 show ?thesis by (simp add: converse_rtranclp_into_rtranclp)
qed

lemma sample_rollout_first_done: "(rollout_step 1)\<^sup>*\<^sup>* sample_parked (sample_parked\<lparr>ro_db := sample_first_done\<rparr>)"
proof -
  let ?s1 = "sample_parked\<lparr>ro_db := sample_first_cut\<rparr>"
  have "run_write W_MarkCompleted 201 (sample_lease 1 ''n1'') 1 (ro_db ?s1) = Inr sample_first_done" "1 \<notin> set (locked_ids ?s1)"
    "disciplined 1 W_MarkCompleted 1 (ro_db ?s1)" by code_simp+
  then have "rollout_step 1 ?s1 (?s1\<lparr>ro_db := sample_first_done\<rparr>)" by (rule rollout_step.driver_write)
  with sample_rollout_first show ?thesis by (auto intro: rtranclp.rtrancl_into_rtrancl)
qed

lemma sample_rollout_second: "(rollout_step 1)\<^sup>*\<^sup>* sample_parked (sample_parked\<lparr>ro_db := sample_second_cut\<rparr>)"
proof -
  let ?s2 = "sample_parked\<lparr>ro_db := sample_first_done\<rparr>"
  let ?r = "sample_operation 2 ''us'' Apply_WaitingForCutover ''t2''"
  have "select_next_cutover 202 (locked_ids ?s2) (ro_db ?s2) = Some ?r" by code_simp
  then have 2: "rollout_step 1 ?s2 (?s2\<lparr>ro_cut := ?r # ro_cut ?s2\<rparr>)" by (rule rollout_step.select_cut)
  let ?s = "?s2\<lparr>ro_cut := [?r]\<rparr>"
  have "?r \<in> set (ro_cut ?s)" "claim_cutover 202 ''w'' ''n2'' ?r (ro_db ?s) = Some sample_second_cut" by code_simp+
  then have 3: "rollout_step 1 ?s (?s\<lparr>ro_db := sample_second_cut, ro_cut := remove1 ?r (ro_cut ?s)\<rparr>)" by (rule rollout_step.claim_cut)
  have "?s2\<lparr>ro_cut := ?r # ro_cut ?s2\<rparr> = ?s"
    "?s\<lparr>ro_db := sample_second_cut, ro_cut := remove1 ?r (ro_cut ?s)\<rparr> = sample_parked\<lparr>ro_db := sample_second_cut\<rparr>"
    by (simp_all add: sample_parked_def)
  with 2 3 sample_rollout_first_done show ?thesis by (auto intro: rtranclp.rtrancl_into_rtrancl)
qed

lemma sample_parked_start:
  "wf_operations (ro_db sample_parked)" "in_flight sample_parked = []"
  "\<forall>r \<in> set (db_operations (ro_db sample_parked)). op_ApplyID r = 1 \<longrightarrow> \<not> cutover_phase r"
  by code_simp+

subsection \<open>Properties\<close>

text \<open>Cutovers never overlap (C1): however the drivers of an apply's deployments interleave - claims that select a row and write it
later, writes of the rows they drive, stops, expiries - at most one operation of a barrier apply is in its cutover phase at any time.\<close>

theorem cutovers_never_overlap:
  assumes "(rollout_step A)\<^sup>*\<^sup>* s s'" "wf_operations (ro_db s)" "in_flight s = []"
    and "\<forall>r \<in> set (db_operations (ro_db s)). op_ApplyID r = A \<longrightarrow> \<not> cutover_phase r"
    and r: "r \<in> set (db_operations (ro_db s'))" "op_ApplyID r = A" "cutover_phase r"
    and r': "r' \<in> set (db_operations (ro_db s'))" "op_ApplyID r' = A" "cutover_phase r'"
  shows "r = r'"
proof (rule ccontr)
  assume "r \<noteq> r'"
  have inv: "rollout_inv A s'" using assms(1-4) by (blast intro: rollout_reachable_inv rollout_inv_start)
  then have "operation_order r < operation_order r' \<or> operation_order r' < operation_order r"
    using operation_order_total r(1) r'(1) \<open>r \<noteq> r'\<close> by (auto simp: rollout_inv_def)
  moreover have "earlier_settled (ro_db s') r" "earlier_settled (ro_db s') r'" using inv r r' by (auto simp: rollout_inv_def)
  ultimately show False using r r' cutover_phase_unsettled by (auto simp: earlier_settled_def)
qed

theorem cutovers_never_overlap_witness:
  "op_ID (hd (filter cutover_phase (db_operations sample_second_cut))) = 2
   \<and> last (db_operations sample_second_cut) = hd (filter cutover_phase (db_operations sample_second_cut))"
proof -
  let ?s = "sample_parked\<lparr>ro_db := sample_second_cut\<rparr>"
  let ?r = "last (db_operations sample_second_cut)" and ?r' = "hd (filter cutover_phase (db_operations sample_second_cut))"
  have "?r \<in> set (db_operations (ro_db ?s))" "op_ApplyID ?r = 1" "cutover_phase ?r"
    "?r' \<in> set (db_operations (ro_db ?s))" "op_ApplyID ?r' = 1" "cutover_phase ?r'" by code_simp+
  then have "?r = ?r'" by (rule cutovers_never_overlap [OF sample_rollout_second sample_parked_start])
  moreover have "op_ID ?r' = 2" by code_simp
  ultimately show ?thesis by simp
qed

text \<open>Cutovers follow the deployment order (C2): in every reachable state, when an operation of a barrier apply is in its cutover phase,
every earlier operation of the apply has completed, or has failed under the continue policy.\<close>

theorem cutovers_in_deployment_order:
  assumes "(rollout_step A)\<^sup>*\<^sup>* s s'" "wf_operations (ro_db s)" "in_flight s = []"
    and "\<forall>r \<in> set (db_operations (ro_db s)). op_ApplyID r = A \<longrightarrow> \<not> cutover_phase r"
    and "r \<in> set (db_operations (ro_db s'))" "op_ApplyID r = A" "cutover_phase r"
    and "e \<in> set (db_operations (ro_db s'))" "op_ApplyID e = A" "operation_order e < operation_order r"
  shows "sql_eq (op_State e) Apply_Completed
    \<or> (sql_eq (op_OnFailure r) OnFailureContinue \<and> sql_eq (op_State e) Apply_Failed)"
proof -
  have "rollout_inv A s'" using assms(1-4) by (blast intro: rollout_reachable_inv rollout_inv_start)
  then have "earlier_settled (ro_db s') r" using assms(5-7) by (simp add: rollout_inv_def)
  then show ?thesis using assms(6,8-10) by (auto simp: earlier_settled_def settled_for_def)
qed

theorem cutovers_in_deployment_order_witness:
  "sql_eq (op_State (hd (db_operations sample_second_cut))) Apply_Completed"
proof -
  let ?s = "sample_parked\<lparr>ro_db := sample_second_cut\<rparr>"
  let ?r = "last (db_operations sample_second_cut)" and ?e = "hd (db_operations sample_second_cut)"
  have "?r \<in> set (db_operations (ro_db ?s))" "op_ApplyID ?r = 1" "cutover_phase ?r"
    "?e \<in> set (db_operations (ro_db ?s))" "op_ApplyID ?e = 1" "operation_order ?e < operation_order ?r" by code_simp+
  then have "sql_eq (op_State ?e) Apply_Completed \<or> (sql_eq (op_OnFailure ?r) OnFailureContinue \<and> sql_eq (op_State ?e) Apply_Failed)"
    by (rule cutovers_in_deployment_order [OF sample_rollout_second sample_parked_start])
  moreover have "\<not> sql_eq (op_OnFailure ?r) OnFailureContinue" by code_simp
  ultimately show ?thesis by blast
qed


text \<open>A claim that runs alone succeeds: its UPDATE changes the row its SELECT found.\<close>

lemma select_find_Some:
  assumes "r \<in> set (db_operations d)" "p r" "op_ID r \<notin> set locked"
  shows "\<exists>ad. first_unlocked p locked d = Some ad"
  using assms by (force simp: first_unlocked_def find_None_iff simp flip: not_None_eq)

lemma rows_changed_selected:
  assumes "ad \<in> set t" "sel ad" "f ad \<noteq> ad"
  shows "rows_changed sel f t \<noteq> 0"
  using assms rows_changed_pos_iff [of sel f t] by auto

lemma parked_cutover_claimable:
  assumes "op_State r = Apply_WaitingForCutover" "cutover_eligible d r" "earlier_settled d r" "\<not> pending_request d (op_ApplyID r) ControlOperationStop"
  shows "claimable_cutover now d r"
  using assms by (auto simp: claimable_cutover_def cutover_ready_def blocks_cutover_def list_ex_iff earlier_settled_def settled_for_def)

lemma waiting_unsettled: "op_State r = Apply_WaitingForCutover \<Longrightarrow> \<not> settled_for x r \<and> \<not> cutover_phase r"
proof -
  have "\<not> sql_eq Apply_WaitingForCutover Apply_Completed" "\<not> sql_eq Apply_WaitingForCutover Apply_Failed"
    "\<not> sql_in Apply_WaitingForCutover [Apply_CuttingOver, Apply_RevertWindow]" by (code_simp, code_simp, code_simp)
  then show "op_State r = Apply_WaitingForCutover \<Longrightarrow> \<not> settled_for x r \<and> \<not> cutover_phase r" by (simp add: settled_for_def cutover_phase_def)
qed

text \<open>In a reachable rollout the parked deployment whose turn it is has no rival in its own apply.\<close>

lemma next_cutover_unique:
  assumes inv: "rollout_inv A s" and r: "r \<in> set (db_operations (ro_db s))" "op_ApplyID r = A" "op_State r = Apply_WaitingForCutover" "earlier_settled (ro_db s) r"
    and q: "q \<in> set (db_operations (ro_db s))" "op_ApplyID q = A" "claimable_cutover now (ro_db s) q"
  shows "q = r"
proof (rule ccontr)
  assume "q \<noteq> r"
  then consider "operation_order q < operation_order r" | "operation_order r < operation_order q"
    using operation_order_total r(1) q(1) inv by (auto simp: rollout_inv_def)
  then show False
  proof cases
    case 1
    then have "settled_for r q" using r q by (simp add: earlier_settled_def)
    moreover have "cutover_phase q \<or> sql_eq (op_State q) Apply_WaitingForCutover"
      using q(3) by (auto simp: claimable_cutover_def cutover_ready_def cutover_phase_def)
    ultimately show False using cutover_phase_unsettled by (auto simp: settled_for_def sql_eq_def canonical_def)
  next
    case 2
    have "\<not> cutover_ready (ro_db s) q" using 2 r q(2) waiting_unsettled [OF r(3), of q]
      by (auto simp: cutover_ready_def blocks_cutover_def list_ex_iff settled_for_def)
    then have "cutover_phase q" using q(3) by (auto simp: claimable_cutover_def cutover_phase_def)
    then have "earlier_settled (ro_db s) q" using inv q by (simp add: rollout_inv_def)
    then show False using 2 r q(2) waiting_unsettled [OF r(3)] by (auto simp: earlier_settled_def)
  qed
qed

text \<open>
  A parked rollout is not stuck (C3): in every reachable state, take a deployment that waits at the cutover barrier, whose earlier deployments have all
  completed - or failed, when it goes on after failures - with no stop pending and no manual cutover asked for. The next worker that looks for a cutover
  while the cutovers of other applies are taken gets exactly this deployment and leaves it cutting over under its token, provided its row, which
  it holds locked, and the absence of a stop last until it writes.
\<close>

theorem rollout_not_stuck:
  assumes reach: "(rollout_step A)\<^sup>*\<^sup>* s s'" "wf_operations (ro_db s)" "in_flight s = []"
      "\<forall>r \<in> set (db_operations (ro_db s)). op_ApplyID r = A \<longrightarrow> \<not> cutover_phase r"
    and r: "r \<in> set (db_operations (ro_db s'))" "op_ApplyID r = A" "op_State r = Apply_WaitingForCutover"
    and turn: "earlier_settled (ro_db s') r" "cutover_eligible (ro_db s') r" "\<not> pending_request (ro_db s') A ControlOperationStop"
    and worker: "owner \<noteq> []" "op_ID r \<notin> set locked"
      "\<forall>q \<in> set (db_operations (ro_db s')). op_ApplyID q \<noteq> A \<longrightarrow> claimable_cutover now (ro_db s') q \<longrightarrow> op_ID q \<in> set locked"
    and between: "r \<in> set (db_operations (between (ro_db s')))" "\<not> pending_request (between (ro_db s')) A ControlOperationStop"
  shows "\<exists>ad d'. FindNextApplyOperationCutover now time_Now locked between token owner (ro_db s') = Inr (Some ad, d')
    \<and> op_ID ad = op_ID r \<and> (\<exists>r' \<in> set (db_operations d'). op_ID r' = op_ID r \<and> op_State r' = Apply_CuttingOver \<and> op_LeaseToken r' = token)"
proof -
  let ?d = "ro_db s'" and ?b = "between (ro_db s')"
  have inv: "rollout_inv A s'" using reach by (blast intro: rollout_reachable_inv rollout_inv_start)
  have "claimable_cutover now ?d r" using parked_cutover_claimable r turn by simp
  then obtain ad where sel: "select_next_cutover now locked ?d = Some ad"
    using select_find_Some [of r ?d "claimable_cutover now ?d"] r(1) worker(2) by (auto simp: select_next_cutover_def)
  note ad = first_unlocked_SomeD [OF sel [unfolded select_next_cutover_def]]
  have "op_ApplyID ad = A" using worker(3) ad(1-3) by blast
  then have ad_r: "ad = r" using next_cutover_unique [OF inv r turn(1) ad(1)] ad(2) by blast
  let ?sel = "\<lambda>x. op_ID x = op_ID r \<and> sql_eq (op_State x) Apply_WaitingForCutover \<and> \<not> pending_request ?b (op_ApplyID r) ControlOperationStop"
  have hit: "?sel r" using r between by simp
  have "cutover_row now owner token r \<noteq> r" using r(3) by (auto simp: row_simps dest: arg_cong [where f = op_State])
  then have changed: "rows_changed ?sel (cutover_row now owner token) (db_operations ?b) \<noteq> 0" using rows_changed_selected [of r "db_operations ?b" ?sel] between(1) hit by blast
  let ?d' = "?b\<lparr>db_operations := update_where ?sel (cutover_row now owner token) (db_operations ?b)\<rparr>"
  have "claim_cutover now owner token r ?b = Some ?d'" using r(3) changed by (simp add: claim_cutover_def Let_def)
  then have f: "FindNextApplyOperationCutover now time_Now locked between token owner ?d = Inr (Some (with_lease owner token time_Now r), ?d')"
    using worker(1) sel ad_r by (simp add: FindNextApplyOperationCutover_def)
  have row: "cutover_row now owner token r \<in> set (db_operations ?d')" using update_where_hit [OF between(1), of ?sel] hit by simp
  have "\<exists>r' \<in> set (db_operations ?d'). op_ID r' = op_ID r \<and> op_State r' = Apply_CuttingOver \<and> op_LeaseToken r' = token"
    using row by (rule bexI [rotated]) (simp add: cutover_row_def lease_row_def)
  moreover have "op_ID (with_lease owner token time_Now r) = op_ID r" by (simp add: with_lease_def)
  ultimately show ?thesis using f by blast
qed

theorem rollout_not_stuck_witness:
  "\<exists>ad d'. FindNextApplyOperationCutover 202 202 [] id ''n2'' ''w'' sample_first_done = Inr (Some ad, d') \<and> op_ID ad = 2"
proof -
  let ?s = "sample_parked\<lparr>ro_db := sample_first_done\<rparr>" and ?r = "sample_operation 2 ''us'' Apply_WaitingForCutover ''t2''"
  have r: "?r \<in> set (db_operations (ro_db ?s))" "op_ApplyID ?r = 1" "op_State ?r = Apply_WaitingForCutover" by code_simp+
  have e: "earlier_settled (ro_db ?s) ?r" unfolding earlier_settled_def by code_simp
  have t: "cutover_eligible (ro_db ?s) ?r" "\<not> pending_request (ro_db ?s) 1 ControlOperationStop" by code_simp+
  have free: "''w'' \<noteq> ([] :: string)" "op_ID ?r \<notin> set []"
    "\<forall>q \<in> set (db_operations (ro_db ?s)). op_ApplyID q \<noteq> 1 \<longrightarrow> claimable_cutover 202 (ro_db ?s) q \<longrightarrow> op_ID q \<in> set []" by code_simp+
  have b: "?r \<in> set (db_operations (id (ro_db ?s)))" "\<not> pending_request (id (ro_db ?s)) 1 ControlOperationStop" using r(1) t(2) by simp_all
  have i: "op_ID ?r = 2" by code_simp
  from rollout_not_stuck [OF sample_rollout_first_done sample_parked_start r e t free, where between = id and time_Now = 202 and token = "''n2''"] b i
  show ?thesis by auto
qed

end
