(* ===== verification/SB_Task_Store.thy ===== *)
theory SB_Task_Store
  imports SB_Control_Requests
begin

section \<open>The task store (tasks.go)\<close>

text \<open>
  A task is one table's change within an operation; per-shard rows mirror the engine's progress. Writes are guarded by the lease on the call's
  context: an operation lease scopes the write to the tasks of its operation, an apply lease to those of its apply. insertTask is in the theory
  of the apply store, which calls it. NULL in table\_name, ddl, ddl\_action and engine\_migration\_id is the empty string here, as it is in the
  Go struct; where a query compares such a column, the model says so.
\<close>

definition updated_task :: "int \<Rightarrow> Task \<Rightarrow> Task \<Rightarrow> Task" where
  "updated_task now task t = t\<lparr>tk_State := tk_State task, tk_ErrorMessage := nullString (null_text (tk_ErrorMessage task)),
     tk_Options := nullJSON (tk_Options task), tk_Attempt := tk_Attempt task, tk_RowsCopied := tk_RowsCopied task, tk_RowsTotal := tk_RowsTotal task,
     tk_ProgressPercent := tk_ProgressPercent task, tk_ETASeconds := tk_ETASeconds task,
     tk_ChecksumRowsChecked := tk_ChecksumRowsChecked task, tk_ChecksumRowsTotal := tk_ChecksumRowsTotal task,
     tk_CutoverAttempts := tk_CutoverAttempts task, tk_IsInstant := tk_IsInstant task, tk_ReadyToComplete := tk_ReadyToComplete task,
     tk_EngineMigrationID := tk_EngineMigrationID task, tk_StartedAt := tk_StartedAt task, tk_CompletedAt := tk_CompletedAt task,
     tk_UpdatedAt := now\<rparr>"

text \<open>The UPDATE under a predicate on the row, and the re-check of the lease when it changed no row.\<close>

definition write_task :: "(db \<Rightarrow> Task \<Rightarrow> bool) \<Rightarrow> (db \<Rightarrow> storage_error + unit) \<Rightarrow> int \<Rightarrow> Task \<Rightarrow> db \<Rightarrow> storage_error + db" where
  "write_task leasePredicate verifyLeaseStillOwned now task d =
     (let sel = (\<lambda>t. tk_ID t = tk_ID task \<and> leasePredicate d t);
          d' = d\<lparr>db_tasks := update_where sel (updated_task now task) (db_tasks d)\<rparr> in
      if rows_changed sel (updated_task now task) (db_tasks d) = 0
      then bind_result (verifyLeaseStillOwned d') (\<lambda>_. Inr d')
      else Inr d')"

definition tk_Update :: "int \<Rightarrow> call_ctx \<Rightarrow> Task \<Rightarrow> db \<Rightarrow> storage_error + db" where
  "tk_Update now ctx task d = (case OperationLeaseFromContext ctx of
       Some opLease \<Rightarrow>
         if \<not> OperationLease_Valid opLease then Inl ErrApplyLeaseLost
         else write_task (\<lambda>d t. tk_ApplyOperationID t = Some (ol_OperationID opLease)
                \<and> operationLeaseOwnsRow (ol_OperationID opLease) (ol_Token opLease) d)
              (ensureOperationLeaseStillOwned opLease) now task d
     | None \<Rightarrow> bind_result (applyLeaseFromContext ctx (tk_ApplyID task)) (\<lambda>hasLease. case hasLease of
           Some lease \<Rightarrow> write_task (\<lambda>d t. list_ex (\<lambda>a. ap_ID a = tk_ApplyID t \<and> sql_eq (ap_LeaseToken a) (al_Token lease)) (db_applies d))
              (ensureApplyLeaseStillOwned lease) now task d
         | None \<Rightarrow> write_task (\<lambda>_ _. True) (\<lambda>_. Inr ()) now task d))"

definition insertShardTaskGuarded :: "int \<Rightarrow> Task \<Rightarrow> OperationLease \<Rightarrow> db \<Rightarrow> storage_error + db" where
  "insertShardTaskGuarded now task opLease d =
     (if operationLeaseOwnsRow (ol_OperationID opLease) (ol_Token opLease) d
      then bind_result (insertTask now task d) (\<lambda>(i, d'). Inr d')
      else bind_result (ensureOperationLeaseStillOwned opLease d) (\<lambda>_. Inr d))"

definition shard_row :: "Task \<Rightarrow> Task \<Rightarrow> bool" where
  "shard_row task t \<longleftrightarrow> tk_ApplyOperationID t \<noteq> None \<and> tk_ApplyOperationID t = tk_ApplyOperationID task \<and> sql_eq (tk_Namespace t) (tk_Namespace task)
     \<and> sql_eq (tk_TableName t) (tk_TableName task) \<and> sql_eq (tk_Shard t) (tk_Shard task)"

text \<open>\<open>between\<close> is what others commit between the look-up and the write.\<close>

definition UpsertShardProgress :: "int \<Rightarrow> (db \<Rightarrow> db) \<Rightarrow> call_ctx \<Rightarrow> Task \<Rightarrow> db \<Rightarrow> storage_error + db" where
  "UpsertShardProgress now between ctx task d = (case OperationLeaseFromContext ctx of
       None \<Rightarrow> Inl (ErrOther ''upsert shard progress requires an operation lease'')
     | Some opLease \<Rightarrow>
         if \<not> OperationLease_Valid opLease then Inl ErrApplyLeaseLost
         else case tk_ApplyOperationID task of
             None \<Rightarrow> Inl (ErrOther ''upsert shard progress requires apply_operation_id'')
           | Some operationID \<Rightarrow>
               if operationID \<noteq> ol_OperationID opLease then Inl (ErrOther ''upsert shard progress targets another operation than the held lease'')
               else if tk_TableName task = [] then Inl (ErrOther ''upsert shard progress requires a table name'')
               else if tk_Shard task = [] then Inl (ErrOther ''upsert shard progress requires a non-empty shard'')
               else (case find (shard_row task) (db_tasks d) of
                   Some t \<Rightarrow> tk_Update now ctx (task\<lparr>tk_ID := tk_ID t\<rparr>) (between d)
                 | None \<Rightarrow> insertShardTaskGuarded now task opLease (between d)))"

subsection \<open>Reads\<close>

definition tk_Create :: "int \<Rightarrow> Task \<Rightarrow> db \<Rightarrow> storage_error + (int \<times> db)" where
  "tk_Create now task d = insertTask now task d"

definition tk_Get :: "string \<Rightarrow> db \<Rightarrow> Task option" where
  "tk_Get taskIdentifier d = find (\<lambda>t. sql_eq (tk_TaskIdentifier t) taskIdentifier) (db_tasks d)"

text \<open>ORDER BY created\_at DESC: the order of tasks of the same second is not defined, except where the query has the id as a tie-breaker.\<close>

definition newest_tasks :: "Task list \<Rightarrow> Task list" where
  "newest_tasks ts = sort_key (\<lambda>t. - tk_CreatedAt t) ts"

definition newest_tasks_by_id :: "Task list \<Rightarrow> Task list" where
  "newest_tasks_by_id ts = sort_key (\<lambda>t. (- tk_CreatedAt t, - tk_ID t)) ts"

definition tk_GetByApplyID :: "int \<Rightarrow> db \<Rightarrow> Task list" where
  "tk_GetByApplyID applyID d = newest_tasks (filter (\<lambda>t. tk_ApplyID t = applyID \<and> tk_Shard t = []) (db_tasks d))"

definition shard_operation_key :: "Task \<Rightarrow> string" where
  "shard_operation_key t = tk_Namespace t @ ''/'' @ tk_Shard t @ ''/'' @ tk_TableName t"

definition GetByApplyOperationID :: "int \<Rightarrow> db \<Rightarrow> Task list" where
  "GetByApplyOperationID applyOperationID d = newest_tasks_by_id (filter (\<lambda>t. tk_ApplyOperationID t = Some applyOperationID
     \<and> list_ex (\<lambda>ao. op_ID ao = applyOperationID \<and> (tk_Shard t = [] \<or>
          (sql_eq (op_OperationKind ao) ApplyOperationKindWork \<and> tk_TableName t \<noteq> [] \<and> sql_eq (op_OperationKey ao) (shard_operation_key t))))
        (db_operations d)) (db_tasks d))"

text \<open>ORDER BY namespace, table\_name, shard is left out: the rows are in table order.\<close>

definition GetShardProgressByApplyOperationID :: "int \<Rightarrow> db \<Rightarrow> Task list" where
  "GetShardProgressByApplyOperationID applyOperationID d =
     filter (\<lambda>t. tk_ApplyOperationID t = Some applyOperationID \<and> tk_Shard t \<noteq> []) (db_tasks d)"

definition tk_GetByDatabase :: "string \<Rightarrow> db \<Rightarrow> Task list" where
  "tk_GetByDatabase database d = newest_tasks_by_id (filter (\<lambda>t. sql_eq (tk_Database t) database) (db_tasks d))"

definition tk_GetActive :: "db \<Rightarrow> Task list" where
  "tk_GetActive d = newest_tasks (filter (\<lambda>t. \<not> sql_in (tk_State t) TerminalTaskStates) (db_tasks d))"

definition tk_GetByPR :: "string \<Rightarrow> int \<Rightarrow> db \<Rightarrow> Task list" where
  "tk_GetByPR repo pr d = newest_tasks (filter (\<lambda>t. sql_eq (tk_Repository t) repo \<and> tk_PullRequest t = pr) (db_tasks d))"

record TaskFilter =
  tf_Repository :: string
  tf_PullRequest :: int
  tf_IncludeCompleted :: bool
  tf_Since :: "int option"

definition tk_List :: "TaskFilter \<Rightarrow> db \<Rightarrow> Task list" where
  "tk_List f d = newest_tasks (filter (\<lambda>t.
     (tf_Repository f \<noteq> [] \<longrightarrow> sql_eq (tk_Repository t) (tf_Repository f) \<and> (tf_PullRequest f > 0 \<longrightarrow> tk_PullRequest t = tf_PullRequest f))
     \<and> (\<not> tf_IncludeCompleted f \<longrightarrow> \<not> sql_in (tk_State t) TerminalTaskStates)
     \<and> (case tf_Since f of None \<Rightarrow> True | Some since \<Rightarrow> (case tk_StartedAt t of None \<Rightarrow> False | Some started \<Rightarrow> since \<le> started))) (db_tasks d))"

subsection \<open>Properties\<close>

lemma write_task_lost:
  assumes "\<And>t. \<not> leasePredicate d t" "verify d = Inl e"
  shows "write_task leasePredicate verify now task d = Inl e"
  using assms by (simp add: write_task_def rows_changed_def update_where_def)

lemma task_update_lost:
  assumes "OperationLeaseFromContext ctx = Some lease" "\<not> operationLeaseOwnsRow (ol_OperationID lease) (ol_Token lease) d"
  shows "tk_Update now ctx task d = Inl ErrApplyLeaseLost"
  using assms by (auto simp: tk_Update_def ensureOperationLeaseStillOwned_def intro!: write_task_lost)

lemma insert_shard_lost:
  "\<not> operationLeaseOwnsRow (ol_OperationID lease) (ol_Token lease) d \<Longrightarrow> insertShardTaskGuarded now task lease d = Inl ErrApplyLeaseLost"
  by (simp add: insertShardTaskGuarded_def ensureOperationLeaseStillOwned_def)

definition sample_task :: "int \<Rightarrow> string \<Rightarrow> string \<Rightarrow> Task" where
  "sample_task i ident shard = \<lparr>tk_ID = i, tk_TaskIdentifier = ident, tk_ApplyID = 1, tk_ApplyOperationID = Some 1, tk_PlanID = 1,
     tk_Database = ''shop'', tk_DatabaseType = ''vitess'', tk_Engine = ''planetscale'', tk_Repository = [], tk_PullRequest = 0,
     tk_Environment = ''prod'', tk_State = Task_Running, tk_ErrorMessage = None, tk_Options = [], tk_Attempt = 0, tk_Namespace = ''ks'',
     tk_TableName = ''t'', tk_Shard = shard, tk_DDL = [], tk_DDLAction = [], tk_RowsCopied = 5, tk_RowsTotal = 10, tk_ProgressPercent = 50,
     tk_ETASeconds = 0, tk_ChecksumRowsChecked = 0, tk_ChecksumRowsTotal = 0, tk_CutoverAttempts = 0, tk_IsInstant = False,
     tk_ReadyToComplete = False, tk_EngineMigrationID = [], tk_CreatedAt = 100, tk_UpdatedAt = 100, tk_StartedAt = None, tk_CompletedAt = None\<rparr>"

text \<open>A displaced driver writes no task: when the operation lease on the context is no longer the one on its row by the time the write runs - whatever
was true at the look-up - a task update is refused with the lost-lease error, and a per-shard progress write is refused too.\<close>

theorem displaced_driver_writes_no_task:
  assumes "OperationLeaseFromContext ctx = Some lease" "\<not> operationLeaseOwnsRow (ol_OperationID lease) (ol_Token lease) (between d)"
  shows "tk_Update now ctx task (between d) = Inl ErrApplyLeaseLost \<and> (\<exists>e. UpsertShardProgress now between ctx task d = Inl e)"
  using task_update_lost [OF assms] insert_shard_lost [OF assms(2)] assms(1)
  by (auto simp: UpsertShardProgress_def split: option.splits)

theorem displaced_driver_writes_no_task_witness:
  "tk_Update 200 (sample_lease 1 ''old'') (sample_task 1 ''x'' ''-80'') (sample_db Apply_Running Apply_Pending) = Inl ErrApplyLeaseLost"
proof -
  let ?d = "sample_db Apply_Running Apply_Pending" and ?l = "\<lparr>ol_ApplyID = 1, ol_OperationID = 1, ol_Owner = ''w'', ol_Token = ''old''\<rparr>"
  have "OperationLeaseFromContext (sample_lease 1 ''old'') = Some ?l" "\<not> operationLeaseOwnsRow (ol_OperationID ?l) (ol_Token ?l) (id ?d)"
    by code_simp+
  from displaced_driver_writes_no_task [where between = id and d = ?d, OF this, of 200 "sample_task 1 ''x'' ''-80''"] show ?thesis by simp
qed

text \<open>One row per shard: the rows of \<open>task\<close>'s operation, table and shard.\<close>

definition shard_rows :: "Task \<Rightarrow> db \<Rightarrow> Task list" where
  "shard_rows task d = filter (shard_row task) (db_tasks d)"

lemma shard_row_updated: "shard_row task (updated_task now task' t) = shard_row task t"
  by (simp add: shard_row_def updated_task_def)

lemma filter_update_where:
  assumes "\<And>t. p (f t) = p t"
  shows "filter p (update_where sel f ts) = update_where sel f (filter p ts)"
  using assms by (induction ts) (auto simp: update_where_def)

text \<open>Per-shard progress is upserted: with the lease still held, and no other writer of the operation's tasks in between, the call leaves exactly one
row for its operation, namespace, table and shard if there was at most one before, and that row has the reported state and
progress; a repeated report updates it in place.\<close>

theorem shard_progress_upserts_one_row:
  assumes run: "UpsertShardProgress now between ctx task d = Inr d'"
    and single: "db_tasks (between d) = db_tasks d" "distinct (map tk_ID (db_tasks d))"
    and one: "length (shard_rows task d) \<le> 1"
  shows "length (shard_rows task d') = 1 \<and> tk_State (hd (shard_rows task d')) = tk_State task
    \<and> tk_RowsCopied (hd (shard_rows task d')) = tk_RowsCopied task \<and> tk_ProgressPercent (hd (shard_rows task d')) = tk_ProgressPercent task"
proof -
  from run obtain lease where lease: "OperationLeaseFromContext ctx = Some lease" "OperationLease_Valid lease"
    "tk_ApplyOperationID task = Some (ol_OperationID lease)"
    by (auto simp: UpsertShardProgress_def split: option.splits if_splits)
  then have owned: "operationLeaseOwnsRow (ol_OperationID lease) (ol_Token lease) (between d)"
    using run task_update_lost [OF lease(1)] insert_shard_lost
    by (force simp: UpsertShardProgress_def split: option.splits if_splits)
  show ?thesis
  proof (cases "find (shard_row task) (db_tasks d)")
    case None
    then have none: "shard_rows task d = []" by (auto simp: find_None_iff shard_rows_def filter_empty_conv)
    have "insertShardTaskGuarded now task lease (between d) = Inr d'"
      using run lease None by (auto simp: UpsertShardProgress_def split: if_splits)
    then obtain i where "insertTask now task (between d) = Inr (i, d')"
      using owned by (auto simp: insertShardTaskGuarded_def bind_result_Inr_iff)
    then have "\<exists>row. db_tasks d' = db_tasks (between d) @ [row] \<and> shard_row task row \<and> tk_State row = tk_State task
        \<and> tk_RowsCopied row = tk_RowsCopied task \<and> tk_ProgressPercent row = tk_ProgressPercent task"
      using lease(3) by (auto simp: insertTask_def Let_def shard_row_def split: if_splits)
    then show ?thesis using none single(1) by (auto simp: shard_rows_def)
  next
    case (Some t)
    then have t: "t \<in> set (db_tasks d)" "shard_row task t" by (auto simp: find_Some_iff)
    then have "t \<in> set (shard_rows task d)" by (simp add: shard_rows_def)
    with one have rows: "shard_rows task d = [t]" by (cases "shard_rows task d") auto
    let ?sel = "\<lambda>x. tk_ID x = tk_ID t \<and> tk_ApplyOperationID x = Some (ol_OperationID lease)
        \<and> operationLeaseOwnsRow (ol_OperationID lease) (ol_Token lease) (between d)"
    let ?f = "updated_task now (task\<lparr>tk_ID := tk_ID t\<rparr>)"
    have "tk_Update now ctx (task\<lparr>tk_ID := tk_ID t\<rparr>) (between d) = Inr d'"
      using run lease Some by (auto simp: UpsertShardProgress_def split: if_splits)
    then have "db_tasks d' = update_where ?sel ?f (db_tasks d)"
      using lease single(1) by (auto simp: tk_Update_def write_task_def Let_def bind_result_Inr_iff split: if_splits)
    then have "shard_rows task d' = update_where ?sel ?f [t]"
      using rows filter_update_where [of "shard_row task" ?f ?sel "db_tasks d"] shard_row_updated by (simp add: shard_rows_def)
    moreover have "?sel t" using t(2) lease(3) owned by (simp add: shard_row_def)
    ultimately show ?thesis by (simp add: update_where_def updated_task_def)
  qed
qed

theorem shard_progress_upserts_one_row_witness:
  "length (shard_rows (sample_task 0 ''x'' ''-80'') (projr (UpsertShardProgress 200 id (sample_lease 1 ''t1'') (sample_task 0 ''x'' ''-80'')
     (sample_db Apply_Running Apply_Pending)))) = 1"
proof -
  let ?d = "sample_db Apply_Running Apply_Pending" and ?t = "sample_task 0 ''x'' ''-80''"
  define d' where "d' = projr (UpsertShardProgress 200 id (sample_lease 1 ''t1'') ?t ?d)"
  have "isl (UpsertShardProgress 200 id (sample_lease 1 ''t1'') ?t ?d) = False" by code_simp
  then have run: "UpsertShardProgress 200 id (sample_lease 1 ''t1'') ?t ?d = Inr d'"
    unfolding d'_def by (cases "UpsertShardProgress 200 id (sample_lease 1 ''t1'') ?t ?d") simp_all
  have "db_tasks (id ?d) = db_tasks ?d" "distinct (map tk_ID (db_tasks ?d))" "length (shard_rows ?t ?d) \<le> 1" by code_simp+
  from shard_progress_upserts_one_row [OF run this] show ?thesis unfolding d'_def by blast
qed

text \<open>A task of another operation: under a current operation lease the update writes nothing and reports success.\<close>

lemma update_of_other_operations_task_is_silent:
  assumes "OperationLeaseFromContext ctx = Some lease" "OperationLease_Valid lease"
    "operationLeaseOwnsRow (ol_OperationID lease) (ol_Token lease) d"
    "\<And>t. t \<in> set (db_tasks d) \<Longrightarrow> tk_ID t = tk_ID task \<Longrightarrow> tk_ApplyOperationID t \<noteq> Some (ol_OperationID lease)"
  shows "tk_Update now ctx task d = Inr d"
proof -
  let ?sel = "\<lambda>t. tk_ID t = tk_ID task \<and> tk_ApplyOperationID t = Some (ol_OperationID lease) \<and> operationLeaseOwnsRow (ol_OperationID lease) (ol_Token lease) d"
  have "update_where ?sel f (db_tasks d) = db_tasks d" "rows_changed ?sel f (db_tasks d) = 0" for f
    using assms(4) by (auto intro!: update_where_none rows_changed_none)
  then show ?thesis using assms by (simp add: tk_Update_def write_task_def ensureOperationLeaseStillOwned_def)
qed

end
