(* ===== verification/SB_Operator.thy ===== *)
theory SB_Operator
  imports SB_Task_Store
begin

section \<open>The operator: driving claimed operations (pkg/api/operator.go)\<close>

text \<open>
  The handlers of the scheduling loop. Each is a sequence of storage calls, so other drivers run between them: \<open>oth k\<close> is what they
  committed just before the handler's \<open>k\<close>-th call (numbered within each handler). The drive itself - the routing client's
  ResumeApply, ResumeApplyOperation and ResumeApplyOperationCutover, which run the engine - is the parameter \<open>oe_engine\<close>; so are the plan store (what
  the handlers ask of a plan), the clock, and the callback that publishes a terminal summary. Storage calls here fail only as the store's model does
  (lost leases, missing rows). Logging, metrics and the heartbeat goroutine, which only refreshes the lease, are left out.
\<close>

datatype drive_outcome = Drive_Resumed | Drive_NoTasks | Drive_Error

text \<open>What the handlers ask of a plan: the numbers of flat DDL changes and of namespaces with a VSchema finalizer.\<close>

record plan_view =
  pv_ddl_changes :: nat
  pv_vschema_namespaces :: nat

record operator_env =
  oe_now :: int
  oe_clock :: int
  oe_plans :: "int \<Rightarrow> plan_view option"
  oe_engine :: "call_ctx \<Rightarrow> Apply \<Rightarrow> int \<Rightarrow> bool \<Rightarrow> db \<Rightarrow> drive_outcome \<times> db"
  oe_summary :: "(Apply \<Rightarrow> Task list \<Rightarrow> bool) option"

record op_world =
  ow_db :: db
  ow_summaries :: "int list"

type_synonym others = "nat \<Rightarrow> db \<Rightarrow> db"

definition later_calls :: "nat \<Rightarrow> others \<Rightarrow> others" where
  "later_calls k oth = (\<lambda>n. oth (n + k))"

definition oc_read :: "others \<Rightarrow> nat \<Rightarrow> (db \<Rightarrow> 'a) \<Rightarrow> op_world \<Rightarrow> 'a \<times> op_world" where
  "oc_read oth k f w = (let d = oth k (ow_db w) in (f d, w\<lparr>ow_db := d\<rparr>))"

definition oc_write :: "others \<Rightarrow> nat \<Rightarrow> (db \<Rightarrow> storage_error + ('a \<times> db)) \<Rightarrow> op_world \<Rightarrow> (storage_error + 'a) \<times> op_world" where
  "oc_write oth k f w = (let d = oth k (ow_db w) in case f d of Inl e \<Rightarrow> (Inl e, w\<lparr>ow_db := d\<rparr>) | Inr (a, d') \<Rightarrow> (Inr a, w\<lparr>ow_db := d'\<rparr>))"

definition no_value :: "(db \<Rightarrow> storage_error + db) \<Rightarrow> db \<Rightarrow> storage_error + (unit \<times> db)" where
  "no_value f d = bind_result (f d) (\<lambda>d'. Inr ((), d'))"

subsection \<open>Recording an operation's own outcome\<close>

definition persistOperationState :: "others \<Rightarrow> operator_env \<Rightarrow> call_ctx \<Rightarrow> ApplyOperation \<Rightarrow> string \<Rightarrow> string \<Rightarrow> op_world
    \<Rightarrow> (storage_error + bool) \<times> op_world" where
  "persistOperationState oth env ctx op derived errorMessage w =
     (let now = oe_now env;
          mark = (\<lambda>f. case oc_write oth 0 (no_value f) w of (Inl e, w') \<Rightarrow> (Inl e, w') | (Inr _, w') \<Rightarrow> (Inr True, w')) in
      if IsState derived [Apply_Completed] then mark (MarkCompleted now ctx (op_ID op))
      else if IsState derived [Apply_Failed] then mark (MarkFailed now ctx (op_ID op) errorMessage)
      else if IsState derived [Apply_Stopped] then mark (UpdateState now ctx (op_ID op) derived)
      else if IsState derived [Apply_FailedRetryable] then mark (UpdateState now ctx (op_ID op) derived)
      else if IsState derived [Apply_WaitingForCutover] then mark (UpdateState now ctx (op_ID op) derived)
      else if IsTerminalApplyState derived then mark (MarkTerminal now ctx (op_ID op) derived)
      else (Inr False, w))"

definition markOperationFromApplyState :: "others \<Rightarrow> operator_env \<Rightarrow> call_ctx \<Rightarrow> ApplyOperation \<Rightarrow> Apply \<Rightarrow> op_world
    \<Rightarrow> (storage_error + bool) \<times> op_world" where
  "markOperationFromApplyState oth env ctx op a w = persistOperationState oth env ctx op (ap_State a) (null_text (ap_ErrorMessage a)) w"

definition firstFailedTaskError :: "Task list \<Rightarrow> string" where
  "firstFailedTaskError tasks = (case find (\<lambda>t. IsState (tk_State t) [Task_Failed] \<and> null_text (tk_ErrorMessage t) \<noteq> []) tasks of
     Some t \<Rightarrow> null_text (tk_ErrorMessage t) | None \<Rightarrow> [])"

definition firstFailedOperationMessage :: "ApplyOperation list \<Rightarrow> string" where
  "firstFailedOperationMessage ops = (case find (\<lambda>op. IsState (op_State op) [Apply_Failed] \<and> null_text (op_ErrorMessage op) \<noteq> []) ops of
     Some op \<Rightarrow> ''deployment '' @ op_Deployment op @ '' failed: '' @ null_text (op_ErrorMessage op) | None \<Rightarrow> [])"

definition derive_own_state :: "others \<Rightarrow> operator_env \<Rightarrow> call_ctx \<Rightarrow> ApplyOperation \<Rightarrow> Task list \<Rightarrow> op_world
    \<Rightarrow> (storage_error + bool) \<times> op_world" where
  "derive_own_state oth env ctx op tasks w =
     persistOperationState (later_calls 3 oth) env ctx op (DeriveApplyState (map tk_State tasks)) (firstFailedTaskError tasks) w"

definition markOperationFromOwnResult :: "others \<Rightarrow> operator_env \<Rightarrow> call_ctx \<Rightarrow> ApplyOperation \<Rightarrow> op_world
    \<Rightarrow> (storage_error + bool) \<times> op_world" where
  "markOperationFromOwnResult oth env ctx op w =
     (if op_OperationKind op = ApplyOperationKindGroupFinalizer then (Inr True, w)
      else case oc_read oth 0 (GetByApplyOperationID (op_ID op)) w of (tasks, w1) \<Rightarrow>
        if tasks = [] then
          (case oc_read oth 1 (ap_Get (op_ApplyID op)) w1 of
             (None, w2) \<Rightarrow> (Inl (ErrOther ''parent apply not found for task-less apply_operation''), w2)
           | (Some a, w2) \<Rightarrow>
               (case oe_plans env (ap_PlanID a) of
                  Some plan \<Rightarrow>
                    if op_OperationKind op = ApplyOperationKindWork \<and> op_OperationKey op = [] \<and> pv_ddl_changes plan = 0
                       \<and> pv_vschema_namespaces plan > 0 then
                      (case oc_read oth 2 (op_Get (op_ID op)) w2 of (currentOp, w3) \<Rightarrow>
                         if (case currentOp of Some r \<Rightarrow> IsState (op_State r) [Apply_Completed] | None \<Rightarrow> False) then (Inr True, w3)
                         else persistOperationState (later_calls 3 oth) env ctx op (ap_State a) (null_text (ap_ErrorMessage a)) w3)
                    else derive_own_state oth env ctx op tasks w2
                | None \<Rightarrow> derive_own_state oth env ctx op tasks w2))
        else derive_own_state oth env ctx op tasks w1)"

subsection \<open>The projection of the parent\<close>

record applyProjectionResult =
  Swapped :: bool
  PreviousState :: string
  DerivedState :: string
  BecameTerminal :: bool
  OperationCount :: nat

text \<open>\<open>True\<close> is allowLeaseScopedFailedReopen.\<close>

type_synonym failedApplyReopenPolicy = bool

definition reopensContinuableFailedRollout :: "failedApplyReopenPolicy \<Rightarrow> Apply \<Rightarrow> string \<Rightarrow> string \<Rightarrow> bool" where
  "reopensContinuableFailedRollout reopen a base derived \<longleftrightarrow> reopen \<and> IsState (ap_State a) [Apply_Failed] \<and> IsState base [Apply_Failed]
     \<and> IsState derived [Apply_RunningDegraded]"

definition rollout_children :: "ApplyOperation list \<Rightarrow> RolloutChild list" where
  "rollout_children ops = map (\<lambda>op. \<lparr>Child_State = op_State op, ContinueOnFailure = (op_OnFailure op = OnFailureContinue), PauseOnFailure = False\<rparr>) ops"

definition projected_completion :: "operator_env \<Rightarrow> Apply \<Rightarrow> string \<Rightarrow> int option" where
  "projected_completion env a derived =
     (if IsState derived [Apply_Stopped] then None
      else if IsTerminalApplyState derived then (case ap_CompletedAt a of Some t \<Rightarrow> Some t | None \<Rightarrow> Some (oe_clock env))
      else None)"

definition projected_message :: "Apply \<Rightarrow> string \<Rightarrow> ApplyOperation list \<Rightarrow> string" where
  "projected_message a derived ops =
     (let msg = firstFailedOperationMessage ops in
      if IsState derived [Apply_Failed] \<and> msg \<noteq> [] then msg else null_text (ap_ErrorMessage a))"

definition updateApplyStateFromOperations :: "others \<Rightarrow> operator_env \<Rightarrow> call_ctx \<Rightarrow> Apply \<Rightarrow> failedApplyReopenPolicy \<Rightarrow> op_world
    \<Rightarrow> (storage_error + applyProjectionResult) \<times> op_world" where
  "updateApplyStateFromOperations oth env ctx a reopen w =
     (case oc_read oth 0 (ListByApply (ap_ID a)) w of (ops, w1) \<Rightarrow>
      if ops = [] then (Inl (ErrOther ''no apply_operations rows''), w1)
      else
        let base = DeriveApplyState (map op_State ops);
            derived = DeriveRolloutApplyState (rollout_children ops);
            startedAt = (if ap_StartedAt a = None \<and> \<not> IsState derived [Apply_Pending] then Some (oe_clock env) else None);
            result = (\<lambda>swapped. \<lparr>Swapped = swapped, PreviousState = ap_State a, DerivedState = derived,
               BecameTerminal = (swapped \<and> \<not> IsTerminalApplyState (ap_State a) \<and> IsTerminalApplyState derived), OperationCount = length ops\<rparr>) in
        if IsTerminalApplyState (ap_State a) \<and> \<not> IsTerminalApplyState derived \<and> \<not> reopensContinuableFailedRollout reopen a base derived
        then (Inl (ErrOther ''child operations derive non-terminal state from terminal parent''), w1)
        else if IsState (ap_State a) [derived] \<and> startedAt = None then (Inr (result False), w1)
        else (case oc_write oth 1 (UpdateDerivedState (oe_now env) ctx (ap_ID a) (ap_State a) derived (projected_message a derived ops) startedAt
                 (projected_completion env a derived)) w1 of
            (Inl e, w2) \<Rightarrow> (Inl e, w2)
          | (Inr swapped, w2) \<Rightarrow> (Inr (result swapped), w2)))"

text \<open>The summary of a multi-operation apply, published by the projection that made it terminal.\<close>

definition publishTerminalSummaryIfWon :: "others \<Rightarrow> operator_env \<Rightarrow> Apply \<Rightarrow> applyProjectionResult \<Rightarrow> op_world \<Rightarrow> op_world" where
  "publishTerminalSummaryIfWon oth env a result w =
     (if \<not> BecameTerminal result \<or> OperationCount result \<le> 1 then w
      else case oe_summary env of
          None \<Rightarrow> w
        | Some publish \<Rightarrow> (case oc_read oth 0 (ap_Get (ap_ID a)) w of
              (None, w1) \<Rightarrow> w1
            | (Some terminalApply, w1) \<Rightarrow>
                if \<not> IsTerminalApplyState (ap_State terminalApply) then w1
                else (case oc_read oth 1 (tk_GetByApplyID (ap_ID terminalApply)) w1 of (tasks, w2) \<Rightarrow>
                  if publish terminalApply tasks then w2\<lparr>ow_summaries := ow_summaries w2 @ [ap_ID terminalApply]\<rparr> else w2)))"

subsection \<open>Stop requests\<close>

definition markPendingOperationsStopped :: "others \<Rightarrow> operator_env \<Rightarrow> call_ctx \<Rightarrow> Apply \<Rightarrow> op_world \<Rightarrow> (storage_error + unit) \<times> op_world" where
  "markPendingOperationsStopped oth env ctx a w =
     (case oc_write oth 0 (MarkPendingStoppedByApply (oe_now env) ctx (ap_ID a)) w of (Inl e, w1) \<Rightarrow> (Inl e, w1) | (Inr _, w1) \<Rightarrow> (Inr (), w1))"

definition stopPendingOperationsForPendingStop :: "others \<Rightarrow> operator_env \<Rightarrow> call_ctx \<Rightarrow> Apply \<Rightarrow> op_world \<Rightarrow> (storage_error + unit) \<times> op_world" where
  "stopPendingOperationsForPendingStop oth env ctx a w =
     (case oc_read oth 0 (GetPending (ap_ID a) ControlOperationStop) w of
        (None, w1) \<Rightarrow> (Inr (), w1)
      | (Some _, w1) \<Rightarrow> markPendingOperationsStopped (later_calls 1 oth) env ctx a w1)"

definition completePendingStopIfApplyResolved :: "others \<Rightarrow> operator_env \<Rightarrow> call_ctx \<Rightarrow> int \<Rightarrow> op_world \<Rightarrow> (storage_error + unit) \<times> op_world" where
  "completePendingStopIfApplyResolved oth env ctx applyID w =
     (case oc_read oth 0 (ap_Get applyID) w of
        (None, w1) \<Rightarrow> (Inl ErrApplyNotFound, w1)
      | (Some a, w1) \<Rightarrow>
          if \<not> IsTerminalApplyState (ap_State a) then (Inr (), w1)
          else (case oc_read oth 1 (GetPending (ap_ID a) ControlOperationStop) w1 of
              (None, w2) \<Rightarrow> (Inr (), w2)
            | (Some _, w2) \<Rightarrow> oc_write oth 2 (no_value (CompletePending (oe_now env) ctx (ap_ID a) ControlOperationStop)) w2))"

subsection \<open>Handlers\<close>

definition reconcileClaimedOperationFromTerminalParent :: "others \<Rightarrow> operator_env \<Rightarrow> call_ctx \<Rightarrow> ApplyOperation \<Rightarrow> Apply \<Rightarrow> op_world \<Rightarrow> op_world" where
  "reconcileClaimedOperationFromTerminalParent oth env ctx op parent w =
     (case markOperationFromApplyState oth env ctx op parent w of
        (Inl _, w1) \<Rightarrow> w1
      | (Inr marked, w1) \<Rightarrow> if \<not> marked then w1 else snd (updateApplyStateFromOperations (later_calls 1 oth) env ctx parent False w1))"

definition reconcileUnclaimableParent :: "others \<Rightarrow> operator_env \<Rightarrow> call_ctx \<Rightarrow> ApplyOperation \<Rightarrow> op_world \<Rightarrow> op_world" where
  "reconcileUnclaimableParent oth env ctx op w =
     (case oc_read oth 0 (ap_Get (op_ApplyID op)) w of
        (None, w1) \<Rightarrow> w1
      | (Some parent, w1) \<Rightarrow> if IsTerminalApplyState (ap_State parent)
          then reconcileClaimedOperationFromTerminalParent (later_calls 1 oth) env ctx op parent w1 else w1)"

definition failOperationWithoutTasks :: "others \<Rightarrow> operator_env \<Rightarrow> call_ctx \<Rightarrow> call_ctx \<Rightarrow> ApplyOperation \<Rightarrow> Apply \<Rightarrow> op_world \<Rightarrow> op_world" where
  "failOperationWithoutTasks oth env opCtx applyCtx op a w =
     (case oc_write oth 0 (no_value (MarkFailed (oe_now env) opCtx (op_ID op) ''operation has no tasks; invalid or stale claim'')) w of
        (Inl _, w1) \<Rightarrow> w1
      | (Inr _, w1) \<Rightarrow> (case updateApplyStateFromOperations (later_calls 1 oth) env applyCtx a True w1 of
            (Inl _, w2) \<Rightarrow> w2
          | (Inr result, w2) \<Rightarrow> publishTerminalSummaryIfWon (later_calls 3 oth) env a result w2))"

text \<open>The drive, with the database as the engine left it.\<close>

definition run_engine :: "others \<Rightarrow> nat \<Rightarrow> operator_env \<Rightarrow> call_ctx \<Rightarrow> Apply \<Rightarrow> int \<Rightarrow> bool \<Rightarrow> op_world \<Rightarrow> drive_outcome \<times> op_world" where
  "run_engine oth k env ctx a operationID cutover w =
     (case oe_engine env ctx a operationID cutover (oth k (ow_db w)) of (outcome, d) \<Rightarrow> (outcome, w\<lparr>ow_db := d\<rparr>))"

text \<open>After the drive: stop the pending siblings of a pending stop, re-derive the parent, complete the stop.\<close>

definition settle_after_drive :: "others \<Rightarrow> operator_env \<Rightarrow> call_ctx \<Rightarrow> Apply \<Rightarrow> bool \<Rightarrow> op_world \<Rightarrow> op_world" where
  "settle_after_drive oth env ctx a publish w =
     (case stopPendingOperationsForPendingStop oth env ctx a w of
        (Inl _, w1) \<Rightarrow> w1
      | (Inr _, w1) \<Rightarrow> (case oc_read oth 2 (ap_Get (ap_ID a)) w1 of
            (None, w2) \<Rightarrow> w2
          | (Some finalApply, w2) \<Rightarrow> (case updateApplyStateFromOperations (later_calls 3 oth) env ctx finalApply True w2 of
                (Inl _, w3) \<Rightarrow> w3
              | (Inr result, w3) \<Rightarrow>
                  (let w4 = (if publish then publishTerminalSummaryIfWon (later_calls 5 oth) env finalApply result w3 else w3) in
                   snd (completePendingStopIfApplyResolved (later_calls 7 oth) env ctx (ap_ID finalApply) w4)))))"

definition driveClaimedMultiOperation :: "others \<Rightarrow> operator_env \<Rightarrow> ApplyOperation \<Rightarrow> OperationLease \<Rightarrow> bool \<Rightarrow> op_world \<Rightarrow> op_world" where
  "driveClaimedMultiOperation oth env op opLease cutover w =
     (let ctx = WithOperationLease background opLease in
      case oc_read oth 0 (ap_Get (op_ApplyID op)) w of
        (None, w1) \<Rightarrow> w1
      | (Some a, w1) \<Rightarrow>
          if IsTerminalApplyState (ap_State a) then reconcileClaimedOperationFromTerminalParent (later_calls 1 oth) env ctx op a w1
          else if op_Deployment op = [] then w1
          else (case updateApplyStateFromOperations (later_calls 1 oth) env ctx a True w1 of
              (Inl _, w2) \<Rightarrow> w2
            | (Inr _, w2) \<Rightarrow> (case run_engine oth 3 env ctx a (op_ID op) cutover w2 of (outcome, w3) \<Rightarrow>
                if outcome = Drive_NoTasks then
                  (case oc_read oth 4 (ap_Get (ap_ID a)) w3 of (reloaded, w4) \<Rightarrow>
                     failOperationWithoutTasks (later_calls 5 oth) env ctx ctx op (case reloaded of Some r \<Rightarrow> r | None \<Rightarrow> a) w4)
                else (case markOperationFromOwnResult (later_calls 4 oth) env ctx op w3 of
                    (Inl _, w4) \<Rightarrow> w4
                  | (Inr marked, w4) \<Rightarrow> if \<not> marked then w4 else settle_after_drive (later_calls 8 oth) env ctx a True w4))))"

definition recoverMultiApplyOperation :: "others \<Rightarrow> operator_env \<Rightarrow> ApplyOperation \<Rightarrow> OperationLease \<Rightarrow> op_world \<Rightarrow> op_world" where
  "recoverMultiApplyOperation oth env op opLease w = driveClaimedMultiOperation oth env op opLease False w"

text \<open>
  What a claim call depends on: the rows other transactions hold locked, what commits between its SELECT and its UPDATE, and the token it generates.
\<close>

record claim_env =
  cl_locked :: "int list"
  cl_between :: "db \<Rightarrow> db"
  cl_token :: string

definition recoverSingleApplyOperation :: "others \<Rightarrow> operator_env \<Rightarrow> claim_env \<Rightarrow> string \<Rightarrow> ApplyOperation \<Rightarrow> OperationLease \<Rightarrow> op_world \<Rightarrow> op_world" where
  "recoverSingleApplyOperation oth env cl owner op opLease w =
     (case oc_write oth 0 (ClaimApplyByID (oe_now env) (oe_clock env) (cl_locked cl) (cl_between cl) (cl_token cl) (op_ApplyID op) owner) w of
        (Inl _, w1) \<Rightarrow> w1
      | (Inr None, w1) \<Rightarrow> reconcileUnclaimableParent (later_calls 1 oth) env background op w1
      | (Inr (Some a), w1) \<Rightarrow>
          if \<not> ApplyLease_Valid (Apply_Lease (Some a)) then w1
          else if op_Deployment op = [] then w1
          else (let applyCtx = WithApplyLease background (Apply_Lease (Some a));
                    opCtx = WithOperationLease background opLease;
                    dualCtx = WithOperationLease applyCtx opLease in
            case run_engine oth 1 env dualCtx a (op_ID op) False w1 of
              (Drive_NoTasks, w2) \<Rightarrow> failOperationWithoutTasks (later_calls 2 oth) env opCtx applyCtx op a w2
            | (Drive_Error, w2) \<Rightarrow> w2
            | (Drive_Resumed, w2) \<Rightarrow> (case markOperationFromOwnResult (later_calls 2 oth) env opCtx op w2 of
                  (Inl _, w3) \<Rightarrow> w3
                | (Inr marked, w3) \<Rightarrow> if \<not> marked then w3 else settle_after_drive (later_calls 6 oth) env applyCtx a False w3)))"

definition operationSetContainsID :: "ApplyOperation list \<Rightarrow> int \<Rightarrow> bool" where
  "operationSetContainsID ops i \<longleftrightarrow> list_ex (\<lambda>op. op_ID op = i) ops"

definition claimedOperationHasTasks :: "ApplyOperation \<Rightarrow> db \<Rightarrow> bool" where
  "claimedOperationHasTasks op d \<longleftrightarrow> GetByApplyOperationID (op_ID op) d \<noteq> []"

definition recoverApplyOperation :: "others \<Rightarrow> operator_env \<Rightarrow> claim_env \<Rightarrow> claim_env \<Rightarrow> string \<Rightarrow> op_world \<Rightarrow> op_world" where
  "recoverApplyOperation oth env cl parentClaim owner w =
     (case oc_write oth 0 (FindNextApplyOperation (oe_now env) (oe_clock env) (cl_locked cl) (cl_between cl) (cl_token cl) owner) w of
        (Inl _, w1) \<Rightarrow> w1
      | (Inr None, w1) \<Rightarrow> w1
      | (Inr (Some op), w1) \<Rightarrow>
          (let opLease = ApplyOperation_Lease (Some op) in
           if \<not> OperationLease_Valid opLease then w1
           else case oc_read oth 1 (ListByApply (op_ApplyID op)) w1 of (ops, w2) \<Rightarrow>
             if \<not> operationSetContainsID ops (op_ID op) then w2
             else if length ops > 1 then recoverMultiApplyOperation (later_calls 2 oth) env op opLease w2
             else (case oc_read oth 2 (claimedOperationHasTasks op) w2 of (hasTasks, w3) \<Rightarrow>
                 if \<not> hasTasks then driveClaimedMultiOperation (later_calls 3 oth) env op opLease False w3
                 else recoverSingleApplyOperation (later_calls 3 oth) env parentClaim owner op opLease w3)))"

definition recoverApplyOperationCutover :: "others \<Rightarrow> operator_env \<Rightarrow> claim_env \<Rightarrow> string \<Rightarrow> op_world \<Rightarrow> bool \<times> op_world" where
  "recoverApplyOperationCutover oth env cl owner w =
     (case oc_write oth 0 (FindNextApplyOperationCutover (oe_now env) (oe_clock env) (cl_locked cl) (cl_between cl) (cl_token cl) owner) w of
        (Inl _, w1) \<Rightarrow> (True, w1)
      | (Inr None, w1) \<Rightarrow> (False, w1)
      | (Inr (Some op), w1) \<Rightarrow>
          (let opLease = ApplyOperation_Lease (Some op) in
           if \<not> OperationLease_Valid opLease then (True, w1)
           else case oc_read oth 1 (ListByApply (op_ApplyID op)) w1 of (ops, w2) \<Rightarrow>
             if length ops \<le> 1 \<or> \<not> operationSetContainsID ops (op_ID op) then (True, w2)
             else (True, driveClaimedMultiOperation (later_calls 2 oth) env op opLease True w2)))"

definition recoverApplyPendingStop :: "others \<Rightarrow> operator_env \<Rightarrow> claim_env \<Rightarrow> string \<Rightarrow> op_world \<Rightarrow> bool \<times> op_world" where
  "recoverApplyPendingStop oth env cl owner w =
     (case oc_write oth 0 (FindNextApplyForStopReconciliation (oe_now env) (oe_clock env) (cl_locked cl) (cl_between cl) (cl_token cl) owner) w of
        (Inl _, w1) \<Rightarrow> (True, w1)
      | (Inr None, w1) \<Rightarrow> (False, w1)
      | (Inr (Some a), w1) \<Rightarrow>
          (let lease = Apply_Lease (Some a); ctx = WithApplyLease background lease in
           if \<not> ApplyLease_Valid lease then (True, w1)
           else if ap_Deployment a = [] then (True, w1)
           else case run_engine oth 1 env ctx a 0 False w1 of
             (outcome, w2) \<Rightarrow>
               if outcome \<noteq> Drive_Resumed then (True, w2)
               else (case markPendingOperationsStopped (later_calls 2 oth) env ctx a w2 of
                   (Inl _, w3) \<Rightarrow> (True, w3)
                 | (Inr _, w3) \<Rightarrow> (case oc_read oth 3 (ap_Get (ap_ID a)) w3 of
                       (None, w4) \<Rightarrow> (True, w4)
                     | (Some finalApply, w4) \<Rightarrow> (case updateApplyStateFromOperations (later_calls 4 oth) env ctx finalApply True w4 of
                           (Inl _, w5) \<Rightarrow> (True, w5)
                         | (Inr result, w5) \<Rightarrow>
                             (let w6 = publishTerminalSummaryIfWon (later_calls 6 oth) env finalApply result w5 in
                              (True, snd (completePendingStopIfApplyResolved (later_calls 8 oth) env ctx (ap_ID finalApply) w6))))))))"

text \<open>One round of the scheduling loop.\<close>

definition recoverApplies :: "bool \<Rightarrow> others \<Rightarrow> operator_env \<Rightarrow> claim_env \<Rightarrow> claim_env \<Rightarrow> claim_env \<Rightarrow> claim_env \<Rightarrow> string \<Rightarrow> op_world \<Rightarrow> op_world" where
  "recoverApplies shouldClaimOperations oth env cs cc co cp owner w =
     (case oc_write oth 0 (\<lambda>d. Inr (ExpireRetryable (oe_now env) (oe_clock env) d)) w of (_, w1) \<Rightarrow>
      if shouldClaimOperations then
        (case recoverApplyPendingStop (later_calls 1 oth) env cs owner w1 of
           (True, w2) \<Rightarrow> w2
         | (False, w2) \<Rightarrow> (case recoverApplyOperationCutover (later_calls 20 oth) env cc owner w2 of
               (True, w3) \<Rightarrow> w3
             | (False, w3) \<Rightarrow> recoverApplyOperation (later_calls 40 oth) env co cp owner w3))
      else (case oc_write oth 1 (FindNextApply (oe_now env) (oe_clock env) (cl_locked cp) (cl_between cp) (cl_token cp) owner) w1 of
          (Inr (Some a), w2) \<Rightarrow>
            if \<not> ApplyLease_Valid (Apply_Lease (Some a)) then w2
            else if ap_Deployment a = [] then w2
            else snd (run_engine oth 2 env (WithApplyLease background (Apply_Lease (Some a))) a 0 False w2)
        | (_, w2) \<Rightarrow> w2))"

subsection \<open>What a projection writes\<close>

lemma terminal_NormalizeState: "NormalizeState s = NormalizeState t \<Longrightarrow> IsTerminalApplyState s = IsTerminalApplyState t"
  by (simp add: IsTerminalApplyState_def)

lemma sql_eq_terminal: "sql_eq s st \<Longrightarrow> st \<in> set Apply_states \<Longrightarrow> IsTerminalApplyState s = IsTerminalApplyState st"
  by (rule terminal_NormalizeState) (simp add: sql_eq_NormalizeState)

lemma derived_row_columns [simp]:
  "ap_ID (derived_row now st msg s c a) = ap_ID a" "ap_State (derived_row now st msg s c a) = st"
  by (simp_all add: derived_row_def)

lemma ap_Get_SomeD: "ap_Get i d = Some a \<Longrightarrow> a \<in> set (db_applies d) \<and> ap_ID a = i"
  by (auto simp: ap_Get_def find_Some_iff)

lemma UpdateDerivedState_cases:
  assumes "UpdateDerivedState now ctx i old new msg startedAt completedAt d = Inr (swapped, d')"
  obtains (written) b b' where "swapped" "b \<in> set (db_applies d)" "ap_ID b = i" "sql_eq (ap_State b) old"
      "b' \<in> set (db_applies d')" "ap_ID b' = i" "ap_State b' = new"
      "\<And>r. r \<in> set (db_applies d) \<Longrightarrow> \<exists>r' \<in> set (db_applies d'). ap_ID r' = ap_ID r
         \<and> (r' = r \<or> sql_eq (ap_State r) old \<and> ap_State r' = new)"
  | (confirmed) a where "d' = d" "swapped" "IsState new [old]" "a \<in> set (db_applies d)" "ap_ID a = i" "IsState (ap_State a) [old]"
  | (lost) "d' = d" "\<not> swapped"
proof -
  from assms obtain guard where g: "derivedStateGuardForContext ctx i = Inr guard"
    by (auto simp: UpdateDerivedState_def bind_result_Inr_iff)
  define sel where "sel = (\<lambda>a. ap_ID a = i \<and> sql_eq (ap_State a) old \<and> derived_predicate guard i d a)"
  define f where "f = derived_row now new msg startedAt completedAt"
  note run = assms [unfolded UpdateDerivedState_def g Let_def, folded sel_def f_def]
  show thesis
  proof (cases "rows_changed sel f (db_applies d) > 0")
    case True
    with assms g have d': "swapped" "d' = d\<lparr>db_applies := update_where sel f (db_applies d)\<rparr>"
      by (auto simp: UpdateDerivedState_def Let_def sel_def f_def)
    from True obtain b where b: "b \<in> set (db_applies d)" "sel b" by (auto simp: rows_changed_pos_iff)
    have "\<exists>r' \<in> set (db_applies d'). ap_ID r' = ap_ID r \<and> (r' = r \<or> sql_eq (ap_State r) old \<and> ap_State r' = new)"
      if "r \<in> set (db_applies d)" for r
    proof (cases "sel r")
      case True
      with that show ?thesis by (intro bexI [of _ "f r"]) (auto simp: d' sel_def f_def intro: update_where_hit)
    next
      case False
      with that show ?thesis by (intro bexI [of _ r]) (auto simp: d' set_update_where image_iff)
    qed
    moreover have "f b \<in> set (db_applies d')" using b by (simp add: d' update_where_hit)
    ultimately show thesis using d'(1) b by (intro written [of b "f b"]) (auto simp: sel_def f_def)
  next
    case False
    then have "d\<lparr>db_applies := update_where sel f (db_applies d)\<rparr> = d" by (simp add: update_where_no_change)
    with assms g False show thesis
      by (auto simp del: IsState_one simp: UpdateDerivedState_def Let_def bind_result_Inr_iff sel_def f_def split: if_splits option.splits
          intro: lost confirmed dest!: ap_Get_SomeD)
  qed
qed

lemma projection_step:
  assumes u: "updateApplyStateFromOperations oth env ctx a reopen w = (res, w')"
    and d0: "d0 = oth 0 (ow_db w)" and ops: "ops = ListByApply (ap_ID a) d0"
    and derived: "derived = DeriveRolloutApplyState (rollout_children ops)"
  obtains (untouched) "ow_db w' = d0" "ow_summaries w' = ow_summaries w" "\<And>result. res = Inr result \<Longrightarrow> \<not> Swapped result \<and> \<not> BecameTerminal result"
  | (refused) e where "res = Inl e" "ow_db w' = oth 1 d0" "ow_summaries w' = ow_summaries w"
  | (cas) startedAt result where
      "UpdateDerivedState (oe_now env) ctx (ap_ID a) (ap_State a) derived (projected_message a derived ops) startedAt (projected_completion env a derived)
         (oth 1 d0) = Inr (Swapped result, ow_db w')"
      "res = Inr result" "ow_summaries w' = ow_summaries w" "DerivedState result = derived" "PreviousState result = ap_State a"
      "BecameTerminal result \<longleftrightarrow> Swapped result \<and> \<not> IsTerminalApplyState (ap_State a) \<and> IsTerminalApplyState derived"
      "IsTerminalApplyState (ap_State a) \<Longrightarrow> \<not> IsTerminalApplyState derived \<Longrightarrow>
         reopen \<and> IsState (ap_State a) [Apply_Failed] \<and> IsState derived [Apply_RunningDegraded]"
proof -
  let ?base = "DeriveApplyState (map op_State ops)"
  let ?started = "if ap_StartedAt a = None \<and> \<not> IsState derived [Apply_Pending] then Some (oe_clock env) else None"
  let ?refuse = "IsTerminalApplyState (ap_State a) \<and> \<not> IsTerminalApplyState derived \<and> \<not> reopensContinuableFailedRollout reopen a ?base derived"
  let ?same = "IsState (ap_State a) [derived] \<and> ?started = None"
  let ?cas = "UpdateDerivedState (oe_now env) ctx (ap_ID a) (ap_State a) derived (projected_message a derived ops) ?started
    (projected_completion env a derived) (oth 1 d0)"
  note defs = updateApplyStateFromOperations_def oc_read_def oc_write_def Let_def
  show thesis
  proof (cases "ops = [] \<or> ?refuse \<or> ?same")
    case True
    then show thesis using u unfolding defs d0 [symmetric]
      by (intro untouched) (auto simp del: IsState_one simp: ops [symmetric] derived [symmetric] split: if_splits)
  next
    case False
    then have run: "(res, w') = (case ?cas of Inl e \<Rightarrow> (Inl e, w\<lparr>ow_db := oth 1 d0\<rparr>)
       | Inr (swapped, d') \<Rightarrow> (Inr \<lparr>Swapped = swapped, PreviousState = ap_State a, DerivedState = derived,
             BecameTerminal = (swapped \<and> \<not> IsTerminalApplyState (ap_State a) \<and> IsTerminalApplyState derived), OperationCount = length ops\<rparr>, w\<lparr>ow_db := d'\<rparr>))"
      using u unfolding defs d0 [symmetric]
      by (auto simp del: IsState_one simp: ops [symmetric] derived [symmetric] split: sum.splits)
    show thesis
    proof (cases ?cas)
      case (Inl e)
      with run show thesis by (intro refused) auto
    next
      case (Inr p)
      then obtain swapped d' where p: "?cas = Inr (swapped, d')" by (cases p) auto
      with run False show thesis
        by (intro cas [of ?started]) (auto simp del: IsState_one simp: reopensContinuableFailedRollout_def)
    qed
  qed
qed

text \<open>The parent shows its operations (C18): when a projection reports that it moved the parent, the parent's row carries the rollout state
derived from the operation rows the projection read.\<close>

theorem projection_reflects_operations:
  assumes "updateApplyStateFromOperations oth env ctx a reopen w = (Inr result, w')" "Swapped result"
  shows "\<exists>r \<in> set (db_applies (ow_db w')). ap_ID r = ap_ID a
    \<and> IsState (ap_State r) [DeriveRolloutApplyState (rollout_children (ListByApply (ap_ID a) (oth 0 (ow_db w))))]"
  using assms(1) refl refl refl
proof (cases rule: projection_step)
  case (cas startedAt r)
  then have "r = result" by simp
  from cas(1) show ?thesis
  proof (cases rule: UpdateDerivedState_cases)
    case (written b b')
    then show ?thesis by (intro bexI [of _ b']) auto
  next
    case (confirmed b)
    then show ?thesis by (intro bexI [of _ b]) auto
  qed (use assms \<open>r = result\<close> in simp)
qed (use assms in auto)

text \<open>A settled parent stays settled: whatever a projection does to the row of a terminal apply, the row stays terminal - except that a
failed one may reopen as running_degraded, and only for a caller that allows it.\<close>

theorem settled_parent_only_reopens_failed:
  assumes "updateApplyStateFromOperations oth env ctx a reopen w = (res, w')" "ap_State a \<in> set Apply_states"
    and "r \<in> set (db_applies (oth 1 (oth 0 (ow_db w))))" "IsTerminalApplyState (ap_State r)"
  shows "ow_db w' = oth 0 (ow_db w) \<or> (\<exists>r' \<in> set (db_applies (ow_db w')). ap_ID r' = ap_ID r
    \<and> (IsTerminalApplyState (ap_State r') \<or> reopen \<and> IsState (ap_State r) [Apply_Failed] \<and> IsState (ap_State r') [Apply_RunningDegraded]))"
  using assms(1) refl refl refl
proof (cases rule: projection_step)
  case (cas startedAt result)
  from cas(1) show ?thesis
  proof (cases rule: UpdateDerivedState_cases)
    case (written b b')
    from written(8) [OF assms(3)] obtain r' where r': "r' \<in> set (db_applies (ow_db w'))" "ap_ID r' = ap_ID r"
      "r' = r \<or> sql_eq (ap_State r) (ap_State a) \<and> ap_State r' = DerivedState result" by (auto simp: cas(4))
    have "IsTerminalApplyState (ap_State r') \<or> reopen \<and> IsState (ap_State r) [Apply_Failed] \<and> IsState (ap_State r') [Apply_RunningDegraded]"
    proof (cases "r' = r")
      case False
      with r'(3) have sq: "sql_eq (ap_State r) (ap_State a)" and st: "ap_State r' = DerivedState result" by auto
      have "IsTerminalApplyState (ap_State a)" using assms(4) sql_eq_terminal [OF sq assms(2)] by simp
      moreover have "NormalizeState (ap_State r) = NormalizeState (ap_State a)" using sql_eq_NormalizeState [OF sq assms(2)] assms(2) by simp
      ultimately show ?thesis using cas(7) unfolding st cas(4) by (auto simp: IsState_def)
    qed (simp add: assms(4))
    with r' show ?thesis by blast
  qed (use assms in auto)
qed (use assms in auto)

text \<open>Becoming terminal happens once: a projection that reports the apply became terminal took the row from a state that was not
terminal to one that is, in one write; so of the drives that settle an apply exactly one publishes its summary.\<close>

theorem became_terminal_is_one_transition:
  assumes "updateApplyStateFromOperations oth env ctx a reopen w = (Inr result, w')" "BecameTerminal result"
    and "ap_State a \<in> set Apply_states"
  shows "\<exists>r \<in> set (db_applies (oth 1 (oth 0 (ow_db w)))). ap_ID r = ap_ID a \<and> \<not> IsTerminalApplyState (ap_State r)
    \<and> (\<exists>r' \<in> set (db_applies (ow_db w')). ap_ID r' = ap_ID a \<and> IsTerminalApplyState (ap_State r'))"
  using assms(1) refl refl refl
proof (cases rule: projection_step)
  case (cas startedAt res)
  then have eq: "res = result" by simp
  with cas(6) assms(2) have nt: "\<not> IsTerminalApplyState (ap_State a)" and t: "IsTerminalApplyState (DerivedState result)" using cas(4) by auto
  from cas(1) show ?thesis
  proof (cases rule: UpdateDerivedState_cases)
    case (written b b')
    have "\<not> IsTerminalApplyState (ap_State b)" using nt sql_eq_terminal [OF written(4) assms(3)] by simp
    moreover have "IsTerminalApplyState (ap_State b')" using t cas(4) eq written(7) by simp
    ultimately show ?thesis using written(2,3,5,6) by blast
  next
    case (confirmed b)
    then have "NormalizeState (DerivedState result) = NormalizeState (ap_State a)" using cas(4) eq by simp
    from terminal_NormalizeState [OF this] nt t show ?thesis by simp
  next
    case lost
    with assms(2) cas(6) eq show ?thesis by simp
  qed
qed (use assms in auto)

subsection \<open>Concrete drives\<close>

definition alone :: others where
  "alone = (\<lambda>_. id)"

definition sample_env :: operator_env where
  "sample_env = \<lparr>oe_now = 300, oe_clock = 300, oe_plans = (\<lambda>_. None), oe_engine = (\<lambda>_ _ _ _ d. (Drive_Resumed, d)), oe_summary = Some (\<lambda>_ _. True)\<rparr>"

definition world_of :: "db \<Rightarrow> op_world" where
  "world_of d = \<lparr>ow_db = d, ow_summaries = []\<rparr>"

theorem projection_reflects_operations_witness:
  "\<exists>r \<in> set (db_applies (ow_db (snd (updateApplyStateFromOperations alone sample_env (sample_lease 1 ''t1'') (sample_apply Apply_Running) True
       (world_of (sample_db Apply_Completed Apply_Completed)))))). ap_ID r = ap_ID (sample_apply Apply_Running) \<and> IsState (ap_State r)
     [DeriveRolloutApplyState (rollout_children (ListByApply (ap_ID (sample_apply Apply_Running)) (alone 0 (ow_db (world_of (sample_db Apply_Completed Apply_Completed))))))]"
proof -
  define w where "w = world_of (sample_db Apply_Completed Apply_Completed)"
  define u where "u = updateApplyStateFromOperations alone sample_env (sample_lease 1 ''t1'') (sample_apply Apply_Running) True w"
  have "u = (Inr (projr (fst u)), snd u)" "Swapped (projr (fst u))" unfolding u_def w_def by code_simp+
  then show ?thesis unfolding u_def w_def by (rule projection_reflects_operations)
qed

definition reopened_db :: db where
  "reopened_db = empty_db\<lparr>db_applies := [sample_apply Apply_Failed],
     db_operations := [(sample_operation 1 ''eu'' Apply_Failed ''t1'')\<lparr>op_OnFailure := OnFailureContinue\<rparr>,
       (sample_operation 2 ''us'' Apply_Running ''t2'')\<lparr>op_OnFailure := OnFailureContinue\<rparr>],
     next_apply_id := 2, next_operation_id := 3\<rparr>"

theorem settled_parent_only_reopens_failed_witness:
  "ow_db (snd (updateApplyStateFromOperations alone sample_env (sample_lease 2 ''t2'') (sample_apply Apply_Failed) True (world_of reopened_db)))
     = alone 0 (ow_db (world_of reopened_db))
   \<or> (\<exists>r' \<in> set (db_applies (ow_db (snd (updateApplyStateFromOperations alone sample_env (sample_lease 2 ''t2'') (sample_apply Apply_Failed) True (world_of reopened_db))))).
      ap_ID r' = ap_ID (sample_apply Apply_Failed) \<and> (IsTerminalApplyState (ap_State r')
        \<or> True \<and> IsState (ap_State (sample_apply Apply_Failed)) [Apply_Failed] \<and> IsState (ap_State r') [Apply_RunningDegraded]))"
proof -
  define u where "u = updateApplyStateFromOperations alone sample_env (sample_lease 2 ''t2'') (sample_apply Apply_Failed) True (world_of reopened_db)"
  have "u = (fst u, snd u)" by simp
  moreover have "ap_State (sample_apply Apply_Failed) \<in> set Apply_states" "IsTerminalApplyState (ap_State (sample_apply Apply_Failed))" by code_simp+
  moreover have "sample_apply Apply_Failed \<in> set (db_applies (alone 1 (alone 0 (ow_db (world_of reopened_db)))))" by code_simp
  ultimately show ?thesis unfolding u_def using settled_parent_only_reopens_failed by blast
qed

text \<open>
  The reopening does not ask again whether the target is free: while the first apply is failed a second one is accepted for the same deployment,
  and the projection then reopens the first.
\<close>

lemma reopen_breaks_one_active:
  "let created = CreateWithTasksAndOperations 200 ((sample_apply Apply_Pending)\<lparr>ap_ApplyIdentifier := ''a2''\<rparr>) [] [sample_operation 0 ''eu'' [] []] reopened_db;
       d2 = snd (projr created);
       d3 = ow_db (snd (updateApplyStateFromOperations alone sample_env (sample_lease 2 ''t2'') (sample_apply Apply_Failed) True (world_of d2)))
   in one_active reopened_db \<and> fst (projr created) = 2 \<and> one_active d2 \<and> \<not> one_active d3"
  by code_simp

subsection \<open>A terminal parent is not driven, and a stop settles\<close>

lemma engine_irrelevant:
  "persistOperationState oth (env\<lparr>oe_engine := e\<rparr>) = persistOperationState oth env"
  "updateApplyStateFromOperations oth (env\<lparr>oe_engine := e\<rparr>) = updateApplyStateFromOperations oth env"
proof -
  have cols: "oe_now (env\<lparr>oe_engine := e\<rparr>) = oe_now env" "oe_clock (env\<lparr>oe_engine := e\<rparr>) = oe_clock env" by simp_all
  show "persistOperationState oth (env\<lparr>oe_engine := e\<rparr>) = persistOperationState oth env"
    by (intro ext) (unfold persistOperationState_def cols, rule refl)
  show "updateApplyStateFromOperations oth (env\<lparr>oe_engine := e\<rparr>) = updateApplyStateFromOperations oth env"
    by (intro ext) (unfold updateApplyStateFromOperations_def projected_completion_def cols, rule refl)
qed

lemma reconcile_engine_irrelevant:
  "reconcileClaimedOperationFromTerminalParent oth (env\<lparr>oe_engine := e\<rparr>) ctx op a w = reconcileClaimedOperationFromTerminalParent oth env ctx op a w"
  unfolding reconcileClaimedOperationFromTerminalParent_def markOperationFromApplyState_def engine_irrelevant by (rule refl)

text \<open>A settled apply is not driven: when the parent of a claimed operation is terminal the engine is not run - the outcome is the same
for every engine - and the operation's row follows the parent instead.\<close>

theorem settled_apply_is_not_driven:
  assumes "ap_Get (op_ApplyID op) (oth 0 (ow_db w)) = Some a" "IsTerminalApplyState (ap_State a)"
  shows "driveClaimedMultiOperation oth (env\<lparr>oe_engine := e\<rparr>) op lease cutover w = driveClaimedMultiOperation oth env op lease cutover w"
  using assms by (simp add: driveClaimedMultiOperation_def oc_read_def Let_def reconcile_engine_irrelevant)

theorem settled_apply_is_not_driven_witness:
  "driveClaimedMultiOperation alone (sample_env\<lparr>oe_engine := (\<lambda>_ _ _ _ d. (Drive_Error, empty_db))\<rparr>) (sample_operation 2 ''us'' Apply_Running ''t2'')
     \<lparr>ol_ApplyID = 1, ol_OperationID = 2, ol_Owner = ''w'', ol_Token = ''t2''\<rparr> False (world_of reopened_db)
   = driveClaimedMultiOperation alone sample_env (sample_operation 2 ''us'' Apply_Running ''t2'')
     \<lparr>ol_ApplyID = 1, ol_OperationID = 2, ol_Owner = ''w'', ol_Token = ''t2''\<rparr> False (world_of reopened_db)"
  by (rule settled_apply_is_not_driven [where a = "sample_apply Apply_Failed"]) code_simp+

definition stopped_db :: db where
  "stopped_db = empty_db\<lparr>db_applies := [sample_apply Apply_Stopped],
     db_operations := [sample_operation 1 ''eu'' Apply_Stopped ''t1'', sample_operation 2 ''us'' Apply_Stopped ''t2''],
     db_control_requests := [sample_stop\<lparr>cr_ID := 1, cr_Operation := ControlOperationStart, cr_Status := ControlRequestPending\<rparr>],
     next_apply_id := 2, next_operation_id := 3, next_control_request_id := 2\<rparr>"

definition sample_claim :: "string \<Rightarrow> claim_env" where
  "sample_claim token = \<lparr>cl_locked = [], cl_between = id, cl_token = token\<rparr>"

text \<open>
  So a stopped rollout of several operations does not start again: the start request makes a stopped operation claimable, and the drive
  puts it back to stopped because its parent still is, leaving the request pending for the next poll.
\<close>

lemma start_of_stopped_rollout_is_undone:
  "let d = ow_db (recoverApplyOperation alone sample_env (sample_claim ''new'') (sample_claim ''x'') ''w2'' (world_of stopped_db))
   in map ap_State (db_applies d) = [Apply_Stopped] \<and> map op_State (db_operations d) = [Apply_Stopped, Apply_Stopped]
     \<and> map op_LeaseToken (db_operations d) = [''new'', ''t2''] \<and> db_control_requests d = db_control_requests stopped_db"
  by code_simp

definition all_settled :: "int \<Rightarrow> db \<Rightarrow> bool" where
  "all_settled i d \<longleftrightarrow> list_all (\<lambda>r. op_ApplyID r = i \<longrightarrow> op_State r \<in> set Apply_states \<and> IsTerminalApplyState (op_State r)) (db_operations d)"

lemma terminal_aggregate:
  assumes "ts \<noteq> []" "\<And>s. s \<in> set ts \<Longrightarrow> s \<in> set Apply_states \<and> IsTerminalApplyState s"
  shows "IsTerminalApplyState (DeriveApplyState ts)"
proof -
  let ?N = "normalizeApplyState ` set ts"
  have sub: "?N \<subseteq> {Apply_Completed, Apply_Failed, Apply_Stopped, Apply_Cancelled, Apply_Reverted}"
  proof
    fix x assume "x \<in> ?N"
    then obtain s where "s \<in> set ts" "x = normalizeApplyState s" by blast
    with assms(2) [of s] show "x \<in> {Apply_Completed, Apply_Failed, Apply_Stopped, Apply_Cancelled, Apply_Reverted}"
      by (auto simp: IsTerminalApplyState_iff)
  qed
  show ?thesis
  proof (cases "Apply_Failed \<in> ?N \<or> Apply_Cancelled \<in> ?N \<or> Apply_Stopped \<in> ?N \<or> Apply_Reverted \<in> ?N")
    case True
    have fr: "Apply_FailedRetryable \<notin> ?N" and ne: "?N \<noteq> {}" using sub assms(1) by auto
    from True consider "Apply_Failed \<in> ?N" | "Apply_Failed \<notin> ?N" "Apply_Cancelled \<in> ?N"
      | "Apply_Failed \<notin> ?N" "Apply_Cancelled \<notin> ?N" "Apply_Stopped \<in> ?N"
      | "Apply_Failed \<notin> ?N" "Apply_Cancelled \<notin> ?N" "Apply_Stopped \<notin> ?N" "Apply_Reverted \<in> ?N" by blast
    then have "DeriveApplyState ts \<in> {Apply_Failed, Apply_Cancelled, Apply_Stopped, Apply_Reverted}"
      unfolding DeriveApplyState_rules derive_rules_def first_rule.simps using fr ne
      by cases (simp_all only: if_True if_False insert_iff simp_thms)
    moreover have "list_all IsTerminalApplyState [Apply_Failed, Apply_Cancelled, Apply_Stopped, Apply_Reverted]" by code_simp
    ultimately show ?thesis by (auto simp only: list_all_iff list.set)
  next
    case False
    have "x = Apply_Completed" if "x \<in> ?N" for x using subsetD [OF sub that] that False by (elim insertE emptyE) simp_all
    then have "?N \<subseteq> {Apply_Completed}" by (simp add: subset_iff)
    with assms(1) have "?N = {Apply_Completed}" by (simp add: subset_singleton_iff)
    then show ?thesis using DeriveApplyState_completed_iff [of ts] by (simp add: IsTerminalApplyState_iff)
  qed
qed

lemma terminal_rollout:
  assumes "all_settled i d" "ListByApply i d \<noteq> []"
  shows "IsTerminalApplyState (DeriveRolloutApplyState (rollout_children (ListByApply i d)))"
proof -
  let ?cs = "rollout_children (ListByApply i d)"
  have st: "Child_State c \<in> set Apply_states \<and> IsTerminalApplyState (Child_State c)" if "c \<in> set ?cs" for c
    using that assms(1) by (auto simp: rollout_children_def ListByApply_def all_settled_def list_all_iff)
  then have np: "(\<exists>j. pause_held ?cs j) = False" by (auto simp: pause_held_def)
  have agg: "IsTerminalApplyState (DeriveApplyState (map Child_State ?cs))"
  proof (rule terminal_aggregate)
    show "map Child_State ?cs \<noteq> []" using assms(2) by (simp add: rollout_children_def)
    show "s \<in> set Apply_states \<and> IsTerminalApplyState s" if "s \<in> set (map Child_State ?cs)" for s using that st by auto
  qed
  have "IsTerminalApplyState Apply_Failed" by code_simp
  with agg st show ?thesis unfolding DeriveRolloutApplyState_spec np if_False by simp
qed

definition op_ctx :: "call_ctx \<Rightarrow> OperationLease \<Rightarrow> int \<Rightarrow> db \<Rightarrow> bool" where
  "op_ctx ctx l i d \<longleftrightarrow> ctx = WithOperationLease background l \<and> OperationLease_Valid l \<and> ol_ApplyID l = i \<and> operationLeaseOwnsApply l i d"

lemma op_ctxD:
  assumes "op_ctx ctx l i d"
  shows "OperationLeaseFromContext ctx = Some l" "applyLeaseFromContext ctx i = Inr None"
    "derivedStateGuardForContext ctx i = Inr (DerivedOperation l)" "operationLeaseOwnsApply l i d" "OperationLease_Valid l" "ol_ApplyID l = i"
  using assms by (auto simp: op_ctx_def WithOperationLease_def background_def OperationLeaseFromContext_def applyLeaseFromContext_def ApplyLeaseFromContext_def
      derivedStateGuardForContext_def)

lemma stop_siblings:
  assumes "op_ctx ctx l i d"
  shows "\<exists>n. MarkPendingStoppedByApply now ctx i d = Inr (n, d\<lparr>db_operations :=
      update_where (\<lambda>r. op_ApplyID r = i \<and> sql_eq (op_State r) Apply_Pending) (stop_row now) (db_operations d)\<rparr>)"
proof -
  note c = op_ctxD [OF assms]
  let ?sel = "\<lambda>r. op_ApplyID r = i \<and> sql_eq (op_State r) Apply_Pending"
  have own: "list_ex (\<lambda>o'. op_ApplyID o' = i \<and> op_ID o' = ol_OperationID l \<and> sql_eq (op_LeaseToken o') (ol_Token l)) (db_operations d)"
    using c(4) by (auto simp: operationLeaseOwnsApply_def list_ex_iff)
  then have sel: "(\<lambda>r. op_ApplyID r = i \<and> sql_eq (op_State r) Apply_Pending
       \<and> list_ex (\<lambda>o'. op_ApplyID o' = op_ApplyID r \<and> op_ID o' = ol_OperationID l \<and> sql_eq (op_LeaseToken o') (ol_Token l)) (db_operations d)) = ?sel"
    by auto
  have "ensureOperationLeaseStillOwned l (d\<lparr>db_operations := update_where ?sel (stop_row now) (db_operations d)\<rparr>) = Inr ()"
    if "rows_changed ?sel (stop_row now) (db_operations d) = 0"
    using own that c(6) by (auto simp: update_where_no_change ensureOperationLeaseStillOwned_def operationLeaseOwnsRow_def list_ex_iff)
  then show ?thesis using c(1,5,6) by (simp add: MarkPendingStoppedByApply_def Let_def sel)
qed

lemma later_alone [simp]: "later_calls k alone = alone" "alone k d = d"
  by (simp_all add: later_calls_def alone_def fun_eq_iff)

lemma ap_Get_update_where:
  assumes "\<And>a. ap_ID (f a) = ap_ID a"
  shows "ap_Get i (d\<lparr>db_applies := update_where sel f (db_applies d)\<rparr>) = map_option (\<lambda>a. if sel a then f a else a) (ap_Get i d)"
  using assms by (simp add: ap_Get_def find_update_where)

lemma swap_under_lease:
  assumes "op_ctx ctx l i d" "ap_Get i d = Some a"
  shows "\<exists>b d' r. UpdateDerivedState now ctx i (ap_State a) new msg s c d = Inr (b, d') \<and> ap_Get i d' = Some r \<and> ap_State r = new
    \<and> db_operations d' = db_operations d \<and> db_control_requests d' = db_control_requests d"
proof -
  note ctx = op_ctxD [OF assms(1)]
  define sel where "sel = (\<lambda>b. ap_ID b = i \<and> sql_eq (ap_State b) (ap_State a) \<and> derived_predicate (DerivedOperation l) i d b)"
  define f where "f = derived_row now new msg s c"
  define d' where "d' = d\<lparr>db_applies := update_where sel f (db_applies d)\<rparr>"
  have "sel a" using ap_Get_SomeD [OF assms(2)] ctx(4) by (simp add: sel_def derived_predicate_def)
  then have r: "ap_Get i d' = Some (f a)" using assms(2) by (simp add: d'_def ap_Get_update_where f_def)
  have "ensureOperationLeaseOwnsApply l i d' = Inr ()"
    using ctx(4) by (simp add: ensureOperationLeaseOwnsApply_def operationLeaseOwnsApply_def d'_def)
  then have "\<exists>b. UpdateDerivedState now ctx i (ap_State a) new msg s c d = Inr (b, d')"
    unfolding UpdateDerivedState_def ctx(3) by (auto simp: Let_def ensure_derived_owned_def r simp flip: sel_def f_def d'_def)
  with r show ?thesis by (auto simp: d'_def f_def)
qed

lemma projection_settles:
  assumes "op_ctx ctx l i d" "all_settled i d" "ap_Get i d = Some a" "ow_db w = d"
  shows "\<exists>result d' r. updateApplyStateFromOperations alone env ctx a reopen w = (Inr result, w\<lparr>ow_db := d'\<rparr>)
    \<and> ap_Get i d' = Some r \<and> IsTerminalApplyState (ap_State r)
    \<and> db_operations d' = db_operations d \<and> db_control_requests d' = db_control_requests d"
proof -
  have id: "ap_ID a = i" using ap_Get_SomeD [OF assms(3)] by simp
  define ops where "ops = ListByApply i d"
  define derived where "derived = DeriveRolloutApplyState (rollout_children ops)"
  have ne: "ops \<noteq> []" using op_ctxD(4) [OF assms(1)]
    by (auto simp: ops_def ListByApply_def operationLeaseOwnsApply_def list_ex_iff filter_empty_conv simp flip: set_empty)
  then have t: "IsTerminalApplyState derived" using terminal_rollout [OF assms(2)] by (simp add: derived_def ops_def)
  define started where "started = (if ap_StartedAt a = None \<and> \<not> IsState derived [Apply_Pending] then Some (oe_clock env) else None)"
  define mk where "mk = (\<lambda>swapped. \<lparr>Swapped = swapped, PreviousState = ap_State a, DerivedState = derived,
    BecameTerminal = (swapped \<and> \<not> IsTerminalApplyState (ap_State a) \<and> IsTerminalApplyState derived), OperationCount = length ops\<rparr>)"
  have run: "updateApplyStateFromOperations alone env ctx a reopen w =
      (if IsState (ap_State a) [derived] \<and> started = None then (Inr (mk False), w\<lparr>ow_db := d\<rparr>)
       else case oc_write alone 1 (UpdateDerivedState (oe_now env) ctx i (ap_State a) derived (projected_message a derived ops) started
           (projected_completion env a derived)) (w\<lparr>ow_db := d\<rparr>) of
         (Inl e, w2) \<Rightarrow> (Inl e, w2) | (Inr swapped, w2) \<Rightarrow> (Inr (mk swapped), w2))"
    using ne t unfolding updateApplyStateFromOperations_def oc_read_def Let_def prod.case later_alone id assms(4)
    unfolding ops_def [symmetric] unfolding derived_def [symmetric] unfolding started_def [symmetric] mk_def by simp
  show ?thesis
  proof (cases "IsState (ap_State a) [derived] \<and> started = None")
    case True
    then have "IsTerminalApplyState (ap_State a)" using t terminal_NormalizeState by (metis IsState_one)
    moreover have "w\<lparr>ow_db := d\<rparr> = w" using assms(4) by simp
    moreover have "\<exists>result. updateApplyStateFromOperations alone env ctx a reopen w = (Inr result, w\<lparr>ow_db := d\<rparr>)"
      unfolding run using True t ne by (auto simp del: IsState_one)
    ultimately show ?thesis using assms(3) by metis
  next
    case False
    obtain b d' r where u: "UpdateDerivedState (oe_now env) ctx i (ap_State a) derived (projected_message a derived ops) started
        (projected_completion env a derived) d = Inr (b, d')" "ap_Get i d' = Some r" "ap_State r = derived"
        "db_operations d' = db_operations d" "db_control_requests d' = db_control_requests d"
      using swap_under_lease [OF assms(1,3)] by blast
    with False t ne show ?thesis unfolding run by (auto simp del: IsState_one simp: oc_write_def)
  qed
qed

lemma complete_stop:
  assumes "op_ctx ctx l i d" "ap_Get i d = Some r" "IsTerminalApplyState (ap_State r)" "ow_db w = d"
  shows "\<exists>d'. completePendingStopIfApplyResolved alone env ctx i w = (Inr (), w\<lparr>ow_db := d'\<rparr>) \<and> \<not> pending_request d' i ControlOperationStop
    \<and> db_applies d' = db_applies d \<and> db_operations d' = db_operations d"
proof -
  note ctx = op_ctxD [OF assms(1)]
  have id: "ap_ID r = i" using ap_Get_SomeD [OF assms(2)] by simp
  show ?thesis
  proof (cases "GetPending i ControlOperationStop d")
    case None
    then have "\<not> pending_request d i ControlOperationStop" by (simp add: pending_request_GetPending)
    with None assms show ?thesis
      by (intro exI [of _ d]) (simp add: completePendingStopIfApplyResolved_def oc_read_def id)
  next
    case (Some cr)
    obtain d' where run: "CompletePending (oe_now env) ctx i ControlOperationStop d = Inr d'" "db_applies d' = db_applies d" "db_operations d' = db_operations d"
      by (simp add: CompletePending_def finish_pending_def ctx(2) Let_def)
    with Some assms show ?thesis using finished_not_pending [OF run(1)]
      by (intro exI [of _ d']) (simp add: completePendingStopIfApplyResolved_def oc_read_def oc_write_def no_value_def id)
  qed
qed

lemma publish_db [simp]: "ow_db (publishTerminalSummaryIfWon alone env a result w) = ow_db w"
  by (auto simp: publishTerminalSummaryIfWon_def oc_read_def split: option.splits)

lemma op_ctx_cong: "op_ctx ctx l i d \<Longrightarrow> db_operations d' = db_operations d \<Longrightarrow> op_ctx ctx l i d'"
  by (simp add: op_ctx_def operationLeaseOwnsApply_def)

lemma op_ctx_stop_row:
  "op_ctx ctx l i d \<Longrightarrow> op_ctx ctx l i (d\<lparr>db_operations := update_where sel (stop_row now) (db_operations d)\<rparr>)"
  by (auto simp: op_ctx_def operationLeaseOwnsApply_def list_ex_update_where stop_row_def)

text \<open>Only the operations that did not start are in the state the stop's update selects.\<close>

lemma pending_eq: "s = Apply_Pending \<or> s \<in> set Apply_states \<Longrightarrow> sql_eq s Apply_Pending \<longleftrightarrow> s = Apply_Pending"
proof -
  have "list_all (\<lambda>s. sql_eq s Apply_Pending \<longleftrightarrow> s = Apply_Pending) (Apply_Pending # Apply_states)" by code_simp
  then show "s = Apply_Pending \<or> s \<in> set Apply_states \<Longrightarrow> sql_eq s Apply_Pending \<longleftrightarrow> s = Apply_Pending" by (auto simp: list_all_iff)
qed

text \<open>A stop settles the rollout (C17): when the drive of an operation ends with a stop pending and every operation of the apply either terminal or
not started, the settling steps, run without other callers in between, mark exactly the operations of the apply that did not start as stopped and leave
every other operation as it was, leave the parent terminal and complete the stop request.\<close>

theorem stop_settles_the_rollout:
  assumes "op_ctx ctx l i (ow_db w)" "pending_request (ow_db w) i ControlOperationStop" "ap_Get i (ow_db w) = Some a"
    and "\<forall>r \<in> set (db_operations (ow_db w)). op_ApplyID r = i \<longrightarrow> op_State r = Apply_Pending
      \<or> op_State r \<in> set Apply_states \<and> IsTerminalApplyState (op_State r)"
  shows "let d' = ow_db (settle_after_drive alone env ctx a publish w) in \<not> pending_request d' i ControlOperationStop
    \<and> list_ex (\<lambda>r. ap_ID r = i \<and> IsTerminalApplyState (ap_State r)) (db_applies d')
    \<and> db_operations d' = map (\<lambda>r. if op_ApplyID r = i \<and> op_State r = Apply_Pending then r\<lparr>op_State := Apply_Stopped, op_UpdatedAt := oe_now env\<rparr> else r)
        (db_operations (ow_db w))"
proof -
  define d where "d = ow_db w"
  have id: "ap_ID a = i" using ap_Get_SomeD [OF assms(3)] by simp
  define d1 where "d1 = d\<lparr>db_operations :=
    update_where (\<lambda>r. op_ApplyID r = i \<and> sql_eq (op_State r) Apply_Pending) (stop_row (oe_now env)) (db_operations d)\<rparr>"
  have c1: "op_ctx ctx l i d1" using assms(1) by (simp add: d1_def d_def op_ctx_stop_row)
  have st: "Apply_Stopped \<in> set Apply_states \<and> IsTerminalApplyState Apply_Stopped" by code_simp
  have "op_State r \<in> set Apply_states \<and> IsTerminalApplyState (op_State r)" if "r \<in> set (db_operations d1)" "op_ApplyID r = i" for r
  proof -
    have "r \<in> set (update_where (\<lambda>r. op_ApplyID r = i \<and> sql_eq (op_State r) Apply_Pending) (stop_row (oe_now env)) (db_operations d))"
      using that(1) by (simp add: d1_def)
    then show ?thesis by (rule in_update_whereE) (use st assms(4) that(2) in \<open>auto simp: stop_row_def d_def\<close>)
  qed
  then have s1: "all_settled i d1" by (simp add: all_settled_def list_all_iff)
  have g1: "ap_Get i d1 = Some a" using assms(3) by (simp add: d1_def d_def ap_Get_def)
  obtain result d2 r where p: "updateApplyStateFromOperations alone env ctx a True (w\<lparr>ow_db := d1\<rparr>) = (Inr result, w\<lparr>ow_db := d1, ow_db := d2\<rparr>)"
      "ap_Get i d2 = Some r" "IsTerminalApplyState (ap_State r)" "db_operations d2 = db_operations d1"
    using projection_settles [OF c1 s1 g1, of "w\<lparr>ow_db := d1\<rparr>" env True] by auto
  define w4 where "w4 = (if publish then publishTerminalSummaryIfWon alone env a result (w\<lparr>ow_db := d2\<rparr>) else w\<lparr>ow_db := d2\<rparr>)"
  have "ow_db w4 = d2" by (simp add: w4_def)
  with complete_stop [OF op_ctx_cong [OF c1 p(4)] p(2,3)] obtain d3 where
    f: "completePendingStopIfApplyResolved alone env ctx i w4 = (Inr (), w4\<lparr>ow_db := d3\<rparr>)" "\<not> pending_request d3 i ControlOperationStop"
      "db_applies d3 = db_applies d2" "db_operations d3 = db_operations d2" by blast
  obtain n where m: "MarkPendingStoppedByApply (oe_now env) ctx i d = Inr (n, d1)"
    using stop_siblings [OF assms(1)] by (auto simp: d1_def d_def)
  obtain cr where cr: "GetPending i ControlOperationStop d = Some cr" using assms(2) by (auto simp: pending_request_GetPending d_def)
  have "ow_db (settle_after_drive alone env ctx a publish w) = d3"
    using f(1) by (cases publish) (simp_all add: settle_after_drive_def stopPendingOperationsForPendingStop_def
      markPendingOperationsStopped_def oc_read_def oc_write_def id cr m g1 p(1) w4_def flip: d_def)
  moreover have "list_ex (\<lambda>r. ap_ID r = i \<and> IsTerminalApplyState (ap_State r)) (db_applies d3)"
    using ap_Get_SomeD [OF p(2)] p(3) f(3) by (auto simp: list_ex_iff)
  moreover have "db_operations d3 = map (\<lambda>r. if op_ApplyID r = i \<and> op_State r = Apply_Pending
      then r\<lparr>op_State := Apply_Stopped, op_UpdatedAt := oe_now env\<rparr> else r) (db_operations (ow_db w))"
    using f(4) p(4) assms(4) by (auto simp: d1_def d_def update_where_def stop_row_def pending_eq)
  ultimately show ?thesis using f(2) by simp
qed

definition stopping_db :: db where
  "stopping_db = (sample_db Apply_Stopped Apply_Pending)\<lparr>
     db_control_requests := [sample_stop\<lparr>cr_ID := 1, cr_Status := ControlRequestPending\<rparr>], next_control_request_id := 2\<rparr>"

theorem stop_settles_the_rollout_witness:
  "let d' = ow_db (settle_after_drive alone sample_env (sample_lease 1 ''t1'') (sample_apply Apply_Running) True (world_of stopping_db)) in
     \<not> pending_request d' 1 ControlOperationStop \<and> list_ex (\<lambda>r. ap_ID r = 1 \<and> IsTerminalApplyState (ap_State r)) (db_applies d')
     \<and> db_operations d' = map (\<lambda>r. if op_ApplyID r = 1 \<and> op_State r = Apply_Pending
         then r\<lparr>op_State := Apply_Stopped, op_UpdatedAt := oe_now sample_env\<rparr> else r) (db_operations (ow_db (world_of stopping_db)))"
proof (rule stop_settles_the_rollout)
  show "op_ctx (sample_lease 1 ''t1'') \<lparr>ol_ApplyID = 1, ol_OperationID = 1, ol_Owner = ''w'', ol_Token = ''t1''\<rparr> 1 (ow_db (world_of stopping_db))"
    by (simp add: op_ctx_def sample_lease_def) code_simp
qed code_simp+

end
