(* ===== verification/SB_Retry.thy ===== *)
theory SB_Retry
  imports SB_Leases
begin

section \<open>Statements among other callers, and bounded retries (retry.go)\<close>

text \<open>
  The store's calls that are not one transaction are sequences of single statements, so other callers' statements run between them: \<open>se_between\<close> of a
  \<open>stmt_env\<close> gives, for each statement of the call, what they committed just before it. A statement can also fail (\<open>se_fault\<close>, the server's error): it
  then changes nothing. Errors are compared as errors.Is and errors.As do, so the wrapping texts are not kept.
\<close>

text \<open>A server error has its number and message.\<close>

type_synonym mysql_error = "int \<times> string"

datatype lock_error = Store_Error storage_error | MySQLError mysql_error | ctx_Err

record 's stmt_env =
  se_between :: "nat \<Rightarrow> 's \<Rightarrow> 's"
  se_fault :: "nat \<Rightarrow> mysql_error option"

definition exec_stmt :: "'s stmt_env \<Rightarrow> nat \<Rightarrow> ('s \<Rightarrow> (mysql_error + 'a) \<times> 's) \<Rightarrow> 's \<Rightarrow> (mysql_error + 'a) \<times> 's" where
  "exec_stmt env i f d = (let d' = se_between env i d in
     case se_fault env i of Some e \<Rightarrow> (Inl e, d') | None \<Rightarrow> f d')"

definition quiet :: "'s stmt_env" where
  "quiet = \<lparr>se_between = \<lambda>_. id, se_fault = \<lambda>_. None\<rparr>"

definition contains_text :: "string \<Rightarrow> string \<Rightarrow> bool" where
  "contains_text s sub \<longleftrightarrow> list_ex (\<lambda>i. has_prefix (drop i s) sub) [0..<Suc (length s)]"

definition isDuplicateKeyError :: "mysql_error \<Rightarrow> bool" where
  "isDuplicateKeyError e \<longleftrightarrow> fst e = 1062 \<or> contains_text (snd e) ''Duplicate entry''"

subsection \<open>Bounded retries (retry.go)\<close>

definition lockRetryMaxAttempts :: nat where "lockRetryMaxAttempts = 5"
definition mysqlErrDeadlock :: int where "mysqlErrDeadlock = 1213"
definition mysqlErrLockWaitTimeout :: int where "mysqlErrLockWaitTimeout = 1205"

definition isRetryableLockError :: "lock_error \<Rightarrow> bool" where
  "isRetryableLockError e \<longleftrightarrow> (case e of MySQLError (n, _) \<Rightarrow> n = mysqlErrDeadlock \<or> n = mysqlErrLockWaitTimeout | _ \<Rightarrow> False)"

text \<open>The wait before a retry: \<open>cancelled attempt\<close> is whether the context ends during it.\<close>

definition sleepBackoff :: "(nat \<Rightarrow> bool) \<Rightarrow> nat \<Rightarrow> lock_error option" where
  "sleepBackoff cancelled attempt = (if cancelled attempt then Some ctx_Err else None)"

fun retry_loop :: "(nat \<Rightarrow> bool) \<Rightarrow> (nat \<Rightarrow> 's \<Rightarrow> lock_error option \<times> 's) \<Rightarrow> nat \<Rightarrow> nat \<Rightarrow> lock_error option \<Rightarrow> 's
    \<Rightarrow> lock_error option \<times> 's" where
  "retry_loop cancelled fn attempt 0 lastErr s = (lastErr, s)"
| "retry_loop cancelled fn attempt (Suc left) lastErr s =
     (case (if attempt > 0 then sleepBackoff cancelled attempt else None) of
        Some e \<Rightarrow> (Some e, s)
      | None \<Rightarrow> (case fn attempt s of
            (None, s') \<Rightarrow> (None, s')
          | (Some e, s') \<Rightarrow> if \<not> isRetryableLockError e then (Some e, s')
              else retry_loop cancelled fn (attempt + 1) left (Some e) s'))"

definition withLockRetry :: "(nat \<Rightarrow> bool) \<Rightarrow> (nat \<Rightarrow> 's \<Rightarrow> lock_error option \<times> 's) \<Rightarrow> 's \<Rightarrow> lock_error option \<times> 's" where
  "withLockRetry cancelled fn s = retry_loop cancelled fn 0 lockRetryMaxAttempts None s"

subsection \<open>What a retried call keeps and reaches\<close>

text \<open>
  The contract of one attempt, for a call that is retried: from a state with \<open>pre\<close> it changes the state along \<open>rel\<close>, and when it
  reports success it has reached \<open>post\<close>. The retried call then does the same.
\<close>

locale retried_attempt =
  fixes fn :: "nat \<Rightarrow> 's \<Rightarrow> lock_error option \<times> 's" and pre :: "'s \<Rightarrow> bool" and rel :: "'s \<Rightarrow> 's \<Rightarrow> bool" and post :: "'s \<Rightarrow> bool"
  assumes rel_refl: "rel s s"
    and rel_trans: "rel s s' \<Longrightarrow> rel s' s'' \<Longrightarrow> rel s s''"
    and rel_pre: "pre s \<Longrightarrow> rel s s' \<Longrightarrow> pre s'"
    and attempt_rel: "pre s \<Longrightarrow> fn i s = (e, s') \<Longrightarrow> rel s s'"
    and attempt_post: "pre s \<Longrightarrow> fn i s = (None, s') \<Longrightarrow> post s'"
begin

lemma retry_loop_spec:
  assumes "pre s" "retry_loop cancelled fn attempt left lastErr s = (e, s')" "left = 0 \<Longrightarrow> lastErr \<noteq> None"
  shows "rel s s' \<and> (e = None \<longrightarrow> post s')"
  using assms
proof (induction left arbitrary: attempt lastErr s)
  case (Suc left)
  obtain r s1 where once: "fn attempt s = (r, s1)" by (cases "fn attempt s") auto
  have rel1: "rel s s1" using Suc.prems(1) once by (rule attempt_rel)
  show ?case
  proof (cases "(if attempt > 0 then sleepBackoff cancelled attempt else None) \<noteq> None \<or> r = None \<or> \<not> isRetryableLockError (the r)")
    case True
    then show ?thesis using Suc.prems(1,2) once rel1 rel_refl attempt_post by (auto split: option.splits if_splits)
  next
    case False
    then have loop: "retry_loop cancelled fn (attempt + 1) left r s1 = (e, s')"
      using Suc.prems(2) once by (auto split: option.splits if_splits)
    have "r \<noteq> None" using False by simp
    from Suc.IH [OF rel_pre [OF Suc.prems(1) rel1] loop this] show ?thesis using rel_trans [OF rel1, of s'] by simp
  qed
qed (auto simp: rel_refl)

lemma withLockRetry_spec:
  assumes "pre s" "withLockRetry cancelled fn s = (e, s')"
  shows "rel s s'" "e = None \<Longrightarrow> post s'"
  using retry_loop_spec [of s cancelled 0 lockRetryMaxAttempts None e s'] assms by (auto simp: withLockRetry_def lockRetryMaxAttempts_def)

end

end
