(* ===== verification/SB_Locks.thy ===== *)
theory SB_Locks
  imports SB_Retry
begin

section \<open>Database locks (locks.go)\<close>

text \<open>
  The deployment locks: one row per database, held by an owner (a pull request or a command-line user). Acquire reads, inserts and refreshes in
  separate statements, and is retried as a whole.
\<close>

record Lock =
  lk_ID :: int
  lk_DatabaseName :: string
  lk_DatabaseType :: string
  lk_Repository :: string
  lk_PullRequest :: int
  lk_Owner :: string
  lk_PendingPlanID :: string
  lk_CreatedAt :: int
  lk_UpdatedAt :: int

record lock_db =
  db_locks :: "Lock list"
  next_lock_id :: int

subsection \<open>The lock store (locks.go)\<close>

definition lock_selects :: "string \<Rightarrow> string \<Rightarrow> Lock \<Rightarrow> bool" where
  "lock_selects database dbType r \<longleftrightarrow> sql_eq (lk_DatabaseName r) database \<and> sql_eq (lk_DatabaseType r) dbType"

definition lk_Get :: "string \<Rightarrow> string \<Rightarrow> lock_db \<Rightarrow> Lock option" where
  "lk_Get database dbType d = find (lock_selects database dbType) (db_locks d)"

definition get_stmt :: "string \<Rightarrow> string \<Rightarrow> lock_db \<Rightarrow> (mysql_error + Lock option) \<times> lock_db" where
  "get_stmt database dbType d = (Inr (lk_Get database dbType d), d)"

text \<open>The INSERT: the unique key on the database makes it the arbiter of a race (error 1062).\<close>

definition insert_stmt :: "int \<Rightarrow> Lock \<Rightarrow> lock_db \<Rightarrow> (mysql_error + unit) \<times> lock_db" where
  "insert_stmt now lock d =
     (if list_ex (lock_selects (lk_DatabaseName lock) (lk_DatabaseType lock)) (db_locks d) then (Inl (1062, ''Duplicate entry''), d)
      else (Inr (), \<lparr>db_locks = db_locks d @ [lock\<lparr>lk_ID := next_lock_id d, lk_CreatedAt := now, lk_UpdatedAt := now\<rparr>],
                     next_lock_id = next_lock_id d + 1\<rparr>))"

definition update_stmt :: "(Lock \<Rightarrow> bool) \<Rightarrow> (Lock \<Rightarrow> Lock) \<Rightarrow> lock_db \<Rightarrow> (mysql_error + nat) \<times> lock_db" where
  "update_stmt sel f d = (Inr (rows_changed sel f (db_locks d)), d\<lparr>db_locks := update_where sel f (db_locks d)\<rparr>)"

definition delete_stmt :: "(Lock \<Rightarrow> bool) \<Rightarrow> lock_db \<Rightarrow> (mysql_error + nat) \<times> lock_db" where
  "delete_stmt sel d = (Inr (length (filter sel (db_locks d))), d\<lparr>db_locks := filter (\<lambda>r. \<not> sel r) (db_locks d)\<rparr>)"

definition refreshPendingPlanID :: "lock_db stmt_env \<Rightarrow> int \<Rightarrow> Lock \<Rightarrow> Lock \<Rightarrow> lock_db \<Rightarrow> lock_error option \<times> lock_db" where
  "refreshPendingPlanID env now lock existing d =
     (if lk_PendingPlanID lock = [] \<or> lk_PendingPlanID lock = lk_PendingPlanID existing then (None, d)
      else case exec_stmt env 3 (update_stmt
             (\<lambda>r. lock_selects (lk_DatabaseName lock) (lk_DatabaseType lock) r \<and> sql_eq (lk_Owner r) (lk_Owner lock))
             (\<lambda>r. r\<lparr>lk_PendingPlanID := lk_PendingPlanID lock, lk_UpdatedAt := now\<rparr>)) d of
          (Inl e, d1) \<Rightarrow> (Some (MySQLError e), d1)
        | (Inr rowsAffected, d1) \<Rightarrow>
            if rowsAffected > 0 then (None, d1)
            else (case exec_stmt env 4 (get_stmt (lk_DatabaseName lock) (lk_DatabaseType lock)) d1 of
                (Inl e, d2) \<Rightarrow> (Some (MySQLError e), d2)
              | (Inr None, d2) \<Rightarrow> (Some (Store_Error ErrLockNotFound), d2)
              | (Inr (Some current), d2) \<Rightarrow> if lk_Owner current = lk_Owner lock then (None, d2) else (Some (Store_Error ErrLockHeld), d2)))"

definition acquireOnce :: "lock_db stmt_env \<Rightarrow> int \<Rightarrow> Lock \<Rightarrow> lock_db \<Rightarrow> lock_error option \<times> lock_db" where
  "acquireOnce env now lock d =
     (case exec_stmt env 0 (get_stmt (lk_DatabaseName lock) (lk_DatabaseType lock)) d of
        (Inl e, d1) \<Rightarrow> (Some (MySQLError e), d1)
      | (Inr (Some existing), d1) \<Rightarrow>
          if lk_Owner existing \<noteq> lk_Owner lock then (Some (Store_Error ErrLockHeld), d1)
          else refreshPendingPlanID env now lock existing d1
      | (Inr None, d1) \<Rightarrow> (case exec_stmt env 1 (insert_stmt now lock) d1 of
            (Inr _, d2) \<Rightarrow> (None, d2)
          | (Inl e, d2) \<Rightarrow>
              if \<not> isDuplicateKeyError e then (Some (MySQLError e), d2)
              else (case exec_stmt env 2 (get_stmt (lk_DatabaseName lock) (lk_DatabaseType lock)) d2 of
                  (Inl e, d3) \<Rightarrow> (Some (MySQLError e), d3)
                | (Inr None, d3) \<Rightarrow> (Some (Store_Error ErrLockHeld), d3)
                | (Inr (Some winner), d3) \<Rightarrow>
                    if lk_Owner winner \<noteq> lk_Owner lock then (Some (Store_Error ErrLockHeld), d3)
                    else refreshPendingPlanID env now lock winner d3)))"

text \<open>\<open>env attempt\<close> is what the other callers do during an attempt.\<close>

definition lk_Acquire :: "(nat \<Rightarrow> bool) \<Rightarrow> (nat \<Rightarrow> lock_db stmt_env) \<Rightarrow> int \<Rightarrow> Lock \<Rightarrow> lock_db \<Rightarrow> lock_error option \<times> lock_db" where
  "lk_Acquire cancelled env now lock d = withLockRetry cancelled (\<lambda>attempt. acquireOnce (env attempt) now lock) d"

definition lk_Release :: "lock_db stmt_env \<Rightarrow> string \<Rightarrow> string \<Rightarrow> string \<Rightarrow> lock_db \<Rightarrow> lock_error option \<times> lock_db" where
  "lk_Release env database dbType owner d =
     (case exec_stmt env 0 (delete_stmt (\<lambda>r. lock_selects database dbType r \<and> sql_eq (lk_Owner r) owner)) d of
        (Inl e, d1) \<Rightarrow> (Some (MySQLError e), d1)
      | (Inr rowsAffected, d1) \<Rightarrow>
          if rowsAffected = 0 then
            (case exec_stmt env 1 (get_stmt database dbType) d1 of
               (Inl e, d2) \<Rightarrow> (Some (MySQLError e), d2)
             | (Inr None, d2) \<Rightarrow> (Some (Store_Error ErrLockNotFound), d2)
             | (Inr (Some _), d2) \<Rightarrow> (Some (Store_Error ErrLockNotOwned), d2))
          else (None, d1))"

definition ForceRelease :: "lock_db stmt_env \<Rightarrow> string \<Rightarrow> string \<Rightarrow> lock_db \<Rightarrow> lock_error option \<times> lock_db" where
  "ForceRelease env database dbType d =
     (case exec_stmt env 0 (delete_stmt (lock_selects database dbType)) d of
        (Inl e, d1) \<Rightarrow> (Some (MySQLError e), d1)
      | (Inr rowsAffected, d1) \<Rightarrow> (if rowsAffected = 0 then Some (Store_Error ErrLockNotFound) else None, d1))"

definition lk_Update :: "lock_db stmt_env \<Rightarrow> int \<Rightarrow> Lock \<Rightarrow> lock_db \<Rightarrow> lock_error option \<times> lock_db" where
  "lk_Update env now lock d =
     (case exec_stmt env 0 (update_stmt (lock_selects (lk_DatabaseName lock) (lk_DatabaseType lock))
             (\<lambda>r. r\<lparr>lk_UpdatedAt := now\<rparr>)) d of
        (Inl e, d1) \<Rightarrow> (Some (MySQLError e), d1)
      | (Inr rowsAffected, d1) \<Rightarrow>
          if rowsAffected > 0 then (None, d1)
          else (case exec_stmt env 1 (get_stmt (lk_DatabaseName lock) (lk_DatabaseType lock)) d1 of
              (Inl e, d2) \<Rightarrow> (Some (MySQLError e), d2)
            | (Inr None, d2) \<Rightarrow> (Some (Store_Error ErrLockNotFound), d2)
            | (Inr (Some _), d2) \<Rightarrow> (None, d2)))"

text \<open>ORDER BY created\_at DESC; the order of rows of the same second is not defined by the query.\<close>

definition lk_List :: "lock_db \<Rightarrow> Lock list" where
  "lk_List d = sort_key (\<lambda>r. - lk_CreatedAt r) (db_locks d)"

definition lk_GetByPR :: "string \<Rightarrow> int \<Rightarrow> lock_db \<Rightarrow> Lock list" where
  "lk_GetByPR repo pr d = filter (\<lambda>r. sql_eq (lk_Repository r) repo \<and> lk_PullRequest r = pr) (db_locks d)"

subsection \<open>Well-formed tables and statements that keep holders\<close>

definition lock_key :: "Lock \<Rightarrow> string \<times> string" where
  "lock_key r = (to_lower (lk_DatabaseName r), to_lower (lk_DatabaseType r))"

definition wf_locks :: "lock_db \<Rightarrow> bool" where
  "wf_locks d \<longleftrightarrow> distinct (map lock_key (db_locks d)) \<and> ids_below (map lk_ID (db_locks d)) (next_lock_id d)"

definition holder :: "string \<Rightarrow> string \<Rightarrow> lock_db \<Rightarrow> string option" where
  "holder database dbType d = map_option lk_Owner (lk_Get database dbType d)"

text \<open>\<open>keeps d d'\<close>: from \<open>d\<close> to \<open>d'\<close> the table stays well formed and held locks keep their holders.\<close>

definition keeps :: "lock_db \<Rightarrow> lock_db \<Rightarrow> bool" where
  "keeps d d' \<longleftrightarrow> (wf_locks d \<longrightarrow> wf_locks d' \<and> (\<forall>database dbType owner. holder database dbType d = Some owner
     \<longrightarrow> holder database dbType d' = Some owner))"

lemma keeps_refl [simp]: "keeps d d"
  by (simp add: keeps_def)

lemma keeps_trans [trans]: "keeps d d' \<Longrightarrow> keeps d' d'' \<Longrightarrow> keeps d d''"
  by (simp add: keeps_def)

lemma keepsD: "keeps d d' \<Longrightarrow> wf_locks d \<Longrightarrow> wf_locks d'"
  "keeps d d' \<Longrightarrow> wf_locks d \<Longrightarrow> holder database dbType d = Some owner \<Longrightarrow> holder database dbType d' = Some owner"
  by (simp_all add: keeps_def)

text \<open>
  The contract of a statement that leaves every held lock with its holder: it keeps the table well formed, and a lock that was held
  before is held by the same owner after.
\<close>

locale holder_keeping =
  fixes step :: "lock_db \<Rightarrow> lock_db"
  assumes step_wf: "wf_locks d \<Longrightarrow> wf_locks (step d)"
    and step_holder: "wf_locks d \<Longrightarrow> holder database dbType d = Some owner \<Longrightarrow> holder database dbType (step d) = Some owner"
begin

lemma keeps_step: "keeps d (step d)"
  by (simp add: keeps_def step_wf step_holder)

end

lemma lock_selects_key: "lock_selects database dbType r \<longleftrightarrow> lock_key r = (to_lower database, to_lower dbType)"
  by (simp add: lock_selects_def lock_key_def sql_eq_def)

lemma lk_Get_SomeD: "lk_Get database dbType d = Some r \<Longrightarrow> r \<in> set (db_locks d) \<and> lock_selects database dbType r"
  by (auto simp: lk_Get_def find_Some_iff in_set_conv_nth)

lemma lk_Get_None_iff: "lk_Get database dbType d = None \<longleftrightarrow> \<not> list_ex (lock_selects database dbType) (db_locks d)"
  by (auto simp: lk_Get_def find_None_iff list_ex_iff)

lemma lk_Get_unique:
  assumes "wf_locks d" "r \<in> set (db_locks d)" "lock_selects database dbType r"
  shows "lk_Get database dbType d = Some r"
proof -
  obtain r' where r': "lk_Get database dbType d = Some r'" using assms(2,3) lk_Get_None_iff [of database dbType d] by (auto simp: list_ex_iff)
  then have "r' \<in> set (db_locks d)" "lock_key r' = lock_key r" using lk_Get_SomeD assms(3) by (auto simp: lock_selects_key)
  then have "r' = r" using assms(1,2) by (auto simp: wf_locks_def distinct_map inj_on_def)
  with r' show ?thesis by simp
qed

lemma update_stmt_Get:
  assumes "\<And>r. lock_key (f r) = lock_key r"
  shows "lk_Get database dbType (snd (update_stmt sel f d)) = map_option (\<lambda>r. if sel r then f r else r) (lk_Get database dbType d)"
  using find_update_where [of "lock_selects database dbType" f sel "db_locks d"] assms
  by (simp add: lk_Get_def update_stmt_def lock_selects_key)

lemma update_stmt_keeps:
  assumes "\<And>r. lock_key (f r) = lock_key r" "\<And>r. lk_ID (f r) = lk_ID r" "\<And>r. lk_Owner (f r) = lk_Owner r"
  shows "wf_locks d \<Longrightarrow> wf_locks (snd (update_stmt sel f d))"
    and "holder database dbType (snd (update_stmt sel f d)) = holder database dbType d"
  using assms update_stmt_Get [OF assms(1), of database dbType sel d]
  by (simp_all add: wf_locks_def update_stmt_def map_update_where_same holder_def option.map_comp o_def if_distrib [of lk_Owner] cong: if_cong)

lemma insert_stmt_wf: "wf_locks d \<Longrightarrow> wf_locks (snd (insert_stmt now lock d))"
  by (auto simp: wf_locks_def insert_stmt_def list_ex_iff lock_selects_key ids_below_snoc)
    (auto simp: lock_key_def)

lemma find_append: "find p (xs @ ys) = (case find p xs of Some x \<Rightarrow> Some x | None \<Rightarrow> find p ys)"
  by (induction xs) auto

lemma insert_stmt_Get: "lk_Get database dbType d = Some r \<Longrightarrow> lk_Get database dbType (snd (insert_stmt now lock d)) = Some r"
  by (simp add: lk_Get_def insert_stmt_def find_append)

lemma insert_stmt_holder:
  assumes "insert_stmt now lock d = (Inr u, d')"
  shows "holder (lk_DatabaseName lock) (lk_DatabaseType lock) d' = Some (lk_Owner lock)"
proof -
  have free: "lk_Get (lk_DatabaseName lock) (lk_DatabaseType lock) d = None"
    using assms by (auto simp: insert_stmt_def lk_Get_None_iff split: if_splits)
  have "d' = \<lparr>db_locks = db_locks d @ [lock\<lparr>lk_ID := next_lock_id d, lk_CreatedAt := now, lk_UpdatedAt := now\<rparr>],
      next_lock_id = next_lock_id d + 1\<rparr>"
    using assms by (auto simp: insert_stmt_def split: if_splits)
  then show ?thesis using free by (simp add: holder_def lk_Get_def find_append lock_selects_def)
qed

interpretation insert_keeps: holder_keeping "\<lambda>d. snd (insert_stmt now lock d)"
  by unfold_locales (auto simp: insert_stmt_wf holder_def insert_stmt_Get)

interpretation get_keeps: holder_keeping "\<lambda>d. snd (get_stmt database dbType d)"
  by unfold_locales (simp_all add: get_stmt_def)

interpretation refresh_keeps: holder_keeping "\<lambda>d. snd (update_stmt sel (\<lambda>r. r\<lparr>lk_PendingPlanID := plan, lk_UpdatedAt := now\<rparr>) d)"
  by unfold_locales (simp_all add: update_stmt_keeps lock_key_def)

interpretation touch_keeps: holder_keeping "\<lambda>d. snd (update_stmt sel (\<lambda>r. r\<lparr>lk_UpdatedAt := now\<rparr>) d)"
  by unfold_locales (simp_all add: update_stmt_keeps lock_key_def)

subsection \<open>Acquiring among other callers\<close>

text \<open>The other callers acquire, refresh and touch, but nobody releases a lock that is held while the call runs.\<close>

definition env_keeps :: "lock_db stmt_env \<Rightarrow> bool" where
  "env_keeps env \<longleftrightarrow> (\<forall>i. holder_keeping (se_between env i))"

lemma exec_stmt_keeps:
  assumes "env_keeps env" "holder_keeping (\<lambda>d. snd (f d))" "exec_stmt env i f d = (r, d')"
  shows "keeps d d'"
proof -
  have "keeps d (se_between env i d)" using assms(1) by (simp add: env_keeps_def holder_keeping.keeps_step)
  moreover have "keeps (se_between env i d) (snd (f (se_between env i d)))" using assms(2) by (rule holder_keeping.keeps_step)
  ultimately show ?thesis using assms(3) keeps_trans by (fastforce simp: exec_stmt_def Let_def split: option.splits)
qed

lemmas exec_get_keeps = exec_stmt_keeps [OF _ get_keeps.holder_keeping_axioms]
  and exec_insert_keeps = exec_stmt_keeps [OF _ insert_keeps.holder_keeping_axioms]
  and exec_refresh_keeps = exec_stmt_keeps [OF _ refresh_keeps.holder_keeping_axioms]

lemma refreshPendingPlanID_keeps:
  assumes "env_keeps env"
  shows "keeps d (snd (refreshPendingPlanID env now lock existing d))"
  unfolding refreshPendingPlanID_def
  by (auto split: prod.splits sum.splits option.splits if_splits dest!: exec_get_keeps [OF assms] exec_refresh_keeps [OF assms] intro: keeps_trans)

lemma exec_get_holder:
  "exec_stmt env i (get_stmt database dbType) d = (Inr (Some r), d') \<Longrightarrow> holder database dbType d' = Some (lk_Owner r)"
  by (auto simp: exec_stmt_def get_stmt_def Let_def holder_def split: option.splits)

lemma exec_insert_holder:
  "exec_stmt env i (insert_stmt now lock) d = (Inr u, d') \<Longrightarrow> holder (lk_DatabaseName lock) (lk_DatabaseType lock) d' = Some (lk_Owner lock)"
  by (auto simp: exec_stmt_def Let_def insert_stmt_holder split: option.splits)

lemma acquireOnce_spec:
  assumes env: "env_keeps env" and wf: "wf_locks d" and run: "acquireOnce env now lock d = (e, d')"
  shows "keeps d d'" "e = None \<Longrightarrow> holder (lk_DatabaseName lock) (lk_DatabaseType lock) d' = Some (lk_Owner lock)"
proof -
  let ?get = "get_stmt (lk_DatabaseName lock) (lk_DatabaseType lock)" and ?held = "\<lambda>d. holder (lk_DatabaseName lock) (lk_DatabaseType lock) d"
  obtain r1 d1 where 1: "exec_stmt env 0 ?get d = (r1, d1)" by (cases "exec_stmt env 0 ?get d") auto
  obtain r2 d2 where 2: "exec_stmt env 1 (insert_stmt now lock) d1 = (r2, d2)" by (cases "exec_stmt env 1 (insert_stmt now lock) d1") auto
  obtain r3 d3 where 3: "exec_stmt env 2 ?get d2 = (r3, d3)" by (cases "exec_stmt env 2 ?get d2") auto
  have k1: "keeps d d1" using exec_get_keeps [OF env 1] .
  have k2: "keeps d d2" using k1 exec_insert_keeps [OF env 2] by (rule keeps_trans)
  have k3: "keeps d d3" using k2 exec_get_keeps [OF env 3] by (rule keeps_trans)
  have ref: "keeps x (snd (refreshPendingPlanID env now lock y x))" for x y using env by (rule refreshPendingPlanID_keeps)
  consider "d' = d1" "e \<noteq> None" | "d' = d2" "e \<noteq> None \<or> r2 = Inr ()" | "d' = d3" "e \<noteq> None"
    | x where "r1 = Inr (Some x)" "lk_Owner x = lk_Owner lock" "d' = snd (refreshPendingPlanID env now lock x d1)"
    | x where "r3 = Inr (Some x)" "lk_Owner x = lk_Owner lock" "d' = snd (refreshPendingPlanID env now lock x d3)"
    using run 1 2 3 by (auto simp: acquireOnce_def split: sum.splits option.splits if_splits)
  then have "keeps d d' \<and> (e = None \<longrightarrow> ?held d' = Some (lk_Owner lock))"
  proof cases
    case 2
    then show ?thesis using k2 \<open>exec_stmt env 1 (insert_stmt now lock) d1 = (r2, d2)\<close> exec_insert_holder by auto
  next
    case (4 x)
    have "?held d1 = Some (lk_Owner lock)" using 1 4 exec_get_holder by metis
    then show ?thesis using 4(3) k1 ref [of d1 x] wf by (metis keepsD keeps_trans)
  next
    case (5 x)
    have "?held d3 = Some (lk_Owner lock)" using 3 5 exec_get_holder by metis
    then show ?thesis using 5(3) k3 ref [of d3 x] wf by (metis keepsD keeps_trans)
  qed (use k1 k3 in auto)
  then show "keeps d d'" "e = None \<Longrightarrow> ?held d' = Some (lk_Owner lock)" by blast+
qed

text \<open>The retried call: the environments of all attempts are part of the precondition.\<close>

interpretation acquire: retried_attempt "\<lambda>attempt. acquireOnce (env attempt) now lock"
  "\<lambda>d. wf_locks d \<and> (\<forall>i. env_keeps (env i))" "\<lambda>d d'. keeps d d' \<and> (wf_locks d \<longrightarrow> wf_locks d')"
  "\<lambda>d'. holder (lk_DatabaseName lock) (lk_DatabaseType lock) d' = Some (lk_Owner lock)"
  by unfold_locales (auto intro: keeps_trans dest: keepsD(1) acquireOnce_spec)

text \<open>
  Among any callers, also ones that release, the unique key keeps the table well formed; a call that succeeds then leaves the lock with its owner, up to letter case,
  as the guarded UPDATE compares it.
\<close>

definition env_wf :: "lock_db stmt_env \<Rightarrow> bool" where
  "env_wf env \<longleftrightarrow> (\<forall>i d. wf_locks d \<longrightarrow> wf_locks (se_between env i d))"

definition held_by :: "string \<Rightarrow> string \<Rightarrow> string \<Rightarrow> lock_db \<Rightarrow> bool" where
  "held_by database dbType owner d \<longleftrightarrow> (\<exists>h. holder database dbType d = Some h \<and> sql_eq h owner)"

lemma env_keeps_wf: "env_keeps env \<Longrightarrow> env_wf env"
  by (auto simp: env_keeps_def env_wf_def holder_keeping_def)

lemma exec_stmt_wf:
  assumes "env_wf env" "wf_locks d" "exec_stmt env i f d = (r, d')" "\<And>d. wf_locks d \<Longrightarrow> wf_locks (snd (f d))"
  shows "wf_locks d'"
proof -
  have "wf_locks (se_between env i d)" using assms(1,2) by (simp add: env_wf_def)
  then show ?thesis using assms(3) assms(4) [of "se_between env i d"] by (auto simp: exec_stmt_def Let_def split: option.splits)
qed

lemma exec_wf:
  assumes "env_wf env" "wf_locks d"
  shows "exec_stmt env i (get_stmt database dbType) d = (r, d') \<Longrightarrow> wf_locks d'"
    and "exec_stmt env i (insert_stmt now lock) d = (r2, d') \<Longrightarrow> wf_locks d'"
    and "exec_stmt env i (update_stmt sel (\<lambda>r. r\<lparr>lk_PendingPlanID := plan, lk_UpdatedAt := now\<rparr>)) d = (r3, d') \<Longrightarrow> wf_locks d'"
  using exec_stmt_wf [OF assms] get_keeps.step_wf insert_keeps.step_wf refresh_keeps.step_wf by blast+

lemma refresh_held:
  assumes "env_wf env" "wf_locks d" "held_by (lk_DatabaseName lock) (lk_DatabaseType lock) (lk_Owner lock) d"
    "refreshPendingPlanID env now lock existing d = (e, d')"
  shows "wf_locks d'" "e = None \<Longrightarrow> held_by (lk_DatabaseName lock) (lk_DatabaseType lock) (lk_Owner lock) d'"
proof -
  let ?get = "get_stmt (lk_DatabaseName lock) (lk_DatabaseType lock)" and ?held = "held_by (lk_DatabaseName lock) (lk_DatabaseType lock) (lk_Owner lock)"
  let ?f = "\<lambda>r. r\<lparr>lk_PendingPlanID := lk_PendingPlanID lock, lk_UpdatedAt := now\<rparr>"
  let ?sel = "\<lambda>r. lock_selects (lk_DatabaseName lock) (lk_DatabaseType lock) r \<and> sql_eq (lk_Owner r) (lk_Owner lock)"
  obtain r1 d1 where 1: "exec_stmt env 3 (update_stmt ?sel ?f) d = (r1, d1)" by fastforce
  obtain r2 d2 where 2: "exec_stmt env 4 ?get d1 = (r2, d2)" by fastforce
  have w1: "wf_locks d1" using exec_wf(3) [OF assms(1,2) 1] .
  have w2: "wf_locks d2" using exec_wf(1) [OF assms(1) w1 2] .
  have u: "?held d1" if "r1 = Inr (Suc n)" for n
  proof -
    let ?d0 = "se_between env 3 d"
    have d1: "d1 = snd (update_stmt ?sel ?f ?d0)" "rows_changed ?sel ?f (db_locks ?d0) = Suc n"
      using 1 that by (auto simp: exec_stmt_def update_stmt_def Let_def split: option.splits)
    then obtain r where r: "r \<in> set (db_locks ?d0)" "?sel r" using rows_changed_pos_iff [of ?sel ?f "db_locks ?d0"] by auto
    have "wf_locks ?d0" using assms(1,2) by (simp add: env_wf_def)
    then have "lk_Get (lk_DatabaseName lock) (lk_DatabaseType lock) ?d0 = Some r" using r lk_Get_unique by blast
    then show ?thesis using d1(1) r(2) update_stmt_keeps(2) [of ?f "lk_DatabaseName lock" "lk_DatabaseType lock" ?sel ?d0]
      by (auto simp: held_by_def holder_def lock_key_def)
  qed
  have g: "?held d2" if "r2 = Inr (Some x)" "lk_Owner x = lk_Owner lock" for x
    using exec_get_holder [of env 4 _ _ d1 x d2] 2 that by (simp add: held_by_def)
  show "wf_locks d'" using assms(2,4) 1 2 w1 w2 by (auto simp: refreshPendingPlanID_def split: if_splits sum.splits option.splits)
  show "?held d'" if "e = None"
    using assms(3,4) that 1 2 u g by (auto simp: refreshPendingPlanID_def gr0_conv_Suc split: if_splits sum.splits option.splits)
qed

lemma acquireOnce_held:
  assumes env: "env_wf env" and wf: "wf_locks d" and run: "acquireOnce env now lock d = (e, d')"
  shows "wf_locks d'" "e = None \<Longrightarrow> held_by (lk_DatabaseName lock) (lk_DatabaseType lock) (lk_Owner lock) d'"
proof -
  let ?get = "get_stmt (lk_DatabaseName lock) (lk_DatabaseType lock)" and ?held = "held_by (lk_DatabaseName lock) (lk_DatabaseType lock) (lk_Owner lock)"
  obtain r1 d1 where 1: "exec_stmt env 0 ?get d = (r1, d1)" by fastforce
  obtain r2 d2 where 2: "exec_stmt env 1 (insert_stmt now lock) d1 = (r2, d2)" by fastforce
  obtain r3 d3 where 3: "exec_stmt env 2 ?get d2 = (r3, d3)" by fastforce
  have w1: "wf_locks d1" using exec_wf(1) [OF env wf 1] .
  have w2: "wf_locks d2" using exec_wf(2) [OF env w1 2] .
  have w3: "wf_locks d3" using exec_wf(1) [OF env w2 3] .
  have g: "?held d1" if "r1 = Inr (Some x)" "lk_Owner x = lk_Owner lock" for x using exec_get_holder [of env 0 _ _ d x d1] 1 that by (simp add: held_by_def)
  have g3: "?held d3" if "r3 = Inr (Some x)" "lk_Owner x = lk_Owner lock" for x using exec_get_holder [of env 2 _ _ d2 x d3] 3 that by (simp add: held_by_def)
  have i: "?held d2" if "r2 = Inr u" for u using exec_insert_holder [of env 1 now lock d1 u d2] 2 that by (simp add: held_by_def)
  consider "d' = d1" "e \<noteq> None" | "d' = d2" "e \<noteq> None \<or> r2 = Inr ()" | "d' = d3" "e \<noteq> None"
    | x where "r1 = Inr (Some x)" "lk_Owner x = lk_Owner lock" "refreshPendingPlanID env now lock x d1 = (e, d')"
    | x where "r3 = Inr (Some x)" "lk_Owner x = lk_Owner lock" "refreshPendingPlanID env now lock x d3 = (e, d')"
    using run 1 2 3 by (auto simp: acquireOnce_def split: sum.splits option.splits if_splits)
  then have "wf_locks d' \<and> (e = None \<longrightarrow> ?held d')"
  proof cases
    case (4 x)
    then show ?thesis using refresh_held [OF env w1 g] by blast
  next
    case (5 x)
    then show ?thesis using refresh_held [OF env w3 g3] by blast
  qed (use w1 w2 w3 i in auto)
  then show "wf_locks d'" "e = None \<Longrightarrow> ?held d'" by blast+
qed

interpretation acquire_any: retried_attempt "\<lambda>attempt. acquireOnce (env attempt) now lock"
  "\<lambda>d. wf_locks d \<and> (\<forall>i. env_wf (env i))" "\<lambda>d d'. wf_locks d \<longrightarrow> wf_locks d'"
  "held_by (lk_DatabaseName lock) (lk_DatabaseType lock) (lk_Owner lock)"
  by unfold_locales (auto dest: acquireOnce_held)

subsection \<open>Releasing among other callers\<close>

lemma find_filter: "find P xs = Some x \<Longrightarrow> Q x \<Longrightarrow> find P (filter Q xs) = Some x"
  by (induction xs) (auto split: if_splits)

lemma delete_stmt_wf: "wf_locks d \<Longrightarrow> wf_locks (snd (delete_stmt sel d))"
  by (auto simp: wf_locks_def delete_stmt_def ids_below_def distinct_map list_all_iff inj_on_def)

lemma exec_delete_wf: "env_wf env \<Longrightarrow> wf_locks d \<Longrightarrow> exec_stmt env i (delete_stmt sel) d = (r, d') \<Longrightarrow> wf_locks d'"
  by (rule exec_stmt_wf) (auto intro: delete_stmt_wf)

lemma release_wf: "env_wf env \<Longrightarrow> wf_locks d \<Longrightarrow> wf_locks (snd (lk_Release env database dbType owner d))"
  by (auto simp: lk_Release_def split: prod.splits sum.splits option.splits dest: exec_delete_wf exec_wf(1))

text \<open>Among such callers a release takes at most the named owner's lock on the named database.\<close>

lemma release_spec:
  assumes env: "env_keeps env" and wf: "wf_locks d"
  shows "wf_locks (snd (lk_Release env database dbType owner d))"
    and "holder db' ty' d = Some o' \<Longrightarrow> \<not> (to_lower db' = to_lower database \<and> to_lower ty' = to_lower dbType \<and> sql_eq o' owner)
      \<Longrightarrow> holder db' ty' (snd (lk_Release env database dbType owner d)) = Some o'"
proof -
  let ?sel = "\<lambda>r. lock_selects database dbType r \<and> sql_eq (lk_Owner r) owner"
  let ?d0 = "se_between env 0 d"
  obtain r1 d1 where del: "exec_stmt env 0 (delete_stmt ?sel) d = (r1, d1)" by fastforce
  have k0: "keeps d ?d0" using env by (simp add: env_keeps_def holder_keeping.keeps_step)
  then have wf0: "wf_locks ?d0" using wf by (rule keepsD)
  have d1: "d1 = ?d0 \<or> d1 = snd (delete_stmt ?sel ?d0)" using del by (auto simp: exec_stmt_def Let_def split: option.splits)
  then have wf1: "wf_locks d1" using wf0 delete_stmt_wf by auto
  obtain r2 d2 where get: "exec_stmt env 1 (get_stmt database dbType) d1 = (r2, d2)" by fastforce
  have k2: "keeps d1 d2" by (rule exec_get_keeps [OF env get])
  have res: "snd (lk_Release env database dbType owner d) \<in> {d1, d2}"
    using del get by (auto simp: lk_Release_def split: sum.splits option.splits)
  show "wf_locks (snd (lk_Release env database dbType owner d))" using res wf1 k2 keepsD by auto
  assume held: "holder db' ty' d = Some o'" and other: "\<not> (to_lower db' = to_lower database \<and> to_lower ty' = to_lower dbType \<and> sql_eq o' owner)"
  have held0: "holder db' ty' ?d0 = Some o'" using k0 wf held by (simp add: keeps_def)
  then obtain r where r: "lk_Get db' ty' ?d0 = Some r" "lk_Owner r = o'" by (auto simp: holder_def)
  have "\<not> ?sel r" using other r lk_Get_SomeD [OF r(1)] by (auto simp: lock_selects_key lock_key_def)
  then have "lk_Get db' ty' (snd (delete_stmt ?sel ?d0)) = Some r"
    using r(1) find_filter [of "lock_selects db' ty'" "db_locks ?d0" r "\<lambda>r. \<not> ?sel r"] by (simp add: lk_Get_def delete_stmt_def)
  then have "holder db' ty' d1 = Some o'" using d1 held0 r by (auto simp: holder_def)
  moreover from this have "holder db' ty' d2 = Some o'" using k2 wf1 by (simp add: keeps_def)
  ultimately show "holder db' ty' (snd (lk_Release env database dbType owner d)) = Some o'" using res by auto
qed

subsection \<open>Properties\<close>

definition sample_lock :: "string \<Rightarrow> string \<Rightarrow> Lock" where
  "sample_lock owner plan = \<lparr>lk_ID = 0, lk_DatabaseName = ''shop'', lk_DatabaseType = ''mysql'', lk_Repository = ''o/r'',
     lk_PullRequest = 7, lk_Owner = owner, lk_PendingPlanID = plan, lk_CreatedAt = 0, lk_UpdatedAt = 0\<rparr>"

definition no_locks :: lock_db where
  "no_locks = \<lparr>db_locks = [], next_lock_id = 1\<rparr>"

text \<open>A racing environment: the first attempt's INSERT is a deadlock victim; during the second one another call of the same owner,
with another plan, inserts the lock just before this call does.\<close>

definition racing :: "nat \<Rightarrow> lock_db stmt_env" where
  "racing attempt = (if attempt = 0 then quiet\<lparr>se_fault := (\<lambda>_. None)(1 := Some (mysqlErrDeadlock, ''Deadlock found''))\<rparr>
     else quiet\<lparr>se_between := (\<lambda>_. id)(1 := (\<lambda>d. snd (insert_stmt 50 (sample_lock ''o/r#7'' ''p1'') d)))\<rparr>)"

lemma id_keeping: "holder_keeping id"
  by unfold_locales simp_all

lemma racing_keeps: "env_keeps (racing attempt)"
  using id_keeping insert_keeps.holder_keeping_axioms by (auto simp: env_keeps_def racing_def quiet_def)

text \<open>
  A lock excludes (C19). Whatever other callers do between the statements of an acquire, releases included, as long as the unique key holds: an acquire that
  reports success leaves the lock of the database with its owner, up to letter case, at its last statement. And when nobody else releases a held lock
  meanwhile, every lock that was held keeps its holder, whatever the call reports, so it fails for a database that another owner holds -
  across retries, insert races and statements that fail.
\<close>

theorem acquire_excludes_other_owners:
  assumes "\<forall>attempt. env_wf (env attempt)" "wf_locks d" "lk_Acquire cancelled env now lock d = (e, d')"
  shows "wf_locks d' \<and> (e = None \<longrightarrow> held_by (lk_DatabaseName lock) (lk_DatabaseType lock) (lk_Owner lock) d')
    \<and> ((\<forall>attempt. env_keeps (env attempt)) \<longrightarrow>
         (\<forall>database dbType owner. holder database dbType d = Some owner \<longrightarrow> holder database dbType d' = Some owner)
         \<and> (\<forall>owner. holder (lk_DatabaseName lock) (lk_DatabaseType lock) d = Some owner \<longrightarrow> owner \<noteq> lk_Owner lock \<longrightarrow> e \<noteq> None))"
proof -
  have any: "wf_locks d' \<and> (e = None \<longrightarrow> held_by (lk_DatabaseName lock) (lk_DatabaseType lock) (lk_Owner lock) d')"
    using acquire_any.withLockRetry_spec [of d env cancelled now lock e d'] assms by (auto simp: lk_Acquire_def)
  have "keeps d d' \<and> (e = None \<longrightarrow> holder (lk_DatabaseName lock) (lk_DatabaseType lock) d' = Some (lk_Owner lock))" if "\<forall>attempt. env_keeps (env attempt)"
    using acquire.withLockRetry_spec [of d env cancelled now lock e d'] assms that by (auto simp: lk_Acquire_def)
  with any assms(2) show ?thesis by (auto simp: keeps_def)
qed

text \<open>Bob's lock excludes Ann; and a release in the middle of Ann's call lets her in.\<close>

definition releasing :: "nat \<Rightarrow> lock_db stmt_env" where
  "releasing attempt = quiet\<lparr>se_between := (\<lambda>_. id)(0 := (\<lambda>d. snd (lk_Release quiet ''shop'' ''mysql'' ''bob'' d)))\<rparr>"

lemma quiet_wf: "env_wf quiet" by (simp add: env_wf_def quiet_def)

theorem acquire_excludes_other_owners_witness:
  "fst (lk_Acquire (\<lambda>_. False) racing 60 (sample_lock ''ann'' ''p2'') (snd (insert_stmt 50 (sample_lock ''bob'' ''p1'') no_locks))) \<noteq> None
   \<and> held_by ''shop'' ''mysql'' ''ann'' (snd (lk_Acquire (\<lambda>_. False) releasing 60 (sample_lock ''ann'' ''p2'') (snd (insert_stmt 50 (sample_lock ''bob'' ''p1'') no_locks))))"
proof
  let ?d = "snd (insert_stmt 50 (sample_lock ''bob'' ''p1'') no_locks)" and ?l = "sample_lock ''ann'' ''p2''"
  let ?r = "lk_Acquire (\<lambda>_. False) racing 60 ?l ?d" and ?q = "lk_Acquire (\<lambda>_. False) releasing 60 ?l ?d"
  have wf: "wf_locks ?d" by code_simp
  have h: "holder (lk_DatabaseName ?l) (lk_DatabaseType ?l) ?d = Some ''bob''" "''bob'' \<noteq> lk_Owner ?l" by code_simp+
  have env: "\<forall>attempt. env_wf (racing attempt)" using racing_keeps env_keeps_wf by blast
  from acquire_excludes_other_owners [OF env wf, of "\<lambda>_. False" 60 ?l "fst ?r" "snd ?r"] racing_keeps h show "fst ?r \<noteq> None" by simp
  have "wf_locks (snd (lk_Release quiet ''shop'' ''mysql'' ''bob'' d))" if "wf_locks d" for d
    using release_wf [OF quiet_wf that] .
  then have env: "\<forall>attempt. env_wf (releasing attempt)" by (simp add: env_wf_def releasing_def quiet_def)
  have "fst ?q = None" by code_simp
  with acquire_excludes_other_owners [OF env wf, of "\<lambda>_. False" 60 ?l "fst ?q" "snd ?q"]
  show "held_by ''shop'' ''mysql'' ''ann'' (snd ?q)" by (simp add: sample_lock_def)
qed

lemma release_alone:
  assumes "wf_locks d"
  shows "lk_Release quiet database dbType owner d = (case holder database dbType d of
      None \<Rightarrow> (Some (Store_Error ErrLockNotFound), d)
    | Some held \<Rightarrow> if sql_eq held owner then (None, d\<lparr>db_locks := filter (\<lambda>r. \<not> lock_selects database dbType r) (db_locks d)\<rparr>)
        else (Some (Store_Error ErrLockNotOwned), d))"
    and "lk_Release quiet database dbType owner d = (None, d') \<Longrightarrow> holder database dbType d' = None"
proof -
  let ?sel = "\<lambda>r. lock_selects database dbType r \<and> sql_eq (lk_Owner r) owner"
  have del: "filter ?sel (db_locks d) = [] \<Longrightarrow> d\<lparr>db_locks := filter (\<lambda>r. \<not> ?sel r) (db_locks d)\<rparr> = d"
    by (simp add: filter_empty_conv cong: filter_cong)
  show main: "lk_Release quiet database dbType owner d = (case holder database dbType d of
      None \<Rightarrow> (Some (Store_Error ErrLockNotFound), d)
    | Some held \<Rightarrow> if sql_eq held owner then (None, d\<lparr>db_locks := filter (\<lambda>r. \<not> lock_selects database dbType r) (db_locks d)\<rparr>)
        else (Some (Store_Error ErrLockNotOwned), d))"
  proof (cases "lk_Get database dbType d")
    case None
    then have "filter ?sel (db_locks d) = []" by (auto simp: lk_Get_None_iff list_ex_iff filter_empty_conv)
    then show ?thesis using None del
      by (simp add: lk_Release_def exec_stmt_def quiet_def delete_stmt_def get_stmt_def holder_def)
  next
    case (Some r)
    note r = lk_Get_SomeD [OF Some]
    have uniq: "q = r" if "q \<in> set (db_locks d)" "lock_selects database dbType q" for q
      using lk_Get_unique [OF assms that] Some by simp
    show ?thesis
    proof (cases "sql_eq (lk_Owner r) owner")
      case True
      then have "filter ?sel (db_locks d) \<noteq> []" using r by (auto simp: filter_empty_conv)
      moreover have "filter (\<lambda>r. \<not> ?sel r) (db_locks d) = filter (\<lambda>r. \<not> lock_selects database dbType r) (db_locks d)"
        using uniq True by (intro filter_cong) auto
      ultimately show ?thesis using True Some by (simp add: lk_Release_def exec_stmt_def quiet_def delete_stmt_def holder_def)
    next
      case False
      then have "filter ?sel (db_locks d) = []" using uniq by (auto simp: filter_empty_conv)
      then show ?thesis using False Some del
        by (simp add: lk_Release_def exec_stmt_def quiet_def delete_stmt_def get_stmt_def holder_def)
    qed
  qed
  show "holder database dbType d' = None" if "lk_Release quiet database dbType owner d = (None, d')"
    using that unfolding main by (auto simp: holder_def lk_Get_None_iff list_ex_iff split: option.splits if_splits)
qed

text \<open>Releasing: run alone, Release removes the lock when the stored owner matches, reports that the caller does not own it and changes nothing
when another owner holds it, and reports that there is no lock when there is none; after a release the database is free.\<close>

theorem release_only_by_owner:
  assumes "wf_locks d"
  shows "lk_Release quiet database dbType owner d = (case holder database dbType d of
      None \<Rightarrow> (Some (Store_Error ErrLockNotFound), d)
    | Some held \<Rightarrow> if sql_eq held owner then (None, d\<lparr>db_locks := filter (\<lambda>r. \<not> lock_selects database dbType r) (db_locks d)\<rparr>)
        else (Some (Store_Error ErrLockNotOwned), d))
    \<and> (fst (lk_Release quiet database dbType owner d) = None \<longrightarrow> holder database dbType (snd (lk_Release quiet database dbType owner d)) = None)"
  using release_alone(1) [OF assms] release_alone(2) [OF assms, of database dbType owner "snd (lk_Release quiet database dbType owner d)"]
  by (metis prod.collapse)

theorem release_only_by_owner_witness:
  "lk_Release quiet ''shop'' ''mysql'' ''o/r#8'' (snd (insert_stmt 50 (sample_lock ''o/r#7'' ''p1'') no_locks))
     = (Some (Store_Error ErrLockNotOwned), snd (insert_stmt 50 (sample_lock ''o/r#7'' ''p1'') no_locks))"
proof -
  let ?d = "snd (insert_stmt 50 (sample_lock ''o/r#7'' ''p1'') no_locks)"
  have "wf_locks ?d" "holder ''shop'' ''mysql'' ?d = Some ''o/r#7''" "\<not> sql_eq ''o/r#7'' ''o/r#8''" by code_simp+
  then show ?thesis using release_only_by_owner [of ?d "''shop''" "''mysql''" "''o/r#8''"] by simp
qed

text \<open>The owner is compared by the server on release and by the program on acquire: an owner that differs in case only is refused
when it acquires, and removes the lock when it releases.\<close>

lemma release_ignores_owner_case:
  "fst (lk_Acquire (\<lambda>_. False) (\<lambda>_. quiet) 60 (sample_lock ''CLI:Bob'' [])
      (snd (lk_Acquire (\<lambda>_. False) (\<lambda>_. quiet) 50 (sample_lock ''cli:bob'' []) no_locks))) = Some (Store_Error ErrLockHeld)"
  "lk_Release quiet ''shop'' ''mysql'' ''CLI:Bob''
      (snd (lk_Acquire (\<lambda>_. False) (\<lambda>_. quiet) 50 (sample_lock ''cli:bob'' []) no_locks)) = (None, no_locks\<lparr>next_lock_id := 2\<rparr>)"
  by code_simp+

end
