(* ===== verification/SB_Mutex.thy ===== *)
theory SB_Mutex
  imports SB_Locks
begin

section \<open>The lock store as a mutex\<close>

text \<open>
  What the lock store promises its callers: a map from databases to owners. Calls that run one after the other, each seeing what the ones before it left,
  behave as calls of that map; the rows with their identifiers, plans and times are not visible in it. The map compares owners exactly, as the documentation of
  Release has it. MySQL compares them without regard to case, so the promise is kept among owners that do not differ in case only.
\<close>

subsection \<open>Simulation\<close>

text \<open>A sequence of calls, with the result of each.\<close>

fun run_calls :: "('c \<Rightarrow> 's \<Rightarrow> 'r \<times> 's) \<Rightarrow> 'c list \<Rightarrow> 's \<Rightarrow> 'r list \<times> 's" where
  "run_calls step [] s = ([], s)"
| "run_calls step (c # cs) s = (case step c s of (r, s1) \<Rightarrow> case run_calls step cs s1 of (rs, s2) \<Rightarrow> (r # rs, s2))"

text \<open>
  The contract of an implementation: from well-formed states, each admitted call keeps them well formed, returns what the specification returns and leads to a
  state whose abstraction is the specification's.
\<close>

locale call_refinement =
  fixes wf :: "'s \<Rightarrow> bool" and ok :: "'c \<Rightarrow> bool" and abs :: "'s \<Rightarrow> 'a" and step :: "'c \<Rightarrow> 's \<Rightarrow> 'r \<times> 's" and spec :: "'c \<Rightarrow> 'a \<Rightarrow> 'r \<times> 'a"
  assumes step_wf: "wf s \<Longrightarrow> ok c \<Longrightarrow> wf (snd (step c s))"
    and step_spec: "wf s \<Longrightarrow> ok c \<Longrightarrow> spec c (abs s) = (fst (step c s), abs (snd (step c s)))"
begin

lemma run_calls_refine:
  "wf s \<Longrightarrow> list_all ok cs \<Longrightarrow> wf (snd (run_calls step cs s)) \<and> run_calls spec cs (abs s) = (fst (run_calls step cs s), abs (snd (run_calls step cs s)))"
proof (induction cs arbitrary: s)
  case (Cons c cs)
  then have "ok c" "list_all ok cs" by simp_all
  with Cons.IH [OF step_wf [OF Cons.prems(1)]] step_spec [OF Cons.prems(1)] show ?case by (simp add: split_beta)
qed simp

end

subsection \<open>The mutex\<close>

datatype lock_call =
    Call_Acquire Lock
  | Call_Release string string string
  | Call_ForceRelease string string
  | Call_Update Lock

type_synonym mutex = "string \<times> string \<rightharpoonup> string"

definition database_id :: "string \<Rightarrow> string \<Rightarrow> string \<times> string" where
  "database_id database dbType = (to_lower database, to_lower dbType)"

fun mutex_call :: "lock_call \<Rightarrow> mutex \<Rightarrow> lock_error option \<times> mutex" where
  "mutex_call (Call_Acquire lock) m =
     (let k = database_id (lk_DatabaseName lock) (lk_DatabaseType lock) in
      case m k of
        None \<Rightarrow> (None, m(k \<mapsto> lk_Owner lock))
      | Some held \<Rightarrow> if held = lk_Owner lock then (None, m) else (Some (Store_Error ErrLockHeld), m))"
| "mutex_call (Call_Release database dbType owner) m =
     (let k = database_id database dbType in
      case m k of
        None \<Rightarrow> (Some (Store_Error ErrLockNotFound), m)
      | Some held \<Rightarrow> if held = owner then (None, m(k := None)) else (Some (Store_Error ErrLockNotOwned), m))"
| "mutex_call (Call_ForceRelease database dbType) m =
     (let k = database_id database dbType in
      case m k of None \<Rightarrow> (Some (Store_Error ErrLockNotFound), m) | Some _ \<Rightarrow> (None, m(k := None)))"
| "mutex_call (Call_Update lock) m =
     (case m (database_id (lk_DatabaseName lock) (lk_DatabaseType lock)) of None \<Rightarrow> (Some (Store_Error ErrLockNotFound), m) | Some _ \<Rightarrow> (None, m))"

text \<open>The same calls on the store, with nobody in between.\<close>

fun store_call :: "int \<Rightarrow> lock_call \<Rightarrow> lock_db \<Rightarrow> lock_error option \<times> lock_db" where
  "store_call now (Call_Acquire lock) d = lk_Acquire (\<lambda>_. False) (\<lambda>_. quiet) now lock d"
| "store_call now (Call_Release database dbType owner) d = lk_Release quiet database dbType owner d"
| "store_call now (Call_ForceRelease database dbType) d = ForceRelease quiet database dbType d"
| "store_call now (Call_Update lock) d = lk_Update quiet now lock d"

text \<open>Calls carry the time at which they run; the owners that occur must not differ in case only.\<close>

fun call_owner :: "lock_call \<Rightarrow> string set" where
  "call_owner (Call_Acquire lock) = {lk_Owner lock}"
| "call_owner (Call_Release database dbType owner) = {owner}"
| "call_owner (Call_ForceRelease database dbType) = {}"
| "call_owner (Call_Update lock) = {}"

definition owners :: "lock_db \<Rightarrow> string set" where
  "owners d = lk_Owner ` set (db_locks d)"

definition held_locks :: "lock_db \<Rightarrow> mutex" where
  "held_locks d k = map_option lk_Owner (find (\<lambda>r. lock_key r = k) (db_locks d))"

lemma held_locks_holder: "held_locks d (database_id database dbType) = holder database dbType d"
proof -
  have "(\<lambda>r. lock_key r = (to_lower database, to_lower dbType)) = lock_selects database dbType"
    by (auto simp: fun_eq_iff lock_key_def lock_selects_def sql_eq_def)
  then show ?thesis by (simp add: held_locks_def holder_def lk_Get_def database_id_def)
qed

lemma held_locks_Some_iff:
  assumes "wf_locks d"
  shows "held_locks d k = Some owner \<longleftrightarrow> (\<exists>r \<in> set (db_locks d). lock_key r = k \<and> lk_Owner r = owner)"
proof
  assume "held_locks d k = Some owner"
  then show "\<exists>r \<in> set (db_locks d). lock_key r = k \<and> lk_Owner r = owner" by (auto simp: held_locks_def find_Some_iff)
next
  assume "\<exists>r \<in> set (db_locks d). lock_key r = k \<and> lk_Owner r = owner"
  then obtain r where r: "r \<in> set (db_locks d)" "lock_key r = k" "lk_Owner r = owner" by blast
  then obtain q where q: "find (\<lambda>r. lock_key r = k) (db_locks d) = Some q" by (cases "find (\<lambda>r. lock_key r = k) (db_locks d)") (auto simp: find_None_iff)
  then have "q \<in> set (db_locks d)" "lock_key q = k" by (auto simp: find_Some_iff)
  with r assms have "q = r" by (auto simp: wf_locks_def distinct_map inj_on_def)
  with q r show "held_locks d k = Some owner" by (simp add: held_locks_def)
qed

lemma option_eqI: "(\<And>y. a = Some y \<longleftrightarrow> b = Some y) \<Longrightarrow> a = b"
  by (cases a; cases b) auto

lemma held_locks_eqI:
  assumes "wf_locks d" "wf_locks d'" "(\<lambda>r. (lock_key r, lk_Owner r)) ` set (db_locks d) = (\<lambda>r. (lock_key r, lk_Owner r)) ` set (db_locks d')"
  shows "held_locks d = held_locks d'"
proof (intro ext option_eqI)
  fix k owner
  have "held_locks d k = Some owner \<longleftrightarrow> (k, owner) \<in> (\<lambda>r. (lock_key r, lk_Owner r)) ` set (db_locks d)" if "wf_locks d" for d
    unfolding held_locks_Some_iff [OF that] by auto
  then show "held_locks d k = Some owner \<longleftrightarrow> held_locks d' k = Some owner" using assms by simp
qed

text \<open>What the statements do to the map.\<close>

lemma held_locks_delete:
  assumes "wf_locks d" "\<And>r. r \<in> set (db_locks d) \<Longrightarrow> sel r \<longleftrightarrow> lock_key r = k"
  shows "held_locks (d\<lparr>db_locks := filter (\<lambda>r. \<not> sel r) (db_locks d)\<rparr>) = (held_locks d)(k := None)" (is "held_locks ?d' = _")
proof (intro ext option_eqI)
  fix q owner
  have wf: "wf_locks ?d'" using delete_stmt_wf [OF assms(1), of sel] by (simp add: delete_stmt_def)
  have "held_locks ?d' q = Some owner \<longleftrightarrow> q \<noteq> k \<and> held_locks d q = Some owner"
    unfolding held_locks_Some_iff [OF wf] held_locks_Some_iff [OF assms(1)] using assms(2) by auto
  then show "held_locks ?d' q = Some owner \<longleftrightarrow> ((held_locks d)(k := None)) q = Some owner" by auto
qed

lemma held_locks_insert:
  assumes "lk_Get database dbType d = None" "lock_key r = database_id database dbType"
  shows "held_locks \<lparr>db_locks = db_locks d @ [r], next_lock_id = n\<rparr> = (held_locks d)(database_id database dbType \<mapsto> lk_Owner r)"
proof -
  have "held_locks d (database_id database dbType) = None" using assms(1) by (simp add: held_locks_holder holder_def)
  moreover have "find P (xs @ [x]) = (case find P xs of None \<Rightarrow> if P x then Some x else None | Some y \<Rightarrow> Some y)" for P :: "Lock \<Rightarrow> bool" and xs x
    by (induction xs) auto
  ultimately show ?thesis using assms(2) by (auto simp: fun_eq_iff held_locks_def split: option.splits)
qed

lemma held_locks_update:
  assumes "wf_locks d" "\<And>r. lock_key (f r) = lock_key r" "\<And>r. lk_Owner (f r) = lk_Owner r" "\<And>r. lk_ID (f r) = lk_ID r"
  shows "wf_locks (d\<lparr>db_locks := update_where sel f (db_locks d)\<rparr>)" "held_locks (d\<lparr>db_locks := update_where sel f (db_locks d)\<rparr>) = held_locks d"
proof -
  have map_same: "map g (update_where sel f xs) = map g xs" if "\<And>r. g (f r) = g r" for g :: "Lock \<Rightarrow> 'b" and xs
    by (induction xs) (simp_all add: update_where_def that)
  show wf: "wf_locks (d\<lparr>db_locks := update_where sel f (db_locks d)\<rparr>)"
    using assms(1) by (simp add: wf_locks_def map_same assms(2,4))
  have "map (\<lambda>r. (lock_key r, lk_Owner r)) (update_where sel f (db_locks d)) = map (\<lambda>r. (lock_key r, lk_Owner r)) (db_locks d)"
    by (rule map_same) (simp add: assms(2,3))
  then have "(\<lambda>r. (lock_key r, lk_Owner r)) ` set (update_where sel f (db_locks d)) = (\<lambda>r. (lock_key r, lk_Owner r)) ` set (db_locks d)"
    by (metis list.set_map)
  then show "held_locks (d\<lparr>db_locks := update_where sel f (db_locks d)\<rparr>) = held_locks d" using held_locks_eqI [OF wf assms(1)] by simp
qed

lemma quiet_exec: "exec_stmt quiet i f d = f d"
  by (simp add: exec_stmt_def quiet_def)

lemma selects_database_id: "lock_selects database dbType r \<longleftrightarrow> lock_key r = database_id database dbType"
  by (auto simp: lock_key_def lock_selects_def sql_eq_def database_id_def)

text \<open>A call without deadlocks is one attempt.\<close>

lemma retry_once: "fst (fn 0 s) = None \<or> (\<exists>e. fst (fn 0 s) = Some e \<and> \<not> isRetryableLockError e) \<Longrightarrow> withLockRetry cancelled fn s = fn 0 s"
  by (cases "fn 0 s") (auto simp: withLockRetry_def lockRetryMaxAttempts_def eval_nat_numeral)

lemma refresh_alone:
  assumes "wf_locks d" "lk_Get (lk_DatabaseName lock) (lk_DatabaseType lock) d = Some existing" "lk_Owner existing = lk_Owner lock"
  shows "fst (refreshPendingPlanID quiet now lock existing d) = None" "wf_locks (snd (refreshPendingPlanID quiet now lock existing d))"
    "held_locks (snd (refreshPendingPlanID quiet now lock existing d)) = held_locks d"
proof -
  let ?sel = "\<lambda>r. lock_selects (lk_DatabaseName lock) (lk_DatabaseType lock) r \<and> sql_eq (lk_Owner r) (lk_Owner lock)"
  let ?f = "\<lambda>r. r\<lparr>lk_PendingPlanID := lk_PendingPlanID lock, lk_UpdatedAt := now\<rparr>"
  have "lock_key (?f r) = lock_key r" "lk_Owner (?f r) = lk_Owner r" "lk_ID (?f r) = lk_ID r" for r by (simp_all add: lock_key_def)
  note upd = held_locks_update [OF assms(1) this, where sel = ?sel]
  have "holder (lk_DatabaseName lock) (lk_DatabaseType lock) (d\<lparr>db_locks := update_where ?sel ?f (db_locks d)\<rparr>) = Some (lk_Owner lock)"
    using assms upd(2) by (simp flip: held_locks_holder) (simp add: held_locks_holder holder_def)
  then obtain current where "lk_Get (lk_DatabaseName lock) (lk_DatabaseType lock) (d\<lparr>db_locks := update_where ?sel ?f (db_locks d)\<rparr>) = Some current"
    "lk_Owner current = lk_Owner lock" by (auto simp: holder_def)
  then show "fst (refreshPendingPlanID quiet now lock existing d) = None" "wf_locks (snd (refreshPendingPlanID quiet now lock existing d))"
    "held_locks (snd (refreshPendingPlanID quiet now lock existing d)) = held_locks d"
    using assms upd by (auto simp: refreshPendingPlanID_def quiet_exec update_stmt_def get_stmt_def)
qed

lemma acquire_alone:
  assumes "wf_locks d"
  shows "wf_locks (snd (store_call now (Call_Acquire lock) d))"
    "mutex_call (Call_Acquire lock) (held_locks d) = (fst (store_call now (Call_Acquire lock) d), held_locks (snd (store_call now (Call_Acquire lock) d)))"
proof -
  let ?get = "lk_Get (lk_DatabaseName lock) (lk_DatabaseType lock) d" and ?once = "acquireOnce quiet now lock d"
  have once: "store_call now (Call_Acquire lock) d = ?once" if "fst ?once = None \<or> fst ?once = Some (Store_Error ErrLockHeld)"
    using retry_once [of "\<lambda>attempt. acquireOnce quiet now lock" d "\<lambda>_. False"] that by (auto simp: lk_Acquire_def isRetryableLockError_def)
  have "wf_locks (snd ?once) \<and> (fst ?once = None \<or> fst ?once = Some (Store_Error ErrLockHeld))
    \<and> mutex_call (Call_Acquire lock) (held_locks d) = (fst ?once, held_locks (snd ?once))"
  proof (cases ?get)
    case None
    let ?new = "lock\<lparr>lk_ID := next_lock_id d, lk_CreatedAt := now, lk_UpdatedAt := now\<rparr>"
    have run: "?once = (None, \<lparr>db_locks = db_locks d @ [?new], next_lock_id = next_lock_id d + 1\<rparr>)"
      using None iffD1 [OF lk_Get_None_iff None] by (simp add: acquireOnce_def quiet_exec get_stmt_def insert_stmt_def)
    have "lock_key ?new = database_id (lk_DatabaseName lock) (lk_DatabaseType lock)" by (simp add: lock_key_def database_id_def)
    from held_locks_insert [OF None this] have "held_locks (snd ?once) = (held_locks d)(database_id (lk_DatabaseName lock) (lk_DatabaseType lock) \<mapsto> lk_Owner lock)"
      by (simp add: run)
    moreover have "wf_locks (snd ?once)" using insert_keeps.keeps_step [of d now lock] assms run None
      by (auto simp: keeps_def insert_stmt_def lk_Get_None_iff)
    ultimately show ?thesis using None run by (simp add: held_locks_holder holder_def Let_def)
  next
    case (Some existing)
    then show ?thesis using refresh_alone [OF assms Some, of now] assms
      by (cases "lk_Owner existing = lk_Owner lock") (auto simp: acquireOnce_def quiet_exec get_stmt_def held_locks_holder holder_def Let_def)
  qed
  with once show "wf_locks (snd (store_call now (Call_Acquire lock) d))"
    "mutex_call (Call_Acquire lock) (held_locks d) = (fst (store_call now (Call_Acquire lock) d), held_locks (snd (store_call now (Call_Acquire lock) d)))"
    by (metis (no_types))+
qed

lemma held_locks_free: "wf_locks d \<Longrightarrow> held_locks (d\<lparr>db_locks := filter (\<lambda>r. \<not> lock_selects database dbType r) (db_locks d)\<rparr>)
    = (held_locks d)(database_id database dbType := None)"
  by (rule held_locks_delete) (simp_all add: selects_database_id)

lemma filter_wf: "wf_locks d \<Longrightarrow> wf_locks (d\<lparr>db_locks := filter P (db_locks d)\<rparr>)"
  using delete_stmt_wf [of d "\<lambda>r. \<not> P r"] by (simp add: delete_stmt_def)

lemma free_alone:
  assumes "wf_locks d" "lk_Get database dbType d = None"
  shows "filter (lock_selects database dbType) (db_locks d) = []"
  using assms(2) by (auto simp: lk_Get_None_iff list_ex_iff filter_empty_conv)

lemma holder_owners: "holder database dbType d = Some h \<Longrightarrow> h \<in> owners d"
  by (auto simp: holder_def owners_def dest!: lk_Get_SomeD)

lemma owners_ran: "wf_locks d \<Longrightarrow> owners d = ran (held_locks d)"
  by (auto simp: owners_def ran_def held_locks_Some_iff simp del: split_paired_Ex)

lemma mutex_call_ran: "ran (snd (mutex_call c m)) \<subseteq> ran m \<union> call_owner c"
  by (cases c) (auto simp: ran_def Let_def split: option.splits if_splits)

interpretation lock_store: call_refinement "\<lambda>d. wf_locks d \<and> inj_on to_lower names \<and> owners d \<subseteq> names" "\<lambda>(now, c). call_owner c \<subseteq> names" held_locks
  "\<lambda>(now, c). store_call now c" "\<lambda>(now, c). mutex_call c" for names
proof
  fix d and nc :: "int \<times> lock_call"
  obtain now c where nc: "nc = (now, c)" by fastforce
  assume a1: "wf_locks d \<and> inj_on to_lower names \<and> owners d \<subseteq> names" and a2: "case nc of (now, c) \<Rightarrow> call_owner c \<subseteq> names"
  then have wf: "wf_locks d" and names: "inj_on to_lower names" "owners d \<subseteq> names" "call_owner c \<subseteq> names" by (simp_all add: nc)
  have main: "wf_locks (snd (store_call now c d)) \<and> mutex_call c (held_locks d) = (fst (store_call now c d), held_locks (snd (store_call now c d)))"
  proof (cases c)
    case (Call_Acquire lock)
    then show ?thesis using acquire_alone [OF wf] by (simp only:)
  next
    case (Call_Release database dbType owner)
    have "sql_eq h owner \<longleftrightarrow> h = owner" if "holder database dbType d = Some h" for h
      using holder_owners [OF that] names Call_Release by (auto simp: sql_eq_def inj_on_def)
    with Call_Release show ?thesis using wf release_alone(1) [OF wf, of database dbType owner]
      by (auto simp: held_locks_holder held_locks_free filter_wf Let_def split: option.splits)
  next
    case (Call_ForceRelease database dbType)
    show ?thesis
    proof (cases "lk_Get database dbType d")
      case None
      then have "filter (\<lambda>r. \<not> lock_selects database dbType r) (db_locks d) = db_locks d"
        by (auto simp: lk_Get_None_iff list_ex_iff filter_id_conv)
      then show ?thesis using None wf Call_ForceRelease free_alone [OF wf None]
        by (simp add: ForceRelease_def quiet_exec delete_stmt_def held_locks_holder holder_def)
    next
      case (Some r)
      then have "filter (lock_selects database dbType) (db_locks d) \<noteq> []" using lk_Get_SomeD [OF Some] by (auto simp: filter_empty_conv)
      then show ?thesis using Some wf Call_ForceRelease
        by (auto simp: ForceRelease_def quiet_exec delete_stmt_def held_locks_holder holder_def held_locks_free filter_wf)
    qed
  next
    case (Call_Update lock)
    let ?sel = "lock_selects (lk_DatabaseName lock) (lk_DatabaseType lock)" and ?f = "\<lambda>r. r\<lparr>lk_UpdatedAt := now\<rparr>"
    have "lock_key (?f r) = lock_key r" "lk_Owner (?f r) = lk_Owner r" "lk_ID (?f r) = lk_ID r" for r by (simp_all add: lock_key_def)
    note upd = held_locks_update [OF wf this, where sel = ?sel]
    let ?d = "d\<lparr>db_locks := update_where ?sel ?f (db_locks d)\<rparr>"
    have same: "lk_Get (lk_DatabaseName lock) (lk_DatabaseType lock) ?d = None \<longleftrightarrow> lk_Get (lk_DatabaseName lock) (lk_DatabaseType lock) d = None"
      using upd(2) held_locks_holder [of ?d "lk_DatabaseName lock" "lk_DatabaseType lock"] held_locks_holder [of d "lk_DatabaseName lock" "lk_DatabaseType lock"]
      by (metis holder_def map_option_is_None)
    have none: "rows_changed ?sel ?f (db_locks d) = 0" if "lk_Get (lk_DatabaseName lock) (lk_DatabaseType lock) d = None"
      using free_alone [OF wf that] by (simp add: rows_changed_def filter_empty_conv)
    show ?thesis using Call_Update same none upd
      by (auto simp: lk_Update_def quiet_exec update_stmt_def get_stmt_def held_locks_holder holder_def split: option.splits)
  qed
  have "owners (snd (store_call now c d)) \<subseteq> names"
    using main mutex_call_ran [of c "held_locks d"] names wf by (auto simp: owners_ran)
  with main names nc show "wf_locks (snd ((case nc of (now, c) \<Rightarrow> store_call now c) d)) \<and> inj_on to_lower names
      \<and> owners (snd ((case nc of (now, c) \<Rightarrow> store_call now c) d)) \<subseteq> names"
    "(case nc of (now, c) \<Rightarrow> mutex_call c) (held_locks d) = (fst ((case nc of (now, c) \<Rightarrow> store_call now c) d),
      held_locks (snd ((case nc of (now, c) \<Rightarrow> store_call now c) d)))" by simp_all
qed

text \<open>
  The lock store is a mutex (C20): any sequence of acquire, release, force release and refresh calls, each at its own time and one after the other, returns
  what the same calls on a map from databases to owners return, which compares owners exactly, and leaves the store holding exactly what the map
  holds - provided no two owners among the holders and the callers differ in letter case only.
\<close>

theorem lock_store_refines_mutex:
  assumes "wf_locks d" "inj_on to_lower (owners d \<union> \<Union> (call_owner ` snd ` set calls))"
  shows "run_calls (\<lambda>(now, c). mutex_call c) calls (held_locks d)
      = (fst (run_calls (\<lambda>(now, c). store_call now c) calls d), held_locks (snd (run_calls (\<lambda>(now, c). store_call now c) calls d)))
    \<and> wf_locks (snd (run_calls (\<lambda>(now, c). store_call now c) calls d))"
proof -
  let ?names = "owners d \<union> \<Union> (call_owner ` snd ` set calls)"
  have "list_all (\<lambda>(now, c). call_owner c \<subseteq> ?names) calls" by (force simp: list_all_iff)
  with assms lock_store.run_calls_refine [of d ?names calls] show ?thesis by blast
qed

theorem lock_store_refines_mutex_witness:
  "fst (run_calls (\<lambda>(now, c). store_call now c) [(50, Call_Acquire (sample_lock ''o/r#7'' ''p1'')), (51, Call_Acquire (sample_lock ''o/r#8'' ''p2'')),
     (52, Call_Release ''shop'' ''mysql'' ''o/r#8''), (53, Call_ForceRelease ''Shop'' ''mysql''), (54, Call_Acquire (sample_lock ''o/r#8'' ''p2''))] no_locks)
   = [None, Some (Store_Error ErrLockHeld), Some (Store_Error ErrLockNotOwned), None, None]"
proof -
  let ?calls = "[(50, Call_Acquire (sample_lock ''o/r#7'' ''p1'')), (51, Call_Acquire (sample_lock ''o/r#8'' ''p2'')),
     (52, Call_Release ''shop'' ''mysql'' ''o/r#8''), (53, Call_ForceRelease ''Shop'' ''mysql''), (54, Call_Acquire (sample_lock ''o/r#8'' ''p2''))]"
  have wf: "wf_locks no_locks" by code_simp
  have names: "owners no_locks \<union> \<Union> (call_owner ` snd ` set ?calls) = {''o/r#7'', ''o/r#8''}" by (auto simp: owners_def no_locks_def sample_lock_def)
  have "to_lower ''o/r#7'' \<noteq> to_lower ''o/r#8''" by code_simp
  then have inj: "inj_on to_lower (owners no_locks \<union> \<Union> (call_owner ` snd ` set ?calls))" unfolding names by auto
  have free: "held_locks no_locks = (\<lambda>_. None)" by (simp add: fun_eq_iff held_locks_def no_locks_def)
  have "fst (run_calls (\<lambda>(now, c). mutex_call c) ?calls (\<lambda>_. None)) = [None, Some (Store_Error ErrLockHeld), Some (Store_Error ErrLockNotOwned), None, None]" by code_simp
  then show ?thesis using lock_store_refines_mutex [OF wf inj] unfolding free by simp
qed

end
