(* ===== verification/SB_Text.thy ===== *)
theory SB_Text
  imports SB_Prelude "HOL-Library.Sublist" "HOL-Library.List_Lexorder" "HOL-Library.Char_ord"
begin

section \<open>Text and paths: what the sources use of Go's packages strings, slices and path\<close>

text \<open>
  Trimming, splitting and joining of strings, the slash-separated path normalisation of \<^verbatim>\<open>path.Clean\<close>, sorting of strings in byte order and the
  early-return chains of validation code. White space is the ASCII white space of Go's \<^verbatim>\<open>unicode.IsSpace\<close>; texts are byte strings as in
  \<^verbatim>\<open>SB_Prelude\<close>. The facts here are the ones the clients rely on: joining undoes splitting, a cleaned path has no inner dot segments, and a
  chain of checks passes exactly when every check does.
\<close>

subsection \<open>Chains of checks\<close>

text \<open>\<open>first_err\<close> is a sequence of \<^verbatim>\<open>if err := ...; err != nil { return err }\<close> statements: the first error, or none.\<close>

fun first_err :: "'e option list \<Rightarrow> 'e option" where
  "first_err [] = None"
| "first_err (None # cs) = first_err cs"
| "first_err (Some e # cs) = Some e"

lemma first_err_None [simp]: "first_err cs = None \<longleftrightarrow> (\<forall>c \<in> set cs. c = None)"
  by (induction cs rule: first_err.induct) auto

lemma first_err_append: "first_err (xs @ ys) = (case first_err xs of None \<Rightarrow> first_err ys | Some e \<Rightarrow> Some e)"
  by (induction xs rule: first_err.induct) auto

definition err_if :: "bool \<Rightarrow> 'e \<Rightarrow> 'e option" where
  "err_if b e = (if b then Some e else None)"

lemma err_if_None [simp]: "err_if b e = None \<longleftrightarrow> \<not> b"
  by (simp add: err_if_def)

text \<open>A loop that rejects the first value already seen, the sets of the sources being keyed by \<open>key\<close>.\<close>

fun first_repeat :: "('a \<Rightarrow> 'k) \<Rightarrow> 'k list \<Rightarrow> ('a \<Rightarrow> 'e option) \<Rightarrow> ('a \<Rightarrow> 'e) \<Rightarrow> 'a list \<Rightarrow> 'e option" where
  "first_repeat key seen bad dup [] = None"
| "first_repeat key seen bad dup (x # xs) =
     (case bad x of Some e \<Rightarrow> Some e
      | None \<Rightarrow> if key x \<in> set seen then Some (dup x) else first_repeat key (key x # seen) bad dup xs)"

lemma first_repeat_None:
  "first_repeat key seen bad dup xs = None \<longleftrightarrow>
     (\<forall>x \<in> set xs. bad x = None) \<and> distinct (map key xs) \<and> set (map key xs) \<inter> set seen = {}"
  by (induction xs arbitrary: seen) (auto split: option.splits)

subsection \<open>Trimming and splitting\<close>

definition is_space :: "char \<Rightarrow> bool" where
  "is_space c \<longleftrightarrow> (let n = (of_char c :: nat) in 9 \<le> n \<and> n \<le> 13 \<or> n = 32)"

definition trim_space :: "string \<Rightarrow> string" where
  "trim_space s = rev (dropWhile is_space (rev (dropWhile is_space s)))"

fun split_on :: "char \<Rightarrow> string \<Rightarrow> string list" where
  "split_on sep [] = [[]]"
| "split_on sep (c # cs) =
     (if c = sep then [] # split_on sep cs
      else case split_on sep cs of [] \<Rightarrow> [[c]] | part # parts \<Rightarrow> (c # part) # parts)"

fun join_with :: "string \<Rightarrow> string list \<Rightarrow> string" where
  "join_with sep [] = []"
| "join_with sep [part] = part"
| "join_with sep (part # parts) = part @ sep @ join_with sep parts"

definition has_suffix :: "string \<Rightarrow> string \<Rightarrow> bool" where
  "has_suffix s p \<longleftrightarrow> has_prefix (rev s) (rev p)"

lemma split_on_not_Nil [simp]: "split_on sep s \<noteq> []"
  by (induction s) (auto split: list.splits)

lemma join_split: "join_with [sep] (split_on sep s) = s"
proof (induction s)
  case (Cons c cs)
  show ?case
  proof (cases "split_on sep cs")
    case (Cons part parts)
    with Cons.IH show ?thesis by (cases parts) auto
  qed simp
qed simp

lemma split_on_parts: "part \<in> set (split_on sep s) \<Longrightarrow> sep \<notin> set part"
proof (induction s arbitrary: part)
  case (Cons c cs)
  show ?case
  proof (cases "split_on sep cs")
    case Nil then show ?thesis by simp
  next
    case (Cons p ps)
    then have "sep \<notin> set p" "\<And>q. q \<in> set ps \<Longrightarrow> sep \<notin> set q" using Cons.IH by auto
    then show ?thesis using Cons.prems Cons by (auto split: if_splits)
  qed
qed simp

lemma split_on_plain: "sep \<notin> set s \<Longrightarrow> split_on sep s = [s]"
  by (induction s) auto

lemma split_on_append: "sep \<notin> set s \<Longrightarrow> split_on sep (s @ sep # t) = s # split_on sep t"
  by (induction s) auto

lemma split_join: "parts \<noteq> [] \<Longrightarrow> (\<And>p. p \<in> set parts \<Longrightarrow> sep \<notin> set p) \<Longrightarrow> split_on sep (join_with [sep] parts) = parts"
proof (induction "[sep]" parts rule: join_with.induct)
  case (3 part p parts)
  then show ?case by (simp add: split_on_append)
qed (auto simp: split_on_plain)

lemma trim_space_ends:
  "trim_space s = [] \<or> \<not> is_space (hd (trim_space s)) \<and> \<not> is_space (last (trim_space s))"
proof -
  let ?t = "dropWhile is_space s"
  let ?u = "dropWhile is_space (rev ?t)"
  have last_ok: "\<not> is_space (hd ?u)" if "?u \<noteq> []" using hd_dropWhile [OF that] .
  obtain v where "rev ?t = v @ ?u" by (metis takeWhile_dropWhile_id)
  then have "?t = rev ?u @ rev v" by (metis rev_append rev_rev_ident)
  then have "\<not> is_space (hd (rev ?u))" if "?u \<noteq> []"
    using that hd_dropWhile [of is_space s] by (metis append_is_Nil_conv hd_append2 rev_is_Nil_conv)
  with last_ok show ?thesis by (auto simp: trim_space_def last_rev)
qed

lemma trim_space_idem [simp]: "trim_space (trim_space s) = trim_space s"
proof -
  have keep: "trim_space t = t" if "t = [] \<or> \<not> is_space (hd t) \<and> \<not> is_space (last t)" for t
  proof (cases t)
    case (Cons c cs)
    with that have *: "\<not> is_space c" "\<not> is_space (hd (rev t))" using hd_rev [of t] by auto
    then have "dropWhile is_space t = t" using Cons by simp
    moreover have "dropWhile is_space (rev t) = rev t" using * Cons by (cases "rev t") auto
    ultimately show ?thesis by (simp add: trim_space_def)
  qed (simp add: trim_space_def)
  show ?thesis by (rule keep) (rule trim_space_ends)
qed

subsection \<open>Paths\<close>

text \<open>
  \<^verbatim>\<open>path.Clean\<close>: empty and dot segments go, a dot-dot takes the preceding ordinary segment with it, leading ones stay unless the path is rooted. The
  segments kept so far are a stack, its top first.
\<close>

fun clean_segments :: "bool \<Rightarrow> string list \<Rightarrow> string list \<Rightarrow> string list" where
  "clean_segments rooted kept [] = rev kept"
| "clean_segments rooted kept (seg # segs) =
     (if seg = [] \<or> seg = ''.'' then clean_segments rooted kept segs
      else if seg = ''..'' then
        (case kept of
           lst # rest \<Rightarrow> if lst \<noteq> ''..'' then clean_segments rooted rest segs
                         else if rooted then clean_segments rooted kept segs else clean_segments rooted (seg # kept) segs
         | [] \<Rightarrow> if rooted then clean_segments rooted kept segs else clean_segments rooted (seg # kept) segs)
      else clean_segments rooted (seg # kept) segs)"

definition path_clean :: "string \<Rightarrow> string" where
  "path_clean s =
     (let rooted = has_prefix s ''/'';
          body = join_with ''/'' (clean_segments rooted [] (split_on CHR ''/'' s)) in
      if rooted then ''/'' @ body else if body = [] then ''.'' else body)"

definition plain_segment :: "string \<Rightarrow> bool" where
  "plain_segment seg \<longleftrightarrow> seg \<noteq> [] \<and> seg \<noteq> ''.'' \<and> seg \<noteq> ''..'' \<and> CHR ''/'' \<notin> set seg"

text \<open>The shape of what is kept: dot-dots first (none under a root), then ordinary segments.\<close>

definition clean_shape :: "bool \<Rightarrow> string list \<Rightarrow> bool" where
  "clean_shape rooted segs \<longleftrightarrow> (\<exists>n rest. segs = replicate n ''..'' @ rest \<and> list_all plain_segment rest \<and> (rooted \<longrightarrow> n = 0))"

lemma clean_shape_snoc: "clean_shape rooted segs \<Longrightarrow> plain_segment seg \<Longrightarrow> clean_shape rooted (segs @ [seg])"
proof -
  assume "clean_shape rooted segs" and plain: "plain_segment seg"
  then obtain n rest where "segs = replicate n ''..'' @ rest" "list_all plain_segment rest" "rooted \<longrightarrow> n = 0"
    unfolding clean_shape_def by blast
  then have "segs @ [seg] = replicate n ''..'' @ (rest @ [seg])" "list_all plain_segment (rest @ [seg])" "rooted \<longrightarrow> n = 0" using plain by simp_all
  then show ?thesis unfolding clean_shape_def by blast
qed

lemma clean_shape_pop: "clean_shape rooted (segs @ [lst]) \<Longrightarrow> lst \<noteq> ''..'' \<Longrightarrow> clean_shape rooted segs"
proof -
  assume "clean_shape rooted (segs @ [lst])" and lst: "lst \<noteq> ''..''"
  then obtain n rest where eq: "segs @ [lst] = replicate n ''..'' @ rest" and rest: "list_all plain_segment rest" "rooted \<longrightarrow> n = 0"
    unfolding clean_shape_def by blast
  have "rest \<noteq> []"
  proof
    assume "rest = []"
    with eq have "last (replicate n ''..'') = lst" and "n \<noteq> 0" by (metis append_Nil2 last_snoc, metis append_Nil2 append_is_Nil_conv eq list.distinct(1) replicate_empty)
    with lst show False by simp
  qed
  then obtain rest' where "rest = rest' @ [lst]" using eq by (metis append_butlast_last_id last_appendR last_snoc)
  with eq rest show ?thesis unfolding clean_shape_def by auto
qed

lemma clean_shape_dots:
  assumes "clean_shape False segs" "segs = [] \<or> last segs = ''..''"
  shows "clean_shape False (segs @ [''..''])"
proof -
  obtain n rest where eq: "segs = replicate n ''..'' @ rest" and rest: "list_all plain_segment rest"
    using assms(1) unfolding clean_shape_def by blast
  have "rest = []"
  proof (rule ccontr)
    assume "rest \<noteq> []"
    then have "last rest \<in> set rest" "last segs = last rest" "segs \<noteq> []" using eq by auto
    with assms(2) rest show False by (auto simp: list_all_iff plain_segment_def)
  qed
  then have "segs @ [''..''] = replicate (Suc n) ''..'' @ []" using eq by (simp add: replicate_append_same)
  then show ?thesis unfolding clean_shape_def by (metis list.pred_inject(1))
qed

lemma clean_segments_shape:
  assumes "clean_shape rooted (rev kept)" "list_all (\<lambda>s. CHR ''/'' \<notin> set s) segs"
  shows "clean_shape rooted (clean_segments rooted kept segs)"
  using assms
proof (induction rooted kept segs rule: clean_segments.induct)
  case (2 rooted kept seg segs)
  show ?case
  proof (cases "seg = [] \<or> seg = ''.'' \<or> seg = ''..'' \<and> (kept = [] \<or> hd kept = ''..'') \<and> rooted")
    case True
    then show ?thesis using 2 by (cases kept) auto
  next
    case skip: False
    show ?thesis
    proof (cases "seg = ''..'' \<and> kept \<noteq> [] \<and> hd kept \<noteq> ''..''")
      case True
      then obtain lst rest where kept: "kept = lst # rest" "lst \<noteq> ''..''" by (cases kept) auto
      then have "clean_shape rooted (rev rest)" using "2.prems"(1) clean_shape_pop by auto
      then show ?thesis using True kept "2.IH" "2.prems"(2) by auto
    next
      case False
      have "clean_shape rooted (rev (seg # kept))"
      proof (cases "seg = ''..''")
        case True
        with skip False have "\<not> rooted" "rev kept = [] \<or> last (rev kept) = ''..''" by (auto simp: last_rev)
        then show ?thesis using True "2.prems"(1) clean_shape_dots [of "rev kept"] by simp
      next
        case False
        then show ?thesis using skip "2.prems" clean_shape_snoc by (simp add: plain_segment_def)
      qed
      then show ?thesis using skip False "2.IH" "2.prems"(2) by (cases kept) auto
    qed
  qed
qed simp


lemma clean_segments_start: "clean_shape rooted (clean_segments rooted [] (split_on CHR ''/'' s))"
proof (rule clean_segments_shape)
  show "clean_shape rooted (rev [])" unfolding clean_shape_def by (metis append_Nil list.pred_inject(1) replicate_empty rev.simps(1))
  show "list_all (\<lambda>s. CHR ''/'' \<notin> set s) (split_on CHR ''/'' s)" using split_on_parts by (auto simp: list_all_iff)
qed

lemma clean_shape_segment:
  assumes "clean_shape rooted segs" "seg \<in> set segs"
  shows "seg \<noteq> []" "seg \<noteq> ''.''" "CHR ''/'' \<notin> set seg"
proof -
  obtain n rest where eq: "segs = replicate n ''..'' @ rest" and rest: "list_all plain_segment rest"
    using assms(1) unfolding clean_shape_def by blast
  have "seg = ''..'' \<or> plain_segment seg" using assms(2) rest unfolding eq list_all_iff by (auto simp only: set_append set_replicate_conv_if split: if_splits)
  then show "seg \<noteq> []" "seg \<noteq> ''.''" "CHR ''/'' \<notin> set seg" by (auto simp: plain_segment_def)
qed

lemma join_segments_Nil: "clean_shape rooted segs \<Longrightarrow> join_with ''/'' segs = [] \<longleftrightarrow> segs = []"
  using clean_shape_segment(1) [of rooted segs "[]"] by (cases segs rule: remdups_adj.cases) auto

text \<open>The segments of a cleaned relative path: the dot alone, or dot-dots followed by ordinary segments.\<close>

lemma path_clean_segments:
  assumes "\<not> has_prefix s ''/''"
  shows "path_clean s = ''.'' \<or> clean_shape False (split_on CHR ''/'' (path_clean s))"
proof -
  let ?segs = "clean_segments False [] (split_on CHR ''/'' s)"
  note shape = clean_segments_start [of False s]
  have "split_on CHR ''/'' (join_with ''/'' ?segs) = ?segs" if "?segs \<noteq> []"
    using that clean_shape_segment(3) [OF shape] by (intro split_join) auto
  with shape assms join_segments_Nil [OF shape] show ?thesis by (simp add: path_clean_def Let_def)
qed

lemma clean_segments_plain:
  "list_all plain_segment segs \<Longrightarrow> clean_segments rooted kept segs = rev kept @ segs"
  by (induction segs arbitrary: kept) (auto simp: plain_segment_def)

lemma clean_segments_dots:
  "clean_segments False (replicate m ''..'') (replicate n ''..'' @ segs) = clean_segments False (replicate (m + n) ''..'') segs"
proof (induction n arbitrary: m)
  case (Suc n)
  have "clean_segments False (replicate m ''..'') (''..'' # replicate n ''..'' @ segs) = clean_segments False (replicate (Suc m) ''..'') (replicate n ''..'' @ segs)"
    by (cases m) simp_all
  with Suc [of "Suc m"] show ?case by simp
qed simp

lemma clean_segments_clean: "clean_shape rooted segs \<Longrightarrow> clean_segments rooted [] segs = segs"
proof -
  assume "clean_shape rooted segs"
  then obtain n rest where eq: "segs = replicate n ''..'' @ rest" and rest: "list_all plain_segment rest" and root: "rooted \<longrightarrow> n = 0"
    unfolding clean_shape_def by blast
  show ?thesis
  proof (cases rooted)
    case True then show ?thesis using eq rest root clean_segments_plain [of rest rooted "[]"] by simp
  next
    case False
    then show ?thesis using eq rest clean_segments_dots [of 0 n rest] clean_segments_plain [of rest False "replicate n ''..''"] by simp
  qed
qed

lemma path_clean_idem: "path_clean (path_clean s) = path_clean s"
proof (cases "has_prefix s ''/''")
  case True
  let ?segs = "clean_segments True [] (split_on CHR ''/'' s)"
  note shape = clean_segments_start [of True s]
  have split: "split_on CHR ''/'' (join_with ''/'' ?segs) = ?segs" if "?segs \<noteq> []"
    using that clean_shape_segment(3) [OF shape] by (intro split_join) auto
  have "clean_segments True [] (split_on CHR ''/'' (''/'' @ join_with ''/'' ?segs)) = ?segs"
    by (cases "?segs = []") (simp_all add: split clean_segments_clean [OF shape])
  with True show ?thesis by (simp add: path_clean_def Let_def)
next
  case False
  let ?p = "path_clean s"
  from path_clean_segments [OF False] show ?thesis
  proof
    assume "?p = ''.''" then show ?thesis by (simp add: path_clean_def)
  next
    assume shape: "clean_shape False (split_on CHR ''/'' ?p)"
    have ne: "?p \<noteq> []" using False by (auto simp: path_clean_def Let_def)
    moreover have "\<not> has_prefix ?p ''/''"
    proof
      assume "has_prefix ?p ''/''"
      then obtain t where "?p = CHR ''/'' # t" by (auto simp: has_prefix_append)
      then have "[] \<in> set (split_on CHR ''/'' ?p)" by simp
      with clean_shape_segment(1) [OF shape] show False by blast
    qed
    ultimately show ?thesis using clean_segments_clean [OF shape] by (simp add: path_clean_def [of ?p] join_split)
  qed
qed

end
