(* ===== verification/SB_Source_Policy.thy ===== *)
theory SB_Source_Policy
  imports SB_Text
begin

section \<open>Source policy and principals (api/source\_policy.go, api/actor\_authorization.go)\<close>

text \<open>
  Which repository and which schema directory may manage a database, and the validation of the lists of names the server configuration
  holds: repositories, directories, GitHub teams and users. The functions here take the configured lists; \<^verbatim>\<open>SB_Config\<close> reads them from the
  configuration. Errors are values: \<open>field_reason\<close> has a constructor per message of the sources.
  Shown: an authorised schema path lies, segment by segment, under a configured directory and never leaves the repository; validated lists
  have no blank, padded or repeated entries.
\<close>

datatype field_reason =
    Empty_Value
  | Untrimmed_Value string
  | Duplicate_Value string
  | Invalid_Team string
  | Invalid_User string
  | Invalid_Path string
  | Other_Reason string

subsection \<open>Lists of names\<close>

definition validateUniqueNames :: "string list \<Rightarrow> field_reason option" where
  "validateUniqueNames names =
     first_repeat (\<lambda>name. name) []
       (\<lambda>name. if name = [] then Some Empty_Value else if trim_space name \<noteq> name then Some (Untrimmed_Value name) else None)
       Duplicate_Value names"

definition validateAllowedRepos :: "string list \<Rightarrow> field_reason option" where
  "validateAllowedRepos repos =
     first_repeat trim_space []
       (\<lambda>repo. if trim_space repo = [] then Some Empty_Value else if trim_space repo \<noteq> repo then Some (Untrimmed_Value repo) else None)
       (\<lambda>repo. Duplicate_Value (trim_space repo)) repos"

definition ParseGitHubTeamPrincipal :: "string \<Rightarrow> field_reason + (string \<times> string)" where
  "ParseGitHubTeamPrincipal value =
     (if trim_space value \<noteq> value then Inl (Untrimmed_Value value)
      else case split_on CHR ''/'' value of
          [org, slug] \<Rightarrow> if org = [] \<or> slug = [] then Inl (Invalid_Team value) else Inr (org, slug)
        | _ \<Rightarrow> Inl (Invalid_Team value))"

definition validateGitHubTeamPrincipals :: "string list \<Rightarrow> field_reason option" where
  "validateGitHubTeamPrincipals teams =
     first_repeat to_lower []
       (\<lambda>team. case ParseGitHubTeamPrincipal team of Inl _ \<Rightarrow> Some (Invalid_Team team) | Inr _ \<Rightarrow> None)
       Duplicate_Value teams"

definition validateGitHubUsers :: "string list \<Rightarrow> field_reason option" where
  "validateGitHubUsers users =
     first_repeat to_lower []
       (\<lambda>user. if trim_space user = [] then Some Empty_Value
         else if trim_space user \<noteq> user then Some (Untrimmed_Value user)
         else if CHR ''/'' \<in> set user then Some (Invalid_User user) else None)
       Duplicate_Value users"

lemma unique_names_ok:
  "validateUniqueNames names = None \<longleftrightarrow> distinct names \<and> (\<forall>name \<in> set names. name \<noteq> [] \<and> trim_space name = name)"
  by (auto simp: validateUniqueNames_def first_repeat_None)

lemma team_principal_roundtrip: "ParseGitHubTeamPrincipal team = Inr (org, slug) \<Longrightarrow> team = org @ ''/'' @ slug"
  using join_split [of "CHR ''/''" team]
  by (auto simp: ParseGitHubTeamPrincipal_def split: list.splits if_splits)

lemma teams_ok:
  "validateGitHubTeamPrincipals teams = None \<longleftrightarrow>
     distinct (map to_lower teams) \<and> (\<forall>team \<in> set teams. \<exists>org slug. ParseGitHubTeamPrincipal team = Inr (org, slug))"
  by (auto simp: validateGitHubTeamPrincipals_def first_repeat_None split: sum.splits; metis sum.exhaust surj_pair)

subsection \<open>Directories\<close>

definition normalizeSchemaPath :: "string \<Rightarrow> field_reason + string" where
  "normalizeSchemaPath value0 =
     (let value = trim_space value0 in
      if value = [] then Inl (Other_Reason ''path is empty'')
      else if value = ''*'' then Inr ''*''
      else if has_prefix value ''/'' then Inl (Other_Reason ''path must be repo-relative'')
      else
        let cleaned = path_clean value in
        if cleaned = ''..'' \<or> has_prefix cleaned ''../'' then Inl (Other_Reason ''path must not escape the repository'')
        else Inr cleaned)"

fun path_allowed :: "string list \<Rightarrow> string \<Rightarrow> bool" where
  "path_allowed [] cleanSchemaPath = False"
| "path_allowed (allowedDir # dirs) cleanSchemaPath =
     (case normalizeSchemaPath allowedDir of
        Inl _ \<Rightarrow> False
      | Inr cleanAllowedDir \<Rightarrow>
          if cleanAllowedDir = ''*'' then True
          else if cleanSchemaPath = cleanAllowedDir then True
          else if cleanAllowedDir \<noteq> ''.'' \<and> has_prefix cleanSchemaPath (cleanAllowedDir @ ''/'') then True
          else path_allowed dirs cleanSchemaPath)"

definition schemaPathAllowed :: "string list \<Rightarrow> string \<Rightarrow> bool" where
  "schemaPathAllowed allowedDirs schemaPath =
     (case normalizeSchemaPath schemaPath of Inl _ \<Rightarrow> False | Inr cleanSchemaPath \<Rightarrow> path_allowed allowedDirs cleanSchemaPath)"

definition repoAllowed :: "string list \<Rightarrow> string \<Rightarrow> bool" where
  "repoAllowed allowedRepos repo = list_ex (\<lambda>allowed. trim_space allowed = ''*'' \<or> trim_space allowed = trim_space repo) allowedRepos"

text \<open>The directories a policy lists, already normalised; a repeated one is rejected after normalisation.\<close>

definition validate_allowed_dirs :: "string list \<Rightarrow> field_reason option" where
  "validate_allowed_dirs dirs =
     first_repeat normalizeSchemaPath []
       (\<lambda>dir. case normalizeSchemaPath dir of Inl _ \<Rightarrow> Some (Invalid_Path dir) | Inr _ \<Rightarrow> None)
       (\<lambda>dir. case normalizeSchemaPath dir of Inl _ \<Rightarrow> Invalid_Path dir | Inr normalized \<Rightarrow> Duplicate_Value normalized) dirs"

subsection \<open>Confinement\<close>

text \<open>The specification speaks of segments: the path below the repository root as a list of ordinary names, the root being the empty list.\<close>

definition segments_of :: "string \<Rightarrow> string list" where
  "segments_of p = (if p = ''.'' then [] else split_on CHR ''/'' p)"

lemma normalized_segments:
  assumes "normalizeSchemaPath v = Inr p" "p \<noteq> ''*''"
  shows "list_all plain_segment (segments_of p)"
proof -
  let ?v = "trim_space v"
  have v: "\<not> has_prefix ?v ''/''" and p: "p = path_clean ?v" and out: "p \<noteq> ''..''" "\<not> has_prefix p ''../''"
    using assms by (auto simp: normalizeSchemaPath_def Let_def split: if_splits)
  show ?thesis
  proof (cases "p = ''.''")
    case False
    with path_clean_segments [OF v] p obtain n rest where
      eq: "split_on CHR ''/'' p = replicate n ''..'' @ rest" and rest: "list_all plain_segment rest"
      unfolding clean_shape_def by auto
    have "n = 0"
    proof (rule ccontr)
      assume "n \<noteq> 0"
      then obtain m where "n = Suc m" by (cases n) auto
      with eq have split: "split_on CHR ''/'' p = ''..'' # replicate m ''..'' @ rest" by simp
      with join_split [of "CHR ''/''" p] have "p = join_with ''/'' (''..'' # replicate m ''..'' @ rest)" by simp
      then have "p = ''..'' \<or> has_prefix p ''../''" by (cases "replicate m ''..'' @ rest") auto
      with out show False by blast
    qed
    with eq rest False show ?thesis by (simp add: segments_of_def)
  qed (simp add: segments_of_def)
qed

lemma prefix_segments:
  assumes "d \<noteq> ''.''" "p = d @ ''/'' @ t"
  shows "prefix (split_on CHR ''/'' d) (split_on CHR ''/'' p)"
proof -
  have "split_on sep (x @ sep # t) = split_on sep x @ split_on sep t" for sep x
  proof (induction x)
    case (Cons c cs)
    then show ?case by (cases "split_on sep cs") auto
  qed simp
  from this [of "CHR ''/''" d] assms show ?thesis by (simp add: prefix_def)
qed

lemma path_allowed_spec:
  assumes "path_allowed dirs p"
  shows "\<exists>dir \<in> set dirs. \<exists>d. normalizeSchemaPath dir = Inr d \<and> (d = ''*'' \<or> p = d \<or> d \<noteq> ''.'' \<and> has_prefix p (d @ ''/''))"
  using assms by (induction dirs) (auto split: sum.splits if_splits)

text \<open>
  An authorised schema path stays under a configured directory: when the policy has no wildcard, the path a plan comes from normalises to
  ordinary segments only - nothing that climbs out of the repository - and some configured directory's segments are a prefix of them.
\<close>

theorem schema_path_confined:
  assumes "schemaPathAllowed dirs schemaPath" "\<forall>dir \<in> set dirs. normalizeSchemaPath dir \<noteq> Inr ''*''"
  shows "\<exists>p. normalizeSchemaPath schemaPath = Inr p \<and> list_all plain_segment (segments_of p)
    \<and> (\<exists>dir \<in> set dirs. \<exists>d. normalizeSchemaPath dir = Inr d \<and> prefix (segments_of d) (segments_of p))"
proof -
  from assms(1) obtain p where p: "normalizeSchemaPath schemaPath = Inr p" and allowed: "path_allowed dirs p"
    by (auto simp: schemaPathAllowed_def split: sum.splits)
  from path_allowed_spec [OF allowed] assms(2) obtain dir d where
    d: "dir \<in> set dirs" "normalizeSchemaPath dir = Inr d" "p = d \<or> d \<noteq> ''.'' \<and> has_prefix p (d @ ''/'')" by blast
  have "prefix (segments_of d) (segments_of p)"
  proof (cases "p = d")
    case False
    with d(3) obtain t where "d \<noteq> ''.''" "p = d @ ''/'' @ t" by (auto simp: has_prefix_append)
    moreover from this have "p \<noteq> ''.''" by (auto simp: append_eq_Cons_conv)
    ultimately show ?thesis using prefix_segments by (simp add: segments_of_def)
  qed simp
  moreover have "p \<noteq> ''*''" using d assms(2) by (auto simp: has_prefix_append append_eq_Cons_conv Cons_eq_append_conv)
  ultimately show ?thesis using p d normalized_segments [OF p] by auto
qed

theorem schema_path_confined_witness:
  "\<exists>p. normalizeSchemaPath '' db/./x/../orders/ '' = Inr p \<and> list_all plain_segment (segments_of p)
    \<and> (\<exists>dir \<in> set [''ci'', ''db/orders'']. \<exists>d. normalizeSchemaPath dir = Inr d \<and> prefix (segments_of d) (segments_of p))"
  by (rule schema_path_confined) code_simp+

text \<open>
  The root directory is not a wildcard: the dot allows the root itself and none of the directories below it.
\<close>

lemma dot_directory_excludes_descendants:
  "schemaPathAllowed [''.''] ''.'' \<and> \<not> schemaPathAllowed [''.''] ''schema'' \<and> schemaPathAllowed [''db''] ''db/schema''"
  by code_simp

end
