(* ===== verification/SB_Config.thy ===== *)
theory SB_Config
  imports SB_Source_Policy SB_Storage
begin

section \<open>Server configuration (api/config.go)\<close>

text \<open>
  The configuration a server process loads once: its validation and the questions the rest of the program asks it - which deployments an
  environment fans out to and in which order, which environments promote before which, which repositories, checks and principals count.

  A Go map is an association list with distinct keys (\<open>wf_config\<close>); its order is one iteration order, which the language leaves open. A nil map
  or pointer is \<open>None\<close> where the code tells it from an empty one. Methods that test their receiver for nil take an optional configuration. The
  parsers of durations and URLs and the resolution of secret references are arguments (\<open>loader\<close>): every theorem holds for all of them.
\<close>

subsection \<open>Records\<close>

record DSNFromConfig =
  dsf_ConfigRef :: string
  dsf_Host :: string
  dsf_Port :: string
  dsf_Database :: string
  dsf_Username :: string
  dsf_PasswordRef :: string
  dsf_Params :: "(string \<times> string) list"

record DeploymentTarget =
  dt_Target :: string

record EnvironmentConfig =
  ec_DSN :: string
  ec_DSNFrom :: "DSNFromConfig option"
  ec_Target :: string
  ec_Deployment :: string
  ec_Deployments :: "(string \<times> DeploymentTarget) list option"
  ec_DeploymentOrder :: "string list"
  ec_CutoverPolicy :: string
  ec_OnFailure :: string
  ec_Organization :: string
  ec_TokenSecretRef :: string
  ec_RevertWindowDuration :: string
  ec_APIURL :: string

record DatabaseConfig =
  dc_Type :: string
  dc_Environments :: "(string \<times> EnvironmentConfig) list"
  dc_AllowedRepos :: "string list"
  dc_AllowedDirs :: "string list"
  dc_OperatorTeams :: "string list"
  dc_OperatorUsers :: "string list"

record GitHubConfig =
  gc_AppID :: string
  gc_PrivateKey :: string
  gc_WebhookSecret :: string
  gc_CheckName :: string
  gc_TrustedCheckAppSlugs :: "string list"

record RepoConfig =
  rc_EnableChecks :: "bool option"
  rc_GitHubApp :: string

record PRCommandAuthorizationConfig =
  pa_Enabled :: bool
  pa_AdminTeams :: "string list"
  pa_AdminUsers :: "string list"

record ReviewPolicyConfig =
  rp_Enabled :: bool
  rp_AdminTeams :: "string list"
  rp_AdminUsers :: "string list"
  rp_IncludeDatabaseOperators :: "bool option"
  rp_IncludeCodeowners :: bool

record SupportChannelConfig =
  sc_Name :: string
  sc_URL :: string

record PendingDropsConfig =
  pd_Enabled :: "bool option"
  pd_CleanupEnabled :: "bool option"
  pd_Retention :: string
  pd_DryRun :: bool

record AuthConfig =
  au_Type :: string
  au_Issuer :: string
  au_Audience :: string
  au_GroupsClaim :: string

text \<open>Of the target resolver only the keys of the static inventory and the database types of the Etre entries are kept.\<close>

record TargetResolverConfig =
  tr_Targets :: "string list"
  tr_Etre :: "string list"

type_synonym TernConfig = "(string \<times> (string \<times> string) list) list"

record ServerConfig =
  sv_StorageDSN :: string
  sv_StorageDSNFrom :: "DSNFromConfig option"
  sv_Auth :: AuthConfig
  sv_GitHub :: GitHubConfig
  sv_Apps :: "(string \<times> GitHubConfig) list option"
  sv_TernDeployments :: TernConfig
  sv_Databases :: "(string \<times> DatabaseConfig) list"
  sv_TargetResolver :: TargetResolverConfig
  sv_Repos :: "(string \<times> RepoConfig) list"
  sv_PRCommandAuthorization :: PRCommandAuthorizationConfig
  sv_ReviewPolicy :: ReviewPolicyConfig
  sv_SupportChannel :: SupportChannelConfig
  sv_DefaultReviewers :: "string list"
  sv_AllowedEnvironments :: "string list"
  sv_Tenant :: string
  sv_EnvironmentOrder :: "string list"
  sv_Drivers :: int
  sv_OperatorWorkers :: int
  sv_SchedulerWorkers :: int
  sv_OperatorClaimOperations :: "bool option"
  sv_RequirePassingChecks :: "bool option"
  sv_RequiredChecks :: "string list"
  sv_RespondToUnscoped :: "bool option"
  sv_PendingDrops :: PendingDropsConfig

record ExecutionTarget =
  et_DatabaseType :: string
  et_Deployment :: string
  et_Target :: string

record parsed_url =
  pu_Scheme :: string
  pu_Host :: string
  pu_HasUser :: bool

record loader =
  ld_parse_duration :: "string \<Rightarrow> int option"
  ld_parse_url :: "string \<Rightarrow> parsed_url option"
  ld_resolve :: "string \<Rightarrow> string \<Rightarrow> string option"

definition wf_environment :: "EnvironmentConfig \<Rightarrow> bool" where
  "wf_environment ec \<longleftrightarrow> (case ec_Deployments ec of None \<Rightarrow> True | Some ds \<Rightarrow> distinct (map fst ds))"

definition wf_config :: "ServerConfig \<Rightarrow> bool" where
  "wf_config c \<longleftrightarrow> distinct (map fst (sv_Databases c)) \<and> distinct (map fst (sv_TernDeployments c)) \<and> distinct (map fst (sv_Repos c))
     \<and> (case sv_Apps c of None \<Rightarrow> True | Some apps \<Rightarrow> distinct (map fst apps))
     \<and> list_all (\<lambda>(_, endpoints). distinct (map fst endpoints)) (sv_TernDeployments c)
     \<and> list_all (\<lambda>(_, dc). distinct (map fst (dc_Environments dc)) \<and> list_all (\<lambda>(_, ec). wf_environment ec) (dc_Environments dc)) (sv_Databases c)"

subsection \<open>Errors\<close>

datatype env_reason =
    Revert_Window_Invalid string
  | Revert_Window_Not_Positive string
  | Order_Without_Map
  | Cutover_Policy_Without_Map
  | Invalid_Cutover_Policy string
  | On_Failure_Without_Map
  | On_Failure_Unsupported
  | Invalid_On_Failure string
  | Dsn_And_Routing
  | Scalar_And_Map
  | Dsn_And_Dsn_From
  | Dsn_From_Missing string
  | Empty_Deployments_Map
  | Empty_Deployment_Key
  | Order_Empty_Entry
  | Order_Duplicate string
  | Order_Unknown string
  | Order_Missing string
  | Missing_Target string
  | Missing_Deployment
  | Unknown_Deployment string
  | No_Endpoint string
  | Missing_Routing

datatype config_error =
    Several_Driver_Keys
  | Databases_Required
  | Field_Error string field_reason
  | Support_Channel_Error string
  | GitHub_And_Apps
  | Apps_Empty
  | App_Empty_Name
  | App_Missing string string
  | Repo_Missing_App string
  | Repo_Unknown_App string string
  | Repo_App_Without_Apps string
  | Repo_Undeclared string
  | No_GitHub_App
  | App_Id_Invalid string
  | App_Id_Shared string string int
  | Required_Check_Is_Aggregate string string
  | Retention_Invalid string
  | Retention_Not_Positive string
  | Database_Missing_Type string
  | Database_Invalid_Type string string
  | Database_No_Environments string
  | Env_Error string string env_reason
  | Route_Collision string string
  | Deployment_No_Environments string
  | Deployment_Empty_Address string string
  | Storage_Config_Error env_reason
  | Invalid_Tenant string
  | Auth_Error string
  | Config_Nil
  | Unknown_Database string
  | Unknown_Environment string string
  | Several_Deployments nat
  | No_Deployments

subsection \<open>Small settings\<close>

definition SupportChannel_Enabled :: "SupportChannelConfig \<Rightarrow> bool" where
  "SupportChannel_Enabled c \<longleftrightarrow> sc_Name c \<noteq> [] \<and> sc_URL c \<noteq> []"

definition PendingDropsEnabled :: "ServerConfig \<Rightarrow> bool" where
  "PendingDropsEnabled c = (case pd_Enabled (sv_PendingDrops c) of None \<Rightarrow> True | Some b \<Rightarrow> b)"

definition PendingDropsCleanupEnabled :: "ServerConfig \<Rightarrow> bool" where
  "PendingDropsCleanupEnabled c =
     (if \<not> PendingDropsEnabled c then False else case pd_CleanupEnabled (sv_PendingDrops c) of None \<Rightarrow> True | Some b \<Rightarrow> b)"

text \<open>The default retention is seven days; durations are nanoseconds.\<close>

definition DefaultRetention :: int where
  "DefaultRetention = 7 * 24 * 3600 * 1000000000"

definition PendingDropsRetention :: "loader \<Rightarrow> ServerConfig \<Rightarrow> config_error + int" where
  "PendingDropsRetention ld c =
     (let retention = pd_Retention (sv_PendingDrops c) in
      if retention = [] then Inr DefaultRetention
      else case ld_parse_duration ld retention of
          None \<Rightarrow> Inl (Retention_Invalid retention)
        | Some d \<Rightarrow> if d \<le> 0 then Inl (Retention_Not_Positive retention) else Inr d)"

definition DefaultGitHubCheckName :: string where
  "DefaultGitHubCheckName = ''SchemaBot''"

definition CheckRunNameBase :: "GitHubConfig \<Rightarrow> string" where
  "CheckRunNameBase g = (let name = trim_space (gc_CheckName g) in if name = [] then DefaultGitHubCheckName else name)"

text \<open>The error of \<^verbatim>\<open>ParseInt\<close> is dropped: text that is no number reads as zero, a number out of range as the nearest bound.\<close>

definition parse_int64 :: "string \<Rightarrow> int" where
  "parse_int64 s =
     (let neg = has_prefix s ''-'';
          body = (if has_prefix s ''-'' \<or> has_prefix s ''+'' then drop 1 s else s) in
      if body = [] then 0
      else case parse_digits 0 body of
          None \<Rightarrow> 0
        | Some n \<Rightarrow> max (- (2 ^ 63)) (min (2 ^ 63 - 1) (if neg then - int n else int n)))"

definition ResolveAppID :: "loader \<Rightarrow> GitHubConfig \<Rightarrow> int" where
  "ResolveAppID ld g =
     (case ld_resolve ld (gc_AppID g) ''GITHUB_APP_ID'' of
        None \<Rightarrow> 0
      | Some resolved \<Rightarrow> if resolved \<noteq> [] then parse_int64 resolved else 0)"

definition Configured :: "loader \<Rightarrow> GitHubConfig \<Rightarrow> bool" where
  "Configured ld g =
     (let appID = ResolveAppID ld g in
      if appID = 0 \<and> gc_PrivateKey g = [] then False
      else if appID = 0 then False
      else if gc_PrivateKey g = [] then False
      else case ld_resolve ld (gc_PrivateKey g) [] of
          None \<Rightarrow> False
        | Some pk \<Rightarrow> pk \<noteq> [])"

definition HasLocalDSN :: "EnvironmentConfig \<Rightarrow> bool" where
  "HasLocalDSN ec \<longleftrightarrow> ec_DSN ec \<noteq> [] \<or> ec_DSNFrom ec \<noteq> None"

definition configPaths :: "DSNFromConfig \<Rightarrow> string \<times> string \<times> string" where
  "configPaths f =
     (if dsf_Host f = [] then ''host'' else dsf_Host f,
      if dsf_Port f = [] then ''port'' else dsf_Port f,
      if dsf_Database f = [] then ''database'' else dsf_Database f)"

definition dsn_from_Validate :: "DSNFromConfig \<Rightarrow> env_reason option" where
  "dsn_from_Validate f =
     (if dsf_ConfigRef f = [] then Some (Dsn_From_Missing ''config_ref'')
      else case configPaths f of (host, _, database) \<Rightarrow>
        if host = [] then Some (Dsn_From_Missing ''config_paths.host'')
        else if database = [] then Some (Dsn_From_Missing ''config_paths.database'')
        else if dsf_Username f = [] then Some (Dsn_From_Missing ''username'')
        else if dsf_PasswordRef f = [] then Some (Dsn_From_Missing ''password_ref'')
        else None)"

definition validateLocalDSNConfig :: "string \<Rightarrow> DSNFromConfig option \<Rightarrow> env_reason option" where
  "validateLocalDSNConfig dsn dsnFrom =
     (if dsn \<noteq> [] \<and> dsnFrom \<noteq> None then Some Dsn_And_Dsn_From
      else case dsnFrom of None \<Rightarrow> None | Some f \<Rightarrow> dsn_from_Validate f)"

definition validateRevertWindowDuration :: "loader \<Rightarrow> EnvironmentConfig \<Rightarrow> env_reason option" where
  "validateRevertWindowDuration ld ec =
     (let window = ec_RevertWindowDuration ec in
      if window = [] then None
      else case ld_parse_duration ld window of
          None \<Rightarrow> Some (Revert_Window_Invalid window)
        | Some d \<Rightarrow> if d \<le> 0 then Some (Revert_Window_Not_Positive window) else None)"

subsection \<open>Validation\<close>

definition resolveDeprecatedDrivers :: "ServerConfig \<Rightarrow> config_error + ServerConfig" where
  "resolveDeprecatedDrivers c =
     (let n = of_bool (sv_Drivers c \<noteq> 0) + of_bool (sv_OperatorWorkers c \<noteq> 0) + of_bool (sv_SchedulerWorkers c \<noteq> 0) :: nat in
      if n > 1 then Inl Several_Driver_Keys
      else
        let c1 = (if sv_OperatorWorkers c \<noteq> 0 then c\<lparr>sv_Drivers := sv_OperatorWorkers c, sv_OperatorWorkers := 0\<rparr> else c) in
        Inr (if sv_SchedulerWorkers c1 \<noteq> 0 then c1\<lparr>sv_Drivers := sv_SchedulerWorkers c1, sv_SchedulerWorkers := 0\<rparr> else c1))"

definition field_error :: "string \<Rightarrow> field_reason option \<Rightarrow> config_error option" where
  "field_error field r = map_option (Field_Error field) r"

definition validatePRCommandAuthorization :: "PRCommandAuthorizationConfig \<Rightarrow> config_error option" where
  "validatePRCommandAuthorization p =
     first_err [field_error ''pr_command_authorization.admin_teams'' (validateGitHubTeamPrincipals (pa_AdminTeams p)),
                field_error ''pr_command_authorization.admin_users'' (validateGitHubUsers (pa_AdminUsers p))]"

definition validateReviewPolicy :: "ReviewPolicyConfig \<Rightarrow> config_error option" where
  "validateReviewPolicy p =
     first_err [field_error ''review_policy.admin_teams'' (validateGitHubTeamPrincipals (rp_AdminTeams p)),
                field_error ''review_policy.admin_users'' (validateGitHubUsers (rp_AdminUsers p))]"

definition validateDatabaseActorAuthorization :: "string \<Rightarrow> DatabaseConfig \<Rightarrow> config_error option" where
  "validateDatabaseActorAuthorization database dc =
     first_err [field_error (''databases.'' @ database @ ''.operator_teams'') (validateGitHubTeamPrincipals (dc_OperatorTeams dc)),
                field_error (''databases.'' @ database @ ''.operator_users'') (validateGitHubUsers (dc_OperatorUsers dc))]"

definition validateDatabaseSourcePolicy :: "string \<Rightarrow> DatabaseConfig \<Rightarrow> config_error option" where
  "validateDatabaseSourcePolicy database dc =
     first_err [field_error (''databases.'' @ database @ ''.allowed_repos'') (validateAllowedRepos (dc_AllowedRepos dc)),
                field_error (''databases.'' @ database @ ''.allowed_dirs'') (validate_allowed_dirs (dc_AllowedDirs dc))]"

definition is_control :: "char \<Rightarrow> bool" where
  "is_control ch \<longleftrightarrow> (let n = (of_char ch :: nat) in n < 32 \<or> n = 127)"

definition validateSupportChannel :: "loader \<Rightarrow> SupportChannelConfig \<Rightarrow> config_error option" where
  "validateSupportChannel ld c =
     (if sc_Name c = [] \<and> sc_URL c = [] then None
      else if trim_space (sc_Name c) \<noteq> sc_Name c then Some (Support_Channel_Error ''name contains leading or trailing whitespace'')
      else if trim_space (sc_URL c) \<noteq> sc_URL c then Some (Support_Channel_Error ''url contains leading or trailing whitespace'')
      else if list_ex (\<lambda>ch. ch \<in> {CHR ''('', CHR '')'', CHR 0x5C}) (sc_URL c)
      then Some (Support_Channel_Error ''url contains characters that are unsafe in Markdown links'')
      else if list_ex (\<lambda>ch. is_space ch \<or> is_control ch) (sc_URL c)
      then Some (Support_Channel_Error ''url contains whitespace or control characters'')
      else if sc_Name c = [] then Some (Support_Channel_Error ''name is required when url is set'')
      else if sc_URL c = [] then Some (Support_Channel_Error ''url is required when name is set'')
      else case ld_parse_url ld (sc_URL c) of
          None \<Rightarrow> Some (Support_Channel_Error ''url is invalid'')
        | Some parsed \<Rightarrow>
            if pu_Scheme parsed \<noteq> ''https'' \<and> pu_Scheme parsed \<noteq> ''http'' then Some (Support_Channel_Error ''url must use http or https'')
            else if pu_Host parsed = [] then Some (Support_Channel_Error ''url must include a host'')
            else if pu_HasUser parsed then Some (Support_Channel_Error ''url must not include credentials'')
            else None)"

definition validate_app :: "string \<times> GitHubConfig \<Rightarrow> config_error option" where
  "validate_app = (\<lambda>(name, app).
     if name = [] then Some App_Empty_Name
     else if gc_AppID app = [] then Some (App_Missing name ''app-id'')
     else if gc_PrivateKey app = [] then Some (App_Missing name ''private-key'')
     else if gc_WebhookSecret app = [] then Some (App_Missing name ''webhook-secret'')
     else field_error (''app '' @ name @ '' trusted-check-app-slugs'') (validateUniqueNames (gc_TrustedCheckAppSlugs app)))"

definition validateGitHubAppsConfig :: "ServerConfig \<Rightarrow> config_error option" where
  "validateGitHubAppsConfig c =
     (let g = sv_GitHub c;
          hasGitHub = (gc_AppID g \<noteq> [] \<or> gc_PrivateKey g \<noteq> [] \<or> gc_WebhookSecret g \<noteq> [] \<or> gc_CheckName g \<noteq> []
                       \<or> length (gc_TrustedCheckAppSlugs g) > 0) in
      first_err
        [err_if (hasGitHub \<and> sv_Apps c \<noteq> None) GitHub_And_Apps,
         if hasGitHub then field_error ''github.trusted-check-app-slugs'' (validateUniqueNames (gc_TrustedCheckAppSlugs g)) else None,
         case sv_Apps c of
           Some apps \<Rightarrow>
             first_err (err_if (apps = []) Apps_Empty # map validate_app apps
               @ map (\<lambda>(repo, rc). if rc_GitHubApp rc = [] then Some (Repo_Missing_App repo)
                   else if map_of apps (rc_GitHubApp rc) = None then Some (Repo_Unknown_App repo (rc_GitHubApp rc)) else None) (sv_Repos c))
         | None \<Rightarrow> first_err (map (\<lambda>(repo, rc). err_if (rc_GitHubApp rc \<noteq> []) (Repo_App_Without_Apps repo)) (sv_Repos c))])"

definition aggregateCheckNameBases :: "ServerConfig \<Rightarrow> string list" where
  "aggregateCheckNameBases c =
     (case sv_Apps c of
        Some (app # apps) \<Rightarrow> rev (remdups (rev (filter (\<lambda>base. base \<noteq> []) (map (CheckRunNameBase \<circ> snd) (app # apps)))))
      | _ \<Rightarrow> filter (\<lambda>base. base \<noteq> []) [CheckRunNameBase (sv_GitHub c)])"

definition isAggregateCheckName :: "string \<Rightarrow> string \<Rightarrow> bool" where
  "isAggregateCheckName name base \<longleftrightarrow> (if name = base then True else has_prefix name (base @ '' ('') \<and> has_suffix name '')'')"

definition validateRequiredChecksNotAggregate :: "ServerConfig \<Rightarrow> config_error option" where
  "validateRequiredChecksNotAggregate c =
     (let bases = aggregateCheckNameBases c in
      first_err (concat (map (\<lambda>name. map (\<lambda>base. err_if (isAggregateCheckName name base) (Required_Check_Is_Aggregate name base)) bases)
        (sv_RequiredChecks c))))"

fun order_entries :: "(string \<times> DeploymentTarget) list \<Rightarrow> string list \<Rightarrow> string list \<Rightarrow> env_reason option" where
  "order_entries deployments seen [] = None"
| "order_entries deployments seen (deployment # order) =
     (if deployment = [] then Some Order_Empty_Entry
      else if deployment \<in> set seen then Some (Order_Duplicate deployment)
      else if map_of deployments deployment = None then Some (Order_Unknown deployment)
      else order_entries deployments (deployment # seen) order)"

definition validateDeploymentOrder :: "(string \<times> DeploymentTarget) list \<Rightarrow> string list \<Rightarrow> env_reason option" where
  "validateDeploymentOrder deployments order =
     first_err
       [first_err (map (\<lambda>(deployment, _). err_if (deployment = []) Empty_Deployment_Key) deployments),
        order_entries deployments [] order,
        first_err (map (\<lambda>(deployment, _). err_if (deployment \<notin> set order) (Order_Missing deployment)) deployments)]"

definition validate_deployment :: "TernConfig \<Rightarrow> string \<Rightarrow> string \<times> DeploymentTarget \<Rightarrow> env_reason option" where
  "validate_deployment tern env = (\<lambda>(deployment, dt).
     if deployment = [] then Some Empty_Deployment_Key
     else if dt_Target dt = [] then Some (Missing_Target deployment)
     else case map_of tern deployment of
         None \<Rightarrow> Some (Unknown_Deployment deployment)
       | Some endpoints \<Rightarrow> err_if (case map_of endpoints env of None \<Rightarrow> True | Some addr \<Rightarrow> addr = []) (No_Endpoint deployment))"

text \<open>One environment of one database: local through a DSN, or remote through either a scalar route or a map of deployments.\<close>

definition validate_routing :: "TernConfig \<Rightarrow> string \<Rightarrow> EnvironmentConfig \<Rightarrow> env_reason option" where
  "validate_routing tern env ec =
     (let hasDSN = HasLocalDSN ec;
          hasScalarRouting = (ec_Target ec \<noteq> [] \<or> ec_Deployment ec \<noteq> []);
          hasMapRouting = (ec_Deployments ec \<noteq> None) in
      if hasDSN \<and> (hasScalarRouting \<or> hasMapRouting) then Some Dsn_And_Routing
      else if hasScalarRouting \<and> hasMapRouting then Some Scalar_And_Map
      else if hasDSN then validateLocalDSNConfig (ec_DSN ec) (ec_DSNFrom ec)
      else case ec_Deployments ec of
          Some deployments \<Rightarrow>
            if deployments = [] then Some Empty_Deployments_Map
            else first_err ((if length (ec_DeploymentOrder ec) > 0 then validateDeploymentOrder deployments (ec_DeploymentOrder ec) else None)
                            # map (validate_deployment tern env) deployments)
        | None \<Rightarrow>
            if \<not> hasScalarRouting then Some Missing_Routing
            else if ec_Target ec = [] then Some (Missing_Target [])
            else if ec_Deployment ec = [] then Some Missing_Deployment
            else case map_of tern (ec_Deployment ec) of
                None \<Rightarrow> Some (Unknown_Deployment (ec_Deployment ec))
              | Some endpoints \<Rightarrow>
                  err_if (case map_of endpoints env of None \<Rightarrow> True | Some addr \<Rightarrow> addr = []) (No_Endpoint (ec_Deployment ec)))"

definition validate_environment :: "loader \<Rightarrow> TernConfig \<Rightarrow> string \<Rightarrow> EnvironmentConfig \<Rightarrow> env_reason option" where
  "validate_environment ld tern env ec =
     (let hasMapRouting = (ec_Deployments ec \<noteq> None) in
      first_err
        [validateRevertWindowDuration ld ec,
         err_if (length (ec_DeploymentOrder ec) > 0 \<and> \<not> hasMapRouting) Order_Without_Map,
         if ec_CutoverPolicy ec \<noteq> [] then
           (if \<not> hasMapRouting then Some Cutover_Policy_Without_Map
            else if ec_CutoverPolicy ec \<in> {CutoverPolicyRolling, CutoverPolicyBarrier} then None
            else Some (Invalid_Cutover_Policy (ec_CutoverPolicy ec)))
         else None,
         if ec_OnFailure ec \<noteq> [] then
           (if \<not> hasMapRouting then Some On_Failure_Without_Map
            else if ec_OnFailure ec \<in> {OnFailureHalt, OnFailureContinue} then None
            else if ec_OnFailure ec = OnFailurePause then Some On_Failure_Unsupported
            else Some (Invalid_On_Failure (ec_OnFailure ec)))
         else None,
         validate_routing tern env ec])"

definition validate_database :: "loader \<Rightarrow> TernConfig \<Rightarrow> string \<times> DatabaseConfig \<Rightarrow> config_error option" where
  "validate_database ld tern = (\<lambda>(name, dc).
     first_err
       ([err_if (dc_Type dc = []) (Database_Missing_Type name),
         validateDatabaseSourcePolicy name dc,
         validateDatabaseActorAuthorization name dc,
         err_if (dc_Type dc \<notin> {DatabaseTypeMySQL, DatabaseTypeVitess, DatabaseTypeStrata}) (Database_Invalid_Type name (dc_Type dc)),
         err_if (dc_Environments dc = []) (Database_No_Environments name)]
        @ map (\<lambda>(env, ec). map_option (Env_Error name env) (validate_environment ld tern env ec)) (dc_Environments dc)))"

definition validateNoLocalRemoteRouteCollision :: "ServerConfig \<Rightarrow> config_error option" where
  "validateNoLocalRemoteRouteCollision c =
     first_err (concat (map (\<lambda>(database, dc).
       case map_of (sv_TernDeployments c) database of
         None \<Rightarrow> []
       | Some remoteEnvironments \<Rightarrow>
           map (\<lambda>(environment, ec).
             err_if (HasLocalDSN ec \<and> (case map_of remoteEnvironments environment of None \<Rightarrow> False | Some addr \<Rightarrow> addr \<noteq> []))
               (Route_Collision database environment)) (dc_Environments dc)) (sv_Databases c)))"

definition validate_tern :: "string \<times> (string \<times> string) list \<Rightarrow> config_error option" where
  "validate_tern = (\<lambda>(name, endpoints).
     first_err (err_if (endpoints = []) (Deployment_No_Environments name)
       # map (\<lambda>(env, addr). err_if (addr = []) (Deployment_Empty_Address name env)) endpoints))"

definition isValidTenantName :: "string \<Rightarrow> bool" where
  "isValidTenantName tenant =
     list_all (\<lambda>(i, ch). let n = (of_char ch :: nat) in
         97 \<le> n \<and> n \<le> 122 \<or> 65 \<le> n \<and> n \<le> 90 \<or> 48 \<le> n \<and> n \<le> 57 \<or> i > 0 \<and> (ch = CHR ''_'' \<or> ch = CHR ''-''))
       (enumerate 0 tenant)"

definition auth_Validate :: "AuthConfig \<Rightarrow> config_error option" where
  "auth_Validate a =
     (if au_Type a = [] \<or> au_Type a = ''none'' then None
      else if au_Type a = ''oidc'' then
        (if trim_space (au_Issuer a) = [] then Some (Auth_Error ''issuer is required when auth type is oidc'')
         else if au_Issuer a \<noteq> trim_space (au_Issuer a) then Some (Auth_Error ''issuer must not have leading or trailing whitespace'')
         else if trim_space (au_Audience a) = [] then Some (Auth_Error ''audience is required when auth type is oidc'')
         else None)
      else Some (Auth_Error ''unknown auth type''))"

definition TargetResolver_Enabled :: "TargetResolverConfig \<Rightarrow> bool" where
  "TargetResolver_Enabled t \<longleftrightarrow> length (tr_Targets t) > 0 \<or> length (tr_Etre t) > 0"

definition validate_resolved :: "loader \<Rightarrow> ServerConfig \<Rightarrow> config_error option" where
  "validate_resolved ld c =
     first_err
       ([err_if (sv_Databases c = [] \<and> \<not> TargetResolver_Enabled (sv_TargetResolver c)) Databases_Required,
         field_error ''environment_order'' (validateUniqueNames (sv_EnvironmentOrder c)),
         field_error ''required_checks'' (validateUniqueNames (sv_RequiredChecks c)),
         validatePRCommandAuthorization (sv_PRCommandAuthorization c),
         validateReviewPolicy (sv_ReviewPolicy c),
         validateSupportChannel ld (sv_SupportChannel c),
         validateGitHubAppsConfig c,
         validateRequiredChecksNotAggregate c,
         if PendingDropsEnabled c then (case PendingDropsRetention ld c of Inl e \<Rightarrow> Some e | Inr _ \<Rightarrow> None) else None]
        @ map (validate_database ld (sv_TernDeployments c)) (sv_Databases c)
        @ [validateNoLocalRemoteRouteCollision c]
        @ map validate_tern (sv_TernDeployments c)
        @ [map_option Storage_Config_Error (validateLocalDSNConfig (sv_StorageDSN c) (sv_StorageDSNFrom c)),
           err_if (sv_Tenant c \<noteq> [] \<and> \<not> isValidTenantName (sv_Tenant c)) (Invalid_Tenant (sv_Tenant c)),
           auth_Validate (sv_Auth c)])"

definition Validate :: "loader \<Rightarrow> ServerConfig \<Rightarrow> config_error + ServerConfig" where
  "Validate ld c =
     bind_result (resolveDeprecatedDrivers c) (\<lambda>c1. case validate_resolved ld c1 of Some e \<Rightarrow> Inl e | None \<Rightarrow> Inr c1)"

subsection \<open>Questions to the configuration\<close>

definition cfg_Database :: "ServerConfig \<Rightarrow> string \<Rightarrow> DatabaseConfig option" where
  "cfg_Database c name = map_of (sv_Databases c) name"

definition DatabaseEnvironment :: "ServerConfig \<Rightarrow> string \<Rightarrow> string \<Rightarrow> EnvironmentConfig option" where
  "DatabaseEnvironment c database environment =
     (case cfg_Database c database of None \<Rightarrow> None | Some dc \<Rightarrow> map_of (dc_Environments dc) environment)"

definition CutoverPolicyFor :: "ServerConfig \<Rightarrow> string \<Rightarrow> string \<Rightarrow> string" where
  "CutoverPolicyFor c database environment =
     (case DatabaseEnvironment c database environment of
        None \<Rightarrow> CutoverPolicyRolling
      | Some ec \<Rightarrow> if ec_CutoverPolicy ec = [] then CutoverPolicyRolling else ec_CutoverPolicy ec)"

definition cfg_OnFailure :: "ServerConfig \<Rightarrow> string \<Rightarrow> string \<Rightarrow> string" where
  "cfg_OnFailure c database environment =
     (case DatabaseEnvironment c database environment of
        None \<Rightarrow> OnFailureHalt
      | Some ec \<Rightarrow> if ec_OnFailure ec = [] then OnFailureHalt else ec_OnFailure ec)"

definition defaultEnvironmentOrder :: "string list" where
  "defaultEnvironmentOrder = [''staging'', ''production'']"

definition PromotionEnvironmentOrder :: "ServerConfig option \<Rightarrow> string list" where
  "PromotionEnvironmentOrder c =
     (case c of None \<Rightarrow> defaultEnvironmentOrder
      | Some c \<Rightarrow> if length (sv_EnvironmentOrder c) = 0 then defaultEnvironmentOrder else sv_EnvironmentOrder c)"

fun take_enabled :: "string list \<Rightarrow> string list \<Rightarrow> string list \<times> string list" where
  "take_enabled enabledSet [] = ([], enabledSet)"
| "take_enabled enabledSet (env # order) =
     (if env \<in> set enabledSet then (case take_enabled (removeAll env enabledSet) order of (ordered, rest) \<Rightarrow> (env # ordered, rest))
      else take_enabled enabledSet order)"

definition OrderedEnvironments :: "ServerConfig option \<Rightarrow> string list \<Rightarrow> string list" where
  "OrderedEnvironments c enabled =
     (case take_enabled (remdups (filter (\<lambda>env. env \<noteq> []) enabled)) (PromotionEnvironmentOrder c) of
        (ordered, enabledSet) \<Rightarrow> if length enabledSet = 0 then ordered else ordered @ sort enabledSet)"

definition DatabaseEnvironments :: "ServerConfig option \<Rightarrow> string \<Rightarrow> config_error + string list" where
  "DatabaseEnvironments c database =
     (case c of
        None \<Rightarrow> Inl Config_Nil
      | Some c' \<Rightarrow> (case cfg_Database c' database of
            None \<Rightarrow> Inl (Unknown_Database database)
          | Some dc \<Rightarrow> Inr (OrderedEnvironments c (map fst (dc_Environments dc)))))"

definition orderedDeploymentKeys :: "(string \<times> DeploymentTarget) list \<Rightarrow> string list \<Rightarrow> env_reason + string list" where
  "orderedDeploymentKeys deployments order =
     (if list_ex (\<lambda>(deployment, _). deployment = []) deployments then Inl Empty_Deployment_Key
      else if length order = 0 then Inr (sort (map fst deployments))
      else case validateDeploymentOrder deployments order of Some e \<Rightarrow> Inl e | None \<Rightarrow> Inr order)"

fun resolve_deployments :: "string \<Rightarrow> (string \<times> DeploymentTarget) list \<Rightarrow> string list \<Rightarrow> env_reason + ExecutionTarget list" where
  "resolve_deployments dbType deployments [] = Inr []"
| "resolve_deployments dbType deployments (deployment # rest) =
     (let target = (case map_of deployments deployment of None \<Rightarrow> [] | Some dt \<Rightarrow> dt_Target dt) in
      if target = [] then Inl (Missing_Target deployment)
      else bind_result (resolve_deployments dbType deployments rest)
        (\<lambda>out. Inr (\<lparr>et_DatabaseType = dbType, et_Deployment = deployment, et_Target = target\<rparr> # out)))"

definition ResolveDatabaseTargets :: "ServerConfig option \<Rightarrow> string \<Rightarrow> string \<Rightarrow> config_error + ExecutionTarget list" where
  "ResolveDatabaseTargets c database environment =
     (case c of
        None \<Rightarrow> Inl Config_Nil
      | Some c \<Rightarrow> (case cfg_Database c database of
          None \<Rightarrow> Inl (Unknown_Database database)
        | Some dc \<Rightarrow> (case map_of (dc_Environments dc) environment of
            None \<Rightarrow> Inl (Unknown_Environment database environment)
          | Some ec \<Rightarrow>
              if HasLocalDSN ec then Inr [\<lparr>et_DatabaseType = dc_Type dc, et_Deployment = database, et_Target = database\<rparr>]
              else case ec_Deployments ec of
                  Some deployments \<Rightarrow>
                    if deployments = [] then Inl (Env_Error database environment Empty_Deployments_Map)
                    else (case bind_result (orderedDeploymentKeys deployments (ec_DeploymentOrder ec)) (resolve_deployments (dc_Type dc) deployments) of
                        Inl e \<Rightarrow> Inl (Env_Error database environment e)
                      | Inr targets \<Rightarrow> Inr targets)
                | None \<Rightarrow>
                    if ec_Target ec = [] then Inl (Env_Error database environment (Missing_Target []))
                    else if ec_Deployment ec = [] then Inl (Env_Error database environment Missing_Deployment)
                    else Inr [\<lparr>et_DatabaseType = dc_Type dc, et_Deployment = ec_Deployment ec, et_Target = ec_Target ec\<rparr>])))"

definition ResolveDatabaseTarget :: "ServerConfig option \<Rightarrow> string \<Rightarrow> string \<Rightarrow> config_error + ExecutionTarget" where
  "ResolveDatabaseTarget c database environment =
     bind_result (ResolveDatabaseTargets c database environment)
       (\<lambda>targets. if length targets \<noteq> 1 then Inl (Several_Deployments (length targets)) else Inr (hd targets))"

definition ResolvePrimaryDatabaseTarget :: "ServerConfig option \<Rightarrow> string \<Rightarrow> string \<Rightarrow> config_error + ExecutionTarget" where
  "ResolvePrimaryDatabaseTarget c database environment =
     bind_result (ResolveDatabaseTargets c database environment)
       (\<lambda>targets. if length targets = 0 then Inl No_Deployments else Inr (hd targets))"

definition IsRepoAllowed :: "ServerConfig option \<Rightarrow> string \<Rightarrow> bool" where
  "IsRepoAllowed c repo =
     (case c of None \<Rightarrow> True | Some c \<Rightarrow> if length (sv_Repos c) = 0 then True else map_of (sv_Repos c) repo \<noteq> None)"

definition AreChecksEnabled :: "ServerConfig option \<Rightarrow> string \<Rightarrow> bool" where
  "AreChecksEnabled c repo =
     (case c of None \<Rightarrow> True
      | Some c \<Rightarrow> if length (sv_Repos c) = 0 then True
          else case map_of (sv_Repos c) repo of None \<Rightarrow> True
            | Some rc \<Rightarrow> (case rc_EnableChecks rc of None \<Rightarrow> True | Some b \<Rightarrow> b))"

definition ResolveGitHubAppForRepo :: "loader \<Rightarrow> ServerConfig option \<Rightarrow> string \<Rightarrow> config_error + (string \<times> GitHubConfig)" where
  "ResolveGitHubAppForRepo ld c repo =
     (case c of None \<Rightarrow> Inl Config_Nil
      | Some c \<Rightarrow>
        (let apps = (case sv_Apps c of None \<Rightarrow> [] | Some apps \<Rightarrow> apps) in
         if length apps > 0 then
           (case map_of (sv_Repos c) repo of
              None \<Rightarrow> Inl (Repo_Undeclared repo)
            | Some rc \<Rightarrow> if rc_GitHubApp rc = [] then Inl (Repo_Missing_App repo)
                else (case map_of apps (rc_GitHubApp rc) of
                    None \<Rightarrow> Inl (Repo_Unknown_App repo (rc_GitHubApp rc))
                  | Some app \<Rightarrow> Inr (rc_GitHubApp rc, app)))
         else if \<not> Configured ld (sv_GitHub c) then Inl No_GitHub_App
         else Inr (''default'', sv_GitHub c)))"

fun apps_by_id :: "loader \<Rightarrow> (int \<times> string \<times> GitHubConfig) list \<Rightarrow> (string \<times> GitHubConfig) list
    \<Rightarrow> config_error + (int \<times> string \<times> GitHubConfig) list" where
  "apps_by_id ld out [] = Inr out"
| "apps_by_id ld out ((name, app) # apps) =
     (let appID = ResolveAppID ld app in
      if appID = 0 then Inl (App_Id_Invalid name)
      else case map_of out appID of
          Some (existing, _) \<Rightarrow> Inl (App_Id_Shared existing name appID)
        | None \<Rightarrow> apps_by_id ld ((appID, name, app) # out) apps)"

definition ResolveGitHubAppsByID :: "loader \<Rightarrow> ServerConfig option \<Rightarrow> config_error + (int \<times> string \<times> GitHubConfig) list" where
  "ResolveGitHubAppsByID ld c =
     (case c of None \<Rightarrow> Inl Config_Nil
      | Some c \<Rightarrow>
        (let apps = (case sv_Apps c of None \<Rightarrow> [] | Some apps \<Rightarrow> apps) in
         if length apps = 0 then
           (if \<not> Configured ld (sv_GitHub c) then Inl No_GitHub_App else apps_by_id ld [] [(''default'', sv_GitHub c)])
         else apps_by_id ld [] apps))"

definition IsEnvironmentAllowed :: "ServerConfig option \<Rightarrow> string \<Rightarrow> bool" where
  "IsEnvironmentAllowed c env =
     (case c of None \<Rightarrow> True | Some c \<Rightarrow> if length (sv_AllowedEnvironments c) = 0 then True else env \<in> set (sv_AllowedEnvironments c))"

definition ShouldRespondToTenant :: "ServerConfig option \<Rightarrow> string \<Rightarrow> bool" where
  "ShouldRespondToTenant c tenant =
     (if tenant = [] then True else case c of None \<Rightarrow> False | Some c \<Rightarrow> sv_Tenant c = tenant)"

definition ShouldRespondToUnscoped :: "ServerConfig option \<Rightarrow> bool" where
  "ShouldRespondToUnscoped c = (case c of None \<Rightarrow> True | Some c \<Rightarrow> (case sv_RespondToUnscoped c of None \<Rightarrow> True | Some b \<Rightarrow> b))"

definition ShouldRequirePassingChecks :: "ServerConfig option \<Rightarrow> bool" where
  "ShouldRequirePassingChecks c = (case c of None \<Rightarrow> True | Some c \<Rightarrow> (case sv_RequirePassingChecks c of None \<Rightarrow> True | Some b \<Rightarrow> b))"

definition ShouldClaimOperations :: "ServerConfig option \<Rightarrow> bool" where
  "ShouldClaimOperations c = (case c of None \<Rightarrow> True | Some c \<Rightarrow> (case sv_OperatorClaimOperations c of None \<Rightarrow> True | Some b \<Rightarrow> b))"

definition IsCheckRequired :: "ServerConfig option \<Rightarrow> string \<Rightarrow> bool" where
  "IsCheckRequired c name =
     (case c of None \<Rightarrow> True | Some c \<Rightarrow> if length (sv_RequiredChecks c) = 0 then True else name \<in> set (sv_RequiredChecks c))"

definition GitHubCheckNameBaseForRepo :: "ServerConfig option \<Rightarrow> string \<Rightarrow> string" where
  "GitHubCheckNameBaseForRepo c repo =
     (case c of None \<Rightarrow> DefaultGitHubCheckName
      | Some c \<Rightarrow>
        (let apps = (case sv_Apps c of None \<Rightarrow> [] | Some apps \<Rightarrow> apps) in
         if length apps > 0 then
           (case map_of (sv_Repos c) repo of
              None \<Rightarrow> DefaultGitHubCheckName
            | Some rc \<Rightarrow> (case map_of apps (rc_GitHubApp rc) of None \<Rightarrow> DefaultGitHubCheckName | Some app \<Rightarrow> CheckRunNameBase app))
         else CheckRunNameBase (sv_GitHub c)))"

definition PRCommandAuthorizationEnabled :: "ServerConfig option \<Rightarrow> bool" where
  "PRCommandAuthorizationEnabled c = (case c of None \<Rightarrow> False | Some c \<Rightarrow> pa_Enabled (sv_PRCommandAuthorization c))"

definition ReviewPolicyEnabled :: "ServerConfig option \<Rightarrow> bool" where
  "ReviewPolicyEnabled c = (case c of None \<Rightarrow> False | Some c \<Rightarrow> rp_Enabled (sv_ReviewPolicy c))"

definition ReviewPolicyIncludesDatabaseOperators :: "ServerConfig option \<Rightarrow> bool" where
  "ReviewPolicyIncludesDatabaseOperators c =
     (case c of None \<Rightarrow> True | Some c \<Rightarrow> (case rp_IncludeDatabaseOperators (sv_ReviewPolicy c) of None \<Rightarrow> True | Some b \<Rightarrow> b))"

subsection \<open>Authorising the source of a plan\<close>

record PlanSourcePolicyRequest =
  ps_Database :: string
  ps_Repository :: string
  ps_PullRequest :: int
  ps_SchemaPath :: string

datatype source_policy_reason =
    MissingServerConfig
  | MissingDatabaseConfig
  | MissingRepository
  | MissingPullRequest
  | MissingSchemaPath
  | UnauthorizedRepo
  | UnauthorizedSchemaDir

definition hasSourcePolicy :: "DatabaseConfig \<Rightarrow> bool" where
  "hasSourcePolicy dc \<longleftrightarrow> length (dc_AllowedRepos dc) > 0 \<or> length (dc_AllowedDirs dc) > 0"

definition AuthorizePlanSource :: "ServerConfig option \<Rightarrow> PlanSourcePolicyRequest \<Rightarrow> source_policy_reason option" where
  "AuthorizePlanSource c req =
     (case c of None \<Rightarrow> Some MissingServerConfig
      | Some c \<Rightarrow> (case cfg_Database c (ps_Database req) of
          None \<Rightarrow> Some MissingDatabaseConfig
        | Some dc \<Rightarrow>
            if \<not> hasSourcePolicy dc then None
            else if trim_space (ps_Repository req) = [] then Some MissingRepository
            else if ps_PullRequest req \<le> 0 then Some MissingPullRequest
            else if trim_space (ps_SchemaPath req) = [] then Some MissingSchemaPath
            else if length (dc_AllowedRepos dc) > 0 \<and> \<not> repoAllowed (dc_AllowedRepos dc) (ps_Repository req) then Some UnauthorizedRepo
            else if length (dc_AllowedDirs dc) > 0 \<and> \<not> schemaPathAllowed (dc_AllowedDirs dc) (ps_SchemaPath req) then Some UnauthorizedSchemaDir
            else None))"

definition databaseAllowsRepo :: "DatabaseConfig \<Rightarrow> string \<Rightarrow> bool" where
  "databaseAllowsRepo dc repo \<longleftrightarrow> length (dc_AllowedRepos dc) = 0 \<or> repoAllowed (dc_AllowedRepos dc) repo"

definition RepoHasSchemaDirAllowlist :: "ServerConfig option \<Rightarrow> string \<Rightarrow> bool" where
  "RepoHasSchemaDirAllowlist c repo =
     (case c of None \<Rightarrow> False
      | Some c \<Rightarrow> list_ex (\<lambda>(_, dc). length (dc_AllowedDirs dc) \<noteq> 0 \<and> databaseAllowsRepo dc repo) (sv_Databases c))"

definition SchemaPathAllowedForRepo :: "ServerConfig option \<Rightarrow> string \<Rightarrow> string \<Rightarrow> bool" where
  "SchemaPathAllowedForRepo c repo schemaPath =
     (case c of None \<Rightarrow> False
      | Some c \<Rightarrow> list_ex (\<lambda>(_, dc). length (dc_AllowedDirs dc) \<noteq> 0 \<and> databaseAllowsRepo dc repo \<and> schemaPathAllowed (dc_AllowedDirs dc) schemaPath)
          (sv_Databases c))"

subsection \<open>What validation guarantees\<close>

lemma order_entries_None:
  "order_entries deployments seen order = None \<longleftrightarrow>
     distinct order \<and> set order \<inter> set seen = {} \<and> [] \<notin> set order \<and> set order \<subseteq> fst ` set deployments"
  by (induction order arbitrary: seen) (auto simp: map_of_eq_None_iff)

lemma deployment_order_ok:
  assumes "validateDeploymentOrder deployments order = None"
  shows "distinct order" "set order = fst ` set deployments" "[] \<notin> fst ` set deployments"
  using assms by (auto simp: validateDeploymentOrder_def order_entries_None split: prod.splits)

text \<open>A deployment order lists every key of the map once, so the keys in rollout order are a permutation of the map.\<close>

lemma ordered_keys:
  assumes "orderedDeploymentKeys deployments order = Inr keys" "distinct (map fst deployments)"
  shows "distinct keys" "set keys = fst ` set deployments" "order \<noteq> [] \<Longrightarrow> keys = order" "order = [] \<Longrightarrow> sorted keys"
  using assms deployment_order_ok [of deployments order]
  by (cases "order = []"; force simp: orderedDeploymentKeys_def split: if_splits option.splits)+

lemma resolve_deployments_keys: "resolve_deployments dbType deployments keys = Inr out \<Longrightarrow> map et_Deployment out = keys"
  by (induction keys arbitrary: out) (auto simp: Let_def bind_result_Inr_iff split: if_splits)

lemma resolve_deployments_target:
  assumes "resolve_deployments dbType deployments keys = Inr out" "et \<in> set out"
  shows "et_Target et \<noteq> [] \<and> (\<exists>dt. map_of deployments (et_Deployment et) = Some dt \<and> et_Target et = dt_Target dt)"
  using assms by (induction keys arbitrary: out) (auto simp: Let_def bind_result_Inr_iff split: if_splits option.splits)

lemma resolve_deployments_total:
  assumes "\<And>k. k \<in> set keys \<Longrightarrow> \<exists>dt. map_of deployments k = Some dt \<and> dt_Target dt \<noteq> []"
  shows "\<exists>out. resolve_deployments dbType deployments keys = Inr out"
  using assms by (induction keys) (force simp: Let_def)+

definition has_endpoint :: "TernConfig \<Rightarrow> string \<Rightarrow> string \<Rightarrow> bool" where
  "has_endpoint tern deployment env \<longleftrightarrow>
     (case map_of tern deployment of None \<Rightarrow> False
      | Some endpoints \<Rightarrow> (case map_of endpoints env of None \<Rightarrow> False | Some addr \<Rightarrow> addr \<noteq> []))"

lemma Validate_Inr:
  assumes "Validate ld c = Inr c'"
  shows "validate_resolved ld c' = None" "sv_Databases c' = sv_Databases c" "sv_TernDeployments c' = sv_TernDeployments c"
  using assms by (auto simp: Validate_def resolveDeprecatedDrivers_def bind_result_Inr_iff Let_def split: if_splits option.splits)

lemma validated_database:
  assumes "Validate ld c = Inr c'" "cfg_Database c' database = Some dc"
  shows "validate_database ld (sv_TernDeployments c') (database, dc) = None"
  using Validate_Inr(1) [OF assms(1)] map_of_SomeD [OF assms(2) [unfolded cfg_Database_def]]
  by (auto simp: validate_resolved_def)

lemma validated_environment:
  assumes "Validate ld c = Inr c'" "cfg_Database c' database = Some dc" "map_of (dc_Environments dc) environment = Some ec"
  shows "validate_environment ld (sv_TernDeployments c') environment ec = None"
  using validated_database [OF assms(1,2)] map_of_SomeD [OF assms(3)]
  by (auto simp: validate_database_def)

lemma validated_deployment:
  "validate_deployment tern env (deployment, dt) = None \<longleftrightarrow> deployment \<noteq> [] \<and> dt_Target dt \<noteq> [] \<and> has_endpoint tern deployment env"
  by (auto simp: validate_deployment_def has_endpoint_def split: option.splits)

text \<open>What a validated environment looks like: local, a scalar route with an endpoint, or a non-empty map whose every deployment has one.\<close>

lemma routing_cases:
  assumes "validate_environment ld tern env ec = None"
  obtains (local_dsn) "HasLocalDSN ec" "ec_Deployments ec = None"
  | (deployments) ds where "\<not> HasLocalDSN ec" "ec_Deployments ec = Some ds" "ds \<noteq> []"
      "ec_DeploymentOrder ec \<noteq> [] \<longrightarrow> validateDeploymentOrder ds (ec_DeploymentOrder ec) = None"
      "\<And>k dt. (k, dt) \<in> set ds \<Longrightarrow> validate_deployment tern env (k, dt) = None"
  | (scalar) "\<not> HasLocalDSN ec" "ec_Deployments ec = None" "ec_Target ec \<noteq> []" "ec_Deployment ec \<noteq> []"
      "has_endpoint tern (ec_Deployment ec) env"
proof -
  have r: "validate_routing tern env ec = None" using assms by (simp add: validate_environment_def Let_def)
  show thesis
  proof (cases "HasLocalDSN ec")
    case True
    with r local_dsn show thesis by (auto simp: validate_routing_def Let_def split: if_splits)
  next
    case local: False
    show thesis
    proof (cases "ec_Deployments ec")
      case None
      with r local scalar show thesis by (auto simp: validate_routing_def has_endpoint_def Let_def split: if_splits option.splits)
    next
      case (Some ds)
      with r local deployments show thesis by (auto simp: validate_routing_def Let_def split: if_splits)
    qed
  qed
qed

lemma validated_order:
  assumes "validate_environment ld tern env ec = None" "ec_DeploymentOrder ec \<noteq> []"
  shows "ec_Deployments ec \<noteq> None"
  using assms by (auto simp: validate_environment_def Let_def)

lemma ordered_keys_total:
  assumes "order \<noteq> [] \<longrightarrow> validateDeploymentOrder ds order = None" "\<And>k dt. (k, dt) \<in> set ds \<Longrightarrow> k \<noteq> []"
  shows "\<exists>keys. orderedDeploymentKeys ds order = Inr keys"
  using assms by (auto simp: orderedDeploymentKeys_def list_ex_iff split: option.splits)

lemma resolved_deployments:
  assumes "\<not> HasLocalDSN ec" "ec_Deployments ec = Some ds" "ds \<noteq> []" "cfg_Database c database = Some dc"
    "map_of (dc_Environments dc) environment = Some ec" "orderedDeploymentKeys ds (ec_DeploymentOrder ec) = Inr keys"
    "resolve_deployments (dc_Type dc) ds keys = Inr ts"
  shows "ResolveDatabaseTargets (Some c) database environment = Inr ts"
  using assms by (simp add: ResolveDatabaseTargets_def)

text \<open>The execution targets an environment configures: its database for a local one, the deployments of its map, or its one scalar route.\<close>

definition configured_targets :: "string \<Rightarrow> DatabaseConfig \<Rightarrow> EnvironmentConfig \<Rightarrow> ExecutionTarget set" where
  "configured_targets database dc ec =
     (if HasLocalDSN ec then {\<lparr>et_DatabaseType = dc_Type dc, et_Deployment = database, et_Target = database\<rparr>}
      else case ec_Deployments ec of
          Some ds \<Rightarrow> (\<lambda>(deployment, dt). \<lparr>et_DatabaseType = dc_Type dc, et_Deployment = deployment, et_Target = dt_Target dt\<rparr>) ` set ds
        | None \<Rightarrow> {\<lparr>et_DatabaseType = dc_Type dc, et_Deployment = ec_Deployment ec, et_Target = ec_Target ec\<rparr>})"

lemma resolve_deployments_eq:
  "resolve_deployments dbType deployments keys = Inr out \<Longrightarrow>
     out = map (\<lambda>k. \<lparr>et_DatabaseType = dbType, et_Deployment = k, et_Target = dt_Target (the (map_of deployments k))\<rparr>) keys"
  by (induction keys arbitrary: out) (auto simp: Let_def bind_result_Inr_iff split: if_splits option.splits)

lemma resolved_are_configured:
  assumes "resolve_deployments (dc_Type dc) ds keys = Inr ts" "set keys = fst ` set ds" "distinct (map fst ds)"
    and "\<not> HasLocalDSN ec" "ec_Deployments ec = Some ds"
  shows "set ts = configured_targets database dc ec"
proof -
  let ?target = "\<lambda>(k, dt). \<lparr>et_DatabaseType = dc_Type dc, et_Deployment = k, et_Target = dt_Target dt\<rparr>"
  have "set ts = (\<lambda>k. ?target (k, the (map_of ds k))) ` fst ` set ds" using resolve_deployments_eq [OF assms(1)] assms(2) by simp
  also have "\<dots> = (\<lambda>e. ?target (fst e, the (map_of ds (fst e)))) ` set ds" by (simp add: image_image)
  also have "\<dots> = ?target ` set ds" using assms(3) by (intro image_cong) auto
  finally show ?thesis using assms(4,5) by (simp add: configured_targets_def)
qed

text \<open>
  A validated configuration routes (C25): every environment of every database of a configuration that \<^verbatim>\<open>Validate\<close> accepted resolves to exactly the
  targets it configures: at least one, each deployment once, in the configured \<open>deployment_order\<close> where there is one and sorted by the deployment's key
  otherwise; and each remote target has an endpoint in that environment.
\<close>

theorem validated_config_resolves:
  assumes "Validate ld c = Inr c'" "wf_config c" "cfg_Database c' database = Some dc" "map_of (dc_Environments dc) environment = Some ec"
  shows "\<exists>ts. ResolveDatabaseTargets (Some c') database environment = Inr ts \<and> ts \<noteq> [] \<and> distinct (map et_Deployment ts)
    \<and> set ts = configured_targets database dc ec
    \<and> (if ec_DeploymentOrder ec \<noteq> [] then map et_Deployment ts = ec_DeploymentOrder ec else sorted (map et_Deployment ts))
    \<and> (HasLocalDSN ec \<or> list_all (\<lambda>t. et_Target t \<noteq> [] \<and> has_endpoint (sv_TernDeployments c') (et_Deployment t) environment) ts)"
proof -
  note valid = validated_environment [OF assms(1,3,4)]
  note resolve = assms(3,4)
  from valid show ?thesis
  proof (cases rule: routing_cases)
    case local_dsn
    then show ?thesis using resolve validated_order [OF valid] by (auto simp: ResolveDatabaseTargets_def configured_targets_def)
  next
    case scalar
    then show ?thesis using resolve validated_order [OF valid] by (auto simp: ResolveDatabaseTargets_def configured_targets_def)
  next
    case (deployments ds)
    have each: "k \<noteq> [] \<and> dt_Target dt \<noteq> [] \<and> has_endpoint (sv_TernDeployments c') k environment" if "(k, dt) \<in> set ds" for k dt
      using deployments(5) [OF that] by (simp add: validated_deployment)
    have dist: "distinct (map fst ds)"
      using assms(2) map_of_SomeD [OF assms(3) [unfolded cfg_Database_def]] map_of_SomeD [OF assms(4)] deployments(2) Validate_Inr(2) [OF assms(1)]
      by (force simp: wf_config_def wf_environment_def list_all_iff)
    obtain keys where keys: "orderedDeploymentKeys ds (ec_DeploymentOrder ec) = Inr keys"
      using ordered_keys_total deployments(4) each by blast
    have key_in: "\<exists>dt. map_of ds k = Some dt \<and> (k, dt) \<in> set ds" if "k \<in> set keys" for k
      using that ordered_keys(2) [OF keys dist] dist by (metis (no_types, lifting) imageE map_of_SomeD map_of_eq_None_iff not_None_eq)
    then obtain ts where ts: "resolve_deployments (dc_Type dc) ds keys = Inr ts"
      using resolve_deployments_total each by metis
    have ks: "map et_Deployment ts = keys" using resolve_deployments_keys [OF ts] .
    have "list_all (\<lambda>t. et_Target t \<noteq> [] \<and> has_endpoint (sv_TernDeployments c') (et_Deployment t) environment) ts"
      unfolding list_all_iff
    proof
      fix t assume "t \<in> set ts"
      moreover from this have "et_Deployment t \<in> set keys" using ks by (metis image_eqI list.set_map)
      ultimately show "et_Target t \<noteq> [] \<and> has_endpoint (sv_TernDeployments c') (et_Deployment t) environment"
        using resolve_deployments_target [OF ts] key_in each by blast
    qed
    moreover have "ts \<noteq> []" using ks ordered_keys(2) [OF keys dist] deployments(3) by auto
    moreover have "if ec_DeploymentOrder ec \<noteq> [] then map et_Deployment ts = ec_DeploymentOrder ec else sorted (map et_Deployment ts)"
      using ks ordered_keys(3,4) [OF keys dist] by simp
    moreover have "set ts = configured_targets database dc ec" by (rule resolved_are_configured [OF ts ordered_keys(2) [OF keys dist] dist deployments(1,2)])
    moreover have "distinct (map et_Deployment ts)" using ks ordered_keys(1) [OF keys dist] by simp
    moreover have "ResolveDatabaseTargets (Some c') database environment = Inr ts"
      using resolved_deployments deployments(1-3) resolve keys ts by blast
    ultimately show ?thesis by blast
  qed
qed

subsection \<open>A sample configuration\<close>

definition sample_env_config :: EnvironmentConfig where
  "sample_env_config = \<lparr>ec_DSN = [], ec_DSNFrom = None, ec_Target = [], ec_Deployment = [],
     ec_Deployments = Some [(''us'', \<lparr>dt_Target = ''orders-us''\<rparr>), (''eu'', \<lparr>dt_Target = ''orders-eu''\<rparr>)],
     ec_DeploymentOrder = [''eu'', ''us''], ec_CutoverPolicy = ''barrier'', ec_OnFailure = ''continue'', ec_Organization = [], ec_TokenSecretRef = [],
     ec_RevertWindowDuration = [], ec_APIURL = []\<rparr>"

definition sample_database :: DatabaseConfig where
  "sample_database = \<lparr>dc_Type = ''mysql'', dc_Environments = [(''staging'', sample_env_config)], dc_AllowedRepos = [''org/app''], dc_AllowedDirs = [''db''],
     dc_OperatorTeams = [''org/dba''], dc_OperatorUsers = [''carol'']\<rparr>"

definition sample_github :: GitHubConfig where
  "sample_github = \<lparr>gc_AppID = [], gc_PrivateKey = [], gc_WebhookSecret = [], gc_CheckName = [], gc_TrustedCheckAppSlugs = []\<rparr>"

definition sample_config :: ServerConfig where
  "sample_config = \<lparr>sv_StorageDSN = ''dsn'', sv_StorageDSNFrom = None,
     sv_Auth = \<lparr>au_Type = [], au_Issuer = [], au_Audience = [], au_GroupsClaim = []\<rparr>, sv_GitHub = sample_github, sv_Apps = None,
     sv_TernDeployments = [(''eu'', [(''staging'', ''eu:1'')]), (''us'', [(''staging'', ''us:1'')])],
     sv_Databases = [(''orders'', sample_database)], sv_TargetResolver = \<lparr>tr_Targets = [], tr_Etre = []\<rparr>, sv_Repos = [],
     sv_PRCommandAuthorization = \<lparr>pa_Enabled = True, pa_AdminTeams = [''org/admins''], pa_AdminUsers = [''root'']\<rparr>,
     sv_ReviewPolicy = \<lparr>rp_Enabled = True, rp_AdminTeams = [], rp_AdminUsers = [''root''], rp_IncludeDatabaseOperators = None, rp_IncludeCodeowners = False\<rparr>,
     sv_SupportChannel = \<lparr>sc_Name = [], sc_URL = []\<rparr>, sv_DefaultReviewers = [], sv_AllowedEnvironments = [], sv_Tenant = ''t-1'',
     sv_EnvironmentOrder = [''dev'', ''staging'', ''production''], sv_Drivers = 0, sv_OperatorWorkers = 4, sv_SchedulerWorkers = 0,
     sv_OperatorClaimOperations = None, sv_RequirePassingChecks = None, sv_RequiredChecks = [''ci/test''], sv_RespondToUnscoped = None,
     sv_PendingDrops = \<lparr>pd_Enabled = None, pd_CleanupEnabled = None, pd_Retention = [], pd_DryRun = False\<rparr>\<rparr>"

definition sample_loader :: loader where
  "sample_loader = \<lparr>ld_parse_duration = (\<lambda>s. map_option (\<lambda>n. int n * 1000000000) (parse_digits 0 s)), ld_parse_url = (\<lambda>_. None),
     ld_resolve = (\<lambda>s _. Some s)\<rparr>"

definition validated_sample :: ServerConfig where
  "validated_sample = sample_config\<lparr>sv_Drivers := 4, sv_OperatorWorkers := 0\<rparr>"

theorem validated_config_resolves_witness:
  "\<exists>ts. ResolveDatabaseTargets (Some validated_sample) ''orders'' ''staging'' = Inr ts \<and> map et_Deployment ts = [''eu'', ''us'']
    \<and> et_Target ` set ts = {''orders-us'', ''orders-eu''}"
proof -
  have v: "Validate sample_loader sample_config = Inr validated_sample" by code_simp
  have w: "wf_config sample_config" by code_simp
  have d: "cfg_Database validated_sample ''orders'' = Some sample_database" by code_simp
  have e: "map_of (dc_Environments sample_database) ''staging'' = Some sample_env_config" by code_simp
  have order: "ec_DeploymentOrder sample_env_config = [''eu'', ''us'']" by code_simp
  have targets: "et_Target ` configured_targets ''orders'' sample_database sample_env_config = {''orders-us'', ''orders-eu''}"
    by (simp add: configured_targets_def sample_env_config_def HasLocalDSN_def)
  from validated_config_resolves [OF v w d e] obtain ts where "ResolveDatabaseTargets (Some validated_sample) ''orders'' ''staging'' = Inr ts"
    "map et_Deployment ts = [''eu'', ''us'']" "set ts = configured_targets ''orders'' sample_database sample_env_config"
    unfolding order by (elim exE conjE) simp
  with targets show ?thesis by (intro exI [of _ ts] conjI) simp_all
qed

subsection \<open>Promotion order\<close>

lemma take_enabled_spec:
  assumes "distinct order"
  shows "take_enabled enabledSet order = (filter (\<lambda>env. env \<in> set enabledSet) order, filter (\<lambda>env. env \<notin> set order) enabledSet)"
  using assms
proof (induction order arbitrary: enabledSet)
  case (Cons env order)
  then have IH: "take_enabled S order = (filter (\<lambda>env. env \<in> set S) order, filter (\<lambda>env. env \<notin> set order) S)" for S by simp
  have "filter (\<lambda>x. x \<in> set enabledSet \<and> x \<noteq> env) order = filter (\<lambda>x. x \<in> set enabledSet) order"
    using Cons.prems by (intro filter_cong) auto
  moreover have "filter (\<lambda>x. x \<notin> set order) (removeAll env enabledSet) = filter (\<lambda>x. x \<noteq> env \<and> x \<notin> set order) enabledSet"
    by (induction enabledSet) auto
  moreover have "filter (\<lambda>x. x \<notin> set order) enabledSet = filter (\<lambda>x. x \<noteq> env \<and> x \<notin> set order) enabledSet" if "env \<notin> set enabledSet"
    using that by (intro filter_cong) auto
  ultimately show ?case by (simp add: IH)
qed simp

text \<open>
  Environments are ordered for promotion: over a promotion order without repetitions, which validation demands, the enabled environments come
  as the promotion order lists them, the ones it does not know follow in byte order, each exactly once and the empty name never.
\<close>

theorem ordered_environments_spec:
  assumes "distinct (PromotionEnvironmentOrder c)"
  shows "OrderedEnvironments c enabled =
    filter (\<lambda>env. env \<in> set enabled - {[]}) (PromotionEnvironmentOrder c)
    @ sorted_list_of_set (set enabled - {[]} - set (PromotionEnvironmentOrder c))"
proof -
  let ?P = "PromotionEnvironmentOrder c" and ?S = "remdups (filter (\<lambda>env. env \<noteq> []) enabled)"
  have "sort (filter (\<lambda>env. env \<notin> set ?P) ?S) = sorted_list_of_set (set (filter (\<lambda>env. env \<notin> set ?P) ?S))"
    by (simp only: sorted_list_of_set_sort_remdups distinct_remdups_id distinct_filter distinct_remdups)
  also have "set (filter (\<lambda>env. env \<notin> set ?P) ?S) = set enabled - {[]} - set ?P" by auto
  finally have "sort (filter (\<lambda>env. env \<notin> set ?P) ?S) = sorted_list_of_set (set enabled - {[]} - set ?P)" .
  moreover have "filter (\<lambda>env. env \<in> set ?S) ?P = filter (\<lambda>env. env \<in> set enabled - {[]}) ?P" by (intro filter_cong) auto
  moreover have "(if length xs = 0 then ys else ys @ sort xs) = ys @ sort xs" for xs ys :: "string list" by simp
  ultimately show ?thesis by (simp only: OrderedEnvironments_def take_enabled_spec [OF assms] prod.case)
qed

theorem ordered_environments_spec_witness:
  "OrderedEnvironments (Some sample_config) [''zeta'', ''production'', [], ''staging'', ''alpha'', ''staging''] =
    filter (\<lambda>env. env \<in> set [''zeta'', ''production'', [], ''staging'', ''alpha'', ''staging''] - {[]}) (PromotionEnvironmentOrder (Some sample_config))
    @ sorted_list_of_set (set [''zeta'', ''production'', [], ''staging'', ''alpha'', ''staging''] - {[]} - set (PromotionEnvironmentOrder (Some sample_config)))"
  by (rule ordered_environments_spec) code_simp

lemma promotion_order_distinct: "Validate ld c = Inr c' \<Longrightarrow> distinct (PromotionEnvironmentOrder (Some c'))"
  using Validate_Inr(1) [of ld c c']
  by (auto simp: validate_resolved_def field_error_def unique_names_ok PromotionEnvironmentOrder_def defaultEnvironmentOrder_def)

end
