(* ===== verification/SB_Commands.thy ===== *)
theory SB_Commands
  imports SB_Config
begin

section \<open>Commands in pull-request comments (webhook/commands.go)\<close>

text \<open>
  A comment becomes a command: code blocks are dropped, the first line that starts with the bot's name is the directive, and the registry says
  which flags the command word takes. The regular expressions of the sources are written out as matchers; each is a function of the
  character before the position and the text from there, as RE2 needs for the word boundary \<^verbatim>\<open>\b\<close>, and \<open>search\<close> tries the positions
  from the left. Matching ignores case where the expression has the flag \<^verbatim>\<open>(?i)\<close>. Texts are ASCII.
\<close>

subsection \<open>Regular expressions\<close>

definition word_char :: "char \<Rightarrow> bool" where
  "word_char ch \<longleftrightarrow> (let n = (of_char ch :: nat) in 48 \<le> n \<and> n \<le> 57 \<or> 65 \<le> n \<and> n \<le> 90 \<or> 97 \<le> n \<and> n \<le> 122 \<or> n = 95)"

text \<open>\<^verbatim>\<open>\s\<close> of RE2: space, tab, newline, form feed and carriage return.\<close>

definition re_space :: "char \<Rightarrow> bool" where
  "re_space ch \<longleftrightarrow> (let n = (of_char ch :: nat) in n = 32 \<or> n = 9 \<or> n = 10 \<or> n = 12 \<or> n = 13)"

definition blank :: "char \<Rightarrow> bool" where
  "blank ch \<longleftrightarrow> (let n = (of_char ch :: nat) in n = 32 \<or> n = 9)"

definition is_word :: "char option \<Rightarrow> bool" where
  "is_word ch = (case ch of None \<Rightarrow> False | Some ch \<Rightarrow> word_char ch)"

definition first_char :: "string \<Rightarrow> char option" where
  "first_char s = (case s of [] \<Rightarrow> None | ch # _ \<Rightarrow> Some ch)"

definition boundary :: "char option \<Rightarrow> string \<Rightarrow> bool" where
  "boundary prev rest \<longleftrightarrow> is_word prev \<noteq> is_word (first_char rest)"

text \<open>A literal, case ignored: what follows it, or no match.\<close>

fun literal :: "string \<Rightarrow> string \<Rightarrow> string option" where
  "literal [] s = Some s"
| "literal (p # ps) [] = None"
| "literal (p # ps) (ch # s) = (if ascii_lower p = ascii_lower ch then literal ps s else None)"

type_synonym 'a matcher = "char option \<Rightarrow> string \<Rightarrow> 'a option"

fun search :: "'a matcher \<Rightarrow> char option \<Rightarrow> string \<Rightarrow> 'a option" where
  "search f prev [] = f prev []"
| "search f prev (ch # s) = (case f prev (ch # s) of Some r \<Rightarrow> Some r | None \<Rightarrow> search f (Some ch) s)"

definition find_match :: "'a matcher \<Rightarrow> string \<Rightarrow> 'a option" where
  "find_match f s = search f None s"

text \<open>A flag word that ends at a word boundary, \<^verbatim>\<open>(?i)--force\b\<close> and the like.\<close>

definition flag :: "string \<Rightarrow> unit matcher" where
  "flag word prev s =
     (case literal word s of None \<Rightarrow> None | Some rest \<Rightarrow> if boundary (Some (last word)) rest then Some () else None)"

definition autoConfirmRegex :: "unit matcher" where
  "autoConfirmRegex prev s = (case flag ''--yes'' prev s of Some u \<Rightarrow> Some u | None \<Rightarrow> flag ''-y'' prev s)"

definition spaces :: "(char \<Rightarrow> bool) \<Rightarrow> string \<Rightarrow> string option" where
  "spaces p s = (if s \<noteq> [] \<and> p (hd s) then Some (dropWhile p s) else None)"

text \<open>\<^verbatim>\<open>(?i)-e\s+(staging|production)\<close>: the captured word.\<close>

definition environmentRegex :: "string matcher" where
  "environmentRegex prev s =
     (case literal ''-e'' s of None \<Rightarrow> None
      | Some s1 \<Rightarrow> (case spaces re_space s1 of None \<Rightarrow> None
        | Some s2 \<Rightarrow> if literal ''staging'' s2 \<noteq> None then Some (take 7 s2)
            else if literal ''production'' s2 \<noteq> None then Some (take 10 s2) else None))"

definition name_char :: "char \<Rightarrow> bool" where
  "name_char ch \<longleftrightarrow> word_char ch \<or> ch = CHR ''-''"

text \<open>\<^verbatim>\<open>(?i)-d\s+([a-zA-Z0-9_-]+)\<close>.\<close>

definition databaseRegex :: "string matcher" where
  "databaseRegex prev s =
     (case literal ''-d'' s of None \<Rightarrow> None
      | Some s1 \<Rightarrow> (case spaces re_space s1 of None \<Rightarrow> None
        | Some s2 \<Rightarrow> let name = takeWhile name_char s2 in if name \<noteq> [] then Some name else None))"

definition hex_char :: "char \<Rightarrow> bool" where
  "hex_char ch \<longleftrightarrow> (let n = (of_char (ascii_lower ch) :: nat) in 48 \<le> n \<and> n \<le> 57 \<or> 97 \<le> n \<and> n \<le> 102)"

text \<open>\<^verbatim>\<open>(?i)\b(apply[_-][a-f0-9]+)\b\<close>; a shorter run of digits is followed by a word character, so the longest run decides.\<close>

definition applyIDRegex :: "string matcher" where
  "applyIDRegex prev s =
     (if \<not> boundary prev s then None
      else case literal ''apply'' s of None \<Rightarrow> None
        | Some s1 \<Rightarrow>
            if s1 \<noteq> [] \<and> (hd s1 = CHR ''_'' \<or> hd s1 = CHR ''-'') then
              (let digits = takeWhile hex_char (tl s1); rest = dropWhile hex_char (tl s1) in
               if digits \<noteq> [] \<and> boundary (Some (last digits)) rest then Some (take 5 s @ [hd s1] @ digits) else None)
            else None)"

text \<open>\<^verbatim>\<open>(?i)(?:^|\s)(?:--tenant|-t)(?:[ \t]+([^\s]+))?\<close>: the captured word, empty when the optional group is absent.\<close>

definition tenant_value :: "string \<Rightarrow> string" where
  "tenant_value s = (case spaces blank s of None \<Rightarrow> [] | Some s1 \<Rightarrow> takeWhile (\<lambda>ch. \<not> re_space ch) s1)"

definition tenant_word :: "string \<Rightarrow> string option" where
  "tenant_word s =
     (case literal ''--tenant'' s of Some rest \<Rightarrow> Some (tenant_value rest)
      | None \<Rightarrow> (case literal ''-t'' s of Some rest \<Rightarrow> Some (tenant_value rest) | None \<Rightarrow> None))"

definition tenantFlagRegex :: "string matcher" where
  "tenantFlagRegex prev s =
     (case (if prev = None then tenant_word s else None) of
        Some v \<Rightarrow> Some v
      | None \<Rightarrow> if s \<noteq> [] \<and> re_space (hd s) then tenant_word (tl s) else None)"

definition tenantRegex :: "string \<Rightarrow> bool" where
  "tenantRegex s \<longleftrightarrow> s \<noteq> [] \<and> word_char (hd s) \<and> hd s \<noteq> CHR ''_'' \<and> list_all name_char s"

text \<open>Both expressions that start with \<^verbatim>\<open>^ {0,3}schemabot\<close> are used on one line, so they match at its start or not at all.\<close>

definition after_bot :: "string \<Rightarrow> string option" where
  "after_bot line =
     (let s = dropWhile (\<lambda>ch. ch = CHR '' '') line in
      if length line - length s \<le> 3 then literal ''schemabot'' s else None)"

definition mentionRegex :: "string \<Rightarrow> bool" where
  "mentionRegex line = (case after_bot line of None \<Rightarrow> False | Some rest \<Rightarrow> rest = [] \<or> blank (hd rest))"

fun first_command :: "string list \<Rightarrow> string \<Rightarrow> string option" where
  "first_command [] s = None"
| "first_command (name # names) s =
     (case literal name s of
        Some rest \<Rightarrow> if boundary (Some (last name)) rest then Some name else first_command names s
      | None \<Rightarrow> first_command names s)"

definition command_word :: "string list \<Rightarrow> string \<Rightarrow> string option" where
  "command_word names line =
     (case after_bot line of None \<Rightarrow> None
      | Some s1 \<Rightarrow> (case spaces blank s1 of None \<Rightarrow> None | Some s2 \<Rightarrow> first_command names s2))"

subsection \<open>The registry\<close>

record CommandSpec =
  cs_Name :: string
  cs_RequiresEnv :: bool
  cs_HasApplyID :: bool
  cs_SupportsDB :: bool
  cs_SupportsAutoConfirm :: bool
  cs_SupportsSkipRevert :: bool
  cs_SupportsDeferCutover :: bool
  cs_SupportsAllowUnsafe :: bool
  cs_SupportsForce :: bool

definition action_Plan :: string where "action_Plan = ''plan''"
definition action_Apply :: string where "action_Apply = ''apply''"
definition action_ApplyConfirm :: string where "action_ApplyConfirm = ''apply-confirm''"
definition action_Unlock :: string where "action_Unlock = ''unlock''"
definition action_Stop :: string where "action_Stop = ''stop''"
definition action_Start :: string where "action_Start = ''start''"
definition action_Cutover :: string where "action_Cutover = ''cutover''"
definition action_Revert :: string where "action_Revert = ''revert''"
definition action_SkipRevert :: string where "action_SkipRevert = ''skip-revert''"
definition action_Rollback :: string where "action_Rollback = ''rollback''"
definition action_RollbackConfirm :: string where "action_RollbackConfirm = ''rollback-confirm''"
definition action_FixLint :: string where "action_FixLint = ''fix-lint''"
definition action_Help :: string where "action_Help = ''help''"

lemmas action_consts = action_Plan_def action_Apply_def action_ApplyConfirm_def action_Unlock_def action_Stop_def action_Start_def action_Cutover_def
  action_Revert_def action_SkipRevert_def action_Rollback_def action_RollbackConfirm_def action_FixLint_def action_Help_def

definition spec_of :: "string \<Rightarrow> CommandSpec" where
  "spec_of name = \<lparr>cs_Name = name, cs_RequiresEnv = False, cs_HasApplyID = False, cs_SupportsDB = False, cs_SupportsAutoConfirm = False,
     cs_SupportsSkipRevert = False, cs_SupportsDeferCutover = False, cs_SupportsAllowUnsafe = False, cs_SupportsForce = False\<rparr>"

definition commandSpecs :: "CommandSpec list" where
  "commandSpecs =
     [spec_of action_Help,
      (spec_of action_Plan)\<lparr>cs_RequiresEnv := True, cs_SupportsDB := True\<rparr>,
      (spec_of action_Apply)\<lparr>cs_RequiresEnv := True, cs_SupportsDB := True, cs_SupportsSkipRevert := True, cs_SupportsDeferCutover := True,
        cs_SupportsAllowUnsafe := True, cs_SupportsAutoConfirm := True\<rparr>,
      (spec_of action_ApplyConfirm)\<lparr>cs_RequiresEnv := True, cs_SupportsDB := True, cs_SupportsSkipRevert := True, cs_SupportsDeferCutover := True,
        cs_SupportsAllowUnsafe := True\<rparr>,
      (spec_of action_Unlock)\<lparr>cs_SupportsDB := True, cs_SupportsForce := True\<rparr>,
      (spec_of action_FixLint)\<lparr>cs_SupportsDB := True\<rparr>,
      (spec_of action_Stop)\<lparr>cs_RequiresEnv := True, cs_HasApplyID := True\<rparr>,
      (spec_of action_Start)\<lparr>cs_RequiresEnv := True, cs_HasApplyID := True\<rparr>,
      (spec_of action_Revert)\<lparr>cs_RequiresEnv := True\<rparr>,
      (spec_of action_SkipRevert)\<lparr>cs_RequiresEnv := True\<rparr>,
      (spec_of action_Cutover)\<lparr>cs_RequiresEnv := True, cs_HasApplyID := True\<rparr>,
      (spec_of action_Rollback)\<lparr>cs_RequiresEnv := True, cs_HasApplyID := True\<rparr>,
      (spec_of action_RollbackConfirm)\<lparr>cs_RequiresEnv := True, cs_SupportsDeferCutover := True\<rparr>]"

definition specByName :: "string \<Rightarrow> CommandSpec option" where
  "specByName name = find (\<lambda>s. cs_Name s = name) commandSpecs"

definition commandSupportsDatabaseFlag :: "string \<Rightarrow> bool" where
  "commandSupportsDatabaseFlag actionName = (case specByName actionName of None \<Rightarrow> False | Some s \<Rightarrow> cs_SupportsDB s)"

text \<open>The alternation lists longer names first.\<close>

definition commandNamePattern :: "string list" where
  "commandNamePattern = sort_key (\<lambda>name. - int (length name)) (map cs_Name commandSpecs)"

subsection \<open>From a comment to a command\<close>

record CommandResult =
  cmd_Action :: string
  cmd_ApplyID :: string
  cmd_Environment :: string
  cmd_Database :: string
  cmd_Tenant :: string
  cmd_TenantError :: bool
  cmd_SkipRevert :: bool
  cmd_DeferCutover :: bool
  cmd_AllowUnsafe :: bool
  cmd_Force :: bool
  cmd_AutoConfirm :: bool
  cmd_Found :: bool
  cmd_IsHelp :: bool
  cmd_IsMention :: bool
  cmd_MissingEnv :: bool

definition no_command :: CommandResult where
  "no_command = \<lparr>cmd_Action = [], cmd_ApplyID = [], cmd_Environment = [], cmd_Database = [], cmd_Tenant = [], cmd_TenantError = False,
     cmd_SkipRevert = False, cmd_DeferCutover = False, cmd_AllowUnsafe = False, cmd_Force = False, cmd_AutoConfirm = False, cmd_Found = False,
     cmd_IsHelp = False, cmd_IsMention = False, cmd_MissingEnv = False\<rparr>"

definition nl :: char where "nl = char_of (10 :: nat)"
definition tab :: char where "tab = char_of (9 :: nat)"

text \<open>\<^verbatim>\<open>strings.Lines\<close>: every line with its newline.\<close>

function text_lines :: "string \<Rightarrow> string list" where
  "text_lines s =
     (if s = [] then []
      else case dropWhile (\<lambda>ch. ch \<noteq> nl) s of
          [] \<Rightarrow> [s]
        | _ # rest \<Rightarrow> (takeWhile (\<lambda>ch. ch \<noteq> nl) s @ [nl]) # text_lines rest)"
  by pat_completeness auto
termination
proof (relation "measure length")
  fix s rest :: string and x assume "dropWhile (\<lambda>ch. ch \<noteq> nl) s = x # rest"
  then have "length (x # rest) \<le> length s" by (metis length_dropWhile_le)
  then show "(rest, s) \<in> measure length" by simp
qed simp

declare text_lines.simps [simp del]

definition isMarkdownFence :: "string \<Rightarrow> bool" where
  "isMarkdownFence line \<longleftrightarrow> has_prefix line ''```'' \<or> has_prefix line ''~~~''"

definition leading_spaces :: "string \<Rightarrow> nat" where
  "leading_spaces line = length (takeWhile (\<lambda>ch. ch = CHR '' '') line)"

fun directive_lines :: "bool \<Rightarrow> string list \<Rightarrow> string list" where
  "directive_lines inFence [] = []"
| "directive_lines inFence (line # rest) =
     (if leading_spaces line \<le> 3 \<and> isMarkdownFence (drop (leading_spaces line) line) then directive_lines (\<not> inFence) rest
      else if inFence \<or> has_prefix line ''    '' \<or> has_prefix line [tab] then directive_lines inFence rest
      else line # directive_lines inFence rest)"

definition markdownDirectiveText :: "string \<Rightarrow> string" where
  "markdownDirectiveText body = concat (directive_lines False (text_lines body))"

definition trim_line_end :: "string \<Rightarrow> string" where
  "trim_line_end line = rev (dropWhile (\<lambda>ch. ch = nl \<or> ch = char_of (13 :: nat)) (rev line))"

definition firstDirectiveLine :: "string \<Rightarrow> string option" where
  "firstDirectiveLine body = find mentionRegex (map trim_line_end (text_lines body))"

definition extractTenant :: "string \<Rightarrow> string \<times> bool" where
  "extractTenant body =
     (case find_match tenantFlagRegex body of
        None \<Rightarrow> ([], False)
      | Some v \<Rightarrow> if v = [] \<or> \<not> tenantRegex v then ([], True) else (v, False))"

definition has_flag :: "unit matcher \<Rightarrow> string \<Rightarrow> bool" where
  "has_flag f body \<longleftrightarrow> find_match f body \<noteq> None"

definition captured :: "string matcher \<Rightarrow> string \<Rightarrow> string" where
  "captured f body = (case find_match f body of None \<Rightarrow> [] | Some v \<Rightarrow> v)"

definition applySpec :: "CommandSpec \<Rightarrow> string \<Rightarrow> string \<Rightarrow> bool \<Rightarrow> CommandResult" where
  "applySpec spec body tenant tenantErr =
     (let environment = to_lower (captured environmentRegex body) in
      no_command\<lparr>cmd_Action := cs_Name spec, cmd_Tenant := tenant, cmd_TenantError := tenantErr, cmd_IsMention := True,
        cmd_ApplyID := (if cs_HasApplyID spec then captured applyIDRegex body else []),
        cmd_Database := (if cs_SupportsDB spec then captured databaseRegex body else []),
        cmd_SkipRevert := (cs_SupportsSkipRevert spec \<and> has_flag (flag ''--skip-revert'') body),
        cmd_DeferCutover := (cs_SupportsDeferCutover spec \<and> has_flag (flag ''--defer-cutover'') body),
        cmd_AllowUnsafe := (cs_SupportsAllowUnsafe spec \<and> has_flag (flag ''--allow-unsafe'') body),
        cmd_Force := (cs_SupportsForce spec \<and> has_flag (flag ''--force'') body),
        cmd_AutoConfirm := (cs_SupportsAutoConfirm spec \<and> has_flag autoConfirmRegex body),
        cmd_Environment := environment,
        cmd_Found := (\<not> cs_RequiresEnv spec \<or> environment \<noteq> []),
        cmd_MissingEnv := (cs_RequiresEnv spec \<and> environment = [])\<rparr>)"

definition ParseCommand :: "string \<Rightarrow> CommandResult" where
  "ParseCommand body =
     (case firstDirectiveLine (markdownDirectiveText body) of
        None \<Rightarrow> no_command
      | Some directive \<Rightarrow> (case extractTenant directive of (tenant, tenantErr) \<Rightarrow>
          let mention = no_command\<lparr>cmd_Tenant := tenant, cmd_TenantError := tenantErr, cmd_IsMention := True\<rparr> in
          if command_word [action_Help] directive \<noteq> None then mention\<lparr>cmd_Action := action_Help, cmd_IsHelp := True\<rparr>
          else case command_word commandNamePattern directive of
              None \<Rightarrow> mention
            | Some name \<Rightarrow> (case specByName name of None \<Rightarrow> mention | Some spec \<Rightarrow> applySpec spec directive tenant tenantErr)))"

definition HasAutoConfirmFlag :: "string \<Rightarrow> bool" where "HasAutoConfirmFlag body = has_flag autoConfirmRegex body"
definition HasDatabaseFlag :: "string \<Rightarrow> bool" where "HasDatabaseFlag body \<longleftrightarrow> find_match databaseRegex body \<noteq> None"
definition HasDeferCutoverFlag :: "string \<Rightarrow> bool" where "HasDeferCutoverFlag body = has_flag (flag ''--defer-cutover'') body"

subsection \<open>What a parsed command is\<close>

lemma search_Some: "search f prev s = Some r \<Longrightarrow> \<exists>prev' s'. f prev' s' = Some r"
  by (induction f prev s rule: search.induct) (auto split: option.splits)

lemma literal_Some: "literal p s = Some rest \<Longrightarrow> to_lower (take (length p) s) = to_lower p \<and> s = take (length p) s @ rest"
  by (induction p s rule: literal.induct) (auto simp: to_lower_def split: if_splits)

lemma literal_word: "literal w s \<noteq> None \<Longrightarrow> to_lower (take (length w) s) = to_lower w"
  using literal_Some by blast

lemma environmentRegex_Some:
  assumes "environmentRegex prev s = Some v"
  shows "to_lower v = ''staging'' \<or> to_lower v = ''production''"
proof -
  obtain s1 where s1: "literal ''-e'' s = Some s1" using assms unfolding environmentRegex_def by (cases "literal ''-e'' s") simp_all
  obtain s2 where s2: "spaces re_space s1 = Some s2"
    using assms s1 unfolding environmentRegex_def by (cases "spaces re_space s1") simp_all
  have words: "to_lower ''staging'' = ''staging''" "to_lower ''production'' = ''production''" by code_simp+
  show ?thesis
  proof (cases "literal ''staging'' s2 = None")
    case False
    then have "v = take (length ''staging'') s2" using assms s1 s2 unfolding environmentRegex_def by (simp del: literal.simps add: numeral_eq_Suc)
    with literal_word [OF False] words show ?thesis by metis
  next
    case True
    then have p: "literal ''production'' s2 \<noteq> None" using assms s1 s2 unfolding environmentRegex_def by (simp del: literal.simps split: if_splits)
    then have "v = take (length ''production'') s2" using assms s1 s2 True unfolding environmentRegex_def by (simp del: literal.simps add: numeral_eq_Suc)
    with literal_word [OF p] words show ?thesis by metis
  qed
qed

lemma captured_environment: "to_lower (captured environmentRegex body) \<in> {[], ''staging'', ''production''}"
proof (cases "find_match environmentRegex body")
  case None then show ?thesis by (simp add: captured_def)
next
  case (Some v)
  from search_Some [OF Some [unfolded find_match_def]] obtain prev s where "environmentRegex prev s = Some v" by (elim exE)
  from environmentRegex_Some [OF this] Some show ?thesis by (simp add: captured_def)
qed

text \<open>The registry as a check of one spec: who may confirm automatically, override safety or force.\<close>

definition spec_ok :: "CommandSpec \<Rightarrow> bool" where
  "spec_ok s \<longleftrightarrow> (cs_SupportsAutoConfirm s \<longrightarrow> cs_Name s = action_Apply) \<and> (cs_SupportsForce s \<longrightarrow> cs_Name s = action_Unlock)
     \<and> (cs_SupportsAllowUnsafe s \<longrightarrow> cs_Name s \<in> {action_Apply, action_ApplyConfirm}) \<and> (cs_SupportsAllowUnsafe s \<longrightarrow> cs_RequiresEnv s)"

lemma registry_ok: "list_all spec_ok commandSpecs"
  by code_simp

lemma specByName_spec: "specByName name = Some spec \<Longrightarrow> spec \<in> set commandSpecs \<and> cs_Name spec = name"
  by (auto simp: specByName_def find_Some_iff)

text \<open>Every comment parses to nothing, to a bare mention or help, or to a registered command applied to a directive line.\<close>

lemma ParseCommand_cases:
  obtains (none) "ParseCommand body = no_command"
  | (mention) tenant tenantErr act h where "ParseCommand body = no_command\<lparr>cmd_Tenant := tenant, cmd_TenantError := tenantErr, cmd_IsMention := True,
      cmd_Action := act, cmd_IsHelp := h\<rparr>"
  | (command) spec line where "spec \<in> set commandSpecs" "firstDirectiveLine (markdownDirectiveText body) = Some line"
      "ParseCommand body = applySpec spec line (fst (extractTenant line)) (snd (extractTenant line))"
proof (cases "firstDirectiveLine (markdownDirectiveText body)")
  case None
  then show thesis using none by (simp add: ParseCommand_def)
next
  case (Some line)
  obtain tenant tenantErr where t: "extractTenant line = (tenant, tenantErr)" by fastforce
  let ?mention = "no_command\<lparr>cmd_Tenant := tenant, cmd_TenantError := tenantErr, cmd_IsMention := True\<rparr>"
  have bare: "?mention = no_command\<lparr>cmd_Tenant := tenant, cmd_TenantError := tenantErr, cmd_IsMention := True, cmd_Action := [], cmd_IsHelp := False\<rparr>"
    by (simp add: no_command_def)
  show thesis
  proof (cases "command_word [action_Help] line")
    case (Some hit)
    with \<open>firstDirectiveLine _ = Some line\<close> t mention show thesis by (simp add: ParseCommand_def)
  next
    case nohelp: None
    show thesis
    proof (cases "Option.bind (command_word commandNamePattern line) specByName")
      case None
      then have "ParseCommand body = ?mention" using Some t nohelp by (cases "command_word commandNamePattern line") (simp_all add: ParseCommand_def)
      with bare mention show thesis by metis
    next
      case spec: (Some spec)
      then obtain name where "command_word commandNamePattern line = Some name" "specByName name = Some spec" by (auto split: bind_splits)
      moreover from this have "ParseCommand body = applySpec spec line (fst (extractTenant line)) (snd (extractTenant line))"
        using Some t nohelp by (simp add: ParseCommand_def)
      ultimately show thesis using command Some specByName_spec by blast
    qed
  qed
qed

text \<open>
  Parsed commands are well formed (C16): a command that was found names one of the two environments where its registry entry asks for one, and
  confirmation without a second comment, overriding the safety check and forcing a lock are set only for the commands that may carry them.
\<close>

theorem parsed_command_well_formed:
  "let r = ParseCommand body in
     (cmd_Environment r \<in> {[], ''staging'', ''production''})
     \<and> (cmd_Found r \<longrightarrow> (\<exists>spec \<in> set commandSpecs. cmd_Action r = cs_Name spec \<and> (cs_RequiresEnv spec \<longrightarrow> cmd_Environment r \<noteq> [])))
     \<and> (cmd_AutoConfirm r \<longrightarrow> cmd_Action r = action_Apply)
     \<and> (cmd_AllowUnsafe r \<longrightarrow> cmd_Action r \<in> {action_Apply, action_ApplyConfirm})
     \<and> (cmd_Force r \<longrightarrow> cmd_Action r = action_Unlock)
     \<and> \<not> (cmd_Found r \<and> cmd_MissingEnv r)"
proof (cases body rule: ParseCommand_cases)
  case none then show ?thesis by (simp add: no_command_def)
next
  case (mention tenant tenantErr act h)
  then show ?thesis by (simp add: no_command_def)
next
  case (command spec line)
  then have "spec_ok spec" using registry_ok by (simp add: list_all_iff)
  with command captured_environment [of line] show ?thesis
    by (auto simp: applySpec_def no_command_def spec_ok_def Let_def)
qed

theorem parsed_command_well_formed_witness:
  "cmd_Environment (ParseCommand ''schemabot apply -e production -y'') \<in> {[], ''staging'', ''production''}
   \<and> cmd_Action (ParseCommand ''schemabot apply -e production -y'') = action_Apply"
proof -
  have "cmd_AutoConfirm (ParseCommand ''schemabot apply -e production -y'')" by code_simp
  with parsed_command_well_formed [of "''schemabot apply -e production -y''"] show ?thesis by (simp add: Let_def)
qed

subsection \<open>Only directive lines count\<close>

definition ends_line :: "string \<Rightarrow> bool" where
  "ends_line line \<longleftrightarrow> line \<noteq> [] \<and> last line = nl \<and> nl \<notin> set (butlast line)"

definition open_line :: "string \<Rightarrow> bool" where
  "open_line line \<longleftrightarrow> line \<noteq> [] \<and> nl \<notin> set line"

text \<open>A list of lines as a text yields them: all but the last one end in a newline.\<close>

fun proper_lines :: "string list \<Rightarrow> bool" where
  "proper_lines [] = True"
| "proper_lines [line] = (ends_line line \<or> open_line line)"
| "proper_lines (line # rest) = (ends_line line \<and> proper_lines rest)"

lemma proper_lines_Cons: "proper_lines (line # rest) \<longleftrightarrow> (if rest = [] then ends_line line \<or> open_line line else ends_line line \<and> proper_lines rest)"
  by (cases rest) auto

lemma text_lines_ends:
  assumes "ends_line line"
  shows "text_lines (line @ s) = line # text_lines s"
proof -
  obtain body where body: "line = body @ [nl]" "nl \<notin> set body"
    using assms unfolding ends_line_def by (metis append_butlast_last_id)
  have "takeWhile (\<lambda>ch. ch \<noteq> nl) (body @ nl # s) = body" "dropWhile (\<lambda>ch. ch \<noteq> nl) (body @ nl # s) = nl # s"
    using body(2) by (auto simp: takeWhile_append dropWhile_append)
  then show ?thesis by (subst text_lines.simps) (simp add: body(1))
qed

lemma text_lines_open: "open_line line \<Longrightarrow> text_lines line = [line]"
proof -
  assume "open_line line"
  then have "dropWhile (\<lambda>ch. ch \<noteq> nl) line = []" "line \<noteq> []" by (auto simp: open_line_def)
  then show ?thesis by (subst text_lines.simps) (simp only: list.case if_False)
qed

lemma text_lines_concat: "proper_lines lines \<Longrightarrow> text_lines (concat lines) = lines"
proof (induction lines)
  case (Cons line rest)
  show ?case
  proof (cases "rest = []")
    case True
    with Cons.prems text_lines_ends [of line "[]"] text_lines_open show ?thesis
      by (auto simp: proper_lines_Cons text_lines.simps [of "[]"])
  next
    case False
    with Cons text_lines_ends [of line "concat rest"] show ?thesis by (simp add: proper_lines_Cons)
  qed
qed (simp add: text_lines.simps)

lemma text_lines_proper: "proper_lines (text_lines s)"
proof (induction s rule: text_lines.induct)
  case (1 s)
  show ?case
  proof (cases "dropWhile (\<lambda>ch. ch \<noteq> nl) s")
    case Nil
    then have no: "nl \<notin> set s" by auto
    show ?thesis
    proof (cases "s = []")
      case True
      then show ?thesis by (simp add: text_lines.simps)
    next
      case False
      with no text_lines_open [of s] show ?thesis by (simp add: open_line_def)
    qed
  next
    case (Cons x rest)
    then have "x = nl" using hd_dropWhile [of "\<lambda>ch. ch \<noteq> nl" s] by auto
    have ne: "s \<noteq> []" using Cons by auto
    have "ends_line (takeWhile (\<lambda>ch. ch \<noteq> nl) s @ [nl])" by (auto simp: ends_line_def dest: set_takeWhileD)
    with 1 [OF ne Cons] ne Cons show ?thesis by (subst text_lines.simps) (simp add: proper_lines_Cons)
  qed
qed

lemma directive_lines_proper: "proper_lines lines \<Longrightarrow> proper_lines (directive_lines inFence lines)"
proof (induction inFence lines rule: directive_lines.induct)
  case (2 inFence line rest)
  have tail: "proper_lines rest" using "2.prems" by (cases rest) auto
  show ?case
  proof (cases "rest = []")
    case True
    with 2 tail show ?thesis by (auto simp: Let_def)
  next
    case False
    with "2.prems" have "ends_line line" by (simp add: proper_lines_Cons)
    with 2 tail show ?thesis by (auto simp: proper_lines_Cons Let_def)
  qed
qed simp

text \<open>So the first directive is a line of the comment that stands outside code fences and indented code.\<close>

lemma first_directive: "firstDirectiveLine (markdownDirectiveText body) = find mentionRegex (map trim_line_end (directive_lines False (text_lines body)))"
  by (simp add: firstDirectiveLine_def markdownDirectiveText_def text_lines_concat directive_lines_proper text_lines_proper)

lemma mention_line_shape:
  assumes "mentionRegex line"
  obtains k rest where "k \<le> 3" "line = replicate k (CHR '' '') @ rest" "rest \<noteq> []" "ascii_lower (hd rest) = CHR ''s''"
proof -
  let ?rest = "dropWhile (\<lambda>ch. ch = CHR '' '') line" and ?lead = "takeWhile (\<lambda>ch. ch = CHR '' '') line"
  from assms have len: "length line - length ?rest \<le> 3" and lit: "literal ''schemabot'' ?rest \<noteq> None"
    unfolding mentionRegex_def after_bot_def Let_def by (simp_all del: literal.simps split: option.splits if_splits)
  have lead: "?lead = replicate (length ?lead) (CHR '' '')" by (intro replicate_eqI) (auto dest: set_takeWhileD)
  have split: "line = replicate (length ?lead) (CHR '' '') @ ?rest" by (metis lead takeWhile_dropWhile_id)
  have "length line = length ?lead + length ?rest" by (metis length_append takeWhile_dropWhile_id)
  with len have k: "length ?lead \<le> 3" by simp
  have ne: "?rest \<noteq> []" and hd: "ascii_lower (hd ?rest) = CHR ''s''"
    using lit by (cases ?rest; simp add: ascii_lower_def split: if_splits)+
  show thesis by (rule that [OF k split ne hd])
qed

lemma mention_line_is_directive:
  assumes "mentionRegex line"
  shows "directive_lines False [line] = [line]"
proof -
  obtain k rest where line: "k \<le> 3" "line = replicate k (CHR '' '') @ rest" "rest \<noteq> []" "ascii_lower (hd rest) = CHR ''s''"
    by (rule mention_line_shape [OF assms])
  obtain ch rest' where rest: "rest = ch # rest'" using line(3) by (cases rest) auto
  have ch: "ch \<noteq> CHR '' ''" "ch \<noteq> CHR ''`''" "ch \<noteq> CHR ''~''" "ch \<noteq> tab"
  proof -
    have low: "ascii_lower ch = CHR ''s''" using line(4) rest by simp
    have "tab \<noteq> CHR ''s''" "ascii_lower tab \<noteq> CHR ''s''" by code_simp+
    with low show "ch \<noteq> CHR '' ''" "ch \<noteq> CHR ''`''" "ch \<noteq> CHR ''~''" "ch \<noteq> tab" by (auto simp: ascii_lower_def)
  qed
  have lead: "leading_spaces line = k" using ch(1) by (simp add: leading_spaces_def line(2) rest takeWhile_append)
  have "k = 0 \<or> k = 1 \<or> k = 2 \<or> k = 3" using line(1) by arith
  moreover have "CHR '' '' \<noteq> tab" by code_simp
  ultimately show ?thesis using ch lead by (elim disjE) (simp_all add: line(2) rest isMarkdownFence_def numeral_eq_Suc)
qed

lemma trim_line_end_idem: "trim_line_end (trim_line_end line) = trim_line_end line"
proof -
  have "dropWhile P (dropWhile P xs) = dropWhile P xs" for P and xs :: string by (induction xs) auto
  then show ?thesis by (simp add: trim_line_end_def)
qed

lemma trim_no_newline: "ends_line line \<or> open_line line \<Longrightarrow> nl \<notin> set (trim_line_end line)"
proof -
  let ?drop = "dropWhile (\<lambda>ch. ch = nl \<or> ch = char_of (13 :: nat))"
  assume "ends_line line \<or> open_line line"
  then obtain body where body: "nl \<notin> set body" "line = body \<or> line = body @ [nl]"
    unfolding ends_line_def open_line_def by (metis append_butlast_last_id)
  then have "trim_line_end line = rev (?drop (rev body))" by (auto simp: trim_line_end_def)
  then show ?thesis using body(1) by (auto dest: set_dropWhileD)
qed

lemma proper_lines_each: "proper_lines lines \<Longrightarrow> line \<in> set lines \<Longrightarrow> ends_line line \<or> open_line line"
  by (induction lines) (auto simp: proper_lines_Cons split: if_splits)

lemma first_directive_of_mention:
  assumes "mentionRegex line" "trim_line_end line = line" "nl \<notin> set line"
  shows "firstDirectiveLine (markdownDirectiveText line) = Some line"
proof -
  have "line \<noteq> []" using mention_line_shape [OF assms(1)] by (metis Nil_is_append_conv)
  then have "text_lines line = [line]" using assms(3) by (intro text_lines_open) (simp add: open_line_def)
  then show ?thesis using assms by (simp add: first_directive mention_line_is_directive del: directive_lines.simps)
qed

text \<open>
  One line decides: what a comment asks for is what its first directive asks for, the first line outside fenced and indented code that starts
  with the bot's name. The other lines, code blocks included, do not change the command, its flags or its target.
\<close>

theorem directive_line_decides:
  "ParseCommand body =
     (case find mentionRegex (map trim_line_end (directive_lines False (text_lines body))) of None \<Rightarrow> no_command | Some line \<Rightarrow> ParseCommand line)"
proof (cases "find mentionRegex (map trim_line_end (directive_lines False (text_lines body)))")
  case None
  then show ?thesis by (simp add: ParseCommand_def first_directive)
next
  case (Some line)
  then have "mentionRegex line" "line \<in> set (map trim_line_end (directive_lines False (text_lines body)))"
    by (metis find_Some_iff, metis find_Some_iff nth_mem)
  then obtain raw where raw: "raw \<in> set (directive_lines False (text_lines body))" "line = trim_line_end raw" by auto
  have "firstDirectiveLine (markdownDirectiveText line) = Some line"
    using \<open>mentionRegex line\<close> raw proper_lines_each [OF directive_lines_proper [OF text_lines_proper] raw(1)]
    by (intro first_directive_of_mention) (simp_all add: trim_line_end_idem trim_no_newline)
  with Some show ?thesis by (simp add: ParseCommand_def first_directive [of body])
qed

subsection \<open>Flags inside other words\<close>

text \<open>
  The flag expressions are not anchored at the start of a word. A database name that ends in \<^verbatim>\<open>-y\<close> counts as the confirmation flag, a name that
  ends in \<^verbatim>\<open>-e\<close> as the environment flag, and an environment is recognised as the prefix of a longer word.
\<close>

lemma database_suffix_confirms:
  "cmd_Database (ParseCommand ''schemabot apply -e staging -d orders-y'') = ''orders-y''
   \<and> cmd_AutoConfirm (ParseCommand ''schemabot apply -e staging -d orders-y'')"
  by code_simp

lemma environment_prefix_accepted:
  "cmd_Environment (ParseCommand ''schemabot apply -e production-eu'') = ''production''
   \<and> cmd_Found (ParseCommand ''schemabot apply -e production-eu'')"
  by code_simp

lemma longer_word_is_a_command:
  "cmd_Action (ParseCommand ''schemabot apply-later -e staging'') = action_Apply \<and> cmd_Found (ParseCommand ''schemabot apply-later -e staging'')"
  by code_simp

end
