(* ===== verification/SB_Check_Store.thy ===== *)
theory SB_Check_Store
  imports SB_Retry SB_Op_Store
begin

section \<open>Stored check state (checks.go)\<close>

text \<open>
  The rows behind the merge gate of a pull request: one per repository, pull request, environment and database. A row with status in\_progress and an apply
  id belongs to an apply that has started; plan results, stale cleanup and the clean-up of closed pull requests have to leave it alone, and only its
  own apply completes it. In the columns check\_run\_id and apply\_id, \<open>None\<close> is NULL, which the Go struct has as 0; the text columns
  that may be NULL are written with a value always. Upsert and UpsertPlanResult run under the bounded retry.
\<close>

record Check =
  chk_ID :: int
  chk_Repository :: string
  chk_PullRequest :: int
  chk_HeadSHA :: string
  chk_Environment :: string
  chk_DatabaseType :: string
  chk_DatabaseName :: string
  chk_CheckRunID :: "int option"
  chk_ApplyID :: "int option"
  chk_HasChanges :: bool
  chk_Status :: string
  chk_Conclusion :: string
  chk_BlockingReason :: string
  chk_ErrorMessage :: string
  chk_CreatedAt :: int
  chk_UpdatedAt :: int

record check_db =
  ck_db :: db
  db_checks :: "Check list"
  next_check_id :: int

definition checkStatusInProgress :: string where "checkStatusInProgress = ''in_progress''"

definition same_check_key :: "Check \<Rightarrow> Check \<Rightarrow> bool" where
  "same_check_key check r \<longleftrightarrow> sql_eq (chk_Repository r) (chk_Repository check) \<and> chk_PullRequest r = chk_PullRequest check
     \<and> sql_eq (chk_Environment r) (chk_Environment check) \<and> sql_eq (chk_DatabaseType r) (chk_DatabaseType check)
     \<and> sql_eq (chk_DatabaseName r) (chk_DatabaseName check)"

text \<open>The SET list the statements share, with the apply id each of them writes; updated\_at changes when another column does.\<close>

definition check_values :: "int \<Rightarrow> Check \<Rightarrow> int option \<Rightarrow> Check \<Rightarrow> Check" where
  "check_values now check applyID r =
     (let r' = r\<lparr>chk_HeadSHA := chk_HeadSHA check, chk_CheckRunID := chk_CheckRunID check, chk_ApplyID := applyID,
        chk_HasChanges := chk_HasChanges check, chk_Status := chk_Status check, chk_Conclusion := chk_Conclusion check,
        chk_BlockingReason := chk_BlockingReason check, chk_ErrorMessage := chk_ErrorMessage check\<rparr> in
      if r' = r then r else r'\<lparr>chk_UpdatedAt := now\<rparr>)"

definition insert_check :: "int \<Rightarrow> Check \<Rightarrow> check_db \<Rightarrow> check_db" where
  "insert_check now check d = d\<lparr>db_checks := db_checks d @ [check\<lparr>chk_ID := next_check_id d, chk_CreatedAt := now, chk_UpdatedAt := now\<rparr>],
     next_check_id := next_check_id d + 1\<rparr>"

definition update_checks :: "(Check \<Rightarrow> bool) \<Rightarrow> (Check \<Rightarrow> Check) \<Rightarrow> check_db \<Rightarrow> (mysql_error + nat) \<times> check_db" where
  "update_checks sel f d = (Inr (rows_changed sel f (db_checks d)), d\<lparr>db_checks := update_where sel f (db_checks d)\<rparr>)"

subsection \<open>Writes\<close>

definition upsert_once :: "check_db stmt_env \<Rightarrow> int \<Rightarrow> Check \<Rightarrow> check_db \<Rightarrow> lock_error option \<times> check_db" where
  "upsert_once env now check d =
     (case exec_stmt env 0 (\<lambda>d. if list_ex (same_check_key check) (db_checks d)
          then update_checks (same_check_key check) (check_values now check (chk_ApplyID check)) d
          else (Inr 1, insert_check now check d)) d of
        (Inl e, d1) \<Rightarrow> (Some (MySQLError e), d1)
      | (Inr _, d1) \<Rightarrow> (None, d1))"

definition ck_Upsert :: "(nat \<Rightarrow> bool) \<Rightarrow> (nat \<Rightarrow> check_db stmt_env) \<Rightarrow> int \<Rightarrow> Check \<Rightarrow> check_db \<Rightarrow> lock_error option \<times> check_db" where
  "ck_Upsert cancelled env now check d = withLockRetry cancelled (\<lambda>attempt. upsert_once (env attempt) now check) d"

text \<open>A row that an apply in progress owns: \<open>NOT (status = 'in_progress' AND apply_id IS NOT NULL)\<close> is the guard of the plan path.\<close>

definition apply_owned :: "Check \<Rightarrow> bool" where
  "apply_owned r \<longleftrightarrow> sql_eq (chk_Status r) checkStatusInProgress \<and> chk_ApplyID r \<noteq> None"

definition upsert_plan_once :: "check_db stmt_env \<Rightarrow> int \<Rightarrow> Check \<Rightarrow> check_db \<Rightarrow> lock_error option \<times> check_db" where
  "upsert_plan_once env now check d =
     (case exec_stmt env 0 (\<lambda>d. if list_ex (same_check_key check) (db_checks d) then (Inl (1062, ''Duplicate entry''), d)
          else (Inr (), insert_check now (check\<lparr>chk_ApplyID := None\<rparr>) d)) d of
        (Inr _, d1) \<Rightarrow> (None, d1)
      | (Inl e, d1) \<Rightarrow>
          if \<not> isDuplicateKeyError e then (Some (MySQLError e), d1)
          else (case exec_stmt env 1 (update_checks (\<lambda>r. same_check_key check r \<and> \<not> apply_owned r) (check_values now check None)) d1 of
              (Inl e, d2) \<Rightarrow> (Some (MySQLError e), d2)
            | (Inr _, d2) \<Rightarrow> (None, d2)))"

definition UpsertPlanResult :: "(nat \<Rightarrow> bool) \<Rightarrow> (nat \<Rightarrow> check_db stmt_env) \<Rightarrow> int \<Rightarrow> Check \<Rightarrow> check_db \<Rightarrow> lock_error option \<times> check_db" where
  "UpsertPlanResult cancelled env now check d = withLockRetry cancelled (\<lambda>attempt. upsert_plan_once (env attempt) now check) d"

definition successfulNoOpPlanResult :: "Check \<Rightarrow> bool" where
  "successfulNoOpPlanResult check \<longleftrightarrow> chk_Status check = ''completed'' \<and> chk_Conclusion check = ''success'' \<and> \<not> chk_HasChanges check"

definition RecoverApplyOwnedCheckWithNoOpPlan :: "check_db stmt_env \<Rightarrow> int \<Rightarrow> Check \<Rightarrow> check_db \<Rightarrow> (lock_error + bool) \<times> check_db" where
  "RecoverApplyOwnedCheckWithNoOpPlan env now check d =
     (if \<not> successfulNoOpPlanResult check then (Inr False, d)
      else case exec_stmt env 0 (update_checks (\<lambda>r. same_check_key check r \<and> apply_owned r \<and> sql_eq (chk_HeadSHA r) (chk_HeadSHA check))
               (check_values now check None)) d of
          (Inl e, d1) \<Rightarrow> (Inl (MySQLError e), d1)
        | (Inr rows, d1) \<Rightarrow> (Inr (rows > 0), d1))"

definition isPlanOnlySuccessful :: "Check \<Rightarrow> bool" where
  "isPlanOnlySuccessful check \<longleftrightarrow> chk_Status check = ''completed'' \<and> chk_Conclusion check = ''success''
     \<and> chk_ApplyID check = None \<and> \<not> chk_HasChanges check"

definition MarkStalePlanSuccessful :: "check_db stmt_env \<Rightarrow> int \<Rightarrow> Check \<Rightarrow> check_db \<Rightarrow> (lock_error + bool) \<times> check_db" where
  "MarkStalePlanSuccessful env now check d =
     (case exec_stmt env 0 (update_checks (\<lambda>r. same_check_key check r \<and> \<not> sql_eq (chk_Status r) checkStatusInProgress \<and> chk_ApplyID r = None)
             (check_values now check None)) d of
        (Inl e, d1) \<Rightarrow> (Inl (MySQLError e), d1)
      | (Inr rows, d1) \<Rightarrow>
          if rows > 0 then (Inr True, d1)
          else (case exec_stmt env 1 (\<lambda>d. (Inr (find (same_check_key check) (db_checks d)), d)) d1 of
              (Inl e, d2) \<Rightarrow> (Inl (MySQLError e), d2)
            | (Inr None, d2) \<Rightarrow> (Inl (Store_Error (ErrOther ''stale plan check vanished after no-op update'')), d2)
            | (Inr (Some current), d2) \<Rightarrow> (Inr (isPlanOnlySuccessful current), d2)))"

text \<open>The correlated NOT EXISTS and the lease EXISTS of the completion statements, read in the same statement.\<close>

definition newer_apply_exists :: "Apply \<Rightarrow> check_db \<Rightarrow> Check \<Rightarrow> bool" where
  "newer_apply_exists apply d r \<longleftrightarrow> list_ex (\<lambda>newer. sql_eq (ap_Repository newer) (chk_Repository r) \<and> ap_PullRequest newer = chk_PullRequest r
     \<and> sql_eq (ap_Environment newer) (chk_Environment r) \<and> sql_eq (ap_DatabaseType newer) (chk_DatabaseType r)
     \<and> sql_eq (ap_Database newer) (chk_DatabaseName r) \<and> ap_ID newer > ap_ID apply) (db_applies (ck_db d))"

definition lease_admits :: "Apply \<Rightarrow> check_db \<Rightarrow> bool" where
  "lease_admits apply d \<longleftrightarrow> \<not> ApplyLease_Valid (Apply_Lease (Some apply)) \<or> applyLeaseMatches (Apply_Lease (Some apply)) (ck_db d)"

definition complete_stmt :: "(Check \<Rightarrow> bool) \<Rightarrow> (Check \<Rightarrow> Check) \<Rightarrow> Apply \<Rightarrow> check_db \<Rightarrow> (mysql_error + nat) \<times> check_db" where
  "complete_stmt sel f apply d = update_checks (\<lambda>r. sel r \<and> \<not> newer_apply_exists apply d r \<and> lease_admits apply d) f d"

definition confirm_completion :: "check_db stmt_env \<Rightarrow> Apply \<Rightarrow> (mysql_error + nat) \<times> check_db \<Rightarrow> (lock_error + bool) \<times> check_db" where
  "confirm_completion env apply res = (case res of
       (Inl e, d1) \<Rightarrow> (Inl (MySQLError e), d1)
     | (Inr rows, d1) \<Rightarrow>
         if rows = 0 \<and> ApplyLease_Valid (Apply_Lease (Some apply)) then
           (case exec_stmt env 1 (\<lambda>d. (Inr (ensureApplyLeaseStillOwned (Apply_Lease (Some apply)) (ck_db d)), d)) d1 of
              (Inl e, d2) \<Rightarrow> (Inl (MySQLError e), d2)
            | (Inr (Inl err), d2) \<Rightarrow> (Inl (Store_Error err), d2)
            | (Inr (Inr _), d2) \<Rightarrow> (Inr False, d2))
         else (Inr (rows > 0), d1))"

definition CompleteForApply :: "check_db stmt_env \<Rightarrow> int \<Rightarrow> Check \<Rightarrow> Apply \<Rightarrow> check_db \<Rightarrow> (lock_error + bool) \<times> check_db" where
  "CompleteForApply env now check apply d = confirm_completion env apply
     (exec_stmt env 0 (complete_stmt (\<lambda>r. same_check_key check r \<and> sql_eq (chk_Status r) checkStatusInProgress \<and> chk_ApplyID r = Some (ap_ID apply))
        (check_values now check (Some (ap_ID apply))) apply) d)"

definition MarkActionRequiredForApply :: "check_db stmt_env \<Rightarrow> int \<Rightarrow> Check \<Rightarrow> Apply \<Rightarrow> check_db \<Rightarrow> (lock_error + bool) \<times> check_db" where
  "MarkActionRequiredForApply env now check apply d = confirm_completion env apply
     (exec_stmt env 0 (complete_stmt (\<lambda>r. same_check_key check r \<and> chk_ApplyID r = Some (ap_ID apply)) (check_values now check None) apply) d)"

definition ck_Delete :: "check_db stmt_env \<Rightarrow> int \<Rightarrow> check_db \<Rightarrow> lock_error option \<times> check_db" where
  "ck_Delete env i d = (case exec_stmt env 0 (\<lambda>d. (Inr (length (filter (\<lambda>r. chk_ID r = i) (db_checks d))),
         d\<lparr>db_checks := filter (\<lambda>r. chk_ID r \<noteq> i) (db_checks d)\<rparr>)) d of
       (Inl e, d1) \<Rightarrow> (Some (MySQLError e), d1)
     | (Inr rows, d1) \<Rightarrow> (if rows = 0 then Some (Store_Error ErrCheckNotFound) else None, d1))"

definition DeleteByPRExcludingApplyOwned :: "check_db stmt_env \<Rightarrow> string \<Rightarrow> int \<Rightarrow> check_db \<Rightarrow> lock_error option \<times> check_db" where
  "DeleteByPRExcludingApplyOwned env repo pr d = (case exec_stmt env 0 (\<lambda>d. (Inr (),
         d\<lparr>db_checks := filter (\<lambda>r. \<not> (sql_eq (chk_Repository r) repo \<and> chk_PullRequest r = pr \<and> \<not> apply_owned r)) (db_checks d)\<rparr>)) d of
       (Inl e, d1) \<Rightarrow> (Some (MySQLError e), d1)
     | (Inr _, d1) \<Rightarrow> (None, d1))"

subsection \<open>Reads\<close>

definition ck_Get :: "string \<Rightarrow> int \<Rightarrow> string \<Rightarrow> string \<Rightarrow> string \<Rightarrow> check_db \<Rightarrow> Check option" where
  "ck_Get repo pr environment dbType database d = find (\<lambda>r. sql_eq (chk_Repository r) repo \<and> chk_PullRequest r = pr
     \<and> sql_eq (chk_Environment r) environment \<and> sql_eq (chk_DatabaseType r) dbType \<and> sql_eq (chk_DatabaseName r) database) (db_checks d)"

definition GetByCheckRunID :: "int \<Rightarrow> check_db \<Rightarrow> Check option" where
  "GetByCheckRunID checkRunID d = find (\<lambda>r. chk_CheckRunID r = Some checkRunID) (db_checks d)"

text \<open>The order of the listings is by the key columns, which no reader depends on here: the rows are listed in table order.\<close>

definition ck_GetByPR :: "string \<Rightarrow> int \<Rightarrow> check_db \<Rightarrow> Check list" where
  "ck_GetByPR repo pr d = filter (\<lambda>r. sql_eq (chk_Repository r) repo \<and> chk_PullRequest r = pr) (db_checks d)"

definition ck_GetByDatabase :: "string \<Rightarrow> string \<Rightarrow> string \<Rightarrow> string \<Rightarrow> check_db \<Rightarrow> Check list" where
  "ck_GetByDatabase repo environment dbType database d = sort_key chk_PullRequest (filter (\<lambda>r. sql_eq (chk_Repository r) repo
     \<and> sql_eq (chk_Environment r) environment \<and> sql_eq (chk_DatabaseType r) dbType \<and> sql_eq (chk_DatabaseName r) database) (db_checks d))"

subsection \<open>What the plan path keeps\<close>

text \<open>
  \<open>keeps_rows P d d'\<close>: the rows with \<open>P\<close> are the same rows after. It is used for the rows that applies in progress own, and for one of them.
\<close>

definition keeps_rows :: "(Check \<Rightarrow> bool) \<Rightarrow> check_db \<Rightarrow> check_db \<Rightarrow> bool" where
  "keeps_rows P d d' \<longleftrightarrow> (\<forall>r \<in> set (db_checks d). P r \<longrightarrow> r \<in> set (db_checks d'))"

definition env_keeps_rows :: "(Check \<Rightarrow> bool) \<Rightarrow> check_db stmt_env \<Rightarrow> bool" where
  "env_keeps_rows P env \<longleftrightarrow> (\<forall>i d. keeps_rows P d (se_between env i d))"

abbreviation keeps_owned :: "check_db \<Rightarrow> check_db \<Rightarrow> bool" where
  "keeps_owned \<equiv> keeps_rows apply_owned"

abbreviation env_keeps_owned :: "check_db stmt_env \<Rightarrow> bool" where
  "env_keeps_owned \<equiv> env_keeps_rows apply_owned"

lemma keeps_rows_refl [simp]: "keeps_rows P d d"
  by (simp add: keeps_rows_def)

lemma keeps_rows_trans [trans]: "keeps_rows P d d' \<Longrightarrow> keeps_rows P d' d'' \<Longrightarrow> keeps_rows P d d''"
  by (auto simp: keeps_rows_def)

lemma exec_keeps_rows:
  assumes "env_keeps_rows P env" "\<And>d. keeps_rows P d (snd (f d))" "exec_stmt env i f d = (r, d')"
  shows "keeps_rows P d d'"
proof -
  have "keeps_rows P d (se_between env i d)" using assms(1) by (simp add: env_keeps_rows_def)
  moreover have "keeps_rows P (se_between env i d) (snd (f (se_between env i d)))" by (rule assms(2))
  ultimately show ?thesis using assms(3) keeps_rows_trans by (fastforce simp: exec_stmt_def Let_def split: option.splits)
qed

lemma insert_check_keeps: "keeps_rows P d (insert_check now check d)"
  by (simp add: keeps_rows_def insert_check_def)

lemma update_checks_keeps: "(\<And>r. sel r \<Longrightarrow> \<not> P r) \<Longrightarrow> keeps_rows P d (snd (update_checks sel f d))"
  by (fastforce simp: keeps_rows_def update_checks_def update_where_def image_iff)

lemma upsert_plan_once_keeps:
  assumes env: "env_keeps_rows P env" and P: "\<And>r. P r \<Longrightarrow> apply_owned r" and run: "upsert_plan_once env now check d = (e, d')"
  shows "keeps_rows P d d'"
proof -
  let ?ins = "\<lambda>d. if list_ex (same_check_key check) (db_checks d) then (Inl (1062, ''Duplicate entry''), d)
          else (Inr (), insert_check now (check\<lparr>chk_ApplyID := None\<rparr>) d)"
  let ?upd = "update_checks (\<lambda>r. same_check_key check r \<and> \<not> apply_owned r) (check_values now check None)"
  obtain r1 d1 where 1: "exec_stmt env 0 ?ins d = (r1, d1)" by (cases "exec_stmt env 0 ?ins d") auto
  obtain r2 d2 where 2: "exec_stmt env 1 ?upd d1 = (r2, d2)" by (cases "exec_stmt env 1 ?upd d1") auto
  have "keeps_rows P d d1" by (rule exec_keeps_rows [OF env _ 1]) (simp add: insert_check_keeps)
  moreover have "keeps_rows P d1 d2" by (rule exec_keeps_rows [OF env _ 2]) (rule update_checks_keeps, use P in blast)
  ultimately show ?thesis using run 1 2 by (auto simp: upsert_plan_once_def split: sum.splits if_splits intro: keeps_rows_trans)
qed

interpretation plan: retried_attempt "\<lambda>attempt. upsert_plan_once (env attempt) now check"
  "\<lambda>_. (\<forall>i. env_keeps_rows P (env i)) \<and> (\<forall>r. P r \<longrightarrow> apply_owned r)" "keeps_rows P" "\<lambda>_. True"
  by unfold_locales (auto intro: keeps_rows_trans upsert_plan_once_keeps)

lemma UpsertPlanResult_keeps:
  "\<forall>i. env_keeps_rows P (env i) \<Longrightarrow> (\<And>r. P r \<Longrightarrow> apply_owned r) \<Longrightarrow> keeps_rows P d (snd (UpsertPlanResult cancelled env now check d))"
  unfolding UpsertPlanResult_def by (rule plan.withLockRetry_spec(1) [OF _ prod.collapse [symmetric]]) blast

lemma MarkStalePlanSuccessful_keeps:
  assumes env: "env_keeps_rows P env" and P: "\<And>r. P r \<Longrightarrow> apply_owned r"
  shows "keeps_rows P d (snd (MarkStalePlanSuccessful env now check d))"
proof -
  let ?upd = "update_checks (\<lambda>r. same_check_key check r \<and> \<not> sql_eq (chk_Status r) checkStatusInProgress \<and> chk_ApplyID r = None)
    (check_values now check None)"
  let ?get = "\<lambda>d. (Inr (find (same_check_key check) (db_checks d)) :: mysql_error + Check option, d)"
  obtain r1 d1 where 1: "exec_stmt env 0 ?upd d = (r1, d1)" by (cases "exec_stmt env 0 ?upd d") auto
  obtain r2 d2 where 2: "exec_stmt env 1 ?get d1 = (r2, d2)" by (cases "exec_stmt env 1 ?get d1") auto
  have "keeps_rows P d d1" by (rule exec_keeps_rows [OF env _ 1]) (rule update_checks_keeps, use P in \<open>auto simp: apply_owned_def\<close>)
  moreover have "keeps_rows P d1 d2" by (rule exec_keeps_rows [OF env _ 2]) simp
  ultimately show ?thesis using 1 2 by (auto simp: MarkStalePlanSuccessful_def split: sum.splits option.splits intro: keeps_rows_trans)
qed

lemma DeleteByPR_keeps:
  assumes env: "env_keeps_rows P env" and P: "\<And>r. P r \<Longrightarrow> apply_owned r"
  shows "keeps_rows P d (snd (DeleteByPRExcludingApplyOwned env repo pr d))"
proof -
  let ?del = "\<lambda>d. (Inr () :: mysql_error + unit,
    d\<lparr>db_checks := filter (\<lambda>r. \<not> (sql_eq (chk_Repository r) repo \<and> chk_PullRequest r = pr \<and> \<not> apply_owned r)) (db_checks d)\<rparr>)"
  obtain r1 d1 where 1: "exec_stmt env 0 ?del d = (r1, d1)" by (cases "exec_stmt env 0 ?del d") auto
  have "keeps_rows P d d1" by (rule exec_keeps_rows [OF env _ 1]) (use P in \<open>auto simp: keeps_rows_def\<close>)
  then show ?thesis using 1 by (auto simp: DeleteByPRExcludingApplyOwned_def split: sum.splits)
qed

lemma Recover_keeps:
  assumes env: "env_keeps_rows P env"
    and P: "\<And>r. P r \<Longrightarrow> \<not> (successfulNoOpPlanResult check \<and> same_check_key check r \<and> sql_eq (chk_HeadSHA r) (chk_HeadSHA check))"
  shows "keeps_rows P d (snd (RecoverApplyOwnedCheckWithNoOpPlan env now check d))"
proof (cases "successfulNoOpPlanResult check")
  case True
  let ?upd = "update_checks (\<lambda>r. same_check_key check r \<and> apply_owned r \<and> sql_eq (chk_HeadSHA r) (chk_HeadSHA check)) (check_values now check None)"
  obtain r1 d1 where 1: "exec_stmt env 0 ?upd d = (r1, d1)" by fastforce
  have "keeps_rows P d d1" by (rule exec_keeps_rows [OF env _ 1]) (rule update_checks_keeps, use P True in blast)
  then show ?thesis using True 1 by (auto simp: RecoverApplyOwnedCheckWithNoOpPlan_def split: sum.splits)
qed (simp add: RecoverApplyOwnedCheckWithNoOpPlan_def)

subsection \<open>Properties\<close>

definition sample_check :: "string \<Rightarrow> int option \<Rightarrow> string \<Rightarrow> Check" where
  "sample_check status owner conclusion = \<lparr>chk_ID = 1, chk_Repository = ''o/r'', chk_PullRequest = 7, chk_HeadSHA = ''abc'',
     chk_Environment = ''prod'', chk_DatabaseType = ''mysql'', chk_DatabaseName = ''shop'', chk_CheckRunID = None, chk_ApplyID = owner,
     chk_HasChanges = False, chk_Status = status, chk_Conclusion = conclusion, chk_BlockingReason = [], chk_ErrorMessage = [],
     chk_CreatedAt = 100, chk_UpdatedAt = 100\<rparr>"

definition sample_check_db :: "db \<Rightarrow> check_db" where
  "sample_check_db d = \<lparr>ck_db = d, db_checks = [sample_check ''in_progress'' (Some 1) []], next_check_id = 2\<rparr>"

text \<open>
  Plans do not take a check from a running apply (C21). Let an apply in progress own a check row that no other caller changes during the call. Storing a plan
  result, with its retries and races, marking a stale plan check successful and cleaning up after a closed pull request leave the row exactly as it is; and
  the recovery after a manual plan takes it only for a successful plan without changes, of the same pull request, environment and database, at the very head
  that the row records.
\<close>

theorem plan_path_keeps_apply_owned_checks:
  assumes "\<forall>attempt i d. r \<in> set (db_checks d) \<longrightarrow> r \<in> set (db_checks (se_between (env attempt) i d))" "r \<in> set (db_checks d)" "apply_owned r"
  shows "r \<in> set (db_checks (snd (UpsertPlanResult cancelled env now check d)))
    \<and> r \<in> set (db_checks (snd (MarkStalePlanSuccessful (env 0) now check d)))
    \<and> r \<in> set (db_checks (snd (DeleteByPRExcludingApplyOwned (env 0) repo pr d)))
    \<and> (r \<notin> set (db_checks (snd (RecoverApplyOwnedCheckWithNoOpPlan (env 0) now check d))) \<longrightarrow>
         chk_Status check = ''completed'' \<and> chk_Conclusion check = ''success'' \<and> \<not> chk_HasChanges check
         \<and> same_check_key check r \<and> sql_eq (chk_HeadSHA r) (chk_HeadSHA check))"
proof -
  let ?P = "\<lambda>x. x = r"
  have env: "env_keeps_rows ?P (env attempt)" for attempt using assms(1) by (simp add: env_keeps_rows_def keeps_rows_def)
  have P: "?P x \<Longrightarrow> apply_owned x" for x using assms(3) by simp
  have "r \<in> set (db_checks (snd (UpsertPlanResult cancelled env now check d)))"
    using UpsertPlanResult_keeps [of ?P env d cancelled now check] env P assms(2) by (simp add: keeps_rows_def)
  moreover have "r \<in> set (db_checks (snd (MarkStalePlanSuccessful (env 0) now check d)))"
    using MarkStalePlanSuccessful_keeps [of ?P "env 0" d now check] env P assms(2) by (simp add: keeps_rows_def)
  moreover have "r \<in> set (db_checks (snd (DeleteByPRExcludingApplyOwned (env 0) repo pr d)))"
    using DeleteByPR_keeps [of ?P "env 0" d repo pr] env P assms(2) by (simp add: keeps_rows_def)
  moreover have "chk_Status check = ''completed'' \<and> chk_Conclusion check = ''success'' \<and> \<not> chk_HasChanges check
      \<and> same_check_key check r \<and> sql_eq (chk_HeadSHA r) (chk_HeadSHA check)"
    if "r \<notin> set (db_checks (snd (RecoverApplyOwnedCheckWithNoOpPlan (env 0) now check d)))"
    using Recover_keeps [of ?P "env 0" check d now] env assms(2) that unfolding successfulNoOpPlanResult_def keeps_rows_def by blast
  ultimately show ?thesis by blast
qed

text \<open>A plan without changes at another head keeps the row; at the same head the recovery after a manual plan takes it.\<close>

theorem plan_path_keeps_apply_owned_checks_witness:
  "sample_check ''in_progress'' (Some 1) [] \<in> set (db_checks (snd (UpsertPlanResult (\<lambda>_. False) (\<lambda>_. quiet) 200
     (sample_check ''completed'' None ''success'') (sample_check_db empty_db))))
   \<and> sample_check ''in_progress'' (Some 1) [] \<in> set (db_checks (snd (RecoverApplyOwnedCheckWithNoOpPlan quiet 200
     ((sample_check ''completed'' None ''success'')\<lparr>chk_HeadSHA := ''def''\<rparr>) (sample_check_db empty_db))))
   \<and> sample_check ''in_progress'' (Some 1) [] \<notin> set (db_checks (snd (RecoverApplyOwnedCheckWithNoOpPlan quiet 200
     (sample_check ''completed'' None ''success'') (sample_check_db empty_db))))"
proof (intro conjI)
  let ?r = "sample_check ''in_progress'' (Some 1) []" and ?d = "sample_check_db empty_db" and ?c = "sample_check ''completed'' None ''success''"
  have env: "\<forall>(attempt :: nat) i d. ?r \<in> set (db_checks d) \<longrightarrow> ?r \<in> set (db_checks (se_between quiet i d))" by (simp add: quiet_def)
  have r: "?r \<in> set (db_checks ?d)" "apply_owned ?r" by code_simp+
  note plan = plan_path_keeps_apply_owned_checks [where env = "\<lambda>_. quiet", OF env r]
  show "?r \<in> set (db_checks (snd (UpsertPlanResult (\<lambda>_. False) (\<lambda>_. quiet) 200 ?c ?d)))" using plan by blast
  have "\<not> sql_eq (chk_HeadSHA ?r) (chk_HeadSHA (?c\<lparr>chk_HeadSHA := ''def''\<rparr>))" by code_simp
  then show "?r \<in> set (db_checks (snd (RecoverApplyOwnedCheckWithNoOpPlan quiet 200 (?c\<lparr>chk_HeadSHA := ''def''\<rparr>) ?d)))" using plan by blast
qed code_simp

text \<open>A driver whose lease was taken over is told so and changes nothing.\<close>

lemma complete_with_lost_lease:
  assumes "ApplyLease_Valid (Apply_Lease (Some a))" "\<not> applyLeaseMatches (Apply_Lease (Some a)) (ck_db d)"
  shows "CompleteForApply quiet now check a d = (Inl (Store_Error ErrApplyLeaseLost), d)"
    and "MarkActionRequiredForApply quiet now check a d = (Inl (Store_Error ErrApplyLeaseLost), d)"
proof -
  have "complete_stmt sel f a d = (Inr 0, d)" for sel f
    using assms by (simp add: complete_stmt_def update_checks_def lease_admits_def update_where_def rows_changed_def)
  then show "CompleteForApply quiet now check a d = (Inl (Store_Error ErrApplyLeaseLost), d)"
    "MarkActionRequiredForApply quiet now check a d = (Inl (Store_Error ErrApplyLeaseLost), d)"
    using assms by (simp_all add: CompleteForApply_def MarkActionRequiredForApply_def confirm_completion_def exec_stmt_def quiet_def
        ensureApplyLeaseStillOwned_def)
qed

lemma CompleteForApply_alone:
  assumes "CompleteForApply env now check a d = (res, d')" "\<forall>i. se_between env i = (\<lambda>d. d)"
  shows "d' = d \<or> db_checks d' = update_where (\<lambda>r. (same_check_key check r \<and> sql_eq (chk_Status r) checkStatusInProgress
      \<and> chk_ApplyID r = Some (ap_ID a)) \<and> \<not> newer_apply_exists a d r \<and> lease_admits a d) (check_values now check (Some (ap_ID a))) (db_checks d)"
  using assms by (auto simp: CompleteForApply_def confirm_completion_def exec_stmt_def complete_stmt_def update_checks_def Let_def
      split: option.splits sum.splits if_splits)

text \<open>Only the current owner completes a check: a completion that reports an update found, when its statement ran, a row in progress that the
apply owns, no newer apply of that pull request and database, and - when the driver carries a lease - the lease still current;
every other row is unchanged.\<close>

theorem complete_only_for_current_owner:
  assumes run: "CompleteForApply env now check a d = (Inr True, d')"
  shows "(\<exists>r \<in> set (db_checks (se_between env 0 d)). same_check_key check r \<and> apply_owned r \<and> chk_ApplyID r = Some (ap_ID a)
        \<and> \<not> newer_apply_exists a (se_between env 0 d) r)
    \<and> (ApplyLease_Valid (Apply_Lease (Some a)) \<longrightarrow> applyLeaseMatches (Apply_Lease (Some a)) (ck_db (se_between env 0 d)))
    \<and> (\<forall>r \<in> set (db_checks (se_between env 0 d)). \<not> (same_check_key check r \<and> chk_ApplyID r = Some (ap_ID a)) \<longrightarrow> r \<in> set (db_checks d'))"
proof -
  let ?d = "se_between env 0 d" and ?f = "check_values now check (Some (ap_ID a))"
  let ?sel = "\<lambda>r. (same_check_key check r \<and> sql_eq (chk_Status r) checkStatusInProgress \<and> chk_ApplyID r = Some (ap_ID a))
    \<and> \<not> newer_apply_exists a ?d r \<and> lease_admits a ?d"
  have pos: "0 < rows_changed ?sel ?f (db_checks ?d)" and d': "d' = ?d\<lparr>db_checks := update_where ?sel ?f (db_checks ?d)\<rparr>"
    using run by (auto simp: CompleteForApply_def confirm_completion_def exec_stmt_def complete_stmt_def update_checks_def Let_def
        split: option.splits sum.splits if_splits prod.splits)
  then obtain r where r: "r \<in> set (db_checks ?d)" "?sel r" using rows_changed_pos_iff [of ?sel ?f "db_checks ?d"] by blast
  then have "same_check_key check r \<and> apply_owned r \<and> chk_ApplyID r = Some (ap_ID a) \<and> \<not> newer_apply_exists a ?d r"
    "ApplyLease_Valid (Apply_Lease (Some a)) \<Longrightarrow> applyLeaseMatches (Apply_Lease (Some a)) (ck_db ?d)"
    by (simp_all add: apply_owned_def lease_admits_def)
  moreover have "q \<in> set (db_checks d')" if "q \<in> set (db_checks ?d)" "\<not> (same_check_key check q \<and> chk_ApplyID q = Some (ap_ID a))" for q
    using that d' by (force simp: update_where_def image_iff)
  ultimately show ?thesis using r(1) by blast
qed

theorem complete_only_for_current_owner_witness:
  "applyLeaseMatches (Apply_Lease (Some (sample_apply Apply_Completed\<lparr>ap_LeaseOwner := ''w''\<rparr>))) (sample_db Apply_Completed Apply_Completed)"
proof -
  let ?a = "sample_apply Apply_Completed\<lparr>ap_LeaseOwner := ''w''\<rparr>" and ?d = "sample_check_db (sample_db Apply_Completed Apply_Completed)"
  let ?r = "CompleteForApply quiet 200 (sample_check ''completed'' None ''success'') ?a ?d"
  have "fst ?r = Inr True" by code_simp
  then have "?r = (Inr True, snd ?r)" by (cases ?r) simp
  moreover have "ApplyLease_Valid (Apply_Lease (Some ?a))" by code_simp
  ultimately show ?thesis using complete_only_for_current_owner [of quiet 200 "sample_check ''completed'' None ''success''" ?a ?d "snd ?r"]
    by (auto simp: quiet_def sample_check_db_def)
qed

end
