(* ===== verification/SB_Merge_Gate.thy ===== *)
theory SB_Merge_Gate
  imports SB_Check_Store SB_Apply_Store
begin

section \<open>The merge gate: check records and aggregates (pkg/webhook)\<close>

text \<open>
  check\_aggregate.go rolls the per-database rows of a pull request up into the conclusion GitHub shows; check\_publisher.go publishes it; check\_records.go
  writes the rows when a plan, an apply or a rollback finishes and repairs rows a dead driver left in progress. GitHub is a parameter: the
  head commit it reports, and whether a check run could be created or updated; the runs that were published are kept in the world's \<open>cw_published\<close>.
  Metrics and logging are left out. Every storage call has its own \<open>call_env\<close> entry: what other callers do before its statements,
  which of them fail, and when its context ends.
\<close>

subsection \<open>Constants (check\_runs.go)\<close>

definition maxCheckRunTextLength :: int where "maxCheckRunTextLength = 65530"
definition checkStatusCompleted :: string where "checkStatusCompleted = ''completed''"
definition checkConclusionSuccess :: string where "checkConclusionSuccess = ''success''"
definition checkConclusionFailure :: string where "checkConclusionFailure = ''failure''"
definition checkConclusionActionRequired :: string where "checkConclusionActionRequired = ''action_required''"
definition checkConclusionNeutral :: string where "checkConclusionNeutral = ''neutral''"
definition aggregateSentinel :: string where "aggregateSentinel = ''_aggregate''"

lemmas check_consts = checkStatusCompleted_def checkStatusInProgress_def checkConclusionSuccess_def checkConclusionFailure_def
  checkConclusionActionRequired_def checkConclusionNeutral_def

record checkBlockReason =
  blockingReason :: string
  block_message :: string

definition schemaRemovedAfterApplyBlock :: checkBlockReason where
  "schemaRemovedAfterApplyBlock = \<lparr>blockingReason = ''schema_removed_after_apply_started'',
     block_message = ''The current PR no longer contains a schema change whose apply has already started; reconciliation is required before this check can pass.''\<rparr>"

definition rollbackCompletedBlock :: checkBlockReason where
  "rollbackCompletedBlock = \<lparr>blockingReason = ''rollback_completed'',
     block_message = ''Schema changes were rolled back in this environment; apply the PR schema changes again, or reconcile the PR and live schema before this check can pass.''\<rparr>"

subsection \<open>Aggregation (check\_aggregate.go)\<close>

definition aggregateCheckNameForEnv :: "string \<Rightarrow> string \<Rightarrow> string" where
  "aggregateCheckNameForEnv baseName env = baseName @ '' ('' @ env @ '')''"

definition isAggregateCheck :: "Check \<Rightarrow> bool" where
  "isAggregateCheck c \<longleftrightarrow> chk_DatabaseType c = aggregateSentinel \<and> chk_DatabaseName c = aggregateSentinel"

definition filterChecksByEnvironment :: "Check list \<Rightarrow> string \<Rightarrow> Check list" where
  "filterChecksByEnvironment checks env = filter (\<lambda>c. \<not> isAggregateCheck c \<and> chk_Environment c = env) checks"

definition checkHasStartedApply :: "Check \<Rightarrow> bool" where
  "checkHasStartedApply c \<longleftrightarrow> chk_Status c = checkStatusInProgress \<or> chk_ApplyID c \<noteq> None"

definition checkBlockedByRemovedSchemaAfterApply :: "Check \<Rightarrow> bool" where
  "checkBlockedByRemovedSchemaAfterApply c \<longleftrightarrow> chk_BlockingReason c = blockingReason schemaRemovedAfterApplyBlock"

definition checkBlocksPassingAggregate :: "Check \<Rightarrow> bool" where
  "checkBlocksPassingAggregate c =
     (if isAggregateCheck c then False
      else if checkHasStartedApply c then True
      else chk_Conclusion c = checkConclusionFailure \<or> chk_Conclusion c = checkConclusionActionRequired)"

fun hasBlockingCheckForEnvironment :: "Check list \<Rightarrow> string \<Rightarrow> bool" where
  "hasBlockingCheckForEnvironment [] environment = False"
| "hasBlockingCheckForEnvironment (c # cs) environment =
     (if environment \<noteq> aggregateSentinel \<and> chk_Environment c \<noteq> environment then hasBlockingCheckForEnvironment cs environment
      else if checkBlocksPassingAggregate c then True else hasBlockingCheckForEnvironment cs environment)"

text \<open>The conclusion and the status.\<close>

definition computeAggregate :: "Check list \<Rightarrow> string \<times> string" where
  "computeAggregate checks =
     (if list_ex (\<lambda>c. chk_Status c = checkStatusInProgress) checks then ([], checkStatusInProgress)
      else if list_ex (\<lambda>c. chk_Conclusion c = checkConclusionFailure) checks then (checkConclusionFailure, checkStatusCompleted)
      else if list_ex (\<lambda>c. chk_Conclusion c = checkConclusionActionRequired) checks then (checkConclusionActionRequired, checkStatusCompleted)
      else (checkConclusionSuccess, checkStatusCompleted))"

definition allChecksAreUpToDate :: "Check list \<Rightarrow> bool" where
  "allChecksAreUpToDate checks \<longleftrightarrow> checks \<noteq> [] \<and> list_all (\<lambda>c. \<not> (chk_Status c \<noteq> checkStatusCompleted
     \<or> chk_Conclusion c \<noteq> checkConclusionSuccess \<or> chk_HasChanges c)) checks"

definition conclusionEmoji :: "string \<Rightarrow> string \<Rightarrow> string" where
  "conclusionEmoji status conclusion =
     (if status = checkStatusInProgress then ''In progress''
      else if conclusion = checkConclusionSuccess then ''Applied''
      else if conclusion = checkConclusionFailure then ''Failed''
      else if conclusion = checkConclusionActionRequired then ''Pending''
      else if conclusion = checkConclusionNeutral then ''Cancelled''
      else conclusion)"

definition checkStatusLabel :: "Check \<Rightarrow> string" where
  "checkStatusLabel c =
     (if chk_Status c = checkStatusCompleted \<and> chk_Conclusion c = checkConclusionSuccess \<and> \<not> chk_HasChanges c then ''Up to date''
      else conclusionEmoji (chk_Status c) (chk_Conclusion c))"

text \<open>\<open>%d\<close> of a count.\<close>

fun string_of_nat :: "nat \<Rightarrow> string" where
  "string_of_nat n = (if n < 10 then [char_of (48 + n)] else string_of_nat (n div 10) @ [char_of (48 + n mod 10)])"

declare string_of_nat.simps [simp del]

definition newline :: string where "newline = [char_of (10 :: nat)]"

definition table_row :: "Check \<Rightarrow> string" where
  "table_row c = ''| `'' @ chk_DatabaseName c @ ''` | '' @ chk_Environment c @ '' | '' @ checkStatusLabel c @ '' |'' @ newline"

fun table_rows :: "string \<Rightarrow> Check list \<Rightarrow> string" where
  "table_rows sb [] = sb"
| "table_rows sb (c # cs) =
     (if int (length sb) + int (length (table_row c)) > maxCheckRunTextLength - 1000
      then sb @ newline @ ''... and '' @ string_of_nat (length (c # cs)) @ '' more check(s)'' @ newline
      else table_rows (sb @ table_row c) cs)"

definition buildAggregateTable :: "Check list \<Rightarrow> string" where
  "buildAggregateTable checks = table_rows
     (''| Database | Environment | Status |'' @ newline @ ''|----------|-------------|--------|'' @ newline) checks"

definition aggregateSummary :: "Check list \<Rightarrow> string \<Rightarrow> string \<times> string" where
  "aggregateSummary checks conclusion =
     (if conclusion = checkConclusionSuccess then
        (if allChecksAreUpToDate checks then ''Schema up to date'' else ''All applies complete'', buildAggregateTable checks)
      else if conclusion = checkConclusionFailure then (''Apply failed'', buildAggregateTable checks)
      else if conclusion = checkConclusionActionRequired then
        (let pending = length (filter (\<lambda>c. chk_Conclusion c = checkConclusionActionRequired) checks) in
         (if pending = 1 then ''1 apply pending'' else string_of_nat pending @ '' applies pending'', buildAggregateTable checks))
      else (''Apply in progress'', buildAggregateTable checks))"

subsection \<open>Publishing (check\_publisher.go)\<close>

record CheckRunOptions =
  cro_Name :: string
  cro_Status :: string
  cro_Conclusion :: string
  cro_Title :: string
  cro_Summary :: string

text \<open>GitHub as the handler sees it: \<open>None\<close> and \<open>False\<close> are a failed call.\<close>

record gh_client =
  FetchPullRequest_HeadSHA :: "string option"
  UpdateCheckRun :: "int \<Rightarrow> CheckRunOptions \<Rightarrow> bool"
  CreateCheckRun :: "string \<Rightarrow> CheckRunOptions \<Rightarrow> int option"

text \<open>The server configuration for the repository: pkg/api's AreChecksEnabled, AllowedEnvironments and GitHubCheckNameBaseForRepo.\<close>

record check_config =
  checksEnabled :: bool
  AllowedEnvironments :: "string list"
  checkNameBase :: string

record check_world =
  cw_db :: check_db
  cw_published :: "(int \<times> string \<times> CheckRunOptions) list"

record call_env =
  ce_env :: "nat \<Rightarrow> nat \<Rightarrow> check_db stmt_env"
  ce_cancelled :: "nat \<Rightarrow> nat \<Rightarrow> bool"

definition next_calls :: "nat \<Rightarrow> call_env \<Rightarrow> call_env" where
  "next_calls k ce = \<lparr>ce_env = \<lambda>n. ce_env ce (n + k), ce_cancelled = \<lambda>n. ce_cancelled ce (n + k)\<rparr>"

definition read_world :: "call_env \<Rightarrow> nat \<Rightarrow> (check_db \<Rightarrow> 'a) \<Rightarrow> check_world \<Rightarrow> (mysql_error + 'a) \<times> check_world" where
  "read_world ce call f w = (case exec_stmt (ce_env ce call 0) 0 (\<lambda>d. (Inr (f d), d)) (cw_db w) of (r, d) \<Rightarrow> (r, w\<lparr>cw_db := d\<rparr>))"

definition upsert_world :: "call_env \<Rightarrow> nat \<Rightarrow> int \<Rightarrow> Check \<Rightarrow> check_world \<Rightarrow> lock_error option \<times> check_world" where
  "upsert_world ce call now check w = (case ck_Upsert (ce_cancelled ce call) (ce_env ce call) now check (cw_db w) of (e, d) \<Rightarrow> (e, w\<lparr>cw_db := d\<rparr>))"

definition verifyHeadSHAStillCurrentForPR :: "gh_client \<Rightarrow> string \<Rightarrow> bool" where
  "verifyHeadSHAStillCurrentForPR gh headSHA =
     (if headSHA = [] then False
      else case FetchPullRequest_HeadSHA gh of None \<Rightarrow> False | Some current \<Rightarrow> current = headSHA)"

text \<open>Update the check run of the same head, or create one.\<close>

definition publish_run :: "gh_client \<Rightarrow> string \<Rightarrow> CheckRunOptions \<Rightarrow> Check option \<Rightarrow> check_world \<Rightarrow> (int \<times> check_world) option" where
  "publish_run gh headSHA opts existing w =
     (let created = map_option (\<lambda>i. (i, w\<lparr>cw_published := cw_published w @ [(i, headSHA, opts)]\<rparr>)) (CreateCheckRun gh headSHA opts) in
      case existing of
        Some e \<Rightarrow> (case chk_CheckRunID e of
            Some i \<Rightarrow> if chk_HeadSHA e = headSHA
              then (if UpdateCheckRun gh i opts then Some (i, w\<lparr>cw_published := cw_published w @ [(i, headSHA, opts)]\<rparr>) else None)
              else created
          | None \<Rightarrow> created)
      | None \<Rightarrow> created)"

definition aggregate_row :: "string \<Rightarrow> int \<Rightarrow> string \<Rightarrow> string \<Rightarrow> int \<Rightarrow> bool \<Rightarrow> string \<Rightarrow> string \<Rightarrow> Check" where
  "aggregate_row repo pr headSHA environment checkRunID hasChanges status conclusion =
     \<lparr>chk_ID = 0, chk_Repository = repo, chk_PullRequest = pr, chk_HeadSHA = headSHA, chk_Environment = environment,
      chk_DatabaseType = aggregateSentinel, chk_DatabaseName = aggregateSentinel,
      chk_CheckRunID = (if checkRunID = 0 then None else Some checkRunID), chk_ApplyID = None, chk_HasChanges = hasChanges,
      chk_Status = status, chk_Conclusion = conclusion, chk_BlockingReason = [], chk_ErrorMessage = [], chk_CreatedAt = 0, chk_UpdatedAt = 0\<rparr>"

definition upsertAggregateCheckRun :: "gh_client \<Rightarrow> call_env \<Rightarrow> int \<Rightarrow> string \<Rightarrow> int \<Rightarrow> string \<Rightarrow> Check list \<Rightarrow> string \<Rightarrow> string
    \<Rightarrow> check_world \<Rightarrow> check_world" where
  "upsertAggregateCheckRun gh ce now repo pr headSHA dbChecks checkName environment w =
     (case computeAggregate dbChecks of (conclusion, status) \<Rightarrow>
      case aggregateSummary dbChecks conclusion of (title, summary) \<Rightarrow>
      let opts = \<lparr>cro_Name = checkName, cro_Status = status, cro_Conclusion = (if status = checkStatusCompleted then conclusion else []),
                  cro_Title = title, cro_Summary = summary\<rparr> in
      case read_world ce 0 (ck_Get repo pr environment aggregateSentinel aggregateSentinel) w of
        (Inl _, w1) \<Rightarrow> w1
      | (Inr existing, w1) \<Rightarrow> (case publish_run gh headSHA opts existing w1 of
            None \<Rightarrow> w1
          | Some (checkRunID, w2) \<Rightarrow> snd (upsert_world ce 1 now
              (aggregate_row repo pr headSHA environment checkRunID (conclusion \<noteq> checkConclusionSuccess) status conclusion) w2)))"

fun aggregate_environments :: "gh_client \<Rightarrow> call_env \<Rightarrow> int \<Rightarrow> string \<Rightarrow> int \<Rightarrow> string \<Rightarrow> Check list \<Rightarrow> string \<Rightarrow> string list
    \<Rightarrow> check_world \<Rightarrow> check_world" where
  "aggregate_environments gh ce now repo pr headSHA dbChecks base [] w = w"
| "aggregate_environments gh ce now repo pr headSHA dbChecks base (env # envs) w =
     (let envChecks = filterChecksByEnvironment dbChecks env;
          w' = (if envChecks = [] then w
                else upsertAggregateCheckRun gh ce now repo pr headSHA envChecks (aggregateCheckNameForEnv base env) env w) in
      aggregate_environments gh (next_calls 2 ce) now repo pr headSHA dbChecks base envs w')"

definition updateAggregateCheck :: "check_config \<Rightarrow> gh_client \<Rightarrow> call_env \<Rightarrow> int \<Rightarrow> string \<Rightarrow> int \<Rightarrow> string \<Rightarrow> check_world \<Rightarrow> check_world" where
  "updateAggregateCheck cfg gh ce now repo pr headSHA w =
     (if \<not> checksEnabled cfg then w
      else if \<not> verifyHeadSHAStillCurrentForPR gh headSHA then w
      else case read_world ce 0 (ck_GetByPR repo pr) w of
          (Inl _, w1) \<Rightarrow> w1
        | (Inr checks, w1) \<Rightarrow>
            (let dbChecks = filter (\<lambda>c. \<not> isAggregateCheck c) checks in
             if dbChecks = [] then w1
             else if AllowedEnvironments cfg \<noteq> []
             then aggregate_environments gh (next_calls 1 ce) now repo pr headSHA dbChecks (checkNameBase cfg) (AllowedEnvironments cfg) w1
             else upsertAggregateCheckRun gh (next_calls 1 ce) now repo pr headSHA dbChecks (checkNameBase cfg) aggregateSentinel w1))"

text \<open>The environments an aggregate is kept for, with their check names.\<close>

definition envChecks_of :: "check_config \<Rightarrow> (string \<times> string) list" where
  "envChecks_of cfg = (if AllowedEnvironments cfg \<noteq> [] then map (\<lambda>env. (aggregateCheckNameForEnv (checkNameBase cfg) env, env)) (AllowedEnvironments cfg)
     else [(checkNameBase cfg, aggregateSentinel)])"

definition post_passing :: "gh_client \<Rightarrow> call_env \<Rightarrow> int \<Rightarrow> string \<Rightarrow> int \<Rightarrow> string \<Rightarrow> Check list \<Rightarrow> string \<times> string \<Rightarrow> check_world \<Rightarrow> check_world" where
  "post_passing gh ce now repo pr headSHA storedChecks ec w =
     (case ec of (checkName, environment) \<Rightarrow>
      if hasBlockingCheckForEnvironment storedChecks environment then w
      else (let opts = \<lparr>cro_Name = checkName, cro_Status = checkStatusCompleted, cro_Conclusion = checkConclusionSuccess,
                  cro_Title = ''No managed schema changes'',
                  cro_Summary = ''This PR does not contain schema changes managed by SchemaBot.''\<rparr> in
       case read_world ce 0 (ck_Get repo pr environment aggregateSentinel aggregateSentinel) w of
         (Inl _, w1) \<Rightarrow> w1
       | (Inr existing, w1) \<Rightarrow>
           if (case existing of Some e \<Rightarrow> chk_HeadSHA e = headSHA \<and> chk_Conclusion e = checkConclusionSuccess | None \<Rightarrow> False) then w1
           else (case publish_run gh headSHA opts existing w1 of
               None \<Rightarrow> w1
             | Some (checkRunID, w2) \<Rightarrow> snd (upsert_world ce 1 now
                 (aggregate_row repo pr headSHA environment checkRunID False checkStatusCompleted checkConclusionSuccess) w2))))"

fun post_passing_all :: "gh_client \<Rightarrow> call_env \<Rightarrow> int \<Rightarrow> string \<Rightarrow> int \<Rightarrow> string \<Rightarrow> Check list \<Rightarrow> (string \<times> string) list \<Rightarrow> check_world \<Rightarrow> check_world" where
  "post_passing_all gh ce now repo pr headSHA storedChecks [] w = w"
| "post_passing_all gh ce now repo pr headSHA storedChecks (ec # ecs) w =
     post_passing_all gh (next_calls 2 ce) now repo pr headSHA storedChecks ecs (post_passing gh ce now repo pr headSHA storedChecks ec w)"

definition postPassingAggregates :: "check_config \<Rightarrow> gh_client \<Rightarrow> call_env \<Rightarrow> int \<Rightarrow> string \<Rightarrow> int \<Rightarrow> string \<Rightarrow> check_world \<Rightarrow> check_world" where
  "postPassingAggregates cfg gh ce now repo pr headSHA w =
     (if \<not> checksEnabled cfg then w
      else if \<not> verifyHeadSHAStillCurrentForPR gh headSHA then w
      else case read_world ce 0 (ck_GetByPR repo pr) w of
          (Inl _, w1) \<Rightarrow> w1
        | (Inr storedChecks, w1) \<Rightarrow> post_passing_all gh (next_calls 1 ce) now repo pr headSHA storedChecks (envChecks_of cfg) w1)"

text \<open>\<open>errors\<close> lists the entries of the map in the order a range over it happens to visit them.\<close>

definition post_failing :: "gh_client \<Rightarrow> call_env \<Rightarrow> int \<Rightarrow> string \<Rightarrow> int \<Rightarrow> string \<Rightarrow> (string \<times> string) list \<Rightarrow> checkBlockReason
    \<Rightarrow> string \<times> string \<Rightarrow> check_world \<Rightarrow> check_world" where
  "post_failing gh ce now repo pr headSHA errors block ec w =
     (case ec of (name, environment) \<Rightarrow>
      let summary = (case map_of errors environment of Some errMsg \<Rightarrow> errMsg
            | None \<Rightarrow> (case errors of (_, msg) # _ \<Rightarrow> msg | [] \<Rightarrow> ''Plan failed''));
          opts = \<lparr>cro_Name = name, cro_Status = checkStatusCompleted, cro_Conclusion = checkConclusionFailure,
            cro_Title = ''Plan failed'', cro_Summary = summary\<rparr> in
      case CreateCheckRun gh headSHA opts of
        None \<Rightarrow> w
      | Some i \<Rightarrow>
          (let w1 = w\<lparr>cw_published := cw_published w @ [(i, headSHA, opts)]\<rparr>;
               row = aggregate_row repo pr headSHA environment i False checkStatusCompleted checkConclusionFailure;
               row' = (if blockingReason block \<noteq> [] then row\<lparr>chk_BlockingReason := blockingReason block, chk_ErrorMessage := summary\<rparr> else row) in
           snd (upsert_world ce 0 now row' w1)))"

fun post_failing_all :: "gh_client \<Rightarrow> call_env \<Rightarrow> int \<Rightarrow> string \<Rightarrow> int \<Rightarrow> string \<Rightarrow> (string \<times> string) list \<Rightarrow> checkBlockReason
    \<Rightarrow> (string \<times> string) list \<Rightarrow> check_world \<Rightarrow> check_world" where
  "post_failing_all gh ce now repo pr headSHA errors block [] w = w"
| "post_failing_all gh ce now repo pr headSHA errors block (ec # ecs) w =
     post_failing_all gh (next_calls 1 ce) now repo pr headSHA errors block ecs (post_failing gh ce now repo pr headSHA errors block ec w)"

definition postFailingAggregatesWithBlock :: "check_config \<Rightarrow> gh_client \<Rightarrow> call_env \<Rightarrow> int \<Rightarrow> string \<Rightarrow> int \<Rightarrow> string
    \<Rightarrow> (string \<times> string) list \<Rightarrow> checkBlockReason \<Rightarrow> check_world \<Rightarrow> check_world" where
  "postFailingAggregatesWithBlock cfg gh ce now repo pr headSHA errors block w =
     (if \<not> checksEnabled cfg then w
      else if \<not> verifyHeadSHAStillCurrentForPR gh headSHA then w
      else (let checks = (if AllowedEnvironments cfg \<noteq> []
               then filter (\<lambda>(name, env). map_of errors env \<noteq> None) (envChecks_of cfg) else envChecks_of cfg) in
            post_failing_all gh ce now repo pr headSHA errors block checks w))"

definition postFailingAggregates :: "check_config \<Rightarrow> gh_client \<Rightarrow> call_env \<Rightarrow> int \<Rightarrow> string \<Rightarrow> int \<Rightarrow> string
    \<Rightarrow> (string \<times> string) list \<Rightarrow> check_world \<Rightarrow> check_world" where
  "postFailingAggregates cfg gh ce now repo pr headSHA errors w =
     postFailingAggregatesWithBlock cfg gh ce now repo pr headSHA errors \<lparr>blockingReason = [], block_message = []\<rparr> w"

subsection \<open>Recording results (check\_records.go)\<close>

text \<open>
  \<open>schemaHeadSHA\<close>, \<open>dbType\<close> and \<open>database\<close> are the fields of the schema request; \<open>planErrors\<close> and \<open>hasChanges\<close> say whether the plan response has errors and
  whether its list of tables is not empty.
\<close>

definition plan_check :: "string \<Rightarrow> int \<Rightarrow> string \<Rightarrow> string \<Rightarrow> string \<Rightarrow> string \<Rightarrow> bool \<Rightarrow> bool \<Rightarrow> Check" where
  "plan_check repo pr headSHA environment dbType database planErrors hasChanges =
     \<lparr>chk_ID = 0, chk_Repository = repo, chk_PullRequest = pr, chk_HeadSHA = headSHA, chk_Environment = environment,
      chk_DatabaseType = dbType, chk_DatabaseName = database, chk_CheckRunID = None, chk_ApplyID = None, chk_HasChanges = hasChanges,
      chk_Status = checkStatusCompleted,
      chk_Conclusion = (if planErrors then checkConclusionFailure else if hasChanges then checkConclusionActionRequired else checkConclusionSuccess),
      chk_BlockingReason = [], chk_ErrorMessage = [], chk_CreatedAt = 0, chk_UpdatedAt = 0\<rparr>"

definition upsertPlanCheckRecord :: "gh_client \<Rightarrow> call_env \<Rightarrow> int \<Rightarrow> string \<Rightarrow> int \<Rightarrow> string \<Rightarrow> string \<Rightarrow> string \<Rightarrow> string \<Rightarrow> bool \<Rightarrow> bool
    \<Rightarrow> check_world \<Rightarrow> (lock_error + Check) \<times> check_world" where
  "upsertPlanCheckRecord gh ce now repo pr schemaHeadSHA environment dbType database planErrors hasChanges w =
     (if schemaHeadSHA = [] then (Inl (Store_Error (ErrOther ''schema request missing head SHA'')), w)
      else case FetchPullRequest_HeadSHA gh of
          None \<Rightarrow> (Inl (Store_Error (ErrOther ''fetch PR for stored check state'')), w)
        | Some current \<Rightarrow>
            if current \<noteq> schemaHeadSHA then (Inl (Store_Error (ErrOther ''skip stale plan check record'')), w)
            else (let check = plan_check repo pr schemaHeadSHA environment dbType database planErrors hasChanges in
              case UpsertPlanResult (ce_cancelled ce 0) (ce_env ce 0) now check (cw_db w) of
                (Some e, d) \<Rightarrow> (Inl e, w\<lparr>cw_db := d\<rparr>)
              | (None, d) \<Rightarrow> (Inr check, w\<lparr>cw_db := d\<rparr>)))"

definition storePlanCheckRecord :: "gh_client \<Rightarrow> call_env \<Rightarrow> int \<Rightarrow> string \<Rightarrow> int \<Rightarrow> string \<Rightarrow> string \<Rightarrow> string \<Rightarrow> string \<Rightarrow> bool \<Rightarrow> bool
    \<Rightarrow> check_world \<Rightarrow> (lock_error + unit) \<times> check_world" where
  "storePlanCheckRecord gh ce now repo pr schemaHeadSHA environment dbType database planErrors hasChanges w =
     (case upsertPlanCheckRecord gh ce now repo pr schemaHeadSHA environment dbType database planErrors hasChanges w of
        (Inl e, w1) \<Rightarrow> (Inl e, w1) | (Inr _, w1) \<Rightarrow> (Inr (), w1))"

definition storeManualPlanCheckRecord :: "gh_client \<Rightarrow> call_env \<Rightarrow> int \<Rightarrow> string \<Rightarrow> int \<Rightarrow> string \<Rightarrow> string \<Rightarrow> string \<Rightarrow> string \<Rightarrow> bool \<Rightarrow> bool
    \<Rightarrow> check_world \<Rightarrow> (lock_error + bool) \<times> check_world" where
  "storeManualPlanCheckRecord gh ce now repo pr schemaHeadSHA environment dbType database planErrors hasChanges w =
     (case upsertPlanCheckRecord gh ce now repo pr schemaHeadSHA environment dbType database planErrors hasChanges w of
        (Inl e, w1) \<Rightarrow> (Inl e, w1)
      | (Inr check, w1) \<Rightarrow> (case RecoverApplyOwnedCheckWithNoOpPlan (ce_env ce 1 0) now check (cw_db w1) of
            (r, d) \<Rightarrow> (r, w1\<lparr>cw_db := d\<rparr>)))"

type_synonym applyCheckKey = "string \<times> string \<times> string"

definition isApplyNewer :: "Apply \<Rightarrow> Apply \<Rightarrow> bool" where
  "isApplyNewer candidate existing \<longleftrightarrow> ap_ID candidate > ap_ID existing"

definition add_latest :: "(applyCheckKey \<Rightarrow> Apply option) \<Rightarrow> Apply \<Rightarrow> applyCheckKey \<Rightarrow> Apply option" where
  "add_latest latest a = (let key = (ap_Environment a, ap_DatabaseType a, ap_Database a) in
     if (case latest key of None \<Rightarrow> True | Some existing \<Rightarrow> isApplyNewer a existing) then latest(key := Some a) else latest)"

definition latestApplyByCheckKey :: "Apply list \<Rightarrow> applyCheckKey \<Rightarrow> Apply option" where
  "latestApplyByCheckKey applies = foldl add_latest (\<lambda>_. None) applies"

text \<open>The row as it is after the apply finished.\<close>

definition apply_result_conclusion :: "Apply \<Rightarrow> Check \<Rightarrow> string" where
  "apply_result_conclusion a check =
     (if IsState (ap_State a) [Apply_Completed] \<and> checkBlockedByRemovedSchemaAfterApply check then checkConclusionActionRequired
      else if IsState (ap_State a) [Apply_Completed] then checkConclusionSuccess
      else checkConclusionFailure)"

definition apply_result_check :: "Apply \<Rightarrow> Check \<Rightarrow> Check" where
  "apply_result_check a check =
     (let conclusion = apply_result_conclusion a check;
          check' = check\<lparr>chk_Status := checkStatusCompleted, chk_Conclusion := conclusion, chk_HasChanges := (conclusion \<noteq> checkConclusionSuccess)\<rparr> in
      if conclusion = checkConclusionSuccess then check'\<lparr>chk_BlockingReason := [], chk_ErrorMessage := []\<rparr> else check')"

definition updateCheckRecordForApplyResult :: "call_env \<Rightarrow> int \<Rightarrow> string \<Rightarrow> int \<Rightarrow> Apply \<Rightarrow> check_world \<Rightarrow> (lock_error + bool) \<times> check_world" where
  "updateCheckRecordForApplyResult ce now repo pr a w =
     (case read_world ce 0 (ck_Get repo pr (ap_Environment a) (ap_DatabaseType a) (ap_Database a)) w of
        (Inl e, w1) \<Rightarrow> (Inl (MySQLError e), w1)
      | (Inr None, w1) \<Rightarrow> (Inl (Store_Error (ErrOther ''no stored check state found to update after apply'')), w1)
      | (Inr (Some check), w1) \<Rightarrow>
          if IsState (ap_State a) [Apply_Stopped] then (Inr False, w1)
          else (case CompleteForApply (ce_env ce 1 0) now (apply_result_check a check) a (cw_db w1) of (r, d) \<Rightarrow> (r, w1\<lparr>cw_db := d\<rparr>)))"

definition setCheckActionRequired :: "check_config \<Rightarrow> gh_client option \<Rightarrow> call_env \<Rightarrow> int \<Rightarrow> string \<Rightarrow> int \<Rightarrow> Apply \<Rightarrow> check_world \<Rightarrow> bool \<times> check_world" where
  "setCheckActionRequired cfg gh ce now repo pr a w =
     (case read_world ce 0 (ck_Get repo pr (ap_Environment a) (ap_DatabaseType a) (ap_Database a)) w of
        (Inl e, w1) \<Rightarrow> (False, w1)
      | (Inr None, w1) \<Rightarrow> (False, w1)
      | (Inr (Some check), w1) \<Rightarrow>
          (let check' = check\<lparr>chk_Status := checkStatusCompleted, chk_Conclusion := checkConclusionActionRequired, chk_HasChanges := True,
                 chk_BlockingReason := blockingReason rollbackCompletedBlock, chk_ErrorMessage := block_message rollbackCompletedBlock\<rparr> in
           case MarkActionRequiredForApply (ce_env ce 1 0) now check' a (cw_db w1) of
             (Inl _, d) \<Rightarrow> (False, w1\<lparr>cw_db := d\<rparr>)
           | (Inr updated, d) \<Rightarrow>
               (let w2 = w1\<lparr>cw_db := d\<rparr> in
                if \<not> updated then (False, w2)
                else (True, case gh of Some client \<Rightarrow> updateAggregateCheck cfg client (next_calls 2 ce) now repo pr (chk_HeadSHA check') w2
                              | None \<Rightarrow> w2))))"

text \<open>The loop over the rows of the pull request; \<open>Inl\<close> is the early return of an error. Each round has its own calls.\<close>

fun reconcile_checks :: "check_config \<Rightarrow> gh_client option \<Rightarrow> (nat \<Rightarrow> call_env) \<Rightarrow> int \<Rightarrow> string \<Rightarrow> int \<Rightarrow> (applyCheckKey \<Rightarrow> Apply option)
    \<Rightarrow> Check list \<Rightarrow> bool \<Rightarrow> check_world \<Rightarrow> (lock_error + bool) \<times> check_world" where
  "reconcile_checks cfg gh ces now repo pr latest [] reconciled w = (Inr reconciled, w)"
| "reconcile_checks cfg gh ces now repo pr latest (check # checks) reconciled w =
     (let continue = reconcile_checks cfg gh (\<lambda>n. ces (n + 1)) now repo pr latest checks in
      if chk_Status check \<noteq> checkStatusInProgress then continue reconciled w
      else if isAggregateCheck check then continue reconciled w
      else case latest (chk_Environment check, chk_DatabaseType check, chk_DatabaseName check) of
          None \<Rightarrow> continue reconciled w
        | Some a \<Rightarrow>
            if \<not> IsTerminalApplyState (ap_State a) then continue reconciled w
            else if IsRollback (Some a) \<and> IsState (ap_State a) [Apply_Completed] then
              (case setCheckActionRequired cfg gh (ces 0) now repo pr a w of (updated, w1) \<Rightarrow> continue (reconciled \<or> updated) w1)
            else (case updateCheckRecordForApplyResult (ces 0) now repo pr a w of
                (Inl e, w1) \<Rightarrow> (Inl e, w1)
              | (Inr updated, w1) \<Rightarrow> continue (reconciled \<or> updated) w1))"

definition reconcileStaleChecks :: "check_config \<Rightarrow> gh_client \<Rightarrow> gh_client option \<Rightarrow> (nat \<Rightarrow> call_env) \<Rightarrow> int \<Rightarrow> string \<Rightarrow> int
    \<Rightarrow> check_world \<Rightarrow> lock_error option \<times> check_world" where
  "reconcileStaleChecks cfg client gh ces now repo pr w =
     (case read_world (ces 0) 0 (ck_GetByPR repo pr) w of
        (Inl e, w1) \<Rightarrow> (Some (MySQLError e), w1)
      | (Inr checks, w1) \<Rightarrow> (case read_world (ces 0) 1 (\<lambda>d. GetByPR repo pr (ck_db d)) w1 of
            (Inl e, w2) \<Rightarrow> (Some (MySQLError e), w2)
          | (Inr applies, w2) \<Rightarrow>
              (case reconcile_checks cfg gh (\<lambda>n. ces (n + 2)) now repo pr (latestApplyByCheckKey applies) checks False w2 of
                 (Inl e, w3) \<Rightarrow> (Some e, w3)
               | (Inr False, w3) \<Rightarrow> (None, w3)
               | (Inr True, w3) \<Rightarrow> (case FetchPullRequest_HeadSHA client of
                     None \<Rightarrow> (Some (Store_Error (ErrOther ''fetch latest PR commit SHA'')), w3)
                   | Some headSHA \<Rightarrow> (None, if headSHA \<noteq> [] then updateAggregateCheck cfg client (ces 1) now repo pr headSHA w3 else w3)))))"

subsection \<open>What is published\<close>

text \<open>\<open>publishes w P w'\<close>: the world's published runs grew, by runs that all satisfy \<open>P\<close>.\<close>

definition publishes :: "check_world \<Rightarrow> (string \<Rightarrow> CheckRunOptions \<Rightarrow> bool) \<Rightarrow> check_world \<Rightarrow> bool" where
  "publishes w P w' \<longleftrightarrow> (\<exists>new. cw_published w' = cw_published w @ new \<and> (\<forall>(i, sha, opts) \<in> set new. P sha opts))"

lemma publishes_same: "cw_published w' = cw_published w \<Longrightarrow> publishes w P w'"
  by (simp add: publishes_def)

lemma publishes_trans [trans]: "publishes w P w' \<Longrightarrow> publishes w' P w'' \<Longrightarrow> publishes w P w''"
  by (force simp: publishes_def)

lemma publishes_mono: "publishes w P w' \<Longrightarrow> (\<And>sha opts. P sha opts \<Longrightarrow> Q sha opts) \<Longrightarrow> publishes w Q w'"
  by (fastforce simp: publishes_def)

lemma read_world_published [simp]: "cw_published (snd (read_world ce call f w)) = cw_published w"
  by (simp add: read_world_def split: prod.splits)

lemma upsert_world_published [simp]: "cw_published (snd (upsert_world ce call now check w)) = cw_published w"
  by (simp add: upsert_world_def split: prod.splits)

lemma publish_run_publishes:
  "publish_run gh headSHA opts existing w = Some (i, w') \<Longrightarrow> cw_published w' = cw_published w @ [(i, headSHA, opts)]"
  by (auto simp: publish_run_def Let_def split: option.splits if_splits)

text \<open>Look up the aggregate row, publish the run, store the row: the step the publishers share.\<close>

lemma publish_step:
  assumes "read_world ce call f w = (Inr existing, w1)" "publish_run gh headSHA opts existing w1 = Some (i, w2)"
    and "P headSHA opts"
  shows "publishes w P (snd (upsert_world ce call' now row w2))"
proof -
  have "cw_published w1 = cw_published w" using assms(1) read_world_published [of ce call f w] by simp
  then show ?thesis using publish_run_publishes [OF assms(2)] assms(3) by (auto simp: publishes_def)
qed

text \<open>A check that does not stand in the way of a passing aggregate.\<close>

definition check_clear :: "Check \<Rightarrow> bool" where
  "check_clear c \<longleftrightarrow> chk_Status c \<noteq> checkStatusInProgress \<and> chk_Conclusion c \<noteq> checkConclusionFailure
     \<and> chk_Conclusion c \<noteq> checkConclusionActionRequired"

lemma computeAggregate_success:
  "fst (computeAggregate checks) = checkConclusionSuccess \<longleftrightarrow> (\<forall>c \<in> set checks. check_clear c)"
  by (auto simp: computeAggregate_def check_clear_def list_ex_iff check_consts)

lemma upsertAggregateCheckRun_publishes:
  "publishes w (\<lambda>sha opts. sha = headSHA \<and> cro_Name opts = checkName
      \<and> (cro_Conclusion opts = checkConclusionSuccess \<longrightarrow> (\<forall>c \<in> set dbChecks. check_clear c)))
     (upsertAggregateCheckRun gh ce now repo pr headSHA dbChecks checkName environment w)"
proof -
  obtain conclusion status where agg: "computeAggregate dbChecks = (conclusion, status)" by fastforce
  obtain title summary where sum: "aggregateSummary dbChecks conclusion = (title, summary)" by fastforce
  obtain r w1 where rd: "read_world ce 0 (ck_Get repo pr environment aggregateSentinel aggregateSentinel) w = (r, w1)" by fastforce
  have w1: "cw_published w1 = cw_published w" using rd read_world_published by (metis snd_conv)
  have success: "cro_Conclusion opts = checkConclusionSuccess \<longrightarrow> (\<forall>c \<in> set dbChecks. check_clear c)"
    if "cro_Conclusion opts = (if status = checkStatusCompleted then conclusion else [])" for opts
    using that computeAggregate_success [of dbChecks] agg by (auto simp: check_consts)
  let ?opts = "\<lparr>cro_Name = checkName, cro_Status = status, cro_Conclusion = (if status = checkStatusCompleted then conclusion else []),
      cro_Title = title, cro_Summary = summary\<rparr>"
  let ?P = "\<lambda>sha opts. sha = headSHA \<and> cro_Name opts = checkName
      \<and> (cro_Conclusion opts = checkConclusionSuccess \<longrightarrow> (\<forall>c \<in> set dbChecks. check_clear c))"
  note unfold = upsertAggregateCheckRun_def agg sum rd Let_def prod.case
  show ?thesis
  proof (cases r)
    case (Inl e)
    then show ?thesis using w1 by (simp add: unfold publishes_same)
  next
    case (Inr existing)
    show ?thesis
    proof (cases "publish_run gh headSHA ?opts existing w1")
      case None
      then show ?thesis using w1 Inr unfolding unfold by (simp add: publishes_same)
    next
      case (Some iw)
      then obtain i w2 where iw: "publish_run gh headSHA ?opts existing w1 = Some (i, w2)" by (cases iw) auto
      have "?P headSHA ?opts" using success [of ?opts] by simp
      from publish_step [where P = ?P, OF rd [unfolded Inr] iw this] show ?thesis
        unfolding unfold using Inr iw by simp
    qed
  qed
qed

text \<open>The runs updateAggregateCheck may publish: for the current head, and successful only for clear rows of the check's scope.\<close>

definition earned :: "check_config \<Rightarrow> string \<Rightarrow> Check list \<Rightarrow> string \<Rightarrow> CheckRunOptions \<Rightarrow> bool" where
  "earned cfg headSHA dbChecks sha opts \<longleftrightarrow> sha = headSHA \<and> (cro_Conclusion opts = checkConclusionSuccess \<longrightarrow>
     (if AllowedEnvironments cfg = [] then \<forall>c \<in> set dbChecks. check_clear c
      else \<exists>env \<in> set (AllowedEnvironments cfg). cro_Name opts = aggregateCheckNameForEnv (checkNameBase cfg) env
        \<and> (\<forall>c \<in> set dbChecks. chk_Environment c = env \<longrightarrow> check_clear c)))"

lemma aggregate_environments_publishes:
  assumes "set envs \<subseteq> set (AllowedEnvironments cfg)" "\<And>c. c \<in> set dbChecks \<Longrightarrow> \<not> isAggregateCheck c" "AllowedEnvironments cfg \<noteq> []"
  shows "publishes w (earned cfg headSHA dbChecks)
    (aggregate_environments gh ce now repo pr headSHA dbChecks (checkNameBase cfg) envs w)"
  using assms
proof (induction envs arbitrary: ce w)
  case (Cons env envs)
  let ?checks = "filterChecksByEnvironment dbChecks env"
  let ?w = "if ?checks = [] then w
    else upsertAggregateCheckRun gh ce now repo pr headSHA ?checks (aggregateCheckNameForEnv (checkNameBase cfg) env) env w"
  have clear: "\<forall>c \<in> set dbChecks. chk_Environment c = env \<longrightarrow> check_clear c" if "\<forall>c \<in> set ?checks. check_clear c"
    using that Cons.prems(2) by (simp add: filterChecksByEnvironment_def)
  have "publishes w (earned cfg headSHA dbChecks)
      (upsertAggregateCheckRun gh ce now repo pr headSHA ?checks (aggregateCheckNameForEnv (checkNameBase cfg) env) env w)"
    by (rule publishes_mono [OF upsertAggregateCheckRun_publishes]) (use Cons.prems clear in \<open>auto simp: earned_def\<close>)
  then have "publishes w (earned cfg headSHA dbChecks) ?w" by (simp add: publishes_same)
  also have "publishes ?w (earned cfg headSHA dbChecks)
      (aggregate_environments gh (next_calls 2 ce) now repo pr headSHA dbChecks (checkNameBase cfg) envs ?w)"
    using Cons.prems by (intro Cons.IH) auto
  finally show ?case by (simp only: aggregate_environments.simps Let_def)
qed (simp add: publishes_same)

lemma updateAggregateCheck_publishes:
  "publishes w (\<lambda>sha opts. FetchPullRequest_HeadSHA gh = Some headSHA \<and> earned cfg headSHA (filter (\<lambda>c. \<not> isAggregateCheck c)
       (ck_GetByPR repo pr (se_between (ce_env ce 0 0) 0 (cw_db w)))) sha opts)
     (updateAggregateCheck cfg gh ce now repo pr headSHA w)"
proof (cases "checksEnabled cfg \<and> verifyHeadSHAStillCurrentForPR gh headSHA")
  case False
  then show ?thesis by (simp add: updateAggregateCheck_def publishes_same)
next
  case True
  then have head: "FetchPullRequest_HeadSHA gh = Some headSHA"
    by (auto simp: verifyHeadSHAStillCurrentForPR_def split: if_splits option.splits)
  obtain r w1 where rd: "read_world ce 0 (ck_GetByPR repo pr) w = (r, w1)" by fastforce
  have w1: "cw_published w1 = cw_published w" using rd read_world_published by (metis snd_conv)
  show ?thesis
  proof (cases r)
    case (Inl e)
    then show ?thesis using True rd w1 by (simp add: updateAggregateCheck_def publishes_same)
  next
    case (Inr checks)
    let ?db = "filter (\<lambda>c. \<not> isAggregateCheck c) checks"
    have checks: "checks = ck_GetByPR repo pr (se_between (ce_env ce 0 0) 0 (cw_db w))"
      using rd Inr by (auto simp: read_world_def exec_stmt_def Let_def split: option.splits prod.splits)
    have "publishes w1 (earned cfg headSHA ?db) (upsertAggregateCheckRun gh (next_calls 1 ce) now repo pr headSHA ?db (checkNameBase cfg) aggregateSentinel w1)"
      if "AllowedEnvironments cfg = []"
      by (rule publishes_mono [OF upsertAggregateCheckRun_publishes]) (use that in \<open>auto simp: earned_def\<close>)
    moreover have "publishes w1 (earned cfg headSHA ?db)
        (aggregate_environments gh (next_calls 1 ce) now repo pr headSHA ?db (checkNameBase cfg) (AllowedEnvironments cfg) w1)"
      if "AllowedEnvironments cfg \<noteq> []"
      by (rule aggregate_environments_publishes) (use that in auto)
    ultimately have "publishes w1 (earned cfg headSHA ?db) (updateAggregateCheck cfg gh ce now repo pr headSHA w)"
      using True rd Inr by (simp add: updateAggregateCheck_def Let_def publishes_same)
    then have "publishes w (earned cfg headSHA ?db) (updateAggregateCheck cfg gh ce now repo pr headSHA w)"
      using w1 by (simp add: publishes_def)
    then show ?thesis by (rule publishes_mono) (use head checks in auto)
  qed
qed

lemma IsState_stopped_not_completed: "IsState st [Apply_Stopped] \<Longrightarrow> \<not> IsState st [Apply_Completed]"
  by (auto simp: IsState_def)

lemma apply_result_success:
  "chk_Conclusion (apply_result_check a check) = checkConclusionSuccess
     \<longleftrightarrow> IsState (ap_State a) [Apply_Completed] \<and> \<not> checkBlockedByRemovedSchemaAfterApply check"
  by (auto simp: apply_result_check_def apply_result_conclusion_def Let_def check_consts)

subsection \<open>Properties\<close>

definition sample_gh :: gh_client where
  "sample_gh = \<lparr>FetchPullRequest_HeadSHA = Some ''abc'', UpdateCheckRun = \<lambda>_ _. True, CreateCheckRun = \<lambda>_ _. Some 42\<rparr>"

definition sample_cfg :: "string list \<Rightarrow> check_config" where
  "sample_cfg envs = \<lparr>checksEnabled = True, AllowedEnvironments = envs, checkNameBase = ''SchemaBot''\<rparr>"

definition quiet_calls :: call_env where
  "quiet_calls = \<lparr>ce_env = \<lambda>_ _. quiet, ce_cancelled = \<lambda>_ _. False\<rparr>"

definition sample_world :: "Check list \<Rightarrow> check_world" where
  "sample_world checks = \<lparr>cw_db = \<lparr>ck_db = sample_db Apply_Completed Apply_Completed, db_checks = checks, next_check_id = 2\<rparr>, cw_published = []\<rparr>"

text \<open>A green gate is earned (C8): every check run that a refresh of the aggregate publishes is for the commit GitHub reports as the pull request's head,
and when it is successful, no per-database row of its scope - the whole pull request, or the one environment of a per-environment
check - is in progress, failed or waiting for an apply in the state the refresh read.\<close>

theorem published_success_is_earned:
  assumes "cw_published (updateAggregateCheck cfg gh ce now repo pr headSHA w) = cw_published w @ new"
    and "(i, sha, opts) \<in> set new" "cro_Conclusion opts = checkConclusionSuccess"
  shows "FetchPullRequest_HeadSHA gh = Some sha \<and> sha = headSHA \<and> (\<exists>scope.
      (if AllowedEnvironments cfg = [] then \<forall>c. scope c
       else \<exists>env \<in> set (AllowedEnvironments cfg). cro_Name opts = aggregateCheckNameForEnv (checkNameBase cfg) env \<and> scope = (\<lambda>c. chk_Environment c = env))
      \<and> (\<forall>c \<in> set (ck_GetByPR repo pr (se_between (ce_env ce 0 0) 0 (cw_db w))). \<not> isAggregateCheck c \<and> scope c \<longrightarrow>
           chk_Status c \<noteq> checkStatusInProgress \<and> chk_Conclusion c \<noteq> checkConclusionFailure \<and> chk_Conclusion c \<noteq> checkConclusionActionRequired))"
proof -
  let ?db = "filter (\<lambda>c. \<not> isAggregateCheck c) (ck_GetByPR repo pr (se_between (ce_env ce 0 0) 0 (cw_db w)))"
  have head: "FetchPullRequest_HeadSHA gh = Some headSHA" and ok: "earned cfg headSHA ?db sha opts"
    using updateAggregateCheck_publishes [of w gh headSHA cfg repo pr ce now] assms(1,2) by (auto simp: publishes_def)
  show ?thesis
  proof (cases "AllowedEnvironments cfg = []")
    case True
    then have "sha = headSHA" "\<forall>c \<in> set ?db. check_clear c" using ok assms(3) by (auto simp: earned_def)
    with True head show ?thesis by (intro conjI exI [of _ "\<lambda>_. True"]) (auto simp: check_clear_def)
  next
    case False
    then obtain env where "sha = headSHA" "env \<in> set (AllowedEnvironments cfg)" "cro_Name opts = aggregateCheckNameForEnv (checkNameBase cfg) env"
      "\<forall>c \<in> set ?db. chk_Environment c = env \<longrightarrow> check_clear c" using ok assms(3) by (auto simp: earned_def)
    with False head show ?thesis by (intro conjI exI [of _ "\<lambda>c. chk_Environment c = env"]) (auto simp: check_clear_def)
  qed
qed

theorem published_success_is_earned_witness:
  "\<exists>new i opts. cw_published (updateAggregateCheck (sample_cfg []) sample_gh quiet_calls 200 ''o/r'' 7 ''abc''
       (sample_world [sample_check ''completed'' None ''success''])) = new \<and> (i, ''abc'', opts) \<in> set new
     \<and> FetchPullRequest_HeadSHA sample_gh = Some ''abc''"
proof -
  let ?w = "sample_world [sample_check ''completed'' None ''success'']"
  define new where "new = cw_published (updateAggregateCheck (sample_cfg []) sample_gh quiet_calls 200 ''o/r'' 7 ''abc'' ?w)"
  have eq: "cw_published (updateAggregateCheck (sample_cfg []) sample_gh quiet_calls 200 ''o/r'' 7 ''abc'' ?w) = cw_published ?w @ new"
    by (simp add: new_def sample_world_def)
  have "new \<noteq> []" "fst (snd (hd new)) = ''abc''" "cro_Conclusion (snd (snd (hd new))) = checkConclusionSuccess"
    unfolding new_def by code_simp+
  then obtain i opts where mem: "(i, ''abc'', opts) \<in> set new" "cro_Conclusion opts = checkConclusionSuccess"
    by (cases "hd new") (use hd_in_set [of new] in auto)
  from published_success_is_earned [OF eq mem] have "FetchPullRequest_HeadSHA sample_gh = Some ''abc''" by blast
  with mem show ?thesis unfolding new_def by blast
qed

text \<open>A finished apply passes its check only when it completed: recording the result of a stopped apply leaves every row as the other callers left it, so a resume
can still complete the check; for any other state a row this call rewrites is successful only if the apply completed and the check was
not blocked because the schema change was removed after the apply had started.\<close>

theorem check_passes_only_for_completed_apply:
  assumes run: "updateCheckRecordForApplyResult ce now repo pr a w = (res, w')"
    and quiet0: "\<forall>call attempt. se_between (ce_env ce call attempt) = (\<lambda>_ d. d)"
  shows "(IsState (ap_State a) [Apply_Stopped] \<longrightarrow> cw_db w' = cw_db w)
    \<and> (\<forall>r \<in> set (db_checks (cw_db w')). r \<notin> set (db_checks (cw_db w)) \<and> chk_Conclusion r = checkConclusionSuccess \<longrightarrow>
        IsState (ap_State a) [Apply_Completed]
        \<and> (\<exists>c \<in> set (db_checks (cw_db w)). chk_ID c = chk_ID r \<and> apply_owned c \<and> chk_ApplyID c = Some (ap_ID a)))"
proof -
  obtain r w1 where rd: "read_world ce 0 (ck_Get repo pr (ap_Environment a) (ap_DatabaseType a) (ap_Database a)) w = (r, w1)" by fastforce
  have w1: "cw_db w1 = cw_db w" using rd quiet0 by (auto simp: read_world_def exec_stmt_def Let_def split: option.splits)
  show ?thesis
  proof (cases "\<exists>check. r = Inr (Some check) \<and> \<not> IsState (ap_State a) [Apply_Stopped]")
    case False
    then have "w' = w1" using run rd by (auto simp: updateCheckRecordForApplyResult_def split: sum.splits option.splits if_splits)
    then show ?thesis using w1 by simp
  next
    case True
    then obtain check where check: "r = Inr (Some check)" "\<not> IsState (ap_State a) [Apply_Stopped]" by blast
    let ?c = "apply_result_check a check"
    have d: "CompleteForApply (ce_env ce 1 0) now ?c a (cw_db w) = (res, cw_db w')"
      using run rd w1 check by (auto simp: updateCheckRecordForApplyResult_def split: prod.splits)
    let ?sel = "\<lambda>r. (same_check_key ?c r \<and> sql_eq (chk_Status r) checkStatusInProgress \<and> chk_ApplyID r = Some (ap_ID a))
      \<and> \<not> newer_apply_exists a (cw_db w) r \<and> lease_admits a (cw_db w)"
    have rows: "cw_db w' = cw_db w \<or> db_checks (cw_db w') = update_where ?sel (check_values now ?c (Some (ap_ID a))) (db_checks (cw_db w))"
      using CompleteForApply_alone [OF d] quiet0 by simp
    have "IsState (ap_State a) [Apply_Completed] \<and> (\<exists>c \<in> set (db_checks (cw_db w)). chk_ID c = chk_ID q \<and> apply_owned c \<and> chk_ApplyID c = Some (ap_ID a))"
      if q: "q \<in> set (db_checks (cw_db w'))" "q \<notin> set (db_checks (cw_db w))" "chk_Conclusion q = checkConclusionSuccess" for q
    proof -
      from rows q have "q \<in> set (update_where ?sel (check_values now ?c (Some (ap_ID a))) (db_checks (cw_db w)))" by auto
      then obtain c where c: "c \<in> set (db_checks (cw_db w))" "?sel c" "q = check_values now ?c (Some (ap_ID a)) c"
        using q(2) by (elim in_update_whereE) auto
      then have "chk_Conclusion q = chk_Conclusion ?c" "chk_ID c = chk_ID q"
        by (auto simp: check_values_def Let_def split: if_splits dest: arg_cong [where f = chk_Conclusion])
      with q(3) c show ?thesis using apply_result_success [of a check] by (auto simp: apply_owned_def)
    qed
    then show ?thesis using check(2) by blast
  qed
qed

text \<open>A plan cannot turn the gate green under a running apply: while an apply in progress owns a database's row, storing any plan result for any
database of the pull request leaves the aggregate of the pull request in progress.\<close>

theorem plan_cannot_pass_running_apply:
  assumes "\<forall>attempt. env_keeps_owned (ce_env ce 0 attempt)"
    and r: "r \<in> set (db_checks (cw_db w))" "apply_owned r" "chk_Status r = checkStatusInProgress" "\<not> isAggregateCheck r"
    and key: "sql_eq (chk_Repository r) repo" "chk_PullRequest r = pr"
  shows "computeAggregate (filter (\<lambda>c. \<not> isAggregateCheck c) (ck_GetByPR repo pr
      (cw_db (snd (storePlanCheckRecord gh ce now repo pr headSHA environment dbType database planErrors hasChanges w))))) = ([], checkStatusInProgress)"
proof -
  let ?w = "snd (storePlanCheckRecord gh ce now repo pr headSHA environment dbType database planErrors hasChanges w)"
  have "keeps_owned (cw_db w) (cw_db ?w)"
    using UpsertPlanResult_keeps [of apply_owned "ce_env ce 0" "cw_db w"] assms(1)
    by (auto simp: storePlanCheckRecord_def upsertPlanCheckRecord_def Let_def split: option.splits prod.splits) (metis snd_conv)+
  with r(1,2) have "r \<in> set (db_checks (cw_db ?w))" by (simp add: keeps_rows_def)
  with r key have "r \<in> set (filter (\<lambda>c. \<not> isAggregateCheck c) (ck_GetByPR repo pr (cw_db ?w)))" by (simp add: ck_GetByPR_def)
  with r(3) show ?thesis by (auto simp: computeAggregate_def list_ex_iff)
qed

theorem plan_cannot_pass_running_apply_witness:
  "computeAggregate (filter (\<lambda>c. \<not> isAggregateCheck c) (ck_GetByPR ''o/r'' 7 (cw_db (snd (storePlanCheckRecord sample_gh quiet_calls 200 ''o/r'' 7
     ''abc'' ''prod'' ''mysql'' ''shop'' False False (sample_world [sample_check ''in_progress'' (Some 1) []])))))) = ([], checkStatusInProgress)"
proof -
  let ?r = "sample_check ''in_progress'' (Some 1) []"
  have "\<forall>attempt. env_keeps_owned (ce_env quiet_calls 0 attempt)" by (simp add: env_keeps_rows_def keeps_rows_def quiet_calls_def quiet_def)
  moreover have "?r \<in> set (db_checks (cw_db (sample_world [?r])))" "apply_owned ?r" "chk_Status ?r = checkStatusInProgress" "\<not> isAggregateCheck ?r"
    "sql_eq (chk_Repository ?r) ''o/r''" "chk_PullRequest ?r = 7" by code_simp+
  ultimately show ?thesis by (rule plan_cannot_pass_running_apply)
qed

text \<open>The roll-up has no branch for other conclusions: a completed check that is neutral passes.\<close>

lemma neutral_check_passes: "computeAggregate [sample_check ''completed'' None ''neutral''] = (checkConclusionSuccess, checkStatusCompleted)"
  by code_simp

end
