(* ===== verification/SB_Webhook.thy ===== *)
theory SB_Webhook
  imports SB_Commands SB_Merge_Gate
begin

section \<open>Webhook deliveries (webhook/handler.go, issue\_comment.go, check\_run.go, pull\_request.go)\<close>

text \<open>
  The HTTP entry of the service: a delivery is authenticated against the secret of the App that signed it, matched with the App that owns the
  repository, and routed by its event type. A comment on a pull request goes through the filters of \<open>handleIssueComment\<close> to one command handler.

  The handlers that a delivery starts are effects here (\<open>started\<close>), and so are the comments it posts (\<open>Posts\<close>, by the template they are rendered from).
  Decoding JSON (\<open>deliveries\<close>), the HMAC digest and reaching GitHub are parameters; a log line, a metric and the acknowledging reaction are not modelled.
\<close>

subsection \<open>The handler and its inputs\<close>

text \<open>\<open>hd_service\<close>: no service, or a service with its configuration, which may be nil.\<close>

record handler =
  hd_service :: "ServerConfig option option"
  hd_webhookSecretsByApp :: "(string \<times> string) list"
  hd_webhookAppByID :: "(int \<times> string) list"

record http_request =
  rq_body :: "string option"
  rq_too_large :: bool
  rq_event :: string
  rq_signature :: string
  rq_target_type :: string
  rq_target_id :: string

record comment_user =
  cu_Login :: string
  cu_Type :: string

text \<open>The comment payload: the number of the issue and whether it is a pull request, the comment with its user, repository and installation.\<close>

record webhookPayload =
  wp_Action :: string
  wp_Issue :: "(int \<times> bool) option"
  wp_Comment :: "(string \<times> comment_user option) option"
  wp_Repository :: "string option"
  wp_Installation :: "int option"

record pullRequestPayload =
  pp_Action :: string
  pp_Number :: int
  pp_HeadSHA :: string
  pp_Repository :: string
  pp_Installation :: int

record checkRunPayload =
  cp_Action :: string
  cp_Name :: string
  cp_HeadSHA :: string
  cp_PullRequests :: "int list"
  cp_Repository :: string
  cp_Installation :: int

text \<open>What the delivery's body decodes to, by the struct that is asked for (\<^verbatim>\<open>json.Unmarshal\<close>), and the digest and GitHub access it needs.\<close>

record deliveries =
  dl_metadata :: "string \<Rightarrow> (string \<times> string) option"
  dl_comment :: "string \<Rightarrow> webhookPayload option"
  dl_pull_request :: "string \<Rightarrow> pullRequestPayload option"
  dl_check_run :: "string \<Rightarrow> checkRunPayload option"
  dl_hmac :: "string \<Rightarrow> string \<Rightarrow> string"
  dl_loader :: loader
  dl_bootstrap :: "string \<Rightarrow> int \<Rightarrow> gh_client option"

datatype template = Tpl_Help | Tpl_Rollback_Missing_Arguments | Tpl_Rollback_Missing_Env | Tpl_Missing_Env string | Tpl_Rollback_Missing_ApplyID
  | Tpl_Invalid_Command | Tpl_Unsupported_AutoConfirm string | Tpl_Rollback_DeferCutover | Tpl_Unsupported_Database_Flag string
  | Tpl_Not_Yet_Available string string

datatype command_call = Call_MultiEnvPlan string string | Call_Plan string string string | Call_Apply string string | Call_ApplyConfirm string string
  | Call_Unlock | Call_Rollback | Call_RollbackConfirm string | Call_Stop | Call_Start | Call_Cutover

datatype effect = Posts template
  | is_Starts: Starts (st_repo: string) (st_pr: int) (st_installation: int) (st_requestedBy: string) (st_call: command_call) (st_result: CommandResult)
  | Cleans_Up string int | Auto_Plans string int string

text \<open>\<open>Panics\<close> is a nil dereference, which the HTTP server recovers from; a \<open>Delegated\<close> response is written by the handler that runs.\<close>

datatype response = Answer nat string | Delegated | Panics

subsection \<open>Who signed the delivery\<close>

definition hex_value :: "char \<Rightarrow> nat option" where
  "hex_value ch = (let n = (of_char ch :: nat) in
     if 48 \<le> n \<and> n \<le> 57 then Some (n - 48) else if 97 \<le> n \<and> n \<le> 102 then Some (n - 87) else if 65 \<le> n \<and> n \<le> 70 then Some (n - 55) else None)"

fun hex_decode :: "string \<Rightarrow> string option" where
  "hex_decode [] = Some []"
| "hex_decode [ch] = None"
| "hex_decode (hi # lo # s) =
     (case (hex_value hi, hex_value lo, hex_decode s) of
        (Some a, Some b, Some rest) \<Rightarrow> Some (char_of (16 * a + b) # rest)
      | _ \<Rightarrow> None)"

definition verifyHMAC :: "(string \<Rightarrow> string \<Rightarrow> string) \<Rightarrow> string \<Rightarrow> string \<Rightarrow> string \<Rightarrow> bool" where
  "verifyHMAC hmac signature body secret =
     (if signature = [] then False
      else if \<not> has_prefix signature ''sha256='' then False
      else case hex_decode (drop (length ''sha256='') signature) of
          None \<Rightarrow> False
        | Some sigBytes \<Rightarrow> sigBytes = hmac secret body)"

text \<open>\<^verbatim>\<open>strconv.ParseInt(s, 10, 64)\<close>: no value for bad syntax and outside the 64-bit range.\<close>

definition ParseInt64 :: "string \<Rightarrow> int option" where
  "ParseInt64 s =
     (let neg = has_prefix s ''-'';
          digits = (if has_prefix s ''-'' \<or> has_prefix s ''+'' then drop 1 s else s) in
      if digits = [] then None
      else case parse_digits 0 digits of
          None \<Rightarrow> None
        | Some n \<Rightarrow> (let v = (if neg then - int n else int n) in if - (2 ^ 63) \<le> v \<and> v < 2 ^ 63 then Some v else None))"

definition defaultAppName :: string where "defaultAppName = ''default''"
definition hookTargetTypeApp :: string where "hookTargetTypeApp = ''integration''"

definition secret_of :: "handler \<Rightarrow> string \<Rightarrow> string" where
  "secret_of h name = (case map_of (hd_webhookSecretsByApp h) name of None \<Rightarrow> [] | Some secret \<Rightarrow> secret)"

text \<open>App name, App ID, a status for the metrics, and whether the delivery is authentic.\<close>

definition authenticateWebhook :: "deliveries \<Rightarrow> handler \<Rightarrow> http_request \<Rightarrow> string \<Rightarrow> string \<times> int \<times> string \<times> bool" where
  "authenticateWebhook dl h r body =
     (if length (hd_webhookAppByID h) > 0 then
        (if \<not> equal_fold (rq_target_type r) hookTargetTypeApp then ([], 0, ''invalid_target_type'', False)
         else if rq_target_id r = [] then ([], 0, ''missing_app_id'', False)
         else case ParseInt64 (rq_target_id r) of
             None \<Rightarrow> ([], 0, ''invalid_app_id'', False)
           | Some parsedID \<Rightarrow>
             if parsedID = 0 then ([], 0, ''invalid_app_id'', False)
             else (case map_of (hd_webhookAppByID h) parsedID of
                 None \<Rightarrow> ([], parsedID, ''unknown_app_id'', False)
               | Some name \<Rightarrow>
                   if length (secret_of h name) = 0 then (name, parsedID, ''missing_webhook_secret'', False)
                   else if \<not> verifyHMAC (dl_hmac dl) (rq_signature r) body (secret_of h name) then (name, parsedID, ''invalid_signature'', False)
                   else (name, parsedID, [], True)))
      else if length (secret_of h defaultAppName) = 0 then (defaultAppName, 0, [], True)
      else if \<not> verifyHMAC (dl_hmac dl) (rq_signature r) body (secret_of h defaultAppName) then (defaultAppName, 0, ''invalid_signature'', False)
      else (defaultAppName, 0, [], True))"

definition hd_config :: "handler \<Rightarrow> ServerConfig option" where
  "hd_config h = (case hd_service h of None \<Rightarrow> None | Some cfg \<Rightarrow> cfg)"

definition apps_of :: "ServerConfig option \<Rightarrow> (string \<times> GitHubConfig) list" where
  "apps_of c = (case c of None \<Rightarrow> [] | Some c \<Rightarrow> (case sv_Apps c of None \<Rightarrow> [] | Some apps \<Rightarrow> apps))"

text \<open>True when the signing App may speak for the repository.\<close>

definition verifySignedAppOwnsRepo :: "deliveries \<Rightarrow> handler \<Rightarrow> string \<Rightarrow> string \<Rightarrow> bool" where
  "verifySignedAppOwnsRepo dl h repo signedAppName =
     (if repo = [] then True
      else if hd_config h = None \<or> length (apps_of (hd_config h)) = 0 then True
      else case ResolveGitHubAppForRepo (dl_loader dl) (hd_config h) repo of
          Inl _ \<Rightarrow> False
        | Inr (expected, _) \<Rightarrow> expected = signedAppName)"

definition webhookMetadata :: "deliveries \<Rightarrow> string \<Rightarrow> string \<times> string" where
  "webhookMetadata dl body = (case dl_metadata dl body of None \<Rightarrow> ([], []) | Some m \<Rightarrow> m)"

subsection \<open>Comments on pull requests\<close>

definition commandRequiresTenantTarget :: "CommandResult \<Rightarrow> bool" where
  "commandRequiresTenantTarget result \<longleftrightarrow> \<not> cmd_IsHelp result \<and> (cmd_Found result \<or> cmd_MissingEnv result)"

text \<open>The switch over the action of a command that every filter has let through.\<close>

definition dispatch :: "string \<Rightarrow> int \<Rightarrow> int \<Rightarrow> string \<Rightarrow> CommandResult \<Rightarrow> response \<times> effect list" where
  "dispatch repo pr installationID requestedBy result =
     (let act = cmd_Action result; run = (\<lambda>call. [Starts repo pr installationID requestedBy call result]) in
      if act = action_Plan then (Delegated, run (Call_Plan (cmd_Environment result) (cmd_Database result) (cmd_Tenant result)))
      else if act = action_Help then (Answer 200 ''help posted'', [Posts Tpl_Help])
      else if act = action_Apply then (Answer 200 ''apply started'', run (Call_Apply (cmd_Environment result) (cmd_Database result)))
      else if act = action_ApplyConfirm then (Answer 200 ''apply-confirm started'', run (Call_ApplyConfirm (cmd_Environment result) (cmd_Database result)))
      else if act = action_Unlock then (Answer 200 ''unlock started'', run Call_Unlock)
      else if act = action_Rollback then (Answer 200 ''rollback started'', run Call_Rollback)
      else if act = action_RollbackConfirm then (Answer 200 ''rollback-confirm started'', run (Call_RollbackConfirm (cmd_Environment result)))
      else if act = action_Stop then (Answer 200 ''stop started'', run Call_Stop)
      else if act = action_Start then (Answer 200 ''start started'', run Call_Start)
      else if act = action_Cutover then (Answer 200 ''cutover started'', run Call_Cutover)
      else if act = action_Revert \<or> act = action_SkipRevert
      then (Answer 200 (act @ '' command not yet implemented''), [Posts (Tpl_Not_Yet_Available act (cmd_Environment result))])
      else (Answer 200 ''invalid command'', [Posts Tpl_Invalid_Command]))"

text \<open>The flags that only some commands take, looked for in the whole comment.\<close>

definition reject_flags :: "CommandResult \<Rightarrow> string \<Rightarrow> template option" where
  "reject_flags result body =
     (if cmd_Action result \<noteq> action_Apply \<and> HasAutoConfirmFlag body then Some (Tpl_Unsupported_AutoConfirm (cmd_Action result))
      else if cmd_Action result = action_Rollback \<and> HasDeferCutoverFlag body then Some Tpl_Rollback_DeferCutover
      else if \<not> commandSupportsDatabaseFlag (cmd_Action result) \<and> HasDatabaseFlag body then Some (Tpl_Unsupported_Database_Flag (cmd_Action result))
      else None)"

definition missing_env :: "string \<Rightarrow> int \<Rightarrow> int \<Rightarrow> string \<Rightarrow> CommandResult \<Rightarrow> response \<times> effect list" where
  "missing_env repo pr installationID requestedBy result =
     (if cmd_Action result = action_Plan
      then (Answer 200 ''multi-env plan started'',
            [Starts repo pr installationID requestedBy (Call_MultiEnvPlan (cmd_Database result) (cmd_Tenant result)) result])
      else if cmd_Action result = action_Rollback
      then (if cmd_ApplyID result = [] then (Answer 200 ''missing rollback arguments'', [Posts Tpl_Rollback_Missing_Arguments])
            else (Answer 200 ''missing environment flag'', [Posts Tpl_Rollback_Missing_Env]))
      else if cmd_Action result = action_RollbackConfirm then (Answer 200 ''missing environment flag'', [Posts Tpl_Rollback_Missing_Env])
      else (Answer 200 ''missing environment flag'', [Posts (Tpl_Missing_Env (cmd_Action result))]))"

text \<open>The filters from the tenant on, for a comment of an allowed repository that mentions the bot.\<close>

definition route_command :: "handler \<Rightarrow> string \<Rightarrow> int \<Rightarrow> int \<Rightarrow> string \<Rightarrow> string \<Rightarrow> CommandResult \<Rightarrow> response \<times> effect list" where
  "route_command h repo pr installationID requestedBy body result =
     (let unscoped_skip = (cmd_Tenant result = [] \<and> (case hd_service h of None \<Rightarrow> False | Some cfg \<Rightarrow> \<not> ShouldRespondToUnscoped cfg)) in
      if cmd_IsHelp result then
        (if unscoped_skip then (Answer 200 ''unscoped command skipped'', []) else (Answer 200 ''help posted'', [Posts Tpl_Help]))
      else if cmd_MissingEnv result then missing_env repo pr installationID requestedBy result
      else if cmd_Found result \<and> cmd_Environment result \<noteq> []
              \<and> (case hd_service h of None \<Rightarrow> False | Some cfg \<Rightarrow> \<not> IsEnvironmentAllowed cfg (cmd_Environment result))
      then (Answer 200 ''environment handled by another instance'', [])
      else if cmd_Found result \<and> cmd_Action result = action_Rollback \<and> cmd_ApplyID result = []
      then (Answer 200 ''missing apply ID'', [Posts Tpl_Rollback_Missing_ApplyID])
      else if \<not> cmd_Found result then
        (if unscoped_skip then (Answer 200 ''unscoped command skipped'', []) else (Answer 200 ''invalid command'', [Posts Tpl_Invalid_Command]))
      else if installationID = 0 then (Answer 400 ''missing installation ID in webhook payload'', [])
      else case reject_flags result body of
          Some tpl \<Rightarrow> (Answer 200 ''unsupported flag'', [Posts tpl])
        | None \<Rightarrow> dispatch repo pr installationID requestedBy result)"

definition handleIssueComment :: "deliveries \<Rightarrow> handler \<Rightarrow> string \<Rightarrow> response \<times> effect list" where
  "handleIssueComment dl h body =
     (case dl_comment dl body of
        None \<Rightarrow> (Answer 400 ''invalid webhook payload'', [])
      | Some payload \<Rightarrow>
        (case (wp_Issue payload, wp_Comment payload, wp_Repository payload) of
           (Some (pr, True), Some (text, user), Some repo) \<Rightarrow>
             if wp_Action payload \<noteq> ''created'' then (Answer 200 ''event ignored (not a PR comment creation)'', [])
             else if (case user of None \<Rightarrow> False | Some u \<Rightarrow> cu_Type u = ''Bot'') then (Answer 200 ''event ignored (comment from bot)'', [])
             else (let installationID = (case wp_Installation payload of None \<Rightarrow> 0 | Some i \<Rightarrow> i);
                       requestedBy = (case user of None \<Rightarrow> [] | Some u \<Rightarrow> cu_Login u);
                       result = ParseCommand text in
               if \<not> cmd_IsMention result then (Answer 200 ''no SchemaBot command found'', [])
               else if (case hd_service h of None \<Rightarrow> False | Some cfg \<Rightarrow> \<not> IsRepoAllowed cfg repo) then (Answer 200 ''repository not registered'', [])
               else if cmd_TenantError result then (Answer 200 ''invalid tenant flag'', [])
               else if cmd_Tenant result \<noteq> [] \<and> (case hd_service h of None \<Rightarrow> False | Some cfg \<Rightarrow> \<not> ShouldRespondToTenant cfg (cmd_Tenant result))
               then (Answer 200 ''tenant handled by another instance'', [])
               else if cmd_Tenant result = [] \<and> commandRequiresTenantTarget result \<and> hd_service h = Some None then (Panics, [])
               else if cmd_Tenant result = [] \<and> commandRequiresTenantTarget result
                       \<and> (case hd_service h of Some (Some cfg) \<Rightarrow> sv_Tenant cfg \<noteq> [] | _ \<Rightarrow> False)
               then (Answer 200 ''tenant target required'', [])
               else route_command h repo pr installationID requestedBy text result)
         | _ \<Rightarrow> (Answer 200 ''event ignored (not a PR comment creation)'', [])))"

subsection \<open>Pull-request and check-run events\<close>

definition handlePullRequest :: "deliveries \<Rightarrow> handler \<Rightarrow> string \<Rightarrow> response \<times> effect list" where
  "handlePullRequest dl h body =
     (case dl_pull_request dl body of
        None \<Rightarrow> (Answer 400 ''invalid pull_request payload'', [])
      | Some payload \<Rightarrow>
        (let act = pp_Action payload; repo = pp_Repository payload; pr = pp_Number payload in
         if act = ''closed'' then (Answer 200 ''PR close cleanup started'', [Cleans_Up repo pr])
         else if act \<notin> {''opened'', ''synchronize'', ''reopened''} then (Answer 200 ''pull_request action ignored'', [])
         else if pp_Installation payload = 0 then (Answer 400 ''missing installation ID in webhook payload'', [])
         else if (case hd_service h of None \<Rightarrow> False | Some cfg \<Rightarrow> \<not> IsRepoAllowed cfg repo) then (Answer 200 ''repository not registered'', [])
         else case dl_bootstrap dl repo (pp_Installation payload) of
             None \<Rightarrow> (Answer 500 ''failed to initialize GitHub client'', [])
           | Some _ \<Rightarrow> (Delegated, [Auto_Plans repo pr (pp_HeadSHA payload)])))"

definition checkRunPullRequestNumber :: "checkRunPayload \<Rightarrow> int \<times> bool" where
  "checkRunPullRequestNumber payload = (case cp_PullRequests payload of [] \<Rightarrow> (0, False) | pr # _ \<Rightarrow> (pr, pr \<noteq> 0))"

definition aggregateCheckNameForRepo :: "handler \<Rightarrow> string \<Rightarrow> string" where
  "aggregateCheckNameForRepo h repo = GitHubCheckNameBaseForRepo (hd_config h) repo"

definition isSchemaBotAggregateCheckName :: "handler \<Rightarrow> string \<Rightarrow> string \<Rightarrow> bool" where
  "isSchemaBotAggregateCheckName h repo checkName =
     (let baseName = aggregateCheckNameForRepo h repo in
      if checkName = baseName then True
      else case hd_config h of
          None \<Rightarrow> False
        | Some config \<Rightarrow> list_ex (\<lambda>env. checkName = aggregateCheckNameForEnv baseName env) (sv_AllowedEnvironments config))"

definition handleCheckRun :: "deliveries \<Rightarrow> handler \<Rightarrow> string \<Rightarrow> response \<times> effect list" where
  "handleCheckRun dl h body =
     (case dl_check_run dl body of
        None \<Rightarrow> (Answer 400 ''invalid check_run payload'', [])
      | Some payload \<Rightarrow>
        (let repo = cp_Repository payload in
         if cp_Action payload \<noteq> ''rerequested'' then (Answer 200 ''check_run action ignored'', [])
         else if cp_Installation payload = 0 then (Answer 400 ''missing installation ID in webhook payload'', [])
         else case checkRunPullRequestNumber payload of (pr, ok) \<Rightarrow>
           if \<not> ok then (Answer 200 ''check_run rerequest ignored without pull request'', [])
           else if (case hd_service h of None \<Rightarrow> False | Some cfg \<Rightarrow> \<not> IsRepoAllowed cfg repo) then (Answer 200 ''repository not registered'', [])
           else if \<not> isSchemaBotAggregateCheckName h repo (cp_Name payload)
           then (Answer 200 ''check_run rerequest ignored for non-SchemaBot check'', [])
           else if cp_HeadSHA payload = [] then (Answer 400 ''missing check_run head SHA'', [])
           else case dl_bootstrap dl repo (cp_Installation payload) of
               None \<Rightarrow> (Answer 500 ''failed to initialize GitHub client'', [])
             | Some client \<Rightarrow>
                 if \<not> verifyHeadSHAStillCurrentForPR client (cp_HeadSHA payload)
                 then (Answer 200 ''check_run rerequest ignored for stale head SHA'', [])
                 else (Delegated, [Auto_Plans repo pr (cp_HeadSHA payload)])))"

subsection \<open>The entry point\<close>

definition ServeHTTP :: "deliveries \<Rightarrow> handler \<Rightarrow> http_request \<Rightarrow> response \<times> effect list" where
  "ServeHTTP dl h r =
     (case rq_body r of
        None \<Rightarrow> if rq_too_large r then (Answer 413 ''request body too large'', []) else (Answer 400 ''failed to read request body'', [])
      | Some body \<Rightarrow>
        (case authenticateWebhook dl h r body of (appName, _, _, ok) \<Rightarrow>
           if \<not> ok then (Answer 401 ''invalid webhook dispatch'', [])
           else if \<not> verifySignedAppOwnsRepo dl h (snd (webhookMetadata dl body)) appName then (Answer 401 ''invalid webhook dispatch'', [])
           else if rq_event r = ''issue_comment'' then handleIssueComment dl h body
           else if rq_event r = ''check_run'' then handleCheckRun dl h body
           else if rq_event r = ''pull_request'' then handlePullRequest dl h body
           else (Answer 200 (''event type '' @ [CHR 0x27] @ rq_event r @ [CHR 0x27] @ '' ignored''), [])))"

subsection \<open>What starts a command\<close>

lemma dispatch_starts:
  "(resp, effects) = dispatch repo pr i who result \<Longrightarrow> Starts repo' pr' i' who' call result' \<in> set effects \<Longrightarrow>
   repo' = repo \<and> pr' = pr \<and> i' = i \<and> who' = who \<and> result' = result"
  by (auto simp: dispatch_def Let_def split: if_splits)

lemma missing_env_starts:
  "(resp, effects) = missing_env repo pr i who result \<Longrightarrow> Starts repo' pr' i' who' call result' \<in> set effects \<Longrightarrow>
   repo' = repo \<and> pr' = pr \<and> i' = i \<and> who' = who \<and> result' = result \<and> cmd_Action result = action_Plan"
  by (auto simp: missing_env_def split: if_splits)

text \<open>Either the command is complete and meant for this instance, or it is a plan over all environments.\<close>

definition command_admitted :: "handler \<Rightarrow> int \<Rightarrow> CommandResult \<Rightarrow> bool" where
  "command_admitted h installationID result \<longleftrightarrow>
     (if cmd_MissingEnv result then cmd_Action result = action_Plan
      else cmd_Found result \<and> installationID \<noteq> 0
        \<and> (case hd_service h of Some cfg \<Rightarrow> cmd_Environment result = [] \<or> IsEnvironmentAllowed cfg (cmd_Environment result) | None \<Rightarrow> True))"

lemma route_command_starts:
  assumes "route_command h repo pr i who body result = (resp, effects)" "Starts repo' pr' i' who' call result' \<in> set effects"
  shows "repo' = repo \<and> pr' = pr \<and> i' = i \<and> who' = who \<and> result' = result \<and> command_admitted h i result"
proof (cases "cmd_MissingEnv result")
  case True
  with assms have "(resp, effects) = missing_env repo pr i who result" by (auto simp: route_command_def Let_def split: if_splits)
  from missing_env_starts [OF this assms(2)] True show ?thesis by (simp add: command_admitted_def)
next
  case False
  with assms have d: "(resp, effects) = dispatch repo pr i who result" and adm: "command_admitted h i result"
    by (auto simp: route_command_def command_admitted_def Let_def split: if_splits option.splits)
  from dispatch_starts [OF d assms(2)] adm show ?thesis by simp
qed

text \<open>What a comment must have been for it to start a command.\<close>

definition comment_admitted :: "handler \<Rightarrow> webhookPayload \<Rightarrow> string \<Rightarrow> int \<Rightarrow> int \<Rightarrow> string \<Rightarrow> CommandResult \<Rightarrow> bool" where
  "comment_admitted h payload repo pr installationID requestedBy result \<longleftrightarrow>
     wp_Action payload = ''created'' \<and> wp_Issue payload = Some (pr, True) \<and> wp_Repository payload = Some repo
     \<and> (case wp_Comment payload of None \<Rightarrow> False | Some (text, user) \<Rightarrow> result = ParseCommand text
          \<and> (case user of None \<Rightarrow> requestedBy = [] | Some u \<Rightarrow> cu_Type u \<noteq> ''Bot'' \<and> requestedBy = cu_Login u))
     \<and> (case hd_service h of None \<Rightarrow> True | Some cfg \<Rightarrow> IsRepoAllowed cfg repo \<and> (cmd_Tenant result = [] \<or> ShouldRespondToTenant cfg (cmd_Tenant result)))"

lemma handleIssueComment_starts:
  assumes "handleIssueComment dl h body = (resp, effects)" "Starts repo pr i who call result \<in> set effects"
  obtains payload where "dl_comment dl body = Some payload" "comment_admitted h payload repo pr i who result" "command_admitted h i result"
proof -
  obtain payload where p: "dl_comment dl body = Some payload" using assms by (auto simp: handleIssueComment_def split: option.splits)
  obtain pr0 said user repo0 where issue: "wp_Issue payload = Some (pr0, True)" "wp_Comment payload = Some (said, user)" "wp_Repository payload = Some repo0"
    using assms p by (auto simp: handleIssueComment_def split: option.splits prod.splits bool.splits)
  let ?i = "case wp_Installation payload of None \<Rightarrow> 0 | Some i \<Rightarrow> i" and ?who = "case user of None \<Rightarrow> [] | Some u \<Rightarrow> cu_Login u"
  have route: "route_command h repo0 pr0 ?i ?who said (ParseCommand said) = (resp, effects)"
    using assms p issue by (auto simp: handleIssueComment_def Let_def split: if_splits)
  note start = route_command_starts [OF route assms(2)]
  have "comment_admitted h payload repo pr i who result"
    using assms p issue start by (auto simp: handleIssueComment_def comment_admitted_def Let_def split: if_splits option.splits)
  with p start show thesis using that by blast
qed

lemma authenticateWebhook_ok:
  assumes "authenticateWebhook dl h r body = (app, appID, status, True)" "hd_webhookAppByID h \<noteq> [] \<or> secret_of h defaultAppName \<noteq> []"
  shows "secret_of h app \<noteq> [] \<and> verifyHMAC (dl_hmac dl) (rq_signature r) body (secret_of h app)"
  using assms by (auto simp: authenticateWebhook_def split: if_splits option.splits)

lemma verifySignedAppOwnsRepo_owner:
  assumes "verifySignedAppOwnsRepo dl h repo app" "repo \<noteq> []" "apps_of (hd_config h) \<noteq> []"
  shows "\<exists>a. ResolveGitHubAppForRepo (dl_loader dl) (hd_config h) repo = Inr (app, a)"
  using assms by (auto simp: verifySignedAppOwnsRepo_def apps_of_def split: if_splits sum.splits)

lemma other_events_start_nothing:
  "Starts repo pr i who call result \<notin> set (snd (handleCheckRun dl h body))" "Starts repo pr i who call result \<notin> set (snd (handlePullRequest dl h body))"
  by (auto simp: handleCheckRun_def handlePullRequest_def Let_def split: option.splits prod.splits)

text \<open>
  Only authentic deliveries have an effect (C15): where a webhook secret is configured, a delivery that starts a handler, cleans up or posts a comment
  carries the digest of its body under the secret of one App, and with several Apps that App owns the delivery's repository. A command starts only for
  a newly created pull-request comment that a person wrote, in a repository the server accepts, for an environment and a tenant it answers for.
\<close>

theorem webhook_effects_authentic:
  assumes "hd_webhookAppByID h \<noteq> [] \<or> secret_of h defaultAppName \<noteq> []"
    and "ServeHTTP dl h r = (resp, effects)" and "effects \<noteq> []"
  shows "\<exists>body app. rq_body r = Some body
    \<and> secret_of h app \<noteq> [] \<and> verifyHMAC (dl_hmac dl) (rq_signature r) body (secret_of h app)
    \<and> (snd (webhookMetadata dl body) \<noteq> [] \<and> apps_of (hd_config h) \<noteq> []
         \<longrightarrow> (\<exists>a. ResolveGitHubAppForRepo (dl_loader dl) (hd_config h) (snd (webhookMetadata dl body)) = Inr (app, a)))
    \<and> (\<forall>repo pr i who call result. Starts repo pr i who call result \<in> set effects
         \<longrightarrow> (\<exists>payload. dl_comment dl body = Some payload \<and> comment_admitted h payload repo pr i who result \<and> command_admitted h i result))"
proof -
  obtain body where body: "rq_body r = Some body" using assms(2,3) by (auto simp: ServeHTTP_def split: option.splits if_splits)
  obtain app appID status ok where auth: "authenticateWebhook dl h r body = (app, appID, status, ok)" by (metis prod_cases4)
  have ok: "ok" and owns: "verifySignedAppOwnsRepo dl h (snd (webhookMetadata dl body)) app"
    using assms(2,3) body auth by (auto simp: ServeHTTP_def split: if_splits)
  have "\<exists>payload. dl_comment dl body = Some payload \<and> comment_admitted h payload repo pr i who result \<and> command_admitted h i result"
    if start: "Starts repo pr i who call result \<in> set effects" for repo pr i who call result
  proof -
    have "handleIssueComment dl h body = (resp, effects)"
      using assms(2) body auth ok owns start other_events_start_nothing [of repo pr i who call result dl h body]
      by (auto simp: ServeHTTP_def split: if_splits)
    then show ?thesis using start by (metis handleIssueComment_starts)
  qed
  moreover have "secret_of h app \<noteq> [] \<and> verifyHMAC (dl_hmac dl) (rq_signature r) body (secret_of h app)"
    using auth ok by (intro authenticateWebhook_ok [OF _ assms(1)]) simp
  ultimately show ?thesis using body verifySignedAppOwnsRepo_owner [OF owns] by (intro exI [of _ body] exI [of _ app]) simp
qed

definition sample_handler :: handler where
  "sample_handler = \<lparr>hd_service = Some (Some (sample_config\<lparr>sv_Tenant := [], sv_AllowedEnvironments := [''staging'']\<rparr>)),
     hd_webhookSecretsByApp = [(''one'', ''secret'')], hd_webhookAppByID = [(7, ''one'')]\<rparr>"

definition other_handler :: handler where
  "other_handler = sample_handler\<lparr>hd_service := Some (Some (sample_config\<lparr>sv_Tenant := [], sv_AllowedEnvironments := [''production'']\<rparr>))\<rparr>"

definition sample_comment :: webhookPayload where
  "sample_comment = \<lparr>wp_Action = ''created'', wp_Issue = Some (3, True),
     wp_Comment = Some (''schemabot apply -e staging'', Some \<lparr>cu_Login = ''ann'', cu_Type = ''User''\<rparr>), wp_Repository = Some ''org/app'', wp_Installation = Some 5\<rparr>"

definition sample_deliveries :: deliveries where
  "sample_deliveries = \<lparr>dl_metadata = (\<lambda>_. Some (''created'', ''org/app'')), dl_comment = (\<lambda>_. Some sample_comment), dl_pull_request = (\<lambda>_. None),
     dl_check_run = (\<lambda>_. None), dl_hmac = (\<lambda>secret body. take 2 secret), dl_loader = sample_loader, dl_bootstrap = (\<lambda>_ _. None)\<rparr>"

definition sample_request :: http_request where
  "sample_request = \<lparr>rq_body = Some ''{}'', rq_too_large = False, rq_event = ''issue_comment'', rq_signature = ''sha256=7365'',
     rq_target_type = ''integration'', rq_target_id = ''7''\<rparr>"

lemma sample_served:
  "handleIssueComment sample_deliveries sample_handler ''{}'' = (Answer 200 ''apply started'',
     [Starts ''org/app'' 3 5 ''ann'' (Call_Apply ''staging'' []) (ParseCommand ''schemabot apply -e staging'')])"
  by code_simp

theorem webhook_effects_authentic_witness:
  "\<exists>app. secret_of sample_handler app \<noteq> []
     \<and> verifyHMAC (dl_hmac sample_deliveries) (rq_signature sample_request) ''{}'' (secret_of sample_handler app)"
proof -
  have serve: "ServeHTTP sample_deliveries sample_handler sample_request = (Answer 200 ''apply started'',
      [Starts ''org/app'' 3 5 ''ann'' (Call_Apply ''staging'' []) (ParseCommand ''schemabot apply -e staging'')])" by code_simp
  have "hd_webhookAppByID sample_handler \<noteq> [] \<or> secret_of sample_handler defaultAppName \<noteq> []" "rq_body sample_request = Some ''{}''" by code_simp+
  with webhook_effects_authentic [OF _ serve] show ?thesis by auto
qed

text \<open>
  One instance answers: two instances that serve different environments never both start a command for the same comment when it names an
  environment: where one starts a command, the other starts nothing.
\<close>

theorem commands_routed_to_one_instance:
  assumes "hd_service h1 = Some (Some c1)" "hd_service h2 = Some (Some c2)"
    and "sv_AllowedEnvironments c1 \<noteq> []" "sv_AllowedEnvironments c2 \<noteq> []"
    and "set (sv_AllowedEnvironments c1) \<inter> set (sv_AllowedEnvironments c2) = {}"
    and "handleIssueComment dl h1 body = (resp1, effects1)" "handleIssueComment dl h2 body = (resp2, effects2)"
    and "Starts repo pr i who call result \<in> set effects1" "cmd_Environment result \<noteq> []" "\<not> cmd_MissingEnv result"
  shows "list_all (\<lambda>e. \<not> is_Starts e) effects2"
proof (rule ccontr)
  assume "\<not> list_all (\<lambda>e. \<not> is_Starts e) effects2"
  then obtain repo' pr' i' who' call' result' where second: "Starts repo' pr' i' who' call' result' \<in> set effects2"
    by (metis list_all_iff is_Starts_def)
  obtain p1 where one: "dl_comment dl body = Some p1" "comment_admitted h1 p1 repo pr i who result" "command_admitted h1 i result"
    by (rule handleIssueComment_starts [OF assms(6,8)])
  obtain p2 where two: "dl_comment dl body = Some p2" "comment_admitted h2 p2 repo' pr' i' who' result'" "command_admitted h2 i' result'"
    by (rule handleIssueComment_starts [OF assms(7) second])
  have "result' = result" using one(1,2) two(1,2) by (auto simp: comment_admitted_def split: option.splits)
  with one(3) two(3) have "IsEnvironmentAllowed (Some c1) (cmd_Environment result)" "IsEnvironmentAllowed (Some c2) (cmd_Environment result)"
    using assms(1,2,9,10) by (auto simp: command_admitted_def)
  with assms(3,4,5) show False by (auto simp: IsEnvironmentAllowed_def)
qed

text \<open>
  The checks for flags a command does not take read the whole comment, code blocks and prose included, while the command itself is one line: a stop
  request is refused because of a word in the sentence after it.
\<close>

lemma prose_refuses_stop:
  "let said = ''schemabot stop -e staging apply_1f'' @ [nl, nl] @ ''The query-y traffic is back.''; result = ParseCommand said in
   cmd_Action result = action_Stop \<and> cmd_Found result \<and> \<not> HasAutoConfirmFlag ''schemabot stop -e staging apply_1f''
   \<and> route_command sample_handler ''org/app'' 3 5 ''ann'' said result = (Answer 200 ''unsupported flag'', [Posts (Tpl_Unsupported_AutoConfirm action_Stop)])"
  by code_simp

end
