(* ===== verification/SB_Gates.thy ===== *)
theory SB_Gates
  imports SB_Config SB_Merge_Gate
begin

section \<open>The gates in front of an apply (pkg/webhook, pkg/github)\<close>

text \<open>
  Before a pull-request comment starts a schema change four gates must let it through: the commenter is authorised
  (actor\_authorization.go), a reviewer other than the author has approved (review\_gate.go), the commit's other checks pass
  (apply\_gating.go) and the environments before this one in the promotion order are done (check\_prior\_env.go).

  GitHub is the record \<open>gate_github\<close>: the pages each listing returns (a page may be an error), the parsed CODEOWNERS rules and their matcher, a
  package outside the repository. A gate's result is \<open>None\<close> when the command may proceed and otherwise the reason of the comment it posts.
  Go leaves the iteration order of the approvers open; the model goes in order of first review.
\<close>

subsection \<open>GitHub as the gates see it\<close>

record check_run =
  run_ID :: int
  run_Name :: string
  run_Status :: string
  run_Conclusion :: string
  run_AppSlug :: string

record commit_status =
  cst_Context :: string
  cst_State :: string

record CheckStatusRow =
  csr_Name :: string
  csr_Status :: string
  csr_Conclusion :: string
  csr_AppSlug :: string

record PRCheckStatus =
  pcs_Name :: string
  pcs_Status :: string
  pcs_Conclusion :: string
  pcs_AppSlug :: string
  pcs_IsSchemaBot :: bool

record ReviewInfo =
  rv_User :: string
  rv_State :: string
  rv_SubmittedAt :: int

record PullRequestInfo =
  pr_HeadSHA :: string
  pr_User :: string
  pr_BaseRef :: string

record codeowner =
  ow_IsTeam :: bool
  ow_Value :: string
  ow_String :: string

record gate_github =
  gg_app_slug :: string
  gg_trusted :: "string list"
  gg_statuses :: "string \<Rightarrow> (string + commit_status list) list"
  gg_runs :: "string \<Rightarrow> (string + check_run list) list"
  gg_named_runs :: "nat \<Rightarrow> string \<Rightarrow> string \<Rightarrow> (string + check_run list) list"
  gg_members :: "string \<Rightarrow> string \<Rightarrow> (string + string list) list"
  gg_reviews :: "(string + ReviewInfo list) list"
  gg_pull_request :: "string + PullRequestInfo"
  gg_ruleset :: "string \<Rightarrow> string + codeowner list list option"
  gg_match_rules :: "codeowner list list \<Rightarrow> string \<Rightarrow> string + codeowner list option"

text \<open>The loops over pages collect until the last page or the first error.\<close>

fun collect_pages :: "(string + 'a list) list \<Rightarrow> string + 'a list" where
  "collect_pages [] = Inr []"
| "collect_pages (Inl e # pages) = Inl e"
| "collect_pages (Inr page # pages) = bind_result (collect_pages pages) (\<lambda>rest. Inr (page @ rest))"

subsection \<open>Check runs and commit statuses (github/client.go)\<close>

definition isOwnAppSlug :: "gate_github \<Rightarrow> string \<Rightarrow> bool" where
  "isOwnAppSlug g slug = (if slug = [] then False else if gg_app_slug g = [] then False else equal_fold slug (gg_app_slug g))"

definition isTrustedCheckAppSlug :: "gate_github \<Rightarrow> string \<Rightarrow> bool" where
  "isTrustedCheckAppSlug g slug = (if slug = [] then False else if isOwnAppSlug g slug then True else list_ex (equal_fold slug) (gg_trusted g))"

definition mapLegacyStatusState :: "string \<Rightarrow> string \<times> string" where
  "mapLegacyStatusState st =
     (let u = to_upper st in
      if u = ''PENDING'' \<or> u = ''EXPECTED'' then (''in_progress'', [])
      else if u = ''SUCCESS'' then (''completed'', ''success'')
      else if u = ''FAILURE'' then (''completed'', ''failure'')
      else if u = ''ERROR'' then (''completed'', ''error'')
      else (''completed'', to_lower st))"

definition fetchCommitStatusRows :: "gate_github \<Rightarrow> string \<Rightarrow> string + CheckStatusRow list" where
  "fetchCommitStatusRows g ref =
     bind_result (collect_pages (gg_statuses g ref)) (\<lambda>statuses. Inr (map (\<lambda>s. case mapLegacyStatusState (cst_State s) of
       (st, conclusion) \<Rightarrow> \<lparr>csr_Name = cst_Context s, csr_Status = st, csr_Conclusion = conclusion, csr_AppSlug = []\<rparr>) statuses))"

definition fetchCheckRunRows :: "gate_github \<Rightarrow> string \<Rightarrow> string + CheckStatusRow list" where
  "fetchCheckRunRows g ref =
     bind_result (collect_pages (gg_runs g ref)) (\<lambda>runs. Inr (map (\<lambda>r.
       \<lparr>csr_Name = run_Name r, csr_Status = to_lower (run_Status r), csr_Conclusion = to_lower (run_Conclusion r), csr_AppSlug = run_AppSlug r\<rparr>) runs))"

definition checkRowsContainRequiredChecks :: "CheckStatusRow list \<Rightarrow> string list \<Rightarrow> bool" where
  "checkRowsContainRequiredChecks rows requiredChecks \<longleftrightarrow> list_all (\<lambda>required. required \<in> set (map csr_Name rows)) requiredChecks"

definition fetchPRCheckStatuses :: "gate_github \<Rightarrow> string \<Rightarrow> string list \<Rightarrow> string + CheckStatusRow list" where
  "fetchPRCheckStatuses g ref requiredChecks =
     bind_result (fetchCommitStatusRows g ref) (\<lambda>statusRows.
       if length requiredChecks > 0 \<and> checkRowsContainRequiredChecks statusRows requiredChecks then Inr statusRows
       else bind_result (fetchCheckRunRows g ref) (\<lambda>checkRows. Inr (statusRows @ checkRows)))"

definition GetPRCheckStatuses :: "gate_github \<Rightarrow> string \<Rightarrow> string list \<Rightarrow> string + PRCheckStatus list" where
  "GetPRCheckStatuses g ref requiredChecks =
     bind_result (fetchPRCheckStatuses g ref requiredChecks) (\<lambda>rows. Inr (map (\<lambda>r.
       \<lparr>pcs_Name = csr_Name r, pcs_Status = csr_Status r, pcs_Conclusion = csr_Conclusion r, pcs_AppSlug = csr_AppSlug r,
        pcs_IsSchemaBot = isTrustedCheckAppSlug g (csr_AppSlug r)\<rparr>) rows))"

text \<open>The newest run of a name by a trusted App, and the other Apps that used the name.\<close>

fun scan_runs :: "gate_github \<Rightarrow> check_run option \<Rightarrow> string list \<Rightarrow> check_run list \<Rightarrow> check_run option \<times> string list" where
  "scan_runs g newest untrusted [] = (newest, untrusted)"
| "scan_runs g newest untrusted (r # rs) =
     (if \<not> isTrustedCheckAppSlug g (run_AppSlug r) then
        scan_runs g newest (if run_AppSlug r \<in> set untrusted then untrusted else untrusted @ [run_AppSlug r]) rs
      else scan_runs g (case newest of None \<Rightarrow> Some r | Some n \<Rightarrow> if run_ID r > run_ID n then Some r else newest) untrusted rs)"

definition FindCheckRunByName :: "gate_github \<Rightarrow> nat \<Rightarrow> string \<Rightarrow> string \<Rightarrow> string + (check_run option \<times> string list)" where
  "FindCheckRunByName g attempt headSHA checkName =
     (if gg_app_slug g = [] \<and> length (gg_trusted g) = 0 then Inl ''check run ownership cannot be verified''
      else bind_result (collect_pages (gg_named_runs g attempt headSHA checkName)) (\<lambda>runs. Inr (scan_runs g None [] runs)))"

subsection \<open>Reviews and teams (github/reviews.go)\<close>

definition ListTeamMembers :: "gate_github \<Rightarrow> string \<Rightarrow> string \<Rightarrow> string + string list" where
  "ListTeamMembers g org slug = collect_pages (gg_members g org slug)"

definition IsTeamMember :: "gate_github \<Rightarrow> string \<Rightarrow> string \<Rightarrow> string \<Rightarrow> string + bool" where
  "IsTeamMember g org slug login = bind_result (ListTeamMembers g org slug) (\<lambda>members. Inr (list_ex (\<lambda>m. equal_fold m login) members))"

text \<open>The map from a user (in lower case) to the state and time of the latest decisive review.\<close>

fun note_review :: "(string \<times> string \<times> int) list \<Rightarrow> ReviewInfo \<Rightarrow> (string \<times> string \<times> int) list" where
  "note_review [] r = [(to_lower (rv_User r), rv_State r, rv_SubmittedAt r)]"
| "note_review ((user, st, at) # rest) r =
     (if user = to_lower (rv_User r) then (if \<not> rv_SubmittedAt r < at then (user, rv_State r, rv_SubmittedAt r) # rest else (user, st, at) # rest)
      else (user, st, at) # note_review rest r)"

fun latest_reviews :: "(string \<times> string \<times> int) list \<Rightarrow> ReviewInfo list \<Rightarrow> (string \<times> string \<times> int) list" where
  "latest_reviews latest [] = latest"
| "latest_reviews latest (r # rs) =
     (if rv_User r = [] then latest_reviews latest rs
      else if equal_fold (rv_State r) ''COMMENTED'' then latest_reviews latest rs
      else latest_reviews (note_review latest r) rs)"

definition GetApprovedReviewers :: "ReviewInfo list \<Rightarrow> string list" where
  "GetApprovedReviewers reviews =
     map fst (filter (\<lambda>(user, st, _). equal_fold st ''APPROVED'') (latest_reviews [] reviews))"

fun owners_from_rules :: "string list \<Rightarrow> codeowner list \<Rightarrow> codeowner list" where
  "owners_from_rules seen [] = []"
| "owners_from_rules seen (o1 # os) =
     (let key = to_lower (ow_String o1) in
      if key \<in> set seen then owners_from_rules seen os else o1 # owners_from_rules (key # seen) os)"

definition OwnersFromRuleset :: "codeowner list list \<Rightarrow> codeowner list" where
  "OwnersFromRuleset ruleset = owners_from_rules [] (concat ruleset)"

definition OwnerName :: "codeowner \<Rightarrow> string" where
  "OwnerName o1 = trim_prefix (ow_String o1) ''@''"

text \<open>\<^verbatim>\<open>strings.SplitN(value, "/", 2)\<close>: what stands before the first slash and what follows it.\<close>

definition TeamParts :: "codeowner \<Rightarrow> string \<times> string" where
  "TeamParts o1 =
     (let v = ow_Value o1 in
      if CHR ''/'' \<in> set v then (takeWhile (\<lambda>ch. ch \<noteq> CHR ''/'') v, drop 1 (dropWhile (\<lambda>ch. ch \<noteq> CHR ''/'') v))
      else (v, []))"

subsection \<open>Principals (webhook/actor\_authorization.go)\<close>

datatype gate_block =
    Check_Status_Error string
  | Checks_Not_Passing "(string \<times> string) list"
  | Checks_Unfinished "(string \<times> string) list" "(string \<times> string) list"
  | Review_Gate_Error string
  | Review_Required "string list" string
  | Unlisted_Environment "string list"
  | Prior_Check_Error string string string
  | Prior_Check_Missing string
  | Prior_Check_Untrusted string "string list"
  | Prior_In_Progress string
  | Prior_Not_Successful string string
  | Authorization_Unavailable
  | Database_Not_Configured
  | Not_Authorized

datatype ActorAuthReason =
    ActorAuthReasonDisabled
  | ActorAuthReasonAllowedAdminTeam
  | ActorAuthReasonAllowedAdminUser
  | ActorAuthReasonAllowedOperatorTeam
  | ActorAuthReasonAllowedOperatorUser
  | ActorAuthReasonMissingActor
  | ActorAuthReasonMissingServerConfig
  | ActorAuthReasonMissingDatabaseConfig
  | ActorAuthReasonNoConfiguredPrincipal
  | ActorAuthReasonNotAuthorized
  | ActorAuthReasonGitHubError

record ActorAuthorizationResult =
  aar_Allowed :: bool
  aar_Reason :: ActorAuthReason
  aar_MatchedPrincipal :: string

definition denied :: "ActorAuthReason \<Rightarrow> ActorAuthorizationResult" where
  "denied reason = \<lparr>aar_Allowed = False, aar_Reason = reason, aar_MatchedPrincipal = []\<rparr>"

definition allowed :: "ActorAuthReason \<Rightarrow> string \<Rightarrow> ActorAuthorizationResult" where
  "allowed reason who = \<lparr>aar_Allowed = True, aar_Reason = reason, aar_MatchedPrincipal = who\<rparr>"

fun actorInAnyTeam :: "gate_github \<Rightarrow> string list \<Rightarrow> string \<Rightarrow> string + string option" where
  "actorInAnyTeam g [] actor = Inr None"
| "actorInAnyTeam g (team # teams) actor =
     (case ParseGitHubTeamPrincipal team of
        Inl _ \<Rightarrow> Inl ''invalid configured GitHub team''
      | Inr (org, slug) \<Rightarrow> (case IsTeamMember g org slug actor of
            Inl e \<Rightarrow> Inl e
          | Inr member \<Rightarrow> if member then Inr (Some team) else actorInAnyTeam g teams actor))"

definition matchedUserPrincipal :: "string list \<Rightarrow> string \<Rightarrow> string option" where
  "matchedUserPrincipal allowedUsers actor = find (\<lambda>user. equal_fold user actor) allowedUsers"

text \<open>A lookup in configured teams; without a client it is an error, and an empty list needs no client.\<close>

definition team_step :: "gate_github option \<Rightarrow> string list \<Rightarrow> string \<Rightarrow> string + string option" where
  "team_step client teams actor =
     (if length teams > 0 then (case client of None \<Rightarrow> Inl ''github client is nil'' | Some g \<Rightarrow> actorInAnyTeam g teams actor) else Inr None)"

definition authorizeConfiguredDatabaseActor :: "gate_github option \<Rightarrow> ServerConfig \<Rightarrow> string \<Rightarrow> string
    \<Rightarrow> ActorAuthorizationResult \<times> string option" where
  "authorizeConfiguredDatabaseActor client config actor database =
     (if trim_space actor = [] then (denied ActorAuthReasonMissingActor, None)
      else case cfg_Database config database of
          None \<Rightarrow> (denied ActorAuthReasonMissingDatabaseConfig, None)
        | Some dc \<Rightarrow>
            (let auth = sv_PRCommandAuthorization config;
                 teamCount = length (pa_AdminTeams auth) + length (dc_OperatorTeams dc);
                 principalCount = teamCount + length (pa_AdminUsers auth) + length (dc_OperatorUsers dc) in
             if principalCount = 0 then (denied ActorAuthReasonNoConfiguredPrincipal, None)
             else case team_step client (pa_AdminTeams auth) actor of
                 Inl e \<Rightarrow> (denied ActorAuthReasonGitHubError, Some e)
               | Inr (Some who) \<Rightarrow> (allowed ActorAuthReasonAllowedAdminTeam who, None)
               | Inr None \<Rightarrow> (case matchedUserPrincipal (pa_AdminUsers auth) actor of
                     Some who \<Rightarrow> (allowed ActorAuthReasonAllowedAdminUser who, None)
                   | None \<Rightarrow> (case team_step client (dc_OperatorTeams dc) actor of
                         Inl e \<Rightarrow> (denied ActorAuthReasonGitHubError, Some e)
                       | Inr (Some who) \<Rightarrow> (allowed ActorAuthReasonAllowedOperatorTeam who, None)
                       | Inr None \<Rightarrow> (case matchedUserPrincipal (dc_OperatorUsers dc) actor of
                             Some who \<Rightarrow> (allowed ActorAuthReasonAllowedOperatorUser who, None)
                           | None \<Rightarrow> (denied ActorAuthReasonNotAuthorized, None))))))"

definition authorizePRCommandActor :: "gate_github option \<Rightarrow> ServerConfig \<Rightarrow> string \<Rightarrow> string \<Rightarrow> ActorAuthorizationResult \<times> string option" where
  "authorizePRCommandActor client config actor database =
     (if \<not> PRCommandAuthorizationEnabled (Some config) then (allowed ActorAuthReasonDisabled [], None)
      else if trim_space actor = [] then (denied ActorAuthReasonMissingActor, None)
      else authorizeConfiguredDatabaseActor client config actor database)"

definition enforcePRCommandActorAuthorization :: "gate_github option \<Rightarrow> ServerConfig \<Rightarrow> string \<Rightarrow> string \<Rightarrow> gate_block option" where
  "enforcePRCommandActorAuthorization client config requestedBy database =
     (case authorizePRCommandActor client config requestedBy database of
        (_, Some e) \<Rightarrow> Some Authorization_Unavailable
      | (result, None) \<Rightarrow>
          if \<not> aar_Allowed result then
            (if aar_Reason result = ActorAuthReasonMissingDatabaseConfig then Some Database_Not_Configured else Some Not_Authorized)
          else None)"

subsection \<open>The review gate (webhook/review\_gate.go)\<close>

record reviewGatePolicy =
  rgp_AdminTeams :: "string list"
  rgp_AdminUsers :: "string list"
  rgp_OperatorTeams :: "string list"
  rgp_OperatorUsers :: "string list"
  rgp_CodeownerReviewers :: "string list"
  rgp_RequiredReviewers :: "string list"

definition appendUniqueString :: "string list \<Rightarrow> string \<Rightarrow> string list" where
  "appendUniqueString values value0 = (if list_ex (\<lambda>existing. equal_fold existing value0) values then values else values @ [value0])"

definition add_required :: "reviewGatePolicy \<Rightarrow> string list \<Rightarrow> reviewGatePolicy" where
  "add_required p names = p\<lparr>rgp_RequiredReviewers := foldl appendUniqueString (rgp_RequiredReviewers p) names\<rparr>"

definition team_first :: "gate_github \<Rightarrow> string list \<Rightarrow> string \<Rightarrow> string + string option" where
  "team_first g teams reviewer = (if length teams > 0 then actorInAnyTeam g teams reviewer else Inr None)"

definition policy_Matches :: "gate_github \<Rightarrow> reviewGatePolicy \<Rightarrow> string \<Rightarrow> string + string option" where
  "policy_Matches g p reviewer =
     bind_result (team_first g (rgp_AdminTeams p) reviewer) (\<lambda>t1.
       if t1 \<noteq> None then Inr t1
       else if matchedUserPrincipal (rgp_AdminUsers p) reviewer \<noteq> None then Inr (matchedUserPrincipal (rgp_AdminUsers p) reviewer)
       else bind_result (team_first g (rgp_OperatorTeams p) reviewer) (\<lambda>t2.
         if t2 \<noteq> None then Inr t2
         else if matchedUserPrincipal (rgp_OperatorUsers p) reviewer \<noteq> None then Inr (matchedUserPrincipal (rgp_OperatorUsers p) reviewer)
         else if to_lower reviewer \<in> set (rgp_CodeownerReviewers p) then Inr (Some ''CODEOWNERS'')
         else Inr None))"

definition matchReviewGateCodeowners :: "gate_github \<Rightarrow> string \<Rightarrow> string \<Rightarrow> string + codeowner list" where
  "matchReviewGateCodeowners g baseRef schemaPath =
     bind_result (gg_ruleset g baseRef) (\<lambda>r. case r of
        None \<Rightarrow> Inr []
      | Some ruleset \<Rightarrow>
          bind_result
            (if schemaPath \<noteq> [] then
               gg_match_rules g ruleset ((if has_suffix schemaPath ''/'' then butlast schemaPath else schemaPath) @ ''/.schema'')
             else Inr None)
            (\<lambda>owners. Inr (case owners of None \<Rightarrow> OwnersFromRuleset ruleset | Some os \<Rightarrow> os)))"

fun expand_codeowners :: "gate_github \<Rightarrow> codeowner list \<Rightarrow> string + string list" where
  "expand_codeowners g [] = Inr []"
| "expand_codeowners g (o1 # os) =
     bind_result (if ow_IsTeam o1 then (case TeamParts o1 of (org, slug) \<Rightarrow> bind_result (ListTeamMembers g org slug) (\<lambda>ms. Inr (map to_lower ms)))
                  else Inr [to_lower (ow_Value o1)])
       (\<lambda>names. bind_result (expand_codeowners g os) (\<lambda>rest. Inr (names @ rest)))"

definition loadReviewGatePolicy :: "gate_github \<Rightarrow> ServerConfig \<Rightarrow> string \<Rightarrow> string \<Rightarrow> string \<Rightarrow> string + reviewGatePolicy" where
  "loadReviewGatePolicy g config baseRef database schemaPath =
     (let rp = sv_ReviewPolicy config;
          p0 = add_required \<lparr>rgp_AdminTeams = rp_AdminTeams rp, rgp_AdminUsers = rp_AdminUsers rp, rgp_OperatorTeams = [], rgp_OperatorUsers = [],
                 rgp_CodeownerReviewers = [], rgp_RequiredReviewers = []\<rparr> (rp_AdminTeams rp @ rp_AdminUsers rp) in
      bind_result
        (if ReviewPolicyIncludesDatabaseOperators (Some config) then
           (case cfg_Database config database of
              None \<Rightarrow> Inl ''database is not configured for review policy''
            | Some dc \<Rightarrow> Inr (add_required (p0\<lparr>rgp_OperatorTeams := dc_OperatorTeams dc, rgp_OperatorUsers := dc_OperatorUsers dc\<rparr>)
                (dc_OperatorTeams dc @ dc_OperatorUsers dc)))
         else Inr p0)
        (\<lambda>p1. if rp_IncludeCodeowners rp then
             bind_result (matchReviewGateCodeowners g baseRef schemaPath) (\<lambda>owners.
               bind_result (expand_codeowners g owners) (\<lambda>names.
                 Inr (add_required (p1\<lparr>rgp_CodeownerReviewers := names\<rparr>) (map OwnerName owners))))
           else Inr p1))"

fun first_match :: "gate_github \<Rightarrow> reviewGatePolicy \<Rightarrow> string list \<Rightarrow> string + bool" where
  "first_match g p [] = Inr False"
| "first_match g p (reviewer # reviewers) =
     bind_result (policy_Matches g p reviewer) (\<lambda>m. if m \<noteq> None then Inr True else first_match g p reviewers)"

record ReviewGateResult =
  rgr_Approved :: bool
  rgr_RequiredReviewers :: "string list"
  rgr_PRAuthor :: string

definition checkReviewGate :: "gate_github \<Rightarrow> ServerConfig \<Rightarrow> string \<Rightarrow> string \<Rightarrow> string + ReviewGateResult option" where
  "checkReviewGate g config database schemaPath =
     (if \<not> ReviewPolicyEnabled (Some config) then Inr None
      else bind_result (gg_pull_request g) (\<lambda>prInfo.
        bind_result (collect_pages (gg_reviews g)) (\<lambda>reviews.
        bind_result (loadReviewGatePolicy g config (pr_BaseRef prInfo) database schemaPath) (\<lambda>policy.
          if length (rgp_RequiredReviewers policy) = 0 then Inl ''review policy has no configured reviewers''
          else
            let validApprovers = filter (\<lambda>reviewer. \<not> equal_fold reviewer (pr_User prInfo)) (GetApprovedReviewers reviews) in
            bind_result (first_match g policy validApprovers) (\<lambda>matched.
              Inr (Some \<lparr>rgr_Approved = matched, rgr_RequiredReviewers = rgp_RequiredReviewers policy, rgr_PRAuthor = pr_User prInfo\<rparr>))))))"

definition enforceReviewGate :: "gate_github \<Rightarrow> ServerConfig \<Rightarrow> string \<Rightarrow> string \<Rightarrow> gate_block option" where
  "enforceReviewGate g config database schemaPath =
     (case checkReviewGate g config database schemaPath of
        Inl e \<Rightarrow> Some (Review_Gate_Error e)
      | Inr None \<Rightarrow> None
      | Inr (Some r) \<Rightarrow> if \<not> rgr_Approved r then Some (Review_Required (rgr_RequiredReviewers r) (rgr_PRAuthor r)) else None)"

subsection \<open>Passing checks (webhook/apply\_gating.go)\<close>

definition isPassingCheckConclusion :: "string \<Rightarrow> bool" where
  "isPassingCheckConclusion conclusion \<longleftrightarrow> conclusion \<in> {''success'', ''neutral'', ''skipped''}"

definition statusesContainRequiredCheck :: "PRCheckStatus list \<Rightarrow> ServerConfig \<Rightarrow> bool" where
  "statusesContainRequiredCheck statuses config =
     (if length (sv_RequiredChecks config) = 0 then False
      else list_ex (\<lambda>s. \<not> pcs_IsSchemaBot s \<and> IsCheckRequired (Some config) (pcs_Name s)) statuses)"

definition gated_checks :: "PRCheckStatus list \<Rightarrow> ServerConfig \<Rightarrow> PRCheckStatus list" where
  "gated_checks statuses config =
     (let filterRequiredChecks = statusesContainRequiredCheck statuses config in
      filter (\<lambda>s. \<not> pcs_IsSchemaBot s \<and> \<not> (filterRequiredChecks \<and> \<not> IsCheckRequired (Some config) (pcs_Name s))) statuses)"

definition filterNonPassingNonSchemaBotChecks :: "PRCheckStatus list \<Rightarrow> ServerConfig \<Rightarrow> (string \<times> string) list" where
  "filterNonPassingNonSchemaBotChecks statuses config =
     map (\<lambda>s. (pcs_Name s, pcs_Conclusion s))
       (filter (\<lambda>s. pcs_Status s = ''completed'' \<and> \<not> isPassingCheckConclusion (pcs_Conclusion s)) (gated_checks statuses config))"

definition filterInProgressNonSchemaBotChecks :: "PRCheckStatus list \<Rightarrow> ServerConfig \<Rightarrow> (string \<times> string) list" where
  "filterInProgressNonSchemaBotChecks statuses config =
     map (\<lambda>s. (pcs_Name s, pcs_Status s))
       (filter (\<lambda>s. pcs_Status s \<in> {''in_progress'', ''queued'', ''pending''}) (gated_checks statuses config))"

definition missingRequiredChecks :: "PRCheckStatus list \<Rightarrow> ServerConfig \<Rightarrow> (string \<times> string) list" where
  "missingRequiredChecks statuses config =
     map (\<lambda>name. (name, ''not reported'')) (filter (\<lambda>name. name \<notin> set (map pcs_Name statuses)) (sv_RequiredChecks config))"

definition enforcePassingChecks :: "gate_github \<Rightarrow> ServerConfig \<Rightarrow> string \<Rightarrow> gate_block option" where
  "enforcePassingChecks g config headSHA =
     (if \<not> ShouldRequirePassingChecks (Some config) then None
      else case GetPRCheckStatuses g headSHA (sv_RequiredChecks config) of
          Inl e \<Rightarrow> Some (Check_Status_Error e)
        | Inr statuses \<Rightarrow>
            (let notPassing = filterNonPassingNonSchemaBotChecks statuses config;
                 inProgress = filterInProgressNonSchemaBotChecks statuses config;
                 notReported = missingRequiredChecks statuses config in
             if length notPassing > 0 then Some (Checks_Not_Passing notPassing)
             else if length inProgress > 0 \<or> length notReported > 0 then Some (Checks_Unfinished inProgress notReported)
             else None))"

subsection \<open>Prior environments (webhook/check\_prior\_env.go)\<close>

text \<open>What the gate reads while it waits: per prior environment and attempt the stored check, per attempt whether the wait ends the context.\<close>

record prior_reads =
  pe_MaxAttempts :: int
  pe_client :: "string \<Rightarrow> string option"
  pe_stored :: "string \<Rightarrow> nat \<Rightarrow> string + Check option"
  pe_wait :: "string \<Rightarrow> nat \<Rightarrow> string option"

definition checkStatusQueued :: string where "checkStatusQueued = ''queued''"

definition defaultPriorEnvCheckMaxAttempts :: int where "defaultPriorEnvCheckMaxAttempts = 4"

definition priorEnvCheckMaxAttemptCount :: "prior_reads \<Rightarrow> nat" where
  "priorEnvCheckMaxAttemptCount h = nat (if pe_MaxAttempts h \<le> 0 then defaultPriorEnvCheckMaxAttempts else pe_MaxAttempts h)"

text \<open>The retry loops: read, stop when the value is ready or the last attempt is made, otherwise wait. \<open>left\<close> counts the attempts still to make.\<close>

fun poll :: "(nat \<Rightarrow> string + 'a) \<Rightarrow> (nat \<Rightarrow> string option) \<Rightarrow> ('a \<Rightarrow> bool) \<Rightarrow> 'a \<Rightarrow> nat \<Rightarrow> nat \<Rightarrow> string + 'a" where
  "poll read wait retry none attempt 0 = Inr none"
| "poll read wait retry none attempt (Suc left) =
     (case read attempt of
        Inl e \<Rightarrow> Inl e
      | Inr v \<Rightarrow> if \<not> retry v \<or> left = 0 then Inr v
          else case wait attempt of Some e \<Rightarrow> Inl e | None \<Rightarrow> poll read wait retry none (Suc attempt) left)"

definition shouldRetryStoredPriorEnvCheck :: "Check option \<Rightarrow> bool" where
  "shouldRetryStoredPriorEnvCheck check = (case check of None \<Rightarrow> True | Some c \<Rightarrow> chk_Status c = checkStatusInProgress)"

definition waitForLocalPriorEnvCheck :: "prior_reads \<Rightarrow> string \<Rightarrow> string + Check option" where
  "waitForLocalPriorEnvCheck h priorEnv =
     poll (pe_stored h priorEnv) (pe_wait h priorEnv) shouldRetryStoredPriorEnvCheck None 1 (priorEnvCheckMaxAttemptCount h)"

definition checkPriorEnvViaLocal :: "prior_reads \<Rightarrow> string \<Rightarrow> gate_block option" where
  "checkPriorEnvViaLocal h priorEnv =
     (case waitForLocalPriorEnvCheck h priorEnv of
        Inl e \<Rightarrow> Some (Prior_Check_Error priorEnv ''read SchemaBot storage'' e)
      | Inr None \<Rightarrow> Some (Prior_Check_Missing priorEnv)
      | Inr (Some check) \<Rightarrow>
          if chk_Conclusion check = checkConclusionSuccess then None
          else if chk_Status check = checkStatusInProgress then Some (Prior_In_Progress priorEnv)
          else Some (Prior_Not_Successful priorEnv (if chk_Conclusion check = checkConclusionFailure then ''failed'' else ''has pending changes'')))"

definition shouldRetryGitHubPriorEnvCheck :: "check_run option \<times> string list \<Rightarrow> bool" where
  "shouldRetryGitHubPriorEnvCheck = (\<lambda>(check, _). case check of None \<Rightarrow> True
     | Some c \<Rightarrow> run_Status c = checkStatusQueued \<or> run_Status c = checkStatusInProgress)"

definition waitForGitHubPriorEnvCheck :: "gate_github \<Rightarrow> prior_reads \<Rightarrow> string \<Rightarrow> string \<Rightarrow> string \<Rightarrow> string + (check_run option \<times> string list)" where
  "waitForGitHubPriorEnvCheck g h priorEnv headSHA checkName =
     poll (\<lambda>attempt. FindCheckRunByName g attempt headSHA checkName) (pe_wait h priorEnv) shouldRetryGitHubPriorEnvCheck (None, []) 1
       (priorEnvCheckMaxAttemptCount h)"

definition checkPriorEnvViaGitHub :: "gate_github \<Rightarrow> prior_reads \<Rightarrow> string \<Rightarrow> string \<Rightarrow> gate_block option" where
  "checkPriorEnvViaGitHub g h aggregateBase priorEnv =
     (case pe_client h priorEnv of
        Some e \<Rightarrow> Some (Prior_Check_Error priorEnv ''create GitHub client'' e)
      | None \<Rightarrow> (case gg_pull_request g of
          Inl e \<Rightarrow> Some (Prior_Check_Error priorEnv ''fetch PR details'' e)
        | Inr prInfo \<Rightarrow>
            (let checkName = aggregateCheckNameForEnv aggregateBase priorEnv in
             case waitForGitHubPriorEnvCheck g h priorEnv (pr_HeadSHA prInfo) checkName of
               Inl e \<Rightarrow> Some (Prior_Check_Error priorEnv ''query check runs'' e)
             | Inr (None, untrustedApps) \<Rightarrow>
                 if length untrustedApps > 0 then Some (Prior_Check_Untrusted priorEnv untrustedApps) else Some (Prior_Check_Missing priorEnv)
             | Inr (Some check, _) \<Rightarrow>
                 if run_Status check = checkStatusCompleted \<and> run_Conclusion check = checkConclusionSuccess then None
                 else if run_Status check = checkStatusInProgress \<or> run_Status check = checkStatusQueued then Some (Prior_In_Progress priorEnv)
                 else Some (Prior_Not_Successful priorEnv
                   (if run_Conclusion check = checkConclusionFailure then ''failed'' else ''has pending changes'')))))"

definition scopedTargetMissingFromPromotionOrder :: "ServerConfig \<Rightarrow> string \<Rightarrow> bool" where
  "scopedTargetMissingFromPromotionOrder config environment =
     (if length (sv_AllowedEnvironments config) = 0 then False else environment \<notin> set (PromotionEnvironmentOrder (Some config)))"

definition promotionGateEnvironments :: "ServerConfig \<Rightarrow> string \<Rightarrow> string list \<Rightarrow> string list" where
  "promotionGateEnvironments config environment environments =
     (if length (sv_AllowedEnvironments config) > 0 \<and> environment \<in> set (PromotionEnvironmentOrder (Some config))
      then PromotionEnvironmentOrder (Some config)
      else OrderedEnvironments (Some config) environments)"

text \<open>The environments before the target; none when the target is not in the list.\<close>

definition prior_environments :: "string \<Rightarrow> string list \<Rightarrow> string list" where
  "prior_environments environment environments = (if environment \<in> set environments then takeWhile (\<lambda>env. env \<noteq> environment) environments else [])"

definition checkPriorEnvironments :: "gate_github \<Rightarrow> prior_reads \<Rightarrow> ServerConfig \<Rightarrow> string \<Rightarrow> string \<Rightarrow> string list \<Rightarrow> gate_block option" where
  "checkPriorEnvironments g h config aggregateBase environment environments0 =
     (if scopedTargetMissingFromPromotionOrder config environment then Some (Unlisted_Environment (PromotionEnvironmentOrder (Some config)))
      else
        let environments = promotionGateEnvironments config environment environments0 in
        first_err (map (\<lambda>priorEnv. if IsEnvironmentAllowed (Some config) priorEnv then checkPriorEnvViaLocal h priorEnv
            else checkPriorEnvViaGitHub g h aggregateBase priorEnv) (prior_environments environment environments)))"

subsection \<open>What a passed gate means\<close>

lemma bind_unit: "bind_result r Inr = r"
  by (cases r) auto

text \<open>A value a poll returns was read at one of the attempts, and none is made beyond the limit.\<close>

lemma poll_read:
  assumes "poll read wait retry none attempt left = Inr v" "left > 0"
  shows "\<exists>k. attempt \<le> k \<and> k < attempt + left \<and> read k = Inr v \<and> (\<not> retry v \<or> Suc k = attempt + left)"
  using assms
proof (induction left arbitrary: attempt)
  case (Suc left)
  from Suc.prems obtain w where w: "read attempt = Inr w" by (auto split: sum.splits)
  show ?case
  proof (cases "\<not> retry w \<or> left = 0")
    case True
    with Suc.prems w show ?thesis by (auto intro!: exI [of _ attempt])
  next
    case False
    with Suc.prems w have "poll read wait retry none (Suc attempt) left = Inr v" by (auto split: option.splits)
    from Suc.IH [OF this] False obtain k where "Suc attempt \<le> k" "k < Suc attempt + left" "read k = Inr v" "\<not> retry v \<or> Suc k = Suc attempt + left" by auto
    then show ?thesis by (intro exI [of _ k]) auto
  qed
qed simp

text \<open>The bounded wait asks no more: what would be read after the last attempt has no influence on the gate.\<close>

lemma poll_cong:
  "(\<And>k. attempt \<le> k \<Longrightarrow> k < attempt + left \<Longrightarrow> read k = read' k \<and> wait k = wait' k) \<Longrightarrow>
     poll read wait retry none attempt left = poll read' wait' retry none attempt left"
proof (induction left arbitrary: attempt)
  case (Suc left)
  have "read attempt = read' attempt" "wait attempt = wait' attempt" using Suc.prems [of attempt] by auto
  moreover have "poll read wait retry none (Suc attempt) left = poll read' wait' retry none (Suc attempt) left"
    using Suc.prems by (intro Suc.IH) auto
  ultimately show ?case by (auto split: sum.splits option.splits)
qed simp

lemma attempts_positive: "priorEnvCheckMaxAttemptCount h > 0"
  by (simp add: priorEnvCheckMaxAttemptCount_def defaultPriorEnvCheckMaxAttempts_def)

lemma scan_runs_newest:
  assumes "scan_runs g newest untrusted runs = (Some r, us)"
  shows "r \<in> set runs \<and> isTrustedCheckAppSlug g (run_AppSlug r) \<or> newest = Some r"
  using assms by (induction g newest untrusted runs rule: scan_runs.induct) (auto split: if_splits option.splits)

lemma FindCheckRunByName_trusted:
  assumes "FindCheckRunByName g attempt sha name = Inr (Some r, us)"
  shows "\<exists>runs. collect_pages (gg_named_runs g attempt sha name) = Inr runs \<and> r \<in> set runs \<and> isTrustedCheckAppSlug g (run_AppSlug r)"
proof -
  from assms obtain runs where "collect_pages (gg_named_runs g attempt sha name) = Inr runs" "scan_runs g None [] runs = (Some r, us)"
    by (auto simp: FindCheckRunByName_def bind_result_Inr_iff split: if_splits)
  then show ?thesis using scan_runs_newest [of g None "[]" runs r us] by auto
qed

text \<open>
  A prior environment is done when this instance stores a successful check for it, or - where another instance owns it - when a trusted App
  has published a completed, successful aggregate run for the head commit.
\<close>

definition stored_success :: "prior_reads \<Rightarrow> string \<Rightarrow> bool" where
  "stored_success h env \<longleftrightarrow> (\<exists>k \<in> {1..priorEnvCheckMaxAttemptCount h}. \<exists>c. pe_stored h env k = Inr (Some c) \<and> chk_Conclusion c = checkConclusionSuccess)"

definition published_success :: "gate_github \<Rightarrow> prior_reads \<Rightarrow> string \<Rightarrow> string \<Rightarrow> bool" where
  "published_success g h base env \<longleftrightarrow> (\<exists>prInfo runs r. \<exists>k \<in> {1..priorEnvCheckMaxAttemptCount h}.
     gg_pull_request g = Inr prInfo \<and> collect_pages (gg_named_runs g k (pr_HeadSHA prInfo) (aggregateCheckNameForEnv base env)) = Inr runs
     \<and> r \<in> set runs \<and> isTrustedCheckAppSlug g (run_AppSlug r) \<and> run_Status r = checkStatusCompleted \<and> run_Conclusion r = checkConclusionSuccess)"

lemma local_gate_sound: "checkPriorEnvViaLocal h env = None \<Longrightarrow> stored_success h env"
proof -
  assume "checkPriorEnvViaLocal h env = None"
  then obtain c where poll: "waitForLocalPriorEnvCheck h env = Inr (Some c)" and ok: "chk_Conclusion c = checkConclusionSuccess"
    by (auto simp: checkPriorEnvViaLocal_def split: sum.splits option.splits if_splits)
  from poll_read [OF poll [unfolded waitForLocalPriorEnvCheck_def] attempts_positive]
  obtain k where "k \<in> {1..priorEnvCheckMaxAttemptCount h}" "pe_stored h env k = Inr (Some c)" by (auto simp: less_Suc_eq_le)
  with ok show ?thesis unfolding stored_success_def by blast
qed

lemma github_gate_sound: "checkPriorEnvViaGitHub g h base env = None \<Longrightarrow> published_success g h base env"
proof -
  assume "checkPriorEnvViaGitHub g h base env = None"
  then obtain prInfo r us where p: "gg_pull_request g = Inr prInfo"
    and poll: "waitForGitHubPriorEnvCheck g h env (pr_HeadSHA prInfo) (aggregateCheckNameForEnv base env) = Inr (Some r, us)"
    and ok: "run_Status r = checkStatusCompleted" "run_Conclusion r = checkConclusionSuccess"
    by (auto simp: checkPriorEnvViaGitHub_def Let_def split: sum.splits option.splits if_splits prod.splits)
  from poll_read [OF poll [unfolded waitForGitHubPriorEnvCheck_def] attempts_positive]
  obtain k where k: "k \<in> {1..priorEnvCheckMaxAttemptCount h}"
    and found: "FindCheckRunByName g k (pr_HeadSHA prInfo) (aggregateCheckNameForEnv base env) = Inr (Some r, us)" by (auto simp: less_Suc_eq_le)
  from FindCheckRunByName_trusted [OF found] p k ok show ?thesis unfolding published_success_def by blast
qed

text \<open>
  Environments are promoted in order (C13): when the gate lets an apply through, every environment before the target in the promotion
  order has been applied - its own stored check succeeded, or, for an environment of another instance, a trusted App published a
  successful aggregate run for this head commit.
\<close>

theorem promotion_gate_sound:
  assumes "checkPriorEnvironments g h config base environment environments = None"
    and "promotionGateEnvironments config environment environments = earlier @ environment # later" "environment \<notin> set earlier"
  shows "\<forall>prior \<in> set earlier. if IsEnvironmentAllowed (Some config) prior then stored_success h prior else published_success g h base prior"
proof
  fix prior assume prior: "prior \<in> set earlier"
  have "takeWhile (\<lambda>env. env \<noteq> environment) (earlier @ environment # later) = earlier"
    using assms(3) by (subst takeWhile_append2) auto
  then have "prior_environments environment (promotionGateEnvironments config environment environments) = earlier"
    unfolding prior_environments_def assms(2) by simp
  with assms(1) have "\<forall>p \<in> set earlier. (if IsEnvironmentAllowed (Some config) p then checkPriorEnvViaLocal h p else checkPriorEnvViaGitHub g h base p) = None"
    by (auto simp: checkPriorEnvironments_def Let_def split: if_splits)
  with prior show "if IsEnvironmentAllowed (Some config) prior then stored_success h prior else published_success g h base prior"
    using local_gate_sound github_gate_sound by (auto split: if_splits)
qed

subsection \<open>Principals: what a match means\<close>

definition in_team :: "gate_github \<Rightarrow> string \<Rightarrow> string \<Rightarrow> bool" where
  "in_team g actor team \<longleftrightarrow> (\<exists>org slug members. team = org @ ''/'' @ slug \<and> ListTeamMembers g org slug = Inr members
     \<and> (\<exists>m \<in> set members. equal_fold m actor))"

lemma IsTeamMember_in_team:
  "IsTeamMember g org slug actor = Inr True \<Longrightarrow> ParseGitHubTeamPrincipal team = Inr (org, slug) \<Longrightarrow> in_team g actor team"
proof -
  assume m: "IsTeamMember g org slug actor = Inr True" and p: "ParseGitHubTeamPrincipal team = Inr (org, slug)"
  from m obtain members where "ListTeamMembers g org slug = Inr members" "\<exists>m \<in> set members. equal_fold m actor"
    by (auto simp: IsTeamMember_def bind_result_Inr_iff list_ex_iff)
  with team_principal_roundtrip [OF p] show ?thesis unfolding in_team_def by blast
qed

lemma actorInAnyTeam_member: "actorInAnyTeam g teams actor = Inr (Some team) \<Longrightarrow> team \<in> set teams \<and> in_team g actor team"
proof (induction teams)
  case (Cons t teams)
  from Cons.prems obtain org slug where p: "ParseGitHubTeamPrincipal t = Inr (org, slug)" by (auto split: sum.splits)
  with Cons.prems obtain member where m: "IsTeamMember g org slug actor = Inr member" by (auto split: sum.splits)
  show ?case
  proof (cases member)
    case True
    with Cons.prems p m have "team = t" by simp
    moreover have "in_team g actor t" using m True IsTeamMember_in_team [OF _ p] by simp
    ultimately show ?thesis by simp
  next
    case False
    with Cons p m show ?thesis by simp
  qed
qed simp

lemma matchedUserPrincipal_member: "matchedUserPrincipal users actor = Some user \<Longrightarrow> user \<in> set users \<and> equal_fold user actor"
  by (auto simp: matchedUserPrincipal_def find_Some_iff)

lemma team_step_member: "team_step client teams actor = Inr (Some team) \<Longrightarrow> \<exists>g. client = Some g \<and> team \<in> set teams \<and> in_team g actor team"
  using actorInAnyTeam_member by (auto simp: team_step_def split: if_splits option.splits)

text \<open>
  Only a configured principal gets through: with authorisation enabled, a command that is not blocked was given by a named user
  who is, for this database, an admin or an operator - by name, or as a member GitHub lists for a configured team.
\<close>

theorem authorized_actor_is_principal:
  assumes "enforcePRCommandActorAuthorization client config actor database = None" "PRCommandAuthorizationEnabled (Some config)"
  shows "\<exists>dc. cfg_Database config database = Some dc \<and> trim_space actor \<noteq> []
    \<and> ((\<exists>user \<in> set (pa_AdminUsers (sv_PRCommandAuthorization config)) \<union> set (dc_OperatorUsers dc). equal_fold user actor)
      \<or> (\<exists>team \<in> set (pa_AdminTeams (sv_PRCommandAuthorization config)) \<union> set (dc_OperatorTeams dc). \<exists>g. client = Some g \<and> in_team g actor team))"
proof -
  let ?auth = "sv_PRCommandAuthorization config"
  obtain result where "authorizePRCommandActor client config actor database = (result, None)" and ok: "aar_Allowed result"
    using assms(1) by (auto simp: enforcePRCommandActorAuthorization_def split: prod.splits option.splits if_splits)
  with assms(2) have auth: "authorizeConfiguredDatabaseActor client config actor database = (result, None)" and named: "trim_space actor \<noteq> []"
    by (auto simp: authorizePRCommandActor_def denied_def split: if_splits)
  from auth ok named obtain dc where dc: "cfg_Database config database = Some dc"
    by (auto simp: authorizeConfiguredDatabaseActor_def denied_def split: option.splits)
  with auth ok named consider team where "team_step client (pa_AdminTeams ?auth) actor = Inr (Some team)"
    | user where "matchedUserPrincipal (pa_AdminUsers ?auth) actor = Some user"
    | team where "team_step client (dc_OperatorTeams dc) actor = Inr (Some team)"
    | user where "matchedUserPrincipal (dc_OperatorUsers dc) actor = Some user"
    by (auto simp: authorizeConfiguredDatabaseActor_def denied_def Let_def split: sum.splits option.splits if_splits)
  then show ?thesis using dc named by cases (auto dest!: team_step_member matchedUserPrincipal_member)
qed

subsection \<open>Reviews: what an approval means\<close>

definition decisive :: "ReviewInfo \<Rightarrow> bool" where
  "decisive r \<longleftrightarrow> rv_User r \<noteq> [] \<and> \<not> equal_fold (rv_State r) ''COMMENTED''"

text \<open>The latest decisive review of a user: none after it is as late, none before it is later.\<close>

definition latest_decisive :: "ReviewInfo list \<Rightarrow> string \<Rightarrow> ReviewInfo \<Rightarrow> bool" where
  "latest_decisive reviews user r \<longleftrightarrow> (\<exists>before after. reviews = before @ r # after \<and> decisive r \<and> to_lower (rv_User r) = user
     \<and> (\<forall>r' \<in> set before. decisive r' \<and> to_lower (rv_User r') = user \<longrightarrow> rv_SubmittedAt r' \<le> rv_SubmittedAt r)
     \<and> (\<forall>r' \<in> set after. decisive r' \<and> to_lower (rv_User r') = user \<longrightarrow> rv_SubmittedAt r' < rv_SubmittedAt r))"

lemma latest_reviews_snoc:
  "latest_reviews latest (rs @ [r]) = (if decisive r then note_review (latest_reviews latest rs) r else latest_reviews latest rs)"
  by (induction latest rs rule: latest_reviews.induct) (auto simp: decisive_def)

lemma note_review_keys: "fst ` set (note_review latest r) = insert (to_lower (rv_User r)) (fst ` set latest)"
  by (induction latest r rule: note_review.induct) auto

lemma note_review_distinct: "distinct (map fst latest) \<Longrightarrow> distinct (map fst (note_review latest r))"
proof (induction latest r rule: note_review.induct)
  case (2 user st at rest r)
  then show ?case using note_review_keys [of rest r] by (auto simp flip: set_map)
qed simp

lemma map_of_note_review:
  "map_of (note_review latest r) u =
     (if u = to_lower (rv_User r)
      then (case map_of latest u of None \<Rightarrow> Some (rv_State r, rv_SubmittedAt r)
            | Some (st, at) \<Rightarrow> if \<not> rv_SubmittedAt r < at then Some (rv_State r, rv_SubmittedAt r) else Some (st, at))
      else map_of latest u)"
  by (induction latest r rule: note_review.induct) auto

lemma latest_reviews_distinct: "distinct (map fst (latest_reviews [] reviews))"
proof (induction reviews rule: rev_induct)
  case (snoc r rs)
  then show ?case by (simp add: latest_reviews_snoc note_review_distinct)
qed simp

lemma latest_reviews_None: "map_of (latest_reviews [] reviews) u = None \<longleftrightarrow> (\<forall>r \<in> set reviews. \<not> (decisive r \<and> to_lower (rv_User r) = u))"
  by (induction reviews rule: rev_induct) (auto simp: latest_reviews_snoc map_of_note_review split: option.splits)

lemma latest_decisive_snoc:
  "latest_decisive rs u x \<Longrightarrow> (decisive r \<and> to_lower (rv_User r) = u \<longrightarrow> rv_SubmittedAt r < rv_SubmittedAt x) \<Longrightarrow> latest_decisive (rs @ [r]) u x"
proof -
  assume "latest_decisive rs u x" and newer: "decisive r \<and> to_lower (rv_User r) = u \<longrightarrow> rv_SubmittedAt r < rv_SubmittedAt x"
  then obtain before after where split: "rs = before @ x # after" and x: "decisive x" "to_lower (rv_User x) = u"
      "\<forall>r' \<in> set before. decisive r' \<and> to_lower (rv_User r') = u \<longrightarrow> rv_SubmittedAt r' \<le> rv_SubmittedAt x"
      "\<forall>r' \<in> set after. decisive r' \<and> to_lower (rv_User r') = u \<longrightarrow> rv_SubmittedAt r' < rv_SubmittedAt x"
    unfolding latest_decisive_def by blast
  show ?thesis unfolding latest_decisive_def
    by (intro exI [of _ before] exI [of _ "after @ [r]"]) (use split x newer in simp)
qed

lemma latest_decisive_max:
  "latest_decisive rs u x \<Longrightarrow> r' \<in> set rs \<Longrightarrow> decisive r' \<Longrightarrow> to_lower (rv_User r') = u \<Longrightarrow> rv_SubmittedAt r' \<le> rv_SubmittedAt x"
  unfolding latest_decisive_def by (fastforce intro: less_imp_le)

lemma latest_decisive_last:
  assumes "decisive r" "\<And>r'. r' \<in> set rs \<Longrightarrow> decisive r' \<Longrightarrow> to_lower (rv_User r') = to_lower (rv_User r) \<Longrightarrow> rv_SubmittedAt r' \<le> rv_SubmittedAt r"
  shows "latest_decisive (rs @ [r]) (to_lower (rv_User r)) r"
  unfolding latest_decisive_def using assms by (intro exI [of _ rs] exI [of _ "[]"]) auto

lemma latest_reviews_spec:
  "map_of (latest_reviews [] reviews) u = Some (st, at) \<Longrightarrow> \<exists>r. latest_decisive reviews u r \<and> rv_State r = st \<and> rv_SubmittedAt r = at"
proof (induction reviews arbitrary: st at rule: rev_induct)
  case (snoc r rs)
  let ?old = "map_of (latest_reviews [] rs) u"
  show ?case
  proof (cases "decisive r \<and> to_lower (rv_User r) = u")
    case False
    then have "?old = Some (st, at)" using snoc.prems by (auto simp: latest_reviews_snoc map_of_note_review split: if_splits)
    from snoc.IH [OF this] False show ?thesis using latest_decisive_snoc by blast
  next
    case True
    show ?thesis
    proof (cases ?old)
      case None
      then have "\<forall>r' \<in> set rs. \<not> (decisive r' \<and> to_lower (rv_User r') = u)" by (simp add: latest_reviews_None)
      then have "latest_decisive (rs @ [r]) u r" using latest_decisive_last [of r rs] True by blast
      moreover have "rv_State r = st" "rv_SubmittedAt r = at" using snoc.prems True None by (auto simp: latest_reviews_snoc map_of_note_review)
      ultimately show ?thesis by blast
    next
      case (Some old)
      obtain st0 at0 where old: "?old = Some (st0, at0)" using Some by (cases old) auto
      from snoc.IH [OF old] obtain x where x: "latest_decisive rs u x" "rv_State x = st0" "rv_SubmittedAt x = at0" by blast
      show ?thesis
      proof (cases "rv_SubmittedAt r < at0")
        case older: True
        then have "(st, at) = (st0, at0)" using snoc.prems True old by (auto simp: latest_reviews_snoc map_of_note_review)
        with x latest_decisive_snoc [OF x(1), of r] older show ?thesis by auto
      next
        case False
        then have "rv_State r = st" "rv_SubmittedAt r = at" using snoc.prems True old by (auto simp: latest_reviews_snoc map_of_note_review)
        moreover have "latest_decisive (rs @ [r]) u r"
          using latest_decisive_last [of r rs] latest_decisive_max [OF x(1)] x(3) False True by (metis linorder_not_less order_trans)
        ultimately show ?thesis by blast
      qed
    qed
  qed
qed simp

lemma approved_reviewer:
  assumes "u \<in> set (GetApprovedReviewers reviews)"
  shows "\<exists>r. latest_decisive reviews u r \<and> equal_fold (rv_State r) ''APPROVED''"
proof -
  from assms obtain st at where "(u, st, at) \<in> set (latest_reviews [] reviews)" "equal_fold st ''APPROVED''"
    by (auto simp: GetApprovedReviewers_def)
  then have "map_of (latest_reviews [] reviews) u = Some (st, at)" using latest_reviews_distinct by (simp add: map_of_is_SomeI)
  from latest_reviews_spec [OF this] \<open>equal_fold st ''APPROVED''\<close> show ?thesis by blast
qed

definition is_reviewer :: "gate_github \<Rightarrow> reviewGatePolicy \<Rightarrow> string \<Rightarrow> bool" where
  "is_reviewer g p reviewer \<longleftrightarrow>
     (\<exists>user \<in> set (rgp_AdminUsers p) \<union> set (rgp_OperatorUsers p). equal_fold user reviewer)
     \<or> (\<exists>team \<in> set (rgp_AdminTeams p) \<union> set (rgp_OperatorTeams p). in_team g reviewer team)
     \<or> to_lower reviewer \<in> set (rgp_CodeownerReviewers p)"

lemma team_first_member: "team_first g teams reviewer = Inr (Some team) \<Longrightarrow> team \<in> set teams \<and> in_team g reviewer team"
  using actorInAnyTeam_member by (auto simp: team_first_def split: if_splits)

lemma policy_Matches_reviewer: "policy_Matches g p reviewer = Inr (Some who) \<Longrightarrow> is_reviewer g p reviewer"
  unfolding is_reviewer_def
  by (auto simp: policy_Matches_def bind_result_Inr_iff dest!: team_first_member matchedUserPrincipal_member split: if_splits)

lemma first_match_reviewer: "first_match g p reviewers = Inr True \<Longrightarrow> \<exists>reviewer \<in> set reviewers. is_reviewer g p reviewer"
proof (induction reviewers)
  case (Cons r rs)
  from Cons.prems obtain m where m: "policy_Matches g p r = Inr m" by (auto simp: bind_result_Inr_iff)
  show ?case
  proof (cases m)
    case None with Cons m show ?thesis by auto
  next
    case (Some who) then show ?thesis using policy_Matches_reviewer m by auto
  qed
qed simp

text \<open>
  An apply is reviewed by somebody else (C14): with the review policy enabled, the gate opens only when some reviewer other than the author -
  names compared without case - is a principal of the policy for this database and that reviewer's latest decisive review is an approval:
  comments do not count, a later request for changes or dismissal revokes.
\<close>

theorem review_gate_sound:
  assumes "enforceReviewGate g config database schemaPath = None" "ReviewPolicyEnabled (Some config)"
  shows "\<exists>prInfo reviews policy reviewer r.
    gg_pull_request g = Inr prInfo \<and> collect_pages (gg_reviews g) = Inr reviews
    \<and> loadReviewGatePolicy g config (pr_BaseRef prInfo) database schemaPath = Inr policy
    \<and> is_reviewer g policy reviewer \<and> \<not> equal_fold reviewer (pr_User prInfo)
    \<and> latest_decisive reviews reviewer r \<and> equal_fold (rv_State r) ''APPROVED''"
proof -
  from assms obtain res where "checkReviewGate g config database schemaPath = Inr (Some res)" and ok: "rgr_Approved res"
    by (auto simp: enforceReviewGate_def checkReviewGate_def bind_result_Inr_iff Let_def split: sum.splits option.splits if_splits)
  with assms(2) obtain prInfo reviews policy where
    p: "gg_pull_request g = Inr prInfo" and rv: "collect_pages (gg_reviews g) = Inr reviews"
    and pol: "loadReviewGatePolicy g config (pr_BaseRef prInfo) database schemaPath = Inr policy"
    and m: "first_match g policy (filter (\<lambda>reviewer. \<not> equal_fold reviewer (pr_User prInfo)) (GetApprovedReviewers reviews)) = Inr True"
    by (auto simp: checkReviewGate_def bind_result_Inr_iff Let_def split: if_splits)
  from first_match_reviewer [OF m] obtain reviewer where
    "reviewer \<in> set (GetApprovedReviewers reviews)" "\<not> equal_fold reviewer (pr_User prInfo)" "is_reviewer g policy reviewer" by auto
  with approved_reviewer p rv pol show ?thesis by blast
qed

subsection \<open>Checks: what a passed gate means\<close>

text \<open>The statuses the gate distinguishes; a commit status always has one of them.\<close>

definition known_status :: "string \<Rightarrow> bool" where
  "known_status st \<longleftrightarrow> st \<in> {''completed'', ''in_progress'', ''queued'', ''pending''}"

lemma legacy_status_known: "known_status (fst (mapLegacyStatusState st))"
  by (simp add: mapLegacyStatusState_def known_status_def Let_def)

lemma gated_checks_member:
  "s \<in> set statuses \<Longrightarrow> \<not> pcs_IsSchemaBot s \<Longrightarrow> IsCheckRequired (Some config) (pcs_Name s) \<Longrightarrow> s \<in> set (gated_checks statuses config)"
  by (simp add: gated_checks_def Let_def)

text \<open>
  Every check that counts has passed: when the checks gate lets an apply through and GitHub reports the statuses the gate knows, each
  configured required check is reported on the head commit and every check in scope - of the required names, or all where none is configured -
  by an App other than SchemaBot's has completed with success, neutral or skipped.
\<close>

theorem passing_checks_gate_sound:
  assumes "enforcePassingChecks g config headSHA = None" "ShouldRequirePassingChecks (Some config)"
    and "GetPRCheckStatuses g headSHA (sv_RequiredChecks config) = Inr statuses" "list_all (known_status \<circ> pcs_Status) statuses"
  shows "set (sv_RequiredChecks config) \<subseteq> pcs_Name ` set statuses
    \<and> list_all (\<lambda>s. pcs_IsSchemaBot s \<or> \<not> IsCheckRequired (Some config) (pcs_Name s)
        \<or> pcs_Status s = ''completed'' \<and> isPassingCheckConclusion (pcs_Conclusion s)) statuses"
proof
  note gate = assms(1)[unfolded enforcePassingChecks_def] and on = assms(2,3)
  from gate on have missing: "missingRequiredChecks statuses config = []" and failing: "filterNonPassingNonSchemaBotChecks statuses config = []"
    and running: "filterInProgressNonSchemaBotChecks statuses config = []"
    by (simp_all add: Let_def split: if_splits)
  show "set (sv_RequiredChecks config) \<subseteq> pcs_Name ` set statuses"
    using missing by (auto simp: missingRequiredChecks_def filter_empty_conv)
  show "list_all (\<lambda>s. pcs_IsSchemaBot s \<or> \<not> IsCheckRequired (Some config) (pcs_Name s)
        \<or> pcs_Status s = ''completed'' \<and> isPassingCheckConclusion (pcs_Conclusion s)) statuses"
    unfolding list_all_iff
  proof
    fix s assume s: "s \<in> set statuses"
    have "pcs_Status s = ''completed'' \<and> isPassingCheckConclusion (pcs_Conclusion s)" if "\<not> pcs_IsSchemaBot s" "IsCheckRequired (Some config) (pcs_Name s)"
    proof -
      have g: "s \<in> set (gated_checks statuses config)" using gated_checks_member s that by blast
      with running have "pcs_Status s \<notin> {''in_progress'', ''queued'', ''pending''}"
        by (auto simp: filterInProgressNonSchemaBotChecks_def filter_empty_conv)
      with s assms(4) have "pcs_Status s = ''completed''" by (auto simp: list_all_iff known_status_def)
      with failing g show ?thesis by (auto simp: filterNonPassingNonSchemaBotChecks_def filter_empty_conv)
    qed
    then show "pcs_IsSchemaBot s \<or> \<not> IsCheckRequired (Some config) (pcs_Name s)
        \<or> pcs_Status s = ''completed'' \<and> isPassingCheckConclusion (pcs_Conclusion s)" by blast
  qed
qed

subsection \<open>The gates at work\<close>

definition sample_run :: "int \<Rightarrow> string \<Rightarrow> string \<Rightarrow> string \<Rightarrow> string \<Rightarrow> check_run" where
  "sample_run i name st conclusion slug = \<lparr>run_ID = i, run_Name = name, run_Status = st, run_Conclusion = conclusion, run_AppSlug = slug\<rparr>"

text \<open>A pull request of alice at commit abc: carol approved, then commented; the required check passes, SchemaBot's own one waits for the apply.\<close>

definition sample_gate :: "string \<Rightarrow> gate_github" where
  "sample_gate ci_status = \<lparr>gg_app_slug = ''schemabot'', gg_trusted = [''schemabot-staging''],
     gg_statuses = (\<lambda>_. [Inr [\<lparr>cst_Context = ''lint'', cst_State = ''success''\<rparr>]]),
     gg_runs = (\<lambda>_. [Inr [sample_run 1 ''ci/test'' ci_status ''success'' ''actions''],
                     Inr [sample_run 2 ''SchemaBot'' ''completed'' ''action_required'' ''SchemaBot'']]),
     gg_named_runs = (\<lambda>_ _ name. [Inr [sample_run 5 name ''completed'' ''failure'' ''schemabot-staging'',
                     sample_run 9 name ''completed'' ''success'' ''schemabot-staging'', sample_run 11 name ''completed'' ''failure'' ''actions'']]),
     gg_members = (\<lambda>org slug. [Inr (if org = ''org'' \<and> slug = ''dba'' then [''Carol''] else [])]),
     gg_reviews = [Inr [\<lparr>rv_User = ''alice'', rv_State = ''APPROVED'', rv_SubmittedAt = 1\<rparr>, \<lparr>rv_User = ''Carol'', rv_State = ''APPROVED'', rv_SubmittedAt = 2\<rparr>],
                   Inr [\<lparr>rv_User = ''carol'', rv_State = ''COMMENTED'', rv_SubmittedAt = 3\<rparr>]],
     gg_pull_request = Inr \<lparr>pr_HeadSHA = ''abc'', pr_User = ''Alice'', pr_BaseRef = ''main''\<rparr>,
     gg_ruleset = (\<lambda>_. Inr None), gg_match_rules = (\<lambda>_ _. Inr None)\<rparr>"

definition sample_reads :: prior_reads where
  "sample_reads = \<lparr>pe_MaxAttempts = 0, pe_client = (\<lambda>_. None),
     pe_stored = (\<lambda>env attempt. if attempt < 3 then Inr None else Inr (Some (sample_check ''completed'' None ''success''))), pe_wait = (\<lambda>_ _. None)\<rparr>"

definition scoped_config :: ServerConfig where
  "scoped_config = sample_config\<lparr>sv_AllowedEnvironments := [''staging'', ''production'']\<rparr>"

theorem authorized_actor_is_principal_witness:
  "\<exists>dc. cfg_Database sample_config ''orders'' = Some dc \<and> trim_space ''CAROL'' \<noteq> []
    \<and> ((\<exists>user \<in> set (pa_AdminUsers (sv_PRCommandAuthorization sample_config)) \<union> set (dc_OperatorUsers dc). equal_fold user ''CAROL'')
      \<or> (\<exists>team \<in> set (pa_AdminTeams (sv_PRCommandAuthorization sample_config)) \<union> set (dc_OperatorTeams dc).
           \<exists>g. Some (sample_gate ''completed'') = Some g \<and> in_team g ''CAROL'' team))"
  by (rule authorized_actor_is_principal) code_simp+

theorem review_gate_sound_witness:
  "\<exists>prInfo reviews policy reviewer r.
    gg_pull_request (sample_gate ''completed'') = Inr prInfo \<and> collect_pages (gg_reviews (sample_gate ''completed'')) = Inr reviews
    \<and> loadReviewGatePolicy (sample_gate ''completed'') sample_config (pr_BaseRef prInfo) ''orders'' ''db'' = Inr policy
    \<and> is_reviewer (sample_gate ''completed'') policy reviewer \<and> \<not> equal_fold reviewer (pr_User prInfo)
    \<and> latest_decisive reviews reviewer r \<and> equal_fold (rv_State r) ''APPROVED''"
  by (rule review_gate_sound) code_simp+

theorem passing_checks_gate_sound_witness:
  "\<exists>statuses. GetPRCheckStatuses (sample_gate ''completed'') ''abc'' (sv_RequiredChecks sample_config) = Inr statuses
    \<and> set (sv_RequiredChecks sample_config) \<subseteq> pcs_Name ` set statuses"
proof -
  define statuses where "statuses = projr (GetPRCheckStatuses (sample_gate ''completed'') ''abc'' (sv_RequiredChecks sample_config))"
  have g: "enforcePassingChecks (sample_gate ''completed'') sample_config ''abc'' = None" by code_simp
  have on: "ShouldRequirePassingChecks (Some sample_config)" by code_simp
  have st: "GetPRCheckStatuses (sample_gate ''completed'') ''abc'' (sv_RequiredChecks sample_config) = Inr statuses"
    unfolding statuses_def by code_simp
  have known: "list_all (known_status \<circ> pcs_Status) statuses" unfolding statuses_def by code_simp
  show ?thesis using passing_checks_gate_sound [OF g on st known] st by blast
qed

theorem promotion_gate_sound_witness:
  "published_success (sample_gate ''completed'') sample_reads ''SchemaBot'' ''dev'' \<and> stored_success sample_reads ''staging''"
proof -
  have "\<forall>prior \<in> set [''dev'', ''staging'']. if IsEnvironmentAllowed (Some scoped_config) prior then stored_success sample_reads prior
      else published_success (sample_gate ''completed'') sample_reads ''SchemaBot'' prior"
  proof (rule promotion_gate_sound [where later = "[]"])
    show "checkPriorEnvironments (sample_gate ''completed'') sample_reads scoped_config ''SchemaBot'' ''production'' [''production''] = None" by code_simp
    show "promotionGateEnvironments scoped_config ''production'' [''production''] = [''dev'', ''staging''] @ ''production'' # []" by code_simp
  qed simp
  moreover have "\<not> IsEnvironmentAllowed (Some scoped_config) ''dev''" "IsEnvironmentAllowed (Some scoped_config) ''staging''" by code_simp+
  ultimately show ?thesis by simp
qed

text \<open>
  A check run that GitHub reports as waiting or requested is neither completed nor one of the three statuses the gate takes for unfinished, and
  its name counts as reported: the gate opens although the required check has not run.
\<close>

lemma waiting_check_opens_gate:
  "enforcePassingChecks (sample_gate ''waiting'') sample_config ''abc'' = None \<and> enforcePassingChecks (sample_gate ''requested'') sample_config ''abc'' = None
   \<and> enforcePassingChecks (sample_gate ''queued'') sample_config ''abc'' = Some (Checks_Unfinished [(''ci/test'', ''queued'')] [])"
  by code_simp

text \<open>
  A stored success counts whatever commit it was computed for: the head commit of the row is not compared, whereas a run published by another
  instance must be on the pull request's head.
\<close>

lemma stored_success_of_other_commit:
  "checkPriorEnvViaLocal (sample_reads\<lparr>pe_stored := (\<lambda>_ _. Inr (Some ((sample_check ''completed'' None ''success'')\<lparr>chk_HeadSHA := sha\<rparr>)))\<rparr>) ''staging'' = None"
  by (simp add: checkPriorEnvViaLocal_def waitForLocalPriorEnvCheck_def shouldRetryStoredPriorEnvCheck_def sample_reads_def sample_check_def
      priorEnvCheckMaxAttemptCount_def defaultPriorEnvCheckMaxAttempts_def check_consts numeral_eq_Suc)

end
