(* ===== verification/SB_Apply_Command.thy ===== *)
theory SB_Apply_Command
  imports SB_Gates SB_Commands SB_Locks "HOL-Library.Multiset"
begin

section \<open>The apply commands (webhook/apply\_handlers.go, apply\_execute.go)\<close>

text \<open>
  From a comment to a queued apply: \<open>apply\<close> passes the gates, plans and takes the database lock; \<open>apply-confirm\<close>, or \<open>apply -y\<close> in one go, plans
  again and asks the service to execute. \<open>unlock\<close> gives the lock back.

  A handler is a sequence of calls that may return early. Its state is the lock table, the check store and the comments posted so far, and a log of
  the requests handed to \<^verbatim>\<open>ExecuteApply\<close>, each with the lock table as the handler's last call on it left it and as it is at that moment, which others may have
  changed since. What a handler reads from elsewhere is in \<open>command_env\<close>:
  the pull request's files and schema request, the plans, GitHub, and what other callers commit between the statements of each store call.
\<close>

subsection \<open>Plans as the handlers see them\<close>

record TableChangeResponse =
  tcr_TableName :: string
  tcr_Namespace :: string
  tcr_DDL :: string
  tcr_ChangeType :: string
  tcr_IsUnsafe :: bool
  tcr_UnsafeReason :: string

record SchemaChangeResponse =
  scr_Namespace :: string
  scr_TableChanges :: "TableChangeResponse list"
  scr_Metadata :: "(string \<times> string) list"

record PlanResponse =
  plr_PlanID :: string
  plr_Changes :: "SchemaChangeResponse list"
  plr_Errors :: "string list"

definition FlatTables :: "PlanResponse \<Rightarrow> TableChangeResponse list" where
  "FlatTables r = concat (map scr_TableChanges (plr_Changes r))"

definition UnsafeChanges :: "PlanResponse \<Rightarrow> (string \<times> string \<times> string \<times> string) list" where
  "UnsafeChanges r = concat (map (\<lambda>sc. map (\<lambda>t. (tcr_TableName t, tcr_UnsafeReason t, tcr_DDL t, tcr_ChangeType t))
     (filter tcr_IsUnsafe (scr_TableChanges sc))) (plr_Changes r))"

text \<open>The columns of a stored plan that the handlers read.\<close>

record stored_plan =
  spl_PlanIdentifier :: string
  spl_Environment :: string
  spl_HeadSHA :: string
  spl_Namespaces :: namespaces

text \<open>The counting comparison of two lists of statements: \<open>counts\<close> are the occurrences not used up yet.\<close>

fun count_down :: "(string \<Rightarrow> int) \<Rightarrow> string list \<Rightarrow> bool" where
  "count_down counts [] = True"
| "count_down counts (ddl # ddls) = (if counts ddl \<le> 0 then False else count_down (counts(ddl := counts ddl - 1)) ddls)"

fun count_up :: "string list \<Rightarrow> string \<Rightarrow> int" where
  "count_up [] = (\<lambda>_. 0)"
| "count_up (ddl # ddls) = (let counts = count_up ddls in counts(ddl := counts ddl + 1))"

text \<open>A stored plan with a nil namespace entry panics in \<open>FlatDDLChanges\<close>; that is \<open>None\<close>.\<close>

definition ddlMatchesStoredPlan :: "PlanResponse \<Rightarrow> stored_plan \<Rightarrow> bool option" where
  "ddlMatchesStoredPlan planResp storedPlan =
     (case FlatDDLChanges (spl_Namespaces storedPlan) of
        None \<Rightarrow> None
      | Some storedDDL \<Rightarrow>
          (let newDDL = FlatTables planResp in
           if length newDDL \<noteq> length storedDDL then Some False
           else Some (count_down (count_up (map tc_DDL storedDDL)) (map tcr_DDL newDDL))))"

subsection \<open>State and surroundings of a command\<close>

record SchemaRequestResult =
  sr_Database :: string
  sr_Type :: string
  sr_HeadSHA :: string
  sr_SchemaPath :: string
  sr_Environments :: "string list"

record PRFile =
  prf_Filename :: string
  prf_Status :: string

record ApplyRequest =
  arq_PlanID :: string
  arq_Environment :: string
  arq_Options :: "(string \<times> string) list"
  arq_Caller :: string
  arq_InstallationID :: int

datatype command_comment = Cm_Error string | Cm_Gate gate_block | Cm_Reconciliation "(Check \<times> Apply option) list" | Cm_Schema_Error string
  | Cm_Blocked_By_Other Lock | Cm_In_Progress Apply | Cm_Plan PlanResponse bool bool string | Cm_Unsafe PlanResponse
  | Cm_Stale_Schema string string | Cm_Stale_Plan string string | Cm_No_Lock | Cm_No_Changes | Cm_Started int
  | Cm_No_Locks_Found | Cm_Cannot_Unlock Lock Apply | Cm_Unlocked Lock

record cmd_world =
  aw_locks :: lock_db
  aw_checks :: check_world
  aw_comments :: "command_comment list"
  aw_executed :: "(ApplyRequest \<times> lock_db \<times> lock_db) list"

text \<open>
  \<open>ae_gates k\<close> is GitHub at the k-th evaluation of the gates, \<open>ae_plan k\<close> the answer of the k-th \<^verbatim>\<open>ExecutePlan\<close> with its error as transient or not,
  \<open>ae_locks k\<close> and \<open>ae_checks k\<close> the other callers during the k-th store call, \<open>ae_meanwhile\<close> what they do to the locks between the handler's last call on
  them and the execution; \<open>ae_execute\<close> is \<^verbatim>\<open>ExecuteApply\<close>: an error, or whether the
  apply was accepted, its message and the stored apply's ID, and what it did to the tables.
\<close>

record command_env =
  ae_config :: ServerConfig
  ae_check_config :: check_config
  ae_aggregate_base :: string
  ae_client :: bool
  ae_factory :: bool
  ae_files :: "string + PRFile list"
  ae_schema :: "(string \<Rightarrow> string \<Rightarrow> string option) \<Rightarrow> string \<Rightarrow> string \<Rightarrow> string + SchemaRequestResult"
  ae_gates :: "nat \<Rightarrow> gate_github"
  ae_reads :: prior_reads
  ae_gh :: gh_client
  ae_cached_head :: "string option"
  ae_fresh_head :: "string option"
  ae_plan :: "nat \<Rightarrow> (bool \<times> string) + PlanResponse"
  ae_plan_cancelled :: "nat \<Rightarrow> bool"
  ae_stored_plan :: "string \<Rightarrow> string + stored_plan option"
  ae_execute :: "ApplyRequest \<Rightarrow> check_db \<Rightarrow> (string + (bool \<times> string \<times> int)) \<times> check_db"
  ae_locks :: "nat \<Rightarrow> nat \<Rightarrow> lock_db stmt_env"
  ae_meanwhile :: "lock_db \<Rightarrow> lock_db"
  ae_lock_cancelled :: "nat \<Rightarrow> bool"
  ae_checks :: "nat \<Rightarrow> call_env"
  ae_now :: int

record command_target =
  ct_repo :: string
  ct_pr :: int
  ct_environment :: string
  ct_database :: string
  ct_installation :: int
  ct_requestedBy :: string
  ct_result :: CommandResult

subsection \<open>Handlers that may return early\<close>

text \<open>\<open>None\<close> means that the handler has returned.\<close>

type_synonym ('a, 'w) early = "'w \<Rightarrow> 'a option \<times> 'w"
type_synonym 'a cmd = "('a, cmd_world) early"

definition ret :: "'a \<Rightarrow> ('a, 'w) early" where "ret x w = (Some x, w)"
definition stop :: "('a, 'w) early" where "stop w = (None, w)"

definition seq :: "('a, 'w) early \<Rightarrow> ('a \<Rightarrow> ('b, 'w) early) \<Rightarrow> ('b, 'w) early" where
  "seq m f w = (case m w of (None, w1) \<Rightarrow> (None, w1) | (Some x, w1) \<Rightarrow> f x w1)"

definition say :: "command_comment \<Rightarrow> unit cmd" where
  "say c w = (Some (), w\<lparr>aw_comments := aw_comments w @ [c]\<rparr>)"

definition fail :: "command_comment \<Rightarrow> 'a cmd" where
  "fail c = seq (say c) (\<lambda>_. stop)"

definition gate :: "gate_block option \<Rightarrow> unit cmd" where
  "gate b = (case b of None \<Rightarrow> ret () | Some block \<Rightarrow> fail (Cm_Gate block))"

definition require :: "bool \<Rightarrow> command_comment \<Rightarrow> unit cmd" where
  "require ok c = (if ok then ret () else fail c)"

text \<open>Calls on the stores.\<close>

definition on_checks :: "(check_world \<Rightarrow> 'a \<times> check_world) \<Rightarrow> 'a cmd" where
  "on_checks f w = (case f (aw_checks w) of (x, cw) \<Rightarrow> (Some x, w\<lparr>aw_checks := cw\<rparr>))"

definition lock_Get :: "command_env \<Rightarrow> nat \<Rightarrow> string \<Rightarrow> string \<Rightarrow> (mysql_error + Lock option) cmd" where
  "lock_Get e k database dbType w =
     (case exec_stmt (ae_locks e k 0) 0 (get_stmt database dbType) (aw_locks w) of (r, d) \<Rightarrow> (Some r, w\<lparr>aw_locks := d\<rparr>))"

text \<open>The owner-scoped release whose failures are at most logged.\<close>

definition lock_Release :: "command_env \<Rightarrow> nat \<Rightarrow> string \<Rightarrow> string \<Rightarrow> string \<Rightarrow> unit cmd" where
  "lock_Release e k database dbType owner w = (Some (), w\<lparr>aw_locks := snd (lk_Release (ae_locks e k 0) database dbType owner (aw_locks w))\<rparr>)"

definition lock_Acquire :: "command_env \<Rightarrow> nat \<Rightarrow> Lock \<Rightarrow> lock_error option cmd" where
  "lock_Acquire e k lock w = (case lk_Acquire (ae_lock_cancelled e) (ae_locks e k) (ae_now e) lock (aw_locks w) of (r, d) \<Rightarrow> (Some r, w\<lparr>aw_locks := d\<rparr>))"

definition lockOwner :: "command_target \<Rightarrow> string" where
  "lockOwner t = ct_repo t @ ''#'' @ itoa (ct_pr t)"

subsection \<open>Schema changes that left the pull request (schema\_reconciliation.go)\<close>

definition path_base :: "string \<Rightarrow> string" where
  "path_base p = (if p = [] then ''.'' else
     let trimmed = rev (dropWhile (\<lambda>ch. ch = CHR ''/'') (rev p)) in
     if trimmed = [] then ''/'' else rev (takeWhile (\<lambda>ch. ch \<noteq> CHR ''/'') (rev trimmed)))"

definition prHasCurrentSchemaBotFiles :: "PRFile list \<Rightarrow> bool" where
  "prHasCurrentSchemaBotFiles files = list_ex (\<lambda>file.
     has_suffix (prf_Filename file) ''.sql'' \<or> has_suffix (prf_Filename file) ''vschema.json''
     \<or> path_base (prf_Filename file) = ''schemabot.yaml'' \<and> \<not> equal_fold (prf_Status file) ''removed'') files"

text \<open>The rows that block, with the apply each names; loading an apply is a read of its own.\<close>

definition reconciles :: "string \<Rightarrow> string \<Rightarrow> Check \<Rightarrow> bool" where
  "reconciles environment databaseName check \<longleftrightarrow> \<not> isAggregateCheck check
     \<and> (environment = [] \<or> chk_Environment check = environment) \<and> (databaseName = [] \<or> chk_DatabaseName check = databaseName)
     \<and> checkHasStartedApply check"

fun reconciliation_records :: "call_env \<Rightarrow> Check list \<Rightarrow> check_world \<Rightarrow> (mysql_error + (Check \<times> Apply option) list) \<times> check_world" where
  "reconciliation_records ce [] w = (Inr [], w)"
| "reconciliation_records ce (check # checks) w =
     (case chk_ApplyID check of
        None \<Rightarrow> (case reconciliation_records ce checks w of (r, w1) \<Rightarrow> (map_sum id (\<lambda>rs. (check, None) # rs) r, w1))
      | Some i \<Rightarrow> (case read_world ce 0 (\<lambda>d. ap_Get i (ck_db d)) w of
            (Inl err, w1) \<Rightarrow> (Inl err, w1)
          | (Inr a, w1) \<Rightarrow> (case reconciliation_records (next_calls 1 ce) checks w1 of (r, w2) \<Rightarrow> (map_sum id (\<lambda>rs. (check, a) # rs) r, w2))))"

definition schemaChangeReconciliationRecords :: "call_env \<Rightarrow> string \<Rightarrow> int \<Rightarrow> string \<Rightarrow> string \<Rightarrow> check_world
    \<Rightarrow> (mysql_error + (Check \<times> Apply option) list) \<times> check_world" where
  "schemaChangeReconciliationRecords ce repo pr environment databaseName w =
     (case read_world ce 0 (ck_GetByPR repo pr) w of
        (Inl err, w1) \<Rightarrow> (Inl err, w1)
      | (Inr checks, w1) \<Rightarrow> reconciliation_records (next_calls 1 ce) (filter (reconciles environment databaseName) checks) w1)"

definition handleNoManagedSchemaChangesForCommand :: "command_env \<Rightarrow> nat \<Rightarrow> command_target \<Rightarrow> unit cmd" where
  "handleNoManagedSchemaChangesForCommand e k t =
     (case ae_files e of
        Inl err \<Rightarrow> fail (Cm_Error err)
      | Inr files \<Rightarrow>
          if prHasCurrentSchemaBotFiles files then ret ()
          else seq (on_checks (schemaChangeReconciliationRecords (ae_checks e k) (ct_repo t) (ct_pr t) (ct_environment t) (ct_database t))) (\<lambda>r.
            case r of
              Inl _ \<Rightarrow> fail (Cm_Error ''load stored check state for schema change reconciliation'')
            | Inr records \<Rightarrow> if length records > 0 then fail (Cm_Reconciliation records) else ret ()))"

subsection \<open>The schema request (schema\_source\_policy.go, check\_aggregate.go)\<close>

definition shouldProcessSchemaConfig :: "ServerConfig \<Rightarrow> string \<Rightarrow> string \<Rightarrow> bool" where
  "shouldProcessSchemaConfig config repo schemaPath =
     (if \<not> RepoHasSchemaDirAllowlist (Some config) repo then True else SchemaPathAllowedForRepo (Some config) repo schemaPath)"

definition validateRequestedDatabaseEnvironment :: "ServerConfig \<Rightarrow> string \<Rightarrow> string \<Rightarrow> string option" where
  "validateRequestedDatabaseEnvironment config database environment =
     (if environment = [] then None
      else case DatabaseEnvironments (Some config) database of
          Inl _ \<Rightarrow> Some ''resolve configured environments''
        | Inr environments \<Rightarrow> if environment \<in> set environments then None else Some ''environment is not configured on this server'')"

definition attachServerEnvironments :: "ServerConfig \<Rightarrow> SchemaRequestResult \<Rightarrow> string \<Rightarrow> string + SchemaRequestResult" where
  "attachServerEnvironments config schemaResult environment =
     (case DatabaseEnvironments (Some config) (sr_Database schemaResult) of
        Inl _ \<Rightarrow> Inl ''resolve configured environments''
      | Inr environments \<Rightarrow>
          if environment \<noteq> [] \<and> environment \<notin> set environments then Inl ''environment is not configured on this server''
          else Inr (schemaResult\<lparr>sr_Environments := environments\<rparr>))"

definition createManagedSchemaRequestFromPR :: "command_env \<Rightarrow> command_target \<Rightarrow> string + SchemaRequestResult" where
  "createManagedSchemaRequestFromPR e t =
     (case ae_schema e (validateRequestedDatabaseEnvironment (ae_config e)) (ct_environment t) (ct_database t) of
        Inl err \<Rightarrow> Inl err
      | Inr schemaResult \<Rightarrow>
          if shouldProcessSchemaConfig (ae_config e) (ct_repo t) (sr_SchemaPath schemaResult) then Inr schemaResult
          else Inl ''schema config is outside server allowed_dirs'')"

definition schema_request :: "command_env \<Rightarrow> command_target \<Rightarrow> SchemaRequestResult cmd" where
  "schema_request e t =
     (case createManagedSchemaRequestFromPR e t of
        Inl err \<Rightarrow> fail (Cm_Schema_Error err)
      | Inr schemaResult \<Rightarrow> (case attachServerEnvironments (ae_config e) schemaResult (ct_environment t) of
            Inl err \<Rightarrow> fail (Cm_Schema_Error err)
          | Inr schemaResult' \<Rightarrow> ret schemaResult'))"

subsection \<open>Planning and freshness (plan\_retry.go, schema\_freshness.go, plan\_freshness.go)\<close>

text \<open>One retry of a plan whose failure says that the remote deployment is unreachable.\<close>

definition executePlanWithTransientRetry :: "command_env \<Rightarrow> nat \<Rightarrow> string + PlanResponse" where
  "executePlanWithTransientRetry e k =
     (case ae_plan e k of
        Inr planResp \<Rightarrow> Inr planResp
      | Inl (transient, err) \<Rightarrow>
          if \<not> transient then Inl err
          else if ae_plan_cancelled e k then Inl ''plan retry cancelled''
          else (case ae_plan e (k + 1) of Inr planResp \<Rightarrow> Inr planResp | Inl (_, retryErr) \<Rightarrow> Inl retryErr))"

definition run_plan :: "command_env \<Rightarrow> nat \<Rightarrow> PlanResponse cmd" where
  "run_plan e k = (case executePlanWithTransientRetry e k of Inl err \<Rightarrow> fail (Cm_Error err) | Inr planResp \<Rightarrow> ret planResp)"

text \<open>True: rejected, the caller must stop.\<close>

definition assertSchemaStillCurrent :: "SchemaRequestResult \<Rightarrow> string \<Rightarrow> bool cmd" where
  "assertSchemaStillCurrent schemaResult freshHeadSHA =
     (if sr_HeadSHA schemaResult = freshHeadSHA then ret False
      else seq (say (Cm_Stale_Schema (sr_HeadSHA schemaResult) freshHeadSHA)) (\<lambda>_. ret True))"

definition assertPlanStillCurrent :: "stored_plan option \<Rightarrow> string \<Rightarrow> bool cmd" where
  "assertPlanStillCurrent plan freshHeadSHA =
     (case plan of
        None \<Rightarrow> ret False
      | Some p \<Rightarrow>
          if spl_HeadSHA p = [] then ret False
          else if spl_HeadSHA p = freshHeadSHA then ret False
          else seq (say (Cm_Stale_Plan (spl_HeadSHA p) freshHeadSHA)) (\<lambda>_. ret True))"

definition confirmationPlanForLock :: "command_env \<Rightarrow> Lock \<Rightarrow> string + stored_plan option" where
  "confirmationPlanForLock e lock = (if lk_PendingPlanID lock = [] then Inr None else ae_stored_plan e (lk_PendingPlanID lock))"

subsection \<open>Check records of an apply (apply\_check\_records.go)\<close>

text \<open>Store the plan's check state and refresh the aggregate; the head is empty when the record could not be tied to one.\<close>

definition storeApplyPlanCheckRecord :: "command_env \<Rightarrow> nat \<Rightarrow> command_target \<Rightarrow> SchemaRequestResult \<Rightarrow> PlanResponse \<Rightarrow> unit cmd" where
  "storeApplyPlanCheckRecord e k t schemaResult planResp =
     on_checks (\<lambda>cw. (case storePlanCheckRecord (ae_gh e) (ae_checks e k) (ae_now e) (ct_repo t) (ct_pr t) (sr_HeadSHA schemaResult) (ct_environment t)
           (sr_Type schemaResult) (sr_Database schemaResult) (plr_Errors planResp \<noteq> []) (FlatTables planResp \<noteq> []) cw of (_, cw1) \<Rightarrow>
        let headSHA = (if sr_HeadSHA schemaResult = [] \<or> FetchPullRequest_HeadSHA (ae_gh e) = None then [] else sr_HeadSHA schemaResult) in
        ((), if headSHA \<noteq> [] then updateAggregateCheck (ae_check_config e) (ae_gh e) (next_calls 1 (ae_checks e k)) (ae_now e) (ct_repo t) (ct_pr t) headSHA cw1
             else cw1)))"

definition updateCheckRecordForApplyStart :: "command_env \<Rightarrow> call_env \<Rightarrow> command_target \<Rightarrow> SchemaRequestResult \<Rightarrow> int \<Rightarrow> check_world
    \<Rightarrow> lock_error option \<times> check_world" where
  "updateCheckRecordForApplyStart e ce t schemaResult applyID cw =
     (case read_world ce 0 (ck_Get (ct_repo t) (ct_pr t) (ct_environment t) (sr_Type schemaResult) (sr_Database schemaResult)) cw of
        (Inl err, cw1) \<Rightarrow> (Some (MySQLError err), cw1)
      | (Inr found, cw1) \<Rightarrow>
        (case (case found of
            Some check \<Rightarrow> Some (check\<lparr>chk_ApplyID := Some applyID, chk_HasChanges := True, chk_Status := checkStatusInProgress, chk_Conclusion := [],
              chk_BlockingReason := [], chk_ErrorMessage := []\<rparr>)
          | None \<Rightarrow> (case ae_cached_head e of
                None \<Rightarrow> None
              | Some headSHA \<Rightarrow> Some \<lparr>chk_ID = 0, chk_Repository = ct_repo t, chk_PullRequest = ct_pr t, chk_HeadSHA = headSHA,
                  chk_Environment = ct_environment t, chk_DatabaseType = sr_Type schemaResult, chk_DatabaseName = sr_Database schemaResult,
                  chk_CheckRunID = None, chk_ApplyID = Some applyID, chk_HasChanges = True, chk_Status = checkStatusInProgress, chk_Conclusion = [],
                  chk_BlockingReason = [], chk_ErrorMessage = [], chk_CreatedAt = 0, chk_UpdatedAt = 0\<rparr>)) of
           None \<Rightarrow> (Some (Store_Error (ErrOther ''fetch PR for apply start check'')), cw1)
         | Some check \<Rightarrow> (case upsert_world ce 1 (ae_now e) check cw1 of
              (Some err, cw2) \<Rightarrow> (Some err, cw2)
            | (None, cw2) \<Rightarrow> (None, updateAggregateCheck (ae_check_config e) (ae_gh e) (next_calls 2 ce) (ae_now e) (ct_repo t) (ct_pr t) (chk_HeadSHA check) cw2))))"

subsection \<open>Execution (apply\_execute.go)\<close>

definition apply_options :: "CommandResult \<Rightarrow> (string \<times> string) list" where
  "apply_options result = (if cmd_DeferCutover result then [(''defer_cutover'', ''true'')] else [])
     @ (if cmd_SkipRevert result then [(''skip_revert'', ''true'')] else []) @ (if cmd_AllowUnsafe result then [(''allow_unsafe'', ''true'')] else [])"

definition caller_of :: "command_target \<Rightarrow> string" where
  "caller_of t = ''github:'' @ ct_requestedBy t @ ''@'' @ ct_repo t @ ''#'' @ itoa (ct_pr t)"

definition service_ExecuteApply :: "command_env \<Rightarrow> ApplyRequest \<Rightarrow> (string + (bool \<times> string \<times> int)) cmd" where
  "service_ExecuteApply e req w =
     (case ae_execute e req (cw_db (aw_checks w)) of (r, d) \<Rightarrow>
        (Some r, w\<lparr>aw_locks := ae_meanwhile e (aw_locks w), aw_executed := aw_executed w @ [(req, aw_locks w, ae_meanwhile e (aw_locks w))], aw_checks := (aw_checks w)\<lparr>cw_db := d\<rparr>\<rparr>))"

text \<open>The part after the request was handed over: the progress comment and the check that now waits for the apply.\<close>

definition follow_apply :: "command_env \<Rightarrow> command_target \<Rightarrow> SchemaRequestResult \<Rightarrow> string + (bool \<times> string \<times> int) \<Rightarrow> unit cmd" where
  "follow_apply e t schemaResult r =
     (case r of
        Inl err \<Rightarrow> fail (Cm_Error (''Failed to execute apply: '' @ err))
      | Inr (accepted, message, applyID) \<Rightarrow>
          seq (require accepted (Cm_Error (''Apply was not accepted: '' @ message))) (\<lambda>_.
          seq (require (applyID > 0) (Cm_Error ''Apply was accepted, but SchemaBot did not receive a stored apply ID.'')) (\<lambda>_.
          seq (on_checks (read_world (ae_checks e 6) 0 (\<lambda>d. ap_Get applyID (ck_db d)))) (\<lambda>found.
          case found of
            Inr (Some _) \<Rightarrow>
              seq (say (Cm_Started applyID)) (\<lambda>_.
              seq (on_checks (updateCheckRecordForApplyStart e (ae_checks e 7) t schemaResult applyID)) (\<lambda>checkErr.
              case checkErr of
                Some _ \<Rightarrow> fail (Cm_Error ''Apply was accepted, but SchemaBot could not update the required status check'')
              | None \<Rightarrow> ret ()))
          | _ \<Rightarrow> stop))))"

definition executeApply :: "command_env \<Rightarrow> nat \<Rightarrow> command_target \<Rightarrow> SchemaRequestResult \<Rightarrow> stored_plan option \<Rightarrow> unit cmd" where
  "executeApply e k t schemaResult storedPlan =
     seq (run_plan e k) (\<lambda>planResp.
     if length (FlatTables planResp) = 0 then
       seq (lock_Release e 5 (sr_Database schemaResult) (sr_Type schemaResult) (lockOwner t)) (\<lambda>_. fail Cm_No_Changes)
     else if (case storedPlan of None \<Rightarrow> False | Some p \<Rightarrow> ddlMatchesStoredPlan planResp p = None) then stop
     else if (case storedPlan of None \<Rightarrow> False | Some p \<Rightarrow> ddlMatchesStoredPlan planResp p = Some False) then
       fail (Cm_Plan planResp True False ''Schema changes differ from auto-plan'')
     else if length (UnsafeChanges planResp) > 0 \<and> \<not> cmd_AllowUnsafe (ct_result t) then fail (Cm_Unsafe planResp)
     else if \<not> ae_factory e then stop
     else seq (service_ExecuteApply e \<lparr>arq_PlanID = plr_PlanID planResp, arq_Environment = ct_environment t, arq_Options = apply_options (ct_result t),
            arq_Caller = caller_of t, arq_InstallationID = ct_installation t\<rparr>) (follow_apply e t schemaResult))"

subsection \<open>The apply command (apply\_handlers.go)\<close>

text \<open>The gates of the apply command, up to the promotion order.\<close>

definition apply_gates :: "command_env \<Rightarrow> command_target \<Rightarrow> SchemaRequestResult cmd" where
  "apply_gates e t =
     (if \<not> ae_client e then stop
      else seq (handleNoManagedSchemaChangesForCommand e 0 t) (\<lambda>_.
      seq (schema_request e t) (\<lambda>schemaResult.
      seq (gate (enforcePRCommandActorAuthorization (Some (ae_gates e 0)) (ae_config e) (ct_requestedBy t) (sr_Database schemaResult))) (\<lambda>_.
      seq (on_checks (reconcileStaleChecks (ae_check_config e) (ae_gh e) (Some (ae_gh e)) (\<lambda>n. ae_checks e (10 + n)) (ae_now e) (ct_repo t) (ct_pr t))) (\<lambda>err.
      case err of
        Some _ \<Rightarrow> fail (Cm_Error ''Failed to reconcile stale status checks'')
      | None \<Rightarrow>
          seq (gate (enforceReviewGate (ae_gates e 0) (ae_config e) (sr_Database schemaResult) (sr_SchemaPath schemaResult))) (\<lambda>_.
          case ae_cached_head e of
            None \<Rightarrow> fail (Cm_Error ''Failed to fetch PR info'')
          | Some headSHA \<Rightarrow>
              seq (gate (enforcePassingChecks (ae_gates e 0) (ae_config e) headSHA)) (\<lambda>_.
              seq (gate (checkPriorEnvironments (ae_gates e 0) (ae_reads e) (ae_config e) (ae_aggregate_base e) (ct_environment t) (sr_Environments schemaResult))) (\<lambda>_.
              ret schemaResult))))))))"

text \<open>The lock before planning: free, or this pull request's own and idle, in which case it is given back first.\<close>

definition clear_own_lock :: "command_env \<Rightarrow> command_target \<Rightarrow> SchemaRequestResult \<Rightarrow> unit cmd" where
  "clear_own_lock e t schemaResult =
     seq (lock_Get e 0 (sr_Database schemaResult) (sr_Type schemaResult)) (\<lambda>existing.
     case existing of
       Inl _ \<Rightarrow> fail (Cm_Error ''Failed to check lock status'')
     | Inr None \<Rightarrow> ret ()
     | Inr (Some lock) \<Rightarrow>
         if lk_Owner lock \<noteq> lockOwner t then fail (Cm_Blocked_By_Other lock)
         else seq (on_checks (read_world (ae_checks e 1) 0 (\<lambda>d. GetByPR (ct_repo t) (ct_pr t) (ck_db d)))) (\<lambda>r.
           case r of
             Inl _ \<Rightarrow> stop
           | Inr applies \<Rightarrow>
               (case find (\<lambda>a. ap_Database a = sr_Database schemaResult \<and> \<not> IsTerminalApplyState (ap_State a)) applies of
                  Some a \<Rightarrow> fail (Cm_In_Progress a)
                | None \<Rightarrow> lock_Release e 1 (sr_Database schemaResult) (sr_Type schemaResult) (lockOwner t))))"

text \<open>Reject and release when the head moved on since discovery.\<close>

definition require_fresh_head :: "command_env \<Rightarrow> command_target \<Rightarrow> SchemaRequestResult \<Rightarrow> string cmd" where
  "require_fresh_head e t schemaResult =
     (let release = lock_Release e 3 (sr_Database schemaResult) (sr_Type schemaResult) (lockOwner t) in
      case ae_fresh_head e of
        None \<Rightarrow> seq (say (Cm_Error ''Failed to verify PR HEAD'')) (\<lambda>_. seq release (\<lambda>_. stop))
      | Some headSHA \<Rightarrow> seq (assertSchemaStillCurrent schemaResult headSHA) (\<lambda>rejected. if rejected then seq release (\<lambda>_. stop) else ret headSHA))"

definition auto_confirm :: "command_env \<Rightarrow> command_target \<Rightarrow> SchemaRequestResult \<Rightarrow> PlanResponse \<Rightarrow> unit cmd" where
  "auto_confirm e t schemaResult planResp =
     seq (require_fresh_head e t schemaResult) (\<lambda>headSHA.
     case enforcePassingChecks (ae_gates e 1) (ae_config e) headSHA of
       Some block \<Rightarrow> seq (say (Cm_Gate block)) (\<lambda>_. seq (lock_Release e 4 (sr_Database schemaResult) (sr_Type schemaResult) (lockOwner t)) (\<lambda>_. stop))
     | None \<Rightarrow>
         (case ae_stored_plan e (plr_PlanID planResp) of
            Inr (Some storedPlan) \<Rightarrow>
              seq (say (Cm_Plan planResp True True [])) (\<lambda>_.
              seq (storeApplyPlanCheckRecord e 3 t schemaResult planResp) (\<lambda>_.
              executeApply e 2 t schemaResult (Some storedPlan)))
          | _ \<Rightarrow>
              seq (say (Cm_Plan planResp True False ''Could not verify plan'')) (\<lambda>_.
              storeApplyPlanCheckRecord e 3 t schemaResult planResp)))"

definition handleApplyCommand :: "command_env \<Rightarrow> command_target \<Rightarrow> unit cmd" where
  "handleApplyCommand e t =
     seq (apply_gates e t) (\<lambda>schemaResult.
     seq (clear_own_lock e t schemaResult) (\<lambda>_.
     seq (run_plan e 0) (\<lambda>planResp.
     if length (FlatTables planResp) = 0 then fail (Cm_Plan planResp False False [])
     else if length (UnsafeChanges planResp) > 0 \<and> \<not> cmd_AllowUnsafe (ct_result t) then fail (Cm_Unsafe planResp)
     else seq (lock_Acquire e 2 \<lparr>lk_ID = 0, lk_DatabaseName = sr_Database schemaResult, lk_DatabaseType = sr_Type schemaResult,
            lk_Repository = ct_repo t, lk_PullRequest = ct_pr t, lk_Owner = lockOwner t, lk_PendingPlanID = plr_PlanID planResp,
            lk_CreatedAt = 0, lk_UpdatedAt = 0\<rparr>) (\<lambda>lockErr.
       case lockErr of
         Some _ \<Rightarrow> fail (Cm_Error ''Failed to acquire lock'')
       | None \<Rightarrow>
           if cmd_AutoConfirm (ct_result t) then auto_confirm e t schemaResult planResp
           else seq (require_fresh_head e t schemaResult) (\<lambda>_.
             seq (say (Cm_Plan planResp True False [])) (\<lambda>_.
             storeApplyPlanCheckRecord e 3 t schemaResult planResp))))))"

subsection \<open>The confirmation (apply\_handlers.go)\<close>

definition rollbackPendingPlanPrefix :: string where "rollbackPendingPlanPrefix = ''rollback:''"

text \<open>Up to the ownership of the lock.\<close>

definition confirm_gates :: "command_env \<Rightarrow> command_target \<Rightarrow> (SchemaRequestResult \<times> string) cmd" where
  "confirm_gates e t =
     (if \<not> ae_client e then stop
      else seq (handleNoManagedSchemaChangesForCommand e 0 t) (\<lambda>_.
      seq (schema_request e t) (\<lambda>schemaResult.
      seq (gate (enforcePRCommandActorAuthorization (Some (ae_gates e 0)) (ae_config e) (ct_requestedBy t) (sr_Database schemaResult))) (\<lambda>_.
      seq (gate (enforceReviewGate (ae_gates e 0) (ae_config e) (sr_Database schemaResult) (sr_SchemaPath schemaResult))) (\<lambda>_.
      case ae_fresh_head e of
        None \<Rightarrow> fail (Cm_Error ''Failed to fetch PR info'')
      | Some headSHA \<Rightarrow>
          seq (assertSchemaStillCurrent schemaResult headSHA) (\<lambda>rejected.
          if rejected then seq (lock_Release e 0 (sr_Database schemaResult) (sr_Type schemaResult) (lockOwner t)) (\<lambda>_. stop)
          else seq (gate (enforcePassingChecks (ae_gates e 0) (ae_config e) headSHA)) (\<lambda>_. ret (schemaResult, headSHA))))))))"

definition handleApplyConfirmCommand :: "command_env \<Rightarrow> command_target \<Rightarrow> unit cmd" where
  "handleApplyConfirmCommand e t =
     seq (confirm_gates e t) (\<lambda>(schemaResult, headSHA).
     seq (lock_Get e 1 (sr_Database schemaResult) (sr_Type schemaResult)) (\<lambda>existing.
     case existing of
       Inl _ \<Rightarrow> fail (Cm_Error ''Failed to check lock status'')
     | Inr None \<Rightarrow> fail Cm_No_Lock
     | Inr (Some lock) \<Rightarrow>
         if lk_Owner lock \<noteq> lockOwner t then fail (Cm_Blocked_By_Other lock)
         else if has_prefix (lk_PendingPlanID lock) rollbackPendingPlanPrefix then fail (Cm_Error ''This lock belongs to a rollback plan.'')
         else (case confirmationPlanForLock e lock of
             Inl _ \<Rightarrow> fail (Cm_Error ''Failed to load confirmation plan'')
           | Inr storedPlan \<Rightarrow>
               seq (assertPlanStillCurrent storedPlan headSHA) (\<lambda>rejected.
               if rejected then seq (lock_Release e 2 (sr_Database schemaResult) (sr_Type schemaResult) (lockOwner t)) (\<lambda>_. stop)
               else executeApply e 0 t schemaResult None))))"

subsection \<open>Reasoning about handlers\<close>

text \<open>
  From a lock table with \<open>P\<close>, every request the handler executes satisfies \<open>E\<close> together with the lock tables logged with it, and where the handler goes
  on with a result, \<open>Q\<close> holds of it and of the table.
\<close>

definition triple :: "(lock_db \<Rightarrow> bool) \<Rightarrow> 'a cmd \<Rightarrow> ('a \<Rightarrow> lock_db \<Rightarrow> bool) \<Rightarrow> (ApplyRequest \<times> lock_db \<times> lock_db \<Rightarrow> bool) \<Rightarrow> bool" where
  "triple P m Q E \<longleftrightarrow> (\<forall>w r w'. P (aw_locks w) \<longrightarrow> m w = (r, w') \<longrightarrow>
     (\<exists>new. aw_executed w' = aw_executed w @ new \<and> list_all E new) \<and> (case r of None \<Rightarrow> True | Some x \<Rightarrow> Q x (aw_locks w')))"

lemma triple_ret: "(\<And>d. P d \<Longrightarrow> Q x d) \<Longrightarrow> triple P (ret x) Q E"
  by (simp add: triple_def ret_def)

lemma triple_stop: "triple P stop Q E"
  by (simp add: triple_def stop_def)

lemma triple_seq:
  assumes "triple P m R E" "\<And>x. triple (R x) (f x) Q E"
  shows "triple P (seq m f) Q E"
  unfolding triple_def
proof (intro allI impI)
  fix w r w' assume P: "P (aw_locks w)" and run: "seq m f w = (r, w')"
  obtain r1 w1 where m: "m w = (r1, w1)" by fastforce
  with P assms(1) obtain new1 where one: "aw_executed w1 = aw_executed w @ new1" "list_all E new1" "case r1 of None \<Rightarrow> True | Some x \<Rightarrow> R x (aw_locks w1)"
    unfolding triple_def by blast
  show "(\<exists>new. aw_executed w' = aw_executed w @ new \<and> list_all E new) \<and> (case r of None \<Rightarrow> True | Some x \<Rightarrow> Q x (aw_locks w'))"
  proof (cases r1)
    case None
    then show ?thesis using m run one by (auto simp: seq_def)
  next
    case (Some x)
    then have "f x w1 = (r, w')" "R x (aw_locks w1)" using m run one by (auto simp: seq_def)
    with assms(2) obtain new2 where "aw_executed w' = aw_executed w1 @ new2" "list_all E new2" "case r of None \<Rightarrow> True | Some x \<Rightarrow> Q x (aw_locks w')"
      unfolding triple_def by blast
    with one show ?thesis by auto
  qed
qed

lemma triple_mono: "triple P m Q E \<Longrightarrow> (\<And>d. P' d \<Longrightarrow> P d) \<Longrightarrow> (\<And>x d. Q x d \<Longrightarrow> Q' x d) \<Longrightarrow> triple P' m Q' E"
  unfolding triple_def by (fastforce split: option.splits)

text \<open>A fact that does not depend on the table can be assumed where the precondition gives it.\<close>

lemma triple_fact: "(\<And>d. P d \<Longrightarrow> F) \<Longrightarrow> (F \<Longrightarrow> triple P m Q E) \<Longrightarrow> triple P m Q E"
  unfolding triple_def by blast

lemma triple_say: "triple P (say c) (\<lambda>_. P) E"
  by (simp add: triple_def say_def)

lemma triple_fail: "triple P (fail c) Q E"
  unfolding fail_def by (rule triple_seq [OF triple_say triple_stop])

lemma triple_gate: "triple P (gate b) (\<lambda>_ d. P d \<and> b = None) E"
  unfolding gate_def by (cases b) (auto intro: triple_ret triple_fail)

lemma triple_require: "triple P (require ok c) (\<lambda>_ d. P d \<and> ok) E"
  unfolding require_def by (auto intro: triple_ret triple_fail)

lemma triple_on_checks: "triple P (on_checks f) (\<lambda>_. P) E"
  by (auto simp: triple_def on_checks_def split: prod.splits)

lemma triple_execute: "(\<And>d d'. P d \<Longrightarrow> E (req, d, d')) \<Longrightarrow> triple P (service_ExecuteApply e req) (\<lambda>_ _. True) E"
  by (auto simp: triple_def service_ExecuteApply_def split: prod.splits)

text \<open>The lock calls, among callers that may release and take locks as they like; only the unique key of the table holds.\<close>

definition keys_kept :: "command_env \<Rightarrow> bool" where
  "keys_kept e \<longleftrightarrow> (\<forall>k i. env_wf (ae_locks e k i))"

lemma triple_lock_Get:
  assumes "keys_kept e"
  shows "triple wf_locks (lock_Get e k database dbType) (\<lambda>r d. wf_locks d \<and> (\<forall>l. r = Inr (Some l) \<longrightarrow> lk_Get database dbType d = Some l)) E"
  unfolding triple_def
proof (intro allI impI)
  fix w r w' assume wf: "wf_locks (aw_locks w)" and run: "lock_Get e k database dbType w = (r, w')"
  obtain r1 d1 where get: "exec_stmt (ae_locks e k 0) 0 (get_stmt database dbType) (aw_locks w) = (r1, d1)" by fastforce
  have "wf_locks d1" using assms by (intro exec_wf(1) [OF _ wf get]) (simp add: keys_kept_def)
  moreover have "lk_Get database dbType d1 = Some l" if "r1 = Inr (Some l)" for l
    using get that by (auto simp: exec_stmt_def get_stmt_def Let_def split: option.splits)
  ultimately show "(\<exists>new. aw_executed w' = aw_executed w @ new \<and> list_all E new)
      \<and> (case r of None \<Rightarrow> True | Some x \<Rightarrow> wf_locks (aw_locks w') \<and> (\<forall>l. x = Inr (Some l) \<longrightarrow> lk_Get database dbType (aw_locks w') = Some l))"
    using run get by (auto simp: lock_Get_def)
qed

lemma triple_lock_Acquire:
  assumes "keys_kept e"
  shows "triple wf_locks (lock_Acquire e k lock) (\<lambda>r d. wf_locks d \<and> (r = None \<longrightarrow> held_by (lk_DatabaseName lock) (lk_DatabaseType lock) (lk_Owner lock) d)) E"
  unfolding triple_def
proof (intro allI impI)
  fix w r w' assume wf: "wf_locks (aw_locks w)" and run: "lock_Acquire e k lock w = (r, w')"
  obtain r1 d1 where acq: "lk_Acquire (ae_lock_cancelled e) (ae_locks e k) (ae_now e) lock (aw_locks w) = (r1, d1)" by fastforce
  have "wf_locks d1" "r1 = None \<Longrightarrow> held_by (lk_DatabaseName lock) (lk_DatabaseType lock) (lk_Owner lock) d1"
    using acquire_any.withLockRetry_spec [of "aw_locks w" "ae_locks e k" "ae_lock_cancelled e" "ae_now e" lock r1 d1] assms wf acq
    by (auto simp: lk_Acquire_def keys_kept_def)
  then show "(\<exists>new. aw_executed w' = aw_executed w @ new \<and> list_all E new)
      \<and> (case r of None \<Rightarrow> True | Some x \<Rightarrow> wf_locks (aw_locks w') \<and> (x = None \<longrightarrow> held_by (lk_DatabaseName lock) (lk_DatabaseType lock) (lk_Owner lock) (aw_locks w')))"
    using run acq by (auto simp: lock_Acquire_def)
qed

lemma triple_lock_Release:
  assumes "keys_kept e"
  shows "triple wf_locks (lock_Release e k database dbType owner) (\<lambda>_. wf_locks) E"
  using assms release_wf by (auto simp: triple_def lock_Release_def keys_kept_def)

lemma triple_run_plan: "triple P (run_plan e k) (\<lambda>planResp d. P d \<and> executePlanWithTransientRetry e k = Inr planResp) E"
  unfolding run_plan_def by (cases "executePlanWithTransientRetry e k") (auto intro: triple_fail triple_ret)

lemma triple_follow_apply: "triple (\<lambda>_. True) (follow_apply e t schemaResult r) (\<lambda>_ _. True) E"
  unfolding follow_apply_def
  by (cases r) (auto split: sum.splits option.splits intro!: triple_seq [OF triple_require] triple_seq [OF triple_on_checks] triple_seq [OF triple_say]
    triple_fail triple_stop triple_ret)

definition planned_request :: "command_target \<Rightarrow> PlanResponse \<Rightarrow> ApplyRequest" where
  "planned_request t planResp = \<lparr>arq_PlanID = plr_PlanID planResp, arq_Environment = ct_environment t, arq_Options = apply_options (ct_result t),
     arq_Caller = caller_of t, arq_InstallationID = ct_installation t\<rparr>"

text \<open>What \<open>executeApply\<close> has checked of the plan whose request it hands over.\<close>

definition plan_cleared :: "command_env \<Rightarrow> nat \<Rightarrow> command_target \<Rightarrow> stored_plan option \<Rightarrow> PlanResponse \<Rightarrow> bool" where
  "plan_cleared e k t storedPlan planResp \<longleftrightarrow> executePlanWithTransientRetry e k = Inr planResp \<and> FlatTables planResp \<noteq> []
     \<and> (case storedPlan of None \<Rightarrow> True | Some p \<Rightarrow> ddlMatchesStoredPlan planResp p = Some True)
     \<and> (UnsafeChanges planResp = [] \<or> cmd_AllowUnsafe (ct_result t))"

lemma triple_executeApply:
  assumes "keys_kept e" "\<And>d. P d \<Longrightarrow> wf_locks d"
    and "\<And>planResp d d'. P d \<Longrightarrow> plan_cleared e k t storedPlan planResp \<Longrightarrow> E (planned_request t planResp, d, d')"
  shows "triple P (executeApply e k t schemaResult storedPlan) (\<lambda>_ _. True) E"
  unfolding executeApply_def planned_request_def [symmetric]
proof (rule triple_seq [OF triple_run_plan])
  fix planResp
  let ?P = "\<lambda>d. P d \<and> executePlanWithTransientRetry e k = Inr planResp"
  have release: "triple ?P (seq (lock_Release e 5 (sr_Database schemaResult) (sr_Type schemaResult) (lockOwner t)) (\<lambda>_. fail Cm_No_Changes)) (\<lambda>_ _. True) E"
    by (rule triple_seq [OF triple_mono [OF triple_lock_Release [OF assms(1)]] triple_fail]) (use assms(2) in auto)
  have run: "triple ?P (seq (service_ExecuteApply e (planned_request t planResp)) (follow_apply e t schemaResult)) (\<lambda>_ _. True) E"
    if "FlatTables planResp \<noteq> []" "UnsafeChanges planResp = [] \<or> cmd_AllowUnsafe (ct_result t)"
      "\<forall>p. storedPlan = Some p \<longrightarrow> ddlMatchesStoredPlan planResp p \<noteq> None \<and> ddlMatchesStoredPlan planResp p \<noteq> Some False"
  proof (rule triple_seq [OF triple_execute triple_follow_apply])
    fix d d' assume d: "?P d"
    have "ddlMatchesStoredPlan planResp p = Some True" if "storedPlan = Some p" for p
      using that \<open>\<forall>p. _\<close> by (metis (full_types) not_None_eq)
    then show "E (planned_request t planResp, d, d')" using d that assms(3) by (auto simp: plan_cleared_def split: option.split)
  qed
  show "triple ?P (if length (FlatTables planResp) = 0 then
       seq (lock_Release e 5 (sr_Database schemaResult) (sr_Type schemaResult) (lockOwner t)) (\<lambda>_. fail Cm_No_Changes)
     else if (case storedPlan of None \<Rightarrow> False | Some p \<Rightarrow> ddlMatchesStoredPlan planResp p = None) then stop
     else if (case storedPlan of None \<Rightarrow> False | Some p \<Rightarrow> ddlMatchesStoredPlan planResp p = Some False) then
       fail (Cm_Plan planResp True False ''Schema changes differ from auto-plan'')
     else if length (UnsafeChanges planResp) > 0 \<and> \<not> cmd_AllowUnsafe (ct_result t) then fail (Cm_Unsafe planResp)
     else if \<not> ae_factory e then stop
     else seq (service_ExecuteApply e (planned_request t planResp)) (follow_apply e t schemaResult)) (\<lambda>_ _. True) E"
    using release run by (auto intro: triple_stop triple_fail split: option.split)
qed

subsection \<open>What the gates leave behind\<close>

definition requested_schema :: "command_env \<Rightarrow> command_target \<Rightarrow> SchemaRequestResult \<Rightarrow> bool" where
  "requested_schema e t schemaResult \<longleftrightarrow> (\<exists>found. createManagedSchemaRequestFromPR e t = Inr found
     \<and> attachServerEnvironments (ae_config e) found (ct_environment t) = Inr schemaResult)"

lemma triple_schema_request: "triple P (schema_request e t) (\<lambda>schemaResult d. P d \<and> requested_schema e t schemaResult) E"
  unfolding schema_request_def requested_schema_def by (auto split: sum.split intro!: triple_fail triple_ret)

lemma triple_handleNoManaged: "triple P (handleNoManagedSchemaChangesForCommand e k t) (\<lambda>_. P) E"
  unfolding handleNoManagedSchemaChangesForCommand_def
  by (auto split: sum.split intro!: triple_fail triple_ret triple_seq [OF triple_on_checks])

text \<open>Authorised, reviewed, and checks passing at a head.\<close>

definition gates_open :: "command_env \<Rightarrow> command_target \<Rightarrow> SchemaRequestResult \<Rightarrow> string \<Rightarrow> bool" where
  "gates_open e t schemaResult headSHA \<longleftrightarrow> requested_schema e t schemaResult
     \<and> enforcePRCommandActorAuthorization (Some (ae_gates e 0)) (ae_config e) (ct_requestedBy t) (sr_Database schemaResult) = None
     \<and> enforceReviewGate (ae_gates e 0) (ae_config e) (sr_Database schemaResult) (sr_SchemaPath schemaResult) = None
     \<and> enforcePassingChecks (ae_gates e 0) (ae_config e) headSHA = None"

definition promotion_open :: "command_env \<Rightarrow> command_target \<Rightarrow> SchemaRequestResult \<Rightarrow> bool" where
  "promotion_open e t schemaResult \<longleftrightarrow>
     checkPriorEnvironments (ae_gates e 0) (ae_reads e) (ae_config e) (ae_aggregate_base e) (ct_environment t) (sr_Environments schemaResult) = None"

lemma triple_apply_gates:
  "triple P (apply_gates e t) (\<lambda>schemaResult d. P d \<and> promotion_open e t schemaResult
     \<and> (\<exists>headSHA. ae_cached_head e = Some headSHA \<and> gates_open e t schemaResult headSHA)) E"
  unfolding apply_gates_def
  apply (cases "ae_client e"; simp add: triple_stop)
  apply (rule triple_seq [OF triple_handleNoManaged])
  apply (rule triple_seq [OF triple_schema_request])
  apply (rule triple_seq [OF triple_gate])
  apply (rule triple_seq [OF triple_on_checks])
  subgoal for _ schemaResult _ err
    apply (cases err; simp add: triple_fail)
    apply (rule triple_seq [OF triple_gate])
    apply (cases "ae_cached_head e"; simp add: triple_fail)
    apply (rule triple_seq [OF triple_gate])
    apply (rule triple_seq [OF triple_gate])
    apply (rule triple_ret)
    apply (auto simp: gates_open_def promotion_open_def)
    done
  done

lemma triple_assertSchemaStillCurrent:
  "triple P (assertSchemaStillCurrent schemaResult headSHA) (\<lambda>rejected d. P d \<and> (\<not> rejected \<longrightarrow> sr_HeadSHA schemaResult = headSHA)) E"
  unfolding assertSchemaStillCurrent_def by (auto intro!: triple_ret triple_seq [OF triple_say])

lemma triple_assertPlanStillCurrent:
  "triple P (assertPlanStillCurrent plan headSHA)
     (\<lambda>rejected d. P d \<and> (\<not> rejected \<longrightarrow> (\<forall>p. plan = Some p \<longrightarrow> spl_HeadSHA p = [] \<or> spl_HeadSHA p = headSHA))) E"
  unfolding assertPlanStillCurrent_def by (auto split: option.split intro!: triple_ret triple_seq [OF triple_say])

text \<open>A release before an early return, from any state that is well formed.\<close>

lemma triple_release_stop:
  assumes "keys_kept e" "\<And>d. P d \<Longrightarrow> wf_locks d"
  shows "triple P (seq (lock_Release e k database dbType owner) (\<lambda>_. stop)) Q E"
  by (rule triple_seq [OF triple_mono [OF triple_lock_Release [OF assms(1)] assms(2)] triple_stop])

lemma triple_confirm_gates:
  assumes "keys_kept e"
  shows "triple wf_locks (confirm_gates e t) (\<lambda>(schemaResult, headSHA) d. wf_locks d \<and> gates_open e t schemaResult headSHA
     \<and> ae_fresh_head e = Some headSHA \<and> sr_HeadSHA schemaResult = headSHA) E"
  unfolding confirm_gates_def
  apply (cases "ae_client e"; simp add: triple_stop)
  apply (rule triple_seq [OF triple_handleNoManaged])
  apply (rule triple_seq [OF triple_schema_request])
  apply (rule triple_seq [OF triple_gate])
  apply (rule triple_seq [OF triple_gate])
  subgoal for _ schemaResult
    apply (cases "ae_fresh_head e"; simp add: triple_fail)
    apply (rule triple_seq [OF triple_assertSchemaStillCurrent])
    subgoal for headSHA rejected
      apply (cases rejected; simp)
       apply (rule triple_release_stop [OF assms], simp)
      apply (rule triple_seq [OF triple_gate])
      apply (rule triple_ret)
      apply (auto simp: gates_open_def)
      done
    done
  done

lemma triple_require_fresh_head:
  assumes "keys_kept e" "\<And>d. P d \<Longrightarrow> wf_locks d"
  shows "triple P (require_fresh_head e t schemaResult) (\<lambda>headSHA d. P d \<and> ae_fresh_head e = Some headSHA \<and> sr_HeadSHA schemaResult = headSHA) E"
  unfolding require_fresh_head_def Let_def
  apply (cases "ae_fresh_head e"; simp)
   apply (rule triple_seq [OF triple_say])
   apply (rule triple_release_stop [OF assms], assumption)
  apply (rule triple_seq [OF triple_assertSchemaStillCurrent])
  subgoal for headSHA rejected
    by (cases rejected) (auto intro!: triple_release_stop [OF assms(1)] triple_ret simp: assms(2))
  done

lemma triple_clear_own_lock:
  assumes "keys_kept e"
  shows "triple wf_locks (clear_own_lock e t schemaResult) (\<lambda>_. wf_locks) E"
  unfolding clear_own_lock_def
  apply (rule triple_seq [OF triple_lock_Get [OF assms]])
  subgoal for existing
    apply (cases existing; simp add: triple_fail split: option.split)
    apply (intro conjI impI allI)
     apply (rule triple_ret, simp)
    apply (rule triple_seq [OF triple_on_checks])
    subgoal for _ lock r
      by (cases r) (auto split: option.split intro!: triple_stop triple_fail triple_mono [OF triple_lock_Release [OF assms]])
    done
  done

subsection \<open>Properties of the commands\<close>

text \<open>What has to hold when \<open>apply -y\<close> hands a request over.\<close>

definition apply_cleared :: "command_env \<Rightarrow> command_target \<Rightarrow> ApplyRequest \<times> lock_db \<times> lock_db \<Rightarrow> bool" where
  "apply_cleared e t x \<longleftrightarrow> (case x of (req, locks, _) \<Rightarrow> cmd_AutoConfirm (ct_result t)
     \<and> (\<exists>schemaResult cachedSHA freshSHA shown storedPlan planResp.
          ae_cached_head e = Some cachedSHA \<and> gates_open e t schemaResult cachedSHA \<and> promotion_open e t schemaResult
        \<and> ae_fresh_head e = Some freshSHA \<and> sr_HeadSHA schemaResult = freshSHA \<and> enforcePassingChecks (ae_gates e 1) (ae_config e) freshSHA = None
        \<and> held_by (sr_Database schemaResult) (sr_Type schemaResult) (lockOwner t) locks
        \<and> executePlanWithTransientRetry e 0 = Inr shown \<and> ae_stored_plan e (plr_PlanID shown) = Inr (Some storedPlan)
        \<and> plan_cleared e 2 t (Some storedPlan) planResp \<and> req = planned_request t planResp))"

lemma triple_store_plan_check: "triple P (storeApplyPlanCheckRecord e k t schemaResult planResp) (\<lambda>_. P) E"
  unfolding storeApplyPlanCheckRecord_def by (rule triple_on_checks)

lemma triple_auto_confirm:
  assumes "keys_kept e" "\<And>d. P d \<Longrightarrow> wf_locks d"
    and "\<And>headSHA storedPlan planned d d'. P d \<Longrightarrow> ae_fresh_head e = Some headSHA \<Longrightarrow> sr_HeadSHA schemaResult = headSHA \<Longrightarrow>
      enforcePassingChecks (ae_gates e 1) (ae_config e) headSHA = None \<Longrightarrow> ae_stored_plan e (plr_PlanID planResp) = Inr (Some storedPlan) \<Longrightarrow>
      plan_cleared e 2 t (Some storedPlan) planned \<Longrightarrow> E (planned_request t planned, d, d')"
  shows "triple P (auto_confirm e t schemaResult planResp) (\<lambda>_ _. True) E"
  unfolding auto_confirm_def
  apply (rule triple_seq [OF triple_require_fresh_head [OF assms(1)]])
   apply (erule assms(2))
  subgoal for headSHA
    apply (cases "enforcePassingChecks (ae_gates e 1) (ae_config e) headSHA"; simp)
     prefer 2
     apply (rule triple_seq [OF triple_say], rule triple_release_stop [OF assms(1)], simp add: assms(2))
    apply (cases "ae_stored_plan e (plr_PlanID planResp)"; simp split: option.split)
     apply (rule triple_seq [OF triple_say], rule triple_mono [OF triple_store_plan_check]; simp)
    apply (intro conjI impI allI)
     apply (rule triple_seq [OF triple_say], rule triple_mono [OF triple_store_plan_check]; simp)
    apply (rule triple_seq [OF triple_say], rule triple_seq [OF triple_store_plan_check])
    apply (rule triple_executeApply [OF assms(1)])
     apply (simp add: assms(2))
    apply (auto intro: assms(3))
    done
  done

lemma triple_handleApplyCommand:
  assumes "keys_kept e"
  shows "triple wf_locks (handleApplyCommand e t) (\<lambda>_ _. True) (apply_cleared e t)"
  unfolding handleApplyCommand_def
proof (rule triple_seq [OF triple_apply_gates])
  fix schemaResult
  let ?gates = "promotion_open e t schemaResult \<and> (\<exists>headSHA. ae_cached_head e = Some headSHA \<and> gates_open e t schemaResult headSHA)"
  let ?lock = "\<lambda>planResp. \<lparr>lk_ID = 0, lk_DatabaseName = sr_Database schemaResult, lk_DatabaseType = sr_Type schemaResult, lk_Repository = ct_repo t,
    lk_PullRequest = ct_pr t, lk_Owner = lockOwner t, lk_PendingPlanID = plr_PlanID planResp, lk_CreatedAt = 0, lk_UpdatedAt = 0\<rparr>"
  let ?held = "\<lambda>d. wf_locks d \<and> held_by (sr_Database schemaResult) (sr_Type schemaResult) (lockOwner t) d"
  have confirmed: "triple ?held (if cmd_AutoConfirm (ct_result t) then auto_confirm e t schemaResult planResp
      else seq (require_fresh_head e t schemaResult) (\<lambda>_. seq (say (Cm_Plan planResp True False [])) (\<lambda>_. storeApplyPlanCheckRecord e 3 t schemaResult planResp)))
      (\<lambda>_ _. True) (apply_cleared e t)"
    if "?gates" "executePlanWithTransientRetry e 0 = Inr planResp" for planResp
  proof (cases "cmd_AutoConfirm (ct_result t)")
    case True
    have "triple ?held (auto_confirm e t schemaResult planResp) (\<lambda>_ _. True) (apply_cleared e t)"
      using that True by (intro triple_auto_confirm [OF assms]) (auto simp: apply_cleared_def)
    with True show ?thesis by simp
  next
    case False
    have "triple ?held (seq (require_fresh_head e t schemaResult) (\<lambda>_. seq (say (Cm_Plan planResp True False [])) (\<lambda>_.
        storeApplyPlanCheckRecord e 3 t schemaResult planResp))) (\<lambda>_ _. True) (apply_cleared e t)"
      by (rule triple_seq [OF triple_require_fresh_head [OF assms]]; (rule triple_seq [OF triple_say])?) (auto intro: triple_mono [OF triple_store_plan_check])
    with False show ?thesis by simp
  qed
  have cleared: "triple (\<lambda>d. wf_locks d \<and> ?gates) (clear_own_lock e t schemaResult) (\<lambda>_. wf_locks) (apply_cleared e t)"
    by (rule triple_mono [OF triple_clear_own_lock [OF assms]]) auto
  show "triple (\<lambda>d. wf_locks d \<and> ?gates)
     (seq (clear_own_lock e t schemaResult) (\<lambda>_. seq (run_plan e 0) (\<lambda>planResp.
       if length (FlatTables planResp) = 0 then fail (Cm_Plan planResp False False [])
       else if length (UnsafeChanges planResp) > 0 \<and> \<not> cmd_AllowUnsafe (ct_result t) then fail (Cm_Unsafe planResp)
       else seq (lock_Acquire e 2 (?lock planResp)) (\<lambda>lockErr. case lockErr of
           Some _ \<Rightarrow> fail (Cm_Error ''Failed to acquire lock'')
         | None \<Rightarrow> if cmd_AutoConfirm (ct_result t) then auto_confirm e t schemaResult planResp
             else seq (require_fresh_head e t schemaResult) (\<lambda>_. seq (say (Cm_Plan planResp True False [])) (\<lambda>_.
               storeApplyPlanCheckRecord e 3 t schemaResult planResp)))))) (\<lambda>_ _. True) (apply_cleared e t)"
    (is "triple _ (seq _ (\<lambda>_. seq _ ?rest)) _ _")
  proof (rule triple_fact [where F = ?gates], simp, rule triple_seq [OF cleared])
    assume gates: "?gates"
    show "triple wf_locks (seq (run_plan e 0) ?rest) (\<lambda>_ _. True) (apply_cleared e t)"
    proof (rule triple_seq [OF triple_run_plan], rule triple_fact)
      fix planResp assume plan: "executePlanWithTransientRetry e 0 = Inr planResp"
      have "triple wf_locks (?rest planResp) (\<lambda>_ _. True) (apply_cleared e t)"
        using confirmed [OF gates plan]
        by (auto intro!: triple_fail triple_seq [OF triple_lock_Acquire [OF assms]] split: option.split)
      then show "triple (\<lambda>d. wf_locks d \<and> executePlanWithTransientRetry e 0 = Inr planResp) (?rest planResp) (\<lambda>_ _. True) (apply_cleared e t)"
        by (rule triple_mono) auto
    qed simp
  qed
qed

text \<open>
  Nothing is applied past a gate (C9): every request that the apply command hands to the service comes from an automatic confirmation by an authorised
  actor, on a reviewed pull request whose checks passed twice, the second time at the head the schema was read from, in an environment whose predecessors are
  done; the command took the database lock for its pull request before, up to letter case of the owner, in the table as its last call on it left it; and the
  statements it applies are those of the plan that was shown. This holds for any plans, store errors and answers of GitHub, and for callers that do
  what they like with the locks in between, as long as the unique key of the lock table holds; they may take the lock away before the request is handed over.
\<close>

theorem apply_executes_only_when_cleared:
  assumes "keys_kept e" "wf_locks (aw_locks w)" "handleApplyCommand e t w = (r, w')"
  shows "\<exists>new. aw_executed w' = aw_executed w @ new \<and> list_all (apply_cleared e t) new"
  using triple_handleApplyCommand [OF assms(1), of t] assms(2,3) unfolding triple_def by blast

text \<open>What has to hold when a confirmation hands a request over.\<close>

definition confirm_cleared :: "command_env \<Rightarrow> command_target \<Rightarrow> ApplyRequest \<times> lock_db \<times> lock_db \<Rightarrow> bool" where
  "confirm_cleared e t x \<longleftrightarrow> (case x of (req, locks, _) \<Rightarrow>
     (\<exists>schemaResult headSHA lock storedPlan planResp.
          ae_fresh_head e = Some headSHA \<and> sr_HeadSHA schemaResult = headSHA \<and> gates_open e t schemaResult headSHA
        \<and> lk_Get (sr_Database schemaResult) (sr_Type schemaResult) locks = Some lock
        \<and> lk_Owner lock = lockOwner t \<and> \<not> has_prefix (lk_PendingPlanID lock) rollbackPendingPlanPrefix
        \<and> confirmationPlanForLock e lock = Inr storedPlan
        \<and> (case storedPlan of None \<Rightarrow> True | Some p \<Rightarrow> spl_HeadSHA p = [] \<or> spl_HeadSHA p = headSHA)
        \<and> plan_cleared e 0 t None planResp \<and> req = planned_request t planResp))"

lemma triple_handleApplyConfirmCommand:
  assumes "keys_kept e"
  shows "triple wf_locks (handleApplyConfirmCommand e t) (\<lambda>_ _. True) (confirm_cleared e t)"
  unfolding handleApplyConfirmCommand_def
proof (rule triple_seq [OF triple_confirm_gates [OF assms]])
  fix gated :: "SchemaRequestResult \<times> string"
  obtain schemaResult headSHA where gated: "gated = (schemaResult, headSHA)" by fastforce
  let ?gates = "gates_open e t schemaResult headSHA \<and> ae_fresh_head e = Some headSHA \<and> sr_HeadSHA schemaResult = headSHA"
  let ?held = "\<lambda>lock d. wf_locks d \<and> lk_Get (sr_Database schemaResult) (sr_Type schemaResult) d = Some lock"
  have run: "triple (?held lock) (seq (assertPlanStillCurrent storedPlan headSHA) (\<lambda>rejected.
       if rejected then seq (lock_Release e 2 (sr_Database schemaResult) (sr_Type schemaResult) (lockOwner t)) (\<lambda>_. stop)
       else executeApply e 0 t schemaResult None)) (\<lambda>_ _. True) (confirm_cleared e t)"
    if "?gates" "lk_Owner lock = lockOwner t" "\<not> has_prefix (lk_PendingPlanID lock) rollbackPendingPlanPrefix" "confirmationPlanForLock e lock = Inr storedPlan"
    for lock storedPlan
  proof (rule triple_seq [OF triple_assertPlanStillCurrent])
    fix rejected
    show "triple (\<lambda>d. ?held lock d \<and> (\<not> rejected \<longrightarrow> (\<forall>p. storedPlan = Some p \<longrightarrow> spl_HeadSHA p = [] \<or> spl_HeadSHA p = headSHA)))
       (if rejected then seq (lock_Release e 2 (sr_Database schemaResult) (sr_Type schemaResult) (lockOwner t)) (\<lambda>_. stop)
        else executeApply e 0 t schemaResult None) (\<lambda>_ _. True) (confirm_cleared e t)"
    proof (cases rejected)
      case True
      then show ?thesis by (auto intro: triple_release_stop [OF assms])
    next
      case False
      have ok: "confirm_cleared e t (planned_request t planResp, d, d')"
        if "?held lock d" "\<forall>p. storedPlan = Some p \<longrightarrow> spl_HeadSHA p = [] \<or> spl_HeadSHA p = headSHA" "plan_cleared e 0 t None planResp" for planResp d d'
        unfolding confirm_cleared_def prod.case
        using that \<open>?gates\<close> \<open>lk_Owner lock = _\<close> \<open>\<not> has_prefix _ _\<close> \<open>confirmationPlanForLock e lock = _\<close>
        by (intro exI [of _ schemaResult] exI [of _ headSHA] exI [of _ lock] exI [of _ storedPlan] exI [of _ planResp]) (auto split: option.split)
      have "triple (\<lambda>d. ?held lock d \<and> (\<not> rejected \<longrightarrow> (\<forall>p. storedPlan = Some p \<longrightarrow> spl_HeadSHA p = [] \<or> spl_HeadSHA p = headSHA)))
         (executeApply e 0 t schemaResult None) (\<lambda>_ _. True) (confirm_cleared e t)"
        using False ok by (intro triple_executeApply [OF assms]) blast+
      with False show ?thesis by simp
    qed
  qed
  let ?confirm = "\<lambda>lock. case confirmationPlanForLock e lock of
             Inl _ \<Rightarrow> fail (Cm_Error ''Failed to load confirmation plan'')
           | Inr storedPlan \<Rightarrow>
               seq (assertPlanStillCurrent storedPlan headSHA) (\<lambda>rejected.
               if rejected then seq (lock_Release e 2 (sr_Database schemaResult) (sr_Type schemaResult) (lockOwner t)) (\<lambda>_. stop)
               else executeApply e 0 t schemaResult None)"
  have confirm: "triple (?held lock) (?confirm lock) (\<lambda>_ _. True) (confirm_cleared e t)"
    if "?gates" "lk_Owner lock = lockOwner t" "\<not> has_prefix (lk_PendingPlanID lock) rollbackPendingPlanPrefix" for lock
    by (cases "confirmationPlanForLock e lock") (simp_all add: triple_fail run [OF that])
  show "triple (case gated of (schemaResult, headSHA) \<Rightarrow> (\<lambda>d. wf_locks d \<and> gates_open e t schemaResult headSHA
       \<and> ae_fresh_head e = Some headSHA \<and> sr_HeadSHA schemaResult = headSHA)) (case gated of (schemaResult, headSHA) \<Rightarrow>
     seq (lock_Get e 1 (sr_Database schemaResult) (sr_Type schemaResult)) (\<lambda>existing.
     case existing of
       Inl _ \<Rightarrow> fail (Cm_Error ''Failed to check lock status'')
     | Inr None \<Rightarrow> fail Cm_No_Lock
     | Inr (Some lock) \<Rightarrow>
         if lk_Owner lock \<noteq> lockOwner t then fail (Cm_Blocked_By_Other lock)
         else if has_prefix (lk_PendingPlanID lock) rollbackPendingPlanPrefix then fail (Cm_Error ''This lock belongs to a rollback plan.'')
         else (case confirmationPlanForLock e lock of
             Inl _ \<Rightarrow> fail (Cm_Error ''Failed to load confirmation plan'')
           | Inr storedPlan \<Rightarrow>
               seq (assertPlanStillCurrent storedPlan headSHA) (\<lambda>rejected.
               if rejected then seq (lock_Release e 2 (sr_Database schemaResult) (sr_Type schemaResult) (lockOwner t)) (\<lambda>_. stop)
               else executeApply e 0 t schemaResult None)))) (\<lambda>_ _. True) (confirm_cleared e t)"
    unfolding gated prod.case
    apply (rule triple_fact [where F = ?gates], simp)
    apply (rule triple_mono [where P = wf_locks and Q = "\<lambda>_ _. True"])
      apply (rule triple_seq [OF triple_lock_Get [OF assms]])
    subgoal for existing
    proof (cases "\<exists>lock. existing = Inr (Some lock) \<and> lk_Owner lock = lockOwner t \<and> \<not> has_prefix (lk_PendingPlanID lock) rollbackPendingPlanPrefix")
      case True
      assume gates: ?gates
      from True obtain lock where lock: "existing = Inr (Some lock)" "lk_Owner lock = lockOwner t" "\<not> has_prefix (lk_PendingPlanID lock) rollbackPendingPlanPrefix"
        by blast
      show ?thesis using confirm [OF gates lock(2,3)] lock by simp
    next
      case False
      then show ?thesis by (auto split: sum.split option.split intro: triple_fail)
    qed
     apply auto
    done
qed

text \<open>
  A confirmation repeats the gates (C10): every request that \<open>apply-confirm\<close> hands to the service comes from an authorised actor on a reviewed pull request
  whose checks pass at the current head, which is the head the schema was read from. The lock of the database, as the confirmation read it from the lock
  table, belongs to the pull request and is not that of a rollback, and where it names a plan with a head, that head is the current one too. Other callers may do
  what they like with the locks, as long as the unique key of the table holds; they may take the lock away after it was read.
\<close>

theorem confirm_executes_only_when_cleared:
  assumes "keys_kept e" "wf_locks (aw_locks w)" "handleApplyConfirmCommand e t w = (r, w')"
  shows "\<exists>new. aw_executed w' = aw_executed w @ new \<and> list_all (confirm_cleared e t) new"
  using triple_handleApplyConfirmCommand [OF assms(1), of t] assms(2,3) unfolding triple_def by blast

subsection \<open>The comparison of plans\<close>

lemma count_up_mset: "count_up ddls x = int (count (mset ddls) x)"
  by (induction ddls) (auto simp: Let_def)

lemma count_down_mset: "count_down (\<lambda>x. int (count M x)) ddls \<longleftrightarrow> mset ddls \<subseteq># M"
proof (induction ddls arbitrary: M)
  case (Cons ddl ddls)
  show ?case
  proof (cases "ddl \<in># M")
    case True
    then have "(\<lambda>x. int (count M x))(ddl := int (count M ddl) - 1) = (\<lambda>x. int (count (M - {#ddl#}) x))"
      by (auto simp: fun_eq_iff of_nat_diff Suc_leI)
    then have "count_down (\<lambda>x. int (count M x)) (ddl # ddls) = count_down (\<lambda>x. int (count (M - {#ddl#}) x)) ddls"
      using True by (subst count_down.simps) (simp only: of_nat_le_0_iff count_eq_zero_iff not_not if_True simp_thms if_False)
    moreover have "mset (ddl # ddls) \<subseteq># M \<longleftrightarrow> mset ddls \<subseteq># M - {#ddl#}" using True by (simp add: insert_subset_eq_iff)
    ultimately show ?thesis using Cons.IH by (simp only:)
  next
    case False
    then have "\<not> mset (ddl # ddls) \<subseteq># M" using mset_subset_eqD [of "mset (ddl # ddls)" M ddl] by auto
    then show ?thesis using False by (simp add: not_in_iff)
  qed
qed simp

text \<open>
  The drift check is exact (C26): the plan made for execution matches the stored one when both have the same statements, each as often, whatever their order.
\<close>

theorem ddl_match_is_multiset_equality:
  assumes "FlatDDLChanges (spl_Namespaces p) = Some changes"
  shows "ddlMatchesStoredPlan r p = Some (mset (map tcr_DDL (FlatTables r)) = mset (map tc_DDL changes))"
proof (cases "length (FlatTables r) = length changes")
  case True
  let ?new = "mset (map tcr_DDL (FlatTables r))" and ?old = "mset (map tc_DDL changes)"
  have counts: "count_up (map tc_DDL changes) = (\<lambda>x. int (count ?old x))" by (simp add: fun_eq_iff count_up_mset)
  have "size ?new = size ?old" using True by simp
  then have "?new \<subseteq># ?old \<longleftrightarrow> ?new = ?old" by (metis mset_subset_size subset_mset.dual_order.order_iff_strict nat_less_le)
  then show ?thesis using assms True count_down_mset [of ?old "map tcr_DDL (FlatTables r)"] counts by (simp add: ddlMatchesStoredPlan_def)
next
  case False
  then have "mset (map tcr_DDL (FlatTables r)) \<noteq> mset (map tc_DDL changes)" by (metis length_map size_mset)
  then show ?thesis using assms False by (simp add: ddlMatchesStoredPlan_def)
qed

subsection \<open>The commands at work\<close>

text \<open>
  Carol applies one statement to the database orders, which the server has in staging and production; staging waits for its apply. The server asks for
  authorisation, review and passing checks (\<open>sample_config\<close>), or only for the promotion order (\<open>open_config\<close>).
\<close>

definition sample_plan :: "string \<Rightarrow> string \<Rightarrow> PlanResponse" where
  "sample_plan i ddl = \<lparr>plr_PlanID = i, plr_Changes = [\<lparr>scr_Namespace = ''orders'', scr_TableChanges = [\<lparr>tcr_TableName = ''t'', tcr_Namespace = ''orders'',
     tcr_DDL = ddl, tcr_ChangeType = ''alter'', tcr_IsUnsafe = False, tcr_UnsafeReason = []\<rparr>], scr_Metadata = []\<rparr>], plr_Errors = []\<rparr>"

definition sample_stored_plan :: "string \<Rightarrow> string \<Rightarrow> stored_plan" where
  "sample_stored_plan i ddl = \<lparr>spl_PlanIdentifier = i, spl_Environment = ''staging'', spl_HeadSHA = ''abc'',
     spl_Namespaces = [(''orders'', Some \<lparr>np_Tables = [\<lparr>tc_Namespace = [], tc_Table = ''t'', tc_DDL = ddl, tc_Operation = ''alter''\<rparr>], np_Shards = [],
       np_OriginalFiles = [], np_OriginalFilesCaptured = True, np_Artifacts = []\<rparr>)]\<rparr>"

definition open_config :: ServerConfig where
  "open_config = sample_config\<lparr>sv_PRCommandAuthorization := \<lparr>pa_Enabled = False, pa_AdminTeams = [], pa_AdminUsers = []\<rparr>,
     sv_ReviewPolicy := (sv_ReviewPolicy sample_config)\<lparr>rp_Enabled := False\<rparr>, sv_RequirePassingChecks := Some False, sv_RequiredChecks := []\<rparr>"

definition sample_command_env :: "ServerConfig \<Rightarrow> (nat \<Rightarrow> string) \<Rightarrow> command_env" where
  "sample_command_env config ddl = \<lparr>ae_config = config\<lparr>sv_Databases := [(''orders'', sample_database\<lparr>dc_Environments :=
       [(''staging'', sample_env_config), (''production'', sample_env_config)]\<rparr>)]\<rparr>,
     ae_check_config = sample_cfg [], ae_aggregate_base = ''SchemaBot'', ae_client = True, ae_factory = True,
     ae_files = Inr [\<lparr>prf_Filename = ''db/t.sql'', prf_Status = ''modified''\<rparr>],
     ae_schema = (\<lambda>_ _ _. Inr \<lparr>sr_Database = ''orders'', sr_Type = ''mysql'', sr_HeadSHA = ''abc'', sr_SchemaPath = ''db'', sr_Environments = []\<rparr>),
     ae_gates = (\<lambda>_. sample_gate ''completed''),
     ae_reads = sample_reads\<lparr>pe_stored := (\<lambda>_ _. Inr (Some (sample_check ''completed'' None ''action_required'')))\<rparr>,
     ae_gh = sample_gh, ae_cached_head = Some ''abc'', ae_fresh_head = Some ''abc'', ae_plan = (\<lambda>k. Inr (sample_plan (''p'' @ itoa (int k)) (ddl k))),
     ae_plan_cancelled = (\<lambda>_. False), ae_stored_plan = (\<lambda>i. Inr (Some (sample_stored_plan i (ddl 0)))),
     ae_execute = (\<lambda>_ d. (Inr (True, [], 1), d)), ae_locks = (\<lambda>_ _. quiet), ae_meanwhile = id, ae_lock_cancelled = (\<lambda>_. False), ae_checks = (\<lambda>_. quiet_calls), ae_now = 0\<rparr>"

definition sample_target :: "string \<Rightarrow> bool \<Rightarrow> command_target" where
  "sample_target environment auto = \<lparr>ct_repo = ''org/app'', ct_pr = 7, ct_environment = environment, ct_database = [], ct_installation = 5,
     ct_requestedBy = ''carol'', ct_result = no_command\<lparr>cmd_Environment := environment, cmd_AutoConfirm := auto, cmd_Found := True\<rparr>\<rparr>"

definition sample_command_world :: cmd_world where
  "sample_command_world = \<lparr>aw_locks = no_locks, aw_checks = sample_world [], aw_comments = [], aw_executed = []\<rparr>"

lemma sample_keys_kept: "keys_kept (sample_command_env config ddl)"
  by (simp add: keys_kept_def sample_command_env_def quiet_wf)

theorem apply_executes_only_when_cleared_witness:
  "map (arq_PlanID \<circ> fst) (aw_executed (snd (handleApplyCommand (sample_command_env sample_config (\<lambda>_. ''ALTER'')) (sample_target ''staging'' True)
      sample_command_world))) = [''p2'']
   \<and> list_all (apply_cleared (sample_command_env sample_config (\<lambda>_. ''ALTER'')) (sample_target ''staging'' True))
      (aw_executed (snd (handleApplyCommand (sample_command_env sample_config (\<lambda>_. ''ALTER'')) (sample_target ''staging'' True)
      sample_command_world)))"
proof
  have "wf_locks (aw_locks sample_command_world)" "aw_executed sample_command_world = []" by code_simp+
  with apply_executes_only_when_cleared [OF sample_keys_kept _ prod.collapse [symmetric]]
  show "list_all (apply_cleared (sample_command_env sample_config (\<lambda>_. ''ALTER'')) (sample_target ''staging'' True))
      (aw_executed (snd (handleApplyCommand (sample_command_env sample_config (\<lambda>_. ''ALTER'')) (sample_target ''staging'' True)
      sample_command_world)))" by (metis append_Nil)
qed code_simp

text \<open>After \<^verbatim>\<open>schemabot apply -e staging\<close> the lock waits for the confirmation of plan p0.\<close>

definition waiting_world :: cmd_world where
  "waiting_world = sample_command_world\<lparr>aw_locks := \<lparr>db_locks = [\<lparr>lk_ID = 1, lk_DatabaseName = ''orders'', lk_DatabaseType = ''mysql'',
     lk_Repository = ''org/app'', lk_PullRequest = 7, lk_Owner = ''org/app#7'', lk_PendingPlanID = ''p0'', lk_CreatedAt = 0, lk_UpdatedAt = 0\<rparr>],
     next_lock_id = 2\<rparr>\<rparr>"

lemma apply_waits_for_confirmation:
  "aw_locks (snd (handleApplyCommand (sample_command_env open_config (\<lambda>_. ''ALTER'')) (sample_target ''staging'' False) sample_command_world))
   = aw_locks waiting_world"
  by code_simp

theorem confirm_executes_only_when_cleared_witness:
  "map (arq_PlanID \<circ> fst) (aw_executed (snd (handleApplyConfirmCommand (sample_command_env sample_config (\<lambda>_. ''ALTER''))
      (sample_target ''staging'' False) waiting_world))) = [''p0'']
   \<and> list_all (confirm_cleared (sample_command_env sample_config (\<lambda>_. ''ALTER'')) (sample_target ''staging'' False))
      (aw_executed (snd (handleApplyConfirmCommand (sample_command_env sample_config (\<lambda>_. ''ALTER''))
      (sample_target ''staging'' False) waiting_world)))"
proof
  have "wf_locks (aw_locks waiting_world)" "aw_executed waiting_world = []" by code_simp+
  with confirm_executes_only_when_cleared [OF sample_keys_kept _ prod.collapse [symmetric]]
  show "list_all (confirm_cleared (sample_command_env sample_config (\<lambda>_. ''ALTER'')) (sample_target ''staging'' False))
      (aw_executed (snd (handleApplyConfirmCommand (sample_command_env sample_config (\<lambda>_. ''ALTER''))
      (sample_target ''staging'' False) waiting_world)))" by (metis append_Nil)
qed code_simp

theorem ddl_match_is_multiset_equality_witness:
  "ddlMatchesStoredPlan (sample_plan ''p'' ''ALTER'') (sample_stored_plan ''q'' ''ALTER'') = Some True"
proof -
  have "FlatDDLChanges (spl_Namespaces (sample_stored_plan ''q'' ''ALTER'')) =
      Some [\<lparr>tc_Namespace = ''orders'', tc_Table = ''t'', tc_DDL = ''ALTER'', tc_Operation = ''alter''\<rparr>]" by code_simp
  from ddl_match_is_multiset_equality [OF this, of "sample_plan ''p'' ''ALTER''"] show ?thesis
    by (simp add: sample_plan_def FlatTables_def)
qed

text \<open>
  The promotion order is enforced by the apply command only. Production is refused while staging waits; but an apply to staging takes the lock of the
  database, which has no environment, and the confirmation neither checks the promotion order nor the environment of the plan it confirms: it plans
  for production and executes there.
\<close>

lemma production_is_gated:
  "checkPriorEnvironments (ae_gates (sample_command_env open_config ddl) 0) (ae_reads (sample_command_env open_config ddl)) (ae_config (sample_command_env open_config ddl)) ''SchemaBot''
     ''production'' [''staging'', ''production''] \<noteq> None"
  by code_simp

lemma apply_to_production_refused:
  "aw_executed (snd (handleApplyCommand (sample_command_env open_config (\<lambda>_. ''ALTER'')) (sample_target ''production'' True)
     sample_command_world)) = []"
  by code_simp

lemma confirm_skips_promotion_order:
  "map (arq_Environment \<circ> fst) (aw_executed (snd (handleApplyConfirmCommand (sample_command_env open_config (\<lambda>_. ''ALTER''))
     (sample_target ''production'' False) waiting_world))) = [''production'']"
  by code_simp

text \<open>
  Between taking the lock and executing, the commands do not look at it again: when an unlock and another pull request come in between, the apply is handed over
  while the other pull request holds the lock.
\<close>

definition lock_changes_hands :: "lock_db \<Rightarrow> lock_db" where
  "lock_changes_hands d = snd (insert_stmt 1 \<lparr>lk_ID = 0, lk_DatabaseName = ''orders'', lk_DatabaseType = ''mysql'', lk_Repository = ''org/app'', lk_PullRequest = 8,
     lk_Owner = ''org/app#8'', lk_PendingPlanID = ''p8'', lk_CreatedAt = 0, lk_UpdatedAt = 0\<rparr> (snd (ForceRelease quiet ''orders'' ''mysql'' d)))"

lemma apply_executes_without_its_lock:
  "map (\<lambda>(req, _, locks). (arq_PlanID req, holder ''orders'' ''mysql'' locks))
     (aw_executed (snd (handleApplyCommand ((sample_command_env open_config (\<lambda>_. ''ALTER''))\<lparr>ae_meanwhile := lock_changes_hands\<rparr>) (sample_target ''staging'' True)
       sample_command_world))) = [(''p2'', Some ''org/app#8'')]"
  by code_simp

text \<open>A confirmation executes whatever it plans at that moment: the statements that were reviewed are compared on the automatic path only.\<close>

lemma confirm_executes_unreviewed_statements:
  "let e = sample_command_env open_config (\<lambda>_. ''ALTER''); drifted = e\<lparr>ae_plan := \<lambda>_. Inr (sample_plan ''p9'' ''DROP INDEX'')\<rparr> in
   map (arq_PlanID \<circ> fst) (aw_executed (snd (handleApplyConfirmCommand drifted (sample_target ''staging'' False) waiting_world))) = [''p9'']
   \<and> ddlMatchesStoredPlan (sample_plan ''p9'' ''DROP INDEX'') (sample_stored_plan ''p0'' ''ALTER'') = Some False"
  by code_simp

end
