(* ===== verification/SB_PR_Cleanup.thy ===== *)
theory SB_PR_Cleanup
  imports SB_Apply_Command
begin

section \<open>Unlocking, and cleaning up after pull requests (webhook/apply\_handlers.go, pull\_request.go)\<close>

text \<open>
  The two ways a lock is given back from outside an apply: the \<open>unlock\<close> command, and the close of its pull request. Neither may take the lock from
  under a running apply. The close and the removal of a database from a pull request also settle stored check state.
\<close>

subsection \<open>The unlock command\<close>

text \<open>What looking for the pull request's configuration finds: nothing, several, an error, or a database and its directory.\<close>

datatype config_lookup = No_Config | Multiple_Configs | Lookup_Error string | Config_Found string string

record unlock_env =
  ue_clients :: bool
  ue_find_for_pr :: config_lookup
  ue_find_in_repo :: config_lookup

definition inferUnlockDatabase :: "command_env \<Rightarrow> unlock_env \<Rightarrow> command_target \<Rightarrow> string + string" where
  "inferUnlockDatabase e u t =
     (if \<not> ae_client e then Inl ''create GitHub client''
      else case (if ue_find_for_pr u = No_Config then ue_find_in_repo u else ue_find_for_pr u) of
          No_Config \<Rightarrow> Inl ''no config''
        | Multiple_Configs \<Rightarrow> Inl ''multiple SchemaBot configs match this PR''
        | Lookup_Error err \<Rightarrow> Inl err
        | Config_Found database configDir \<Rightarrow>
            if \<not> shouldProcessSchemaConfig (ae_config e) (ct_repo t) configDir then Inl ''no config''
            else if database = [] then Inl ''no database found in SchemaBot config''
            else Inr database)"

text \<open>With force: every lock on the database, unless one belongs to another pull request.\<close>

definition locksForUnlock :: "command_env \<Rightarrow> command_target \<Rightarrow> string \<Rightarrow> (string + Lock list) cmd" where
  "locksForUnlock e t database w =
     (let run = (\<lambda>f. exec_stmt (ae_locks e 0 0) 0 (\<lambda>d. (Inr (f d), d)) (aw_locks w)) in
      if cmd_Force (ct_result t) then
        (if database = [] then (Some (Inl ''--force requires a database target''), w)
         else case run lk_List of
             (Inl err, d) \<Rightarrow> (Some (Inl (snd err)), w\<lparr>aw_locks := d\<rparr>)
           | (Inr locks, d) \<Rightarrow>
               (let matches = filter (\<lambda>l. lk_DatabaseName l = database) locks in
                (Some (if list_ex (\<lambda>l. lk_PullRequest l \<noteq> 0 \<and> (lk_Repository l \<noteq> ct_repo t \<or> lk_PullRequest l \<noteq> ct_pr t)) matches
                       then Inl ''lock is held by another pull request'' else Inr matches), w\<lparr>aw_locks := d\<rparr>)))
      else case run (lk_GetByPR (ct_repo t) (ct_pr t)) of
          (Inl err, d) \<Rightarrow> (Some (Inl (snd err)), w\<lparr>aw_locks := d\<rparr>)
        | (Inr locks, d) \<Rightarrow> (Some (Inr (if database = [] then locks else filter (\<lambda>l. lk_DatabaseName l = database) locks)), w\<lparr>aw_locks := d\<rparr>))"

definition actorAuthorizationClient :: "command_env \<Rightarrow> unlock_env \<Rightarrow> gate_github option cmd" where
  "actorAuthorizationClient e u =
     (if \<not> PRCommandAuthorizationEnabled (Some (ae_config e)) \<or> \<not> ue_clients u then ret None
      else if \<not> ae_client e then fail (Cm_Gate Authorization_Unavailable)
      else ret (Some (ae_gates e 0)))"

fun authorize_all :: "command_env \<Rightarrow> gate_github option \<Rightarrow> command_target \<Rightarrow> Lock list \<Rightarrow> unit cmd" where
  "authorize_all e client t [] = ret ()"
| "authorize_all e client t (lock # locks) =
     seq (gate (enforcePRCommandActorAuthorization client (ae_config e) (ct_requestedBy t) (lk_DatabaseName lock))) (\<lambda>_. authorize_all e client t locks)"

text \<open>No lock is released while one of the databases has an apply that is not terminal; each database is one read.\<close>

fun refuse_active :: "command_env \<Rightarrow> nat \<Rightarrow> Lock list \<Rightarrow> unit cmd" where
  "refuse_active e k [] = ret ()"
| "refuse_active e k (lock # locks) =
     seq (on_checks (read_world (ae_checks e k) 0 (\<lambda>d. GetByDatabase (lk_DatabaseName lock) (lk_DatabaseType lock) [] (ck_db d)))) (\<lambda>r.
     case r of
       Inl _ \<Rightarrow> fail (Cm_Error ''Failed to verify active applies. No locks were released.'')
     | Inr applies \<Rightarrow>
         (case find (\<lambda>a. ap_Database a = lk_DatabaseName lock \<and> \<not> IsTerminalApplyState (ap_State a)) applies of
            Some a \<Rightarrow> fail (Cm_Cannot_Unlock lock a)
          | None \<Rightarrow> refuse_active e (k + 1) locks))"

definition updateCheckRunAfterUnlock :: "command_env \<Rightarrow> Lock \<Rightarrow> unit cmd" where
  "updateCheckRunAfterUnlock e lock =
     on_checks (\<lambda>cw. ((), if \<not> ae_client e then cw else case ae_cached_head e of
         None \<Rightarrow> cw
       | Some headSHA \<Rightarrow>
           (let opts = \<lparr>cro_Name = ''SchemaBot Apply: /'' @ lk_DatabaseType lock @ ''/'' @ lk_DatabaseName lock, cro_Status = checkStatusCompleted,
                  cro_Conclusion = checkConclusionNeutral, cro_Title = ''Lock released'', cro_Summary = ''Schema change cancelled. Lock has been released.''\<rparr> in
            case CreateCheckRun (ae_gh e) headSHA opts of None \<Rightarrow> cw | Some i \<Rightarrow> cw\<lparr>cw_published := cw_published cw @ [(i, headSHA, opts)]\<rparr>)))"

fun release_all :: "command_env \<Rightarrow> nat \<Rightarrow> command_target \<Rightarrow> Lock list \<Rightarrow> unit cmd" where
  "release_all e k t [] = ret ()"
| "release_all e k t (lock # locks) =
     (\<lambda>w. case (if cmd_Force (ct_result t) then ForceRelease (ae_locks e k 0) (lk_DatabaseName lock) (lk_DatabaseType lock) (aw_locks w)
                else lk_Release (ae_locks e k 0) (lk_DatabaseName lock) (lk_DatabaseType lock) (lk_Owner lock) (aw_locks w)) of
        (Some _, d) \<Rightarrow> release_all e (k + 1) t locks (w\<lparr>aw_locks := d\<rparr>)
      | (None, d) \<Rightarrow> seq (say (Cm_Unlocked lock)) (\<lambda>_.
          seq (if lk_Repository lock \<noteq> [] \<and> lk_PullRequest lock \<noteq> 0 then updateCheckRunAfterUnlock e lock else ret ()) (\<lambda>_.
          release_all e (k + 1) t locks)) (w\<lparr>aw_locks := d\<rparr>))"

text \<open>The database the command is about, which a forced unlock may leave open.\<close>

definition unlock_database :: "command_env \<Rightarrow> unlock_env \<Rightarrow> command_target \<Rightarrow> string cmd" where
  "unlock_database e u t =
     (if cmd_Force (ct_result t) \<and> cmd_Database (ct_result t) = []
      then (case inferUnlockDatabase e u t of Inl err \<Rightarrow> fail (Cm_Error (''Failed to infer database for force unlock: '' @ err)) | Inr database \<Rightarrow> ret database)
      else ret (cmd_Database (ct_result t)))"

text \<open>The locks that may be released, after every guard.\<close>

definition cleared_locks :: "command_env \<Rightarrow> unlock_env \<Rightarrow> command_target \<Rightarrow> Lock list \<Rightarrow> Lock list cmd" where
  "cleared_locks e u t locks =
     (if length locks = 0 then fail Cm_No_Locks_Found
      else seq (actorAuthorizationClient e u) (\<lambda>client.
        seq (authorize_all e client t locks) (\<lambda>_.
        seq (refuse_active e 0 locks) (\<lambda>_. ret locks))))"

definition unlock_targets :: "command_env \<Rightarrow> unlock_env \<Rightarrow> command_target \<Rightarrow> Lock list cmd" where
  "unlock_targets e u t =
     seq (unlock_database e u t) (\<lambda>database.
     seq (locksForUnlock e t database) (\<lambda>found.
     case found of Inl err \<Rightarrow> fail (Cm_Error (''Failed to look up locks: '' @ err)) | Inr locks \<Rightarrow> cleared_locks e u t locks))"

definition handleUnlockCommand :: "command_env \<Rightarrow> unlock_env \<Rightarrow> command_target \<Rightarrow> unit cmd" where
  "handleUnlockCommand e u t = seq (unlock_targets e u t) (release_all e 1 t)"

subsection \<open>A closed pull request\<close>

text \<open>The databases for which an apply of the pull request is still going on.\<close>

definition inFlightAppliesForClosedPR :: "Apply list \<Rightarrow> (string \<times> string) list" where
  "inFlightAppliesForClosedPR applies =
     map (\<lambda>a. (ap_Database a, ap_DatabaseType a)) (filter (\<lambda>a. \<not> IsTerminalApplyState (ap_State a)) applies)"

fun release_idle :: "command_env \<Rightarrow> nat \<Rightarrow> (string \<times> string) list \<Rightarrow> Lock list \<Rightarrow> lock_db \<Rightarrow> lock_db" where
  "release_idle e k inFlight [] d = d"
| "release_idle e k inFlight (lock # locks) d =
     (if (lk_DatabaseName lock, lk_DatabaseType lock) \<in> set inFlight then release_idle e k inFlight locks d
      else release_idle e (k + 1) inFlight locks (snd (lk_Release (ae_locks e k 0) (lk_DatabaseName lock) (lk_DatabaseType lock) (lk_Owner lock) d)))"

definition releaseLocksForClosedPR :: "command_env \<Rightarrow> string \<Rightarrow> int \<Rightarrow> (string \<times> string) list \<Rightarrow> cmd_world \<Rightarrow> cmd_world" where
  "releaseLocksForClosedPR e repo pr inFlight w =
     (case exec_stmt (ae_locks e 0 0) 0 (\<lambda>d. (Inr (lk_GetByPR repo pr d), d)) (aw_locks w) of
        (Inl _, d) \<Rightarrow> w\<lparr>aw_locks := d\<rparr>
      | (Inr locks, d) \<Rightarrow> w\<lparr>aw_locks := release_idle e 1 inFlight locks d\<rparr>)"

definition handlePRClosed :: "command_env \<Rightarrow> string \<Rightarrow> int \<Rightarrow> cmd_world \<Rightarrow> cmd_world" where
  "handlePRClosed e repo pr w =
     (case read_world (ae_checks e 0) 0 (\<lambda>d. GetByPR repo pr (ck_db d)) (aw_checks w) of
        (Inl _, cw) \<Rightarrow> w\<lparr>aw_checks := cw\<rparr>
      | (Inr applies, cw) \<Rightarrow>
          (let inFlight = inFlightAppliesForClosedPR applies;
               w1 = releaseLocksForClosedPR e repo pr inFlight (w\<lparr>aw_checks := cw\<rparr>) in
           if length inFlight > 0 then w1
           else w1\<lparr>aw_checks := (aw_checks w1)\<lparr>cw_db := snd (DeleteByPRExcludingApplyOwned (ce_env (ae_checks e 1) 0 0) repo pr (cw_db (aw_checks w1)))\<rparr>\<rparr>))"

subsection \<open>Databases that left the pull request\<close>

definition blockStaleStartedApplyCheckState :: "command_env \<Rightarrow> call_env \<Rightarrow> string \<Rightarrow> Check \<Rightarrow> check_world \<Rightarrow> bool \<times> check_world" where
  "blockStaleStartedApplyCheckState e ce headSHA check cw =
     (let check1 = check\<lparr>chk_HeadSHA := headSHA, chk_HasChanges := True, chk_BlockingReason := blockingReason schemaRemovedAfterApplyBlock,
            chk_ErrorMessage := block_message schemaRemovedAfterApplyBlock\<rparr>;
          check2 = (if chk_Status check1 = checkStatusInProgress then check1\<lparr>chk_Conclusion := []\<rparr>
            else check1\<lparr>chk_Status := checkStatusCompleted, chk_Conclusion := checkConclusionActionRequired\<rparr>) in
      case upsert_world ce 0 (ae_now e) check2 cw of (err, cw1) \<Rightarrow> (err = None, cw1))"

definition markStalePlanOnlyCheckStateSuccessful :: "command_env \<Rightarrow> call_env \<Rightarrow> string \<Rightarrow> Check \<Rightarrow> check_world \<Rightarrow> bool \<times> check_world" where
  "markStalePlanOnlyCheckStateSuccessful e ce headSHA check cw =
     (let check1 = check\<lparr>chk_HeadSHA := headSHA, chk_Conclusion := checkConclusionSuccess, chk_HasChanges := False, chk_Status := checkStatusCompleted,
            chk_ApplyID := None, chk_BlockingReason := [], chk_ErrorMessage := []\<rparr> in
      case MarkStalePlanSuccessful (ce_env ce 0 0) (ae_now e) check1 (cw_db cw) of (r, d) \<Rightarrow> (case r of Inl _ \<Rightarrow> False | Inr _ \<Rightarrow> True, cw\<lparr>cw_db := d\<rparr>))"

fun clean_checks :: "command_env \<Rightarrow> call_env \<Rightarrow> string \<Rightarrow> string list \<Rightarrow> Check list \<Rightarrow> bool \<Rightarrow> check_world \<Rightarrow> bool \<times> check_world" where
  "clean_checks e ce headSHA affectedDatabases [] cleaned cw = (cleaned, cw)"
| "clean_checks e ce headSHA affectedDatabases (check # checks) cleaned cw =
     (if isAggregateCheck check \<or> chk_DatabaseName check \<in> set affectedDatabases then clean_checks e ce headSHA affectedDatabases checks cleaned cw
      else case (if checkHasStartedApply check then blockStaleStartedApplyCheckState e ce headSHA check cw
                 else markStalePlanOnlyCheckStateSuccessful e ce headSHA check cw) of
          (ok, cw1) \<Rightarrow> clean_checks e (next_calls 1 ce) headSHA affectedDatabases checks (cleaned \<or> ok) cw1)"

definition cleanupStaleChecks :: "command_env \<Rightarrow> string \<Rightarrow> int \<Rightarrow> string \<Rightarrow> string list \<Rightarrow> check_world \<Rightarrow> check_world" where
  "cleanupStaleChecks e repo pr headSHA affectedDatabases cw =
     (if \<not> ae_client e then cw
      else if \<not> verifyHeadSHAStillCurrentForPR (ae_gh e) headSHA then cw
      else case read_world (ae_checks e 0) 0 (ck_GetByPR repo pr) cw of
          (Inl _, cw1) \<Rightarrow> cw1
        | (Inr checks, cw1) \<Rightarrow>
            (case clean_checks e (ae_checks e 1) headSHA affectedDatabases checks False cw1 of
               (cleaned, cw2) \<Rightarrow>
                 if cleaned then updateAggregateCheck (ae_check_config e) (ae_gh e) (ae_checks e 2) (ae_now e) repo pr headSHA cw2 else cw2))"


subsection \<open>Locks that stay\<close>

text \<open>\<open>spares l f\<close>: from a well-formed table with the row \<open>l\<close>, \<open>f\<close> leads to one.\<close>

definition spares :: "Lock \<Rightarrow> (lock_db \<Rightarrow> lock_db) \<Rightarrow> bool" where
  "spares l f \<longleftrightarrow> (\<forall>d. wf_locks d \<longrightarrow> l \<in> set (db_locks d) \<longrightarrow> wf_locks (f d) \<and> l \<in> set (db_locks (f d)))"

definition env_spares :: "Lock \<Rightarrow> lock_db stmt_env \<Rightarrow> bool" where
  "env_spares l env \<longleftrightarrow> (\<forall>i. spares l (se_between env i))"

lemma sparesD: "spares l f \<Longrightarrow> wf_locks d \<Longrightarrow> l \<in> set (db_locks d) \<Longrightarrow> wf_locks (f d) \<and> l \<in> set (db_locks (f d))"
  by (simp add: spares_def)

lemma exec_spares: "env_spares l env \<Longrightarrow> spares l (\<lambda>d. snd (f d)) \<Longrightarrow> spares l (\<lambda>d. snd (exec_stmt env i f d))"
  by (auto simp: env_spares_def spares_def exec_stmt_def Let_def split: option.splits)

lemma exec_read_spares: "env_spares l env \<Longrightarrow> spares l (\<lambda>d. snd (exec_stmt env i (\<lambda>d. (Inr (f d), d)) d))"
  by (rule exec_spares) (auto simp: spares_def)

lemma delete_spares: "\<not> sel l \<Longrightarrow> spares l (\<lambda>d. snd (delete_stmt sel d))"
  using delete_stmt_wf by (auto simp: spares_def delete_stmt_def)

lemma Release_spares:
  assumes env: "env_spares l env" and other: "\<not> (lock_selects database dbType l \<and> sql_eq (lk_Owner l) owner)"
  shows "spares l (\<lambda>d. snd (lk_Release env database dbType owner d))"
proof -
  let ?sel = "\<lambda>r. lock_selects database dbType r \<and> sql_eq (lk_Owner r) owner"
  have del: "spares l (\<lambda>d. snd (exec_stmt env 0 (delete_stmt ?sel) d))" using other by (intro exec_spares [OF env] delete_spares) simp
  have get: "spares l (\<lambda>d. snd (exec_stmt env 1 (get_stmt database dbType) d))" unfolding get_stmt_def by (rule exec_read_spares [OF env])
  show ?thesis unfolding spares_def
  proof (intro allI impI)
    fix d assume "wf_locks d" "l \<in> set (db_locks d)"
    note one = sparesD [OF del this]
    note two = sparesD [OF get, OF conjunct1 [OF one] conjunct2 [OF one]]
    show "wf_locks (snd (lk_Release env database dbType owner d)) \<and> l \<in> set (db_locks (snd (lk_Release env database dbType owner d)))"
      using one two by (auto simp: lk_Release_def split: prod.splits sum.splits option.splits)
  qed
qed

lemma ForceRelease_spares:
  assumes env: "env_spares l env" and other: "\<not> lock_selects database dbType l"
  shows "spares l (\<lambda>d. snd (ForceRelease env database dbType d))"
proof -
  have "spares l (\<lambda>d. snd (exec_stmt env 0 (delete_stmt (lock_selects database dbType)) d))"
    using other by (intro exec_spares [OF env] delete_spares)
  then show ?thesis by (auto simp: spares_def ForceRelease_def split: prod.splits sum.splits)
qed

text \<open>Two rows of a well-formed table that a release cannot tell apart are the same row.\<close>

lemma selects_own_row:
  assumes "wf_locks d" "x \<in> set (db_locks d)" "l \<in> set (db_locks d)" "lock_selects (lk_DatabaseName x) (lk_DatabaseType x) l"
  shows "x = l"
  using assms by (auto simp: wf_locks_def distinct_map inj_on_def lock_selects_key lock_key_def)

definition others_spare :: "Lock \<Rightarrow> command_env \<Rightarrow> bool" where
  "others_spare l e \<longleftrightarrow> (\<forall>k i. env_spares l (ae_locks e k i))"

lemma release_all_spares:
  assumes "others_spare l e" "wf_locks (aw_locks w)" "l \<in> set (db_locks (aw_locks w))"
    and "\<And>x. x \<in> set locks \<Longrightarrow> \<not> lock_selects (lk_DatabaseName x) (lk_DatabaseType x) l"
  shows "l \<in> set (db_locks (aw_locks (snd (release_all e k t locks w))))"
  using assms(2-)
proof (induction locks arbitrary: k w)
  case (Cons x locks)
  let ?call = "\<lambda>d. if cmd_Force (ct_result t) then ForceRelease (ae_locks e k 0) (lk_DatabaseName x) (lk_DatabaseType x) d
    else lk_Release (ae_locks e k 0) (lk_DatabaseName x) (lk_DatabaseType x) (lk_Owner x) d"
  obtain r d where call: "?call (aw_locks w) = (r, d)" by fastforce
  have env: "env_spares l (ae_locks e k 0)" using assms(1) by (simp add: others_spare_def)
  have "spares l (\<lambda>d. snd (?call d))"
    using ForceRelease_spares [OF env] Release_spares [OF env] Cons.prems(3) [of x] by (cases "cmd_Force (ct_result t)") simp_all
  then have d: "wf_locks d" "l \<in> set (db_locks d)" using sparesD [of l "\<lambda>d. snd (?call d)" "aw_locks w"] Cons.prems(1,2) call by simp_all
  show ?case
  proof (cases r)
    case None
    let ?w1 = "w\<lparr>aw_locks := d\<rparr>"
    obtain w2 where w2: "seq (say (Cm_Unlocked x)) (\<lambda>_. if lk_Repository x \<noteq> [] \<and> lk_PullRequest x \<noteq> 0 then updateCheckRunAfterUnlock e x else ret ()) ?w1
        = (Some (), w2)" "aw_locks w2 = d"
      using that by (cases "lk_Repository x \<noteq> [] \<and> lk_PullRequest x \<noteq> 0") (simp_all add: seq_def say_def updateCheckRunAfterUnlock_def on_checks_def ret_def)
    have "release_all e k t (x # locks) w = release_all e (k + 1) t locks w2"
      using call None w2(1) by (auto simp: seq_def say_def split: prod.splits option.splits)
    then show ?thesis using Cons.IH [of w2 "k + 1"] Cons.prems(3) d w2(2) by simp
  next
    case (Some err)
    then have "release_all e k t (x # locks) w = release_all e (k + 1) t locks (w\<lparr>aw_locks := d\<rparr>)" using call by simp
    then show ?thesis using Cons.IH [of "w\<lparr>aw_locks := d\<rparr>" "k + 1"] Cons.prems(3) d by simp
  qed
qed (simp add: ret_def)

subsection \<open>What unlock may take\<close>

definition may_unlock :: "command_target \<Rightarrow> Lock \<Rightarrow> bool" where
  "may_unlock t l \<longleftrightarrow> sql_eq (lk_Repository l) (ct_repo t) \<and> lk_PullRequest l = ct_pr t \<or> cmd_Force (ct_result t) \<and> lk_PullRequest l = 0"

text \<open>An apply that is not terminal on the lock's database.\<close>

definition active_for :: "Lock \<Rightarrow> check_db \<Rightarrow> bool" where
  "active_for l d \<longleftrightarrow> (\<exists>a \<in> set (db_applies (ck_db d)). ap_Database a = lk_DatabaseName l \<and> ap_DatabaseType a = lk_DatabaseType l
     \<and> \<not> IsTerminalApplyState (ap_State a))"

definition stays_active :: "Lock \<Rightarrow> command_env \<Rightarrow> bool" where
  "stays_active l e \<longleftrightarrow> (\<forall>k d. active_for l d \<longrightarrow> active_for l (se_between (ce_env (ae_checks e k) 0 0) 0 d))"

lemma exec_read: "exec_stmt env i (\<lambda>d. (Inr (f d), d)) d = (got, d') \<Longrightarrow> \<forall>y. got = Inr y \<longrightarrow> y = f d'"
  by (auto simp: exec_stmt_def Let_def split: option.splits)

lemma locksForUnlock_spec:
  assumes "others_spare l e" "wf_locks (aw_locks w)" "l \<in> set (db_locks (aw_locks w))" "locksForUnlock e t database w = (r, w')"
  shows "wf_locks (aw_locks w')" "l \<in> set (db_locks (aw_locks w'))" "aw_checks w' = aw_checks w"
    "r = Some (Inr locks) \<Longrightarrow> x \<in> set locks \<Longrightarrow> x \<in> set (db_locks (aw_locks w')) \<and> may_unlock t x"
proof -
  have env: "env_spares l (ae_locks e 0 0)" using assms(1) by (simp add: others_spare_def)
  have kept: "wf_locks d \<and> l \<in> set (db_locks d) \<and> (\<forall>y. got = Inr y \<longrightarrow> y = f d)"
    if "exec_stmt (ae_locks e 0 0) 0 (\<lambda>d. (Inr (f d), d)) (aw_locks w) = (got, d)" for f :: "lock_db \<Rightarrow> Lock list" and got d
    using sparesD [OF exec_read_spares [OF env, of 0 f] assms(2,3)] that exec_read [OF that] by simp
  have "wf_locks (aw_locks w') \<and> l \<in> set (db_locks (aw_locks w')) \<and> aw_checks w' = aw_checks w
      \<and> (\<forall>locks x. r = Some (Inr locks) \<longrightarrow> x \<in> set locks \<longrightarrow> x \<in> set (db_locks (aw_locks w')) \<and> may_unlock t x)"
  proof (cases "cmd_Force (ct_result t)")
    case True
    obtain got d where run: "exec_stmt (ae_locks e 0 0) 0 (\<lambda>d. (Inr (lk_List d), d)) (aw_locks w) = (got, d)" by fastforce
    show ?thesis using True assms(2-) kept [OF run] run
      by (cases got) (auto simp: locksForUnlock_def may_unlock_def lk_List_def list_ex_iff split: if_splits)
  next
    case False
    obtain got d where run: "exec_stmt (ae_locks e 0 0) 0 (\<lambda>d. (Inr (lk_GetByPR (ct_repo t) (ct_pr t) d), d)) (aw_locks w) = (got, d)" by fastforce
    show ?thesis using False assms(4) kept [OF run] run
      by (cases got) (auto simp: locksForUnlock_def may_unlock_def lk_GetByPR_def split: if_splits)
  qed
  then show "wf_locks (aw_locks w')" "l \<in> set (db_locks (aw_locks w'))" "aw_checks w' = aw_checks w"
    "r = Some (Inr locks) \<Longrightarrow> x \<in> set locks \<Longrightarrow> x \<in> set (db_locks (aw_locks w')) \<and> may_unlock t x" by blast+
qed

lemma client_spec:
  assumes "actorAuthorizationClient e u w = (r, w')"
  shows "aw_locks w' = aw_locks w" "aw_checks w' = aw_checks w" "r = Some client \<Longrightarrow> client = None \<or> client = Some (ae_gates e 0)"
  using assms by (auto simp: actorAuthorizationClient_def ret_def fail_def stop_def seq_def say_def split: if_splits)

lemma team_step_without_client: "team_step None teams actor = Inr who \<Longrightarrow> team_step (Some g) teams actor = Inr who"
  by (simp add: team_step_def split: if_splits)

lemma without_client:
  assumes "enforcePRCommandActorAuthorization None config actor database = None"
  shows "enforcePRCommandActorAuthorization (Some g) config actor database = None"
proof (cases "PRCommandAuthorizationEnabled (Some config)")
  case True
  obtain result where none: "authorizeConfiguredDatabaseActor None config actor database = (result, None)" "aar_Allowed result"
    using assms True by (auto simp: enforcePRCommandActorAuthorization_def authorizePRCommandActor_def denied_def split: prod.splits option.splits if_splits)
  obtain dc where dc: "cfg_Database config database = Some dc"
    using none by (auto simp: authorizeConfiguredDatabaseActor_def denied_def split: option.splits if_splits)
  let ?admins = "team_step None (pa_AdminTeams (sv_PRCommandAuthorization config)) actor"
  let ?operators = "team_step None (dc_OperatorTeams dc) actor"
  obtain admin where admin: "?admins = Inr admin"
    using none dc by (cases ?admins) (auto simp: authorizeConfiguredDatabaseActor_def denied_def Let_def split: if_splits)
  have "authorizeConfiguredDatabaseActor (Some g) config actor database = authorizeConfiguredDatabaseActor None config actor database"
  proof (cases "admin = None \<and> matchedUserPrincipal (pa_AdminUsers (sv_PRCommandAuthorization config)) actor = None")
    case True
    then obtain operator where "?operators = Inr operator"
      using none dc admin by (cases ?operators) (auto simp: authorizeConfiguredDatabaseActor_def denied_def Let_def split: if_splits)
    then show ?thesis using True dc admin by (simp add: authorizeConfiguredDatabaseActor_def team_step_without_client Let_def)
  next
    case False
    then show ?thesis using dc admin
      by (cases admin) (auto simp: authorizeConfiguredDatabaseActor_def team_step_without_client Let_def)
  qed
  with none(1) have "authorizeConfiguredDatabaseActor (Some g) config actor database = (result, None)" by simp
  then show ?thesis using assms none True
    by (auto simp: enforcePRCommandActorAuthorization_def authorizePRCommandActor_def denied_def split: if_splits)
next
  case False
  then show ?thesis using assms by (simp add: enforcePRCommandActorAuthorization_def authorizePRCommandActor_def)
qed

lemma authorize_all_spec:
  assumes "authorize_all e client t locks w = (r, w')"
  shows "aw_locks w' = aw_locks w" "aw_checks w' = aw_checks w"
    "r = Some () \<Longrightarrow> x \<in> set locks \<Longrightarrow> enforcePRCommandActorAuthorization client (ae_config e) (ct_requestedBy t) (lk_DatabaseName x) = None"
  using assms by (induction locks arbitrary: w) (auto simp: ret_def gate_def fail_def stop_def seq_def say_def split: option.splits)

lemma refuse_active_spec:
  assumes "refuse_active e k locks w = (r, w')"
  shows "aw_locks w' = aw_locks w"
    and "stays_active l e \<Longrightarrow> active_for l (cw_db (aw_checks w)) \<Longrightarrow> l \<in> set locks \<Longrightarrow> r = None"
proof -
  show "aw_locks w' = aw_locks w"
    using assms by (induction locks arbitrary: k w) (auto simp: ret_def fail_def stop_def seq_def say_def on_checks_def split: option.splits prod.splits sum.splits)
  show "r = None" if "stays_active l e" "active_for l (cw_db (aw_checks w))" "l \<in> set locks"
    using assms that
  proof (induction locks arbitrary: k w)
    case (Cons x locks)
    let ?read = "read_world (ae_checks e k) 0 (\<lambda>d. GetByDatabase (lk_DatabaseName x) (lk_DatabaseType x) [] (ck_db d)) (aw_checks w)"
    obtain got cw where read: "?read = (got, cw)" by fastforce
    have act: "active_for l (cw_db cw)" using read Cons.prems(2,3)
      by (auto simp: read_world_def exec_stmt_def Let_def stays_active_def split: option.splits prod.splits)
    show ?case
    proof (cases got)
      case (Inl err)
      then show ?thesis using Cons.prems(1) read by (auto simp: seq_def on_checks_def fail_def say_def stop_def)
    next
      case (Inr applies)
      then have applies: "applies = GetByDatabase (lk_DatabaseName x) (lk_DatabaseType x) [] (ck_db (cw_db cw))"
        using read by (auto simp: read_world_def exec_stmt_def Let_def split: option.splits)
      show ?thesis
      proof (cases "find (\<lambda>a. ap_Database a = lk_DatabaseName x \<and> \<not> IsTerminalApplyState (ap_State a)) applies")
        case None
        have "x \<noteq> l"
        proof
          assume "x = l"
          with act obtain a where a: "a \<in> set (db_applies (ck_db (cw_db cw)))" "ap_Database a = lk_DatabaseName x" "ap_DatabaseType a = lk_DatabaseType x"
            "\<not> IsTerminalApplyState (ap_State a)" unfolding active_for_def by blast
          then have "a \<in> set applies" unfolding applies GetByDatabase_def newest_first_def by simp
          with None a show False by (auto simp: find_None_iff)
        qed
        then show ?thesis using Cons.IH [of "k + 1" "w\<lparr>aw_checks := cw\<rparr>"] Cons.prems act None Inr read by (simp add: seq_def on_checks_def)
      next
        case (Some a)
        then show ?thesis using Cons.prems(1) read Inr by (auto simp: seq_def on_checks_def fail_def say_def stop_def)
      qed
    qed
  qed simp
qed

lemma fail_run: "fail c w = (None, w\<lparr>aw_comments := aw_comments w @ [c]\<rparr>)"
  by (simp add: fail_def stop_def seq_def say_def)

lemma cleared_locks_spec:
  assumes "cleared_locks e u t locks w = (r, w')"
  shows "aw_locks w' = aw_locks w" "r \<noteq> None \<Longrightarrow> r = Some locks"
    "r \<noteq> None \<Longrightarrow> x \<in> set locks \<Longrightarrow> enforcePRCommandActorAuthorization (Some (ae_gates e 0)) (ae_config e) (ct_requestedBy t) (lk_DatabaseName x) = None"
    "stays_active l e \<Longrightarrow> active_for l (cw_db (aw_checks w)) \<Longrightarrow> r \<noteq> None \<Longrightarrow> l \<notin> set locks"
proof -
  obtain r2 w2 where client: "actorAuthorizationClient e u w = (r2, w2)" by fastforce
  note two = client_spec [OF client]
  obtain r3 w3 where auth: "authorize_all e (the r2) t locks w2 = (r3, w3)" by fastforce
  note three = authorize_all_spec [OF auth]
  obtain r4 w4 where refuse: "refuse_active e 0 locks w3 = (r4, w4)" by fastforce
  note four = refuse_active_spec [OF refuse]
  have ran: "r \<noteq> None \<Longrightarrow> r = Some locks \<and> r2 \<noteq> None \<and> r3 = Some () \<and> r4 = Some ()"
    using assms client auth refuse by (auto simp: cleared_locks_def seq_def ret_def fail_run split: option.splits if_splits)
  show "aw_locks w' = aw_locks w" using assms client auth refuse two three four
    by (auto simp: cleared_locks_def seq_def ret_def fail_run split: option.splits if_splits)
  show "r = Some locks" if "r \<noteq> None" using ran [OF that] by simp
  show "enforcePRCommandActorAuthorization (Some (ae_gates e 0)) (ae_config e) (ct_requestedBy t) (lk_DatabaseName x) = None" if "r \<noteq> None" "x \<in> set locks"
    using three(3) [of x] two(3) [of "the r2"] ran [OF that(1)] that(2) without_client by auto
  show "l \<notin> set locks" if "stays_active l e" "active_for l (cw_db (aw_checks w))" "r \<noteq> None"
    using four(2) [of l] that(1,2) ran [OF that(3)] two(2) three(2) by auto
qed

lemma unlock_targets_spec:
  assumes "others_spare l e" "wf_locks (aw_locks w)" "l \<in> set (db_locks (aw_locks w))" "unlock_targets e u t w = (r, w')"
  shows "wf_locks (aw_locks w')" "l \<in> set (db_locks (aw_locks w'))"
    "r = Some locks \<Longrightarrow> x \<in> set locks \<Longrightarrow> x \<in> set (db_locks (aw_locks w')) \<and> may_unlock t x
      \<and> enforcePRCommandActorAuthorization (Some (ae_gates e 0)) (ae_config e) (ct_requestedBy t) (lk_DatabaseName x) = None"
    "stays_active l e \<Longrightarrow> active_for l (cw_db (aw_checks w)) \<Longrightarrow> r = Some locks \<Longrightarrow> l \<notin> set locks"
proof -
  obtain r0 w0 where infer: "unlock_database e u t w = (r0, w0)" by fastforce
  then have w0: "aw_locks w0 = aw_locks w" "aw_checks w0 = aw_checks w"
    by (auto simp: unlock_database_def ret_def fail_run split: if_splits sum.splits)
  obtain r1 w1 where found: "locksForUnlock e t (the r0) w0 = (r1, w1)" by fastforce
  note one = locksForUnlock_spec [OF assms(1) _ _ found, unfolded w0, OF assms(2,3)]
  obtain r2 w2 where cleared: "cleared_locks e u t (case r1 of Some (Inr locks) \<Rightarrow> locks | _ \<Rightarrow> []) w1 = (r2, w2)" by fastforce
  note two = cleared_locks_spec [OF cleared]
  have locks': "aw_locks w' = aw_locks w1 \<or> aw_locks w' = aw_locks w"
    using assms(4) infer found cleared w0 two(1) by (auto simp: unlock_targets_def seq_def fail_run split: option.splits sum.splits)
  have ran: "r1 = Some (Inr locks) \<and> r2 \<noteq> None \<and> w' = w2" if "r = Some locks"
    using assms(4) that infer found cleared two(2) by (auto simp: unlock_targets_def seq_def fail_run split: option.splits sum.splits)
  show "wf_locks (aw_locks w')" "l \<in> set (db_locks (aw_locks w'))" using locks' one assms(2,3) by auto
  show "x \<in> set (db_locks (aw_locks w')) \<and> may_unlock t x
      \<and> enforcePRCommandActorAuthorization (Some (ae_gates e 0)) (ae_config e) (ct_requestedBy t) (lk_DatabaseName x) = None"
    if "r = Some locks" "x \<in> set locks" using ran [OF that(1)] one(4) [of locks x] two(1) two(3) [of x] that(2) by simp
  show "l \<notin> set locks" if "stays_active l e" "active_for l (cw_db (aw_checks w))" "r = Some locks"
    using two(4) [of l] that ran [OF that(3)] one(3) by simp
qed

text \<open>A row that unlock takes is one of the locks it found.\<close>

lemma unlock_keeps_others:
  assumes "others_spare l e" "wf_locks (aw_locks w)" "l \<in> set (db_locks (aw_locks w))" "unlock_targets e u t w = (r, w1)"
    and "\<And>locks. r = Some locks \<Longrightarrow> l \<notin> set locks"
  shows "l \<in> set (db_locks (aw_locks (snd (handleUnlockCommand e u t w))))"
proof (cases r)
  case None
  then show ?thesis using unlock_targets_spec(2) [OF assms(1-4)] assms(4) by (simp add: handleUnlockCommand_def seq_def)
next
  case (Some locks)
  note spec = unlock_targets_spec [OF assms(1-4)]
  have "\<not> lock_selects (lk_DatabaseName x) (lk_DatabaseType x) l" if "x \<in> set locks" for x
    using selects_own_row [OF spec(1) _ spec(2), of x] spec(3) [OF Some that] assms(5) [OF Some] that by auto
  then have "l \<in> set (db_locks (aw_locks (snd (release_all e 1 t locks w1))))" using release_all_spares [OF assms(1) spec(1,2)] by blast
  then show ?thesis using Some assms(4) by (simp add: handleUnlockCommand_def seq_def)
qed

text \<open>
  Unlock takes only what it may (C11). Let the other callers leave the row of a lock alone while the command runs (otherwise a forced unlock can take the lock of a
  new owner, see \<open>force_unlock_takes_new_owner\<close> below). If the lock is gone afterwards, it belonged to the pull request the command was given on, or, with
  force, to no pull request, and its requester is authorised for the database of the lock. And when no apply on that database that is running before the
  command is finished by others while it runs, then there was none: the lock of a database with a running apply is not removed, with or without force.
\<close>

theorem unlock_takes_only_idle_own_locks:
  assumes "others_spare l e" "wf_locks (aw_locks w)" "l \<in> set (db_locks (aw_locks w))"
    and "l \<notin> set (db_locks (aw_locks (snd (handleUnlockCommand e u t w))))"
  shows "may_unlock t l \<and> enforcePRCommandActorAuthorization (Some (ae_gates e 0)) (ae_config e) (ct_requestedBy t) (lk_DatabaseName l) = None
    \<and> (stays_active l e \<longrightarrow> \<not> active_for l (cw_db (aw_checks w)))"
proof -
  obtain r w1 where run: "unlock_targets e u t w = (r, w1)" by fastforce
  with assms unlock_keeps_others [OF assms(1-3) run] obtain locks where "r = Some locks" "l \<in> set locks" by blast
  then show ?thesis using unlock_targets_spec(3,4) [OF assms(1-3) run] by blast
qed

subsection \<open>What the close of a pull request leaves\<close>

lemma release_idle_spares:
  assumes "others_spare l e" "wf_locks d" "l \<in> set (db_locks d)"
    and "\<And>x. x \<in> set locks \<Longrightarrow> (lk_DatabaseName x, lk_DatabaseType x) \<notin> set inFlight \<Longrightarrow> \<not> lock_selects (lk_DatabaseName x) (lk_DatabaseType x) l"
  shows "l \<in> set (db_locks (release_idle e k inFlight locks d))"
  using assms(2-)
proof (induction locks arbitrary: k d)
  case (Cons x locks)
  show ?case
  proof (cases "(lk_DatabaseName x, lk_DatabaseType x) \<in> set inFlight")
    case False
    have "env_spares l (ae_locks e k 0)" using assms(1) by (simp add: others_spare_def)
    from sparesD [OF Release_spares [OF this] Cons.prems(1,2)] Cons.prems(3) [OF _ False]
    show ?thesis using Cons.IH Cons.prems(3) False by simp
  qed (use Cons in simp)
qed simp

definition of_pr :: "string \<Rightarrow> int \<Rightarrow> Lock \<Rightarrow> bool" where
  "of_pr repo pr l \<longleftrightarrow> sql_eq (lk_Repository l) repo \<and> lk_PullRequest l = pr"

text \<open>An apply of the pull request on the lock's database that is not terminal.\<close>

definition runs_for :: "string \<Rightarrow> int \<Rightarrow> Lock \<Rightarrow> check_db \<Rightarrow> bool" where
  "runs_for repo pr l d \<longleftrightarrow> (\<exists>a \<in> set (db_applies (ck_db d)). sql_eq (ap_Repository a) repo \<and> ap_PullRequest a = pr
     \<and> ap_Database a = lk_DatabaseName l \<and> ap_DatabaseType a = lk_DatabaseType l \<and> \<not> IsTerminalApplyState (ap_State a))"

lemma runs_in_flight:
  "runs_for repo pr l d \<Longrightarrow> (lk_DatabaseName l, lk_DatabaseType l) \<in> set (inFlightAppliesForClosedPR (GetByPR repo pr (ck_db d)))"
  unfolding runs_for_def inFlightAppliesForClosedPR_def GetByPR_def newest_first_def by (force simp: image_iff)

lemma releaseLocksForClosedPR_spares:
  assumes others: "others_spare l e" and "wf_locks (aw_locks w)" "l \<in> set (db_locks (aw_locks w))"
    and kept: "\<not> of_pr repo pr l \<or> (lk_DatabaseName l, lk_DatabaseType l) \<in> set inFlight"
  shows "l \<in> set (db_locks (aw_locks (releaseLocksForClosedPR e repo pr inFlight w)))"
    and "aw_checks (releaseLocksForClosedPR e repo pr inFlight w) = aw_checks w"
proof -
  obtain got d where run: "exec_stmt (ae_locks e 0 0) 0 (\<lambda>d. (Inr (lk_GetByPR repo pr d), d)) (aw_locks w) = (got, d)" by fastforce
  have "env_spares l (ae_locks e 0 0)" using others by (simp add: others_spare_def)
  from sparesD [OF exec_read_spares [OF this, of 0 "lk_GetByPR repo pr"] assms(2,3)]
  have d: "wf_locks d" "l \<in> set (db_locks d)" using run by simp_all
  show "aw_checks (releaseLocksForClosedPR e repo pr inFlight w) = aw_checks w"
    by (simp add: releaseLocksForClosedPR_def split: prod.splits sum.splits)
  show "l \<in> set (db_locks (aw_locks (releaseLocksForClosedPR e repo pr inFlight w)))"
  proof (cases got)
    case (Inr locks)
    then have locks: "locks = lk_GetByPR repo pr d" using exec_read [OF run] by simp
    have "\<not> lock_selects (lk_DatabaseName x) (lk_DatabaseType x) l"
      if "x \<in> set locks" "(lk_DatabaseName x, lk_DatabaseType x) \<notin> set inFlight" for x
      using selects_own_row [OF d(1) _ d(2), of x] that kept by (auto simp: locks lk_GetByPR_def of_pr_def)
    from release_idle_spares [OF others d this] show ?thesis using run Inr by (simp add: releaseLocksForClosedPR_def)
  qed (use run d in \<open>simp add: releaseLocksForClosedPR_def\<close>)
qed

text \<open>
  Closing a pull request leaves running applies alone: among callers that leave a lock's row alone, the lock stays when it belongs to another pull
  request, or when an apply of this one on its database is not terminal; and every stored check that an apply in progress owns stays as it is.
\<close>

theorem close_spares_running_applies:
  assumes "others_spare l e" "wf_locks (aw_locks w)" "l \<in> set (db_locks (aw_locks w))"
    and "of_pr repo pr l \<Longrightarrow> runs_for repo pr l (se_between (ce_env (ae_checks e 0) 0 0) 0 (cw_db (aw_checks w)))"
    and "env_keeps_owned (ce_env (ae_checks e 0) 0 0)" "env_keeps_owned (ce_env (ae_checks e 1) 0 0)"
  shows "l \<in> set (db_locks (aw_locks (handlePRClosed e repo pr w)))
    \<and> keeps_owned (cw_db (aw_checks w)) (cw_db (aw_checks (handlePRClosed e repo pr w)))"
proof -
  let ?read = "read_world (ae_checks e 0) 0 (\<lambda>d. GetByPR repo pr (ck_db d)) (aw_checks w)"
  obtain got cw where read: "?read = (got, cw)" by fastforce
  have cw: "cw_db cw = se_between (ce_env (ae_checks e 0) 0 0) 0 (cw_db (aw_checks w))" and applies: "\<forall>y. got = Inr y \<longrightarrow> y = GetByPR repo pr (ck_db (cw_db cw))"
    using read by (auto simp: read_world_def exec_stmt_def Let_def split: option.splits)
  have owned: "keeps_owned (cw_db (aw_checks w)) (cw_db cw)" using assms(5) cw by (simp add: env_keeps_rows_def)
  show ?thesis
  proof (cases got)
    case (Inl err)
    then show ?thesis using read assms(3) owned by (simp add: handlePRClosed_def)
  next
    case (Inr ap)
    let ?w1 = "releaseLocksForClosedPR e repo pr (inFlightAppliesForClosedPR ap) (w\<lparr>aw_checks := cw\<rparr>)"
    have "\<not> of_pr repo pr l \<or> (lk_DatabaseName l, lk_DatabaseType l) \<in> set (inFlightAppliesForClosedPR ap)"
      using assms(4) runs_in_flight [of repo pr l "cw_db cw"] applies Inr by (auto simp: cw)
    from releaseLocksForClosedPR_spares [OF assms(1) _ _ this, of "w\<lparr>aw_checks := cw\<rparr>"] assms(2,3)
    have w1: "l \<in> set (db_locks (aw_locks ?w1))" "aw_checks ?w1 = cw" by simp_all
    have "keeps_owned (cw_db cw) (snd (DeleteByPRExcludingApplyOwned (ce_env (ae_checks e 1) 0 0) repo pr (cw_db cw)))"
      by (rule DeleteByPR_keeps [OF assms(6)])
    from keeps_rows_trans [OF owned this] w1 show ?thesis using read Inr owned
      by (cases "inFlightAppliesForClosedPR ap") (simp_all add: handlePRClosed_def Let_def)
  qed
qed

subsection \<open>What the removal of a database leaves\<close>

definition calls_keep :: "(check_db \<Rightarrow> bool) \<Rightarrow> call_env \<Rightarrow> bool" where
  "calls_keep I ce \<longleftrightarrow> (\<forall>call attempt i d. I d \<longrightarrow> I (se_between (ce_env ce call attempt) i d))"

lemma calls_keep_next: "calls_keep I ce \<Longrightarrow> calls_keep I (next_calls k ce)"
  by (simp add: calls_keep_def next_calls_def)

text \<open>
  The contract of an invariant of the check table that a refresh of the aggregate has to keep: storing an aggregate row keeps it. Then every refresh keeps
  it, among callers that do.
\<close>

locale aggregate_safe =
  fixes inv :: "check_db \<Rightarrow> bool"
  assumes upsert_aggregate: "isAggregateCheck check \<Longrightarrow> inv d \<Longrightarrow> inv (if list_ex (same_check_key check) (db_checks d)
      then snd (update_checks (same_check_key check) (check_values now check (chk_ApplyID check)) d) else insert_check now check d)"
begin

lemma read_keeps_inv: "calls_keep inv ce \<Longrightarrow> inv (cw_db cw) \<Longrightarrow> inv (cw_db (snd (read_world ce call f cw)))"
  by (auto simp: read_world_def exec_stmt_def Let_def calls_keep_def split: option.splits)

lemma upsert_keeps_inv:
  assumes keep: "calls_keep inv ce" and stmt: "\<And>d. inv d \<Longrightarrow> inv (if list_ex (same_check_key check) (db_checks d)
      then snd (update_checks (same_check_key check) (check_values now check (chk_ApplyID check)) d) else insert_check now check d)"
    and start: "inv (cw_db cw)"
  shows "inv (cw_db (snd (upsert_world ce call now check cw)))"
proof -
  have once: "inv (snd (upsert_once (ce_env ce call attempt) now check d))" if "inv d" for attempt d
  proof -
    have "inv (se_between (ce_env ce call attempt) 0 d)" using keep that by (simp add: calls_keep_def)
    from stmt [OF this] this show ?thesis
      by (auto simp: upsert_once_def exec_stmt_def Let_def update_checks_def split: option.splits if_splits)
  qed
  then have "retried_attempt (\<lambda>attempt. upsert_once (ce_env ce call attempt) now check) (\<lambda>_. True) (\<lambda>d d'. inv d \<longrightarrow> inv d') (\<lambda>_. True)"
    by unfold_locales (auto, metis snd_conv)
  from retried_attempt.withLockRetry_spec(1) [OF this TrueI prod.collapse [symmetric], of "cw_db cw" "ce_cancelled ce call"] start show ?thesis
    by (auto simp: upsert_world_def ck_Upsert_def split: prod.splits)
qed

lemma upsertAggregateCheckRun_keeps:
  assumes "calls_keep inv ce" "inv (cw_db cw)"
  shows "inv (cw_db (upsertAggregateCheckRun gh ce now repo pr headSHA dbChecks checkName environment cw))"
proof -
  obtain got cw1 where read: "read_world ce 0 (ck_Get repo pr environment aggregateSentinel aggregateSentinel) cw = (got, cw1)" by fastforce
  have cw1: "inv (cw_db cw1)" using read_keeps_inv [OF assms, of 0 "ck_Get repo pr environment aggregateSentinel aggregateSentinel"] read by simp
  have published: "cw_db w2 = cw_db cw1" if "publish_run gh headSHA opts existing cw1 = Some (i, w2)" for opts existing i w2
    using that by (auto simp: publish_run_def Let_def split: option.splits if_splits)
  have "isAggregateCheck (aggregate_row repo pr headSHA environment i has status conclusion)" for i has status conclusion
    by (simp add: isAggregateCheck_def aggregate_row_def)
  from upsert_keeps_inv [OF assms(1) upsert_aggregate [OF this]] cw1 published
  have row: "inv (cw_db (snd (upsert_world ce 1 now (aggregate_row repo pr headSHA environment i has status conclusion) w2)))"
    if "publish_run gh headSHA opts existing cw1 = Some (j, w2)" for i has status conclusion opts existing j w2
    using that by metis
  show ?thesis using cw1 row by (auto simp: upsertAggregateCheckRun_def Let_def read split: prod.splits sum.splits option.splits)
qed

lemma aggregate_environments_keeps:
  "calls_keep inv ce \<Longrightarrow> inv (cw_db cw) \<Longrightarrow> inv (cw_db (aggregate_environments gh ce now repo pr headSHA dbChecks base envs cw))"
proof (induction envs arbitrary: ce cw)
  case (Cons env envs)
  then show ?case using upsertAggregateCheckRun_keeps by (auto simp: Let_def intro!: Cons.IH calls_keep_next)
qed simp

lemma updateAggregateCheck_keeps:
  assumes "calls_keep inv ce" "inv (cw_db cw)"
  shows "inv (cw_db (updateAggregateCheck cfg gh ce now repo pr headSHA cw))"
proof -
  obtain got cw1 where read: "read_world ce 0 (ck_GetByPR repo pr) cw = (got, cw1)" by fastforce
  have cw1: "inv (cw_db cw1)" using read_keeps_inv [OF assms, of 0 "ck_GetByPR repo pr"] read by simp
  show ?thesis using assms(2) cw1 read upsertAggregateCheckRun_keeps [OF calls_keep_next [OF assms(1)] cw1] aggregate_environments_keeps [OF calls_keep_next [OF assms(1)] cw1]
    by (cases got) (simp_all add: updateAggregateCheck_def Let_def)
qed

end

text \<open>\<open>bound key Q d\<close>: the table has a row under the key of \<open>key\<close>, and what is under that key satisfies \<open>Q\<close>.\<close>

definition bound :: "Check \<Rightarrow> (Check \<Rightarrow> bool) \<Rightarrow> check_db \<Rightarrow> bool" where
  "bound key Q d \<longleftrightarrow> (\<exists>r \<in> set (db_checks d). same_check_key key r) \<and> (\<forall>r \<in> set (db_checks d). same_check_key key r \<longrightarrow> Q r)"

lemma check_values_columns:
  "same_check_key key (check_values now check i r) = same_check_key key r"
  "chk_Status (check_values now check i r) = chk_Status check" "chk_Conclusion (check_values now check i r) = chk_Conclusion check"
  "chk_ApplyID (check_values now check i r) = i" "chk_HeadSHA (check_values now check i r) = chk_HeadSHA check"
  "chk_HasChanges (check_values now check i r) = chk_HasChanges check" "chk_CheckRunID (check_values now check i r) = chk_CheckRunID check"
  "chk_BlockingReason (check_values now check i r) = chk_BlockingReason check" "chk_ErrorMessage (check_values now check i r) = chk_ErrorMessage check"
  by (cases r; auto simp: check_values_def same_check_key_def Let_def split: if_splits)+

lemma same_check_key_sym: "same_check_key a b \<longleftrightarrow> same_check_key b a"
  by (auto simp: same_check_key_def sql_eq_def)

lemma same_check_key_trans: "same_check_key a b \<Longrightarrow> same_check_key b c \<Longrightarrow> same_check_key a c"
  by (auto simp: same_check_key_def sql_eq_def)

lemma bound_update:
  assumes "bound key Q d" "\<And>r. sel r \<Longrightarrow> same_check_key key (f r) = same_check_key key r" "\<And>r. sel r \<Longrightarrow> same_check_key key r \<Longrightarrow> Q r \<Longrightarrow> Q (f r)"
  shows "bound key Q (snd (update_checks sel f d))"
proof -
  let ?f = "\<lambda>r. if sel r then f r else r"
  have rows: "set (db_checks (snd (update_checks sel f d))) = ?f ` set (db_checks d)" by (simp add: update_checks_def update_where_def)
  have key: "same_check_key key (?f r) = same_check_key key r" for r using assms(2) by simp
  have "Q (?f r)" if "r \<in> set (db_checks d)" "same_check_key key r" for r using assms(1,3) that by (auto simp: bound_def)
  with assms(1) key show ?thesis unfolding bound_def rows by blast
qed

lemma bound_mono: "bound key P d \<Longrightarrow> (\<And>r. P r \<Longrightarrow> Q r) \<Longrightarrow> bound key Q d"
  by (auto simp: bound_def)

text \<open>The key of a database is not that of an aggregate.\<close>

definition database_key :: "Check \<Rightarrow> bool" where
  "database_key key \<longleftrightarrow> \<not> (sql_eq (chk_DatabaseType key) aggregateSentinel \<and> sql_eq (chk_DatabaseName key) aggregateSentinel)"

interpretation bound_key: aggregate_safe "\<lambda>d. database_key key \<longrightarrow> bound key Q d" for key Q
proof
  fix check d now
  assume agg: "isAggregateCheck check" and bound: "database_key key \<longrightarrow> bound key Q d"
  have other: "\<not> same_check_key key check" if "database_key key"
    using agg that by (auto simp: isAggregateCheck_def same_check_key_def database_key_def sql_eq_def)
  have none: "\<not> same_check_key key r" if "database_key key" "same_check_key check r" for r
    using other [OF that(1)] that(2) same_check_key_sym same_check_key_trans by metis
  have "bound key Q (snd (update_checks (same_check_key check) (check_values now check (chk_ApplyID check)) d))" if "database_key key"
    by (rule bound_update) (use bound that none [OF that] in \<open>simp_all add: check_values_columns\<close>)
  moreover have "bound key Q (insert_check now check d)" if "database_key key"
    using bound that other [OF that] by (auto simp: bound_def insert_check_def same_check_key_def)
  ultimately show "database_key key \<longrightarrow> bound key Q (if list_ex (same_check_key check) (db_checks d)
      then snd (update_checks (same_check_key check) (check_values now check (chk_ApplyID check)) d) else insert_check now check d)" by simp
qed

lemma calls_keep_database: "calls_keep (bound key Q) ce \<Longrightarrow> calls_keep (\<lambda>d. database_key key \<longrightarrow> bound key Q d) ce"
  by (simp add: calls_keep_def)

text \<open>The row that takes the place of one whose database left the pull request after its apply started.\<close>

definition blocked_check :: "string \<Rightarrow> Check \<Rightarrow> Check" where
  "blocked_check headSHA check =
     (let check1 = check\<lparr>chk_HeadSHA := headSHA, chk_HasChanges := True, chk_BlockingReason := blockingReason schemaRemovedAfterApplyBlock,
            chk_ErrorMessage := block_message schemaRemovedAfterApplyBlock\<rparr> in
      if chk_Status check1 = checkStatusInProgress then check1\<lparr>chk_Conclusion := []\<rparr>
      else check1\<lparr>chk_Status := checkStatusCompleted, chk_Conclusion := checkConclusionActionRequired\<rparr>)"

lemma block_eq:
  "blockStaleStartedApplyCheckState e ce headSHA check cw
     = (case upsert_world ce 0 (ae_now e) (blocked_check headSHA check) cw of (err, cw1) \<Rightarrow> (err = None, cw1))"
  by (simp add: blockStaleStartedApplyCheckState_def blocked_check_def Let_def)

lemma blocked_key [simp]: "same_check_key (blocked_check headSHA check) r = same_check_key check r" "chk_ApplyID (blocked_check headSHA check) = chk_ApplyID check"
  by (simp_all add: blocked_check_def same_check_key_def Let_def)

text \<open>
  What the clean-up keeps of a row: a predicate on the columns it writes that holds only once an apply has started and that blocking the row keeps.
\<close>

locale cleanup_keeps =
  fixes Q :: "Check \<Rightarrow> bool" and headSHA :: string
  assumes columns: "Q (check_values now check (chk_ApplyID check) r) \<longleftrightarrow> Q check"
    and started: "Q r \<Longrightarrow> checkHasStartedApply r"
    and block: "Q r \<Longrightarrow> Q (blocked_check headSHA r)"
begin

lemma block_keeps:
  assumes "calls_keep (bound key Q) ce" "bound key Q (cw_db cw)" "database_key key" "same_check_key key check \<Longrightarrow> Q check"
  shows "bound key Q (cw_db (snd (blockStaleStartedApplyCheckState e ce headSHA check cw)))"
proof -
  let ?b = "blocked_check headSHA check"
  have written: "Q (check_values now ?b (chk_ApplyID ?b) r)" if "same_check_key check r" "same_check_key key r" for now r
    using assms(4) block columns that same_check_key_trans [of key r check] same_check_key_sym by blast
  have "database_key key \<longrightarrow> bound key Q (if list_ex (same_check_key ?b) (db_checks d)
      then snd (update_checks (same_check_key ?b) (check_values now ?b (chk_ApplyID ?b)) d) else insert_check now ?b d)"
    if d: "database_key key \<longrightarrow> bound key Q d" for now d
  proof
    assume "database_key key"
    with d have b: "bound key Q d" by simp
    have "bound key Q (snd (update_checks (same_check_key ?b) (check_values now ?b (chk_ApplyID ?b)) d))"
      by (rule bound_update [OF b]) (use written in \<open>simp_all add: check_values_columns\<close>)
    moreover have "bound key Q (insert_check now ?b d)" if "\<not> list_ex (same_check_key ?b) (db_checks d)"
    proof -
      from b obtain r where "r \<in> set (db_checks d)" "same_check_key key r" by (auto simp: bound_def)
      with that have "\<not> same_check_key key ?b" using same_check_key_trans [of ?b key r] same_check_key_sym by (auto simp: list_ex_iff)
      then show ?thesis using b by (auto simp: bound_def insert_check_def same_check_key_def)
    qed
    ultimately show "bound key Q (if list_ex (same_check_key ?b) (db_checks d)
      then snd (update_checks (same_check_key ?b) (check_values now ?b (chk_ApplyID ?b)) d) else insert_check now ?b d)" by simp
  qed
  from bound_key.upsert_keeps_inv [OF calls_keep_database [OF assms(1)] this] assms(2,3) show ?thesis by (simp add: block_eq split_beta)
qed

lemma mark_keeps:
  assumes "calls_keep (bound key Q) ce" "bound key Q (cw_db cw)"
  shows "bound key Q (cw_db (snd (markStalePlanOnlyCheckStateSuccessful e ce headSHA' check cw)))"
proof -
  have between: "bound key Q (se_between (ce_env ce 0 0) i d)" if "bound key Q d" for i d
    using assms(1) that by (simp add: calls_keep_def)
  have "bound key Q (snd (MarkStalePlanSuccessful (ce_env ce 0 0) (ae_now e) c (cw_db cw)))" for c
  proof -
    let ?sel = "\<lambda>r. same_check_key c r \<and> \<not> sql_eq (chk_Status r) checkStatusInProgress \<and> chk_ApplyID r = None"
    have "bound key Q (snd (update_checks ?sel (check_values (ae_now e) c None) (se_between (ce_env ce 0 0) 0 (cw_db cw))))"
      by (rule bound_update [OF between [OF assms(2)]]) (auto simp: check_values_columns checkHasStartedApply_def sql_eq_refl dest: started)
    with between assms(2) show ?thesis
      by (auto simp: MarkStalePlanSuccessful_def exec_stmt_def Let_def update_checks_def split: option.splits sum.splits prod.splits)
  qed
  then show ?thesis by (simp add: markStalePlanOnlyCheckStateSuccessful_def Let_def split_beta)
qed

lemma clean_keeps:
  assumes "database_key key" "\<And>check. check \<in> set checks \<Longrightarrow> same_check_key key check \<Longrightarrow> Q check" "calls_keep (bound key Q) ce" "bound key Q (cw_db cw)"
  shows "bound key Q (cw_db (snd (clean_checks e ce headSHA affectedDatabases checks cleaned cw)))"
  using assms(2-)
proof (induction checks arbitrary: ce cleaned cw)
  case (Cons check checks)
  note next_ce = calls_keep_next [OF Cons.prems(2), of 1]
  have "bound key Q (cw_db (snd (if checkHasStartedApply check then blockStaleStartedApplyCheckState e ce headSHA check cw
      else markStalePlanOnlyCheckStateSuccessful e ce headSHA check cw)))"
    using block_keeps [OF Cons.prems(2,3) assms(1)] mark_keeps [OF Cons.prems(2,3)] Cons.prems(1) by simp
  then show ?case using Cons.IH [OF _ Cons.prems(2,3)] Cons.IH [OF _ next_ce] Cons.prems(1) by (auto split: prod.splits)
qed simp

lemma cleanup_keeps_row:
  assumes "\<forall>k. calls_keep (bound key Q) (ae_checks e k)" "database_key key" "bound key Q (cw_db cw)"
  shows "bound key Q (cw_db (cleanupStaleChecks e repo pr headSHA affectedDatabases cw))"
proof -
  obtain got cw1 where read: "read_world (ae_checks e 0) 0 (ck_GetByPR repo pr) cw = (got, cw1)" by fastforce
  have cw1: "bound key Q (cw_db cw1)"
    using bound_key.read_keeps_inv [OF calls_keep_database, of key Q "ae_checks e 0" cw 0 "ck_GetByPR repo pr"] assms read by simp
  have rows: "Q check" if "got = Inr checks" "check \<in> set checks" "same_check_key key check" for checks check
    using read cw1 that by (auto simp: read_world_def exec_stmt_def Let_def bound_def ck_GetByPR_def split: option.splits)
  have refresh: "bound key Q (cw_db (updateAggregateCheck (ae_check_config e) (ae_gh e) (ae_checks e 2) (ae_now e) repo pr headSHA cw2))"
    if "bound key Q (cw_db cw2)" for cw2
    using bound_key.updateAggregateCheck_keeps [OF calls_keep_database, of key Q "ae_checks e 2" cw2 "ae_check_config e" "ae_gh e" "ae_now e" repo pr headSHA] assms(1,2) that
    by simp
  show ?thesis
  proof (cases got)
    case (Inr checks)
    have "bound key Q (cw_db (snd (clean_checks e (ae_checks e 1) headSHA affectedDatabases checks False cw1)))"
      using clean_keeps [OF assms(2) rows [OF Inr]] assms(1) cw1 by blast
    with refresh Inr read assms(3) show ?thesis by (auto simp: cleanupStaleChecks_def split: prod.splits)
  qed (use read cw1 assms(3) in \<open>simp add: cleanupStaleChecks_def\<close>)
qed

end

text \<open>The row of an apply, and a row as it was before the clean-up or blocked by it.\<close>

definition row_of :: "int \<Rightarrow> Check \<Rightarrow> bool" where
  "row_of i r \<longleftrightarrow> chk_ApplyID r = Some i"

definition check_columns :: "Check \<Rightarrow> (int option \<times> int option \<times> string) \<times> bool \<times> (string \<times> string) \<times> string \<times> string" where
  "check_columns r = ((chk_ApplyID r, chk_CheckRunID r, chk_HeadSHA r), chk_HasChanges r, (chk_Status r, chk_Conclusion r), chk_BlockingReason r, chk_ErrorMessage r)"

definition kept_or_blocked :: "string \<Rightarrow> Check \<Rightarrow> Check \<Rightarrow> bool" where
  "kept_or_blocked headSHA r0 r \<longleftrightarrow> checkHasStartedApply r0 \<and> (check_columns r = check_columns r0 \<or> check_columns r = check_columns (blocked_check headSHA r0))"

interpretation owner_kept: cleanup_keeps "row_of i" headSHA for i headSHA
  by unfold_locales (simp_all add: row_of_def check_values_columns checkHasStartedApply_def)

interpretation row_kept: cleanup_keeps "kept_or_blocked headSHA r0" headSHA for headSHA r0
proof
  show "kept_or_blocked headSHA r0 (check_values now check (chk_ApplyID check) r) \<longleftrightarrow> kept_or_blocked headSHA r0 check" for now check r
    by (simp add: kept_or_blocked_def check_columns_def check_values_columns)
  show "kept_or_blocked headSHA r0 r \<Longrightarrow> checkHasStartedApply r" for r
    by (auto simp: kept_or_blocked_def check_columns_def checkHasStartedApply_def blocked_check_def Let_def)
  have "checkStatusInProgress \<noteq> checkStatusCompleted" by code_simp
  then show "kept_or_blocked headSHA r0 r \<Longrightarrow> kept_or_blocked headSHA r0 (blocked_check headSHA r)" for r
    by (auto simp: kept_or_blocked_def check_columns_def blocked_check_def Let_def split: if_splits)
qed

text \<open>
  Removing a database from a pull request neither passes its check nor takes it from its apply (C12). For the row of a database, not the aggregate, the
  clean-up after a new commit, whatever databases the commit still touches, does the following. If other callers leave the row with its apply \<open>i\<close> during
  the clean-up, it still belongs to \<open>i\<close> afterwards. If moreover an apply has started for it and they do not change what it says, except to
  block it in the same way, then it says the same afterwards, or that it is blocked because its schema was removed: at the new head, with
  changes, and in progress without a conclusion if it was in progress and completed with action required otherwise. The clean-up writes back
  what it read, so a row that another caller changes in between can be overwritten (\<open>cleanup_takes_row_back\<close> below).
\<close>

theorem cleanup_keeps_started_applies:
  assumes "database_key r0"
  shows "((\<forall>k. calls_keep (bound r0 (row_of i)) (ae_checks e k)) \<and> bound r0 (row_of i) (cw_db cw)
      \<longrightarrow> bound r0 (row_of i) (cw_db (cleanupStaleChecks e repo pr headSHA affectedDatabases cw)))
    \<and> ((\<forall>k. calls_keep (bound r0 (kept_or_blocked headSHA r0)) (ae_checks e k)) \<and> bound r0 (\<lambda>r. r = r0) (cw_db cw) \<and> checkHasStartedApply r0
      \<longrightarrow> bound r0 (kept_or_blocked headSHA r0) (cw_db (cleanupStaleChecks e repo pr headSHA affectedDatabases cw)))"
proof -
  have "bound r0 (kept_or_blocked headSHA r0) d" if "bound r0 (\<lambda>r. r = r0) d" "checkHasStartedApply r0" for d
    using that(1) by (rule bound_mono) (use that(2) in \<open>simp add: kept_or_blocked_def\<close>)
  then show ?thesis using owner_kept.cleanup_keeps_row [OF _ assms] row_kept.cleanup_keeps_row [OF _ assms] by blast
qed

subsection \<open>The clean-ups at work\<close>

definition sample_unlock :: unlock_env where
  "sample_unlock = \<lparr>ue_clients = True, ue_find_for_pr = No_Config, ue_find_in_repo = No_Config\<rparr>"

definition waiting_lock :: Lock where
  "waiting_lock = \<lparr>lk_ID = 1, lk_DatabaseName = ''orders'', lk_DatabaseType = ''mysql'', lk_Repository = ''org/app'', lk_PullRequest = 7,
     lk_Owner = ''org/app#7'', lk_PendingPlanID = ''p0'', lk_CreatedAt = 0, lk_UpdatedAt = 0\<rparr>"

text \<open>An apply of the pull request on the lock's database.\<close>

definition running_world :: cmd_world where
  "running_world = waiting_world\<lparr>aw_checks := \<lparr>cw_db = \<lparr>ck_db = empty_db\<lparr>db_applies := [(sample_apply Apply_Running)\<lparr>ap_Database := ''orders'',
     ap_Repository := ''org/app'', ap_PullRequest := 7\<rparr>]\<rparr>, db_checks = [sample_check ''in_progress'' (Some 1) []], next_check_id = 2\<rparr>, cw_published = []\<rparr>\<rparr>"

lemma quiet_spares: "env_spares l quiet"
  by (simp add: env_spares_def spares_def quiet_def)

lemma sample_others_spare: "others_spare l (sample_command_env config ddl)"
  by (simp add: others_spare_def sample_command_env_def quiet_spares)

lemma waiting_lock_in: "waiting_lock \<in> set (db_locks (aw_locks waiting_world))" "wf_locks (aw_locks waiting_world)"
  by (code_simp)+

theorem unlock_takes_only_idle_own_locks_witness:
  "db_locks (aw_locks (snd (handleUnlockCommand (sample_command_env open_config (\<lambda>_. ''ALTER'')) sample_unlock (sample_target [] False) waiting_world))) = []
   \<and> may_unlock (sample_target [] False) waiting_lock"
proof
  show free: "db_locks (aw_locks (snd (handleUnlockCommand (sample_command_env open_config (\<lambda>_. ''ALTER'')) sample_unlock (sample_target [] False) waiting_world))) = []"
    by code_simp
  then have "waiting_lock \<notin> set (db_locks (aw_locks (snd (handleUnlockCommand (sample_command_env open_config (\<lambda>_. ''ALTER'')) sample_unlock
      (sample_target [] False) waiting_world))))" by simp
  from unlock_takes_only_idle_own_locks [OF sample_others_spare waiting_lock_in(2,1) this] show "may_unlock (sample_target [] False) waiting_lock" by simp
qed

lemma unlock_refuses_running_apply:
  "aw_locks (snd (handleUnlockCommand (sample_command_env open_config (\<lambda>_. ''ALTER'')) sample_unlock (sample_target [] False) running_world))
   = aw_locks running_world"
  by code_simp

theorem close_spares_running_applies_witness:
  "db_locks (aw_locks (handlePRClosed (sample_command_env open_config (\<lambda>_. ''ALTER'')) ''org/app'' 7 waiting_world)) = []
   \<and> waiting_lock \<in> set (db_locks (aw_locks (handlePRClosed (sample_command_env open_config (\<lambda>_. ''ALTER'')) ''org/app'' 7 running_world)))"
proof
  let ?e = "sample_command_env open_config (\<lambda>_. ''ALTER'')"
  have quiet_checks: "ae_checks ?e k = quiet_calls" for k by (simp add: sample_command_env_def)
  have locks: "aw_locks running_world = aw_locks waiting_world" by (simp add: running_world_def)
  have "runs_for ''org/app'' 7 waiting_lock (cw_db (aw_checks running_world))" by code_simp
  then have "runs_for ''org/app'' 7 waiting_lock (se_between (ce_env (ae_checks ?e 0) 0 0) 0 (cw_db (aw_checks running_world)))"
    by (simp add: quiet_checks quiet_calls_def quiet_def)
  moreover have "env_keeps_owned (ce_env (ae_checks ?e k) 0 0)" for k by (simp add: quiet_checks quiet_calls_def quiet_def env_keeps_rows_def keeps_rows_def)
  ultimately show "waiting_lock \<in> set (db_locks (aw_locks (handlePRClosed ?e ''org/app'' 7 running_world)))"
    using close_spares_running_applies [OF sample_others_spare, of running_world waiting_lock "''org/app''" 7 open_config "\<lambda>_. ''ALTER''"]
      waiting_lock_in unfolding locks by blast
qed code_simp

theorem cleanup_keeps_started_applies_witness:
  "bound (sample_check ''in_progress'' (Some 1) []) (kept_or_blocked ''abc'' (sample_check ''in_progress'' (Some 1) []))
     (cw_db (cleanupStaleChecks (sample_command_env open_config (\<lambda>_. ''ALTER'')) ''o/r'' 7 ''abc'' [] (aw_checks running_world)))
   \<and> map chk_BlockingReason (filter (\<lambda>r. \<not> isAggregateCheck r)
        (db_checks (cw_db (cleanupStaleChecks (sample_command_env open_config (\<lambda>_. ''ALTER'')) ''o/r'' 7 ''abc'' [] (aw_checks running_world)))))
     = [blockingReason schemaRemovedAfterApplyBlock]"
proof
  let ?r = "sample_check ''in_progress'' (Some 1) []" and ?e = "sample_command_env open_config (\<lambda>_. ''ALTER'')"
  have "database_key ?r" by code_simp
  moreover have "\<forall>k. calls_keep (bound ?r (kept_or_blocked ''abc'' ?r)) (ae_checks ?e k)"
    by (simp add: sample_command_env_def calls_keep_def quiet_calls_def quiet_def)
  moreover have "bound ?r (\<lambda>r. r = ?r) (cw_db (aw_checks running_world))" "checkHasStartedApply ?r" by code_simp+
  ultimately show "bound ?r (kept_or_blocked ''abc'' ?r) (cw_db (cleanupStaleChecks ?e ''o/r'' 7 ''abc'' [] (aw_checks running_world)))"
    using cleanup_keeps_started_applies by blast
qed code_simp

text \<open>
  The clean-up writes back the row it read: when another apply claims the database's check between that read and the write, the row goes back to the
  first apply and waits for action, although the second one is in progress.
\<close>

definition next_apply_claims :: "check_db \<Rightarrow> check_db" where
  "next_apply_claims d = d\<lparr>db_checks := map (\<lambda>r. r\<lparr>chk_Status := checkStatusInProgress, chk_Conclusion := [], chk_ApplyID := Some 2\<rparr>) (db_checks d)\<rparr>"

lemma cleanup_takes_row_back:
  "let e = (sample_command_env open_config (\<lambda>_. ''ALTER''))\<lparr>ae_checks := (\<lambda>k. if k = 1 then quiet_calls\<lparr>ce_env := \<lambda>_ _. quiet\<lparr>se_between := \<lambda>_. next_apply_claims\<rparr>\<rparr>
         else quiet_calls)\<rparr>;
       cw = (aw_checks running_world)\<lparr>cw_db := (cw_db (aw_checks running_world))\<lparr>db_checks := [sample_check ''completed'' (Some 1) ''success'']\<rparr>\<rparr> in
   map (\<lambda>r. (chk_ApplyID r, chk_Conclusion r)) (filter (\<lambda>r. \<not> isAggregateCheck r) (db_checks (cw_db (cleanupStaleChecks e ''o/r'' 7 ''abc'' [] cw))))
     = [(Some 1, checkConclusionActionRequired)]
   \<and> map (\<lambda>r. (chk_ApplyID r, chk_Conclusion r)) (db_checks (next_apply_claims (cw_db cw))) = [(Some 2, [])]"
  by code_simp

text \<open>
  A forced unlock that names a lock of no pull request releases it without its owner: when that lock was given back and another pull request took the
  database in between, the release takes the lock of that pull request, which the look-up would have refused to touch.
\<close>

definition cli_world :: cmd_world where
  "cli_world = waiting_world\<lparr>aw_locks := (aw_locks waiting_world)\<lparr>db_locks := [waiting_lock\<lparr>lk_Repository := [], lk_PullRequest := 0, lk_Owner := ''cli:bob''\<rparr>]\<rparr>\<rparr>"

definition lock_passes_on :: "lock_db \<Rightarrow> lock_db" where
  "lock_passes_on d = snd (insert_stmt 5 (waiting_lock\<lparr>lk_PullRequest := 8, lk_Owner := ''org/app#8''\<rparr>)
     (snd (lk_Release quiet ''orders'' ''mysql'' ''cli:bob'' d)))"

lemma force_unlock_takes_new_owner:
  "let e = (sample_command_env open_config (\<lambda>_. ''ALTER''))\<lparr>ae_locks := (\<lambda>k _. if k = 1 then quiet\<lparr>se_between := \<lambda>_. lock_passes_on\<rparr> else quiet)\<rparr>;
       t = (sample_target [] False)\<lparr>ct_result := no_command\<lparr>cmd_Force := True, cmd_Database := ''orders''\<rparr>\<rparr> in
   holder ''orders'' ''mysql'' (lock_passes_on (aw_locks cli_world)) = Some ''org/app#8''
   \<and> holder ''orders'' ''mysql'' (aw_locks (snd (handleUnlockCommand e sample_unlock t cli_world))) = None"
  by code_simp

end
