(* ===== verification/SB_Discovery.thy ===== *)
theory SB_Discovery
  imports SB_Apply_Command "HOL-Library.Monad_Syntax"
begin

section \<open>Finding the schema of a pull request (pkg/github, pkg/schema)\<close>

text \<open>
  Which configuration a pull request is about, which directory holds its schema for an environment, and how the files there form namespaces: config.go and
  schema.go of pkg/github, the reads of client.go behind them and namespace.go of pkg/schema. GitHub's answers and the YAML parser are arguments
  (\<open>repo_view\<close>): every read is made at a commit, and may be answered differently at each attempt. What the code does by ranging over a map depends on the order
  it happens to be visited in; that order is an argument too.
\<close>

subsection \<open>Paths\<close>

text \<open>\<^verbatim>\<open>path.Dir\<close> cleans what is left of the last slash; \<^verbatim>\<open>path.Join\<close> cleans the non-empty elements put together.\<close>

definition dir_part :: "string \<Rightarrow> string" where
  "dir_part p = rev (dropWhile (\<lambda>ch. ch \<noteq> CHR ''/'') (rev p))"

definition path_dir :: "string \<Rightarrow> string" where
  "path_dir p = path_clean (dir_part p)"

definition path_join :: "string \<Rightarrow> string \<Rightarrow> string" where
  "path_join a b = (let parts = filter (\<lambda>s. s \<noteq> []) [a, b] in if parts = [] then [] else path_clean (join_with ''/'' parts))"

fun replace_all :: "string \<Rightarrow> string \<Rightarrow> string \<Rightarrow> string" where
  "replace_all old new [] = []"
| "replace_all old new (c # cs) =
     (if old \<noteq> [] \<and> has_prefix (c # cs) old then new @ replace_all old new (drop (length old - 1) cs) else c # replace_all old new cs)"

subsection \<open>Reading from GitHub (client.go)\<close>

datatype api_error = Api_Status int | Api_Deadline | Api_Timeout | Api_Connection | Api_Other string

definition isGitHubUnavailable :: "api_error \<Rightarrow> bool" where
  "isGitHubUnavailable err = (case err of Api_Status status \<Rightarrow> status \<ge> 500 | Api_Deadline \<Rightarrow> True | Api_Timeout \<Rightarrow> True | Api_Connection \<Rightarrow> True | Api_Other _ \<Rightarrow> False)"

definition githubUnavailableReadRetryMaxAttempts :: nat where "githubUnavailableReadRetryMaxAttempts = 3"

text \<open>\<open>ended k\<close>: the context has ended when the k-th attempt returns; \<open>ends k\<close>: it ends during the wait after it.\<close>

fun retry_read :: "(nat \<Rightarrow> bool) \<Rightarrow> (nat \<Rightarrow> bool) \<Rightarrow> (nat \<Rightarrow> api_error + 'a) \<Rightarrow> nat \<Rightarrow> nat \<Rightarrow> api_error + 'a" where
  "retry_read ended ends get attempt 0 = Inl (Api_Other ''exhausted attempts'')"
| "retry_read ended ends get attempt (Suc left) =
     (case get attempt of
        Inr result \<Rightarrow> Inr result
      | Inl err \<Rightarrow>
          if \<not> isGitHubUnavailable err \<or> attempt = githubUnavailableReadRetryMaxAttempts \<or> ended attempt then Inl err
          else if ends attempt then Inl (Api_Other ''wait to retry GitHub read'')
          else retry_read ended ends get (attempt + 1) left)"

record TreeEntry =
  te_Path :: string
  te_Type :: string
  te_SHA :: string

record dir_entry =
  de_Path :: string
  de_Type :: string

text \<open>An answer of the contents API: a file with its type, link target and, when it can be decoded, its content; a directory; or neither.\<close>

datatype repo_contents = Contents_File string string "string option" | Contents_Dir "dir_entry list" | Contents_None

record SchemabotConfig =
  sc_Database :: string
  sc_Name :: string
  sc_Type :: string

record DiscoveredConfig =
  dcf_Config :: SchemabotConfig
  dcf_Path :: string
  dcf_SchemaDir :: string

text \<open>
  The pull request's head (cached per delivery), the pages of its files by call, page and attempt, contents and trees by commit, blobs by hash, the YAML
  parser, and the orders in which maps are visited.
\<close>

record repo_view =
  rv_ended :: "nat \<Rightarrow> bool"
  rv_ends :: "nat \<Rightarrow> bool"
  rv_head :: "api_error + string"
  rv_files :: "nat \<Rightarrow> nat \<Rightarrow> nat \<Rightarrow> api_error + PRFile list \<times> nat"
  rv_contents :: "string \<Rightarrow> string \<Rightarrow> nat \<Rightarrow> api_error + repo_contents"
  rv_tree :: "string \<Rightarrow> nat \<Rightarrow> api_error + TreeEntry list \<times> bool"
  rv_blob :: "string \<Rightarrow> nat \<Rightarrow> api_error + string option"
  rv_yaml :: "string \<Rightarrow> SchemabotConfig option"
  rv_config_order :: "DiscoveredConfig list \<Rightarrow> DiscoveredConfig list"
  rv_dir_order :: "string list \<Rightarrow> string list"
  rv_file_order :: "(string \<times> string) list \<Rightarrow> (string \<times> string) list"

definition retryGitHubUnavailableRead :: "repo_view \<Rightarrow> (nat \<Rightarrow> api_error + 'a) \<Rightarrow> api_error + 'a" where
  "retryGitHubUnavailableRead rv get = retry_read (rv_ended rv) (rv_ends rv) get 1 githubUnavailableReadRetryMaxAttempts"

datatype find_error =
    ErrNoConfig
  | ErrInvalidConfig "string list"
  | ErrMultipleConfigs "(string \<times> string) list"
  | ErrGitTreeTruncated
  | ErrPRFilesIncomplete
  | ErrDirListingCapped
  | DatabaseNotFoundError string "string list"
  | Ambiguous_Database string "string list"
  | Api_Failure api_error
  | Bad_Config string string
  | Bad_Root string
  | Environment_Refused string
  | File_Error string

definition IsNotFoundError :: "find_error \<Rightarrow> bool" where
  "IsNotFoundError err \<longleftrightarrow> err = Api_Failure (Api_Status 404)"

definition maxGitHubPRFiles :: nat where "maxGitHubPRFiles = 3000"

text \<open>The listing of a pull request's files: page by page until GitHub names no further one. \<open>None\<close>: it never ends.\<close>

partial_function (option) fetch_pages :: "repo_view \<Rightarrow> nat \<Rightarrow> nat \<Rightarrow> PRFile list \<Rightarrow> (find_error + PRFile list) option" where
  "fetch_pages rv call page allFiles =
     (case retryGitHubUnavailableRead rv (rv_files rv call page) of
        Inl err \<Rightarrow> Some (Inl (Api_Failure err))
      | Inr (files, nextPage) \<Rightarrow>
          if length (allFiles @ files) \<ge> maxGitHubPRFiles then Some (Inl ErrPRFilesIncomplete)
          else if nextPage = 0 then Some (Inr (allFiles @ files))
          else fetch_pages rv call nextPage (allFiles @ files))"

declare fetch_pages.simps [code]

definition FetchPRFiles :: "repo_view \<Rightarrow> nat \<Rightarrow> (find_error + PRFile list) option" where
  "FetchPRFiles rv call = fetch_pages rv call 0 []"

definition FetchFileContent :: "repo_view \<Rightarrow> string \<Rightarrow> string \<Rightarrow> find_error + string" where
  "FetchFileContent rv ref filePath =
     (case retryGitHubUnavailableRead rv (rv_contents rv ref filePath) of
        Inl err \<Rightarrow> Inl (Api_Failure err)
      | Inr (Contents_File _ _ content) \<Rightarrow> (case content of None \<Rightarrow> Inl (File_Error ''decode file content'') | Some c \<Rightarrow> Inr c)
      | Inr _ \<Rightarrow> Inl (File_Error ''file not found''))"

definition FetchGitTree :: "repo_view \<Rightarrow> string \<Rightarrow> find_error + TreeEntry list \<times> bool" where
  "FetchGitTree rv ref = (case retryGitHubUnavailableRead rv (rv_tree rv ref) of Inl err \<Rightarrow> Inl (Api_Failure err) | Inr r \<Rightarrow> Inr r)"

definition FetchBlobContent :: "repo_view \<Rightarrow> string \<Rightarrow> find_error + string" where
  "FetchBlobContent rv sha =
     (case retryGitHubUnavailableRead rv (rv_blob rv sha) of
        Inl err \<Rightarrow> Inl (Api_Failure err)
      | Inr None \<Rightarrow> Inl (File_Error ''decode base64 blob'')
      | Inr (Some c) \<Rightarrow> Inr c)"

definition maxGitHubDirEntries :: nat where "maxGitHubDirEntries = 1000"

definition fetchDirectoryContents :: "repo_view \<Rightarrow> string \<Rightarrow> string \<Rightarrow> find_error + dir_entry list" where
  "fetchDirectoryContents rv ref dirPath =
     (case retryGitHubUnavailableRead rv (rv_contents rv ref dirPath) of
        Inl err \<Rightarrow> Inl (Api_Failure err)
      | Inr (Contents_File _ _ _) \<Rightarrow> Inl (File_Error ''expected directory, found file'')
      | Inr Contents_None \<Rightarrow> Inr []
      | Inr (Contents_Dir entries) \<Rightarrow> if length entries \<ge> maxGitHubDirEntries then Inl ErrDirListingCapped else Inr entries)"

subsection \<open>Configurations (config.go)\<close>

definition ConfigFileName :: string where "ConfigFileName = ''schemabot.yaml''"

definition FetchConfig :: "repo_view \<Rightarrow> string \<Rightarrow> string \<Rightarrow> find_error + SchemabotConfig" where
  "FetchConfig rv ref configPath =
     (case FetchFileContent rv ref configPath of
        Inl err \<Rightarrow> Inl (if IsNotFoundError err then ErrNoConfig else err)
      | Inr content \<Rightarrow> (case rv_yaml rv content of
            None \<Rightarrow> Inl (Bad_Config configPath ''invalid schemabot.yaml'')
          | Some config \<Rightarrow>
              if sc_Database config = [] then Inl (Bad_Config configPath ''database is required'')
              else if sc_Type config = [] then Inl (Bad_Config configPath ''type is required'')
              else if sc_Type config \<notin> {DatabaseTypeVitess, DatabaseTypeMySQL, DatabaseTypeStrata} then Inl (Bad_Config configPath ''type must be vitess, mysql or strata'')
              else Inr config))"

definition isSchemaFile :: "string \<Rightarrow> bool" where
  "isSchemaFile filename \<longleftrightarrow> has_suffix filename ''.sql'' \<or> has_suffix filename ''vschema.json''"

definition isConfigFile :: "string \<Rightarrow> bool" where
  "isConfigFile filename \<longleftrightarrow> path_base filename = ConfigFileName"

definition isRemovedPRFile :: "string \<Rightarrow> bool" where
  "isRemovedPRFile status \<longleftrightarrow> equal_fold status ''removed''"

definition configPathForDir :: "string \<Rightarrow> string" where
  "configPathForDir dir = (if dir = ''.'' then ConfigFileName else dir @ ''/'' @ ConfigFileName)"

definition newDiscoveredConfig :: "SchemabotConfig \<Rightarrow> string \<Rightarrow> DiscoveredConfig" where
  "newDiscoveredConfig config dir = \<lparr>dcf_Config = config, dcf_Path = (if dir = ''.'' then ConfigFileName else dir @ ''/'' @ ConfigFileName), dcf_SchemaDir = dir\<rparr>"

text \<open>The maps from directories to configurations.\<close>

definition put_config :: "string \<Rightarrow> DiscoveredConfig \<Rightarrow> (string \<times> DiscoveredConfig) list \<Rightarrow> (string \<times> DiscoveredConfig) list" where
  "put_config dir dc configs = (dir, dc) # filter (\<lambda>(k, _). k \<noteq> dir) configs"

definition sortedConfigs :: "repo_view \<Rightarrow> (string \<times> DiscoveredConfig) list \<Rightarrow> DiscoveredConfig list" where
  "sortedConfigs rv configsByPath = sort_key (sc_Database \<circ> dcf_Config) (rv_config_order rv (map snd configsByPath))"

fun changed_configs :: "repo_view \<Rightarrow> string \<Rightarrow> PRFile list \<Rightarrow> (string \<times> DiscoveredConfig) list \<Rightarrow> find_error + (string \<times> DiscoveredConfig) list" where
  "changed_configs rv ref [] configs = Inr configs"
| "changed_configs rv ref (file # files) configs =
     (if \<not> isConfigFile (prf_Filename file) then changed_configs rv ref files configs
      else if isRemovedPRFile (prf_Status file) then changed_configs rv ref files configs
      else let configDir = path_dir (prf_Filename file) in
           case FetchConfig rv ref (prf_Filename file) of
             Inl err \<Rightarrow> Inl err
           | Inr config \<Rightarrow> changed_configs rv ref files (put_config configDir (newDiscoveredConfig config configDir) configs))"

definition findConfigsChangedInPR :: "repo_view \<Rightarrow> nat \<Rightarrow> string \<Rightarrow> (find_error + DiscoveredConfig list) option" where
  "findConfigsChangedInPR rv call ref =
     do { files \<leftarrow> FetchPRFiles rv call;
          Some (case files of
            Inl err \<Rightarrow> Inl err
          | Inr fs \<Rightarrow> map_sum id (sortedConfigs rv) (changed_configs rv ref fs [])) }"

text \<open>Up from a file: the configuration of its own directory, else of the parent, until the root of the repository.\<close>

lemma clean_segments_length:
  "sum_list (map (\<lambda>s. length s + 1) (clean_segments rooted kept segs)) \<le> sum_list (map (\<lambda>s. length s + 1) kept) + sum_list (map (\<lambda>s. length s + 1) segs)"
proof (induction rooted kept segs rule: clean_segments.induct)
  case (2 rooted kept seg segs)
  then show ?case by (cases kept) (auto split: if_splits)
qed (simp add: rev_map [symmetric])

lemma length_join: "length (join_with ''/'' parts) + 1 = sum_list (map (\<lambda>s. length s + 1) parts) \<or> parts = []"
  by (induction parts rule: induct_list012) auto

lemma path_clean_length:
  assumes "s \<noteq> []"
  shows "length (path_clean s) \<le> length s"
proof -
  let ?len = "\<lambda>parts :: string list. sum_list (map (\<lambda>s. length s + 1) parts)" and ?segs = "split_on CHR ''/'' s"
  have segs: "?len ?segs = length s + 1" using length_join [of ?segs] by (simp add: join_split)
  have bound: "?len (clean_segments rooted [] ?segs) \<le> length s + 1" for rooted using clean_segments_length [of rooted "[]" ?segs] segs by simp
  have body: "length (join_with ''/'' (clean_segments rooted [] ?segs)) \<le> length s" for rooted
    using bound [of rooted] length_join [of "clean_segments rooted [] ?segs"] by (cases "clean_segments rooted [] ?segs") auto
  show ?thesis
  proof (cases "has_prefix s ''/''")
    case True
    then obtain t where t: "s = CHR ''/'' # t" by (cases s) auto
    have "?len (clean_segments True [] ?segs) \<le> ?len (split_on CHR ''/'' t)" using clean_segments_length [of True "[]" "split_on CHR ''/'' t"] t by simp
    moreover have "?len (split_on CHR ''/'' t) = length t + 1" using length_join [of "split_on CHR ''/'' t"] by (simp add: join_split)
    ultimately have "length (join_with ''/'' (clean_segments True [] ?segs)) \<le> length t"
      using length_join [of "clean_segments True [] ?segs"] by (cases "clean_segments True [] ?segs") auto
    then show ?thesis using True t by (simp add: path_clean_def)
  next
    case False
    then show ?thesis using body [of False] assms by (cases s) (auto simp: path_clean_def Let_def)
  qed
qed

lemma split_on_snoc: "split_on sep (s @ [sep]) = split_on sep s @ [[]]"
proof (induction s)
  case (Cons c cs)
  then show ?case using split_on_not_Nil [of sep cs] by (cases "split_on sep cs") auto
qed simp

lemma clean_segments_snoc: "clean_segments rooted kept (segs @ [[]]) = clean_segments rooted kept segs"
  by (induction rooted kept segs rule: clean_segments.induct) (auto split: list.splits)

lemma path_clean_slash: "t \<noteq> [] \<Longrightarrow> path_clean (t @ ''/'') = path_clean t"
proof -
  assume "t \<noteq> []"
  then have "has_prefix (t @ ''/'') ''/'' = has_prefix t ''/''" by (cases t) auto
  then show ?thesis by (simp add: path_clean_def split_on_snoc clean_segments_snoc Let_def)
qed

lemma dir_part_shape: "dir_part p = [] \<or> (\<exists>t rest. dir_part p = t @ ''/'' \<and> p = t @ ''/'' @ rest)"
proof (cases "dropWhile (\<lambda>ch. ch \<noteq> CHR ''/'') (rev p)")
  case (Cons c cs)
  then have c: "c = CHR ''/''" using hd_dropWhile [of "\<lambda>ch. ch \<noteq> CHR ''/''" "rev p"] by auto
  have "rev p = takeWhile (\<lambda>ch. ch \<noteq> CHR ''/'') (rev p) @ c # cs" using Cons by (metis takeWhile_dropWhile_id)
  then have "p = rev cs @ ''/'' @ rev (takeWhile (\<lambda>ch. ch \<noteq> CHR ''/'') (rev p))" using c by (metis append_Cons append_Nil append_assoc rev.simps(2) rev_append rev_rev_ident)
  then show ?thesis using Cons c by (auto simp: dir_part_def)
qed (simp add: dir_part_def)

lemma path_dir_shorter:
  assumes "dir \<noteq> []" "path_dir dir \<noteq> dir"
  shows "path_dir dir = ''.'' \<or> length (path_dir dir) < length dir"
proof (cases "dir_part dir = []")
  case True
  then show ?thesis by (simp add: path_dir_def path_clean_def)
next
  case False
  with dir_part_shape obtain t rest where t: "dir_part dir = t @ ''/''" "dir = t @ ''/'' @ rest" by blast
  show ?thesis
  proof (cases "t = []")
    case True
    then have "path_dir dir = ''/''" using t by (simp add: path_dir_def path_clean_def)
    then show ?thesis using assms(2) t True by (cases rest) auto
  next
    case False
    then have "path_dir dir = path_clean t" using t path_clean_slash by (simp add: path_dir_def)
    then show ?thesis using path_clean_length [OF False] t by simp
  qed
qed

function nearest_config :: "repo_view \<Rightarrow> string \<Rightarrow> string \<Rightarrow> find_error + (SchemabotConfig \<times> string) option" where
  "nearest_config rv ref dir =
     (case FetchConfig rv ref (configPathForDir dir) of
        Inr config \<Rightarrow> Inr (Some (config, dir))
      | Inl err \<Rightarrow>
          if err \<noteq> ErrNoConfig then Inl err
          else if dir = ''.'' \<or> dir = [] then Inr None
          else let parentDir = path_dir dir in if parentDir = dir then Inr None else nearest_config rv ref parentDir)"
  by pat_completeness auto
termination
  by (relation "measure (\<lambda>(_, _, dir). if dir = ''.'' then 0 else length dir + 1)") (use path_dir_shorter in auto)

declare nearest_config.simps [simp del]

definition findNearestConfig :: "repo_view \<Rightarrow> string \<Rightarrow> string \<Rightarrow> find_error + (SchemabotConfig \<times> string) option" where
  "findNearestConfig rv ref filePath = nearest_config rv ref (path_dir filePath)"

fun nearest_configs :: "repo_view \<Rightarrow> string \<Rightarrow> string list \<Rightarrow> (string \<times> DiscoveredConfig) list \<Rightarrow> find_error + (string \<times> DiscoveredConfig) list" where
  "nearest_configs rv ref [] configs = Inr configs"
| "nearest_configs rv ref (schemaFile # schemaFiles) configs =
     (case findNearestConfig rv ref schemaFile of
        Inl err \<Rightarrow> Inl err
      | Inr None \<Rightarrow> nearest_configs rv ref schemaFiles configs
      | Inr (Some (config, configDir)) \<Rightarrow>
          nearest_configs rv ref schemaFiles (if map_of configs configDir \<noteq> None then configs else put_config configDir (newDiscoveredConfig config configDir) configs))"

definition findAllConfigsForPRFiles :: "repo_view \<Rightarrow> string \<Rightarrow> PRFile list \<Rightarrow> find_error + DiscoveredConfig list" where
  "findAllConfigsForPRFiles rv ref files =
     (case changed_configs rv ref files [] of
        Inl err \<Rightarrow> Inl err
      | Inr configs \<Rightarrow> map_sum id (sortedConfigs rv) (nearest_configs rv ref (filter isSchemaFile (map prf_Filename files)) configs))"

definition FindAllConfigsForPR :: "repo_view \<Rightarrow> nat \<Rightarrow> (find_error + DiscoveredConfig list) option" where
  "FindAllConfigsForPR rv call =
     (case rv_head rv of
        Inl err \<Rightarrow> Some (Inl (Api_Failure err))
      | Inr headSHA \<Rightarrow> do { files \<leftarrow> FetchPRFiles rv call;
          Some (case files of Inl err \<Rightarrow> Inl err | Inr fs \<Rightarrow> findAllConfigsForPRFiles rv headSHA fs) })"

text \<open>All configurations of the repository: the readable ones, and the paths of the others.\<close>

definition FindAllConfigs :: "repo_view \<Rightarrow> string \<Rightarrow> find_error + DiscoveredConfig list \<times> string list" where
  "FindAllConfigs rv ref =
     (case FetchGitTree rv ref of
        Inl err \<Rightarrow> Inl err
      | Inr (entries, truncated) \<Rightarrow>
          if truncated then Inl ErrGitTreeTruncated
          else let configPaths = map te_Path (filter (\<lambda>entry. te_Type entry = ''blob'' \<and> has_suffix (te_Path entry) ConfigFileName) entries) in
            Inr (concat (map (\<lambda>configPath. case FetchConfig rv ref configPath of
                    Inl _ \<Rightarrow> []
                  | Inr config \<Rightarrow> [\<lparr>dcf_Config = config, dcf_Path = configPath, dcf_SchemaDir = path_dir configPath\<rparr>]) configPaths),
                 filter (\<lambda>configPath. case FetchConfig rv ref configPath of Inl _ \<Rightarrow> True | Inr _ \<Rightarrow> False) configPaths))"

definition selectConfigByDatabaseName :: "string \<Rightarrow> DiscoveredConfig list \<Rightarrow> find_error + (SchemabotConfig \<times> string) option" where
  "selectConfigByDatabaseName databaseName configs =
     (let matches = filter (\<lambda>dc. equal_fold (sc_Database (dcf_Config dc)) databaseName) configs in
      case matches of
        [] \<Rightarrow> Inr None
      | [match] \<Rightarrow> Inr (Some (dcf_Config match, dcf_SchemaDir match))
      | _ \<Rightarrow> Inl (Ambiguous_Database databaseName (map dcf_SchemaDir matches)))"

definition config_in_repo_by_name :: "repo_view \<Rightarrow> string \<Rightarrow> string \<Rightarrow> find_error + SchemabotConfig \<times> string" where
  "config_in_repo_by_name rv ref databaseName =
     (case FindAllConfigs rv ref of
        Inl err \<Rightarrow> Inl err
      | Inr (valid, invalid) \<Rightarrow>
          if length valid = 0 \<and> length invalid > 0 then Inl (ErrInvalidConfig invalid)
          else if length valid = 0 then Inl ErrNoConfig
          else (case selectConfigByDatabaseName databaseName valid of
              Inl err \<Rightarrow> Inl err
            | Inr None \<Rightarrow> Inl (DatabaseNotFoundError databaseName (map (sc_Database \<circ> dcf_Config) valid))
            | Inr (Some found) \<Rightarrow> Inr found))"

definition FindConfigByDatabaseName :: "repo_view \<Rightarrow> nat \<Rightarrow> string \<Rightarrow> (find_error + SchemabotConfig \<times> string) option" where
  "FindConfigByDatabaseName rv call databaseName =
     (case rv_head rv of
        Inl err \<Rightarrow> Some (Inl (Api_Failure err))
      | Inr headSHA \<Rightarrow> do { files \<leftarrow> FetchPRFiles rv call;
          Some (case files of
            Inl err \<Rightarrow> Inl err
          | Inr fs \<Rightarrow> (case findAllConfigsForPRFiles rv headSHA fs of
              Inl err \<Rightarrow> Inl err
            | Inr prConfigs \<Rightarrow> (case selectConfigByDatabaseName databaseName prConfigs of
                Inl err \<Rightarrow> Inl err
              | Inr (Some found) \<Rightarrow> Inr found
              | Inr None \<Rightarrow> config_in_repo_by_name rv headSHA databaseName))) })"

definition FindConfigInRepo :: "repo_view \<Rightarrow> find_error + SchemabotConfig \<times> string" where
  "FindConfigInRepo rv =
     (case rv_head rv of
        Inl err \<Rightarrow> Inl (Api_Failure err)
      | Inr headSHA \<Rightarrow> (case FindAllConfigs rv headSHA of
            Inl err \<Rightarrow> Inl err
          | Inr (valid, invalid) \<Rightarrow>
              if length valid = 0 \<and> length invalid > 0 then Inl (ErrInvalidConfig invalid)
              else (case valid of
                  [] \<Rightarrow> Inl ErrNoConfig
                | [dc] \<Rightarrow> Inr (dcf_Config dc, dcf_SchemaDir dc)
                | _ \<Rightarrow> Inl (ErrMultipleConfigs (map (\<lambda>dc. (sc_Database (dcf_Config dc), dcf_SchemaDir dc)) valid)))))"


text \<open>
  The search without a database name: the one configuration the pull request changes; else, of the configurations in the directories above its schema files,
  one at the smallest depth that the visit of the directories comes to first. \<open>None\<close>: the way up from a file never ends.
\<close>

partial_function (option) dirs_above :: "string \<Rightarrow> string list option" where
  "dirs_above dir = (if dir \<noteq> ''.'' \<and> dir \<noteq> [] then do { dirs \<leftarrow> dirs_above (path_dir dir); Some (dir # dirs) } else Some [''.''])"

declare dirs_above.simps [code]

fun dirs_to_search :: "string list \<Rightarrow> string list option" where
  "dirs_to_search [] = Some []"
| "dirs_to_search (file # files) = do { here \<leftarrow> dirs_above (path_dir file); more \<leftarrow> dirs_to_search files; Some (remdups (here @ more)) }"

definition depth_of :: "string \<Rightarrow> nat" where
  "depth_of dir = length (filter (\<lambda>ch. ch = CHR ''/'') dir)"

fun shallowest :: "repo_view \<Rightarrow> string \<Rightarrow> string list \<Rightarrow> (SchemabotConfig \<times> string) option \<Rightarrow> find_error + (SchemabotConfig \<times> string) option" where
  "shallowest rv ref [] best = Inr best"
| "shallowest rv ref (dir # dirs) best =
     (case FetchConfig rv ref (configPathForDir dir) of
        Inl err \<Rightarrow> if err = ErrNoConfig then shallowest rv ref dirs best else Inl err
      | Inr config \<Rightarrow>
          shallowest rv ref dirs (case best of
              None \<Rightarrow> Some (config, dir)
            | Some (_, bestDir) \<Rightarrow> if depth_of dir < depth_of bestDir then Some (config, dir) else best))"

definition config_above_files :: "repo_view \<Rightarrow> string \<Rightarrow> PRFile list \<Rightarrow> (find_error + SchemabotConfig \<times> string) option" where
  "config_above_files rv ref files =
     (let schemaFiles = filter isSchemaFile (map prf_Filename files) in
      if length schemaFiles = 0 then Some (Inl ErrNoConfig)
      else do { dirs \<leftarrow> dirs_to_search schemaFiles;
        Some (case shallowest rv ref (rv_dir_order rv dirs) None of
            Inl err \<Rightarrow> Inl err
          | Inr None \<Rightarrow> Inl ErrNoConfig
          | Inr (Some found) \<Rightarrow> Inr found) })"

definition FindConfigForPR :: "repo_view \<Rightarrow> nat \<Rightarrow> (find_error + SchemabotConfig \<times> string) option" where
  "FindConfigForPR rv call =
     (case rv_head rv of
        Inl err \<Rightarrow> Some (Inl (Api_Failure err))
      | Inr headSHA \<Rightarrow> do { changed \<leftarrow> findConfigsChangedInPR rv call headSHA;
          case changed of
            Inl err \<Rightarrow> Some (Inl err)
          | Inr [dc] \<Rightarrow> Some (Inr (dcf_Config dc, dcf_SchemaDir dc))
          | Inr (dc # dcs) \<Rightarrow> Some (Inl (ErrMultipleConfigs (map (\<lambda>dc. (sc_Database (dcf_Config dc), dcf_SchemaDir dc)) (dc # dcs))))
          | Inr [] \<Rightarrow> do { files \<leftarrow> FetchPRFiles rv (call + 1);
              case files of Inl err \<Rightarrow> Some (Inl err) | Inr fs \<Rightarrow> config_above_files rv headSHA fs } })"

subsection \<open>The schema directory and its files (schema.go)\<close>

definition validateEnvironmentPathSegment :: "string \<Rightarrow> find_error option" where
  "validateEnvironmentPathSegment environment =
     (if environment = ''.'' \<or> environment = ''..'' \<or> CHR ''/'' \<in> set environment \<or> CHR 0x5C \<in> set environment
      then Some (Bad_Root ''environment must be a single path segment'') else None)"

definition schemaPathWithinDirectory :: "string \<Rightarrow> string \<Rightarrow> bool" where
  "schemaPathWithinDirectory directory candidate =
     (let dir = path_clean directory; cand = path_clean candidate in
      if dir = ''.'' then cand = ''.'' \<or> cand \<noteq> ''..'' \<and> \<not> has_prefix cand ''../'' \<and> \<not> has_prefix cand ''/''
      else cand = dir \<or> has_prefix cand (dir @ ''/''))"

definition resolveSchemaRootSymlinkTarget :: "string \<Rightarrow> string \<Rightarrow> string \<Rightarrow> find_error + string" where
  "resolveSchemaRootSymlinkTarget configDir symlinkPath target =
     (let t = trim_space target in
      if t = [] then Inl (Bad_Root ''symlink has empty target'')
      else if has_prefix t ''/'' then Inl (Bad_Root ''symlink points to absolute path'')
      else let resolved = path_clean (path_join (path_dir symlinkPath) t) in
        if \<not> schemaPathWithinDirectory (path_clean configDir) resolved then Inl (Bad_Root ''symlink points outside schema directory'')
        else Inr resolved)"

definition resolveSchemaRootForEnvironment :: "repo_view \<Rightarrow> string \<Rightarrow> string \<Rightarrow> string \<Rightarrow> find_error + string" where
  "resolveSchemaRootForEnvironment rv ref configDir environment =
     (if environment = [] then Inr configDir
      else case validateEnvironmentPathSegment environment of
          Some err \<Rightarrow> Inl err
        | None \<Rightarrow>
            (let candidate = path_join configDir environment in
             case retryGitHubUnavailableRead rv (rv_contents rv ref candidate) of
               Inl err \<Rightarrow> if IsNotFoundError (Api_Failure err) then Inr configDir else Inl (Api_Failure err)
             | Inr (Contents_Dir _) \<Rightarrow> Inr candidate
             | Inr Contents_None \<Rightarrow> Inl (Bad_Root ''environment schema root is not a directory or symlink'')
             | Inr (Contents_File kind target _) \<Rightarrow>
                 if kind \<noteq> ''symlink'' then Inl (Bad_Root ''environment schema root is not a directory or symlink'')
                 else (case resolveSchemaRootSymlinkTarget configDir candidate target of
                     Inl err \<Rightarrow> Inl err
                   | Inr resolved \<Rightarrow> (case retryGitHubUnavailableRead rv (rv_contents rv ref resolved) of
                         Inl err \<Rightarrow> Inl (Api_Failure err)
                       | Inr (Contents_Dir _) \<Rightarrow> Inr resolved
                       | Inr _ \<Rightarrow> Inl (Bad_Root ''symlink points to non-directory path'')))))"

definition isManagedSchemaFile :: "string \<Rightarrow> bool" where
  "isManagedSchemaFile filePath \<longleftrightarrow> has_suffix filePath ''.sql'' \<or> path_base filePath = ''vschema.json''"

record GitHubFile =
  gf_Name :: string
  gf_Content :: string
  gf_Path :: string

fun sub_entries :: "repo_view \<Rightarrow> string \<Rightarrow> dir_entry list \<Rightarrow> find_error + dir_entry list" where
  "sub_entries rv ref [] = Inr []"
| "sub_entries rv ref (entry # entries) =
     (if de_Type entry \<noteq> ''dir'' then sub_entries rv ref entries
      else case fetchDirectoryContents rv ref (de_Path entry) of
          Inl err \<Rightarrow> Inl err
        | Inr subs \<Rightarrow> map_sum id ((@) subs) (sub_entries rv ref entries))"

definition schemaDirectoryEntries :: "repo_view \<Rightarrow> string \<Rightarrow> string \<Rightarrow> find_error + dir_entry list" where
  "schemaDirectoryEntries rv ref schemaPath =
     (case fetchDirectoryContents rv ref schemaPath of
        Inl err \<Rightarrow> Inl err
      | Inr rootEntries \<Rightarrow> map_sum id (\<lambda>subs. sort_key de_Path (rootEntries @ subs)) (sub_entries rv ref rootEntries))"

text \<open>The files are fetched in parallel; which of several failures is reported is not determined.\<close>

fun fetch_all :: "('f \<Rightarrow> find_error + string) \<Rightarrow> ('f \<Rightarrow> string) \<Rightarrow> 'f list \<Rightarrow> find_error + GitHubFile list" where
  "fetch_all get pathOf [] = Inr []"
| "fetch_all get pathOf (f # fs) =
     (case get f of
        Inl err \<Rightarrow> Inl err
      | Inr content \<Rightarrow> map_sum id ((#) \<lparr>gf_Name = path_base (pathOf f), gf_Content = content, gf_Path = pathOf f\<rparr>) (fetch_all get pathOf fs))"

definition fetchSchemaFilesFromTree :: "repo_view \<Rightarrow> string \<Rightarrow> string \<Rightarrow> find_error + GitHubFile list" where
  "fetchSchemaFilesFromTree rv headSHA schemaPath =
     (case FetchGitTree rv headSHA of
        Inl err \<Rightarrow> Inl err
      | Inr (entries, truncated) \<Rightarrow>
          if truncated then Inl ErrGitTreeTruncated
          else let prefix = schemaPath @ ''/'';
                   filesToFetch = filter (\<lambda>entry. te_Type entry = ''blob'' \<and> has_prefix (te_Path entry) prefix \<and> isManagedSchemaFile (te_Path entry)
                     \<and> depth_of (drop (length prefix) (te_Path entry)) \<le> 1) entries in
            map_sum id (sort_key gf_Path) (fetch_all (\<lambda>entry. FetchBlobContent rv (te_SHA entry)) te_Path filesToFetch))"

definition FetchSchemaFilesOptimized :: "repo_view \<Rightarrow> string \<Rightarrow> string \<Rightarrow> find_error + GitHubFile list" where
  "FetchSchemaFilesOptimized rv headSHA schemaPath =
     (case schemaDirectoryEntries rv headSHA schemaPath of
        Inl err \<Rightarrow> if IsNotFoundError err then fetchSchemaFilesFromTree rv headSHA schemaPath else Inl err
      | Inr entries \<Rightarrow>
          (let filesToFetch = filter (\<lambda>entry. de_Type entry = ''file'' \<and> isManagedSchemaFile (de_Path entry)) entries in
           map_sum id (sort_key gf_Path) (fetch_all (\<lambda>entry. FetchFileContent rv headSHA (de_Path entry)) de_Path filesToFetch)))"

subsection \<open>Namespaces (pkg/schema/namespace.go)\<close>

definition put_file :: "string \<Rightarrow> string \<Rightarrow> string \<Rightarrow> (string \<times> (string \<times> string) list) list \<Rightarrow> (string \<times> (string \<times> string) list) list" where
  "put_file ns filename content result =
     (let files = (case map_of result ns of None \<Rightarrow> [] | Some fs \<Rightarrow> fs) in
      (ns, (filename, content) # filter (\<lambda>(k, _). k \<noteq> filename) files) # filter (\<lambda>(k, _). k \<noteq> ns) result)"

definition is_flat :: "string \<Rightarrow> bool" where
  "is_flat relativePath \<longleftrightarrow> path_dir relativePath = ''.'' \<or> path_dir relativePath = []"

definition is_schema_name :: "string \<Rightarrow> bool" where
  "is_schema_name filename \<longleftrightarrow> has_suffix filename ''.sql'' \<or> filename = ''vschema.json''"

definition namespace_of :: "string \<Rightarrow> string \<Rightarrow> string \<Rightarrow> string" where
  "namespace_of defaultNamespace environment relativePath =
     (let ns = (if is_flat relativePath then defaultNamespace else path_dir relativePath) in
      if environment \<noteq> [] then replace_all ''$ENV'' environment ns else ns)"

definition GroupFilesByNamespace :: "repo_view \<Rightarrow> (string \<times> string) list \<Rightarrow> string \<Rightarrow> string \<Rightarrow> find_error + (string \<times> (string \<times> string) list) list" where
  "GroupFilesByNamespace rv files defaultNamespace environment =
     (let schemaFiles = filter (\<lambda>(relativePath, _). is_schema_name (path_base relativePath)) (rv_file_order rv files) in
      if list_ex (\<lambda>(relativePath, _). is_flat relativePath) schemaFiles \<and> list_ex (\<lambda>(relativePath, _). \<not> is_flat relativePath) schemaFiles
      then Inl (File_Error ''schema directory has both flat files and namespace subdirectories'')
      else Inr (fold (\<lambda>(relativePath, content). put_file (namespace_of defaultNamespace environment relativePath) (path_base relativePath) content) schemaFiles []))"

fun relative_files :: "string \<Rightarrow> GitHubFile list \<Rightarrow> (string \<times> string) list \<Rightarrow> find_error + (string \<times> string) list" where
  "relative_files base [] rawFiles = Inr rawFiles"
| "relative_files base (file # files) rawFiles =
     (if \<not> has_prefix (gf_Path file) base then Inl (File_Error ''file path does not start with schema path'')
      else let relPath = drop (length base) (gf_Path file) in
        relative_files base files ((relPath, gf_Content file) # filter (\<lambda>(k, _). k \<noteq> relPath) rawFiles))"

definition groupFilesByNamespace :: "repo_view \<Rightarrow> GitHubFile list \<Rightarrow> string \<Rightarrow> string \<Rightarrow> find_error + (string \<times> (string \<times> string) list) list" where
  "groupFilesByNamespace rv files schemaPath environment =
     (case relative_files (schemaPath @ ''/'') files [] of
        Inl err \<Rightarrow> Inl err
      | Inr rawFiles \<Rightarrow> GroupFilesByNamespace rv rawFiles (path_base schemaPath) environment)"

subsection \<open>The schema request (schema.go)\<close>

record schema_with_files = SchemaRequestResult +
  sr_SchemaFiles :: "(string \<times> (string \<times> string) list) list"

text \<open>What follows once a configuration is chosen.\<close>

definition request_for_config :: "repo_view \<Rightarrow> (string \<Rightarrow> string \<Rightarrow> string option) \<Rightarrow> string \<Rightarrow> SchemabotConfig \<Rightarrow> string \<Rightarrow> find_error + schema_with_files" where
  "request_for_config rv validate environment config configDir =
     (case validate (sc_Database config) environment of
        Some err \<Rightarrow> Inl (Environment_Refused err)
      | None \<Rightarrow> (case rv_head rv of
          Inl err \<Rightarrow> Inl (Api_Failure err)
        | Inr headSHA \<Rightarrow> (case resolveSchemaRootForEnvironment rv headSHA configDir environment of
            Inl err \<Rightarrow> Inl err
          | Inr schemaRoot \<Rightarrow> (case FetchSchemaFilesOptimized rv headSHA schemaRoot of
              Inl err \<Rightarrow> Inl err
            | Inr files \<Rightarrow> (case groupFilesByNamespace rv files schemaRoot environment of
                Inl err \<Rightarrow> Inl err
              | Inr schemaFiles \<Rightarrow>
                  if length schemaFiles = 0 then Inl (File_Error ''no schema files found'')
                  else Inr \<lparr>sr_Database = sc_Database config, sr_Type = sc_Type config, sr_HeadSHA = headSHA, sr_SchemaPath = schemaRoot,
                         sr_Environments = [], sr_SchemaFiles = schemaFiles\<rparr>)))))"

definition CreateSchemaRequestFromPR :: "repo_view \<Rightarrow> (string \<Rightarrow> string \<Rightarrow> string option) \<Rightarrow> string \<Rightarrow> string \<Rightarrow> (find_error + schema_with_files) option" where
  "CreateSchemaRequestFromPR rv validate environment databaseName =
     do { found \<leftarrow> (if databaseName \<noteq> [] then FindConfigByDatabaseName rv 0 databaseName
            else do { r \<leftarrow> FindConfigForPR rv 0; Some (if r = Inl ErrNoConfig then FindConfigInRepo rv else r) });
          Some (case found of Inl err \<Rightarrow> Inl err | Inr (config, configDir) \<Rightarrow> request_for_config rv validate environment config configDir) }"

subsection \<open>Paths of a repository\<close>

text \<open>The paths GitHub reports: ordinary segments, at least one, and the directories they are in, the root written as a dot.\<close>

definition path_of :: "string list \<Rightarrow> string" where
  "path_of segs = (if segs = [] then ''.'' else join_with ''/'' segs)"

definition repo_dir :: "string \<Rightarrow> bool" where
  "repo_dir p \<longleftrightarrow> list_all plain_segment (segments_of p)"

definition repo_path :: "string \<Rightarrow> bool" where
  "repo_path p \<longleftrightarrow> repo_dir p \<and> p \<noteq> ''.''"

lemma path_of_segs: "path_of (segments_of p) = p"
  by (simp add: path_of_def segments_of_def join_split)

lemma plain_no_slash: "list_all plain_segment segs \<Longrightarrow> p \<in> set segs \<Longrightarrow> CHR ''/'' \<notin> set p"
  by (auto simp: list_all_iff plain_segment_def)

lemma segs_path_of:
  assumes "list_all plain_segment segs"
  shows "segments_of (path_of segs) = segs"
proof (cases segs)
  case (Cons s ss)
  have split: "split_on CHR ''/'' (join_with ''/'' segs) = segs" using Cons by (intro split_join plain_no_slash [OF assms]) simp_all
  have "join_with ''/'' segs \<noteq> ''.''"
  proof
    assume "join_with ''/'' segs = ''.''"
    then show False using split Cons assms by (simp add: plain_segment_def)
  qed
  then show ?thesis using Cons split by (simp add: segments_of_def path_of_def)
qed (simp add: segments_of_def path_of_def)

lemma path_of_not_rooted: "list_all plain_segment segs \<Longrightarrow> \<not> has_prefix (path_of segs) ''/''"
proof (cases segs)
  case (Cons s ss)
  assume "list_all plain_segment segs"
  with Cons obtain c cs where "s = c # cs" "c \<noteq> CHR ''/''" by (cases s) (auto simp: plain_segment_def)
  then show ?thesis using Cons by (cases ss) (simp_all add: path_of_def)
qed (simp add: path_of_def)

lemma path_of_ne: "list_all plain_segment segs \<Longrightarrow> path_of segs \<noteq> []"
proof (cases segs)
  case (Cons s ss)
  assume "list_all plain_segment segs"
  with Cons have "s \<noteq> []" by (simp add: plain_segment_def)
  then show ?thesis using Cons by (cases ss) (simp_all add: path_of_def)
qed (simp add: path_of_def)

lemma path_clean_plain:
  assumes "list_all plain_segment segs"
  shows "path_clean (path_of segs) = path_of segs"
proof (cases "segs = []")
  case False
  have split: "split_on CHR ''/'' (join_with ''/'' segs) = segs" using False by (intro split_join plain_no_slash [OF assms])
  have "join_with ''/'' segs \<noteq> []" using False path_of_ne [OF assms] by (simp add: path_of_def)
  then show ?thesis using False split path_of_not_rooted [OF assms] assms
    by (simp add: path_clean_def path_of_def clean_segments_plain)
qed (simp add: path_of_def path_clean_def)

lemma path_dir_plain:
  assumes "list_all plain_segment segs" "CHR ''/'' \<notin> set name"
  shows "path_dir (join_with ''/'' (segs @ [name])) = path_of segs"
proof (cases "segs = []")
  case True
  have "dir_part name = []" using assms(2) by (auto simp: dir_part_def dropWhile_eq_Nil_conv)
  then show ?thesis using True by (simp add: path_dir_def path_of_def path_clean_def)
next
  case False
  have join: "join_with ''/'' (segs @ [name]) = join_with ''/'' segs @ ''/'' @ name" using False
    by (induction segs rule: induct_list012) auto
  have "dropWhile (\<lambda>ch. ch \<noteq> CHR ''/'') (rev name @ CHR ''/'' # xs) = CHR ''/'' # xs" for xs
    using assms(2) by (induction name rule: rev_induct) auto
  then have "dir_part (join_with ''/'' (segs @ [name])) = join_with ''/'' segs @ ''/''" unfolding join dir_part_def by simp
  moreover have "join_with ''/'' segs \<noteq> []" using path_of_ne [OF assms(1)] False by (simp add: path_of_def)
  ultimately show ?thesis using False path_clean_slash path_clean_plain [OF assms(1)] by (simp add: path_dir_def path_of_def)
qed

text \<open>The directories a path of the repository is in, the innermost first.\<close>

fun up_dirs :: "string list \<Rightarrow> string list" where
  "up_dirs [] = [''.'']"
| "up_dirs (seg # outer) = join_with ''/'' (rev (seg # outer)) # up_dirs outer"

definition enclosing_dirs :: "string \<Rightarrow> string list" where
  "enclosing_dirs p = up_dirs (tl (rev (segments_of p)))"

lemma up_dirs_path: "up_dirs rsegs = path_of (rev rsegs) # (if rsegs = [] then [] else up_dirs (tl rsegs))"
  by (cases rsegs) (simp_all add: path_of_def)

lemma dirs_above_up: "list_all plain_segment rsegs \<Longrightarrow> dirs_above (path_of (rev rsegs)) = Some (up_dirs rsegs)"
proof (induction rsegs)
  case (Cons seg outer)
  have plain: "list_all plain_segment (rev outer)" "plain_segment seg" using Cons.prems by (simp_all add: list_all_iff)
  have "segments_of (path_of (rev (seg # outer))) = rev (seg # outer)" using Cons.prems by (intro segs_path_of) (simp add: list_all_iff)
  then have ne: "path_of (rev (seg # outer)) \<noteq> ''.''" by (auto simp: segments_of_def)
  moreover have "path_of (rev (seg # outer)) \<noteq> []" using Cons.prems by (intro path_of_ne) (simp add: list_all_iff)
  ultimately show ?case using Cons.IH path_dir_plain [OF plain(1), of seg] plain Cons.prems
    by (subst dirs_above.simps) (simp add: path_of_def plain_segment_def)
qed (simp add: dirs_above.simps path_of_def)


lemma repo_path_segments:
  assumes "repo_path p"
  obtains segs name where "segments_of p = segs @ [name]" "list_all plain_segment segs" "plain_segment name" "p = join_with ''/'' (segs @ [name])"
    "path_dir p = path_of segs"
proof -
  have plain: "list_all plain_segment (segments_of p)" "segments_of p \<noteq> []" using assms by (auto simp: repo_path_def repo_dir_def segments_of_def)
  then obtain segs name where split: "segments_of p = segs @ [name]" by (metis rev_exhaust)
  have p: "p = join_with ''/'' (segs @ [name])" using path_of_segs [of p] split by (simp add: path_of_def)
  moreover have "path_dir p = path_of segs" unfolding p using plain split by (intro path_dir_plain) (auto simp: plain_segment_def)
  ultimately show thesis using that plain split by simp
qed

lemma enclosing_dirs_above:
  assumes "repo_path p"
  shows "dirs_above (path_dir p) = Some (enclosing_dirs p)" "repo_dir (path_dir p)"
proof -
  obtain segs name where p: "segments_of p = segs @ [name]" "list_all plain_segment segs" "path_dir p = path_of segs"
    using repo_path_segments [OF assms] by metis
  then show "dirs_above (path_dir p) = Some (enclosing_dirs p)" using dirs_above_up [of "rev segs"] by (simp add: enclosing_dirs_def list_all_iff)
  show "repo_dir (path_dir p)" using p by (simp add: repo_dir_def segs_path_of)
qed

subsection \<open>The nearest configuration\<close>

definition found_at :: "repo_view \<Rightarrow> string \<Rightarrow> string \<Rightarrow> find_error + (SchemabotConfig \<times> string) option" where
  "found_at rv ref dir = map_sum id (\<lambda>config. Some (config, dir)) (FetchConfig rv ref (configPathForDir dir))"

definition has_config :: "repo_view \<Rightarrow> string \<Rightarrow> string \<Rightarrow> bool" where
  "has_config rv ref dir \<longleftrightarrow> FetchConfig rv ref (configPathForDir dir) \<noteq> Inl ErrNoConfig"

lemma nearest_config_up:
  "list_all plain_segment rsegs \<Longrightarrow> nearest_config rv ref (path_of (rev rsegs))
     = (case find (has_config rv ref) (up_dirs rsegs) of None \<Rightarrow> Inr None | Some dir \<Rightarrow> found_at rv ref dir)"
proof (induction rsegs)
  case Nil
  then show ?case by (subst nearest_config.simps) (simp add: path_of_def has_config_def found_at_def split: sum.splits)
next
  case (Cons seg outer)
  have plain: "list_all plain_segment (rev outer)" "plain_segment seg" "list_all plain_segment (rev (seg # outer))"
    using Cons.prems by (simp_all add: list_all_iff)
  let ?dir = "path_of (rev (seg # outer))"
  have segs: "segments_of ?dir = rev (seg # outer)" by (rule segs_path_of [OF plain(3)])
  then have ne: "?dir \<noteq> ''.''" "?dir \<noteq> []" using path_of_ne [OF plain(3)] by (auto simp: segments_of_def)
  have parent: "path_dir ?dir = path_of (rev outer)" using path_dir_plain [OF plain(1), of seg] plain(2) by (simp add: path_of_def plain_segment_def)
  have "path_dir ?dir \<noteq> ?dir"
    using segs segs_path_of [OF plain(1)] unfolding parent by (metis append_self_conv not_Cons_self2 rev.simps(2))
  then have step: "nearest_config rv ref ?dir = (case FetchConfig rv ref (configPathForDir ?dir) of Inr config \<Rightarrow> Inr (Some (config, ?dir))
      | Inl err \<Rightarrow> if err \<noteq> ErrNoConfig then Inl err else nearest_config rv ref (path_of (rev outer)))"
    using ne by (subst nearest_config.simps) (simp add: parent [simplified] split: sum.splits)
  have up: "up_dirs (seg # outer) = ?dir # up_dirs outer" by (simp add: path_of_def)
  show ?case
  proof (cases "has_config rv ref ?dir")
    case True
    then show ?thesis unfolding step up by (simp add: found_at_def has_config_def split: sum.splits)
  next
    case False
    then show ?thesis using Cons.IH Cons.prems unfolding step up by (simp add: has_config_def)
  qed
qed

text \<open>
  The nearest configuration: for a path of the repository the walk up its directories ends, and its result is that of the innermost directory above the
  file that has a configuration file; a directory without one is passed over, and any failure to read one is reported rather than passed over.
\<close>

theorem nearest_config_is_innermost:
  assumes "repo_path filePath"
  shows "findNearestConfig rv ref filePath
    = (case find (has_config rv ref) (enclosing_dirs filePath) of None \<Rightarrow> Inr None | Some dir \<Rightarrow> found_at rv ref dir)"
proof -
  obtain segs name where p: "segments_of filePath = segs @ [name]" "list_all plain_segment segs" "path_dir filePath = path_of segs"
    using repo_path_segments [OF assms] by metis
  have "list_all plain_segment (rev segs)" using p(2) by (simp add: list_all_iff)
  from nearest_config_up [OF this] show ?thesis using p by (simp add: findNearestConfig_def enclosing_dirs_def)
qed


subsection \<open>The listing of a pull request's files\<close>

lemma fetch_pages_ends:
  assumes "\<And>page files nextPage. retryGitHubUnavailableRead rv (rv_files rv call page) = Inr (files, nextPage) \<Longrightarrow> (nextPage \<noteq> 0 \<longrightarrow> files \<noteq> []) \<and> list_all P files"
    and "list_all P allFiles"
  shows "\<exists>r. fetch_pages rv call page allFiles = Some r \<and> (\<forall>files. r = Inr files \<longrightarrow> length files < maxGitHubPRFiles \<and> list_all P files)"
  using assms(2)
proof (induction "maxGitHubPRFiles - length allFiles" arbitrary: page allFiles rule: less_induct)
  case less
  show ?case
  proof (cases "retryGitHubUnavailableRead rv (rv_files rv call page)")
    case (Inr found)
    obtain files nextPage where found: "found = (files, nextPage)" by fastforce
    have files: "nextPage \<noteq> 0 \<longrightarrow> files \<noteq> []" "list_all P files" using assms(1) Inr found by blast+
    show ?thesis
    proof (cases "length (allFiles @ files) \<ge> maxGitHubPRFiles \<or> nextPage = 0")
      case True
      then show ?thesis using Inr found files less.prems by (subst fetch_pages.simps) auto
    next
      case False
      then have "maxGitHubPRFiles - length (allFiles @ files) < maxGitHubPRFiles - length allFiles" using files by (cases files) auto
      from less.hyps [OF this, of nextPage] show ?thesis using Inr found False files less.prems by (subst fetch_pages.simps) auto
    qed
  qed (subst fetch_pages.simps, simp)
qed

text \<open>
  The listing of files ends (C24): when every page that names a next one has files on it, which is how GitHub pages a listing, the loop over the pages
  returns, and what it returns is an error or fewer files than the number at which GitHub cuts a listing off.
\<close>

theorem pr_files_listing_ends:
  assumes "\<forall>page files nextPage. retryGitHubUnavailableRead rv (rv_files rv call page) = Inr (files, nextPage) \<longrightarrow> nextPage \<noteq> 0 \<longrightarrow> files \<noteq> []"
  shows "\<exists>r. FetchPRFiles rv call = Some r \<and> (\<forall>files. r = Inr files \<longrightarrow> length files < maxGitHubPRFiles)"
  using fetch_pages_ends [of rv call "\<lambda>_. True" "[]" 0] assms unfolding FetchPRFiles_def by (auto simp: list_all_iff)

subsection \<open>The configurations of a pull request\<close>

lemma join_snoc: "join_with ''/'' (segs @ [name]) = (if segs = [] then name else join_with ''/'' segs @ ''/'' @ name)"
  by (induction segs rule: induct_list012) auto

lemma path_base_plain:
  assumes "plain_segment name"
  shows "path_base (join_with ''/'' (segs @ [name])) = name"
proof -
  let ?p = "join_with ''/'' (segs @ [name])"
  obtain c cs where name: "rev name = c # cs" using assms by (cases "rev name") (auto simp: plain_segment_def)
  have clean: "\<forall>ch \<in> set (rev name). ch \<noteq> CHR ''/''" using assms by (auto simp: plain_segment_def)
  obtain xs where p: "rev ?p = rev name @ xs" "xs = [] \<or> hd xs = CHR ''/''" by (cases "segs = []") (auto simp: join_snoc)
  have "?p \<noteq> []" using p(1) name by auto
  moreover have "dropWhile (\<lambda>ch. ch = CHR ''/'') (rev ?p) = rev ?p" using p(1) name clean by simp
  moreover have "takeWhile (\<lambda>ch. ch \<noteq> CHR ''/'') (rev ?p) = rev name" using p clean by (cases xs) (auto simp: takeWhile_append)
  ultimately show ?thesis by (simp add: path_base_def)
qed

lemma config_file_path:
  assumes "repo_path p" "isConfigFile p"
  shows "configPathForDir (path_dir p) = p"
proof -
  obtain segs name where p: "list_all plain_segment segs" "plain_segment name" "p = join_with ''/'' (segs @ [name])" "path_dir p = path_of segs"
    using repo_path_segments [OF assms(1)] by metis
  have name: "name = ConfigFileName" using assms(2) path_base_plain [OF p(2), of segs] p(3) by (simp add: isConfigFile_def)
  have "path_of segs = ''.'' \<longleftrightarrow> segs = []" using segs_path_of [OF p(1)] by (auto simp: segments_of_def path_of_def split: if_splits)
  then show ?thesis using p name by (simp add: configPathForDir_def path_of_def join_snoc)
qed


text \<open>A map of configurations as they are at the commit, each under its directory.\<close>

definition configs_at :: "repo_view \<Rightarrow> string \<Rightarrow> (string \<times> DiscoveredConfig) list \<Rightarrow> bool" where
  "configs_at rv ref configs \<longleftrightarrow> distinct (map fst configs)
     \<and> list_all (\<lambda>(dir, dc). dcf_SchemaDir dc = dir \<and> FetchConfig rv ref (configPathForDir dir) = Inr (dcf_Config dc)) configs"

lemma put_config_at:
  assumes "configs_at rv ref configs" "FetchConfig rv ref (configPathForDir dir) = Inr config"
  shows "configs_at rv ref (put_config dir (newDiscoveredConfig config dir) configs)"
proof -
  have "distinct (map fst (filter (\<lambda>(k, _). k \<noteq> dir) configs))" using assms(1) by (simp add: configs_at_def distinct_map_filter)
  then show ?thesis using assms by (auto simp: configs_at_def put_config_def newDiscoveredConfig_def list_all_iff)
qed

lemma put_config_dirs: "fst ` set (put_config dir dc configs) = insert dir (fst ` set configs)"
  by (force simp: put_config_def)

lemma changed_configs_at:
  assumes "changed_configs rv ref files configs = Inr configs'" "configs_at rv ref configs" "list_all (repo_path \<circ> prf_Filename) files"
  shows "configs_at rv ref configs'"
  using assms
proof (induction files arbitrary: configs)
  case (Cons f files)
  show ?case
  proof (cases "isConfigFile (prf_Filename f) \<and> \<not> isRemovedPRFile (prf_Status f)")
    case True
    with Cons.prems(1) obtain config where config: "FetchConfig rv ref (prf_Filename f) = Inr config" by (auto simp: Let_def split: sum.splits)
    have "configPathForDir (path_dir (prf_Filename f)) = prf_Filename f" using True Cons.prems(3) config_file_path by simp
    then show ?thesis using Cons.IH [OF _ put_config_at [OF Cons.prems(2)]] Cons.prems True config by (simp add: Let_def)
  next
    case False
    then show ?thesis using Cons by (auto split: if_splits)
  qed
qed simp

lemma nearest_config_found:
  "nearest_config rv ref dir = Inr (Some (config, found)) \<Longrightarrow> FetchConfig rv ref (configPathForDir found) = Inr config"
proof (induction rv ref dir rule: nearest_config.induct)
  case (1 rv ref dir)
  from 1(2) show ?case by (subst (asm) nearest_config.simps) (auto simp: Let_def dest: 1(1) split: sum.splits if_splits)
qed

lemma nearest_configs_at:
  assumes "nearest_configs rv ref schemaFiles configs = Inr configs'" "configs_at rv ref configs"
  shows "configs_at rv ref configs'" "fst ` set configs \<subseteq> fst ` set configs'"
    "schemaFile \<in> set schemaFiles \<Longrightarrow> findNearestConfig rv ref schemaFile = Inr (Some (config, dir)) \<Longrightarrow> dir \<in> fst ` set configs'"
proof -
  have "configs_at rv ref configs' \<and> fst ` set configs \<subseteq> fst ` set configs'
    \<and> (\<forall>schemaFile config dir. schemaFile \<in> set schemaFiles \<longrightarrow> findNearestConfig rv ref schemaFile = Inr (Some (config, dir)) \<longrightarrow> dir \<in> fst ` set configs')"
    using assms
  proof (induction schemaFiles arbitrary: configs)
    case (Cons schemaFile schemaFiles)
    obtain found where found: "findNearestConfig rv ref schemaFile = Inr found" using Cons.prems(1) by (auto split: sum.splits)
    show ?case
    proof (cases found)
      case None
      then show ?thesis using Cons.IH [OF _ Cons.prems(2)] Cons.prems(1) found by auto
    next
      case (Some cd)
      obtain config dir where cd: "cd = (config, dir)" by fastforce
      let ?next = "if map_of configs dir \<noteq> None then configs else put_config dir (newDiscoveredConfig config dir) configs"
      have "configs_at rv ref ?next"
        using Cons.prems(2) put_config_at found Some cd nearest_config_found by (auto simp: findNearestConfig_def)
      moreover have "fst ` set configs \<subseteq> fst ` set ?next" "dir \<in> fst ` set ?next"
        by (auto simp: put_config_dirs map_of_eq_None_iff)
      ultimately show ?thesis using Cons.IH [of ?next] Cons.prems(1) found Some cd by auto
    qed
  qed simp
  then show "configs_at rv ref configs'" "fst ` set configs \<subseteq> fst ` set configs'"
    "schemaFile \<in> set schemaFiles \<Longrightarrow> findNearestConfig rv ref schemaFile = Inr (Some (config, dir)) \<Longrightarrow> dir \<in> fst ` set configs'" by blast+
qed

text \<open>
  Discovery is sound and complete (C23): the configurations found for a pull request are configuration files of distinct directories as they are at the
  commit, and every changed schema file that has a configuration above it has the nearest one among them.
\<close>

theorem discovery_covers_changes:
  assumes "findAllConfigsForPRFiles rv ref files = Inr configs" "list_all (repo_path \<circ> prf_Filename) files"
    and "\<forall>xs. mset (rv_config_order rv xs) = mset xs"
  shows "distinct (map dcf_SchemaDir configs)
    \<and> list_all (\<lambda>dc. FetchConfig rv ref (configPathForDir (dcf_SchemaDir dc)) = Inr (dcf_Config dc)) configs
    \<and> (\<forall>file config dir. file \<in> set files \<longrightarrow> isSchemaFile (prf_Filename file) \<longrightarrow>
         findNearestConfig rv ref (prf_Filename file) = Inr (Some (config, dir)) \<longrightarrow> dir \<in> dcf_SchemaDir ` set configs)"
proof -
  obtain changed where changed: "changed_configs rv ref files [] = Inr changed" using assms(1) by (auto simp: findAllConfigsForPRFiles_def split: sum.splits)
  then obtain found where found: "nearest_configs rv ref (filter isSchemaFile (map prf_Filename files)) changed = Inr found"
    and configs: "configs = sortedConfigs rv found"
    using assms(1) by (auto simp: findAllConfigsForPRFiles_def map_sum_def split: sum.splits)
  have "configs_at rv ref changed" using changed_configs_at [OF changed _ assms(2)] by (simp add: configs_at_def)
  note at = nearest_configs_at [OF found this]
  have mset: "mset configs = mset (map snd found)" using assms(3) by (simp add: configs sortedConfigs_def)
  then have set: "set configs = snd ` set found" by (metis list.set_map set_mset_mset)
  have dirs: "map dcf_SchemaDir (map snd found) = map fst found" using at(1) by (auto simp: configs_at_def list_all_iff)
  then have "mset (map dcf_SchemaDir configs) = mset (map fst found)" using mset by (metis mset_map)
  then have "distinct (map dcf_SchemaDir configs)" using at(1) by (metis configs_at_def mset_eq_imp_distinct_iff)
  moreover have "dcf_SchemaDir ` set configs = fst ` set found" unfolding set using dirs by (metis image_set list.set_map)
  moreover have "list_all (\<lambda>dc. FetchConfig rv ref (configPathForDir (dcf_SchemaDir dc)) = Inr (dcf_Config dc)) configs"
    using at(1) by (auto simp: configs_at_def list_all_iff set)
  ultimately show ?thesis using at(3) by fastforce
qed


subsection \<open>The schema directory of an environment\<close>

lemma shape_plain: "clean_shape rooted segs \<Longrightarrow> segs = [] \<or> hd segs \<noteq> ''..'' \<Longrightarrow> list_all plain_segment segs"
proof -
  assume "clean_shape rooted segs" "segs = [] \<or> hd segs \<noteq> ''..''"
  then obtain n rest where "segs = replicate n ''..'' @ rest" "list_all plain_segment rest" unfolding clean_shape_def by blast
  moreover from this \<open>segs = [] \<or> hd segs \<noteq> ''..''\<close> have "n = 0" by (cases n) auto
  ultimately show ?thesis by simp
qed

lemma join_dir_environment:
  assumes "repo_dir configDir" "plain_segment environment"
  shows "path_join configDir environment = path_of (segments_of configDir @ [environment])"
proof -
  let ?segs = "segments_of configDir"
  have dir: "configDir = path_of ?segs" and plain: "list_all plain_segment ?segs" using assms(1) path_of_segs [of configDir] by (simp_all add: repo_dir_def)
  then have ne: "configDir \<noteq> []" using path_of_ne [of ?segs] by simp
  show ?thesis
  proof (cases "?segs = []")
    case True
    then have dot: "configDir = ''.''" using dir by (simp add: path_of_def)
    have "split_on CHR ''/'' (''./'' @ environment) = [''.'', environment]" using assms(2) split_on_plain [of "CHR ''/''" environment] by (simp add: plain_segment_def)
    then show ?thesis using dot True assms(2) by (simp add: path_join_def path_clean_def path_of_def plain_segment_def)
  next
    case False
    then have "configDir @ ''/'' @ environment = path_of (?segs @ [environment])" using dir by (simp add: path_of_def join_snoc)
    then show ?thesis using ne assms(2) path_clean_plain [of "?segs @ [environment]"] plain by (simp add: path_join_def plain_segment_def list_all_iff)
  qed
qed

text \<open>\<open>under dir root\<close>: the root is the directory or below it, without a way out.\<close>

definition under_dir :: "string \<Rightarrow> string \<Rightarrow> bool" where
  "under_dir dir root \<longleftrightarrow> prefix (segments_of dir) (segments_of root) \<and> repo_dir root"

lemma within_under:
  assumes "repo_dir dir" "schemaPathWithinDirectory (path_clean dir) (path_clean s)"
  shows "under_dir dir (path_clean s)"
proof -
  let ?r = "path_clean s"
  have plain: "list_all plain_segment (segments_of dir)" using assms(1) by (simp add: repo_dir_def)
  have dir: "path_clean dir = dir" using path_clean_plain [OF plain] by (simp add: path_of_segs)
  have within: "if dir = ''.'' then ?r = ''.'' \<or> ?r \<noteq> ''..'' \<and> \<not> has_prefix ?r ''../'' \<and> \<not> has_prefix ?r ''/'' else ?r = dir \<or> has_prefix ?r (dir @ ''/'')"
    using assms(2) by (simp add: schemaPathWithinDirectory_def dir path_clean_idem Let_def)
  have dir_root: "\<not> has_prefix dir ''/''" using path_of_not_rooted [OF plain] by (simp add: path_of_segs)
  have relative: "\<not> has_prefix ?r ''/''" using within dir_root path_of_ne [OF plain]
    by (auto simp: has_prefix_append path_of_segs append_eq_Cons_conv split: if_splits)
  then have "\<not> has_prefix s ''/''" by (auto simp: path_clean_def Let_def split: if_splits)
  note shape = path_clean_segments [OF this]
  show ?thesis
  proof (cases "?r = dir")
    case True
    then show ?thesis using assms(1) by (simp add: under_dir_def)
  next
    case other: False
    show ?thesis
    proof (cases "dir = ''.''")
      case True
      then have r: "?r \<noteq> ''.''" "?r \<noteq> ''..''" "\<not> has_prefix ?r ''../''" using within other by auto
      have "hd (split_on CHR ''/'' ?r) \<noteq> ''..''"
      proof
        assume hd: "hd (split_on CHR ''/'' ?r) = ''..''"
        then obtain rest where split: "split_on CHR ''/'' ?r = ''..'' # rest" using split_on_not_Nil [of "CHR ''/''" ?r] by (cases "split_on CHR ''/'' ?r") auto
        have "?r = join_with ''/'' (''..'' # rest)" using join_split [of "CHR ''/''" ?r] split by simp
        then show False using r(2,3) by (cases rest) (auto simp: has_prefix_append)
      qed
      then have "list_all plain_segment (segments_of ?r)" using shape r(1) by (auto simp: segments_of_def intro: shape_plain)
      then show ?thesis using True by (simp add: under_dir_def repo_dir_def segments_of_def)
    next
      case False
      with within other obtain t where t: "?r = dir @ ''/'' @ t" by (auto simp: has_prefix_append)
      have r: "?r \<noteq> ''.''" using t by (auto simp: append_eq_Cons_conv)
      have pre: "prefix (segments_of dir) (segments_of ?r)" using prefix_segments [OF False t] False r by (simp add: segments_of_def)
      have "segments_of dir \<noteq> []" using False by (simp add: segments_of_def)
      then have "hd (segments_of ?r) = hd (segments_of dir)" using pre by (auto simp: prefix_def)
      moreover have "hd (segments_of dir) \<noteq> ''..''" using plain \<open>segments_of dir \<noteq> []\<close> by (cases "segments_of dir") (auto simp: plain_segment_def)
      ultimately have "list_all plain_segment (segments_of ?r)" using shape r by (auto simp: segments_of_def intro: shape_plain)
      then show ?thesis using pre by (simp add: under_dir_def repo_dir_def)
    qed
  qed
qed

text \<open>
  The schema directory stays inside: the directory from which the files of an environment are read is the directory of the configuration or one below it,
  named by ordinary segments only - also where the environment's directory is a symbolic link, whatever its target says.
\<close>

lemma schema_root_under:
  assumes "repo_dir configDir" "resolveSchemaRootForEnvironment rv ref configDir environment = Inr root"
  shows "under_dir configDir root"
proof (cases "environment = [] \<or> root = configDir")
  case True
  then show ?thesis using assms by (auto simp: under_dir_def resolveSchemaRootForEnvironment_def)
next
  case False
  let ?candidate = "path_join configDir environment"
  have env: "plain_segment environment" using assms(2) False
    by (auto simp: resolveSchemaRootForEnvironment_def validateEnvironmentPathSegment_def plain_segment_def split: if_splits)
  have candidate: "?candidate = path_of (segments_of configDir @ [environment])" by (rule join_dir_environment [OF assms(1) env])
  have valid: "validateEnvironmentPathSegment environment = None" using assms(2) False
    by (cases "validateEnvironmentPathSegment environment") (simp_all add: resolveSchemaRootForEnvironment_def)
  obtain contents where contents: "retryGitHubUnavailableRead rv (rv_contents rv ref ?candidate) = Inr contents"
    using assms(2) False valid by (cases "retryGitHubUnavailableRead rv (rv_contents rv ref ?candidate)") (simp_all add: resolveSchemaRootForEnvironment_def split: if_splits)
  consider "root = ?candidate" | target where "resolveSchemaRootSymlinkTarget configDir ?candidate target = Inr root"
  proof (cases contents)
    case (Contents_File kind target content)
    obtain resolved where "resolveSchemaRootSymlinkTarget configDir ?candidate target = Inr resolved"
      using assms(2) False valid contents Contents_File
      by (cases "resolveSchemaRootSymlinkTarget configDir ?candidate target") (simp_all add: resolveSchemaRootForEnvironment_def split: if_splits)
    moreover from this have "root = resolved" using assms(2) False valid contents Contents_File
      by (simp add: resolveSchemaRootForEnvironment_def split: if_splits sum.splits repo_contents.splits)
    ultimately show thesis using that(2) by simp
  qed (use assms(2) False valid contents that(1) in \<open>simp_all add: resolveSchemaRootForEnvironment_def\<close>)
  then show ?thesis
  proof cases
    case 1
    have "list_all plain_segment (segments_of configDir @ [environment])" using assms(1) env by (simp add: repo_dir_def)
    from segs_path_of [OF this] show ?thesis using 1 candidate assms(1) env by (simp add: under_dir_def repo_dir_def)
  next
    case (2 target)
    then show ?thesis using within_under [OF assms(1)] by (auto simp: resolveSchemaRootSymlinkTarget_def Let_def split: if_splits)
  qed
qed


subsection \<open>The schema request\<close>

text \<open>A configuration read at the commit, with the directory its file is in.\<close>

definition located :: "repo_view \<Rightarrow> string \<Rightarrow> SchemabotConfig \<times> string \<Rightarrow> bool" where
  "located rv ref found \<longleftrightarrow> (\<exists>path. FetchConfig rv ref path = Inr (fst found) \<and> path_dir path = snd found \<and> repo_dir (snd found))"

lemma located_dir:
  assumes "repo_dir dir" "FetchConfig rv ref (configPathForDir dir) = Inr config"
  shows "located rv ref (config, dir)"
proof -
  let ?segs = "segments_of dir"
  have plain: "list_all plain_segment ?segs" "dir = path_of ?segs" using assms(1) path_of_segs [of dir] by (simp_all add: repo_dir_def)
  have "dir = ''.'' \<longleftrightarrow> ?segs = []" by (simp add: segments_of_def)
  then have "configPathForDir dir = join_with ''/'' (?segs @ [ConfigFileName])" using plain(2) by (metis configPathForDir_def join_snoc path_of_def)
  moreover have "CHR ''/'' \<notin> set ConfigFileName" by (simp add: ConfigFileName_def)
  ultimately have "path_dir (configPathForDir dir) = dir" using path_dir_plain [OF plain(1)] plain(2) by simp
  then show ?thesis using assms unfolding located_def by auto
qed

lemma repo_dir_parent: "repo_dir dir \<Longrightarrow> repo_dir (path_dir dir)"
  using enclosing_dirs_above(2) [of dir] by (cases "dir = ''.''") (auto simp: repo_path_def path_dir_def dir_part_def path_clean_def repo_dir_def segments_of_def)

lemma nearest_config_dir: "nearest_config rv ref dir = Inr (Some (config, found)) \<Longrightarrow> repo_dir dir \<Longrightarrow> repo_dir found"
proof (induction rv ref dir rule: nearest_config.induct)
  case (1 rv ref dir)
  from 1(2) show ?case using repo_dir_parent [OF 1(3)] 1(3)
    by (subst (asm) nearest_config.simps) (auto simp: Let_def dest: 1(1) split: sum.splits if_splits)
qed

lemma put_config_repo_dir: "repo_dir dir \<Longrightarrow> list_all (\<lambda>c. repo_dir (fst c)) configs \<Longrightarrow> list_all (\<lambda>c. repo_dir (fst c)) (put_config dir dc configs)"
  by (auto simp: put_config_def list_all_iff)

lemma changed_configs_dirs:
  assumes "changed_configs rv ref files configs = Inr configs'" "list_all (repo_path \<circ> prf_Filename) files" "list_all (\<lambda>c. repo_dir (fst c)) configs"
  shows "list_all (\<lambda>c. repo_dir (fst c)) configs'"
  using assms
proof (induction files arbitrary: configs)
  case (Cons f files)
  have "repo_dir (path_dir (prf_Filename f))" using Cons.prems(2) enclosing_dirs_above(2) by simp
  then show ?case using Cons.prems by (auto simp: Let_def put_config_repo_dir dest!: Cons.IH split: if_splits sum.splits)
qed simp

lemma nearest_configs_dirs:
  assumes "nearest_configs rv ref schemaFiles configs = Inr configs'" "list_all repo_path schemaFiles" "list_all (\<lambda>c. repo_dir (fst c)) configs"
  shows "list_all (\<lambda>c. repo_dir (fst c)) configs'"
  using assms
proof (induction schemaFiles arbitrary: configs)
  case (Cons f fs)
  obtain found where found: "findNearestConfig rv ref f = Inr found" using Cons.prems(1) by (auto split: sum.splits)
  show ?case
  proof (cases found)
    case None
    then show ?thesis using Cons found by auto
  next
    case (Some cd)
    then have "repo_dir (snd cd)" using found Cons.prems(2) nearest_config_dir enclosing_dirs_above(2) by (cases cd) (simp add: findNearestConfig_def)
    then have "list_all (\<lambda>c. repo_dir (fst c)) (if map_of configs (snd cd) \<noteq> None then configs else put_config (snd cd) (newDiscoveredConfig (fst cd) (snd cd)) configs)"
      using Cons.prems(3) by (simp add: put_config_repo_dir)
    then show ?thesis using Cons.IH Cons.prems found Some by (simp add: split_beta)
  qed
qed simp

text \<open>What GitHub's answers are relied on for: pages that go on are not empty, paths are paths of the repository, and the orders are orders.\<close>

definition wf_view :: "repo_view \<Rightarrow> bool" where
  "wf_view rv \<longleftrightarrow>
     (\<forall>call page files nextPage. retryGitHubUnavailableRead rv (rv_files rv call page) = Inr (files, nextPage) \<longrightarrow>
        (nextPage \<noteq> 0 \<longrightarrow> files \<noteq> []) \<and> list_all (repo_path \<circ> prf_Filename) files)
   \<and> (\<forall>ref entries truncated. FetchGitTree rv ref = Inr (entries, truncated) \<longrightarrow> list_all (repo_path \<circ> te_Path) entries)
   \<and> (\<forall>xs. mset (rv_config_order rv xs) = mset xs) \<and> (\<forall>xs. set (rv_dir_order rv xs) = set xs) \<and> (\<forall>xs. set (rv_file_order rv xs) = set xs)"

lemma FetchPRFiles_ends:
  assumes "wf_view rv"
  obtains r where "FetchPRFiles rv call = Some r" "\<And>files. r = Inr files \<Longrightarrow> list_all (repo_path \<circ> prf_Filename) files"
  using fetch_pages_ends [of rv call "repo_path \<circ> prf_Filename" "[]" 0] assms unfolding FetchPRFiles_def wf_view_def by (auto simp del: comp_apply)

lemma sorted_located:
  assumes "wf_view rv" "configs_at rv ref configs" "list_all (\<lambda>c. repo_dir (fst c)) configs" "dc \<in> set (sortedConfigs rv configs)"
  shows "located rv ref (dcf_Config dc, dcf_SchemaDir dc)"
proof -
  have "mset (sortedConfigs rv configs) = mset (map snd configs)" using assms(1) by (simp add: sortedConfigs_def wf_view_def)
  then have "dc \<in> snd ` set configs" using assms(4) by (metis list.set_map set_mset_mset)
  then obtain dir where "(dir, dc) \<in> set configs" by auto
  with assms(2,3) have "dcf_SchemaDir dc = dir" "FetchConfig rv ref (configPathForDir dir) = Inr (dcf_Config dc)" "repo_dir dir"
    by (auto simp: configs_at_def list_all_iff)
  then show ?thesis using located_dir by simp
qed

lemma findAllConfigsForPRFiles_located:
  assumes "wf_view rv" "findAllConfigsForPRFiles rv ref files = Inr configs" "list_all (repo_path \<circ> prf_Filename) files" "dc \<in> set configs"
  shows "located rv ref (dcf_Config dc, dcf_SchemaDir dc)"
proof -
  obtain changed where changed: "changed_configs rv ref files [] = Inr changed" using assms(2) by (auto simp: findAllConfigsForPRFiles_def split: sum.splits)
  then obtain found where found: "nearest_configs rv ref (filter isSchemaFile (map prf_Filename files)) changed = Inr found"
    and configs: "configs = sortedConfigs rv found"
    using assms(2) by (auto simp: findAllConfigsForPRFiles_def map_sum_def split: sum.splits)
  have one: "configs_at rv ref changed" "list_all (\<lambda>c. repo_dir (fst c)) changed"
    using changed_configs_at [OF changed _ assms(3)] changed_configs_dirs [OF changed assms(3)] by (simp_all add: configs_at_def)
  have "list_all repo_path (filter isSchemaFile (map prf_Filename files))" using assms(3) by (auto simp: list_all_iff)
  from sorted_located [OF assms(1) nearest_configs_at(1) [OF found one(1)] nearest_configs_dirs [OF found this one(2)]] assms(4)
  show ?thesis by (simp add: configs)
qed

lemma select_located:
  assumes "selectConfigByDatabaseName databaseName configs = Inr (Some found)" "\<And>dc. dc \<in> set configs \<Longrightarrow> located rv ref (dcf_Config dc, dcf_SchemaDir dc)"
  shows "located rv ref found" "equal_fold (sc_Database (fst found)) databaseName"
proof -
  obtain dc where "filter (\<lambda>dc. equal_fold (sc_Database (dcf_Config dc)) databaseName) configs = [dc]" "found = (dcf_Config dc, dcf_SchemaDir dc)"
    using assms(1) by (auto simp: selectConfigByDatabaseName_def Let_def split: list.splits)
  then have "dc \<in> set configs" "equal_fold (sc_Database (dcf_Config dc)) databaseName"
    by (metis (mono_tags, lifting) filter_eq_Cons_iff in_set_conv_decomp)+
  then show "located rv ref found" "equal_fold (sc_Database (fst found)) databaseName" using assms(2) \<open>found = _\<close> by simp_all
qed

lemma FindAllConfigs_located:
  assumes "wf_view rv" "FindAllConfigs rv ref = Inr (valid, invalid)" "dc \<in> set valid"
  shows "located rv ref (dcf_Config dc, dcf_SchemaDir dc)"
proof -
  obtain entries truncated where tree: "FetchGitTree rv ref = Inr (entries, truncated)" using assms(2) by (auto simp: FindAllConfigs_def split: sum.splits)
  then have paths: "list_all (repo_path \<circ> te_Path) entries" using assms(1) unfolding wf_view_def by blast
  from assms(2,3) tree obtain entry where "entry \<in> set entries" "FetchConfig rv ref (te_Path entry) = Inr (dcf_Config dc)" "dcf_SchemaDir dc = path_dir (te_Path entry)"
    by (auto simp: FindAllConfigs_def Let_def split: if_splits sum.splits)
  then show ?thesis using paths enclosing_dirs_above(2) unfolding located_def by (auto simp: list_all_iff)
qed


text \<open>The search up the directories of the changed files.\<close>

lemma up_dirs_repo: "list_all plain_segment rsegs \<Longrightarrow> dir \<in> set (up_dirs rsegs) \<Longrightarrow> repo_dir dir"
proof (induction rsegs)
  case (Cons seg outer)
  have "list_all plain_segment (rev (seg # outer))" using Cons.prems(1) by (simp add: list_all_iff)
  from segs_path_of [OF this] this have "repo_dir (join_with ''/'' (rev (seg # outer)))" by (simp add: repo_dir_def path_of_def)
  then show ?case using Cons by auto
qed (simp add: repo_dir_def segments_of_def)

lemma dirs_to_search_repo:
  "list_all repo_path files \<Longrightarrow> \<exists>dirs. dirs_to_search files = Some dirs \<and> list_all repo_dir dirs"
proof (induction files)
  case (Cons f fs)
  obtain segs name where "segments_of f = segs @ [name]" "list_all plain_segment segs" using repo_path_segments [of f] Cons.prems by (metis list.pred_inject(2))
  then have "list_all repo_dir (enclosing_dirs f)" using up_dirs_repo [of "rev segs"] by (auto simp: enclosing_dirs_def list_all_iff)
  then show ?case using Cons enclosing_dirs_above(1) [of f] by (auto simp: list_all_iff)
qed simp

lemma shallowest_located:
  assumes "shallowest rv ref dirs best = Inr (Some found)" "list_all repo_dir dirs" "\<And>b. best = Some b \<Longrightarrow> located rv ref b"
  shows "located rv ref found"
  using assms
proof (induction dirs arbitrary: best)
  case (Cons dir dirs)
  show ?case
  proof (cases "FetchConfig rv ref (configPathForDir dir)")
    case (Inl err)
    then show ?thesis using Cons by (auto split: if_splits)
  next
    case (Inr config)
    have "located rv ref (config, dir)" using Inr Cons.prems(2) located_dir by simp
    then show ?thesis using Cons.prems Inr by (auto split: option.splits if_splits dest!: Cons.IH)
  qed
qed simp

lemma config_above_files_located:
  assumes "wf_view rv" "list_all (repo_path \<circ> prf_Filename) files"
  shows "\<exists>r. config_above_files rv ref files = Some r \<and> (\<forall>found. r = Inr found \<longrightarrow> located rv ref found)"
proof -
  have "list_all repo_path (filter isSchemaFile (map prf_Filename files))" using assms(2) by (auto simp: list_all_iff)
  from dirs_to_search_repo [OF this] obtain dirs where dirs: "dirs_to_search (filter isSchemaFile (map prf_Filename files)) = Some dirs" "list_all repo_dir dirs" by blast
  have "list_all repo_dir (rv_dir_order rv dirs)" using dirs(2) assms(1) by (simp add: wf_view_def list_all_iff)
  from shallowest_located [OF _ this, of rv ref None] show ?thesis
    using dirs(1) by (auto simp: config_above_files_def Let_def split: sum.splits option.splits)
qed

lemma FindConfigForPR_located:
  assumes "wf_view rv" "rv_head rv = Inr headSHA"
  shows "\<exists>r. FindConfigForPR rv call = Some r \<and> (\<forall>found. r = Inr found \<longrightarrow> located rv headSHA found)"
proof -
  obtain files1 where files1: "FetchPRFiles rv call = Some files1" "\<And>fs. files1 = Inr fs \<Longrightarrow> list_all (repo_path \<circ> prf_Filename) fs"
    using FetchPRFiles_ends [OF assms(1)] by blast
  obtain files2 where files2: "FetchPRFiles rv (call + 1) = Some files2" "\<And>fs. files2 = Inr fs \<Longrightarrow> list_all (repo_path \<circ> prf_Filename) fs"
    using FetchPRFiles_ends [OF assms(1)] by blast
  obtain changed where changed: "findConfigsChangedInPR rv call headSHA = Some changed" using files1(1) by (simp add: findConfigsChangedInPR_def)
  show ?thesis
  proof (cases changed)
    case (Inl err)
    then show ?thesis using assms(2) changed by (simp add: FindConfigForPR_def)
  next
    case (Inr dcs)
    then obtain fs configs where fs: "files1 = Inr fs" "changed_configs rv headSHA fs [] = Inr configs" "dcs = sortedConfigs rv configs"
      using changed files1(1) by (auto simp: findConfigsChangedInPR_def map_sum_def split: sum.splits)
    have "configs_at rv headSHA configs" "list_all (\<lambda>c. repo_dir (fst c)) configs"
      using changed_configs_at [OF fs(2) _ files1(2) [OF fs(1)]] changed_configs_dirs [OF fs(2) files1(2) [OF fs(1)]] by (simp_all add: configs_at_def)
    note dc = sorted_located [OF assms(1) this]
    show ?thesis
    proof (cases dcs)
      case Nil
      then show ?thesis using config_above_files_located [OF assms(1), of _ headSHA] files2 assms(2) changed Inr
        by (cases files2) (auto simp: FindConfigForPR_def)
    next
      case (Cons x xs)
      then show ?thesis using dc [of x] fs(3) assms(2) changed Inr by (cases xs) (auto simp: FindConfigForPR_def)
    qed
  qed
qed

lemma config_in_repo_located:
  assumes "wf_view rv" "config_in_repo_by_name rv ref databaseName = Inr found"
  shows "located rv ref found" "equal_fold (sc_Database (fst found)) databaseName"
proof -
  obtain valid invalid where all: "FindAllConfigs rv ref = Inr (valid, invalid)" and sel: "selectConfigByDatabaseName databaseName valid = Inr (Some found)"
    using assms(2) by (auto simp: config_in_repo_by_name_def split: sum.splits if_splits option.splits)
  show "located rv ref found" "equal_fold (sc_Database (fst found)) databaseName"
    using select_located [OF sel, of rv ref] FindAllConfigs_located [OF assms(1) all] by blast+
qed

lemma FindConfigByDatabaseName_located:
  assumes "wf_view rv" "rv_head rv = Inr headSHA"
  shows "\<exists>r. FindConfigByDatabaseName rv call databaseName = Some r
    \<and> (\<forall>found. r = Inr found \<longrightarrow> located rv headSHA found \<and> equal_fold (sc_Database (fst found)) databaseName)"
proof -
  obtain files where files: "FetchPRFiles rv call = Some files" "\<And>fs. files = Inr fs \<Longrightarrow> list_all (repo_path \<circ> prf_Filename) fs"
    using FetchPRFiles_ends [OF assms(1)] by blast
  have "located rv headSHA found \<and> equal_fold (sc_Database (fst found)) databaseName"
    if fs: "files = Inr fs" and run: "FindConfigByDatabaseName rv call databaseName = Some (Inr found)" for fs found
  proof -
    obtain prConfigs where pr: "findAllConfigsForPRFiles rv headSHA fs = Inr prConfigs" using fs run files(1) assms(2)
      by (auto simp: FindConfigByDatabaseName_def split: sum.splits)
    note loc = findAllConfigsForPRFiles_located [OF assms(1) pr files(2) [OF fs]]
    from fs run files(1) assms(2) pr consider "selectConfigByDatabaseName databaseName prConfigs = Inr (Some found)"
      | "config_in_repo_by_name rv headSHA databaseName = Inr found"
      by (auto simp: FindConfigByDatabaseName_def split: sum.splits option.splits)
    then show ?thesis by cases (use select_located [OF _ loc] config_in_repo_located [OF assms(1)] in blast)+
  qed
  then show ?thesis using files(1) assms(2) by (cases files) (auto simp: FindConfigByDatabaseName_def)
qed

lemma FindConfigInRepo_located:
  assumes "wf_view rv" "rv_head rv = Inr headSHA" "FindConfigInRepo rv = Inr found"
  shows "located rv headSHA found"
proof -
  obtain valid invalid where all: "FindAllConfigs rv headSHA = Inr (valid, invalid)" using assms(2,3) by (auto simp: FindConfigInRepo_def split: sum.splits)
  then obtain dc where "dc \<in> set valid" "found = (dcf_Config dc, dcf_SchemaDir dc)"
    using assms(2,3) by (auto simp: FindConfigInRepo_def split: if_splits list.splits)
  then show ?thesis using FindAllConfigs_located [OF assms(1) all] by simp
qed


text \<open>\<open>read_at rv ref path content\<close>: the repository gives this content for the path at the commit, as a file or as a blob of the commit's tree.\<close>

definition read_at :: "repo_view \<Rightarrow> string \<Rightarrow> string \<Rightarrow> string \<Rightarrow> bool" where
  "read_at rv ref path content \<longleftrightarrow> FetchFileContent rv ref path = Inr content
     \<or> (\<exists>entries entry. FetchGitTree rv ref = Inr (entries, False) \<and> entry \<in> set entries \<and> te_Type entry = ''blob'' \<and> te_Path entry = path
         \<and> FetchBlobContent rv (te_SHA entry) = Inr content)"

lemma map_sum_Inr_iff: "map_sum id f x = Inr y \<longleftrightarrow> (\<exists>z. x = Inr z \<and> y = f z)"
  by (cases x) auto

lemma fetch_allD: "fetch_all get pathOf fs = Inr files \<Longrightarrow> g \<in> set files \<Longrightarrow> \<exists>f \<in> set fs. get f = Inr (gf_Content g) \<and> gf_Path g = pathOf f"
  by (induction fs arbitrary: files) (auto simp: map_sum_Inr_iff split: sum.splits)

lemma FetchSchemaFiles_read:
  assumes "FetchSchemaFilesOptimized rv ref root = Inr files" "g \<in> set files"
  shows "read_at rv ref (gf_Path g) (gf_Content g) \<and> isManagedSchemaFile (gf_Path g)"
proof (cases "schemaDirectoryEntries rv ref root")
  case (Inl err)
  then have "fetchSchemaFilesFromTree rv ref root = Inr files" using assms(1) by (simp add: FetchSchemaFilesOptimized_def split: if_splits)
  then show ?thesis using assms(2)
    by (auto simp: fetchSchemaFilesFromTree_def read_at_def Let_def map_sum_Inr_iff split: sum.splits if_splits dest!: fetch_allD)
next
  case (Inr entries)
  then show ?thesis using assms
    by (auto simp: FetchSchemaFilesOptimized_def read_at_def Let_def map_sum_Inr_iff dest!: fetch_allD)
qed

lemma relative_filesD:
  "relative_files base files rawFiles = Inr result \<Longrightarrow> (rel, content) \<in> set result \<Longrightarrow>
     (rel, content) \<in> set rawFiles \<or> (\<exists>g \<in> set files. gf_Path g = base @ rel \<and> gf_Content g = content)"
  by (induction base files rawFiles rule: relative_files.induct) (auto simp: Let_def has_prefix_append split: if_splits)

lemma put_filesD:
  assumes "(ns, fs) \<in> set (fold (\<lambda>(p, content). put_file (nsOf p) (nameOf p) content) files result)" "(filename, content) \<in> set fs"
  shows "(\<exists>fs'. (ns, fs') \<in> set result \<and> (filename, content) \<in> set fs') \<or> (\<exists>p. (p, content) \<in> set files \<and> nsOf p = ns \<and> nameOf p = filename)"
  using assms
proof (induction files arbitrary: result)
  case (Cons pc files)
  obtain p c where pc: "pc = (p, c)" by fastforce
  have step: "(\<exists>fs''. (ns, fs'') \<in> set result \<and> (filename, content) \<in> set fs'') \<or> c = content \<and> nsOf p = ns \<and> nameOf p = filename"
    if "(ns, fs') \<in> set (put_file (nsOf p) (nameOf p) c result)" "(filename, content) \<in> set fs'" for fs'
    using that by (auto simp: put_file_def Let_def split: option.splits dest: map_of_SomeD)
  from Cons.IH [of "put_file (nsOf p) (nameOf p) c result"] Cons.prems pc step show ?case by auto
qed auto

lemma grouped_files_read:
  assumes "FetchSchemaFilesOptimized rv ref root = Inr files" "groupFilesByNamespace rv files root environment = Inr result"
    and "\<forall>xs. set (rv_file_order rv xs) = set xs" "(ns, fs) \<in> set result" "(filename, content) \<in> set fs"
  shows "\<exists>rel. namespace_of (path_base root) environment rel = ns \<and> path_base rel = filename \<and> isManagedSchemaFile (root @ ''/'' @ rel)
    \<and> read_at rv ref (root @ ''/'' @ rel) content"
proof -
  from assms(2) obtain raw where raw: "relative_files (root @ ''/'') files [] = Inr raw" "GroupFilesByNamespace rv raw (path_base root) environment = Inr result"
    by (auto simp: groupFilesByNamespace_def split: sum.splits)
  from raw(2) have "result = fold (\<lambda>(p, content). put_file (namespace_of (path_base root) environment p) (path_base p) content)
      (filter (\<lambda>(p, _). is_schema_name (path_base p)) (rv_file_order rv raw)) []"
    by (simp add: GroupFilesByNamespace_def Let_def split: if_splits)
  from put_filesD [OF assms(4) [unfolded this] assms(5)] assms(3) obtain rel where
    rel: "(rel, content) \<in> set raw" "namespace_of (path_base root) environment rel = ns" "path_base rel = filename" by auto
  from relative_filesD [OF raw(1) rel(1)] obtain g where "g \<in> set files" "gf_Path g = root @ ''/'' @ rel" "gf_Content g = content" by auto
  with FetchSchemaFiles_read [OF assms(1)] rel show ?thesis by metis
qed

definition files_from :: "repo_view \<Rightarrow> string \<Rightarrow> string \<Rightarrow> schema_with_files \<Rightarrow> bool" where
  "files_from rv ref environment s \<longleftrightarrow> sr_SchemaFiles s \<noteq> [] \<and> (\<forall>ns fs filename content. (ns, fs) \<in> set (sr_SchemaFiles s) \<longrightarrow> (filename, content) \<in> set fs \<longrightarrow>
     (\<exists>rel. namespace_of (path_base (sr_SchemaPath s)) environment rel = ns \<and> path_base rel = filename
        \<and> isManagedSchemaFile (sr_SchemaPath s @ ''/'' @ rel) \<and> read_at rv ref (sr_SchemaPath s @ ''/'' @ rel) content))"

lemma request_for_config_spec:
  assumes "request_for_config rv validate environment config configDir = Inr s" "rv_head rv = Inr headSHA" "repo_dir configDir"
    and "\<forall>xs. set (rv_file_order rv xs) = set xs"
  shows "sr_Database s = sc_Database config \<and> sr_Type s = sc_Type config \<and> sr_HeadSHA s = headSHA \<and> validate (sr_Database s) environment = None
    \<and> under_dir configDir (sr_SchemaPath s) \<and> files_from rv headSHA environment s"
proof -
  from assms(1,2) obtain root files schemaFiles where run: "validate (sc_Database config) environment = None"
    "resolveSchemaRootForEnvironment rv headSHA configDir environment = Inr root" "FetchSchemaFilesOptimized rv headSHA root = Inr files"
    "groupFilesByNamespace rv files root environment = Inr schemaFiles" "schemaFiles \<noteq> []"
    "s = \<lparr>sr_Database = sc_Database config, sr_Type = sc_Type config, sr_HeadSHA = headSHA, sr_SchemaPath = root, sr_Environments = [], sr_SchemaFiles = schemaFiles\<rparr>"
    by (auto simp: request_for_config_def split: option.splits sum.splits if_splits)
  with grouped_files_read [OF run(3,4) assms(4)] schema_root_under [OF assms(3) run(2)] show ?thesis by (simp add: files_from_def)
qed

text \<open>
  A schema request is about the pull request (C22): with GitHub answering as it documents, finding the schema of a pull request ends. A request it makes is
  for the database and type of a configuration file read at the head of the pull request - the database that was named, where one was -, in an environment the
  server accepts for it. Its schema directory is the directory of that configuration file or below it; it has at least one file, and each of its
  files has the content that the repository gives, at that head, for a schema file below the schema directory, with the file's name and in the
  namespace of its path.
\<close>

theorem schema_request_sound:
  assumes "wf_view rv" "rv_head rv = Inr headSHA"
  shows "\<exists>r. CreateSchemaRequestFromPR rv validate environment databaseName = Some r
    \<and> (\<forall>s. r = Inr s \<longrightarrow> (\<exists>path config. FetchConfig rv headSHA path = Inr config \<and> sr_Database s = sc_Database config \<and> sr_Type s = sc_Type config
         \<and> (databaseName = [] \<or> equal_fold (sr_Database s) databaseName) \<and> sr_HeadSHA s = headSHA \<and> validate (sr_Database s) environment = None
         \<and> under_dir (path_dir path) (sr_SchemaPath s) \<and> files_from rv headSHA environment s))"
proof -
  let ?search = "if databaseName \<noteq> [] then FindConfigByDatabaseName rv 0 databaseName
    else do { r \<leftarrow> FindConfigForPR rv 0; Some (if r = Inl ErrNoConfig then FindConfigInRepo rv else r) }"
  obtain found where search: "?search = Some found"
    and ok: "\<And>cd. found = Inr cd \<Longrightarrow> located rv headSHA cd \<and> (databaseName = [] \<or> equal_fold (sc_Database (fst cd)) databaseName)"
  proof (cases "databaseName = []")
    case True
    obtain r where "FindConfigForPR rv 0 = Some r" "\<And>cd. r = Inr cd \<Longrightarrow> located rv headSHA cd" using FindConfigForPR_located [OF assms] by blast
    then show thesis using True FindConfigInRepo_located [OF assms] that [of "if r = Inl ErrNoConfig then FindConfigInRepo rv else r"]
      by (cases "r = Inl ErrNoConfig") auto
  next
    case False
    then show thesis using FindConfigByDatabaseName_located [OF assms, of 0 databaseName] that by auto
  qed
  have run: "CreateSchemaRequestFromPR rv validate environment databaseName
      = Some (case found of Inl err \<Rightarrow> Inl err | Inr (config, configDir) \<Rightarrow> request_for_config rv validate environment config configDir)"
    unfolding CreateSchemaRequestFromPR_def search by simp
  show ?thesis
  proof (cases found)
    case (Inl err)
    then show ?thesis using run by simp
  next
    case (Inr cd)
    obtain config dir where cd: "cd = (config, dir)" by fastforce
    obtain path where path: "FetchConfig rv headSHA path = Inr config" "path_dir path = dir" "repo_dir dir"
      using ok [OF Inr] cd by (auto simp: located_def)
    have "\<exists>path config. FetchConfig rv headSHA path = Inr config \<and> sr_Database s = sc_Database config \<and> sr_Type s = sc_Type config
         \<and> (databaseName = [] \<or> equal_fold (sr_Database s) databaseName) \<and> sr_HeadSHA s = headSHA \<and> validate (sr_Database s) environment = None
         \<and> under_dir (path_dir path) (sr_SchemaPath s) \<and> files_from rv headSHA environment s"
      if s: "request_for_config rv validate environment config dir = Inr s" for s
      using request_for_config_spec [OF s assms(2) path(3)] assms(1) [unfolded wf_view_def] path ok [OF Inr] cd by (intro exI [of _ path] exI [of _ config]) auto
    then show ?thesis using run Inr cd by simp
  qed
qed


subsection \<open>Files and namespaces\<close>

definition lookup_file :: "(string \<times> (string \<times> string) list) list \<Rightarrow> string \<Rightarrow> string \<Rightarrow> string option" where
  "lookup_file result ns filename = Option.bind (map_of result ns) (\<lambda>files. map_of files filename)"

lemma map_of_drop: "map_of (filter (\<lambda>(k, _). k \<noteq> a) xs) b = (if b = a then None else map_of xs b)"
  by (induction xs) auto

lemma lookup_put_file:
  "lookup_file (put_file ns filename content result) ns' filename'
   = (if ns' = ns \<and> filename' = filename then Some content else lookup_file result ns' filename')"
  by (auto simp: lookup_file_def put_file_def map_of_drop Let_def split: option.splits)

lemma find_hit: "find P xs = Some x \<Longrightarrow> x \<in> set xs \<and> P x"
  by (induction xs) (auto split: if_splits)

lemma lookup_fold:
  assumes "inj_on (\<lambda>(p, _). key p) (set files)"
  shows "lookup_file (fold (\<lambda>(p, content). put_file (fst (key p)) (snd (key p)) content) files result) ns filename
    = (case find (\<lambda>(p, _). key p = (ns, filename)) files of Some (_, content) \<Rightarrow> Some content | None \<Rightarrow> lookup_file result ns filename)"
  using assms
proof (induction files arbitrary: result)
  case (Cons pc files)
  obtain p content where pc: "pc = (p, content)" by fastforce
  have inj: "inj_on (\<lambda>(p, _). key p) (set files)" using Cons.prems by (auto simp: inj_on_def)
  show ?case
  proof (cases "key p = (ns, filename)")
    case True
    have "q = pc" if "find (\<lambda>(p, _). key p = (ns, filename)) files = Some q" for q
      using Cons.prems True pc find_hit [OF that] by (auto simp: inj_on_def)
    then have "find (\<lambda>(p, _). key p = (ns, filename)) files = None \<or> find (\<lambda>(p, _). key p = (ns, filename)) files = Some pc"
      by (cases "find (\<lambda>(p, _). key p = (ns, filename)) files") auto
    then show ?thesis using Cons.IH [OF inj] pc True by (auto simp: lookup_put_file)
  next
    case False
    then show ?thesis using Cons.IH [OF inj] pc by (auto simp: lookup_put_file split: option.splits)
  qed
qed simp

text \<open>
  Grouping keeps every file: where no two schema files of a directory end up under the same name in the same namespace, the grouped files are exactly the
  schema files, each under its own name in the namespace of its directory, whatever the order in which the files are visited.
\<close>

theorem grouping_keeps_every_file:
  assumes "GroupFilesByNamespace rv files defaultNamespace environment = Inr result" "set (rv_file_order rv files) = set files"
    and "inj_on (\<lambda>(p, _). (namespace_of defaultNamespace environment p, path_base p)) (set (filter (\<lambda>(p, _). is_schema_name (path_base p)) files))"
  shows "lookup_file result ns filename = Some content \<longleftrightarrow>
    (\<exists>p. (p, content) \<in> set files \<and> is_schema_name (path_base p) \<and> namespace_of defaultNamespace environment p = ns \<and> path_base p = filename)"
proof -
  let ?key = "\<lambda>p. (namespace_of defaultNamespace environment p, path_base p)"
  let ?files = "filter (\<lambda>(p, _). is_schema_name (path_base p)) (rv_file_order rv files)"
  have result: "result = fold (\<lambda>(p, content). put_file (fst (?key p)) (snd (?key p)) content) ?files []"
    using assms(1) by (simp add: GroupFilesByNamespace_def Let_def split: if_splits)
  have set: "set ?files = set (filter (\<lambda>(p, _). is_schema_name (path_base p)) files)" using assms(2) by auto
  then have inj: "inj_on (\<lambda>(p, _). ?key p) (set ?files)" using assms(3) by simp
  have look: "lookup_file result ns filename = map_option snd (find (\<lambda>(p, _). ?key p = (ns, filename)) ?files)"
    unfolding result lookup_fold [OF inj] by (simp add: lookup_file_def split: option.splits)
  show ?thesis
  proof
    assume "lookup_file result ns filename = Some content"
    then obtain p where "find (\<lambda>(p, _). ?key p = (ns, filename)) ?files = Some (p, content)" unfolding look by auto
    from find_hit [OF this] have "(p, content) \<in> set ?files" "?key p = (ns, filename)" by auto
    then show "\<exists>p. (p, content) \<in> set files \<and> is_schema_name (path_base p) \<and> namespace_of defaultNamespace environment p = ns \<and> path_base p = filename"
      unfolding set by auto
  next
    assume "\<exists>p. (p, content) \<in> set files \<and> is_schema_name (path_base p) \<and> namespace_of defaultNamespace environment p = ns \<and> path_base p = filename"
    then obtain p where "(p, content) \<in> set files" "is_schema_name (path_base p)" and key: "?key p = (ns, filename)" by auto
    then have p: "(p, content) \<in> set ?files" "?key p = (ns, filename)" unfolding set by simp_all
    then obtain q where q: "find (\<lambda>(p, _). ?key p = (ns, filename)) ?files = Some q" by (cases "find (\<lambda>(p, _). ?key p = (ns, filename)) ?files") (auto simp: find_None_iff)
    from find_hit [OF this] have "q \<in> set ?files" "?key (fst q) = (ns, filename)" by (auto simp: split_beta)
    moreover have "(case q of (p, _) \<Rightarrow> ?key p) = ?key p" using p(2) \<open>?key (fst q) = (ns, filename)\<close> by (simp add: split_beta)
    ultimately have "q = (p, content)" using inj_onD [OF inj, of q "(p, content)"] p(1) by simp
    then show "lookup_file result ns filename = Some content" using q by (simp add: look)
  qed
qed


subsection \<open>Discovery at work\<close>

text \<open>A repository with the given files, each configuration naming the database and type that are its content.\<close>

definition sample_view :: "(string \<times> string) list \<Rightarrow> repo_view" where
  "sample_view files = \<lparr>rv_ended = \<lambda>_. False, rv_ends = \<lambda>_. False, rv_head = Inr ''abc'',
     rv_files = \<lambda>_ page _. Inr (if page = 0 then map (\<lambda>(p, _). \<lparr>prf_Filename = p, prf_Status = ''modified''\<rparr>) (filter (\<lambda>(p, _). isSchemaFile p) files) else [], 0),
     rv_contents = \<lambda>_ p _. (case map_of files p of Some content \<Rightarrow> Inr (Contents_File ''file'' [] (Some content))
       | None \<Rightarrow> let entries = map (\<lambda>(q, _). \<lparr>de_Path = q, de_Type = ''file''\<rparr>) (filter (\<lambda>(q, _). path_dir q = p) files) in
           if entries = [] then Inl (Api_Status 404) else Inr (Contents_Dir entries)),
     rv_tree = \<lambda>_ _. Inr (map (\<lambda>(p, _). \<lparr>te_Path = p, te_Type = ''blob'', te_SHA = p\<rparr>) files, False), rv_blob = \<lambda>sha _. Inr (map_of files sha),
     rv_yaml = \<lambda>content. Some \<lparr>sc_Database = content, sc_Name = [], sc_Type = ''mysql''\<rparr>,
     rv_config_order = \<lambda>xs. xs, rv_dir_order = \<lambda>xs. xs, rv_file_order = \<lambda>xs. xs\<rparr>"

definition two_configs :: repo_view where
  "two_configs = sample_view [(''db/orders/t.sql'', ''CREATE''), (''db/schemabot.yaml'', ''shop''), (''db/orders/schemabot.yaml'', ''orders'')]"

theorem nearest_config_is_innermost_witness:
  "findNearestConfig two_configs ''abc'' ''db/orders/t.sql'' = Inr (Some (\<lparr>sc_Database = ''orders'', sc_Name = [], sc_Type = ''mysql''\<rparr>, ''db/orders''))"
proof -
  have path: "repo_path ''db/orders/t.sql''" by code_simp
  have "(case find (has_config two_configs ''abc'') (enclosing_dirs ''db/orders/t.sql'') of None \<Rightarrow> Inr None | Some dir \<Rightarrow> found_at two_configs ''abc'' dir)
      = Inr (Some (\<lparr>sc_Database = ''orders'', sc_Name = [], sc_Type = ''mysql''\<rparr>, ''db/orders''))" by code_simp
  then show ?thesis using nearest_config_is_innermost [OF path] by simp
qed

theorem pr_files_listing_ends_witness:
  "\<exists>r. FetchPRFiles two_configs 0 = Some r"
proof -
  have "nextPage = 0" if "retryGitHubUnavailableRead two_configs (rv_files two_configs 0 page) = Inr (files, nextPage)" for page files nextPage
    using that by (simp add: two_configs_def sample_view_def retryGitHubUnavailableRead_def githubUnavailableReadRetryMaxAttempts_def eval_nat_numeral)
  then have "\<forall>page files nextPage. retryGitHubUnavailableRead two_configs (rv_files two_configs 0 page) = Inr (files, nextPage) \<longrightarrow> nextPage \<noteq> 0 \<longrightarrow> files \<noteq> []" by blast
  from pr_files_listing_ends [OF this] show ?thesis by blast
qed

theorem discovery_covers_changes_witness:
  "\<exists>configs. findAllConfigsForPRFiles two_configs ''abc'' [\<lparr>prf_Filename = ''db/orders/t.sql'', prf_Status = ''modified''\<rparr>] = Inr configs
     \<and> ''db/orders'' \<in> dcf_SchemaDir ` set configs"
proof -
  let ?file = "\<lparr>prf_Filename = ''db/orders/t.sql'', prf_Status = ''modified''\<rparr>" and ?config = "\<lparr>sc_Database = ''orders'', sc_Name = [], sc_Type = ''mysql''\<rparr>"
  have run: "findAllConfigsForPRFiles two_configs ''abc'' [?file] = Inr [newDiscoveredConfig ?config ''db/orders'']" by code_simp
  have paths: "list_all (repo_path \<circ> prf_Filename) [?file]" by code_simp
  have order: "\<forall>xs. mset (rv_config_order two_configs xs) = mset xs" by (simp add: two_configs_def sample_view_def)
  have near: "isSchemaFile (prf_Filename ?file)" "findNearestConfig two_configs ''abc'' (prf_Filename ?file) = Inr (Some (?config, ''db/orders''))" by code_simp+
  note cover = discovery_covers_changes [OF run paths order, THEN conjunct2, THEN conjunct2, rule_format, of ?file, OF _ near]
  have "''db/orders'' \<in> dcf_SchemaDir ` set [newDiscoveredConfig ?config ''db/orders'']" by (rule cover) simp
  with run show ?thesis by blast
qed

lemma sample_wf_view:
  assumes "list_all (repo_path \<circ> fst) files"
  shows "wf_view (sample_view files)"
  using assms by (auto simp: wf_view_def sample_view_def retryGitHubUnavailableRead_def githubUnavailableReadRetryMaxAttempts_def eval_nat_numeral FetchGitTree_def list_all_iff)

theorem schema_request_sound_witness:
  "\<exists>s. CreateSchemaRequestFromPR two_configs (\<lambda>_ _. None) ''staging'' ''orders'' = Some (Inr s) \<and> sr_SchemaPath s = ''db/orders''
     \<and> files_from two_configs ''abc'' ''staging'' s"
proof -
  have wf: "wf_view two_configs" unfolding two_configs_def by (rule sample_wf_view) code_simp
  have head: "rv_head two_configs = Inr ''abc''" by (simp add: two_configs_def sample_view_def)
  have run: "map_option (map_sum (\<lambda>_. ()) sr_SchemaPath) (CreateSchemaRequestFromPR two_configs (\<lambda>_ _. None) ''staging'' ''orders'') = Some (Inr ''db/orders'')" by code_simp
  obtain r where r: "CreateSchemaRequestFromPR two_configs (\<lambda>_ _. None) ''staging'' ''orders'' = Some r" "\<And>s. r = Inr s \<Longrightarrow> files_from two_configs ''abc'' ''staging'' s"
    using schema_request_sound [OF wf head, of "\<lambda>_ _. None" "''staging''" "''orders''"] by blast
  then show ?thesis using run by (cases r) auto
qed

theorem grouping_keeps_every_file_witness:
  "\<exists>result. GroupFilesByNamespace two_configs [(''pay/t.sql'', ''CREATE''), (''pay/notes.md'', []), (''audit_$ENV/t.sql'', ''LOG'')] ''db'' ''staging'' = Inr result
     \<and> lookup_file result ''audit_staging'' ''t.sql'' = Some ''LOG''"
proof -
  let ?files = "[(''pay/t.sql'', ''CREATE''), (''pay/notes.md'', []), (''audit_$ENV/t.sql'', ''LOG'')]"
  have run: "GroupFilesByNamespace two_configs ?files ''db'' ''staging'' = Inr [(''audit_staging'', [(''t.sql'', ''LOG'')]), (''pay'', [(''t.sql'', ''CREATE'')])]" by code_simp
  have order: "set (rv_file_order two_configs ?files) = set ?files" by (simp add: two_configs_def sample_view_def)
  have "distinct (map (\<lambda>(p, _). (namespace_of ''db'' ''staging'' p, path_base p)) (filter (\<lambda>(p, _). is_schema_name (path_base p)) ?files))" by code_simp
  then have inj: "inj_on (\<lambda>(p, _). (namespace_of ''db'' ''staging'' p, path_base p)) (set (filter (\<lambda>(p, _). is_schema_name (path_base p)) ?files))"
    by (simp only: distinct_map)
  have "(''audit_$ENV/t.sql'', ''LOG'') \<in> set ?files" "is_schema_name (path_base ''audit_$ENV/t.sql'')"
    "namespace_of ''db'' ''staging'' ''audit_$ENV/t.sql'' = ''audit_staging''" "path_base ''audit_$ENV/t.sql'' = ''t.sql''" by code_simp+
  with grouping_keeps_every_file [OF run order inj, of "''audit_staging''" "''t.sql''" "''LOG''"] run show ?thesis by blast
qed

text \<open>
  Without a database name a command searches from the root down, and takes another configuration than the automatic plan, which searches from the file up.
  Of two configurations at the same depth - the root of the repository and a directory in it count as the same - it takes whichever the map gives first.
\<close>

lemma nearest_and_shallowest_disagree:
  "map_option (map_sum id (sc_Database \<circ> fst)) (FindConfigForPR two_configs 0) = Some (Inr ''shop'')
   \<and> map_sum id (map (sc_Database \<circ> dcf_Config)) (findAllConfigsForPRFiles two_configs ''abc'' [\<lparr>prf_Filename = ''db/orders/t.sql'', prf_Status = ''modified''\<rparr>]) = Inr [''orders'']"
  by code_simp

lemma config_depends_on_map_order:
  "let view = sample_view [(''db/t.sql'', ''CREATE''), (''schemabot.yaml'', ''shop''), (''db/schemabot.yaml'', ''orders'')] in
   map_option (map_sum id (sc_Database \<circ> fst)) (FindConfigForPR view 0) = Some (Inr ''orders'')
   \<and> map_option (map_sum id (sc_Database \<circ> fst)) (FindConfigForPR (view\<lparr>rv_dir_order := rev\<rparr>) 0) = Some (Inr ''shop'')"
  by code_simp

text \<open>A configuration in the root of the repository is found, but no file's path starts with the dot that stands for the root.\<close>

lemma root_config_is_unusable:
  "let view = sample_view [(''t.sql'', ''CREATE''), (''schemabot.yaml'', ''shop'')] in
   map_option (map_sum id snd) (FindConfigForPR view 0) = Some (Inr ''.'')
   \<and> CreateSchemaRequestFromPR view (\<lambda>_ _. None) ''staging'' [] = Some (Inl (File_Error ''file path does not start with schema path''))"
  by code_simp

text \<open>Any file whose name ends in the name of the configuration file counts as one in the search of the repository.\<close>

lemma suffix_is_a_config:
  "map_sum id (map dcf_Path \<circ> fst) (FindAllConfigs (sample_view [(''docs/example-schemabot.yaml'', ''demo'')]) ''abc'') = Inr [''docs/example-schemabot.yaml'']"
  by code_simp

text \<open>Two directories that substitution makes the same namespace overwrite each other's files, in the order of the map.\<close>

lemma substituted_namespaces_collide:
  "let files = [(''pay_$ENV/t.sql'', ''A''), (''pay_staging/t.sql'', ''B'')] in
   GroupFilesByNamespace two_configs files ''db'' ''staging'' = Inr [(''pay_staging'', [(''t.sql'', ''B'')])]
   \<and> GroupFilesByNamespace (two_configs\<lparr>rv_file_order := rev\<rparr>) files ''db'' ''staging'' = Inr [(''pay_staging'', [(''t.sql'', ''A'')])]"
  by code_simp

end
