(* ===== verification/SB_Plans.thy ===== *)
theory SB_Plans
  imports SB_Apply_Command SB_Task_Store "HOL-Library.Product_Lexorder"
begin

section \<open>Plans: the store and the planning request (mysqlstore/plans.go, api/plan\_handlers.go)\<close>

text \<open>
  A plan is what a data plane answers to a planning request: per namespace the statements, the files before the change and the artifacts, and per
  shard whether it needs the change. \<^verbatim>\<open>ExecutePlan\<close> resolves the database's primary target, asks its data plane and stores the answer together with the
  route; an apply later starts from the stored row alone. The column plan\_data is the namespace map as JSON, which keeps it as it is; the
  flat list of shards is folded into it on the way in and taken out of it on the way out.
\<close>

subsection \<open>Rows\<close>

type_synonym schema_files = "(string \<times> (string \<times> string) list) list"

record Plan =
  pn_ID :: int
  pn_PlanIdentifier :: string
  pn_Database :: string
  pn_DatabaseType :: string
  pn_Deployment :: string
  pn_Target :: string
  pn_Repository :: string
  pn_PullRequest :: int
  pn_SchemaPath :: string
  pn_Environment :: string
  pn_SchemaFiles :: schema_files
  pn_Namespaces :: namespaces
  pn_Shards :: "ShardPlan list"
  pn_HeadSHA :: string
  pn_CreatedAt :: int

record plan_db =
  db_plans :: "Plan list"
  next_plan_id :: int

subsection \<open>The plan store (plans.go)\<close>

definition planShardNamespace :: "string \<Rightarrow> string" where
  "planShardNamespace namespace = (if namespace = [] then ''default'' else namespace)"

text \<open>\<^verbatim>\<open>sort.Slice\<close> does not promise the order of shards equal in both keys; the facts below do not depend on it.\<close>

definition sortedShardPlans :: "ShardPlan list \<Rightarrow> ShardPlan list" where
  "sortedShardPlans shards = sort_key (\<lambda>s. (sp_Namespace s, sp_Shard s)) shards"

definition emptyNamespacePlanData :: NamespacePlanData where
  "emptyNamespacePlanData = \<lparr>np_Tables = [], np_Shards = [], np_OriginalFiles = [], np_OriginalFilesCaptured = False, np_Artifacts = []\<rparr>"

text \<open>Appending to \<^verbatim>\<open>namespaces[namespace].Shards\<close>: a missing entry and a nil one are replaced by an empty one.\<close>

fun append_shard :: "ShardPlan \<Rightarrow> namespaces \<Rightarrow> namespaces" where
  "append_shard shard [] = [(sp_Namespace shard, Some (emptyNamespacePlanData\<lparr>np_Shards := [shard]\<rparr>))]"
| "append_shard shard ((k, v) # nss) =
     (if k = sp_Namespace shard
      then (let nsData = (case v of None \<Rightarrow> emptyNamespacePlanData | Some nd \<Rightarrow> nd) in
            (k, Some (nsData\<lparr>np_Shards := np_Shards nsData @ [shard]\<rparr>)) # nss)
      else (k, v) # append_shard shard nss)"

definition namespacesWithShardPlans :: "Plan \<Rightarrow> namespaces" where
  "namespacesWithShardPlans plan =
     (if length (pn_Namespaces plan) = 0 \<and> length (pn_Shards plan) = 0 then pn_Namespaces plan
      else (let namespaces = map (\<lambda>(k, v). (k, map_option (\<lambda>nd. if length (pn_Shards plan) > 0 then nd\<lparr>np_Shards := []\<rparr> else nd) v)) (pn_Namespaces plan)
            in fold (\<lambda>shard. append_shard (shard\<lparr>sp_Namespace := planShardNamespace (sp_Namespace shard)\<rparr>)) (sortedShardPlans (pn_Shards plan)) namespaces))"

definition shardPlansFromNamespaces :: "namespaces \<Rightarrow> ShardPlan list" where
  "shardPlansFromNamespaces nss = sortedShardPlans (concat (map (\<lambda>(namespace, v). case v of
       None \<Rightarrow> []
     | Some nd \<Rightarrow> map (\<lambda>s. if sp_Namespace s = [] then s\<lparr>sp_Namespace := planShardNamespace namespace\<rparr> else s) (np_Shards nd)) nss))"

text \<open>
  A row keeps the columns; \<open>pn_Shards\<close> is not one of them. Unlike elsewhere, the time of a plan is in microseconds, as the caller's clock gives it; the
  column created\_at has the precision of a second, to which MySQL rounds what it is given.
\<close>

definition datetime_column :: "int \<Rightarrow> int" where
  "datetime_column t = (t + 500000) div 1000000 * 1000000"

definition stored_plan :: "int \<Rightarrow> Plan \<Rightarrow> Plan" where
  "stored_plan i plan = plan\<lparr>pn_ID := i, pn_Namespaces := namespacesWithShardPlans plan, pn_Shards := [], pn_CreatedAt := datetime_column (pn_CreatedAt plan)\<rparr>"

definition pl_Create :: "Plan \<Rightarrow> plan_db \<Rightarrow> storage_error + (int \<times> plan_db)" where
  "pl_Create plan d =
     (if list_ex (\<lambda>r. sql_eq (pn_PlanIdentifier r) (pn_PlanIdentifier plan)) (db_plans d) then Inl ErrPlanIDExists
      else (let i = next_plan_id d in
            Inr (i, d\<lparr>db_plans := db_plans d @ [stored_plan i plan], next_plan_id := i + 1\<rparr>)))"

definition scanPlanInto :: "Plan \<Rightarrow> Plan" where
  "scanPlanInto row = row\<lparr>pn_Shards := shardPlansFromNamespaces (pn_Namespaces row)\<rparr>"

definition pl_Get :: "string \<Rightarrow> plan_db \<Rightarrow> Plan option" where
  "pl_Get planIdentifier d = map_option scanPlanInto (find (\<lambda>r. sql_eq (pn_PlanIdentifier r) planIdentifier) (db_plans d))"

definition pl_GetByID :: "int \<Rightarrow> plan_db \<Rightarrow> Plan option" where
  "pl_GetByID i d = map_option scanPlanInto (find (\<lambda>r. pn_ID r = i) (db_plans d))"

definition pl_GetByLock :: "int \<Rightarrow> plan_db \<Rightarrow> Plan list" where
  "pl_GetByLock lockID d = []"

definition pl_GetByPR :: "string \<Rightarrow> int \<Rightarrow> plan_db \<Rightarrow> Plan list" where
  "pl_GetByPR repo pr d = map scanPlanInto (sort_key (\<lambda>r. (- pn_CreatedAt r, - pn_ID r))
     (filter (\<lambda>r. sql_eq (pn_Repository r) repo \<and> pn_PullRequest r = pr) (db_plans d)))"

definition pl_Delete :: "int \<Rightarrow> plan_db \<Rightarrow> storage_error + plan_db" where
  "pl_Delete i d = (if list_ex (\<lambda>r. pn_ID r = i) (db_plans d) then Inr (d\<lparr>db_plans := filter (\<lambda>r. pn_ID r \<noteq> i) (db_plans d)\<rparr>) else Inl ErrPlanNotFound)"

definition pl_DeleteByPR :: "string \<Rightarrow> int \<Rightarrow> plan_db \<Rightarrow> plan_db" where
  "pl_DeleteByPR repo pr d = d\<lparr>db_plans := filter (\<lambda>r. \<not> (sql_eq (pn_Repository r) repo \<and> pn_PullRequest r = pr)) (db_plans d)\<rparr>"

subsection \<open>The answer of a data plane (proto\_helpers.go)\<close>

datatype change_type = CHANGE_TYPE_UNSPECIFIED | CHANGE_TYPE_CREATE | CHANGE_TYPE_ALTER | CHANGE_TYPE_DROP | CHANGE_TYPE_VSCHEMA | CHANGE_TYPE_OTHER

record proto_table_change =
  ptc_TableName :: string
  ptc_Namespace :: string
  ptc_Ddl :: string
  ptc_ChangeType :: change_type
  ptc_IsUnsafe :: bool
  ptc_UnsafeReason :: string

record proto_schema_change =
  psc_Namespace :: string
  psc_TableChanges :: "proto_table_change list"
  psc_OriginalFiles :: "(string \<times> string) list"
  psc_OriginalFilesCaptured :: bool
  psc_Metadata :: "(string \<times> string) list"

record proto_shard_plan =
  psp_Shard :: string
  psp_Namespace :: string
  psp_NeedsChange :: bool

record proto_plan_response =
  ppr_PlanId :: string
  ppr_Changes :: "proto_schema_change option list"
  ppr_Shards :: "proto_shard_plan option list"
  ppr_Errors :: "string list"

definition vSchemaArtifactName :: string where
  "vSchemaArtifactName = ''vschema.json''"

definition protoChangeTypeToOperation :: "change_type \<Rightarrow> string" where
  "protoChangeTypeToOperation ct = (case ct of CHANGE_TYPE_CREATE \<Rightarrow> ''create'' | CHANGE_TYPE_ALTER \<Rightarrow> ''alter'' | CHANGE_TYPE_DROP \<Rightarrow> ''drop''
     | CHANGE_TYPE_VSCHEMA \<Rightarrow> ''vschema_update'' | _ \<Rightarrow> ''other'')"

type_synonym proto_schema_files = "(string \<times> (string \<times> string) list option) list"

definition lookup_text :: "(string \<times> string) list \<Rightarrow> string \<Rightarrow> string" where
  "lookup_text m k = (case map_of m k of None \<Rightarrow> [] | Some v \<Rightarrow> v)"

definition namespace_data :: "proto_schema_files \<Rightarrow> string \<Rightarrow> proto_schema_change \<Rightarrow> NamespacePlanData" where
  "namespace_data schemaFiles ns sc =
     \<lparr>np_Tables = map (\<lambda>t. \<lparr>tc_Namespace = [], tc_Table = ptc_TableName t, tc_DDL = ptc_Ddl t, tc_Operation = protoChangeTypeToOperation (ptc_ChangeType t)\<rparr>)
        (psc_TableChanges sc),
      np_Shards = [], np_OriginalFiles = psc_OriginalFiles sc, np_OriginalFilesCaptured = psc_OriginalFilesCaptured sc,
      np_Artifacts =
        (if lookup_text (psc_Metadata sc) ''vschema_changed'' = ''true''
         then (case map_of schemaFiles ns of
             Some (Some files) \<Rightarrow>
               (let vschema = lookup_text files vSchemaArtifactName in if vschema \<noteq> [] then [(vSchemaArtifactName, vschema)] else [])
           | _ \<Rightarrow> [])
         else [])\<rparr>"

fun changes_to_namespaces :: "proto_schema_files \<Rightarrow> namespaces \<Rightarrow> proto_schema_change option list \<Rightarrow> string + namespaces" where
  "changes_to_namespaces schemaFiles result [] = Inr result"
| "changes_to_namespaces schemaFiles result (None # scs) = Inl ''schema change is null''"
| "changes_to_namespaces schemaFiles result (Some sc # scs) =
     (let ns = (if psc_Namespace sc = [] then ''default'' else psc_Namespace sc) in
      if ns \<in> set (map fst result) then Inl ''duplicate schema change namespace''
      else changes_to_namespaces schemaFiles (result @ [(ns, Some (namespace_data schemaFiles ns sc))]) scs)"

definition protoChangesToNamespaces :: "proto_schema_change option list \<Rightarrow> proto_schema_files \<Rightarrow> string + namespaces" where
  "protoChangesToNamespaces changes schemaFiles = changes_to_namespaces schemaFiles [] changes"

fun protoShardPlansToStorage :: "proto_shard_plan option list \<Rightarrow> string + ShardPlan list" where
  "protoShardPlansToStorage [] = Inr []"
| "protoShardPlansToStorage (None # ss) = Inl ''shard plan is null''"
| "protoShardPlansToStorage (Some s # ss) =
     (let shardName = trim_space (psp_Shard s) in
      if shardName = [] then Inl ''shard plan has empty shard''
      else bind_result (protoShardPlansToStorage ss) (\<lambda>out.
        Inr (\<lparr>sp_Shard = shardName, sp_Namespace = (if psp_Namespace s = [] then ''default'' else psp_Namespace s), sp_NeedsChange = psp_NeedsChange s\<rparr> # out)))"

definition protoToSchemaFiles :: "proto_schema_files \<Rightarrow> schema_files" where
  "protoToSchemaFiles sf = map (\<lambda>(ns, files). (ns, case files of None \<Rightarrow> [] | Some fs \<Rightarrow> fs)) sf"

text \<open>A nil change in the answer would panic here; \<^verbatim>\<open>storePlanResponse\<close> has rejected it before.\<close>

definition planResponseFromProto :: "proto_plan_response \<Rightarrow> PlanResponse" where
  "planResponseFromProto resp = \<lparr>plr_PlanID = ppr_PlanId resp,
     plr_Changes = map (\<lambda>sc. \<lparr>scr_Namespace = psc_Namespace sc, scr_TableChanges = map (\<lambda>t. \<lparr>tcr_TableName = ptc_TableName t, tcr_Namespace = ptc_Namespace t,
         tcr_DDL = ptc_Ddl t, tcr_ChangeType = protoChangeTypeToOperation (ptc_ChangeType t), tcr_IsUnsafe = ptc_IsUnsafe t,
         tcr_UnsafeReason = ptc_UnsafeReason t\<rparr>) (psc_TableChanges sc), scr_Metadata = psc_Metadata sc\<rparr>) (concat (map (\<lambda>sc. case sc of None \<Rightarrow> [] | Some sc \<Rightarrow> [sc]) (ppr_Changes resp))),
     plr_Errors = ppr_Errors resp\<rparr>"

subsection \<open>Planning (plan\_handlers.go)\<close>

record PlanRequest =
  prq_Database :: string
  prq_Environment :: string
  prq_Type :: string
  prq_SchemaFiles :: proto_schema_files
  prq_Repository :: string
  prq_PullRequest :: "int option"
  prq_HeadSHA :: "string option"
  prq_SchemaPath :: string
  prq_SourceTrusted :: bool

record tern_plan_request =
  tpr_Database :: string
  tpr_Type :: string
  tpr_SchemaFiles :: proto_schema_files
  tpr_Repository :: string
  tpr_PullRequest :: int
  tpr_Environment :: string
  tpr_Target :: string
  tpr_SchemaPath :: string
  tpr_HeadSha :: string

record storedPlanRoute =
  rt_DatabaseType :: string
  rt_Deployment :: string
  rt_Target :: string

text \<open>What the service uses of a data plane's client: whether it is remote, whether it fans out over shards, and its answer to a planning
request - an error, marked when the remote side is unavailable, or a response.\<close>

record tern_client =
  tcl_IsRemote :: bool
  tcl_ShardedFanout :: bool
  tcl_Plan :: "tern_plan_request \<Rightarrow> (bool \<times> string) + proto_plan_response"

datatype service_error =
    Service_Error string
  | Policy_Error source_policy_reason
  | Remote_Unavailable string string
  | Resolve_Error config_error
  | Storage_Failed storage_error

definition validateSchemaFiles :: "proto_schema_files \<Rightarrow> service_error option" where
  "validateSchemaFiles schemaFiles =
     (if length schemaFiles = 0 then Some (Service_Error ''schema_files is required'')
      else err_if (list_ex (\<lambda>(_, sf). sf = None) schemaFiles) (Service_Error ''schema_files entry is null''))"

definition storePlanResponse :: "int \<Rightarrow> PlanRequest \<Rightarrow> proto_plan_response \<Rightarrow> storedPlanRoute \<Rightarrow> plan_db \<Rightarrow> service_error option \<times> plan_db" where
  "storePlanResponse now req resp route d =
     (case protoChangesToNamespaces (ppr_Changes resp) (prq_SchemaFiles req) of
        Inl e \<Rightarrow> (Some (Service_Error e), d)
      | Inr namespaces \<Rightarrow> (case protoShardPlansToStorage (ppr_Shards resp) of
          Inl e \<Rightarrow> (Some (Service_Error e), d)
        | Inr shards \<Rightarrow>
            (case pl_Create \<lparr>pn_ID = 0, pn_PlanIdentifier = ppr_PlanId resp, pn_Database = prq_Database req, pn_DatabaseType = rt_DatabaseType route,
                pn_Deployment = rt_Deployment route, pn_Target = rt_Target route, pn_Repository = prq_Repository req,
                pn_PullRequest = (case prq_PullRequest req of None \<Rightarrow> 0 | Some n \<Rightarrow> n),
                pn_SchemaPath = (if prq_SourceTrusted req then prq_SchemaPath req else []), pn_Environment = prq_Environment req,
                pn_SchemaFiles = protoToSchemaFiles (prq_SchemaFiles req), pn_Namespaces = namespaces, pn_Shards = shards,
                pn_HeadSHA = (case prq_HeadSHA req of None \<Rightarrow> [] | Some sha \<Rightarrow> sha), pn_CreatedAt = now\<rparr> d of
               Inr (_, d') \<Rightarrow> (None, d')
             | Inl ErrPlanIDExists \<Rightarrow> (None, d)
             | Inl e \<Rightarrow> (Some (Storage_Failed e), d))))"

definition ExecutePlan ::
  "ServerConfig option \<Rightarrow> (string \<Rightarrow> string \<Rightarrow> string + tern_client) \<Rightarrow> int \<Rightarrow> PlanRequest \<Rightarrow> plan_db \<Rightarrow> (service_error + PlanResponse) \<times> plan_db" where
  "ExecutePlan config TernClient now req d =
     (case validateSchemaFiles (prq_SchemaFiles req) of Some e \<Rightarrow> (Inl e, d)
      | None \<Rightarrow> (case ResolvePrimaryDatabaseTarget config (prq_Database req) (prq_Environment req) of
          Inl e \<Rightarrow> (Inl (Resolve_Error e), d)
        | Inr target \<Rightarrow>
            if prq_Type req \<noteq> et_DatabaseType target then (Inl (Service_Error ''database type does not match server config type''), d)
            else (let prInt = (case prq_PullRequest req of None \<Rightarrow> 0 | Some n \<Rightarrow> n);
                      trustedSchemaPath = (if prq_SourceTrusted req then prq_SchemaPath req else []) in
              case (if prq_SourceTrusted req then AuthorizePlanSource config \<lparr>ps_Database = prq_Database req, ps_Repository = prq_Repository req,
                        ps_PullRequest = prInt, ps_SchemaPath = trustedSchemaPath\<rparr> else None) of
                Some r \<Rightarrow> (Inl (Policy_Error r), d)
              | None \<Rightarrow> (case TernClient (et_Deployment target) (prq_Environment req) of
                  Inl e \<Rightarrow> (Inl (Service_Error e), d)
                | Inr client \<Rightarrow>
                    (case tcl_Plan client \<lparr>tpr_Database = prq_Database req, tpr_Type = et_DatabaseType target, tpr_SchemaFiles = prq_SchemaFiles req,
                        tpr_Repository = prq_Repository req, tpr_PullRequest = prInt, tpr_Environment = prq_Environment req, tpr_Target = et_Target target,
                        tpr_SchemaPath = trustedSchemaPath, tpr_HeadSha = (case prq_HeadSHA req of None \<Rightarrow> [] | Some sha \<Rightarrow> sha)\<rparr> of
                       Inl (unavailable, e) \<Rightarrow>
                         (Inl (if tcl_IsRemote client \<and> unavailable then Remote_Unavailable (et_Deployment target) (et_Target target) else Service_Error e), d)
                     | Inr resp \<Rightarrow>
                         (case storePlanResponse now req resp \<lparr>rt_DatabaseType = et_DatabaseType target, rt_Deployment = et_Deployment target,
                              rt_Target = et_Target target\<rparr> d of
                            (Some e, d') \<Rightarrow> (Inl e, d')
                          | (None, d') \<Rightarrow> (Inr (planResponseFromProto resp), d')))))))"

subsection \<open>A stored plan comes back\<close>

definition stored_shard :: "ShardPlan \<Rightarrow> ShardPlan" where
  "stored_shard s = s\<lparr>sp_Namespace := planShardNamespace (sp_Namespace s)\<rparr>"

definition embedded_shards :: "namespaces \<Rightarrow> ShardPlan list" where
  "embedded_shards nss = concat (map (\<lambda>(namespace, v). case v of
       None \<Rightarrow> []
     | Some nd \<Rightarrow> map (\<lambda>s. if sp_Namespace s = [] then s\<lparr>sp_Namespace := planShardNamespace namespace\<rparr> else s) (np_Shards nd)) nss)"

text \<open>The statements of a namespace map: the tables of every namespace that has some, under its name.\<close>

definition ns_tables :: "string \<times> NamespacePlanData option \<Rightarrow> string \<times> TableChange list" where
  "ns_tables kv = (fst kv, case snd kv of None \<Rightarrow> [] | Some nd \<Rightarrow> np_Tables nd)"

definition table_core :: "namespaces \<Rightarrow> (string \<times> TableChange list) list" where
  "table_core nss = filter (\<lambda>kts. snd kts \<noteq> []) (map ns_tables nss)"

definition named_tables :: "string \<times> TableChange list \<Rightarrow> TableChange list" where
  "named_tables kts = map (\<lambda>tc. if tc_Namespace tc = [] then tc\<lparr>tc_Namespace := fst kts\<rparr> else tc) (snd kts)"

definition complete_map :: "namespaces \<Rightarrow> bool" where
  "complete_map nss \<longleftrightarrow> list_all (\<lambda>kv. snd kv \<noteq> None) nss"

lemma stored_namespace [simp]: "planShardNamespace ns \<noteq> []" "sp_Namespace (stored_shard s) \<noteq> []"
  by (simp_all add: planShardNamespace_def stored_shard_def)

lemma map_sort_key: "(\<And>x. g (h x) = f x) \<Longrightarrow> map h (sort_key f xs) = sort_key g (map h xs)"
proof (induction xs)
  case (Cons x xs)
  have "map h (insort_key f x ys) = insort_key g (h x) (map h ys)" for ys by (induction ys) (auto simp: Cons.prems)
  with Cons show ?case by simp
qed simp

lemma concat_map_nonempty: "concat (map g xs) = concat (map g (filter (\<lambda>x. g x \<noteq> []) xs))"
  by (induction xs) auto

lemma named_ns_tables:
  "named_tables (ns_tables (k, Some nd)) = map (\<lambda>tc. if tc_Namespace tc = [] then tc\<lparr>tc_Namespace := k\<rparr> else tc) (np_Tables nd)"
  by (simp add: named_tables_def ns_tables_def)

lemma flat_changes_eq:
  "flat_changes nss = (if complete_map nss then Some (concat (map (\<lambda>kv. named_tables (ns_tables kv)) nss)) else None)"
  by (induction nss rule: flat_changes.induct) (simp_all add: named_ns_tables complete_map_def)

lemma complete_map_set: "complete_map nss \<longleftrightarrow> (\<forall>kv \<in> set nss. snd kv \<noteq> None)"
  by (simp add: complete_map_def list_all_iff)

lemma FlatDDLChanges_core:
  "FlatDDLChanges nss = (if complete_map nss then Some (concat (map named_tables (sort_key fst (table_core nss)))) else None)"
proof -
  have sorted: "map ns_tables (sort_key fst nss) = sort_key fst (map ns_tables nss)" by (rule map_sort_key) (simp add: ns_tables_def)
  have "concat (map (\<lambda>kv. named_tables (ns_tables kv)) (sort_key fst nss)) = concat (map named_tables (map ns_tables (sort_key fst nss)))"
    by (simp add: comp_def)
  also have "\<dots> = concat (map named_tables (filter (\<lambda>x. named_tables x \<noteq> []) (sort_key fst (map ns_tables nss))))"
    unfolding sorted by (rule concat_map_nonempty)
  also have "filter (\<lambda>x. named_tables x \<noteq> []) (sort_key fst (map ns_tables nss)) = sort_key fst (table_core nss)"
    by (simp add: filter_sort table_core_def named_tables_def)
  finally have "flat_changes (sort_key fst nss) = (if complete_map nss then Some (concat (map named_tables (sort_key fst (table_core nss)))) else None)"
    by (simp add: flat_changes_eq complete_map_set)
  then show ?thesis by (simp add: FlatDDLChanges_def table_core_def complete_map_def)
qed

lemma append_shard_core: "table_core (append_shard s nss) = table_core nss"
  by (induction s nss rule: append_shard.induct)
    (auto simp: table_core_def ns_tables_def emptyNamespacePlanData_def Let_def split: option.splits)

lemma append_shard_complete: "complete_map nss \<Longrightarrow> complete_map (append_shard s nss)"
  by (induction s nss rule: append_shard.induct) (auto simp: Let_def complete_map_def)

lemma append_shard_shards:
  "sp_Namespace s \<noteq> [] \<Longrightarrow> mset (embedded_shards (append_shard s nss)) = add_mset s (mset (embedded_shards nss))"
  by (induction s nss rule: append_shard.induct)
    (auto simp: embedded_shards_def emptyNamespacePlanData_def Let_def split: option.splits)

lemma fold_shards_mset:
  "mset (embedded_shards (fold (\<lambda>s. append_shard (stored_shard s)) ss nss)) = mset (map stored_shard ss) + mset (embedded_shards nss)"
  by (induction ss arbitrary: nss) (simp_all add: append_shard_shards)

lemma fold_shards_core: "table_core (fold (\<lambda>s. append_shard (stored_shard s)) ss nss) = table_core nss"
  by (induction ss arbitrary: nss) (simp_all add: append_shard_core)

lemma fold_shards_complete: "complete_map nss \<Longrightarrow> complete_map (fold (\<lambda>s. append_shard (stored_shard s)) ss nss)"
  by (induction ss arbitrary: nss) (simp_all add: append_shard_complete)

definition without_shards :: "bool \<Rightarrow> string \<times> NamespacePlanData option \<Rightarrow> string \<times> NamespacePlanData option" where
  "without_shards b kv = (fst kv, map_option (\<lambda>nd. if b then nd\<lparr>np_Shards := []\<rparr> else nd) (snd kv))"

lemma without_shards:
  "table_core (map (without_shards b) nss) = table_core nss"
  "complete_map (map (without_shards b) nss) = complete_map nss"
  "embedded_shards (map (without_shards b) nss) = (if b then [] else embedded_shards nss)"
proof -
  have "ns_tables \<circ> without_shards b = ns_tables" by (auto simp: fun_eq_iff ns_tables_def without_shards_def split: option.splits)
  then show "table_core (map (without_shards b) nss) = table_core nss" by (simp add: table_core_def)
  show "complete_map (map (without_shards b) nss) = complete_map nss"
    by (simp add: complete_map_def list_all_iff without_shards_def)
  show "embedded_shards (map (without_shards b) nss) = (if b then [] else embedded_shards nss)"
    by (induction nss) (auto simp: embedded_shards_def without_shards_def split: option.splits)
qed

lemma namespacesWithShardPlans_fold:
  "namespacesWithShardPlans plan = fold (\<lambda>s. append_shard (stored_shard s)) (sortedShardPlans (pn_Shards plan))
     (map (without_shards (pn_Shards plan \<noteq> [])) (pn_Namespaces plan))"
proof -
  have "(\<lambda>(k, v). (k, map_option (\<lambda>nd. if length (pn_Shards plan) > 0 then nd\<lparr>np_Shards := []\<rparr> else nd) v)) = without_shards (pn_Shards plan \<noteq> [])"
    by (auto simp: fun_eq_iff without_shards_def)
  then show ?thesis by (simp add: namespacesWithShardPlans_def stored_shard_def sortedShardPlans_def)
qed

lemma stored_shards:
  "mset (shardPlansFromNamespaces (namespacesWithShardPlans plan))
     = mset (if pn_Shards plan = [] then embedded_shards (pn_Namespaces plan) else map stored_shard (pn_Shards plan))"
proof -
  have "mset (shardPlansFromNamespaces nss) = mset (embedded_shards nss)" for nss
    by (simp add: shardPlansFromNamespaces_def embedded_shards_def sortedShardPlans_def)
  then show ?thesis by (simp add: namespacesWithShardPlans_fold fold_shards_mset without_shards sortedShardPlans_def)
qed

text \<open>What a namespace map holds under a name apart from shards: statements, original files, whether they were captured, and artifacts.\<close>

definition ns_content :: "namespaces \<Rightarrow> string \<Rightarrow> NamespacePlanData" where
  "ns_content nss k = (case map_of nss k of Some (Some nd) \<Rightarrow> nd\<lparr>np_Shards := []\<rparr> | _ \<Rightarrow> emptyNamespacePlanData)"

lemma append_shard_content: "ns_content (append_shard s nss) k = ns_content nss k"
  by (induction s nss rule: append_shard.induct)
    (auto simp: ns_content_def emptyNamespacePlanData_def Let_def split: option.splits)

lemma fold_shards_content: "ns_content (fold (\<lambda>s. append_shard (stored_shard s)) ss nss) k = ns_content nss k"
  by (induction ss arbitrary: nss) (simp_all add: append_shard_content)

lemma without_shards_content: "ns_content (map (without_shards b) nss) k = ns_content nss k"
  by (induction nss) (auto simp: ns_content_def without_shards_def split: option.splits)

lemma stored_content: "ns_content (namespacesWithShardPlans plan) k = ns_content (pn_Namespaces plan) k"
  by (simp add: namespacesWithShardPlans_fold fold_shards_content without_shards_content)

lemma stored_statements:
  "FlatDDLChanges (pn_Namespaces plan) = Some cs \<Longrightarrow> FlatDDLChanges (namespacesWithShardPlans plan) = Some cs"
  unfolding FlatDDLChanges_core namespacesWithShardPlans_fold
  by (simp add: fold_shards_core fold_shards_complete without_shards split: if_splits)

lemma created_plan_read:
  assumes "pl_Create plan d = Inr (i, d')"
  shows "pl_Get (pn_PlanIdentifier plan) d'
    = Some (scanPlanInto (stored_plan i plan))"
proof -
  from assms have none: "find (\<lambda>r. sql_eq (pn_PlanIdentifier r) (pn_PlanIdentifier plan)) (db_plans d) = None"
    and d': "db_plans d' = db_plans d @ [stored_plan i plan]"
    by (auto simp: pl_Create_def Let_def find_None_iff list_ex_iff split: if_splits)
  have "find P (xs @ [r]) = Some r" if "find P xs = None" "P r" for P r and xs :: "Plan list"
    using that by (induction xs) (auto split: if_splits)
  from this [OF none] show ?thesis by (simp add: pl_Get_def d' sql_eq_refl stored_plan_def)
qed

text \<open>
  (C40) A stored plan comes back as it went in: reading a plan just created returns, under each namespace, the same statements, original files and
  artifacts, and the flat list of statements in the same order; the plan's shards, each with its namespace (the default one written out), or, of a
  plan without any, the shards that its namespaces carried; the time of its creation rounded to the second; and every other column unchanged,
  although the shards travel folded into the namespace map.
\<close>

theorem plan_store_round_trip:
  assumes "pl_Create plan d = Inr (i, d')"
  shows "\<exists>p. pl_Get (pn_PlanIdentifier plan) d' = Some p \<and> pn_ID p = i
    \<and> (\<forall>k. ns_content (pn_Namespaces p) k = ns_content (pn_Namespaces plan) k)
    \<and> (\<forall>cs. FlatDDLChanges (pn_Namespaces plan) = Some cs \<longrightarrow> FlatDDLChanges (pn_Namespaces p) = Some cs)
    \<and> mset (pn_Shards p) = mset (if pn_Shards plan = [] then embedded_shards (pn_Namespaces plan) else map stored_shard (pn_Shards plan))
    \<and> pn_CreatedAt p = datetime_column (pn_CreatedAt plan)
    \<and> p\<lparr>pn_ID := pn_ID plan, pn_Namespaces := pn_Namespaces plan, pn_Shards := pn_Shards plan, pn_CreatedAt := pn_CreatedAt plan\<rparr> = plan"
  using created_plan_read [OF assms] stored_shards [of plan] stored_statements [of plan] stored_content [of plan]
  by (simp add: scanPlanInto_def stored_plan_def)

definition sample_change :: "string \<Rightarrow> TableChange" where
  "sample_change t = \<lparr>tc_Namespace = [], tc_Table = t, tc_DDL = ''ALTER '' @ t, tc_Operation = ''alter''\<rparr>"

definition sharded_plan :: "string list \<Rightarrow> Plan" where
  "sharded_plan tables = \<lparr>pn_ID = 0, pn_PlanIdentifier = ''plan-1'', pn_Database = ''orders'', pn_DatabaseType = ''vitess'', pn_Deployment = ''eu'', pn_Target = ''orders-eu'',
     pn_Repository = ''org/repo'', pn_PullRequest = 7, pn_SchemaPath = [], pn_Environment = ''staging'', pn_SchemaFiles = [],
     pn_Namespaces = [(''commerce'', Some \<lparr>np_Tables = map sample_change tables, np_Shards = [], np_OriginalFiles = [], np_OriginalFilesCaptured = True,
        np_Artifacts = [(vSchemaArtifactName, ''{}'')]\<rparr>)],
     pn_Shards = [\<lparr>sp_Shard = ''80-'', sp_Namespace = ''commerce'', sp_NeedsChange = True\<rparr>, \<lparr>sp_Shard = ''-80'', sp_Namespace = ''commerce'', sp_NeedsChange = True\<rparr>],
     pn_HeadSHA = ''abc'', pn_CreatedAt = 100700000\<rparr>"

definition no_plans :: plan_db where "no_plans = \<lparr>db_plans = [], next_plan_id = 1\<rparr>"

theorem plan_store_round_trip_witness:
  "\<exists>p. pl_Get ''plan-1'' (snd (projr (pl_Create (sharded_plan [''users'']) no_plans))) = Some p \<and> pn_ID p = 1 \<and> length (pn_Shards p) = 2
    \<and> FlatDDLChanges (pn_Namespaces p) = Some [(sample_change ''users'')\<lparr>tc_Namespace := ''commerce''\<rparr>]
    \<and> np_Artifacts (ns_content (pn_Namespaces p) ''commerce'') = [(vSchemaArtifactName, ''{}'')] \<and> pn_CreatedAt p = 101000000"
proof -
  let ?r = "pl_Create (sharded_plan [''users'']) no_plans"
  have r: "?r = Inr (1, snd (projr ?r))" by code_simp
  have f: "FlatDDLChanges (pn_Namespaces (sharded_plan [''users''])) = Some [(sample_change ''users'')\<lparr>tc_Namespace := ''commerce''\<rparr>]" by code_simp
  have n: "pn_PlanIdentifier (sharded_plan [''users'']) = ''plan-1''" "pn_Shards (sharded_plan [''users'']) \<noteq> []"
    "size (mset (map stored_shard (pn_Shards (sharded_plan [''users''])))) = 2"
    "np_Artifacts (ns_content (pn_Namespaces (sharded_plan [''users''])) ''commerce'') = [(vSchemaArtifactName, ''{}'')]"
    "datetime_column (pn_CreatedAt (sharded_plan [''users''])) = 101000000" by (code_simp, code_simp, code_simp, code_simp, code_simp)
  from plan_store_round_trip [OF r, unfolded n(1)] obtain p where p: "pl_Get ''plan-1'' (snd (projr ?r)) = Some p" "pn_ID p = 1"
    "ns_content (pn_Namespaces p) ''commerce'' = ns_content (pn_Namespaces (sharded_plan [''users''])) ''commerce''"
    "FlatDDLChanges (pn_Namespaces p) = Some [(sample_change ''users'')\<lparr>tc_Namespace := ''commerce''\<rparr>]"
    "mset (pn_Shards p) = mset (map stored_shard (pn_Shards (sharded_plan [''users''])))" "pn_CreatedAt p = 101000000"
    using f n(2,5) by auto
  from p(5) n(3) have "length (pn_Shards p) = 2" by (metis size_mset)
  with p n(4) show ?thesis by simp
qed

subsection \<open>What a planning request leaves behind\<close>

lemma mset_concat_map: "mset xs = mset ys \<Longrightarrow> mset (concat (map g xs)) = mset (concat (map g ys))"
  by (metis mset_concat mset_map sum_mset_sum_list)

definition change_namespace :: "proto_schema_change \<Rightarrow> string" where
  "change_namespace sc = (if psc_Namespace sc = [] then ''default'' else psc_Namespace sc)"

lemma changes_to_namespacesD:
  "changes_to_namespaces schemaFiles result changes = Inr nss \<Longrightarrow>
     \<exists>scs. changes = map Some scs \<and> nss = result @ map (\<lambda>sc. (change_namespace sc, Some (namespace_data schemaFiles (change_namespace sc) sc))) scs"
  by (induction schemaFiles result changes rule: changes_to_namespaces.induct)
    (force simp: Let_def change_namespace_def Cons_eq_map_conv split: if_splits)+

lemma namespaces_statements:
  assumes "protoChangesToNamespaces (ppr_Changes resp) schemaFiles = Inr nss"
  shows "embedded_shards nss = []"
    "\<exists>cs. FlatDDLChanges nss = Some cs \<and> mset (map tc_DDL cs) = mset (map tcr_DDL (FlatTables (planResponseFromProto resp)))"
proof -
  from changes_to_namespacesD [OF assms [unfolded protoChangesToNamespaces_def]] obtain scs
    where scs: "ppr_Changes resp = map Some scs"
      "nss = map (\<lambda>sc. (change_namespace sc, Some (namespace_data schemaFiles (change_namespace sc) sc))) scs" by auto
  show "embedded_shards nss = []" by (simp add: embedded_shards_def scs(2) namespace_data_def)
  have "complete_map nss" by (simp add: complete_map_set scs(2))
  then have flat: "FlatDDLChanges nss = Some (concat (map named_tables (sort_key fst (table_core nss))))" by (simp add: FlatDDLChanges_core)
  have ddl: "map tc_DDL (named_tables kts) = map tc_DDL (snd kts)" for kts by (simp add: named_tables_def)
  have "mset (map tc_DDL (concat (map named_tables (sort_key fst (table_core nss))))) = mset (concat (map (\<lambda>kts. map tc_DDL (snd kts)) (sort_key fst (table_core nss))))"
    by (simp add: map_concat ddl comp_def)
  also have "\<dots> = mset (concat (map (\<lambda>kts. map tc_DDL (snd kts)) (table_core nss)))" by (rule mset_concat_map) simp
  also have "concat (map (\<lambda>kts. map tc_DDL (snd kts)) (table_core nss)) = concat (map (\<lambda>kts. map tc_DDL (snd kts)) (map ns_tables nss))"
    unfolding table_core_def by (induction "map ns_tables nss" arbitrary: nss) auto
  also have "\<dots> = map tcr_DDL (FlatTables (planResponseFromProto resp))"
    by (simp add: scs FlatTables_def planResponseFromProto_def ns_tables_def namespace_data_def map_concat comp_def)
  finally show "\<exists>cs. FlatDDLChanges nss = Some cs \<and> mset (map tc_DDL cs) = mset (map tcr_DDL (FlatTables (planResponseFromProto resp)))"
    using flat by blast
qed

text \<open>What one planning request comes down to: the checks passed, the data plane answered, and its answer was stored.\<close>

lemma ExecutePlan_InrD:
  assumes "ExecutePlan config TernClient now req d = (Inr resp, d')"
  obtains target client ans where "ResolvePrimaryDatabaseTarget config (prq_Database req) (prq_Environment req) = Inr target"
    "prq_Type req = et_DatabaseType target"
    "prq_SourceTrusted req \<Longrightarrow> AuthorizePlanSource config \<lparr>ps_Database = prq_Database req, ps_Repository = prq_Repository req,
       ps_PullRequest = (case prq_PullRequest req of None \<Rightarrow> 0 | Some n \<Rightarrow> n), ps_SchemaPath = prq_SchemaPath req\<rparr> = None"
    "TernClient (et_Deployment target) (prq_Environment req) = Inr client" "resp = planResponseFromProto ans"
    "storePlanResponse now req ans \<lparr>rt_DatabaseType = et_DatabaseType target, rt_Deployment = et_Deployment target, rt_Target = et_Target target\<rparr> d = (None, d')"
  using assms unfolding ExecutePlan_def by (auto simp: Let_def split: option.splits sum.splits if_splits prod.splits)

lemma storePlanResponse_NoneD:
  assumes "storePlanResponse now req ans route d = (None, d')" "\<not> list_ex (\<lambda>r. sql_eq (pn_PlanIdentifier r) (ppr_PlanId ans)) (db_plans d)"
  obtains nss shards i plan where "protoChangesToNamespaces (ppr_Changes ans) (prq_SchemaFiles req) = Inr nss"
    "protoShardPlansToStorage (ppr_Shards ans) = Inr shards"
    "pl_Create plan d = Inr (i, d')" "pn_PlanIdentifier plan = ppr_PlanId ans" "pn_Namespaces plan = nss" "pn_Shards plan = shards"
    "pn_Database plan = prq_Database req" "pn_Environment plan = prq_Environment req" "pn_Repository plan = prq_Repository req"
    "pn_PullRequest plan = (case prq_PullRequest req of None \<Rightarrow> 0 | Some n \<Rightarrow> n)"
    "pn_SchemaPath plan = (if prq_SourceTrusted req then prq_SchemaPath req else [])"
    "pn_HeadSHA plan = (case prq_HeadSHA req of None \<Rightarrow> [] | Some sha \<Rightarrow> sha)"
    "pn_DatabaseType plan = rt_DatabaseType route" "pn_Deployment plan = rt_Deployment route" "pn_Target plan = rt_Target route"
proof -
  let ?plan = "\<lambda>nss shards. \<lparr>pn_ID = 0, pn_PlanIdentifier = ppr_PlanId ans, pn_Database = prq_Database req, pn_DatabaseType = rt_DatabaseType route,
      pn_Deployment = rt_Deployment route, pn_Target = rt_Target route, pn_Repository = prq_Repository req,
      pn_PullRequest = (case prq_PullRequest req of None \<Rightarrow> 0 | Some n \<Rightarrow> n),
      pn_SchemaPath = (if prq_SourceTrusted req then prq_SchemaPath req else []), pn_Environment = prq_Environment req,
      pn_SchemaFiles = protoToSchemaFiles (prq_SchemaFiles req), pn_Namespaces = nss, pn_Shards = shards,
      pn_HeadSHA = (case prq_HeadSHA req of None \<Rightarrow> [] | Some sha \<Rightarrow> sha), pn_CreatedAt = now\<rparr>"
  from assms(1) obtain nss shards where n: "protoChangesToNamespaces (ppr_Changes ans) (prq_SchemaFiles req) = Inr nss"
    "protoShardPlansToStorage (ppr_Shards ans) = Inr shards" by (auto simp: storePlanResponse_def split: sum.splits)
  have "pl_Create (?plan nss shards) d \<noteq> Inl e" for e using assms(2) by (simp add: pl_Create_def Let_def)
  then obtain i d1 where c: "pl_Create (?plan nss shards) d = Inr (i, d1)" by (metis sum.exhaust surj_pair)
  with assms(1) n have "d1 = d'" by (simp add: storePlanResponse_def)
  with c n show thesis by (intro that [of nss shards "?plan nss shards" i]) simp_all
qed

text \<open>
 A plan that was answered can be applied as it was shown: the stored plan is found under the identifier of the answer, carries the environment, the
  route of the database's primary target and the head the files were taken from, holds exactly the statements the answer lists, and its schema
  path is one the source policy admitted.
\<close>

theorem executed_plan_is_stored:
  assumes "ExecutePlan config TernClient now req d = (Inr resp, d')"
    and "\<not> list_ex (\<lambda>r. sql_eq (pn_PlanIdentifier r) (plr_PlanID resp)) (db_plans d)"
  shows "\<exists>target p cs. ResolvePrimaryDatabaseTarget config (prq_Database req) (prq_Environment req) = Inr target
    \<and> pl_Get (plr_PlanID resp) d' = Some p \<and> pn_Database p = prq_Database req \<and> pn_Environment p = prq_Environment req
    \<and> pn_Deployment p = et_Deployment target \<and> pn_Target p = et_Target target \<and> pn_DatabaseType p = prq_Type req
    \<and> pn_HeadSHA p = (case prq_HeadSHA req of None \<Rightarrow> [] | Some sha \<Rightarrow> sha)
    \<and> FlatDDLChanges (pn_Namespaces p) = Some cs \<and> mset (map tc_DDL cs) = mset (map tcr_DDL (FlatTables resp))
    \<and> (pn_SchemaPath p \<noteq> [] \<longrightarrow> AuthorizePlanSource config \<lparr>ps_Database = pn_Database p, ps_Repository = pn_Repository p,
         ps_PullRequest = pn_PullRequest p, ps_SchemaPath = pn_SchemaPath p\<rparr> = None)"
proof -
  from ExecutePlan_InrD [OF assms(1)] obtain target client ans where t: "ResolvePrimaryDatabaseTarget config (prq_Database req) (prq_Environment req) = Inr target"
    "prq_Type req = et_DatabaseType target"
    "prq_SourceTrusted req \<Longrightarrow> AuthorizePlanSource config \<lparr>ps_Database = prq_Database req, ps_Repository = prq_Repository req,
       ps_PullRequest = (case prq_PullRequest req of None \<Rightarrow> 0 | Some n \<Rightarrow> n), ps_SchemaPath = prq_SchemaPath req\<rparr> = None"
    and resp: "resp = planResponseFromProto ans"
    and st: "storePlanResponse now req ans \<lparr>rt_DatabaseType = et_DatabaseType target, rt_Deployment = et_Deployment target, rt_Target = et_Target target\<rparr> d = (None, d')"
    by metis
  have "plr_PlanID resp = ppr_PlanId ans" by (simp add: resp planResponseFromProto_def)
  with assms(2) have "\<not> list_ex (\<lambda>r. sql_eq (pn_PlanIdentifier r) (ppr_PlanId ans)) (db_plans d)" by simp
  from storePlanResponse_NoneD [OF st this] obtain i plan where
    nss: "protoChangesToNamespaces (ppr_Changes ans) (prq_SchemaFiles req) = Inr (pn_Namespaces plan)"
    and c: "pl_Create plan d = Inr (i, d')" and p: "pn_PlanIdentifier plan = ppr_PlanId ans"
      "pn_Database plan = prq_Database req" "pn_Environment plan = prq_Environment req" "pn_Repository plan = prq_Repository req"
      "pn_PullRequest plan = (case prq_PullRequest req of None \<Rightarrow> 0 | Some n \<Rightarrow> n)"
      "pn_SchemaPath plan = (if prq_SourceTrusted req then prq_SchemaPath req else [])"
      "pn_HeadSHA plan = (case prq_HeadSHA req of None \<Rightarrow> [] | Some sha \<Rightarrow> sha)"
      "pn_DatabaseType plan = et_DatabaseType target" "pn_Deployment plan = et_Deployment target" "pn_Target plan = et_Target target"
    by (metis storedPlanRoute.select_convs)
  let ?p = "scanPlanInto (stored_plan i plan)"
  obtain cs where cs: "FlatDDLChanges (pn_Namespaces plan) = Some cs" "mset (map tc_DDL cs) = mset (map tcr_DDL (FlatTables resp))"
    using namespaces_statements(2) [OF nss] resp by blast
  from stored_statements [OF cs(1)] have "FlatDDLChanges (pn_Namespaces ?p) = Some cs" by (simp add: scanPlanInto_def stored_plan_def)
  moreover from created_plan_read [OF c] have "pl_Get (plr_PlanID resp) d' = Some ?p" by (simp add: p(1) \<open>plr_PlanID resp = ppr_PlanId ans\<close>)
  ultimately show ?thesis using t cs(2) p
    by (intro exI [of _ target] exI [of _ ?p] exI [of _ cs]) (simp add: scanPlanInto_def stored_plan_def)
qed

definition sample_answer :: proto_plan_response where
  "sample_answer = \<lparr>ppr_PlanId = ''plan-1'', ppr_Changes = [Some \<lparr>psc_Namespace = ''commerce'', psc_TableChanges = [\<lparr>ptc_TableName = ''users'',
     ptc_Namespace = ''commerce'', ptc_Ddl = ''ALTER users'', ptc_ChangeType = CHANGE_TYPE_ALTER, ptc_IsUnsafe = False, ptc_UnsafeReason = []\<rparr>],
     psc_OriginalFiles = [], psc_OriginalFilesCaptured = True, psc_Metadata = []\<rparr>], ppr_Shards = [], ppr_Errors = []\<rparr>"

definition sample_client :: tern_client where
  "sample_client = \<lparr>tcl_IsRemote = True, tcl_ShardedFanout = True, tcl_Plan = (\<lambda>_. Inr sample_answer)\<rparr>"

definition sample_plan_request :: PlanRequest where
  "sample_plan_request = \<lparr>prq_Database = ''orders'', prq_Environment = ''staging'', prq_Type = dc_Type sample_database, prq_SchemaFiles = [(''commerce'', Some [(''users.sql'', ''x'')])],
     prq_Repository = ''org/repo'', prq_PullRequest = Some 7, prq_HeadSHA = Some ''abc'', prq_SchemaPath = [], prq_SourceTrusted = False\<rparr>"

theorem executed_plan_is_stored_witness:
  "\<exists>p cs. pl_Get ''plan-1'' (snd (ExecutePlan (Some validated_sample) (\<lambda>_ _. Inr sample_client) 100 sample_plan_request no_plans)) = Some p
     \<and> pn_Environment p = ''staging'' \<and> FlatDDLChanges (pn_Namespaces p) = Some cs \<and> map tc_DDL cs = [''ALTER users'']"
proof -
  let ?r = "ExecutePlan (Some validated_sample) (\<lambda>_ _. Inr sample_client) 100 sample_plan_request no_plans"
  have "fst ?r = Inr (planResponseFromProto sample_answer)" by code_simp
  then have r: "?r = (Inr (planResponseFromProto sample_answer), snd ?r)" by (metis prod.collapse)
  have n: "\<not> list_ex (\<lambda>r. sql_eq (pn_PlanIdentifier r) (plr_PlanID (planResponseFromProto sample_answer))) (db_plans no_plans)" by code_simp
  have v: "plr_PlanID (planResponseFromProto sample_answer) = ''plan-1''" "prq_Environment sample_plan_request = ''staging''"
    "mset (map tcr_DDL (FlatTables (planResponseFromProto sample_answer))) = {#''ALTER users''#}" by (code_simp, code_simp, code_simp)
  from executed_plan_is_stored [OF r n] v show ?thesis by (metis mset_single_iff_right)
qed

end
