(* ===== verification/SB_Enqueue.thy ===== *)
theory SB_Enqueue
  imports SB_Plans
begin

section \<open>Queueing an apply (api/plan\_handlers.go)\<close>

text \<open>
  \<^verbatim>\<open>ExecuteApply\<close> turns a stored plan into rows: one apply, its operations and their tasks, written in one transaction of the apply store. The plan is
  checked against the request, the source policy is asked again, the targets are the plan's own or, for several deployments, the configured
  ones in order, and the operations are one per target or, where the data plane fans out, one per target, table and changing shard, followed by a
  finaliser for every namespace with a new VSchema. The world of a call is the tables it reads and writes, the apply log and the observers waiting for an
  apply; \<open>oth n\<close> is what other callers commit before the n-th of its calls. Identifiers are arguments: the apply's is \<open>se_apply_id\<close>, the k-th task
  built gets \<open>se_task_id k\<close>. Waking an operator driver changes no table.
\<close>

subsection \<open>State\<close>

record apply_log =
  lg_ApplyID :: int
  lg_EventType :: string
  lg_Message :: string

record service_world =
  sw_db :: db
  sw_plans :: plan_db
  sw_locks :: lock_db
  sw_log :: "apply_log list"
  sw_pending_observers :: "((string \<times> string \<times> string) \<times> nat) list"
  sw_observers :: "(int \<times> nat) list"

record service_env =
  se_config :: ServerConfig
  se_TernClient :: "string \<Rightarrow> string \<Rightarrow> string + tern_client"
  se_now :: int
  se_apply_id :: string
  se_task_id :: "nat \<Rightarrow> string"

type_synonym service_others = "nat \<Rightarrow> service_world \<Rightarrow> service_world"

subsection \<open>The text of options (encoding/json)\<close>

definition json_hex_digit :: "nat \<Rightarrow> char" where
  "json_hex_digit n = ''0123456789abcdef'' ! (n mod 16)"

text \<open>Quotes, backslashes, control characters and the characters that are special in HTML are escaped, other bytes are copied.\<close>

definition json_char :: "char \<Rightarrow> string" where
  "json_char c = (let n = (of_char c :: nat) in
     if c = CHR 0x22 then [CHR 0x5C, CHR 0x22]
     else if c = CHR 0x5C then [CHR 0x5C, CHR 0x5C]
     else if n = 8 then [CHR 0x5C, CHR ''b''] else if n = 12 then [CHR 0x5C, CHR ''f'']
     else if n = 10 then [CHR 0x5C, CHR ''n''] else if n = 13 then [CHR 0x5C, CHR ''r''] else if n = 9 then [CHR 0x5C, CHR ''t'']
     else if n < 32 \<or> c \<in> set ''<>&'' then [CHR 0x5C, CHR ''u'', CHR ''0'', CHR ''0'', json_hex_digit (n div 16), json_hex_digit n]
     else [c])"

definition json_string :: "string \<Rightarrow> string" where
  "json_string s = [CHR 0x22] @ concat (map json_char s) @ [CHR 0x22]"

text \<open>Options hold booleans, numbers and strings only.\<close>

fun json_value :: "json \<Rightarrow> string" where
  "json_value (JBool b) = (if b then ''true'' else ''false'')"
| "json_value (JNum n) = itoa n"
| "json_value (JStr s) = json_string s"
| "json_value _ = ''null''"

definition json_text :: "json_object \<Rightarrow> string" where
  "json_text obj = ''{'' @ join_with '','' (map (\<lambda>(k, v). json_string k @ '':'' @ json_value v) obj) @ ''}''"

subsection \<open>Operations and tasks of a plan\<close>

definition applyOperationKeyMaxLen :: nat where "applyOperationKeyMaxLen = 255"
definition finalizerOperationKeySegment :: string where "finalizerOperationKeySegment = ''group_finalizer''"

definition shardOperationKey :: "string \<Rightarrow> string \<Rightarrow> string \<Rightarrow> string" where
  "shardOperationKey namespace shard table = namespace @ ''/'' @ shard @ ''/'' @ table"

definition finalizerOperationKey :: "string \<Rightarrow> string" where
  "finalizerOperationKey namespace = namespace @ ''/'' @ finalizerOperationKeySegment"

definition validateOperationKeyPart :: "string \<Rightarrow> bool" where
  "validateOperationKeyPart v \<longleftrightarrow> CHR ''/'' \<notin> set v"

definition validateShardOperationKeyParts :: "string \<Rightarrow> string \<Rightarrow> string \<Rightarrow> bool" where
  "validateShardOperationKeyParts namespace shard table \<longleftrightarrow> list_all validateOperationKeyPart [namespace, shard, table]"

definition newPendingApplyOperation :: "ExecutionTarget \<Rightarrow> string \<Rightarrow> string \<Rightarrow> string \<Rightarrow> int \<Rightarrow> ApplyOperation" where
  "newPendingApplyOperation target operationKey cutoverPolicy onFailure now = \<lparr>op_ID = 0, op_ApplyID = 0, op_Deployment = et_Deployment target,
     op_OperationKey = operationKey, op_OperationKind = ApplyOperationKindWork, op_Target = et_Target target, op_State = Apply_Pending,
     op_ErrorMessage = None, op_CutoverPolicy = cutoverPolicy, op_OnFailure = onFailure, op_Attempt = 0, op_StartedAt = None, op_CompletedAt = None,
     op_LeaseOwner = [], op_LeaseToken = [], op_LeaseAcquiredAt = None, op_EngineResumeContext = None, op_EngineResumeMetadata = None,
     op_CreatedAt = now, op_UpdatedAt = now\<rparr>"

definition buildApplyTask :: "string \<Rightarrow> Plan \<Rightarrow> TableChange \<Rightarrow> string \<Rightarrow> ApplyOptions \<Rightarrow> string \<Rightarrow> int \<Rightarrow> Task" where
  "buildApplyTask identifier plan ddlChange environment applyOpts shard now = \<lparr>tk_ID = 0, tk_TaskIdentifier = ''task-'' @ identifier, tk_ApplyID = 0,
     tk_ApplyOperationID = None, tk_PlanID = pn_ID plan, tk_Database = pn_Database plan, tk_DatabaseType = pn_DatabaseType plan,
     tk_Engine = EngineForType (pn_DatabaseType plan), tk_Repository = pn_Repository plan, tk_PullRequest = pn_PullRequest plan,
     tk_Environment = environment, tk_State = Task_Pending, tk_ErrorMessage = None, tk_Options = json_text (MarshalApplyOptions applyOpts), tk_Attempt = 0,
     tk_Namespace = tc_Namespace ddlChange, tk_TableName = tc_Table ddlChange, tk_Shard = shard, tk_DDL = tc_DDL ddlChange,
     tk_DDLAction = tc_Operation ddlChange, tk_RowsCopied = 0, tk_RowsTotal = 0, tk_ProgressPercent = 0, tk_ETASeconds = 0, tk_ChecksumRowsChecked = 0,
     tk_ChecksumRowsTotal = 0, tk_CutoverAttempts = 0, tk_IsInstant = False, tk_ReadyToComplete = False, tk_EngineMigrationID = [],
     tk_CreatedAt = now, tk_UpdatedAt = now, tk_StartedAt = None, tk_CompletedAt = None\<rparr>"

text \<open>The shards of a namespace that need the change, by name.\<close>

definition changingShards :: "ShardPlan list \<Rightarrow> string \<Rightarrow> ShardPlan list" where
  "changingShards shards namespace = sort_key sp_Shard (filter (\<lambda>s. sp_NeedsChange s \<and> sp_Namespace s = namespace) shards)"

definition vschemaFinalizerNamespaces :: "Plan \<Rightarrow> string list" where
  "vschemaFinalizerNamespaces plan = sort (map fst (filter (\<lambda>(_, v). case v of None \<Rightarrow> False | Some nd \<Rightarrow> lookup_text (np_Artifacts nd) vSchemaArtifactName \<noteq> [])
     (pn_Namespaces plan)))"

definition canBuildShardedOperationGroups :: "Plan \<Rightarrow> TableChange list \<Rightarrow> bool" where
  "canBuildShardedOperationGroups plan taskChanges \<longleftrightarrow> length (pn_Shards plan) \<noteq> 0 \<and> length taskChanges \<noteq> 0
     \<and> list_ex sp_NeedsChange (pn_Shards plan)
     \<and> list_all (\<lambda>c. tc_DDL c \<noteq> [] \<and> tc_Table c \<noteq> [] \<and> length (changingShards (pn_Shards plan) (tc_Namespace c)) \<noteq> 0) taskChanges"

text \<open>What the group builders share: the plan, the environment, the options, the policies, the time and the task identifiers.\<close>

record build_env =
  be_plan :: Plan
  be_environment :: string
  be_options :: ApplyOptions
  be_cutoverPolicy :: string
  be_onFailure :: string
  be_now :: int
  be_task_id :: "nat \<Rightarrow> string"

definition build_task :: "build_env \<Rightarrow> nat \<Rightarrow> TableChange \<Rightarrow> string \<Rightarrow> Task" where
  "build_task b k c shard = buildApplyTask (be_task_id b k) (be_plan b) c (be_environment b) (be_options b) shard (be_now b)"

definition new_operation :: "build_env \<Rightarrow> ExecutionTarget \<Rightarrow> string \<Rightarrow> ApplyOperation" where
  "new_operation b target operationKey = newPendingApplyOperation target operationKey (be_cutoverPolicy b) (be_onFailure b) (be_now b)"

text \<open>
  The groups built so far, each with its key in \<^verbatim>\<open>groupsByTargetAndKey\<close> - a finaliser has none - and the number of tasks built.
\<close>

type_synonym keyed_group = "string option \<times> ApplyOperation \<times> Task list"

definition add_shard_task :: "build_env \<Rightarrow> ExecutionTarget \<Rightarrow> TableChange \<Rightarrow> ShardPlan \<Rightarrow> nat \<times> keyed_group list \<Rightarrow> string + nat \<times> keyed_group list" where
  "add_shard_task b target c shard ngs = (case ngs of (n, groups) \<Rightarrow>
     if \<not> validateShardOperationKeyParts (tc_Namespace c) (sp_Shard shard) (tc_Table c) then Inl ''operation key component contains reserved delimiter''
     else (let operationKey = shardOperationKey (tc_Namespace c) (sp_Shard shard) (tc_Table c) in
       if length operationKey > applyOperationKeyMaxLen then Inl ''operation key too long''
       else (let groupKey = Some (et_Deployment target @ [CHR 0x00] @ operationKey); task = build_task b n c (sp_Shard shard) in
         if list_ex (\<lambda>g. fst g = groupKey) groups
         then Inr (n + 1, map (\<lambda>(k, ad, ts). if k = groupKey then (k, ad, ts @ [task]) else (k, ad, ts)) groups)
         else Inr (n + 1, groups @ [(groupKey, new_operation b target operationKey, [task])]))))"

fun add_shard_tasks :: "build_env \<Rightarrow> ExecutionTarget \<Rightarrow> (TableChange \<times> ShardPlan) list \<Rightarrow> nat \<times> keyed_group list \<Rightarrow> string + nat \<times> keyed_group list" where
  "add_shard_tasks b target [] ngs = Inr ngs"
| "add_shard_tasks b target ((c, shard) # work) ngs = bind_result (add_shard_task b target c shard ngs) (add_shard_tasks b target work)"

fun add_finalizers :: "build_env \<Rightarrow> ExecutionTarget \<Rightarrow> string list \<Rightarrow> nat \<times> keyed_group list \<Rightarrow> string + nat \<times> keyed_group list" where
  "add_finalizers b target [] ngs = Inr ngs"
| "add_finalizers b target (namespace # rest) ngs = (case ngs of (n, groups) \<Rightarrow>
     if \<not> validateOperationKeyPart namespace then Inl ''operation key component contains reserved delimiter''
     else if length (finalizerOperationKey namespace) > applyOperationKeyMaxLen then Inl ''operation key too long''
     else add_finalizers b target rest (n, groups @ [(None, (new_operation b target (finalizerOperationKey namespace))
            \<lparr>op_OperationKind := ApplyOperationKindGroupFinalizer\<rparr>, [])]))"

definition shard_work :: "Plan \<Rightarrow> TableChange list \<Rightarrow> (TableChange \<times> ShardPlan) list" where
  "shard_work plan taskChanges = concat (map (\<lambda>c. map (Pair c) (changingShards (pn_Shards plan) (tc_Namespace c))) taskChanges)"

fun add_targets :: "build_env \<Rightarrow> TableChange list \<Rightarrow> ExecutionTarget list \<Rightarrow> nat \<times> keyed_group list \<Rightarrow> string + nat \<times> keyed_group list" where
  "add_targets b taskChanges [] ngs = Inr ngs"
| "add_targets b taskChanges (target # targets) ngs =
     bind_result (add_shard_tasks b target (shard_work (be_plan b) taskChanges) ngs) (\<lambda>ngs1.
     bind_result (add_finalizers b target (vschemaFinalizerNamespaces (be_plan b)) ngs1) (add_targets b taskChanges targets))"

definition buildShardedApplyOperationGroups :: "build_env \<Rightarrow> TableChange list \<Rightarrow> ExecutionTarget list \<Rightarrow> string + ApplyOperationWithTasks option list" where
  "buildShardedApplyOperationGroups b taskChanges targets = bind_result (add_targets b taskChanges targets (0, [])) (\<lambda>(n, groups).
     Inr (map (\<lambda>(k, ad, ts). Some \<lparr>og_Operation = Some ad, og_Tasks = map Some ts, og_AllowTaskless = False\<rparr>) groups))"

text \<open>One group per target with every task of the plan; \<open>k\<close> counts the tasks built before.\<close>

fun target_groups :: "build_env \<Rightarrow> TableChange list \<Rightarrow> bool \<Rightarrow> nat \<Rightarrow> ExecutionTarget list \<Rightarrow> ApplyOperationWithTasks option list" where
  "target_groups b taskChanges allowTaskless k [] = []"
| "target_groups b taskChanges allowTaskless k (target # targets) =
     Some \<lparr>og_Operation = Some (new_operation b target []),
           og_Tasks = map (\<lambda>(i, c). Some (build_task b (k + i) c [])) (enumerate 0 taskChanges),
           og_AllowTaskless = allowTaskless\<rparr> # target_groups b taskChanges allowTaskless (k + length taskChanges) targets"

definition buildApplyOperationGroups ::
  "build_env \<Rightarrow> TableChange list \<Rightarrow> ExecutionTarget list \<Rightarrow> bool \<Rightarrow> string + (ApplyOperationWithTasks option list \<times> bool)" where
  "buildApplyOperationGroups b taskChanges targets shardedFanoutSupported =
     (if shardedFanoutSupported \<and> canBuildShardedOperationGroups (be_plan b) taskChanges
      then bind_result (buildShardedApplyOperationGroups b taskChanges targets) (\<lambda>groups. Inr (groups, True))
      else Inr (target_groups b taskChanges (length targets = 1 \<and> length taskChanges = 0 \<and> length (vschemaFinalizerNamespaces (be_plan b)) > 0) 0 targets, False))"

subsection \<open>From the request to the rows\<close>

definition loadPlanForApply :: "ApplyRequest \<Rightarrow> plan_db \<Rightarrow> service_error + Plan" where
  "loadPlanForApply req d = (case pl_Get (arq_PlanID req) d of
       None \<Rightarrow> Inl (Service_Error ''plan not found'')
     | Some plan \<Rightarrow>
         if pn_Environment plan \<noteq> arq_Environment req then Inl (Service_Error ''plan was created for another environment'')
         else if pn_Deployment plan = [] then Inl (Service_Error ''plan is missing server-side routing metadata field deployment'')
         else if pn_Target plan = [] then Inl (Service_Error ''plan is missing server-side routing metadata field target'')
         else Inr plan)"

definition authorizeStoredPlanSource :: "ServerConfig \<Rightarrow> Plan \<Rightarrow> service_error option" where
  "authorizeStoredPlanSource config plan =
     (if pn_SchemaPath plan = [] then None
      else map_option Policy_Error (AuthorizePlanSource (Some config) \<lparr>ps_Database = pn_Database plan, ps_Repository = pn_Repository plan,
        ps_PullRequest = pn_PullRequest plan, ps_SchemaPath = pn_SchemaPath plan\<rparr>))"

text \<open>The targets: the plan's own, or the configured ones when there are several.\<close>

definition apply_target_list :: "ServerConfig \<Rightarrow> Plan \<Rightarrow> string \<Rightarrow> ExecutionTarget list" where
  "apply_target_list config plan environment = (case ResolveDatabaseTargets (Some config) (pn_Database plan) environment of
       Inr resolved \<Rightarrow> if length resolved > 1 then resolved
         else [\<lparr>et_DatabaseType = pn_DatabaseType plan, et_Deployment = pn_Deployment plan, et_Target = pn_Target plan\<rparr>]
     | Inl _ \<Rightarrow> [\<lparr>et_DatabaseType = pn_DatabaseType plan, et_Deployment = pn_Deployment plan, et_Target = pn_Target plan\<rparr>])"

definition queued_apply :: "service_env \<Rightarrow> Plan \<Rightarrow> ApplyRequest \<Rightarrow> ApplyOptions \<Rightarrow> int \<Rightarrow> string \<Rightarrow> Apply" where
  "queued_apply e plan req applyOpts lockID deployment = \<lparr>ap_ID = 0, ap_ApplyIdentifier = ''apply-'' @ se_apply_id e, ap_LockID = lockID, ap_PlanID = pn_ID plan,
     ap_Database = pn_Database plan, ap_DatabaseType = pn_DatabaseType plan, ap_Repository = pn_Repository plan, ap_PullRequest = pn_PullRequest plan,
     ap_Environment = arq_Environment req, ap_Deployment = deployment, ap_Caller = arq_Caller req, ap_InstallationID = arq_InstallationID req,
     ap_ExternalID = [], ap_IdempotencyKey = None, ap_Engine = EngineForType (pn_DatabaseType plan), ap_State = Apply_Pending, ap_ErrorMessage = None,
     ap_Options = Some (MarshalApplyOptions applyOpts), ap_Attempt = 0, ap_LeaseOwner = [], ap_LeaseToken = [], ap_LeaseAcquiredAt = None,
     ap_CreatedAt = se_now e, ap_StartedAt = None, ap_CompletedAt = None, ap_RevertSkippedAt = None, ap_UpdatedAt = se_now e\<rparr>"

definition append_log :: "int \<Rightarrow> string \<Rightarrow> string \<Rightarrow> service_world \<Rightarrow> service_world" where
  "append_log applyID eventType message w = w\<lparr>sw_log := sw_log w @ [\<lparr>lg_ApplyID = applyID, lg_EventType = eventType, lg_Message = message\<rparr>]\<rparr>"

definition apply_build :: "service_env \<Rightarrow> Plan \<Rightarrow> ApplyRequest \<Rightarrow> ApplyOptions \<Rightarrow> build_env" where
  "apply_build e plan req applyOpts = \<lparr>be_plan = plan, be_environment = arq_Environment req, be_options = applyOpts,
     be_cutoverPolicy = CutoverPolicyFor (se_config e) (pn_Database plan) (arq_Environment req),
     be_onFailure = cfg_OnFailure (se_config e) (pn_Database plan) (arq_Environment req), be_now = se_now e, be_task_id = se_task_id e\<rparr>"

text \<open>A plan whose namespace map has a nil entry makes \<^verbatim>\<open>FlatDDLChanges\<close> panic; the HTTP server recovers and answers an error.\<close>

definition createStoredApply ::
  "service_others \<Rightarrow> service_env \<Rightarrow> Plan \<Rightarrow> ApplyRequest \<Rightarrow> (string \<rightharpoonup> string) \<Rightarrow> bool \<Rightarrow> service_world \<Rightarrow> (service_error + int) \<times> service_world" where
  "createStoredApply oth e plan req options shardedFanoutSupported w =
     (let applyOpts = ApplyOptionsFromMap options;
          targets = apply_target_list (se_config e) plan (arq_Environment req);
          w1 = oth 1 w;
          lockID = (case lk_Get (pn_Database plan) (pn_DatabaseType plan) (sw_locks w1) of None \<Rightarrow> 0 | Some l \<Rightarrow> lk_ID l);
          apply = queued_apply e plan req applyOpts lockID (et_Deployment (hd targets)) in
      case FlatDDLChanges (pn_Namespaces plan) of
        None \<Rightarrow> (Inl (Service_Error ''panic: nil namespace data''), w1)
      | Some taskChanges \<Rightarrow>
          (case buildApplyOperationGroups (apply_build e plan req applyOpts) taskChanges targets shardedFanoutSupported of
             Inl err \<Rightarrow> (Inl (Service_Error err), w1)
           | Inr (groups, _) \<Rightarrow>
               (let w2 = oth 2 w1 in
                case CreateWithGroupedOperations (se_now e) apply groups (sw_db w2) of
                  Inl err \<Rightarrow> (Inl (Storage_Failed err), w2)
                | Inr (applyID, d') \<Rightarrow>
                    (Inr applyID, append_log applyID ''info'' (''Apply queued: '' @ ap_ApplyIdentifier apply) (oth 3 (w2\<lparr>sw_db := d'\<rparr>))))))"

definition attachObserver :: "Plan \<Rightarrow> ApplyRequest \<Rightarrow> int \<Rightarrow> service_world \<Rightarrow> service_world" where
  "attachObserver plan req applyID w =
     (let key = (pn_Database plan, pn_Deployment plan, arq_Environment req) in
      case map_of (sw_pending_observers w) key of
        None \<Rightarrow> w
      | Some ob \<Rightarrow> w\<lparr>sw_pending_observers := filter (\<lambda>kv. fst kv \<noteq> key) (sw_pending_observers w), sw_observers := (applyID, ob) # sw_observers w\<rparr>)"

definition queueValidatedApply ::
  "service_others \<Rightarrow> service_env \<Rightarrow> Plan \<Rightarrow> ApplyRequest \<Rightarrow> service_world \<Rightarrow> (service_error + (string \<times> int)) \<times> service_world" where
  "queueValidatedApply oth e plan req w =
     (case se_TernClient e (pn_Deployment plan) (arq_Environment req) of
        Inl err \<Rightarrow> (Inl (Service_Error err), w)
      | Inr client \<Rightarrow>
          (case createStoredApply oth e plan req ((map_of (arq_Options req))(''target'' \<mapsto> pn_Target plan)) (tcl_ShardedFanout client) w of
             (Inl err, w') \<Rightarrow> (Inl err, w')
           | (Inr applyID, w') \<Rightarrow>
               (let w'' = attachObserver plan req applyID w' in
                if applyID \<le> 0 then (Inl (Service_Error ''accepted apply missing stored apply id''), w'')
                else (Inr (''apply-'' @ se_apply_id e, applyID), w''))))"

definition EnqueueAuthorizedApply :: "service_others \<Rightarrow> service_env \<Rightarrow> ApplyRequest \<Rightarrow> service_world \<Rightarrow> (service_error + (string \<times> int)) \<times> service_world" where
  "EnqueueAuthorizedApply oth e req w =
     (let w0 = oth 0 w in case loadPlanForApply req (sw_plans w0) of
        Inl err \<Rightarrow> (Inl err, w0)
      | Inr plan \<Rightarrow> queueValidatedApply oth e plan req w0)"

definition ExecuteApply :: "service_others \<Rightarrow> service_env \<Rightarrow> ApplyRequest \<Rightarrow> service_world \<Rightarrow> (service_error + (string \<times> int)) \<times> service_world" where
  "ExecuteApply oth e req w =
     (let w0 = oth 0 w in case loadPlanForApply req (sw_plans w0) of
        Inl err \<Rightarrow> (Inl err, w0)
      | Inr plan \<Rightarrow> (case authorizeStoredPlanSource (se_config e) plan of
          Some err \<Rightarrow> (Inl err, w0)
        | None \<Rightarrow> queueValidatedApply oth e plan req w0))"

subsection \<open>Operation keys\<close>

lemma key_parts_inj:
  assumes "shardOperationKey ns sh t = shardOperationKey ns' sh' t'" "validateShardOperationKeyParts ns sh t" "validateShardOperationKeyParts ns' sh' t'"
  shows "ns = ns' \<and> sh = sh' \<and> t = t'"
proof -
  have "shardOperationKey a b c = join_with ''/'' [a, b, c]" for a b c by (simp add: shardOperationKey_def)
  moreover have "split_on CHR ''/'' (join_with ''/'' [a, b, c]) = [a, b, c]" if "validateShardOperationKeyParts a b c" for a b c
    by (rule split_join) (use that in \<open>auto simp: validateShardOperationKeyParts_def validateOperationKeyPart_def\<close>)
  ultimately show ?thesis using assms by (metis list.inject)
qed

lemma key_not_finalizer:
  assumes "validateShardOperationKeyParts ns sh t" "validateOperationKeyPart n"
  shows "shardOperationKey ns sh t \<noteq> finalizerOperationKey n"
proof
  assume e: "shardOperationKey ns sh t = finalizerOperationKey n"
  have "length (filter ((=) CHR ''/'') (shardOperationKey ns sh t)) = 2"
    using assms(1) by (auto simp: shardOperationKey_def validateShardOperationKeyParts_def validateOperationKeyPart_def filter_empty_conv)
  moreover have "length (filter ((=) CHR ''/'') (finalizerOperationKey n)) = 1"
    using assms(2) by (auto simp: finalizerOperationKey_def finalizerOperationKeySegment_def validateOperationKeyPart_def filter_empty_conv)
  ultimately show False using e by simp
qed

definition group_key :: "string \<Rightarrow> string \<Rightarrow> string" where
  "group_key deployment operationKey = deployment @ [CHR 0x00] @ operationKey"

lemma group_key_inj:
  assumes "group_key a k = group_key b l" "CHR 0x00 \<notin> set a" "CHR 0x00 \<notin> set b"
  shows "a = b \<and> k = l"
proof -
  have "takeWhile (\<lambda>c. c \<noteq> CHR 0x00) (group_key x y) = x" if "CHR 0x00 \<notin> set x" for x y
    unfolding group_key_def using that by (induction x) auto
  with assms have "a = b" by metis
  with assms(1) show ?thesis by (simp add: group_key_def)
qed

subsection \<open>The sharded groups\<close>

text \<open>What a task does where: the deployment and target of its operation, the shard, the table and the statement.\<close>

type_synonym work_item = "string \<times> string \<times> string \<times> string \<times> string \<times> string"

definition work_of :: "ApplyOperation \<Rightarrow> Task \<Rightarrow> work_item" where
  "work_of ad t = (op_Deployment ad, op_Target ad, tk_Namespace t, tk_Shard t, tk_TableName t, tk_DDL t)"

definition planned_work :: "ExecutionTarget \<Rightarrow> TableChange \<times> ShardPlan \<Rightarrow> work_item" where
  "planned_work target cs = (et_Deployment target, et_Target target, tc_Namespace (fst cs), sp_Shard (snd cs), tc_Table (fst cs), tc_DDL (fst cs))"

definition keyed_work :: "keyed_group list \<Rightarrow> work_item list" where
  "keyed_work gs = concat (map (\<lambda>(k, ad, ts). map (work_of ad) ts) gs)"

definition task_key :: "Task \<Rightarrow> string" where
  "task_key t = shardOperationKey (tk_Namespace t) (tk_Shard t) (tk_TableName t)"

definition valid_task :: "Task \<Rightarrow> bool" where
  "valid_task t \<longleftrightarrow> validateShardOperationKeyParts (tk_Namespace t) (tk_Shard t) (tk_TableName t) \<and> tk_State t = Task_Pending"

text \<open>The shape of the groups while they are built, for the targets \<open>ts\<close> met so far.\<close>

definition work_group :: "ExecutionTarget set \<Rightarrow> keyed_group \<Rightarrow> bool" where
  "work_group targets g = (case g of (k, ad, ts) \<Rightarrow> k = Some (group_key (op_Deployment ad) (op_OperationKey ad)) \<and> ts \<noteq> []
     \<and> op_OperationKind ad = ApplyOperationKindWork \<and> length (op_OperationKey ad) \<le> applyOperationKeyMaxLen
     \<and> (\<exists>t \<in> targets. op_Deployment ad = et_Deployment t \<and> op_Target ad = et_Target t)
     \<and> (\<forall>t \<in> set ts. valid_task t \<and> op_OperationKey ad = task_key t))"

definition final_group :: "ExecutionTarget set \<Rightarrow> keyed_group \<Rightarrow> bool" where
  "final_group targets g = (case g of (k, ad, ts) \<Rightarrow> k = None \<and> ts = [] \<and> op_OperationKind ad = ApplyOperationKindGroupFinalizer
     \<and> length (op_OperationKey ad) \<le> applyOperationKeyMaxLen \<and> (\<exists>t \<in> targets. op_Deployment ad = et_Deployment t \<and> op_Target ad = et_Target t)
     \<and> (\<exists>ns. validateOperationKeyPart ns \<and> op_OperationKey ad = finalizerOperationKey ns))"

definition identity_of :: "keyed_group \<Rightarrow> string \<times> string" where
  "identity_of g = (op_Deployment (fst (snd g)), op_OperationKey (fst (snd g)))"

definition groups_shape :: "ExecutionTarget set \<Rightarrow> keyed_group list \<Rightarrow> bool" where
  "groups_shape targets gs \<longleftrightarrow> (\<forall>g \<in> set gs. work_group targets g \<or> final_group targets g) \<and> distinct (map identity_of gs)"

lemma new_operation_simps [simp]:
  "op_Deployment (new_operation b target k) = et_Deployment target" "op_Target (new_operation b target k) = et_Target target"
  "op_OperationKey (new_operation b target k) = k" "op_OperationKind (new_operation b target k) = ApplyOperationKindWork"
  "op_State (new_operation b target k) = Apply_Pending"
  by (simp_all add: new_operation_def newPendingApplyOperation_def)

lemma build_task_simps [simp]:
  "tk_Namespace (build_task b n c sh) = tc_Namespace c" "tk_Shard (build_task b n c sh) = sh" "tk_TableName (build_task b n c sh) = tc_Table c"
  "tk_DDL (build_task b n c sh) = tc_DDL c" "tk_State (build_task b n c sh) = Task_Pending" "tk_PlanID (build_task b n c sh) = pn_ID (be_plan b)"
  "tk_TaskIdentifier (build_task b n c sh) = ''task-'' @ be_task_id b n"
  by (simp_all add: build_task_def buildApplyTask_def)

lemma final_group_Some [simp]: "\<not> final_group T (Some k, x)"
  by (simp add: final_group_def split_beta)

lemma identity_of_simp [simp]: "identity_of (k, ad, ts) = (op_Deployment ad, op_OperationKey ad)"
  by (simp add: identity_of_def)

lemma keyed_work_simps [simp]: "keyed_work [] = []" "keyed_work ((k, ad, ts) # gs) = map (work_of ad) ts @ keyed_work gs"
  by (simp_all add: keyed_work_def)

lemma keyed_work_append [simp]: "keyed_work (gs @ hs) = keyed_work gs @ keyed_work hs"
  by (simp add: keyed_work_def)

text \<open>The deployments are texts without NUL characters, and one deployment has one target.\<close>

definition plain_targets :: "ExecutionTarget set \<Rightarrow> bool" where
  "plain_targets T \<longleftrightarrow> (\<forall>t \<in> T. CHR 0x00 \<notin> set (et_Deployment t)) \<and> (\<forall>t \<in> T. \<forall>t' \<in> T. et_Deployment t = et_Deployment t' \<longrightarrow> et_Target t = et_Target t')"

lemma keyed_group_found:
  assumes sh: "groups_shape T gs" and pt: "plain_targets T" "target \<in> T" and g: "g \<in> set gs" "fst g = Some (group_key (et_Deployment target) k)"
  obtains xs ad ts ys where "gs = xs @ (Some (group_key (et_Deployment target) k), ad, ts) # ys" "op_Deployment ad = et_Deployment target"
    "op_Target ad = et_Target target" "op_OperationKey ad = k"
    "\<forall>h \<in> set xs \<union> set ys. fst h \<noteq> Some (group_key (et_Deployment target) k)"
proof -
  have own: "identity_of h = (et_Deployment target, k) \<and> op_Target (fst (snd h)) = et_Target target"
    if "h \<in> set gs" "fst h = Some (group_key (et_Deployment target) k)" for h
  proof -
    from sh that(1) have "work_group T h \<or> final_group T h" by (simp add: groups_shape_def)
    with that(2) have "work_group T h" by (auto simp: final_group_def)
    with that(2) obtain t where t: "t \<in> T" "op_Deployment (fst (snd h)) = et_Deployment t" "op_Target (fst (snd h)) = et_Target t"
      "group_key (op_Deployment (fst (snd h))) (op_OperationKey (fst (snd h))) = group_key (et_Deployment target) k"
      by (cases h) (auto simp: work_group_def)
    have "CHR 0x00 \<notin> set (op_Deployment (fst (snd h)))" "CHR 0x00 \<notin> set (et_Deployment target)"
      using pt t(1,2) by (auto simp: plain_targets_def)
    from group_key_inj [OF t(4) this] have "et_Deployment t = et_Deployment target" "op_OperationKey (fst (snd h)) = k" using t(2) by auto
    moreover have "et_Target t = et_Target target" using pt t(1) calculation(1) unfolding plain_targets_def by blast
    ultimately show ?thesis using t(2,3) by (simp add: identity_of_def)
  qed
  from g(1) obtain xs ys where s: "gs = xs @ g # ys" by (meson split_list)
  obtain ad ts where g': "g = (Some (group_key (et_Deployment target) k), ad, ts)" using g(2) by (cases g) auto
  have "fst h \<noteq> Some (group_key (et_Deployment target) k)" if "h \<in> set xs \<union> set ys" for h
  proof
    assume "fst h = Some (group_key (et_Deployment target) k)"
    with own [of h] own [OF g] that s have "identity_of h = identity_of g" by auto
    then have "identity_of g \<in> identity_of ` (set xs \<union> set ys)" using that by (metis imageI)
    with sh s show False by (auto simp: groups_shape_def)
  qed
  with own [OF g] s g' show thesis by (intro that [of xs ad ts ys]) (auto simp: identity_of_def)
qed

lemma add_shard_task_shape:
  assumes r: "add_shard_task b target c shard (n, gs) = Inr (n', gs')"
    and sh: "groups_shape T gs" and pt: "plain_targets T" "target \<in> T"
  shows "groups_shape T gs'" "mset (keyed_work gs') = add_mset (planned_work target (c, shard)) (mset (keyed_work gs))" "n' = n + 1"
    "filter (final_group T) gs' = filter (final_group T) gs"
proof -
  let ?k = "shardOperationKey (tc_Namespace c) (sp_Shard shard) (tc_Table c)" and ?t = "build_task b n c (sp_Shard shard)"
  let ?key = "Some (group_key (et_Deployment target) ?k)"
  have v: "validateShardOperationKeyParts (tc_Namespace c) (sp_Shard shard) (tc_Table c)" "length ?k \<le> applyOperationKeyMaxLen" and n': "n' = n + 1"
    and gs': "gs' = (if list_ex (\<lambda>g. fst g = ?key) gs then map (\<lambda>(k, ad, ts). if k = ?key then (k, ad, ts @ [?t]) else (k, ad, ts)) gs
        else gs @ [(?key, new_operation b target ?k, [?t])])"
    using r by (auto simp: add_shard_task_def group_key_def Let_def split: if_splits)
  show "n' = n + 1" by (fact n')
  have tk: "valid_task ?t" "task_key ?t = ?k" using v(1) by (simp_all add: valid_task_def task_key_def)
  show "groups_shape T gs'" "mset (keyed_work gs') = add_mset (planned_work target (c, shard)) (mset (keyed_work gs))"
    "filter (final_group T) gs' = filter (final_group T) gs"
  proof (atomize (full), cases "list_ex (\<lambda>g. fst g = ?key) gs")
    case True
    then obtain g where "g \<in> set gs" "fst g = ?key" by (auto simp: list_ex_iff)
    from keyed_group_found [OF sh pt this] obtain xs ad ts ys where s: "gs = xs @ (?key, ad, ts) # ys"
      and ad: "op_Deployment ad = et_Deployment target" "op_Target ad = et_Target target" "op_OperationKey ad = ?k"
      and others: "\<forall>h \<in> set xs \<union> set ys. fst h \<noteq> ?key" by metis
    have "map (\<lambda>(k, ad, ts). if k = ?key then (k, ad, ts @ [?t]) else (k, ad, ts)) zs = zs" if "set zs \<subseteq> set xs \<union> set ys" for zs
      using that others by (intro map_idI) force
    then have g': "gs' = xs @ (?key, ad, ts @ [?t]) # ys" using gs' True s by simp
    have "work_group T (?key, ad, ts)" using sh s by (auto simp: groups_shape_def final_group_def)
    then have "work_group T (?key, ad, ts @ [?t])" using ad tk by (auto simp: work_group_def)
    then show "groups_shape T gs' \<and> mset (keyed_work gs') = add_mset (planned_work target (c, shard)) (mset (keyed_work gs))
        \<and> filter (final_group T) gs' = filter (final_group T) gs"
      using sh s by (simp add: g' groups_shape_def work_of_def planned_work_def ad)
  next
    case False
    then have g': "gs' = gs @ [(?key, new_operation b target ?k, [?t])]" using gs' by simp
    have "identity_of h \<noteq> (et_Deployment target, ?k)" if h: "h \<in> set gs" for h
    proof
      assume i: "identity_of h = (et_Deployment target, ?k)"
      from sh h have "work_group T h \<or> final_group T h" by (simp add: groups_shape_def)
      then show False
      proof
        assume "work_group T h"
        with i have "fst h = ?key" by (auto simp: work_group_def identity_of_def split: prod.splits)
        with False h show False by (auto simp: list_ex_iff)
      next
        assume "final_group T h"
        with i key_not_finalizer [OF v(1)] show False by (fastforce simp: final_group_def identity_of_def split: prod.splits)
      qed
    qed
    moreover have "work_group T (?key, new_operation b target ?k, [?t])" using v pt tk by (auto simp: work_group_def)
    ultimately show "groups_shape T gs' \<and> mset (keyed_work gs') = add_mset (planned_work target (c, shard)) (mset (keyed_work gs))
        \<and> filter (final_group T) gs' = filter (final_group T) gs"
      using sh by (force simp: g' groups_shape_def work_of_def planned_work_def)
  qed
qed

lemma add_shard_tasks_shape:
  assumes "add_shard_tasks b target work (n, gs) = Inr (n', gs')" "groups_shape T gs" "plain_targets T" "target \<in> T"
  shows "groups_shape T gs' \<and> mset (keyed_work gs') = mset (map (planned_work target) work) + mset (keyed_work gs) \<and> n' = n + length work
    \<and> filter (final_group T) gs' = filter (final_group T) gs"
  using assms
proof (induction work arbitrary: n gs)
  case (Cons cs work)
  obtain c shard where cs: "cs = (c, shard)" by (cases cs)
  with Cons.prems(1) obtain n1 gs1 where a: "add_shard_task b target c shard (n, gs) = Inr (n1, gs1)" "add_shard_tasks b target work (n1, gs1) = Inr (n', gs')"
    by (auto simp: bind_result_Inr_iff)
  note one = add_shard_task_shape [OF a(1) Cons.prems(2-4)]
  from Cons.IH [OF a(2) one(1) Cons.prems(3,4)] one(2-4) cs show ?case by simp
qed simp

definition finalizer_group :: "build_env \<Rightarrow> ExecutionTarget \<Rightarrow> string \<Rightarrow> keyed_group" where
  "finalizer_group b target ns = (None, (new_operation b target (finalizerOperationKey ns))\<lparr>op_OperationKind := ApplyOperationKindGroupFinalizer\<rparr>, [])"

lemma add_finalizersD:
  "add_finalizers b target nss (n, gs) = Inr (n', gs') \<Longrightarrow> n' = n \<and> gs' = gs @ map (finalizer_group b target) nss
     \<and> (\<forall>ns \<in> set nss. validateOperationKeyPart ns \<and> length (finalizerOperationKey ns) \<le> applyOperationKeyMaxLen)"
proof (induction nss arbitrary: gs)
  case (Cons ns nss)
  have r: "validateOperationKeyPart ns" "\<not> length (finalizerOperationKey ns) > applyOperationKeyMaxLen"
    "add_finalizers b target nss (n, gs @ [finalizer_group b target ns]) = Inr (n', gs')"
    using Cons.prems unfolding finalizer_group_def by (simp_all split: if_splits)
  from Cons.IH [OF r(3)] r(1,2) show ?case by auto
qed simp

lemma finalizer_identity [simp]: "identity_of (finalizer_group b target ns) = (et_Deployment target, finalizerOperationKey ns)"
  by (simp add: finalizer_group_def)

lemma finalizer_final:
  "target \<in> T \<Longrightarrow> validateOperationKeyPart ns \<Longrightarrow> length (finalizerOperationKey ns) \<le> applyOperationKeyMaxLen \<Longrightarrow> final_group T (finalizer_group b target ns)"
  unfolding final_group_def finalizer_group_def by auto

lemma add_finalizers_shape:
  assumes "add_finalizers b target nss (n, gs) = Inr (n', gs')" "groups_shape T gs" "target \<in> T" "distinct nss"
    and fresh: "\<And>g. g \<in> set gs \<Longrightarrow> final_group T g \<Longrightarrow> fst (identity_of g) \<noteq> et_Deployment target"
  shows "groups_shape T gs'" "keyed_work gs' = keyed_work gs" "n' = n"
    "filter (final_group T) gs' = filter (final_group T) gs @ map (finalizer_group b target) nss"
proof -
  from add_finalizersD [OF assms(1)] have gs': "gs' = gs @ map (finalizer_group b target) nss" and n: "n' = n"
    and ok: "\<forall>ns \<in> set nss. validateOperationKeyPart ns \<and> length (finalizerOperationKey ns) \<le> applyOperationKeyMaxLen" by auto
  show "n' = n" by (fact n)
  have v: "validateOperationKeyPart ns" and fin: "final_group T (finalizer_group b target ns)" if "ns \<in> set nss" for ns
    using ok that finalizer_final [OF assms(3)] by auto
  have "identity_of g \<noteq> (et_Deployment target, finalizerOperationKey ns)" if g: "g \<in> set gs" "ns \<in> set nss" for g ns
  proof
    assume i: "identity_of g = (et_Deployment target, finalizerOperationKey ns)"
    from assms(2) g(1) fresh [OF g(1)] i have "work_group T g" by (auto simp: groups_shape_def)
    moreover obtain k ad ts where "g = (k, ad, ts)" by (cases g)
    ultimately have "valid_task (hd ts)" "snd (identity_of g) = task_key (hd ts)" by (simp_all add: work_group_def)
    with key_not_finalizer [OF _ v [OF g(2)]] i show False unfolding valid_task_def task_key_def by (metis snd_conv)
  qed
  moreover have "distinct (map (\<lambda>ns. (et_Deployment target, finalizerOperationKey ns)) nss)"
    using assms(4) by (auto simp: distinct_map inj_on_def finalizerOperationKey_def)
  ultimately show "groups_shape T gs'"
    using assms(2) fin by (force simp: gs' groups_shape_def comp_def)
  show "keyed_work gs' = keyed_work gs" by (simp add: gs' keyed_work_def finalizer_group_def comp_def)
  show "filter (final_group T) gs' = filter (final_group T) gs @ map (finalizer_group b target) nss"
    using fin by (auto simp: gs' filter_map comp_def intro!: map_cong filter_True)
qed

lemma add_targets_shape:
  assumes "add_targets b taskChanges targets (n, gs) = Inr (n', gs')" "groups_shape T gs" "plain_targets T" "set targets \<subseteq> T"
    "distinct (map et_Deployment targets)" "distinct (vschemaFinalizerNamespaces (be_plan b))"
    and fresh: "\<And>g. g \<in> set gs \<Longrightarrow> final_group T g \<Longrightarrow> fst (identity_of g) \<notin> et_Deployment ` set targets"
  shows "groups_shape T gs'
    \<and> mset (keyed_work gs') = mset (concat (map (\<lambda>t. map (planned_work t) (shard_work (be_plan b) taskChanges)) targets)) + mset (keyed_work gs)
    \<and> filter (final_group T) gs' = filter (final_group T) gs
        @ concat (map (\<lambda>t. map (finalizer_group b t) (vschemaFinalizerNamespaces (be_plan b))) targets)"
  using assms
proof (induction targets arbitrary: n gs)
  case (Cons t targets)
  let ?nss = "vschemaFinalizerNamespaces (be_plan b)"
  from Cons.prems(1) obtain n1 gs1 n2 gs2 where a: "add_shard_tasks b t (shard_work (be_plan b) taskChanges) (n, gs) = Inr (n1, gs1)"
    "add_finalizers b t ?nss (n1, gs1) = Inr (n2, gs2)" "add_targets b taskChanges targets (n2, gs2) = Inr (n', gs')"
    by (auto simp: bind_result_Inr_iff)
  have t: "t \<in> T" using Cons.prems(4) by simp
  from add_shard_tasks_shape [OF a(1) Cons.prems(2,3) t] have s1: "groups_shape T gs1"
    "mset (keyed_work gs1) = mset (map (planned_work t) (shard_work (be_plan b) taskChanges)) + mset (keyed_work gs)"
    "filter (final_group T) gs1 = filter (final_group T) gs" by auto
  have in1: "g \<in> set gs" if "g \<in> set gs1" "final_group T g" for g
  proof -
    from that have "g \<in> set (filter (final_group T) gs1)" by simp
    then show ?thesis unfolding s1(3) by simp
  qed
  have f1: "fst (identity_of g) \<noteq> et_Deployment t" if "g \<in> set gs1" "final_group T g" for g
    using Cons.prems(7) [OF in1 [OF that] that(2)] by simp
  note s2 = add_finalizers_shape [OF a(2) s1(1) t Cons.prems(6) f1]
  have in2: "g \<in> set gs \<or> fst (identity_of g) = et_Deployment t" if "g \<in> set gs2" "final_group T g" for g
  proof -
    have "set (filter (final_group T) gs2) = set (filter (final_group T) gs) \<union> finalizer_group b t ` set ?nss"
      by (simp only: s2(4) s1(3) set_append set_map)
    moreover have "g \<in> set (filter (final_group T) gs2)" using that by simp
    ultimately show ?thesis by auto
  qed
  have f2: "fst (identity_of g) \<notin> et_Deployment ` set targets" if "g \<in> set gs2" "final_group T g" for g
    using in2 [OF that] Cons.prems(7) [OF _ that(2)] Cons.prems(5) by auto
  from Cons.IH [OF a(3) s2(1) Cons.prems(3) _ _ Cons.prems(6) f2] Cons.prems(4,5) s1 s2
  show ?case by (simp add: ac_simps)
qed simp

text \<open>The operations of a list of groups with their tasks.\<close>

definition group_rows :: "ApplyOperationWithTasks option list \<Rightarrow> (ApplyOperation \<times> Task list) list" where
  "group_rows groups = concat (map (\<lambda>g. case g of None \<Rightarrow> [] | Some h \<Rightarrow> (case og_Operation h of None \<Rightarrow> []
     | Some ad \<Rightarrow> [(ad, concat (map (\<lambda>t. case t of None \<Rightarrow> [] | Some t' \<Rightarrow> [t']) (og_Tasks h)))])) groups)"

definition group_work :: "ApplyOperationWithTasks option list \<Rightarrow> work_item list" where
  "group_work groups = concat (map (\<lambda>(ad, ts). map (work_of ad) ts) (group_rows groups))"

definition group_identity :: "ApplyOperation \<times> Task list \<Rightarrow> string \<times> string" where
  "group_identity r = (op_Deployment (fst r), op_OperationKey (fst r))"

text \<open>All tasks of one operation change one table on one shard.\<close>

definition one_table :: "Task list \<Rightarrow> bool" where
  "one_table ts \<longleftrightarrow> list_all (\<lambda>t. list_all (\<lambda>t'. (tk_Namespace t, tk_Shard t, tk_TableName t) = (tk_Namespace t', tk_Shard t', tk_TableName t')) ts) ts"

lemma concat_somes: "concat (map (\<lambda>t. case t of None \<Rightarrow> [] | Some t' \<Rightarrow> [t']) (map Some ts)) = ts"
  by (induction ts) auto

lemma group_rows_keyed:
  "group_rows (map (\<lambda>(k, ad, ts). Some \<lparr>og_Operation = Some ad, og_Tasks = map Some ts, og_AllowTaskless = a\<rparr>) gs) = map snd gs"
  by (induction gs) (auto simp: group_rows_def concat_somes simp del: map_map)

lemma plain_targetsI:
  "distinct (map et_Deployment targets) \<Longrightarrow> list_all (\<lambda>t. CHR 0x00 \<notin> set (et_Deployment t)) targets \<Longrightarrow> plain_targets (set targets)"
  unfolding plain_targets_def list_all_iff by (metis distinct_map inj_on_def)

lemma distinct_finalizers: "distinct (map fst (pn_Namespaces plan)) \<Longrightarrow> distinct (vschemaFinalizerNamespaces plan)"
  by (simp add: vschemaFinalizerNamespaces_def distinct_map_filter)

lemma work_group_table:
  assumes "work_group T (k, ad, ts)"
  shows "one_table ts"
proof -
  have "tk_Namespace t = tk_Namespace t' \<and> tk_Shard t = tk_Shard t' \<and> tk_TableName t = tk_TableName t'" if "t \<in> set ts" "t' \<in> set ts" for t t'
  proof (rule key_parts_inj)
    from assms have *: "\<forall>t \<in> set ts. valid_task t \<and> op_OperationKey ad = task_key t" by (simp add: work_group_def)
    with that show "validateShardOperationKeyParts (tk_Namespace t) (tk_Shard t) (tk_TableName t)"
      "validateShardOperationKeyParts (tk_Namespace t') (tk_Shard t') (tk_TableName t')" by (simp_all add: valid_task_def)
    from * that have "task_key t = task_key t'" by metis
    then show "shardOperationKey (tk_Namespace t) (tk_Shard t) (tk_TableName t) = shardOperationKey (tk_Namespace t') (tk_Shard t') (tk_TableName t')"
      by (simp add: task_key_def)
  qed
  then show ?thesis unfolding one_table_def list_all_iff prod.inject by blast
qed

lemma sharded_groups_built:
  assumes "buildShardedApplyOperationGroups b taskChanges targets = Inr groups" "distinct (map et_Deployment targets)"
    "list_all (\<lambda>t. CHR 0x00 \<notin> set (et_Deployment t)) targets" "distinct (map fst (pn_Namespaces (be_plan b)))"
  obtains gs where "groups = map (\<lambda>(k, ad, ts). Some \<lparr>og_Operation = Some ad, og_Tasks = map Some ts, og_AllowTaskless = False\<rparr>) gs"
    "groups_shape (set targets) gs" "group_work groups = keyed_work gs"
    "mset (keyed_work gs) = mset (concat (map (\<lambda>t. map (planned_work t) (shard_work (be_plan b) taskChanges)) targets))"
    "filter (final_group (set targets)) gs = concat (map (\<lambda>t. map (finalizer_group b t) (vschemaFinalizerNamespaces (be_plan b))) targets)"
proof -
  from assms(1) obtain n gs where r: "add_targets b taskChanges targets (0, []) = Inr (n, gs)"
    and g: "groups = map (\<lambda>(k, ad, ts). Some \<lparr>og_Operation = Some ad, og_Tasks = map Some ts, og_AllowTaskless = False\<rparr>) gs"
    by (auto simp: buildShardedApplyOperationGroups_def bind_result_Inr_iff)
  have w: "group_work groups = keyed_work gs" unfolding group_work_def g group_rows_keyed by (induction gs) auto
  have "groups_shape (set targets) []" by (simp add: groups_shape_def)
  from add_targets_shape [OF r this plain_targetsI [OF assms(2,3)] _ assms(2) distinct_finalizers [OF assms(4)]]
  show thesis by (intro that [OF g _ w]) auto
qed

text \<open>
 The sharded work of a plan is split without loss or overlap: the operations together hold exactly one task per target, statement and shard that needs
  the change; no two operations have the same deployment and key; the tasks of an operation all change one table on one shard; and every target
  gets exactly one finaliser for each namespace with a new VSchema.
\<close>

theorem sharded_groups_partition:
  assumes "buildShardedApplyOperationGroups b taskChanges targets = Inr groups" "distinct (map et_Deployment targets)"
    "list_all (\<lambda>t. CHR 0x00 \<notin> set (et_Deployment t)) targets" "distinct (map fst (pn_Namespaces (be_plan b)))"
  shows "mset (group_work groups) = mset (concat (map (\<lambda>t. map (planned_work t) (shard_work (be_plan b) taskChanges)) targets))
    \<and> distinct (map group_identity (group_rows groups)) \<and> list_all (\<lambda>(ad, ts). one_table ts) (group_rows groups)
    \<and> map group_identity (filter (\<lambda>(ad, ts). ts = []) (group_rows groups))
        = concat (map (\<lambda>t. map (\<lambda>ns. (et_Deployment t, finalizerOperationKey ns)) (vschemaFinalizerNamespaces (be_plan b))) targets)"
proof -
  let ?T = "set targets"
  from sharded_groups_built [OF assms] obtain gs
    where g: "groups = map (\<lambda>(k, ad, ts). Some \<lparr>og_Operation = Some ad, og_Tasks = map Some ts, og_AllowTaskless = False\<rparr>) gs"
      and sh: "groups_shape ?T gs" and kw: "group_work groups = keyed_work gs"
      and w: "mset (keyed_work gs) = mset (concat (map (\<lambda>t. map (planned_work t) (shard_work (be_plan b) taskChanges)) targets))"
      and f: "filter (final_group ?T) gs = concat (map (\<lambda>t. map (finalizer_group b t) (vschemaFinalizerNamespaces (be_plan b))) targets)" by blast
  have rows: "group_rows groups = map snd gs" by (simp only: g group_rows_keyed)
  note kw
  moreover have ident: "map group_identity (map snd zs) = map identity_of zs" for zs by (simp add: group_identity_def identity_of_def)
  moreover have "list_all (\<lambda>(ad, ts). one_table ts) (group_rows groups)"
    using sh unfolding rows list_all_iff groups_shape_def
    by (auto simp: final_group_def one_table_def [of "[]"] dest: work_group_table)
  moreover have "filter (\<lambda>(ad, ts). ts = []) (map snd gs) = map snd (filter (final_group ?T) gs)"
  proof -
    have "(case snd g of (ad, ts) \<Rightarrow> ts = []) = final_group ?T g" if "g \<in> set gs" for g
      using sh that by (cases g) (auto simp: groups_shape_def work_group_def final_group_def)
    then show ?thesis by (simp add: filter_map comp_def cong: filter_cong)
  qed
  ultimately show ?thesis using sh w unfolding groups_shape_def
    by (simp add: rows f map_concat comp_def group_identity_def identity_of_def [abs_def] finalizer_group_def)
qed

definition two_targets :: "ExecutionTarget list" where
  "two_targets = [\<lparr>et_DatabaseType = ''vitess'', et_Deployment = ''eu'', et_Target = ''orders-eu''\<rparr>, \<lparr>et_DatabaseType = ''vitess'', et_Deployment = ''us'', et_Target = ''orders-us''\<rparr>]"

definition sample_build :: "string list \<Rightarrow> build_env" where
  "sample_build tables = \<lparr>be_plan = sharded_plan tables, be_environment = ''staging'', be_options = emptyApplyOptions, be_cutoverPolicy = CutoverPolicyRolling,
     be_onFailure = OnFailureHalt, be_now = 100, be_task_id = itoa_nat\<rparr>"

definition sample_changes :: "string list \<Rightarrow> TableChange list" where
  "sample_changes tables = map (\<lambda>t. (sample_change t)\<lparr>tc_Namespace := ''commerce''\<rparr>) tables"

theorem sharded_groups_partition_witness:
  "length (group_work (projr (buildShardedApplyOperationGroups (sample_build [''users'', ''items'']) (sample_changes [''users'', ''items'']) two_targets))) = 8"
proof -
  let ?b = "sample_build [''users'', ''items'']" and ?cs = "sample_changes [''users'', ''items'']"
  let ?r = "buildShardedApplyOperationGroups ?b ?cs two_targets"
  have r: "?r = Inr (projr ?r)" by code_simp
  have d: "distinct (map et_Deployment two_targets)" "list_all (\<lambda>t. CHR 0x00 \<notin> set (et_Deployment t)) two_targets"
    "distinct (map fst (pn_Namespaces (be_plan ?b)))" by (code_simp, code_simp, code_simp)
  have "size (mset (concat (map (\<lambda>t. map (planned_work t) (shard_work (be_plan ?b) ?cs)) two_targets))) = 8" by code_simp
  with sharded_groups_partition [OF r d] show ?thesis by (metis size_mset)
qed

subsection \<open>The rows written\<close>

lemma insertApplyOperation_row:
  assumes "insertApplyOperation now ad d = Inr (ad', d')"
  obtains r where "db_operations d' = db_operations d @ [r]" "db_tasks d' = db_tasks d" "op_ID r = op_ID ad'" "op_ApplyID r = op_ApplyID ad"
    "op_Deployment r = op_Deployment ad" "op_OperationKey r = op_OperationKey ad" "op_Target r = op_Target ad"
  using assms by (auto simp: insertApplyOperation_def Let_def split: if_splits)

definition task_core :: "Task \<Rightarrow> string \<times> string \<times> string \<times> string \<times> string" where
  "task_core t = (tk_Namespace t, tk_Shard t, tk_TableName t, tk_DDL t, tk_State t)"

lemma same_cores:
  assumes "map task_core new = map task_core ts" "op_Deployment r = op_Deployment ad" "op_Target r = op_Target ad"
  shows "map (work_of r) new = map (work_of ad) ts" "(\<forall>t \<in> set ts. tk_State t = s) \<Longrightarrow> \<forall>t \<in> set new. tk_State t = s"
proof -
  let ?g = "\<lambda>(ns, sh, tb, ddl, st). (op_Deployment ad, op_Target ad, ns, sh, tb, ddl)" and ?h = "\<lambda>(ns, sh, tb, ddl, st). st"
  have g: "work_of r t = ?g (task_core t)" "work_of ad t = ?g (task_core t)" "tk_State t = ?h (task_core t)" for t
    using assms(2,3) by (simp_all add: work_of_def task_core_def)
  have "map (work_of r) new = map ?g (map task_core new)" unfolding map_map comp_def by (rule map_cong [OF refl]) (rule g)
  also have "\<dots> = map ?g (map task_core ts)" by (simp only: assms(1))
  also have "\<dots> = map (work_of ad) ts" unfolding map_map comp_def by (rule map_cong [OF refl]) (rule g(2) [symmetric])
  finally show "map (work_of r) new = map (work_of ad) ts" .
  have "map tk_State new = map ?h (map task_core new)" unfolding map_map comp_def by (rule map_cong [OF refl]) (rule g)
  also have "\<dots> = map ?h (map task_core ts)" by (simp only: assms(1))
  also have "\<dots> = map tk_State ts" unfolding map_map comp_def by (rule map_cong [OF refl]) (rule g(3) [symmetric])
  finally have "set (map tk_State new) = set (map tk_State ts)" by (rule arg_cong)
  then show "(\<forall>t \<in> set ts. tk_State t = s) \<Longrightarrow> \<forall>t \<in> set new. tk_State t = s" by force
qed

lemma insert_group_tasks_rows:
  assumes "insert_group_tasks now i opID (map Some ts) d = Inr d'"
  shows "db_operations d' = db_operations d \<and> (\<exists>new. db_tasks d' = db_tasks d @ new \<and> map task_core new
      = map task_core ts \<and> (\<forall>t \<in> set new. tk_ApplyID t = i \<and> tk_ApplyOperationID t = Some opID))"
  using assms
proof (induction ts arbitrary: d)
  case (Cons t ts)
  then obtain j d1 where ins: "insertTask now (t\<lparr>tk_ApplyID := i, tk_ApplyOperationID := Some opID\<rparr>) d = Inr (j, d1)"
    "insert_group_tasks now i opID (map Some ts) d1 = Inr d'" by (auto simp: bind_result_Inr_iff)
  from ins(1) obtain row where row: "db_operations d1 = db_operations d" "db_tasks d1 = db_tasks d @ [row]" "tk_ApplyID row = i" "tk_ApplyOperationID row = Some opID"
    "task_core row = task_core t"
    by (auto simp: insertTask_def Let_def task_core_def split: if_splits)
  from Cons.IH [OF ins(2)] obtain new where new: "db_operations d' = db_operations d1" "db_tasks d' = db_tasks d1 @ new"
    "map task_core new = map task_core ts"
    "\<forall>t \<in> set new. tk_ApplyID t = i \<and> tk_ApplyOperationID t = Some opID" by blast
  with row show ?case by (auto intro!: exI [of _ "row # new"])
qed simp

text \<open>The rows of an apply: operations and tasks paired as they are linked.\<close>

definition linked_rows :: "int \<Rightarrow> db \<Rightarrow> (ApplyOperation \<times> Task) list \<Rightarrow> bool" where
  "linked_rows i d rows \<longleftrightarrow> (\<forall>(r, t) \<in> set rows. r \<in> set (db_operations d) \<and> op_ApplyID r = i \<and> tk_ApplyID t = i \<and> tk_ApplyOperationID t = Some (op_ID r)
     \<and> tk_State t = Task_Pending)"

definition pending_groups :: "ApplyOperationWithTasks option list \<Rightarrow> bool" where
  "pending_groups groups \<longleftrightarrow> (\<forall>g \<in> set groups. \<exists>ad ts a. g = Some \<lparr>og_Operation = Some ad, og_Tasks = map Some ts, og_AllowTaskless = a\<rparr>
     \<and> (\<forall>t \<in> set ts. tk_State t = Task_Pending))"

lemma insert_group_rows:
  assumes "insert_group now i (Some \<lparr>og_Operation = Some ad, og_Tasks = map Some ts, og_AllowTaskless = a\<rparr>) d = Inr d'" "\<forall>t \<in> set ts. tk_State t = Task_Pending"
  shows "\<exists>r rows. db_operations d' = db_operations d @ [r] \<and> db_tasks d' = db_tasks d @ map snd rows
    \<and> map (\<lambda>(r, t). work_of r t) rows = map (work_of ad) ts \<and> linked_rows i d' rows"
proof -
  from assms(1) obtain ad1 d1 where ins: "insertApplyOperation now (ad\<lparr>op_ApplyID := i\<rparr>) d = Inr (ad1, d1)"
    "insert_group_tasks now i (op_ID ad1) (map Some ts) d1 = Inr d'" by (auto simp: insert_group_def bind_result_Inr_iff split: if_splits)
  from insertApplyOperation_row [OF ins(1)] obtain r where r: "db_operations d1 = db_operations d @ [r]" "db_tasks d1 = db_tasks d" "op_ID r = op_ID ad1"
    "op_ApplyID r = i" "op_Deployment r = op_Deployment ad" "op_Target r = op_Target ad" by auto
  from insert_group_tasks_rows [OF ins(2)] obtain new where new: "db_operations d' = db_operations d1" "db_tasks d' = db_tasks d1 @ new"
    "map task_core new = map task_core ts"
    "\<forall>t \<in> set new. tk_ApplyID t = i \<and> tk_ApplyOperationID t = Some (op_ID ad1)" by blast
  have "map (work_of r) new = map (work_of ad) ts" "\<forall>t \<in> set new. tk_State t = Task_Pending"
    using same_cores [OF new(3) r(5,6)] assms(2) by auto
  with r new show ?thesis
    by (intro exI [of _ r] exI [of _ "map (Pair r) new"]) (auto simp: linked_rows_def comp_def)
qed

lemma linked_rows_mono: "linked_rows i d rows \<Longrightarrow> set (db_operations d) \<subseteq> set (db_operations d') \<Longrightarrow> linked_rows i d' rows"
  by (auto simp: linked_rows_def)

lemma insert_groups_rows:
  "insert_groups now i gs d = Inr d' \<Longrightarrow> pending_groups gs \<Longrightarrow> \<exists>rows. set (db_operations d) \<subseteq> set (db_operations d') \<and> db_tasks d' = db_tasks d @ map snd rows
     \<and> map (\<lambda>(r, t). work_of r t) rows = group_work gs \<and> linked_rows i d' rows"
proof (induction gs arbitrary: d)
  case (Cons g gs)
  from Cons.prems obtain d1 where d1: "insert_group now i g d = Inr d1" "insert_groups now i gs d1 = Inr d'" by (auto simp: bind_result_Inr_iff)
  from Cons.prems(2) obtain ad ts a where g: "g = Some \<lparr>og_Operation = Some ad, og_Tasks = map Some ts, og_AllowTaskless = a\<rparr>"
    "\<forall>t \<in> set ts. tk_State t = Task_Pending" and rest: "pending_groups gs" by (auto simp: pending_groups_def)
  from insert_group_rows [OF d1(1) [unfolded g(1)] g(2)] obtain r rows where r: "db_operations d1 = db_operations d @ [r]" "db_tasks d1 = db_tasks d @ map snd rows"
    "map (\<lambda>(r, t). work_of r t) rows = map (work_of ad) ts" "linked_rows i d1 rows" by blast
  from Cons.IH [OF d1(2) rest] obtain rows' where r': "set (db_operations d1) \<subseteq> set (db_operations d')" "db_tasks d' = db_tasks d1 @ map snd rows'"
    "map (\<lambda>(r, t). work_of r t) rows' = group_work gs" "linked_rows i d' rows'" by blast
  have "group_work (g # gs) = map (work_of ad) ts @ group_work gs"
    by (simp add: g(1) group_work_def group_rows_def concat_somes del: map_map)
  with r r' linked_rows_mono [OF r(4) r'(1)] show ?case
    by (intro exI [of _ "rows @ rows'"]) (auto simp: linked_rows_def)
qed (simp add: group_work_def group_rows_def linked_rows_def)

lemma sharded_groups_pending:
  assumes "buildShardedApplyOperationGroups b taskChanges targets = Inr groups" "distinct (map et_Deployment targets)"
    "list_all (\<lambda>t. CHR 0x00 \<notin> set (et_Deployment t)) targets" "distinct (map fst (pn_Namespaces (be_plan b)))"
  shows "pending_groups groups" "mset (group_work groups) = mset (concat (map (\<lambda>t. map (planned_work t) (shard_work (be_plan b) taskChanges)) targets))"
proof -
  from sharded_groups_built [OF assms] obtain gs
    where g: "groups = map (\<lambda>(k, ad, ts). Some \<lparr>og_Operation = Some ad, og_Tasks = map Some ts, og_AllowTaskless = False\<rparr>) gs"
      and sh: "groups_shape (set targets) gs" and kw: "group_work groups = keyed_work gs"
        "mset (keyed_work gs) = mset (concat (map (\<lambda>t. map (planned_work t) (shard_work (be_plan b) taskChanges)) targets))" by blast
  then show "mset (group_work groups) = mset (concat (map (\<lambda>t. map (planned_work t) (shard_work (be_plan b) taskChanges)) targets))" by simp
  have "\<forall>t \<in> set ts. tk_State t = Task_Pending" if "(k, ad, ts) \<in> set gs" for k ad ts
  proof -
    from sh that have "work_group (set targets) (k, ad, ts) \<or> final_group (set targets) (k, ad, ts)" unfolding groups_shape_def by blast
    then show ?thesis by (elim disjE) (simp_all add: work_group_def final_group_def valid_task_def)
  qed
  moreover have "\<exists>k ad ts. (k, ad, ts) \<in> set gs \<and> h = Some \<lparr>og_Operation = Some ad, og_Tasks = map Some ts, og_AllowTaskless = False\<rparr>"
    if "h \<in> set groups" for h using that unfolding g by auto
  ultimately show "pending_groups groups" unfolding pending_groups_def by metis
qed

definition no_shard :: ShardPlan where
  "no_shard = \<lparr>sp_Shard = [], sp_Namespace = [], sp_NeedsChange = False\<rparr>"

lemma somes_map: "map (\<lambda>(i, c). Some (f i c)) xs = map Some (map (\<lambda>(i, c). f i c) xs)"
  by (induction xs) auto

lemma target_groups_work:
  "group_work (target_groups b taskChanges a k targets) = concat (map (\<lambda>t. map (planned_work t) (map (\<lambda>c. (c, no_shard)) taskChanges)) targets)"
proof (induction targets arbitrary: k)
  case (Cons t targets)
  have one: "map (work_of (new_operation b t [])) (map (\<lambda>(i, c). build_task b (k + i) c []) (enumerate j cs)) = map (planned_work t) (map (\<lambda>c. (c, no_shard)) cs)" for j cs
    by (induction cs arbitrary: j) (auto simp: work_of_def planned_work_def no_shard_def)
  show ?case
    using Cons.IH by (simp add: group_work_def group_rows_def somes_map concat_somes one del: map_map)
qed (simp add: group_work_def group_rows_def)

lemma target_groups_pending: "pending_groups (target_groups b taskChanges a k targets)"
proof (induction targets arbitrary: k)
  case (Cons t targets)
  have "\<forall>t \<in> set (map (\<lambda>(i, c). build_task b (k + i) c []) (enumerate 0 taskChanges)). tk_State t = Task_Pending" by auto
  with Cons.IH show ?case unfolding pending_groups_def target_groups.simps somes_map by (auto simp del: map_map)
qed (simp add: pending_groups_def)

text \<open>The work a plan asks for: every statement on every target, once per changing shard where the work is sharded.\<close>

definition expected_work :: "bool \<Rightarrow> Plan \<Rightarrow> TableChange list \<Rightarrow> ExecutionTarget list \<Rightarrow> work_item list" where
  "expected_work sharded plan taskChanges targets = concat (map (\<lambda>t. map (planned_work t)
     (if sharded then shard_work plan taskChanges else map (\<lambda>c. (c, no_shard)) taskChanges)) targets)"

lemma groups_expected:
  assumes "buildApplyOperationGroups b taskChanges targets fanout = Inr (groups, sharded)" "distinct (map et_Deployment targets)"
    "list_all (\<lambda>t. CHR 0x00 \<notin> set (et_Deployment t)) targets" "distinct (map fst (pn_Namespaces (be_plan b)))"
  shows "pending_groups groups" "mset (group_work groups) = mset (expected_work sharded (be_plan b) taskChanges targets)"
    "sharded = (fanout \<and> canBuildShardedOperationGroups (be_plan b) taskChanges)"
proof -
  have "pending_groups groups \<and> mset (group_work groups) = mset (expected_work sharded (be_plan b) taskChanges targets)
    \<and> sharded = (fanout \<and> canBuildShardedOperationGroups (be_plan b) taskChanges)"
  proof (cases "fanout \<and> canBuildShardedOperationGroups (be_plan b) taskChanges")
    case True
    with assms(1) have "buildShardedApplyOperationGroups b taskChanges targets = Inr groups" "sharded"
      by (auto simp: buildApplyOperationGroups_def bind_result_Inr_iff)
    with sharded_groups_pending [OF _ assms(2-4)] True show ?thesis by (simp add: expected_work_def)
  next
    case False
    with assms(1) show ?thesis
      by (auto simp: buildApplyOperationGroups_def expected_work_def target_groups_work target_groups_pending)
  qed
  then show "pending_groups groups" "mset (group_work groups) = mset (expected_work sharded (be_plan b) taskChanges targets)"
    "sharded = (fanout \<and> canBuildShardedOperationGroups (be_plan b) taskChanges)" by auto
qed

definition request_options :: "Plan \<Rightarrow> ApplyRequest \<Rightarrow> ApplyOptions" where
  "request_options plan req = ApplyOptionsFromMap ((map_of (arq_Options req))(''target'' \<mapsto> pn_Target plan))"

lemma createStoredApply_InrD:
  assumes "createStoredApply oth e plan req options fanout w = (Inr i, w')"
  obtains taskChanges groups sharded d1 lockID where "FlatDDLChanges (pn_Namespaces plan) = Some taskChanges"
    "buildApplyOperationGroups (apply_build e plan req (ApplyOptionsFromMap options)) taskChanges (apply_target_list (se_config e) plan (arq_Environment req)) fanout
       = Inr (groups, sharded)"
    "CreateWithGroupedOperations (se_now e) (queued_apply e plan req (ApplyOptionsFromMap options) lockID
       (et_Deployment (hd (apply_target_list (se_config e) plan (arq_Environment req))))) groups (sw_db (oth 2 (oth 1 w))) = Inr (i, d1)"
    "sw_db w' = sw_db (oth 3 ((oth 2 (oth 1 w))\<lparr>sw_db := d1\<rparr>))"
  using assms unfolding createStoredApply_def Let_def
  by (auto simp: append_log_def split: option.splits sum.splits prod.splits)

lemma queueValidatedApply_InrD:
  assumes "queueValidatedApply oth e plan req w = (Inr (identifier, i), w')"
  obtains client w1 where "se_TernClient e (pn_Deployment plan) (arq_Environment req) = Inr client"
    "createStoredApply oth e plan req ((map_of (arq_Options req))(''target'' \<mapsto> pn_Target plan)) (tcl_ShardedFanout client) w = (Inr i, w1)"
    "0 < i" "sw_db w' = sw_db w1"
proof -
  have "sw_db (attachObserver plan req i v) = sw_db v" for v by (simp add: attachObserver_def Let_def split: option.split)
  with assms that show thesis
    by (auto simp: queueValidatedApply_def Let_def split: sum.splits prod.splits if_splits)
qed

lemma ExecuteApply_InrD:
  assumes "ExecuteApply oth e req w = (Inr (identifier, i), w')"
  obtains plan where "loadPlanForApply req (sw_plans (oth 0 w)) = Inr plan" "authorizeStoredPlanSource (se_config e) plan = None"
    "queueValidatedApply oth e plan req (oth 0 w) = (Inr (identifier, i), w')"
  using assms by (auto simp: ExecuteApply_def Let_def split: sum.splits option.splits)

lemma CreateWithGroupedOperations_rows:
  assumes "CreateWithGroupedOperations now apply groups d = Inr (i, d')" "pending_groups groups"
  shows "\<exists>rows. db_tasks d' = db_tasks d @ map snd rows \<and> map (\<lambda>(r, t). work_of r t) rows = group_work groups \<and> linked_rows i d' rows
    \<and> db_applies d' = db_applies d @ [new_apply_row now i apply]"
proof -
  from assms(1) obtain d1 where ins: "insert_apply now apply d = Inr (i, d1)" "insert_groups now i groups d1 = Inr d'"
    by (auto simp: CreateWithGroupedOperations_def createWithRows_def insertApplyGroupedOperations_def Let_def bind_result_Inr_iff split: if_splits)
  from ins(1) have d1: "db_tasks d1 = db_tasks d" "db_applies d1 = db_applies d @ [new_apply_row now i apply]"
    by (auto simp: insert_apply_def Let_def split: if_splits)
  moreover have "db_applies d' = db_applies d1" using insert_groups_added [OF ins(2)] by (simp add: rows_added_def)
  ultimately show ?thesis using insert_groups_rows [OF ins(2) assms(2)] by auto
qed

text \<open>
  (C28) What is queued is the plan: when a request to apply is accepted, the stored plan was made for the requested environment and its source is authorised, and
  one transaction has written a pending apply of that plan and, linked to operations of that apply, exactly the tasks the plan asks for - every
  statement on every target, once per shard that needs it where the data plane fans out over shards - whatever other callers did before and after.
\<close>

theorem queued_work_is_the_plan:
  assumes "ExecuteApply oth e req w = (Inr (identifier, i), w')" "pl_Get (arq_PlanID req) (sw_plans (oth 0 w)) = Some plan"
    and "distinct (map et_Deployment (apply_target_list (se_config e) plan (arq_Environment req)))"
      "list_all (\<lambda>t. CHR 0x00 \<notin> set (et_Deployment t)) (apply_target_list (se_config e) plan (arq_Environment req))"
      "distinct (map fst (pn_Namespaces plan))"
  shows "pn_Environment plan = arq_Environment req \<and> authorizeStoredPlanSource (se_config e) plan = None
    \<and> (\<exists>client taskChanges sharded d1 rows a. se_TernClient e (pn_Deployment plan) (arq_Environment req) = Inr client
      \<and> FlatDDLChanges (pn_Namespaces plan) = Some taskChanges \<and> sharded = (tcl_ShardedFanout client \<and> canBuildShardedOperationGroups plan taskChanges)
      \<and> db_tasks d1 = db_tasks (sw_db (oth 2 (oth 1 (oth 0 w)))) @ map snd rows \<and> linked_rows i d1 rows
      \<and> mset (map (\<lambda>(r, t). work_of r t) rows) = mset (expected_work sharded plan taskChanges (apply_target_list (se_config e) plan (arq_Environment req)))
      \<and> db_applies d1 = db_applies (sw_db (oth 2 (oth 1 (oth 0 w)))) @ [a] \<and> ap_ID a = i \<and> ap_PlanID a = pn_ID plan \<and> ap_State a = Apply_Pending
      \<and> ap_Environment a = arq_Environment req \<and> sw_db w' = sw_db (oth 3 ((oth 2 (oth 1 (oth 0 w)))\<lparr>sw_db := d1\<rparr>)))"
proof -
  let ?ts = "apply_target_list (se_config e) plan (arq_Environment req)" and ?d0 = "sw_db (oth 2 (oth 1 (oth 0 w)))"
  from ExecuteApply_InrD [OF assms(1)] obtain plan' where l: "loadPlanForApply req (sw_plans (oth 0 w)) = Inr plan'"
    "authorizeStoredPlanSource (se_config e) plan' = None" "queueValidatedApply oth e plan' req (oth 0 w) = (Inr (identifier, i), w')" .
  from l(1) assms(2) have p: "plan' = plan" "pn_Environment plan = arq_Environment req" by (auto simp: loadPlanForApply_def split: if_splits)
  from queueValidatedApply_InrD [OF l(3) [unfolded p(1)]] obtain client w1 where cl: "se_TernClient e (pn_Deployment plan) (arq_Environment req) = Inr client"
    and cs: "createStoredApply oth e plan req ((map_of (arq_Options req))(''target'' \<mapsto> pn_Target plan)) (tcl_ShardedFanout client) (oth 0 w) = (Inr i, w1)"
    and w1: "sw_db w' = sw_db w1" .
  from createStoredApply_InrD [OF cs, folded request_options_def] obtain taskChanges groups sharded d1 lockID where flat: "FlatDDLChanges (pn_Namespaces plan) = Some taskChanges"
    and b: "buildApplyOperationGroups (apply_build e plan req (request_options plan req)) taskChanges ?ts (tcl_ShardedFanout client) = Inr (groups, sharded)"
    and c: "CreateWithGroupedOperations (se_now e) (queued_apply e plan req (request_options plan req) lockID (et_Deployment (hd ?ts))) groups ?d0 = Inr (i, d1)"
    and w': "sw_db w1 = sw_db (oth 3 ((oth 2 (oth 1 (oth 0 w)))\<lparr>sw_db := d1\<rparr>))" .
  have bp: "be_plan (apply_build e plan req (request_options plan req)) = plan" by (simp add: apply_build_def)
  note exp = groups_expected [OF b assms(3,4), unfolded bp, OF assms(5)]
  let ?a = "new_apply_row (se_now e) i (queued_apply e plan req (request_options plan req) lockID (et_Deployment (hd ?ts)))"
  from CreateWithGroupedOperations_rows [OF c exp(1)] obtain rows where rows: "db_tasks d1 = db_tasks ?d0 @ map snd rows"
    "map (\<lambda>(r, t). work_of r t) rows = group_work groups" "linked_rows i d1 rows" "db_applies d1 = db_applies ?d0 @ [?a]" by blast
  have a: "ap_ID ?a = i" "ap_PlanID ?a = pn_ID plan" "ap_State ?a = Apply_Pending" "ap_Environment ?a = arq_Environment req"
    by (simp_all add: new_apply_row_def queued_apply_def)
  have "mset (map (\<lambda>(r, t). work_of r t) rows) = mset (expected_work sharded plan taskChanges ?ts)" using rows(2) exp(2) by simp
  with p(2) l(2) [unfolded p(1)] cl flat exp(3) rows(1,3,4) a w' w1 show ?thesis
    by (intro conjI exI [of _ client] exI [of _ taskChanges] exI [of _ sharded] exI [of _ d1] exI [of _ rows] exI [of _ ?a]) simp_all
qed

definition sample_service :: service_env where
  "sample_service = \<lparr>se_config = validated_sample, se_TernClient = (\<lambda>_ _. Inr sample_client), se_now = 100, se_apply_id = ''a1'', se_task_id = itoa_nat\<rparr>"

definition sample_service_world :: "string list \<Rightarrow> service_world" where
  "sample_service_world tables = \<lparr>sw_db = empty_db, sw_plans = snd (projr (pl_Create (sharded_plan tables) no_plans)), sw_locks = \<lparr>db_locks = [], next_lock_id = 1\<rparr>,
     sw_log = [], sw_pending_observers = [], sw_observers = []\<rparr>"

definition sample_apply_request :: ApplyRequest where
  "sample_apply_request = \<lparr>arq_PlanID = ''plan-1'', arq_Environment = ''staging'', arq_Options = [], arq_Caller = ''cli'', arq_InstallationID = 0\<rparr>"

definition stored_sample :: "string list \<Rightarrow> Plan" where
  "stored_sample tables = scanPlanInto (stored_plan 1 (sharded_plan tables))"

theorem queued_work_is_the_plan_witness:
  "\<exists>d1 rows. db_tasks d1 = map snd rows \<and> linked_rows 1 d1 rows \<and> length rows = 4
     \<and> sw_db (snd (ExecuteApply (\<lambda>_. id) sample_service sample_apply_request (sample_service_world [''users'']))) = d1"
proof -
  let ?w = "sample_service_world [''users'']" and ?p = "stored_sample [''users'']"
  let ?r = "ExecuteApply (\<lambda>_. id) sample_service sample_apply_request ?w"
  let ?ts = "apply_target_list (se_config sample_service) ?p (arq_Environment sample_apply_request)"
  have "fst ?r = Inr (''apply-a1'', 1)" by code_simp
  then have r: "?r = (Inr (''apply-a1'', 1), snd ?r)" by (metis prod.collapse)
  have p: "pl_Get (arq_PlanID sample_apply_request) (sw_plans (id ?w)) = Some ?p" by code_simp
  have t: "distinct (map et_Deployment ?ts)" "list_all (\<lambda>t. CHR 0x00 \<notin> set (et_Deployment t)) ?ts" "distinct (map fst (pn_Namespaces ?p))"
    by (code_simp, code_simp, code_simp)
  have c: "se_TernClient sample_service (pn_Deployment ?p) (arq_Environment sample_apply_request) = Inr sample_client" by (simp add: sample_service_def)
  have f: "FlatDDLChanges (pn_Namespaces ?p) = Some (sample_changes [''users''])" by code_simp
  have s: "tcl_ShardedFanout sample_client" "canBuildShardedOperationGroups ?p (sample_changes [''users''])" by (code_simp, code_simp)
  have n: "size (mset (expected_work True ?p (sample_changes [''users'']) ?ts)) = 4" by code_simp
  have e: "db_tasks (sw_db ?w) = []" by code_simp
  have "\<exists>d1 rows. db_tasks d1 = db_tasks (sw_db ?w) @ map snd rows \<and> linked_rows 1 d1 rows
      \<and> mset (map (\<lambda>(r, t). work_of r t) rows) = mset (expected_work True ?p (sample_changes [''users'']) ?ts) \<and> sw_db (snd ?r) = d1"
    using queued_work_is_the_plan [where oth = "\<lambda>_. id", OF r p t] c f s by auto
  then obtain d1 rows where "db_tasks d1 = map snd rows" "linked_rows 1 d1 rows" "sw_db (snd ?r) = d1"
    and m: "mset (map (\<lambda>(r, t). work_of r t) rows) = mset (expected_work True ?p (sample_changes [''users'']) ?ts)" unfolding e by auto
  moreover have "length rows = 4" using n [folded m] by (simp only: size_mset length_map)
  ultimately show ?thesis by blast
qed

subsection \<open>Targets stay exclusive\<close>

definition targets_ok :: "db \<Rightarrow> bool" where
  "targets_ok d \<longleftrightarrow> one_active d \<and> wf_refs d \<and> wf_applies d"

lemma create_keeps_targets_ok:
  assumes "CreateWithGroupedOperations now apply groups d = Inr (i, d')" "targets_ok d" "ap_State apply \<in> set Apply_states"
  shows "targets_ok d'"
proof -
  note cr = assms(1) [unfolded CreateWithGroupedOperations_def]
  from cgroups.createD [OF cr] obtain new where n: "i = next_apply_id d" "db_applies d' = db_applies d @ [new_apply_row now i apply]"
    "next_apply_id d' = i + 1" "db_operations d' = db_operations d @ new" "\<And>r. r \<in> set new \<Longrightarrow> op_ApplyID r = i" by metis
  from assms(2) have wf: "wf_refs d" "wf_applies d" and one: "one_active d" by (auto simp: targets_ok_def)
  have "wf_refs d'" using wf(1) n(1,3-5) by (force simp: wf_refs_def list_all_iff)
  moreover from cr have "\<not> list_ex (\<lambda>a. sql_eq (ap_ApplyIdentifier a) (ap_ApplyIdentifier apply)) (db_applies d)"
    by (auto simp: createWithRows_def insert_apply_def new_apply_row_def Let_def bind_result_Inr_iff list_ex_iff split: if_splits)
  then have "to_lower (ap_ApplyIdentifier apply) \<notin> (\<lambda>a. to_lower (ap_ApplyIdentifier a)) ` set (db_applies d)"
    by (auto simp: list_ex_iff sql_eq_def)
  then have "wf_applies d'" using wf(2) n(1-3) ids_below_snoc [of "map ap_ID (db_applies d)" "next_apply_id d"]
    by (simp add: wf_applies_def new_apply_row_def)
  moreover have "one_active d'" using cr one wf assms(3) by (auto intro: cgroups.create_keeps_one_active)
  ultimately show ?thesis by (simp add: targets_ok_def)
qed

text \<open>
  (C29) Requests to apply never make two active applies share a target: on every path through the handler, accepted or refused, and whatever other callers
  commit between its calls as long as they keep the targets exclusive, the targets are exclusive afterwards.
\<close>

theorem queueing_keeps_targets_exclusive:
  assumes "\<And>n v. targets_ok (sw_db v) \<Longrightarrow> targets_ok (sw_db (oth n v))" "targets_ok (sw_db w)"
  shows "targets_ok (sw_db (snd (ExecuteApply oth e req w)))"
proof -
  have obs: "sw_db (attachObserver plan req i v) = sw_db v" for plan i v by (simp add: attachObserver_def Let_def split: option.split)
  have store: "targets_ok (sw_db (snd (createStoredApply oth e plan req options fanout v)))" if "targets_ok (sw_db v)" for plan options fanout v
  proof -
    have st: "ap_State (queued_apply e plan req o2 l dep) \<in> set Apply_states" for o2 l dep by (simp add: queued_apply_def Apply_states_def)
    have v2: "targets_ok (sw_db (oth 1 v))" "targets_ok (sw_db (oth 2 (oth 1 v)))" using that assms(1) by auto
    show ?thesis
      using v2 assms(1) create_keeps_targets_ok [OF _ v2(2) st]
      by (auto simp: createStoredApply_def Let_def append_log_def split: option.splits sum.splits prod.splits)
  qed
  have "targets_ok (sw_db (snd (queueValidatedApply oth e plan req v)))" if "targets_ok (sw_db v)" for plan v
    using that store [OF that, of plan]
    by (auto simp: queueValidatedApply_def Let_def obs split: sum.splits prod.splits) (metis snd_conv obs)+
  with assms show ?thesis by (auto simp: ExecuteApply_def Let_def split: sum.splits option.splits)
qed

theorem queueing_keeps_targets_exclusive_witness:
  "targets_ok (sw_db (snd (ExecuteApply (\<lambda>_. id) sample_service sample_apply_request (sample_service_world [''users'']))))"
  by (rule queueing_keeps_targets_exclusive) (simp, code_simp)

text \<open>
  Tables that differ only in case: the keys of their operations differ for the code but not for the unique key of the operations table, whose
  collation ignores case, so such a plan cannot be queued.
\<close>

theorem case_twins_cannot_be_queued:
  "fst (ExecuteApply (\<lambda>_. id) sample_service sample_apply_request (sample_service_world [''users'', ''Users''])) = Inl (Storage_Failed ErrApplyOperationExists)"
  by code_simp

end
