(* ===== verification/SB_Control.thy ===== *)
theory SB_Control
  imports SB_Enqueue SB_Operator "HOL-Library.Word"
begin

section \<open>Control requests of users (api/control\_handlers.go)\<close>

text \<open>
  Users stop, start and cut over an apply, change its volume, revert it or plan its rollback. Stop, start and cutover only record a durable request that the
  owner of the apply works off; the handlers decide whether the request makes sense now, from the stored rows or, for a remote data plane, from
  its progress. An answer is an HTTP status with a response, or an error; an error is a rejection with its status or an internal failure. As in
  \<^verbatim>\<open>SB_Enqueue\<close>, \<open>oth n\<close> is what other callers commit before the n-th call of a handler; a data plane's client is a record of its answers, and where
  a local client shares the tables it may change them. Reading the JSON of a request's metadata is the argument \<open>ce_unmarshal\<close>. Metrics are left out.
\<close>

subsection \<open>Data planes and their states (tern/state\_converters.go)\<close>

datatype proto_state = STATE_NO_ACTIVE_CHANGE | STATE_PENDING | STATE_RUNNING | STATE_WAITING_FOR_DEPLOY | STATE_WAITING_FOR_CUTOVER | STATE_RECOVERING
  | STATE_CUTTING_OVER | STATE_REVERT_WINDOW | STATE_COMPLETED | STATE_FAILED | STATE_STOPPED | STATE_CANCELLED | STATE_REVERTED | STATE_PREPARING_BRANCH
  | STATE_APPLYING_BRANCH_CHANGES | STATE_CREATING_DEPLOY_REQUEST | STATE_VALIDATING_BRANCH | STATE_VALIDATING_DEPLOY_REQUEST | STATE_UNKNOWN

definition ProtoStateToStorage :: "proto_state \<Rightarrow> string" where
  "ProtoStateToStorage ps = (case ps of STATE_NO_ACTIVE_CHANGE \<Rightarrow> [] | STATE_PENDING \<Rightarrow> Apply_Pending | STATE_RUNNING \<Rightarrow> Apply_Running
     | STATE_WAITING_FOR_DEPLOY \<Rightarrow> Apply_WaitingForDeploy | STATE_WAITING_FOR_CUTOVER \<Rightarrow> Apply_WaitingForCutover | STATE_RECOVERING \<Rightarrow> Apply_Recovering
     | STATE_CUTTING_OVER \<Rightarrow> Apply_CuttingOver | STATE_REVERT_WINDOW \<Rightarrow> Apply_RevertWindow | STATE_COMPLETED \<Rightarrow> Apply_Completed | STATE_FAILED \<Rightarrow> Apply_Failed
     | STATE_STOPPED \<Rightarrow> Apply_Stopped | STATE_CANCELLED \<Rightarrow> Apply_Cancelled | STATE_REVERTED \<Rightarrow> Apply_Reverted | STATE_PREPARING_BRANCH \<Rightarrow> Apply_PreparingBranch
     | STATE_APPLYING_BRANCH_CHANGES \<Rightarrow> Apply_ApplyingBranchChanges | STATE_CREATING_DEPLOY_REQUEST \<Rightarrow> Apply_CreatingDeployRequest
     | STATE_VALIDATING_BRANCH \<Rightarrow> Apply_ValidatingBranch | STATE_VALIDATING_DEPLOY_REQUEST \<Rightarrow> Apply_ValidatingDeployRequest | STATE_UNKNOWN \<Rightarrow> [])"

definition storageStateToProto :: "string \<Rightarrow> proto_state" where
  "storageStateToProto ts = (let s = NormalizeState ts in
     if s = Task_Pending then STATE_PENDING else if s = Task_Running then STATE_RUNNING
     else if s = Task_WaitingForDeploy then STATE_WAITING_FOR_DEPLOY else if s = Task_WaitingForCutover then STATE_WAITING_FOR_CUTOVER
     else if s = Task_Recovering \<or> s = Apply_Recovering then STATE_RECOVERING else if s = Task_CuttingOver then STATE_CUTTING_OVER
     else if s = Task_RevertWindow then STATE_REVERT_WINDOW else if s = Task_Completed then STATE_COMPLETED else if s = Task_Failed then STATE_FAILED
     else if s = Task_FailedRetryable \<or> s = Apply_FailedRetryable then STATE_FAILED else if s = Task_Stopped then STATE_STOPPED
     else if s = Task_Cancelled then STATE_CANCELLED else if s = Task_Reverted then STATE_REVERTED
     else if s = Apply_PreparingBranch then STATE_PREPARING_BRANCH else if s = Apply_ApplyingBranchChanges then STATE_APPLYING_BRANCH_CHANGES
     else if s = Apply_CreatingDeployRequest then STATE_CREATING_DEPLOY_REQUEST else if s = Apply_ValidatingBranch then STATE_VALIDATING_BRANCH
     else if s = Apply_ValidatingDeployRequest then STATE_VALIDATING_DEPLOY_REQUEST else STATE_PENDING)"

definition isTerminalProtoState :: "proto_state \<Rightarrow> bool" where
  "isTerminalProtoState ps \<longleftrightarrow> ps \<in> {STATE_COMPLETED, STATE_FAILED, STATE_STOPPED, STATE_CANCELLED, STATE_REVERTED}"

record stop_response =
  sr_Accepted :: bool
  sr_ErrorMessage :: string
  sr_Done :: int
  sr_Skipped :: int

record volume_response =
  vr_Accepted :: bool
  vr_ErrorMessage :: string
  vr_PreviousVolume :: int
  vr_NewVolume :: int

text \<open>A client's answers: the progress of an apply with the states of its tables, and the calls that act on it. \<open>None\<close> as a stop response is nil.\<close>

record control_client =
  cc_IsRemote :: bool
  cc_Progress :: "string \<Rightarrow> string \<Rightarrow> string + (proto_state \<times> string list)"
  cc_Stop :: "string \<Rightarrow> string \<Rightarrow> db \<Rightarrow> (string + stop_response option) \<times> db"
  cc_Volume :: "string \<Rightarrow> string \<Rightarrow> 32 word \<Rightarrow> db \<Rightarrow> (string + volume_response) \<times> db"
  cc_Revert :: "string \<Rightarrow> string \<Rightarrow> db \<Rightarrow> (string + (bool \<times> string)) \<times> db"
  cc_SkipRevert :: "string \<Rightarrow> string \<Rightarrow> db \<Rightarrow> (string + (bool \<times> string)) \<times> db"

record control_env =
  ce_client :: "string \<Rightarrow> string \<Rightarrow> string + control_client"
  ce_now :: int
  ce_unmarshal :: "string \<Rightarrow> json_object option"
  ce_engine_status :: engine_status

subsection \<open>Errors and answers\<close>

datatype control_error = Control_HTTP nat string | Control_Internal string | Control_Storage storage_error

definition controlConflictf :: "string \<Rightarrow> control_error" where "controlConflictf m = Control_HTTP 409 m"

definition controlOperationHTTPStatus :: "control_error \<Rightarrow> nat" where
  "controlOperationHTTPStatus e = (case e of Control_HTTP status _ \<Rightarrow> status | _ \<Rightarrow> 500)"

definition IsInternalControlError :: "control_error \<Rightarrow> bool" where
  "IsInternalControlError e \<longleftrightarrow> controlOperationHTTPStatus e \<ge> 500"

definition ControlStatusAlreadyRequested :: string where "ControlStatusAlreadyRequested = ''already_requested''"
definition ControlStatusAlreadyInProgress :: string where "ControlStatusAlreadyInProgress = ''already_in_progress''"
definition startResponseStatusQueued :: string where "startResponseStatusQueued = ''queued''"

record control_response =
  cp_Accepted :: bool
  cp_ErrorMessage :: string
  cp_Done :: int
  cp_Skipped :: int
  cp_Status :: string

definition accepted_response :: "string \<Rightarrow> control_response" where
  "accepted_response status = \<lparr>cp_Accepted = True, cp_ErrorMessage = [], cp_Done = 0, cp_Skipped = 0, cp_Status = status\<rparr>"

definition controlOperationCaller :: "string \<Rightarrow> string" where
  "controlOperationCaller caller = (if caller = [] then ''unknown'' else caller)"

definition logControlOperationForApply :: "Apply \<Rightarrow> string \<Rightarrow> string \<Rightarrow> string \<Rightarrow> service_world \<Rightarrow> service_world" where
  "logControlOperationForApply apply caller eventType message = append_log (ap_ID apply) eventType (message @ '' (caller: '' @ controlOperationCaller caller @ '')'')"

text \<open>One storage call of a handler: what others did is seen, then the call runs.\<close>

definition sv_write :: "service_others \<Rightarrow> nat \<Rightarrow> (db \<Rightarrow> storage_error + ('a \<times> db)) \<Rightarrow> service_world \<Rightarrow> (storage_error + 'a) \<times> service_world" where
  "sv_write oth n f w = (let w' = oth n w in case f (sw_db w') of Inl e \<Rightarrow> (Inl e, w') | Inr (a, d) \<Rightarrow> (Inr a, w'\<lparr>sw_db := d\<rparr>))"

subsection \<open>The target of a request\<close>

definition storedDeploymentForApply :: "Apply \<Rightarrow> control_error + string" where
  "storedDeploymentForApply apply = (if ap_Deployment apply = [] then Inl (Control_Internal ''apply is missing stored deployment metadata'') else Inr (ap_Deployment apply))"

definition ternApplyIDForStoredApply :: "Apply \<Rightarrow> string" where
  "ternApplyIDForStoredApply apply = (if ap_ExternalID apply \<noteq> [] then ap_ExternalID apply else ap_ApplyIdentifier apply)"

definition controlTarget :: "control_env \<Rightarrow> string \<Rightarrow> string \<Rightarrow> db \<Rightarrow> control_error + (control_client \<times> Apply \<times> string)" where
  "controlTarget ce applyIdentifier environment d =
     (if applyIdentifier = [] then Inl (Control_HTTP 400 ''apply_id is required'')
      else if environment = [] then Inl (Control_HTTP 400 ''environment is required'')
      else case GetByApplyIdentifier applyIdentifier d of
        None \<Rightarrow> Inl (Control_HTTP 404 ''apply not found'')
      | Some apply \<Rightarrow>
          if ap_Environment apply \<noteq> environment then Inl (Control_HTTP 400 ''apply belongs to another environment'')
          else bind_result (storedDeploymentForApply apply) (\<lambda>deployment.
            case ce_client ce deployment (ap_Environment apply) of
              Inl e \<Rightarrow> Inl (Control_HTTP 404 e)
            | Inr client \<Rightarrow> Inr (client, apply, ternApplyIDForStoredApply apply)))"

definition rejectControlIfStopPending :: "string \<Rightarrow> Apply \<Rightarrow> service_world \<Rightarrow> control_error option \<times> service_world" where
  "rejectControlIfStopPending opName apply w =
     (case GetPending (ap_ID apply) ControlOperationStop (sw_db w) of
        None \<Rightarrow> (None, w)
      | Some controlReq \<Rightarrow> (Some (controlConflictf ''schema change has a pending stop request''),
          logControlOperationForApply apply (cr_RequestedBy controlReq) ''stop_requested'' (''Pending stop request blocked '' @ opName) w))"

definition applyHasMultipleOperations :: "Apply \<Rightarrow> db \<Rightarrow> bool" where
  "applyHasMultipleOperations apply d \<longleftrightarrow> length (ListByApply (ap_ID apply) d) > 1"

subsection \<open>Cutover\<close>

datatype cutoverRequestReadiness = cutoverRequestNotReady | cutoverRequestReady | cutoverRequestAlreadyInProgress | cutoverRequestRecovering

text \<open>The loop over the tasks: a task that is cutting over decides at once, one that waits is remembered.\<close>

fun tasks_readiness :: "bool \<Rightarrow> Task list \<Rightarrow> cutoverRequestReadiness" where
  "tasks_readiness ready [] = (if ready then cutoverRequestReady else cutoverRequestNotReady)"
| "tasks_readiness ready (t # ts) =
     (if IsState (tk_State t) [Task_CuttingOver] then cutoverRequestAlreadyInProgress
      else tasks_readiness (ready \<or> IsState (tk_State t) [Task_WaitingForCutover]) ts)"

definition cutover_readiness :: "control_client \<Rightarrow> Apply \<Rightarrow> string \<Rightarrow> bool \<Rightarrow> db \<Rightarrow> control_error + cutoverRequestReadiness" where
  "cutover_readiness client apply ternApplyID multiOp d =
     (if IsState (ap_State apply) [Apply_WaitingForCutover] then Inr cutoverRequestReady
      else if IsState (ap_State apply) [Apply_CuttingOver] then Inr cutoverRequestAlreadyInProgress
      else if IsState (ap_State apply) [Apply_Recovering] then Inr cutoverRequestRecovering
      else if \<not> multiOp \<and> cc_IsRemote client \<and> ternApplyID \<noteq> [] then
        (case cc_Progress client ternApplyID (ap_Environment apply) of
           Inl e \<Rightarrow> Inl (Control_Internal e)
         | Inr (st, _) \<Rightarrow> (let remoteState = ProtoStateToStorage st in
             if IsState remoteState [Apply_WaitingForCutover] then Inr cutoverRequestReady
             else if IsState remoteState [Apply_Recovering] then Inr cutoverRequestRecovering
             else if IsState remoteState [Apply_CuttingOver] then Inr cutoverRequestReady
             else Inr cutoverRequestNotReady))
      else if \<not> IsRunningApplyState (ap_State apply) then Inr cutoverRequestNotReady
      else Inr (tasks_readiness False (tk_GetByApplyID (ap_ID apply) d)))"

definition control_row :: "Apply \<Rightarrow> string \<Rightarrow> string \<Rightarrow> string \<Rightarrow> ApplyControlRequest" where
  "control_row apply operation caller metadata = \<lparr>cr_ID = 0, cr_ApplyID = ap_ID apply, cr_Operation = operation, cr_Status = ControlRequestPending,
     cr_RequestedBy = caller, cr_ErrorMessage = None, cr_Metadata = metadata, cr_CompletedAt = None, cr_CreatedAt = 0, cr_UpdatedAt = 0\<rparr>"

text \<open>\<^verbatim>\<open>RequestPending\<close> with what other callers commit inside it; \<open>btw\<close> are those two windows.\<close>

type_synonym request_windows = "(db \<Rightarrow> db) \<times> (db \<Rightarrow> db)"

definition request_pending :: "control_env \<Rightarrow> request_windows \<Rightarrow> ApplyControlRequest \<Rightarrow> db \<Rightarrow> storage_error + ((ApplyControlRequest option \<times> bool) \<times> db)" where
  "request_pending ce btw row d = bind_result (RequestPending (ce_now ce) (fst btw) (snd btw) row d) (\<lambda>(r, already, d'). Inr ((r, already), d'))"

definition executeCutoverForApply ::
  "service_others \<Rightarrow> request_windows \<Rightarrow> control_env \<Rightarrow> control_client \<Rightarrow> Apply \<Rightarrow> string \<Rightarrow> string \<Rightarrow> service_world
     \<Rightarrow> (control_error + (control_response \<times> nat)) \<times> service_world" where
  "executeCutoverForApply oth btw ce client apply ternApplyID caller w =
     (let w1 = oth 1 w in case GetPending (ap_ID apply) ControlOperationCutover (sw_db w1) of
        Some controlReq \<Rightarrow> (Inr (accepted_response [], 202),
          logControlOperationForApply apply caller ''cutover_triggered'' ''Cutover requested by user while cutover request already pending'' w1)
      | None \<Rightarrow>
          (let w2 = oth 2 w1; multiOp = applyHasMultipleOperations apply (sw_db w2); w3 = oth 3 w2 in
           case cutover_readiness client apply ternApplyID multiOp (sw_db w3) of
             Inl e \<Rightarrow> (Inl e, w3)
           | Inr cutoverRequestAlreadyInProgress \<Rightarrow> (Inr (accepted_response ControlStatusAlreadyInProgress, 202),
               logControlOperationForApply apply caller ''cutover_triggered'' ''Cutover requested by user while cutover already in progress'' w3)
           | Inr cutoverRequestRecovering \<Rightarrow> (Inl (controlConflictf ''schema change is recovering after restart''), w3)
           | Inr cutoverRequestNotReady \<Rightarrow> (Inl (controlConflictf ''schema change is not waiting for cutover''), w3)
           | Inr cutoverRequestReady \<Rightarrow>
               (case sv_write oth 4 (request_pending ce btw (control_row apply ControlOperationCutover caller [])) w3 of
                  (Inl e, w4) \<Rightarrow> (Inl (Control_Storage e), w4)
                | (Inr (_, alreadyPending), w4) \<Rightarrow> (Inr (accepted_response [], if alreadyPending then 202 else 200),
                    logControlOperationForApply apply caller ''cutover_triggered''
                      (if alreadyPending then ''Cutover requested by user while cutover request already pending'' else ''Cutover requested by user'') w4))))"

record ControlRequest =
  crq_ApplyID :: string
  crq_Environment :: string
  crq_Caller :: string

definition ExecuteCutover ::
  "service_others \<Rightarrow> request_windows \<Rightarrow> control_env \<Rightarrow> ControlRequest \<Rightarrow> service_world \<Rightarrow> (control_error + (control_response \<times> nat)) \<times> service_world" where
  "ExecuteCutover oth btw ce req w =
     (case controlTarget ce (crq_ApplyID req) (crq_Environment req) (sw_db w) of
        Inl e \<Rightarrow> (Inl e, w)
      | Inr (client, apply, ternApplyID) \<Rightarrow>
          (case rejectControlIfStopPending ''cutover'' apply (oth 0 w) of
             (Some e, w0) \<Rightarrow> (Inl e, w0)
           | (None, w0) \<Rightarrow> executeCutoverForApply oth btw ce client apply ternApplyID (crq_Caller req) w0))"

subsection \<open>Stop\<close>

text \<open>The metadata of a request are two counts, left out when zero; \<open>k1\<close> and \<open>k2\<close> are their names. The decoder follows encoding/json.\<close>

definition control_metadata :: "string \<Rightarrow> string \<Rightarrow> int \<times> int \<Rightarrow> json_object" where
  "control_metadata k1 k2 counts = (if fst counts \<noteq> 0 then [(k1, JNum (fst counts))] else []) @ (if snd counts \<noteq> 0 then [(k2, JNum (snd counts))] else [])"

definition decode_count :: "json \<Rightarrow> int \<Rightarrow> int option" where
  "decode_count v n0 = (case v of JNum n \<Rightarrow> if - (2 ^ 63) \<le> n \<and> n < 2 ^ 63 then Some n else None | JNull \<Rightarrow> Some n0 | _ \<Rightarrow> None)"

fun decode_counts :: "string \<Rightarrow> string \<Rightarrow> json_object \<Rightarrow> int \<times> int \<Rightarrow> (int \<times> int) option" where
  "decode_counts k1 k2 [] counts = Some counts"
| "decode_counts k1 k2 ((k, v) # kvs) counts =
     (case (if k = k1 \<or> k = k2 then Some k else find (\<lambda>f. equal_fold f k) [k1, k2]) of
        None \<Rightarrow> decode_counts k1 k2 kvs counts
      | Some f \<Rightarrow>
          (if f = k1 then (case decode_count v (fst counts) of None \<Rightarrow> None | Some n \<Rightarrow> decode_counts k1 k2 kvs (n, snd counts))
           else (case decode_count v (snd counts) of None \<Rightarrow> None | Some n \<Rightarrow> decode_counts k1 k2 kvs (fst counts, n))))"

definition decodeControlRequestMetadata :: "control_env \<Rightarrow> string \<Rightarrow> string \<Rightarrow> ApplyControlRequest \<Rightarrow> control_error + int \<times> int" where
  "decodeControlRequestMetadata ce k1 k2 controlReq =
     (if length (cr_Metadata controlReq) > 0
      then (case ce_unmarshal ce (cr_Metadata controlReq) of
              None \<Rightarrow> Inl (Control_Internal ''decode control request metadata'')
            | Some obj \<Rightarrow> (case decode_counts k1 k2 obj (0, 0) of
                None \<Rightarrow> Inl (Control_Internal ''decode control request metadata'') | Some counts \<Rightarrow> Inr counts))
      else Inr (0, 0))"

definition applyControlRequestStatus :: "ApplyControlRequest \<Rightarrow> string \<Rightarrow> stop_response \<Rightarrow> stop_response" where
  "applyControlRequestStatus controlReq operation resp =
     (if cr_Status controlReq = ControlRequestPending \<or> cr_Status controlReq = ControlRequestCompleted then resp\<lparr>sr_Accepted := True\<rparr>
      else if cr_Status controlReq = ControlRequestFailed then resp\<lparr>sr_ErrorMessage := null_text (cr_ErrorMessage controlReq)\<rparr>
      else resp\<lparr>sr_ErrorMessage := operation @ '' control request has unknown status: '' @ cr_Status controlReq\<rparr>)"

text \<open>The names of the two counts of an operation; a stop and a start response have the same fields.\<close>

definition count_names :: "string \<Rightarrow> string \<times> string" where
  "count_names operation = (if operation = ControlOperationStop then (''stopped_count'', ''skipped_count'') else (''started_count'', ''skipped_count''))"

definition response_from_request :: "control_env \<Rightarrow> string \<Rightarrow> ApplyControlRequest option \<Rightarrow> control_error + stop_response" where
  "response_from_request ce operation controlReq = (case controlReq of
       None \<Rightarrow> Inr \<lparr>sr_Accepted = False, sr_ErrorMessage = [], sr_Done = 0, sr_Skipped = 0\<rparr>
     | Some r \<Rightarrow> bind_result (decodeControlRequestMetadata ce (fst (count_names operation)) (snd (count_names operation)) r) (\<lambda>(n, m).
         Inr (applyControlRequestStatus r operation \<lparr>sr_Accepted = False, sr_ErrorMessage = [], sr_Done = n, sr_Skipped = m\<rparr>)))"

definition stopResponseFromControlRequest :: "control_env \<Rightarrow> ApplyControlRequest option \<Rightarrow> control_error + stop_response" where
  "stopResponseFromControlRequest ce = response_from_request ce ControlOperationStop"

definition startResponseFromControlRequest :: "control_env \<Rightarrow> ApplyControlRequest option \<Rightarrow> control_error + stop_response" where
  "startResponseFromControlRequest ce = response_from_request ce ControlOperationStart"

definition pendingControlResponseIfPresent ::
  "Apply \<Rightarrow> string \<Rightarrow> (ApplyControlRequest option \<Rightarrow> control_error + stop_response) \<Rightarrow> db \<Rightarrow> control_error + (stop_response \<times> string) option" where
  "pendingControlResponseIfPresent apply operation build d = (case GetPending (ap_ID apply) operation d of
       None \<Rightarrow> Inr None
     | Some controlReq \<Rightarrow> bind_result (build (Some controlReq)) (\<lambda>resp. Inr (Some (resp, ControlStatusAlreadyRequested))))"

definition createControlRequest ::
  "control_env \<Rightarrow> request_windows \<Rightarrow> Apply \<Rightarrow> string \<Rightarrow> string \<Rightarrow> int \<times> int \<Rightarrow> db \<Rightarrow> storage_error + ((ApplyControlRequest option \<times> bool) \<times> db)" where
  "createControlRequest ce btw apply operation caller counts =
     request_pending ce btw (control_row apply operation caller (json_text (control_metadata (fst (count_names operation)) (snd (count_names operation)) counts)))"

definition stopRequestCounts :: "Task list \<Rightarrow> int \<times> int" where
  "stopRequestCounts tasks = (int (length (filter (\<lambda>t. \<not> IsTerminalTaskState (tk_State t)) tasks)), int (length (filter (\<lambda>t. IsTerminalTaskState (tk_State t)) tasks)))"

text \<open>Recording a request with its counts, or answering for the one that another caller recorded first.\<close>

definition persist_request ::
  "service_others \<Rightarrow> nat \<Rightarrow> request_windows \<Rightarrow> control_env \<Rightarrow> Apply \<Rightarrow> string \<Rightarrow> string \<Rightarrow> string \<Rightarrow> int \<times> int \<Rightarrow> service_world
     \<Rightarrow> (control_error + (stop_response \<times> string)) \<times> service_world" where
  "persist_request oth n btw ce apply operation caller fresh counts w =
     (case sv_write oth n (createControlRequest ce btw apply operation caller counts) w of
        (Inl e, w') \<Rightarrow> (Inl (Control_Storage e), w')
      | (Inr (controlReq, alreadyPending), w') \<Rightarrow>
          (if alreadyPending then bind_result (response_from_request ce operation controlReq) (\<lambda>resp. Inr (resp, ControlStatusAlreadyRequested))
           else Inr (\<lparr>sr_Accepted = True, sr_ErrorMessage = [], sr_Done = fst counts, sr_Skipped = snd counts\<rparr>, fresh), w'))"

definition queueStopForApplyOwner ::
  "service_others \<Rightarrow> request_windows \<Rightarrow> control_env \<Rightarrow> Apply \<Rightarrow> string \<Rightarrow> service_world \<Rightarrow> (control_error + (stop_response \<times> string)) \<times> service_world" where
  "queueStopForApplyOwner oth btw ce apply caller w =
     (let w0 = oth 0 w in
      case pendingControlResponseIfPresent apply ControlOperationStop (stopResponseFromControlRequest ce) (sw_db w0) of
        Inl e \<Rightarrow> (Inl e, w0)
      | Inr (Some r) \<Rightarrow> (Inr r, w0)
      | Inr None \<Rightarrow>
          if IsTerminalApplyState (ap_State apply) then (Inl (controlConflictf ''schema change is already terminal''), w0)
          else (let w1 = oth 1 w0; counts = stopRequestCounts (tk_GetByApplyID (ap_ID apply) (sw_db w1)) in
            if counts = (0, 0) then (Inl (controlConflictf ''no active schema change for apply''), w1)
            else persist_request oth 2 btw ce apply ControlOperationStop caller [] counts w1))"

definition stopRequestCompletedByApplyState :: "string \<Rightarrow> bool" where
  "stopRequestCompletedByApplyState applyState \<longleftrightarrow> IsState applyState [Apply_Stopped, Apply_Cancelled] \<or> IsTerminalApplyState applyState"

definition completeImmediateStopRequestIfStopped ::
  "service_others \<Rightarrow> control_env \<Rightarrow> Apply \<Rightarrow> service_world \<Rightarrow> (storage_error + bool) \<times> service_world" where
  "completeImmediateStopRequestIfStopped oth ce apply w =
     (let w1 = oth 6 w in case ap_Get (ap_ID apply) (sw_db w1) of
        None \<Rightarrow> (Inl ErrApplyNotFound, w1)
      | Some storedApply \<Rightarrow>
          if \<not> stopRequestCompletedByApplyState (ap_State storedApply) then (Inr False, w1)
          else sv_write oth 7 (\<lambda>d. bind_result (CompletePending (ce_now ce) background (ap_ID apply) ControlOperationStop d) (\<lambda>d'. Inr (True, d'))) w1)"

definition tryImmediateStopAfterQueue ::
  "service_others \<Rightarrow> control_env \<Rightarrow> control_client \<Rightarrow> Apply \<Rightarrow> string \<Rightarrow> string \<Rightarrow> string \<Rightarrow> service_world \<Rightarrow> service_world" where
  "tryImmediateStopAfterQueue oth ce client apply ternApplyID environment caller w =
     (let w1 = oth 4 w; lg = logControlOperationForApply apply caller ''stop_requested'' in
      if applyHasMultipleOperations apply (sw_db w1)
      then lg ''Stop queued; operator will stop each deployment of this multi-deployment apply'' w1
      else (let w2 = (if cc_IsRemote client then lg ''Stop request propagation to remote Tern durable queue started'' w1 else w1); w3 = oth 5 w2 in
        case cc_Stop client ternApplyID environment (sw_db w3) of
          (Inl e, d) \<Rightarrow> lg (''Immediate stop attempt failed; durable stop request remains pending: '' @ e) (w3\<lparr>sw_db := d\<rparr>)
        | (Inr None, d) \<Rightarrow> lg ''Immediate stop attempt returned no response; durable stop request remains pending'' (w3\<lparr>sw_db := d\<rparr>)
        | (Inr (Some resp), d) \<Rightarrow>
            if \<not> sr_Accepted resp
            then lg (''Immediate stop attempt was not accepted; durable stop request remains pending: '' @ sr_ErrorMessage resp) (w3\<lparr>sw_db := d\<rparr>)
            else (case completeImmediateStopRequestIfStopped oth ce apply (w3\<lparr>sw_db := d\<rparr>) of
                (Inl _, w4) \<Rightarrow> lg ''Immediate stop accepted but durable stop request completion failed; durable stop request remains pending'' w4
              | (Inr False, w4) \<Rightarrow> lg ''Immediate stop accepted; durable apply owner will reconcile final stop state'' w4
              | (Inr True, w4) \<Rightarrow> lg ''Immediate stop accepted and durable stop request completed'' w4)))"

definition http_status_of :: "string \<Rightarrow> nat" where
  "http_status_of responseStatus = (if responseStatus = ControlStatusAlreadyRequested then 202 else 200)"

definition control_answer :: "stop_response \<Rightarrow> string \<Rightarrow> control_response" where
  "control_answer resp responseStatus = \<lparr>cp_Accepted = sr_Accepted resp, cp_ErrorMessage = sr_ErrorMessage resp, cp_Done = sr_Done resp,
     cp_Skipped = sr_Skipped resp, cp_Status = responseStatus\<rparr>"

definition executeStopForApply ::
  "service_others \<Rightarrow> request_windows \<Rightarrow> control_env \<Rightarrow> control_client \<Rightarrow> Apply \<Rightarrow> string \<Rightarrow> string \<Rightarrow> string \<Rightarrow> service_world
     \<Rightarrow> (control_error + (control_response \<times> nat)) \<times> service_world" where
  "executeStopForApply oth btw ce client apply ternApplyID environment caller w =
     (case queueStopForApplyOwner oth btw ce apply caller w of
        (Inl e, w1) \<Rightarrow> (Inl e, w1)
      | (Inr (resp, responseStatus), w1) \<Rightarrow>
          (Inr (control_answer resp responseStatus, http_status_of responseStatus),
           if \<not> sr_Accepted resp then w1
           else if responseStatus = ControlStatusAlreadyRequested
           then logControlOperationForApply apply caller ''stop_requested'' ''Stop requested by user while stop request already pending'' (oth 3 w1)
           else tryImmediateStopAfterQueue oth ce client apply ternApplyID environment caller
                  (logControlOperationForApply apply caller ''stop_requested'' ''Stop requested by user'' (oth 3 w1))))"

definition ExecuteStop ::
  "service_others \<Rightarrow> request_windows \<Rightarrow> control_env \<Rightarrow> ControlRequest \<Rightarrow> service_world \<Rightarrow> (control_error + (control_response \<times> nat)) \<times> service_world" where
  "ExecuteStop oth btw ce req w =
     (case controlTarget ce (crq_ApplyID req) (crq_Environment req) (sw_db w) of
        Inl e \<Rightarrow> (Inl e, w)
      | Inr (client, apply, ternApplyID) \<Rightarrow> executeStopForApply oth btw ce client apply ternApplyID (crq_Environment req) (crq_Caller req) w)"

subsection \<open>Start\<close>

definition storedApplyMayHaveStoppedTasksForStart :: "string \<Rightarrow> bool" where
  "storedApplyMayHaveStoppedTasksForStart storedApplyState \<longleftrightarrow> IsState storedApplyState [Apply_Stopped] \<or> IsRunningApplyState storedApplyState"

definition isStartRequestAllowedState :: "string \<Rightarrow> bool" where
  "isStartRequestAllowedState applyState \<longleftrightarrow>
     IsState applyState [Apply_WaitingForDeploy, Apply_Pending, Apply_Running, Apply_RunningDegraded, Apply_Stopped]"

definition startNotAllowedForState :: "Apply \<Rightarrow> control_error" where
  "startNotAllowedForState apply = (let st = ap_State apply in
     if IsState st [Apply_Pending] then controlConflictf ''schema change is pending and no start request is queued''
     else if IsRunningApplyState st then controlConflictf ''schema change is still running; stop it before starting it again''
     else if IsState st [Apply_WaitingForCutover] then controlConflictf ''schema change is waiting for cutover; use cutover instead of start''
     else if IsState st [Apply_CuttingOver] then controlConflictf ''schema change is cutting over; start is not allowed''
     else if IsState st [Apply_RevertWindow] then controlConflictf ''schema change is in revert window; use revert or skip-revert instead of start''
     else if IsState st [Apply_FailedRetryable] then controlConflictf ''schema change is waiting for operator retry; start is not allowed''
     else if IsState st [Apply_Failed] then controlConflictf ''schema change failed and cannot be started''
     else if IsState st [Apply_Completed] then controlConflictf ''schema change already completed and cannot be started''
     else if IsState st [Apply_Cancelled]
       then controlConflictf ''schema change was cancelled and cannot be started; open a new schema change to apply it again''
     else if IsState st [Apply_Reverted] then controlConflictf ''schema change was reverted and cannot be started''
     else if IsState st [Apply_PreparingBranch, Apply_ApplyingBranchChanges, Apply_ValidatingBranch, Apply_CreatingDeployRequest, Apply_ValidatingDeployRequest]
       then controlConflictf (''schema change is in setup state '' @ NormalizeState st @ ''; start is not allowed'')
     else controlConflictf (''schema change is not stopped (current state: '' @ st @ '')''))"

definition validateStartRequestState :: "Apply \<Rightarrow> control_error option" where
  "validateStartRequestState apply =
     (if \<not> isStartRequestAllowedState (ap_State apply) then Some (startNotAllowedForState apply)
      else if DeferDeploy (GetOptions apply) \<and> \<not> IsState (ap_State apply) [Apply_WaitingForDeploy]
      then Some (controlConflictf ''schema change is not ready for deploy'')
      else None)"

text \<open>The handler's copy of the apply may be changed on the way, so it is part of the result.\<close>

definition complete_stop :: "service_others \<Rightarrow> nat \<Rightarrow> control_env \<Rightarrow> Apply \<Rightarrow> service_world \<Rightarrow> (control_error + Apply) \<times> service_world" where
  "complete_stop oth n ce apply w =
     (case sv_write oth n (\<lambda>d. bind_result (CompletePending (ce_now ce) background (ap_ID apply) ControlOperationStop d) (\<lambda>d'. Inr ((), d'))) w of
        (Inl e, w') \<Rightarrow> (Inl (Control_Storage e), w') | (Inr _, w') \<Rightarrow> (Inr apply, w'))"

definition completeResolvedStopBeforeStart ::
  "service_others \<Rightarrow> control_env \<Rightarrow> control_client \<Rightarrow> Apply \<Rightarrow> service_world \<Rightarrow> (control_error + Apply) \<times> service_world" where
  "completeResolvedStopBeforeStart oth ce client apply w =
     (let w0 = oth 0 w in case GetPending (ap_ID apply) ControlOperationStop (sw_db w0) of
        None \<Rightarrow> (Inr apply, w0)
      | Some controlReq \<Rightarrow>
          if stopRequestCompletedByApplyState (ap_State apply) then complete_stop oth 1 ce apply w0
          else if \<not> cc_IsRemote client \<or> ap_ExternalID apply = [] then (Inr apply, w0)
          else (case cc_Progress client (ap_ExternalID apply) (ap_Environment apply) of
              Inl e \<Rightarrow> (Inl (Control_Internal e), w0)
            | Inr (st, _) \<Rightarrow>
                if \<not> IsState (ProtoStateToStorage st) [Apply_Stopped] then (Inr apply, w0)
                else (let stopCaller = (if cr_RequestedBy controlReq = [] then ''unknown'' else cr_RequestedBy controlReq);
                          apply' = apply\<lparr>ap_State := Apply_Stopped, ap_CompletedAt := Some (ce_now ce), ap_UpdatedAt := ce_now ce\<rparr> in
                  case sv_write oth 1 (\<lambda>d. bind_result (ap_Update (ce_now ce) background apply' d) (\<lambda>d'. Inr ((), d'))) w0 of
                    (Inl e, w1) \<Rightarrow> (Inl (Control_Storage e), w1)
                  | (Inr _, w1) \<Rightarrow>
                      (case complete_stop oth 2 ce apply' w1 of
                         (Inl e, w2) \<Rightarrow> (Inl e, w2)
                       | (Inr a, w2) \<Rightarrow> (Inr a, logControlOperationForApply a stopCaller ''stop_requested''
                           (''Pending remote stop request completed before start (caller: '' @ stopCaller @ '')'') w2)))))"

definition ensureStoredApplyStoppedForStartClaim ::
  "service_others \<Rightarrow> control_env \<Rightarrow> Apply \<Rightarrow> service_world \<Rightarrow> (control_error + Apply) \<times> service_world" where
  "ensureStoredApplyStoppedForStartClaim oth ce apply w =
     (if \<not> IsRunningApplyState (ap_State apply) then (Inr apply, w)
      else (let apply' = apply\<lparr>ap_State := Apply_Stopped, ap_CompletedAt := None, ap_UpdatedAt := ce_now ce\<rparr> in
        case sv_write oth 6 (\<lambda>d. bind_result (ap_Update (ce_now ce) background apply' d) (\<lambda>d'. Inr ((), d'))) w of
          (Inl e, w') \<Rightarrow> (Inl (Control_Storage e), w') | (Inr _, w') \<Rightarrow> (Inr apply', w')))"

definition persistStartRequestForOperator ::
  "service_others \<Rightarrow> request_windows \<Rightarrow> control_env \<Rightarrow> Apply \<Rightarrow> string \<Rightarrow> int \<times> int \<Rightarrow> service_world \<Rightarrow> (control_error + (stop_response \<times> string)) \<times> service_world" where
  "persistStartRequestForOperator oth btw ce apply caller = persist_request oth 7 btw ce apply ControlOperationStart caller startResponseStatusQueued"

definition startedCounts :: "string list \<Rightarrow> int \<times> int" where
  "startedCounts states = (int (length (filter (\<lambda>s. IsState s [Task_Stopped]) states)),
     int (length (filter (\<lambda>s. \<not> IsState s [Task_Stopped] \<and> IsTerminalTaskState s) states)))"

definition remoteStoppedApplyStartCounts :: "engine_status \<Rightarrow> string list \<Rightarrow> int \<times> int" where
  "remoteStoppedApplyStartCounts es tables = startedCounts (map (NormalizeTaskStatus es) tables)"

text \<open>What both queueing functions do with their counts.\<close>

definition claim_and_persist ::
  "service_others \<Rightarrow> request_windows \<Rightarrow> control_env \<Rightarrow> Apply \<Rightarrow> string \<Rightarrow> int \<times> int \<Rightarrow> service_world \<Rightarrow> (control_error + (stop_response \<times> string)) \<times> service_world" where
  "claim_and_persist oth btw ce apply caller counts w =
     (case ensureStoredApplyStoppedForStartClaim oth ce apply w of
        (Inl e, w') \<Rightarrow> (Inl e, w')
      | (Inr apply', w') \<Rightarrow> persistStartRequestForOperator oth btw ce apply' caller counts w')"

definition queueStoppedApplyForOperator ::
  "service_others \<Rightarrow> request_windows \<Rightarrow> control_env \<Rightarrow> Apply \<Rightarrow> string \<Rightarrow> service_world \<Rightarrow> (control_error + (stop_response \<times> string)) \<times> service_world" where
  "queueStoppedApplyForOperator oth btw ce apply caller w =
     (if \<not> storedApplyMayHaveStoppedTasksForStart (ap_State apply) then (Inl (startNotAllowedForState apply), w)
      else (let w1 = oth 5 w; counts = startedCounts (map tk_State (tk_GetByApplyID (ap_ID apply) (sw_db w1))) in
        if fst counts = 0
        then (Inl (if IsState (ap_State apply) [Apply_Stopped] then controlConflictf ''no stopped tasks for apply'' else startNotAllowedForState apply), w1)
        else claim_and_persist oth btw ce apply caller counts w1))"

definition queueRemoteStoppedApplyForOperator ::
  "service_others \<Rightarrow> request_windows \<Rightarrow> control_env \<Rightarrow> control_client \<Rightarrow> Apply \<Rightarrow> string \<Rightarrow> service_world \<Rightarrow> (control_error + (stop_response \<times> string)) \<times> service_world" where
  "queueRemoteStoppedApplyForOperator oth btw ce client apply caller w =
     (if \<not> storedApplyMayHaveStoppedTasksForStart (ap_State apply) then (Inl (startNotAllowedForState apply), w)
      else case cc_Progress client (ap_ExternalID apply) (ap_Environment apply) of
          Inl e \<Rightarrow> (Inl (Control_Internal e), w)
        | Inr (st, tables) \<Rightarrow>
            if \<not> IsState (ProtoStateToStorage st) [Apply_Stopped] then (Inl (controlConflictf ''schema change is not stopped''), w)
            else (let counts = remoteStoppedApplyStartCounts (ce_engine_status ce) tables in
              claim_and_persist oth btw ce apply caller (if fst counts = 0 then (1, snd counts) else counts) w))"

definition pendingStartResponseIfPresent :: "control_env \<Rightarrow> Apply \<Rightarrow> db \<Rightarrow> control_error + (stop_response \<times> string) option" where
  "pendingStartResponseIfPresent ce apply = pendingControlResponseIfPresent apply ControlOperationStart (startResponseFromControlRequest ce)"

definition startResponseForPendingStartRequest :: "control_env \<Rightarrow> Apply \<Rightarrow> db \<Rightarrow> control_error + (stop_response \<times> string)" where
  "startResponseForPendingStartRequest ce apply d = bind_result (pendingStartResponseIfPresent ce apply d) (\<lambda>found.
     case found of None \<Rightarrow> Inl (startNotAllowedForState apply) | Some r \<Rightarrow> Inr r)"

definition start_by_state ::
  "service_others \<Rightarrow> request_windows \<Rightarrow> control_env \<Rightarrow> control_client \<Rightarrow> Apply \<Rightarrow> string \<Rightarrow> service_world \<Rightarrow> (control_error + (stop_response \<times> string)) \<times> service_world" where
  "start_by_state oth btw ce client apply caller w =
     (if IsState (ap_State apply) [Apply_WaitingForDeploy] then persistStartRequestForOperator oth btw ce apply caller (1, 0) w
      else (let w1 = oth 4 w in
        if IsState (ap_State apply) [Apply_Pending] then (startResponseForPendingStartRequest ce apply (sw_db w1), w1)
        else if storedApplyMayHaveStoppedTasksForStart (ap_State apply)
        then (case pendingStartResponseIfPresent ce apply (sw_db w1) of
            Inl e \<Rightarrow> (Inl e, w1)
          | Inr (Some r) \<Rightarrow> (Inr r, w1)
          | Inr None \<Rightarrow>
              if cc_IsRemote client \<and> ap_ExternalID apply \<noteq> [] then queueRemoteStoppedApplyForOperator oth btw ce client apply caller w1
              else queueStoppedApplyForOperator oth btw ce apply caller w1)
        else (Inl (startNotAllowedForState apply), w1)))"

definition executeStartForApply ::
  "service_others \<Rightarrow> request_windows \<Rightarrow> control_env \<Rightarrow> control_client \<Rightarrow> Apply \<Rightarrow> string \<Rightarrow> service_world
     \<Rightarrow> (control_error + (control_response \<times> nat)) \<times> service_world" where
  "executeStartForApply oth btw ce client apply caller w =
     (case validateStartRequestState apply of Some e \<Rightarrow> (Inl e, w)
      | None \<Rightarrow> (case completeResolvedStopBeforeStart oth ce client apply w of
          (Inl e, w1) \<Rightarrow> (Inl e, w1)
        | (Inr apply', w1) \<Rightarrow> (case rejectControlIfStopPending ''start'' apply' (oth 3 w1) of
            (Some e, w2) \<Rightarrow> (Inl e, w2)
          | (None, w2) \<Rightarrow> (case start_by_state oth btw ce client apply' caller w2 of
              (Inl e, w3) \<Rightarrow> (Inl e, w3)
            | (Inr (resp, responseStatus), w3) \<Rightarrow>
                (Inr (control_answer resp responseStatus, http_status_of responseStatus),
                 if sr_Accepted resp then logControlOperationForApply apply' caller ''start_requested'' ''Start requested by user'' (oth 8 w3) else w3)))))"

definition ExecuteStart ::
  "service_others \<Rightarrow> request_windows \<Rightarrow> control_env \<Rightarrow> ControlRequest \<Rightarrow> service_world \<Rightarrow> (control_error + (control_response \<times> nat)) \<times> service_world" where
  "ExecuteStart oth btw ce req w =
     (case controlTarget ce (crq_ApplyID req) (crq_Environment req) (sw_db w) of
        Inl e \<Rightarrow> (Inl e, w)
      | Inr (client, apply, _) \<Rightarrow> executeStartForApply oth btw ce client apply (crq_Caller req) w)"

subsection \<open>Volume, revert and skip-revert\<close>

text \<open>The body of a request, or the status of its decoding error.\<close>

definition decodeControlRequest :: "control_env \<Rightarrow> nat + (string \<times> string) \<Rightarrow> db \<Rightarrow> control_error + (control_client \<times> Apply \<times> string)" where
  "decodeControlRequest ce body d = (case body of
       Inl status \<Rightarrow> Inl (Control_HTTP status ''invalid request body'')
     | Inr (applyID, environment) \<Rightarrow>
         if applyID = [] then Inl (Control_HTTP 400 ''apply_id is required'')
         else if environment = [] then Inl (Control_HTTP 400 ''environment is required'')
         else case GetByApplyIdentifier applyID d of
             None \<Rightarrow> Inl (Control_HTTP 404 ''apply not found'')
           | Some apply \<Rightarrow>
               if ap_Environment apply \<noteq> environment then Inl (Control_HTTP 400 ''apply belongs to another environment'')
               else (case storedDeploymentForApply apply of
                   Inl e \<Rightarrow> Inl e
                 | Inr deployment \<Rightarrow> (case ce_client ce deployment (ap_Environment apply) of
                     Inl e \<Rightarrow> Inl (Control_HTTP 404 e)
                   | Inr client \<Rightarrow> Inr (client, apply, ternApplyIDForStoredApply apply))))"

text \<open>The HTTP handlers of the three requests; the body has the apply, the environment and the caller.\<close>

definition handleCutover ::
  "service_others \<Rightarrow> request_windows \<Rightarrow> control_env \<Rightarrow> nat + (string \<times> string \<times> string) \<Rightarrow> service_world \<Rightarrow> (control_error + (control_response \<times> nat)) \<times> service_world" where
  "handleCutover oth btw ce body w =
     (case decodeControlRequest ce (map_sum id (\<lambda>(a, e, _). (a, e)) body) (sw_db w) of
        Inl e \<Rightarrow> (Inl e, w)
      | Inr (client, apply, ternApplyID) \<Rightarrow>
          (case rejectControlIfStopPending ''cutover'' apply (oth 0 w) of
             (Some e, w0) \<Rightarrow> (Inl e, w0)
           | (None, w0) \<Rightarrow> executeCutoverForApply oth btw ce client apply ternApplyID (snd (snd (projr body))) w0))"

definition handleStop ::
  "service_others \<Rightarrow> request_windows \<Rightarrow> control_env \<Rightarrow> nat + (string \<times> string \<times> string) \<Rightarrow> service_world \<Rightarrow> (control_error + (control_response \<times> nat)) \<times> service_world" where
  "handleStop oth btw ce body w =
     (case decodeControlRequest ce (map_sum id (\<lambda>(a, e, _). (a, e)) body) (sw_db w) of
        Inl e \<Rightarrow> (Inl e, w)
      | Inr (client, apply, ternApplyID) \<Rightarrow>
          executeStopForApply oth btw ce client apply ternApplyID (fst (snd (projr body))) (snd (snd (projr body))) w)"

definition handleStart ::
  "service_others \<Rightarrow> request_windows \<Rightarrow> control_env \<Rightarrow> nat + (string \<times> string \<times> string) \<Rightarrow> service_world \<Rightarrow> (control_error + (control_response \<times> nat)) \<times> service_world" where
  "handleStart oth btw ce body w =
     (case decodeControlRequest ce (map_sum id (\<lambda>(a, e, _). (a, e)) body) (sw_db w) of
        Inl e \<Rightarrow> (Inl e, w)
      | Inr (client, apply, _) \<Rightarrow> executeStartForApply oth btw ce client apply (snd (snd (projr body))) w)"

definition handleVolume ::
  "service_others \<Rightarrow> control_env \<Rightarrow> nat + (string \<times> string \<times> 32 word) \<Rightarrow> service_world \<Rightarrow> (control_error + volume_response) \<times> service_world" where
  "handleVolume oth ce body w =
     (case decodeControlRequest ce (map_sum id (\<lambda>(a, e, _). (a, e)) body) (sw_db w) of
        Inl e \<Rightarrow> (Inl e, w)
      | Inr (client, apply, applyID) \<Rightarrow>
          (let volume = snd (snd (projr body)) in
           if volume <s 1 \<or> 11 <s volume then (Inl (Control_HTTP 400 ''volume must be between 1 and 11''), w)
           else (let w1 = oth 0 w in case cc_Volume client applyID (ap_Environment apply) volume (sw_db w1) of
               (Inl e, d) \<Rightarrow> (Inl (Control_Internal e), w1\<lparr>sw_db := d\<rparr>)
             | (Inr resp, d) \<Rightarrow> (Inr resp, w1\<lparr>sw_db := d\<rparr>))))"

definition logControlOperation :: "string \<Rightarrow> string \<Rightarrow> string \<Rightarrow> string \<Rightarrow> service_world \<Rightarrow> service_world" where
  "logControlOperation applyID caller eventType message w =
     (if applyID = [] then w
      else case GetByApplyIdentifier applyID (sw_db w) of None \<Rightarrow> w | Some apply \<Rightarrow> logControlOperationForApply apply caller eventType message w)"

definition handleRevert ::
  "service_others \<Rightarrow> control_env \<Rightarrow> nat + (string \<times> string \<times> string) \<Rightarrow> service_world \<Rightarrow> (control_error + (bool \<times> string)) \<times> service_world" where
  "handleRevert oth ce body w =
     (case decodeControlRequest ce (map_sum id (\<lambda>(a, e, _). (a, e)) body) (sw_db w) of
        Inl e \<Rightarrow> (Inl e, w)
      | Inr (client, apply, applyID) \<Rightarrow>
          (let caller = snd (snd (projr body)); w1 = oth 0 w in case cc_Revert client applyID (ap_Environment apply) (sw_db w1) of
             (Inl e, d) \<Rightarrow> (Inl (Control_Internal e), w1\<lparr>sw_db := d\<rparr>)
           | (Inr resp, d) \<Rightarrow> (Inr resp,
               (let w2 = w1\<lparr>sw_db := d\<rparr> in
                if fst resp then logControlOperation (ap_ApplyIdentifier apply) caller ''revert_triggered'' ''Revert triggered by user'' (oth 1 w2) else w2))))"

definition handleSkipRevert ::
  "service_others \<Rightarrow> control_env \<Rightarrow> nat + (string \<times> string \<times> string) \<Rightarrow> service_world \<Rightarrow> (control_error + (bool \<times> string)) \<times> service_world" where
  "handleSkipRevert oth ce body w =
     (case decodeControlRequest ce (map_sum id (\<lambda>(a, e, _). (a, e)) body) (sw_db w) of
        Inl e \<Rightarrow> (Inl e, w)
      | Inr (client, apply, applyID) \<Rightarrow>
          (let caller = snd (snd (projr body)); w1 = oth 0 w in case cc_SkipRevert client applyID (ap_Environment apply) (sw_db w1) of
             (Inl e, d) \<Rightarrow> (Inl (Control_Internal e), w1\<lparr>sw_db := d\<rparr>)
           | (Inr resp, d) \<Rightarrow> (Inr resp,
               (let w2 = w1\<lparr>sw_db := d\<rparr>;
                    w3 = (if fst resp \<and> ap_Engine apply = EnginePlanetScale
                          then (let w' = oth 1 w2 in w'\<lparr>sw_db := SetRevertSkipped (ap_ID apply) (ce_now ce) (sw_db w')\<rparr>) else w2) in
                if fst resp then logControlOperation (ap_ApplyIdentifier apply) caller ''skip_revert_triggered'' ''Skip-revert triggered by user'' (oth 2 w3) else w3))))"

subsection \<open>Rollback\<close>

record RollbackSourceRequest =
  rbq_ApplyIdentifier :: string
  rbq_Environment :: string
  rbq_Repository :: string
  rbq_PullRequest :: int
  rbq_RequirePullRequestScope :: bool

definition validateRollbackSourceScope :: "RollbackSourceRequest \<Rightarrow> Apply \<Rightarrow> control_error option" where
  "validateRollbackSourceScope req apply =
     (if \<not> IsState (ap_State apply) [Apply_Completed] then Some (controlConflictf ''rollback requires a completed apply'')
      else if ap_Environment apply \<noteq> rbq_Environment req then Some (Control_HTTP 400 ''apply belongs to another environment'')
      else if rbq_RequirePullRequestScope req \<and> rbq_Repository req = [] then Some (Control_HTTP 400 ''repository is required'')
      else if rbq_RequirePullRequestScope req \<and> rbq_PullRequest req \<le> 0 then Some (Control_HTTP 400 ''pull_request is required'')
      else if rbq_Repository req \<noteq> [] \<and> ap_Repository apply \<noteq> rbq_Repository req then Some (Control_HTTP 400 ''apply belongs to another repository'')
      else if rbq_PullRequest req > 0 \<and> ap_PullRequest apply \<noteq> rbq_PullRequest req then Some (Control_HTTP 400 ''apply belongs to another PR'')
      else None)"

definition rollbackTaskMatchesPlannerScope :: "Task \<Rightarrow> string \<Rightarrow> string \<Rightarrow> bool" where
  "rollbackTaskMatchesPlannerScope task dbType environment \<longleftrightarrow>
     IsState (tk_State task) [Task_Completed] \<and> tk_DatabaseType task = dbType \<and> tk_Environment task = environment"

definition rollbackTaskCompletedAfter :: "Task \<Rightarrow> Task \<Rightarrow> bool" where
  "rollbackTaskCompletedAfter candidate current = (case (tk_CompletedAt candidate, tk_CompletedAt current) of
       (Some a, Some b) \<Rightarrow> a > b
     | (Some _, None) \<Rightarrow> True
     | (None, Some _) \<Rightarrow> False
     | (None, None) \<Rightarrow> tk_CreatedAt candidate > tk_CreatedAt current)"

fun latest_loop :: "string \<Rightarrow> string \<Rightarrow> Task option \<Rightarrow> Task list \<Rightarrow> Task option" where
  "latest_loop dbType environment latest [] = latest"
| "latest_loop dbType environment latest (task # tasks) =
     latest_loop dbType environment
       (case latest of
          None \<Rightarrow> if rollbackTaskMatchesPlannerScope task dbType environment then Some task else None
        | Some cur \<Rightarrow> if rollbackTaskMatchesPlannerScope task dbType environment \<and> rollbackTaskCompletedAfter task cur then Some task else Some cur) tasks"

definition latestCompletedTaskForRollback :: "string \<Rightarrow> string \<Rightarrow> string \<Rightarrow> db \<Rightarrow> Task option" where
  "latestCompletedTaskForRollback database dbType environment d = latest_loop dbType environment None (tk_GetByDatabase database d)"

definition ValidateRollbackSourceApply :: "RollbackSourceRequest \<Rightarrow> db \<Rightarrow> plan_db \<Rightarrow> control_error + (Apply \<times> Plan)" where
  "ValidateRollbackSourceApply req d plans =
     (if rbq_ApplyIdentifier req = [] then Inl (Control_HTTP 400 ''apply_id is required'')
      else if rbq_Environment req = [] then Inl (Control_HTTP 400 ''environment is required'')
      else case GetByApplyIdentifier (rbq_ApplyIdentifier req) d of
        None \<Rightarrow> Inl (Control_HTTP 404 ''apply not found'')
      | Some apply \<Rightarrow> (case validateRollbackSourceScope req apply of Some e \<Rightarrow> Inl e
        | None \<Rightarrow> (case pl_GetByID (ap_PlanID apply) plans of
            None \<Rightarrow> Inl (Control_Internal ''source plan not found for rollback apply'')
          | Some plan \<Rightarrow>
              if \<not> HasOriginalFilesCapture (Some (pn_Namespaces plan))
              then Inl (controlConflictf ''apply cannot be rolled back safely because its source plan has no stored original schema files'')
              else (case latestCompletedTaskForRollback (ap_Database apply) (ap_DatabaseType apply) (ap_Environment apply) d of
                  None \<Rightarrow> Inl (controlConflictf ''no completed schema change task found'')
                | Some latestTask \<Rightarrow>
                    if tk_ApplyID latestTask \<noteq> ap_ID apply
                    then Inl (controlConflictf ''apply is not the schema change that the current rollback planner would select'')
                    else if tk_PlanID latestTask \<noteq> ap_PlanID apply
                    then Inl (Control_Internal ''latest schema change task points to another plan'')
                    else Inr (apply, plan)))))"

definition rollbackSourcePlanMatchesApply :: "Plan \<Rightarrow> Apply \<Rightarrow> bool" where
  "rollbackSourcePlanMatchesApply plan apply \<longleftrightarrow>
     pn_Database plan = ap_Database apply \<and> pn_DatabaseType plan = ap_DatabaseType apply \<and> pn_Environment plan = ap_Environment apply"

fun rollback_files :: "namespaces \<Rightarrow> string + proto_schema_files" where
  "rollback_files [] = Inr []"
| "rollback_files ((ns, nsData) # nss) = (case nsData of
       None \<Rightarrow> Inl ''no original schema files available for rollback namespace''
     | Some nd \<Rightarrow> if \<not> np_OriginalFilesCaptured nd then Inl ''no original schema files available for rollback namespace''
         else bind_result (rollback_files nss) (\<lambda>rest. Inr ((ns, Some (np_OriginalFiles nd)) # rest)))"

definition rollbackSchemaFiles :: "Plan \<Rightarrow> string + proto_schema_files" where
  "rollbackSchemaFiles plan = bind_result (rollback_files (pn_Namespaces plan)) (\<lambda>schemaFiles.
     if length schemaFiles = 0 then Inl ''no namespaces available for rollback'' else Inr schemaFiles)"

text \<open>A pull request number fits into 32 bits; the conversion is written out.\<close>

definition to_int32 :: "int \<Rightarrow> int" where "to_int32 n = sint (word_of_int n :: 32 word)"

definition ExecuteRollbackPlanForApply ::
  "(string \<Rightarrow> string \<Rightarrow> string + tern_client) \<Rightarrow> int \<Rightarrow> Apply \<Rightarrow> plan_db \<Rightarrow> (service_error + PlanResponse) \<times> plan_db" where
  "ExecuteRollbackPlanForApply TernClient now apply d =
     (if \<not> IsState (ap_State apply) [Apply_Completed] then (Inl (Service_Error ''only completed applies can be rolled back''), d)
      else case pl_GetByID (ap_PlanID apply) d of
        None \<Rightarrow> (Inl (Service_Error ''plan not found for apply''), d)
      | Some plan \<Rightarrow>
          if \<not> rollbackSourcePlanMatchesApply plan apply then (Inl (Service_Error ''source plan belongs to another target''), d)
          else (case rollbackSchemaFiles plan of Inl e \<Rightarrow> (Inl (Service_Error e), d)
            | Inr schemaFiles \<Rightarrow>
                if ap_Deployment apply = [] then (Inl (Service_Error ''apply is missing stored deployment metadata''), d)
                else if pn_Target plan = [] then (Inl (Service_Error ''plan is missing server-side routing metadata field target''), d)
                else (case TernClient (ap_Deployment apply) (ap_Environment apply) of
                    Inl e \<Rightarrow> (Inl (Service_Error e), d)
                  | Inr client \<Rightarrow>
                      (let prNumber = to_int32 (ap_PullRequest apply);
                           req = \<lparr>prq_Database = ap_Database apply, prq_Environment = ap_Environment apply, prq_Type = ap_DatabaseType apply,
                             prq_SchemaFiles = schemaFiles, prq_Repository = ap_Repository apply, prq_PullRequest = Some prNumber, prq_HeadSHA = None,
                             prq_SchemaPath = [], prq_SourceTrusted = False\<rparr> in
                       case tcl_Plan client \<lparr>tpr_Database = ap_Database apply, tpr_Type = ap_DatabaseType apply, tpr_SchemaFiles = schemaFiles,
                           tpr_Repository = ap_Repository apply, tpr_PullRequest = prNumber, tpr_Environment = ap_Environment apply,
                           tpr_Target = pn_Target plan, tpr_SchemaPath = [], tpr_HeadSha = []\<rparr> of
                         Inl (_, e) \<Rightarrow> (Inl (Service_Error e), d)
                       | Inr resp \<Rightarrow>
                           (case storePlanResponse now req resp \<lparr>rt_DatabaseType = ap_DatabaseType apply, rt_Deployment = ap_Deployment apply,
                                rt_Target = pn_Target plan\<rparr> d of
                              (Some e, d') \<Rightarrow> (Inl e, d')
                            | (None, d') \<Rightarrow> (Inr (planResponseFromProto resp), d'))))))"

definition handleRollbackPlan ::
  "(string \<Rightarrow> string \<Rightarrow> string + tern_client) \<Rightarrow> int \<Rightarrow> nat + (string \<times> string) \<Rightarrow> db \<Rightarrow> plan_db
     \<Rightarrow> ((control_error + service_error) + PlanResponse) \<times> plan_db" where
  "handleRollbackPlan TernClient now body d plans = (case body of
       Inl status \<Rightarrow> (Inl (Inl (Control_HTTP status ''invalid request body'')), plans)
     | Inr (applyID, environment) \<Rightarrow>
         (case ValidateRollbackSourceApply \<lparr>rbq_ApplyIdentifier = applyID, rbq_Environment = environment, rbq_Repository = [], rbq_PullRequest = 0,
              rbq_RequirePullRequestScope = False\<rparr> d plans of
            Inl e \<Rightarrow> (Inl (Inl e), plans)
          | Inr (apply, _) \<Rightarrow>
              (case ExecuteRollbackPlanForApply TernClient now apply plans of
                 (Inl e, plans') \<Rightarrow> (Inl (Inr e), plans')
               | (Inr resp, plans') \<Rightarrow> (Inr resp, plans'))))"

subsection \<open>Requests are durable\<close>

text \<open>A decoded HTTP request and the same request made inside the process, by a comment for instance, do the same.\<close>

lemma decodeControlRequest_target: "decodeControlRequest ce (Inr (a, e)) d = controlTarget ce a e d"
  by (auto simp: decodeControlRequest_def controlTarget_def split: option.split sum.split)

lemma handlers_agree:
  fixes a e c :: string
  defines "req \<equiv> \<lparr>crq_ApplyID = a, crq_Environment = e, crq_Caller = c\<rparr>"
  shows "handleCutover oth btw ce (Inr (a, e, c)) w = ExecuteCutover oth btw ce req w"
    and "handleStop oth btw ce (Inr (a, e, c)) w = ExecuteStop oth btw ce req w"
    and "handleStart oth btw ce (Inr (a, e, c)) w = ExecuteStart oth btw ce req w"
  by (simp_all add: handleCutover_def handleStop_def handleStart_def ExecuteCutover_def ExecuteStop_def ExecuteStart_def decodeControlRequest_target req_def
      split: sum.split prod.split option.split)


lemma logControlOperationForApply_db [simp]: "sw_db (logControlOperationForApply apply caller ev msg w) = sw_db w"
  by (simp add: logControlOperationForApply_def append_log_def)

lemma logControlOperationForApply_plans [simp]: "sw_plans (logControlOperationForApply apply caller ev msg w) = sw_plans w"
  by (simp add: logControlOperationForApply_def append_log_def)

lemma sv_write_InrD: "sv_write oth n f w = (Inr a, w') \<Longrightarrow> f (sw_db (oth n w)) = Inr (a, sw_db w')"
  by (auto simp: sv_write_def Let_def split: sum.splits)

lemma RequestPending_pending:
  "RequestPending now btw1 btw2 row d = Inr (r, already, d') \<Longrightarrow> pending_request d' (cr_ApplyID row) (cr_Operation row)"
  unfolding RequestPending_def by (auto split: sum.splits dest: requestPending_pending)

lemma request_pending_pending:
  assumes "sv_write oth n (request_pending ce btw (control_row apply operation caller metadata)) w = (Inr r, w')"
  shows "pending_request (sw_db w') (ap_ID apply) operation"
  using sv_write_InrD [OF assms] RequestPending_pending [where row = "control_row apply operation caller metadata"]
  by (auto simp: request_pending_def bind_result_Inr_iff control_row_def)

lemma rejectControlIfStopPending_NoneD:
  assumes "rejectControlIfStopPending opName apply w = (None, w')"
  shows "w' = w" "\<not> pending_request (sw_db w) (ap_ID apply) ControlOperationStop"
  using assms by (auto simp: rejectControlIfStopPending_def pending_request_GetPending split: option.splits)

text \<open>A task of the apply is cutting over.\<close>

definition task_cutting_over :: "Apply \<Rightarrow> db \<Rightarrow> bool" where
  "task_cutting_over apply d \<longleftrightarrow> list_ex (\<lambda>t. IsState (tk_State t) [Task_CuttingOver]) (tk_GetByApplyID (ap_ID apply) d)"

lemma tasks_readiness_in_progress:
  "tasks_readiness ready ts = cutoverRequestAlreadyInProgress \<longleftrightarrow> list_ex (\<lambda>t. IsState (tk_State t) [Task_CuttingOver]) ts"
  by (induction ts arbitrary: ready) auto

lemma readiness_in_progress:
  "cutover_readiness client apply tid multiOp d = Inr cutoverRequestAlreadyInProgress \<Longrightarrow>
     IsState (ap_State apply) [Apply_CuttingOver] \<or> IsRunningApplyState (ap_State apply) \<and> task_cutting_over apply d"
  by (auto simp: cutover_readiness_def task_cutting_over_def tasks_readiness_in_progress Let_def split: if_splits sum.splits)

lemma executeCutoverForApply_InrD:
  assumes "executeCutoverForApply oth btw ce client apply tid caller w = (Inr (resp, status), w')"
  shows "cp_Accepted resp \<and> (if cp_Status resp = ControlStatusAlreadyInProgress
     then sw_db w' = sw_db (oth 3 (oth 2 (oth 1 w)))
       \<and> (IsState (ap_State apply) [Apply_CuttingOver] \<or> IsRunningApplyState (ap_State apply) \<and> task_cutting_over apply (sw_db w'))
     else pending_request (sw_db w') (ap_ID apply) ControlOperationCutover)"
  using assms unfolding executeCutoverForApply_def Let_def
  by (auto simp: accepted_response_def ControlStatusAlreadyInProgress_def pending_request_GetPending [symmetric]
      split: option.splits sum.splits cutoverRequestReadiness.splits prod.splits
      dest: readiness_in_progress request_pending_pending) (auto simp: pending_request_GetPending)

text \<open>
  (C31) A cutover that the service accepts is not lost: the apply, as the handler read it, had no pending stop request at the check that followed, and the
  answer is one of two. Either a cutover request is pending for the apply's owner when the answer is given; or the answer says that the cutover is
  in progress, and then the row that the handler read at its start was cutting over, or that row was running and one of the apply's tasks is cutting
  over when the answer is given. What the answer says of the row is about that first read: the handler does not read it again, so the row
  is still cutting over at the end only if no other caller changed it meanwhile. The rest holds whatever other callers commit between the
  calls of the handler and inside the recording of the request.
\<close>

theorem accepted_cutover_is_durable:
  assumes "ExecuteCutover oth btw ce req w = (Inr (resp, status), w')"
  shows "\<exists>apply. GetByApplyIdentifier (crq_ApplyID req) (sw_db w) = Some apply \<and> ap_Environment apply = crq_Environment req \<and> cp_Accepted resp
     \<and> \<not> pending_request (sw_db (oth 0 w)) (ap_ID apply) ControlOperationStop
     \<and> (if cp_Status resp = ControlStatusAlreadyInProgress
        then IsState (ap_State apply) [Apply_CuttingOver]
            \<and> ((\<forall>n v. apply \<in> set (db_applies (sw_db v)) \<longrightarrow> apply \<in> set (db_applies (sw_db (oth n v)))) \<longrightarrow> apply \<in> set (db_applies (sw_db w')))
          \<or> IsRunningApplyState (ap_State apply) \<and> task_cutting_over apply (sw_db w')
        else pending_request (sw_db w') (ap_ID apply) ControlOperationCutover)"
proof -
  from assms obtain client a tid where t: "controlTarget ce (crq_ApplyID req) (crq_Environment req) (sw_db w) = Inr (client, a, tid)"
    unfolding ExecuteCutover_def by (auto split: sum.splits)
  then have g: "GetByApplyIdentifier (crq_ApplyID req) (sw_db w) = Some a" "ap_Environment a = crq_Environment req"
    by (auto simp: controlTarget_def bind_result_Inr_iff split: if_splits option.splits; auto split: sum.split_asm)+
  from assms t obtain w0 where r: "rejectControlIfStopPending ''cutover'' a (oth 0 w) = (None, w0)"
    and x: "executeCutoverForApply oth btw ce client a tid (crq_Caller req) w0 = (Inr (resp, status), w')"
    unfolding ExecuteCutover_def by (auto split: prod.splits option.splits)
  from g(1) have a: "a \<in> set (db_applies (sw_db w))" by (auto simp: GetByApplyIdentifier_def find_Some_iff)
  note run = executeCutoverForApply_InrD [OF x, unfolded rejectControlIfStopPending_NoneD(1) [OF r]]
  have kept: "a \<in> set (db_applies (sw_db w'))" if "\<forall>n v. a \<in> set (db_applies (sw_db v)) \<longrightarrow> a \<in> set (db_applies (sw_db (oth n v)))"
    and "cp_Status resp = ControlStatusAlreadyInProgress"
    using run that a by simp
  show ?thesis using run kept rejectControlIfStopPending_NoneD(2) [OF r] g
    by (intro exI [of _ a]) (auto split: if_splits)
qed

text \<open>A stop is not lost while its request is pending or the apply is resolved.\<close>

definition resolved_apply :: "int \<Rightarrow> db \<Rightarrow> bool" where
  "resolved_apply i d \<longleftrightarrow> list_ex (\<lambda>a. ap_ID a = i \<and> stopRequestCompletedByApplyState (ap_State a)) (db_applies d)"

definition stop_kept :: "int \<Rightarrow> db \<Rightarrow> bool" where
  "stop_kept i d \<longleftrightarrow> pending_request d i ControlOperationStop \<or> resolved_apply i d"

lemma persist_request_InrD:
  assumes "persist_request oth n btw ce apply operation caller fresh counts w = (Inr r, w')"
  shows "pending_request (sw_db w') (ap_ID apply) operation"
  using assms unfolding persist_request_def createControlRequest_def
  by (auto split: prod.splits sum.splits dest: request_pending_pending)

lemma pendingControlResponse_SomeD:
  "pendingControlResponseIfPresent apply operation build d = Inr (Some r) \<Longrightarrow> pending_request d (ap_ID apply) operation"
  by (auto simp: pendingControlResponseIfPresent_def pending_request_GetPending bind_result_Inr_iff split: option.splits)

lemma queueStopForApplyOwner_InrD:
  "queueStopForApplyOwner oth btw ce apply caller w = (Inr r, w') \<Longrightarrow> pending_request (sw_db w') (ap_ID apply) ControlOperationStop"
  unfolding queueStopForApplyOwner_def Let_def
  by (auto split: sum.splits option.splits if_splits dest: pendingControlResponse_SomeD persist_request_InrD)

lemma CompletePending_applies: "CompletePending now ctx i operation d = Inr d' \<Longrightarrow> db_applies d' = db_applies d"
  by (auto simp: CompletePending_def finish_pending_def bind_result_Inr_iff Let_def split: option.splits)

lemma completeImmediateStop_kept:
  assumes "\<And>n v. stop_kept (ap_ID apply) (sw_db v) \<Longrightarrow> stop_kept (ap_ID apply) (sw_db (oth n v))"
    "\<And>n v. resolved_apply (ap_ID apply) (sw_db v) \<Longrightarrow> resolved_apply (ap_ID apply) (sw_db (oth n v))" "stop_kept (ap_ID apply) (sw_db w)"
  shows "stop_kept (ap_ID apply) (sw_db (snd (completeImmediateStopRequestIfStopped oth ce apply w)))"
proof -
  let ?w1 = "oth 6 w"
  have k: "stop_kept (ap_ID apply) (sw_db ?w1)" using assms by blast
  show ?thesis
  proof (cases "\<exists>a. ap_Get (ap_ID apply) (sw_db ?w1) = Some a \<and> stopRequestCompletedByApplyState (ap_State a)")
    case True
    then have "resolved_apply (ap_ID apply) (sw_db ?w1)" by (auto simp: resolved_apply_def ap_Get_def find_Some_iff list_ex_iff)
    then have "resolved_apply (ap_ID apply) (sw_db (oth 7 ?w1))" by (rule assms(2))
    with True show ?thesis
      by (auto simp: completeImmediateStopRequestIfStopped_def Let_def sv_write_def stop_kept_def resolved_apply_def bind_result_Inr_iff
          split: sum.splits dest!: CompletePending_applies)
  next
    case False
    then show ?thesis using k by (auto simp: completeImmediateStopRequestIfStopped_def Let_def split: option.splits)
  qed
qed

lemma tryImmediateStop_kept:
  assumes oth: "\<And>n v. stop_kept (ap_ID apply) (sw_db v) \<Longrightarrow> stop_kept (ap_ID apply) (sw_db (oth n v))"
    "\<And>n v. resolved_apply (ap_ID apply) (sw_db v) \<Longrightarrow> resolved_apply (ap_ID apply) (sw_db (oth n v))"
    and cl: "\<And>d. stop_kept (ap_ID apply) d \<Longrightarrow> stop_kept (ap_ID apply) (snd (cc_Stop client tid environment d))"
    and w: "stop_kept (ap_ID apply) (sw_db w)"
  shows "stop_kept (ap_ID apply) (sw_db (tryImmediateStopAfterQueue oth ce client apply tid environment caller w))"
proof -
  let ?lg = "logControlOperationForApply apply caller ''stop_requested''"
  let ?w2 = "if cc_IsRemote client then ?lg ''Stop request propagation to remote Tern durable queue started'' (oth 4 w) else oth 4 w"
  let ?r = "cc_Stop client tid environment (sw_db (oth 5 ?w2))"
  have 4: "stop_kept (ap_ID apply) (sw_db (oth 4 w))" using oth(1) w .
  then have "stop_kept (ap_ID apply) (sw_db ?w2)" by simp
  then have c: "stop_kept (ap_ID apply) (snd ?r)" by (intro cl oth(1))
  then have c': "stop_kept (ap_ID apply) (sw_db (snd (completeImmediateStopRequestIfStopped oth ce apply ((oth 5 ?w2)\<lparr>sw_db := snd ?r\<rparr>))))"
    by (intro completeImmediateStop_kept oth) simp_all
  obtain a d where r: "?r = (a, d)" by fastforce
  obtain b u where b: "completeImmediateStopRequestIfStopped oth ce apply ((oth 5 ?w2)\<lparr>sw_db := d\<rparr>) = (b, u)" by fastforce
  have "stop_kept (ap_ID apply) d" "stop_kept (ap_ID apply) (sw_db u)" using c c' b unfolding r by simp_all
  with 4 show ?thesis unfolding tryImmediateStopAfterQueue_def Let_def r prod.case b
    by (auto split: sum.split option.split bool.split)
qed

text \<open>
  (C30) A stop that the service accepts is not lost: as long as nobody else drops a pending stop of an unresolved apply or reopens a resolved one, and the
  data plane's own stop does not either, the apply's stop request is still pending for its owner when the answer is given, or the stored apply is stopped,
  cancelled or otherwise at its end. The immediate attempt, its failures and a request that was pending before are included.
\<close>

theorem accepted_stop_is_kept:
  assumes "ExecuteStop oth btw ce req w = (Inr (resp, status), w')" "cp_Accepted resp"
    and "controlTarget ce (crq_ApplyID req) (crq_Environment req) (sw_db w) = Inr (client, apply, tid)"
    and "\<And>n v. stop_kept (ap_ID apply) (sw_db v) \<Longrightarrow> stop_kept (ap_ID apply) (sw_db (oth n v))"
    and "\<And>n v. resolved_apply (ap_ID apply) (sw_db v) \<Longrightarrow> resolved_apply (ap_ID apply) (sw_db (oth n v))"
    and "\<And>d. stop_kept (ap_ID apply) d \<Longrightarrow> stop_kept (ap_ID apply) (snd (cc_Stop client tid (crq_Environment req) d))"
  shows "stop_kept (ap_ID apply) (sw_db w')"
proof -
  have "executeStopForApply oth btw ce client apply tid (crq_Environment req) (crq_Caller req) w = (Inr (resp, status), w')"
    using assms(1,3) by (simp add: ExecuteStop_def)
  then obtain r st w1 where q: "queueStopForApplyOwner oth btw ce apply (crq_Caller req) w = (Inr (r, st), w1)"
    and w': "w' = (if \<not> sr_Accepted r then w1
           else if st = ControlStatusAlreadyRequested
           then logControlOperationForApply apply (crq_Caller req) ''stop_requested'' ''Stop requested by user while stop request already pending'' (oth 3 w1)
           else tryImmediateStopAfterQueue oth ce client apply tid (crq_Environment req) (crq_Caller req)
                  (logControlOperationForApply apply (crq_Caller req) ''stop_requested'' ''Stop requested by user'' (oth 3 w1)))"
    unfolding executeStopForApply_def by (auto split: prod.splits sum.splits)
  have 1: "stop_kept (ap_ID apply) (sw_db w1)" using queueStopForApplyOwner_InrD [OF q] by (simp add: stop_kept_def)
  then have "stop_kept (ap_ID apply) (sw_db (oth 3 w1))" by (rule assms(4))
  with 1 tryImmediateStop_kept [OF assms(4,5,6)] show ?thesis unfolding w' by simp
qed

lemma complete_stop_ID: "complete_stop oth n ce apply w = (Inr a, w') \<Longrightarrow> a = apply"
  by (auto simp: complete_stop_def split: prod.splits sum.splits)

lemma completeResolvedStop_ID:
  "completeResolvedStopBeforeStart oth ce client apply w = (Inr a, w') \<Longrightarrow> ap_ID a = ap_ID apply"
  unfolding completeResolvedStopBeforeStart_def Let_def
  by (auto split: option.splits sum.splits prod.splits if_splits dest!: complete_stop_ID)

lemma start_by_state_InrD:
  "start_by_state oth btw ce client apply caller w = (Inr r, w') \<Longrightarrow> pending_request (sw_db w') (ap_ID apply) ControlOperationStart"
  unfolding start_by_state_def startResponseForPendingStartRequest_def pendingStartResponseIfPresent_def Let_def queueRemoteStoppedApplyForOperator_def
    queueStoppedApplyForOperator_def claim_and_persist_def persistStartRequestForOperator_def ensureStoredApplyStoppedForStartClaim_def
  by (auto simp: bind_result_Inr_iff split: if_splits sum.splits option.splits prod.splits dest!: pendingControlResponse_SomeD persist_request_InrD)

text \<open>
 A start that the service accepts is durable and was allowed: the apply was in one of the states that can be started - for a deferred deploy only
  while it waits for it -, no stop was pending for it when that was checked after a resolved stop was completed, and a start request
  of the apply is pending in the tables that the handler leaves, whatever others commit in between.
\<close>

theorem accepted_start_is_durable:
  assumes "ExecuteStart oth btw ce req w = (Inr (resp, status), w')" "cp_Accepted resp"
  shows "\<exists>client apply tid u v. controlTarget ce (crq_ApplyID req) (crq_Environment req) (sw_db w) = Inr (client, apply, tid)
     \<and> isStartRequestAllowedState (ap_State apply) \<and> (DeferDeploy (GetOptions apply) \<longrightarrow> IsState (ap_State apply) [Apply_WaitingForDeploy])
     \<and> \<not> pending_request (sw_db (oth 3 u)) (ap_ID apply) ControlOperationStop
     \<and> pending_request (sw_db v) (ap_ID apply) ControlOperationStart \<and> sw_db w' = sw_db (oth 8 v)"
proof -
  from assms(1) obtain client a tid where t: "controlTarget ce (crq_ApplyID req) (crq_Environment req) (sw_db w) = Inr (client, a, tid)"
    and x: "executeStartForApply oth btw ce client a (crq_Caller req) w = (Inr (resp, status), w')"
    unfolding ExecuteStart_def by (auto split: sum.splits)
  from x obtain b w1 w2 r st w3 where v: "validateStartRequestState a = None"
    and c: "completeResolvedStopBeforeStart oth ce client a w = (Inr b, w1)" and rj: "rejectControlIfStopPending ''start'' b (oth 3 w1) = (None, w2)"
    and sb: "start_by_state oth btw ce client b (crq_Caller req) w2 = (Inr (r, st), w3)" and resp: "resp = control_answer r st"
    and w': "w' = (if sr_Accepted r then logControlOperationForApply b (crq_Caller req) ''start_requested'' ''Start requested by user'' (oth 8 w3) else w3)"
    unfolding executeStartForApply_def by (auto split: option.splits prod.splits sum.splits)
  have i: "ap_ID b = ap_ID a" using completeResolvedStop_ID [OF c] .
  have "isStartRequestAllowedState (ap_State a) \<and> (DeferDeploy (GetOptions a) \<longrightarrow> IsState (ap_State a) [Apply_WaitingForDeploy])"
    using v unfolding validateStartRequestState_def by (auto split: if_splits)
  moreover have "sw_db w' = sw_db (oth 8 w3)" using assms(2) w' resp by (simp add: control_answer_def)
  ultimately show ?thesis
    using t start_by_state_InrD [OF sb] rejectControlIfStopPending_NoneD [OF rj] i by metis
qed

subsection \<open>A repeated stop\<close>

lemma find_updated_first:
  assumes "find P xs = Some e" "\<And>x. P (f x) = P x" "\<And>x. Q (f x)"
  shows "find (\<lambda>x. P x \<and> Q x) (update_where (\<lambda>x. key x = key e) f xs) = Some (f e)"
  using assms(1) by (induction xs) (auto simp: update_where_def assms(2,3) split: if_splits)

lemma fresh_requestPending:
  assumes "requestPending now btw row d = Inr (r, False, d')"
  shows "\<exists>cr. GetPending (cr_ApplyID row) (cr_Operation row) d' = Some cr \<and> cr_Metadata cr = nullJSON (cr_Metadata row) \<and> cr_Status cr = ControlRequestPending"
proof (cases "getByApplyOperationForUpdate (cr_ApplyID row) (cr_Operation row) d")
  case (Some e)
  then have "d' = d\<lparr>db_control_requests := update_where (\<lambda>cr. cr_ID cr = cr_ID e) (reset_request now row) (db_control_requests d)\<rparr>"
    using assms by (auto simp: requestPending_def Let_def split: if_splits)
  then have "GetPending (cr_ApplyID row) (cr_Operation row) d' = Some (reset_request now row e)"
    using find_updated_first [OF Some [unfolded getByApplyOperationForUpdate_def], where f = "reset_request now row" and key = cr_ID
        and Q = "\<lambda>cr. sql_eq (cr_Status cr) ControlRequestPending"]
    by (simp add: GetPending_def reset_request_def conj_assoc)
  then show ?thesis by (simp add: reset_request_def)
next
  case None
  define i where "i = next_control_request_id (btw d)"
  from None have n: "getByApplyOperationForUpdate (cr_ApplyID row) (cr_Operation row) (btw d) = None"
    and d': "db_control_requests d' = db_control_requests (btw d) @ [new_request now i row]"
    using assms by (auto simp: requestPending_def Let_def i_def split: if_splits)
  have "find (\<lambda>cr. cr_ApplyID cr = cr_ApplyID row \<and> sql_eq (cr_Operation cr) (cr_Operation row) \<and> sql_eq (cr_Status cr) ControlRequestPending)
      (xs @ [new_request now i row]) = Some (new_request now i row)"
    if "find (\<lambda>cr. cr_ApplyID cr = cr_ApplyID row \<and> sql_eq (cr_Operation cr) (cr_Operation row)) xs = None" for xs
    using that by (induction xs) (auto simp: new_request_def split: if_splits)
  then have "GetPending (cr_ApplyID row) (cr_Operation row) d' = Some (new_request now i row)"
    using n by (simp add: GetPending_def d' getByApplyOperationForUpdate_def)
  then show ?thesis by (simp add: new_request_def)
qed

lemma fresh_RequestPending:
  "RequestPending now b1 b2 row d = Inr (r, False, d')
   \<Longrightarrow> \<exists>cr. GetPending (cr_ApplyID row) (cr_Operation row) d' = Some cr \<and> cr_Metadata cr = nullJSON (cr_Metadata row) \<and> cr_Status cr = ControlRequestPending"
  unfolding RequestPending_def by (auto split: sum.splits dest: fresh_requestPending)

lemma json_text_nonempty [simp]: "json_text obj \<noteq> []"
  by (simp add: json_text_def)

lemma decode_written_counts:
  assumes "0 \<le> fst counts" "fst counts < 2 ^ 63" "0 \<le> snd counts" "snd counts < 2 ^ 63" "k1 \<noteq> k2"
  shows "decode_counts k1 k2 (control_metadata k1 k2 counts) (0, 0) = Some counts"
  using assms by (cases counts) (auto simp: control_metadata_def decode_count_def)

lemma fresh_stop:
  assumes "queueStopForApplyOwner oth btw ce apply caller w = (Inr (resp, []), w')"
  shows "\<exists>counts cr. 0 \<le> fst counts \<and> 0 \<le> snd counts
     \<and> resp = \<lparr>sr_Accepted = True, sr_ErrorMessage = [], sr_Done = fst counts, sr_Skipped = snd counts\<rparr>
     \<and> GetPending (ap_ID apply) ControlOperationStop (sw_db w') = Some cr \<and> cr_Status cr = ControlRequestPending
     \<and> cr_Metadata cr = json_text (control_metadata ''stopped_count'' ''skipped_count'' counts)"
proof -
  have ne: "ControlStatusAlreadyRequested \<noteq> []" by (simp add: ControlStatusAlreadyRequested_def)
  let ?counts = "stopRequestCounts (tk_GetByApplyID (ap_ID apply) (sw_db (oth 1 (oth 0 w))))"
  let ?row = "control_row apply ControlOperationStop caller (json_text (control_metadata ''stopped_count'' ''skipped_count'' ?counts))"
  from assms ne have p: "persist_request oth 2 btw ce apply ControlOperationStop caller [] ?counts (oth 1 (oth 0 w)) = (Inr (resp, []), w')"
    unfolding queueStopForApplyOwner_def Let_def pendingControlResponseIfPresent_def
    by (auto simp: bind_result_Inr_iff split: sum.splits option.splits if_splits)
  then obtain r where x: "sv_write oth 2 (request_pending ce btw ?row) (oth 1 (oth 0 w)) = (Inr (r, False), w')"
    and resp: "resp = \<lparr>sr_Accepted = True, sr_ErrorMessage = [], sr_Done = fst ?counts, sr_Skipped = snd ?counts\<rparr>"
    using ne unfolding persist_request_def createControlRequest_def count_names_def
    by (auto simp: bind_result_Inr_iff split: prod.splits sum.splits if_splits)
  from sv_write_InrD [OF x] obtain d where "RequestPending (ce_now ce) (fst btw) (snd btw) ?row d = Inr (r, False, sw_db w')"
    by (auto simp: request_pending_def bind_result_Inr_iff)
  from fresh_RequestPending [OF this] obtain cr where "GetPending (ap_ID apply) ControlOperationStop (sw_db w') = Some cr"
    "cr_Metadata cr = json_text (control_metadata ''stopped_count'' ''skipped_count'' ?counts)" "cr_Status cr = ControlRequestPending"
    by (auto simp: control_row_def nullJSON_def)
  with resp show ?thesis by (intro exI [of _ ?counts] exI [of _ cr]) (simp add: stopRequestCounts_def)
qed

text \<open>
 Asking again to stop an apply gives the same answer: a stop that was recorded with its counts of stopped and finished tasks is, while its request is
  pending, answered to the next caller with the same counts and the status that it was already requested, whatever the tasks have become meanwhile. This
  rests on encoding/json reading back the object it wrote.
\<close>

theorem repeated_stop_answers_the_same:
  assumes "queueStopForApplyOwner oth btw ce apply caller w = (Inr (resp, []), w')" "sr_Done resp < 2 ^ 63" "sr_Skipped resp < 2 ^ 63"
    and "let obj = control_metadata ''stopped_count'' ''skipped_count'' (sr_Done resp, sr_Skipped resp) in ce_unmarshal ce (json_text obj) = Some obj"
    and "ap_ID apply2 = ap_ID apply"
    and "GetPending (ap_ID apply) ControlOperationStop (sw_db (oth2 0 v)) = GetPending (ap_ID apply) ControlOperationStop (sw_db w')"
  shows "queueStopForApplyOwner oth2 btw2 ce apply2 caller2 v = (Inr (resp, ControlStatusAlreadyRequested), oth2 0 v)"
proof -
  from fresh_stop [OF assms(1)] obtain counts cr where c: "0 \<le> fst counts" "0 \<le> snd counts"
    "resp = \<lparr>sr_Accepted = True, sr_ErrorMessage = [], sr_Done = fst counts, sr_Skipped = snd counts\<rparr>"
    "GetPending (ap_ID apply) ControlOperationStop (sw_db w') = Some cr" "cr_Status cr = ControlRequestPending"
    "cr_Metadata cr = json_text (control_metadata ''stopped_count'' ''skipped_count'' counts)" by blast
  have "decode_counts ''stopped_count'' ''skipped_count'' (control_metadata ''stopped_count'' ''skipped_count'' counts) (0, 0) = Some counts"
    by (rule decode_written_counts) (use c assms(2,3) in simp_all)
  then have "decodeControlRequestMetadata ce ''stopped_count'' ''skipped_count'' cr = Inr counts"
    using assms(4) c by (simp add: decodeControlRequestMetadata_def Let_def)
  then have "stopResponseFromControlRequest ce (Some cr) = Inr resp"
    using c(3,5) by (cases counts) (simp add: stopResponseFromControlRequest_def response_from_request_def count_names_def applyControlRequestStatus_def)
  then show ?thesis using c(4) assms(5,6) by (simp add: queueStopForApplyOwner_def Let_def pendingControlResponseIfPresent_def)
qed

subsection \<open>Volume\<close>

definition limited_client :: "(string \<Rightarrow> string \<Rightarrow> 32 word \<Rightarrow> db \<Rightarrow> (string + volume_response) \<times> db) \<Rightarrow> control_client \<Rightarrow> control_client" where
  "limited_client other c = c\<lparr>cc_Volume := \<lambda>i e v d. if 1 \<le> sint v \<and> sint v \<le> 11 then cc_Volume c i e v d else other i e v d\<rparr>"

definition limited_env :: "(string \<Rightarrow> string \<Rightarrow> 32 word \<Rightarrow> db \<Rightarrow> (string + volume_response) \<times> db) \<Rightarrow> control_env \<Rightarrow> control_env" where
  "limited_env other ce = ce\<lparr>ce_client := \<lambda>dep env. map_sum id (limited_client other) (ce_client ce dep env)\<rparr>"

lemma decodeControlRequest_limited:
  "decodeControlRequest (limited_env other ce) body d = map_sum id (\<lambda>(c, a, i). (limited_client other c, a, i)) (decodeControlRequest ce body d)"
  by (auto simp: decodeControlRequest_def limited_env_def split: sum.split option.split)

lemma volume_range: "\<not> (v <s 1 \<or> 11 <s v) \<longleftrightarrow> 1 \<le> sint v \<and> sint v \<le> 11" for v :: "32 word"
  by (auto simp: word_sless_alt)

text \<open>
  (C39) Only volumes from 1 to 11 reach a data plane: a signed 32-bit volume outside that range is refused and changes nothing, and the answer and the effect
  of the handler are the same whatever a data plane would do with a volume outside the range.
\<close>

theorem volume_in_bounds:
  "handleVolume oth (limited_env other ce) body w = handleVolume oth ce body w
   \<and> (\<forall>a e v. body = Inr (a, e, v) \<and> \<not> (1 \<le> sint v \<and> sint v \<le> 11) \<longrightarrow> snd (handleVolume oth ce body w) = w \<and> (\<exists>err. fst (handleVolume oth ce body w) = Inl err))"
proof -
  have "handleVolume oth (limited_env other ce) body w = handleVolume oth ce body w"
    unfolding handleVolume_def decodeControlRequest_limited Let_def
    by (auto simp: limited_client_def volume_range [symmetric] split: sum.split prod.split)
  moreover have "snd (handleVolume oth ce body w) = w \<and> (\<exists>err. fst (handleVolume oth ce body w) = Inl err)"
    if "body = Inr (a, e, v)" "\<not> (1 \<le> sint v \<and> sint v \<le> 11)" for a e v
    using that unfolding handleVolume_def Let_def by (auto simp: volume_range [symmetric] split: sum.split prod.split)
  ultimately show ?thesis by blast
qed

subsection \<open>Rollback goes to the latest change\<close>

text \<open>The order of completion: tasks without a time of completion come first, by their time of creation.\<close>

definition completion_key :: "Task \<Rightarrow> nat \<times> int" where
  "completion_key t = (case tk_CompletedAt t of Some a \<Rightarrow> (1, a) | None \<Rightarrow> (0, tk_CreatedAt t))"

lemma completed_after_key: "rollbackTaskCompletedAfter a b \<longleftrightarrow> completion_key b < completion_key a"
  by (auto simp: rollbackTaskCompletedAfter_def completion_key_def less_prod_def split: option.splits)

lemma latest_loop_spec:
  assumes "latest_loop dbType environment latest ts = Some t"
  shows "(latest = Some t \<or> t \<in> set ts \<and> rollbackTaskMatchesPlannerScope t dbType environment)
     \<and> (\<forall>u. latest = Some u \<longrightarrow> completion_key u \<le> completion_key t)
     \<and> (\<forall>u \<in> set ts. rollbackTaskMatchesPlannerScope u dbType environment \<longrightarrow> completion_key u \<le> completion_key t)"
  using assms
proof (induction ts arbitrary: latest)
  case (Cons x xs)
  let ?m = "rollbackTaskMatchesPlannerScope x dbType environment"
  from Cons.prems have "latest_loop dbType environment (case latest of None \<Rightarrow> if ?m then Some x else None
        | Some cur \<Rightarrow> if ?m \<and> rollbackTaskCompletedAfter x cur then Some x else Some cur) xs = Some t" by simp
  note ih = Cons.IH [OF this]
  show ?case
  proof (cases latest)
    case None
    with ih show ?thesis by (cases ?m) auto
  next
    case (Some cur)
    show ?thesis
    proof (cases "?m \<and> completion_key cur < completion_key x")
      case True
      with ih Some show ?thesis by (auto simp: completed_after_key)
    next
      case False
      with ih Some have "latest = Some t \<or> t \<in> set xs \<and> rollbackTaskMatchesPlannerScope t dbType environment" "completion_key cur \<le> completion_key t"
        "\<forall>u \<in> set xs. rollbackTaskMatchesPlannerScope u dbType environment \<longrightarrow> completion_key u \<le> completion_key t"
        by (auto simp: completed_after_key)
      moreover from False have "?m \<Longrightarrow> completion_key x \<le> completion_key cur" by auto
      ultimately show ?thesis using Some by (auto intro: order_trans)
    qed
  qed
qed simp

text \<open>A completed task of a database, of a type and in an environment.\<close>

definition completed_change :: "string \<Rightarrow> string \<Rightarrow> string \<Rightarrow> Task \<Rightarrow> bool" where
  "completed_change database dbType environment t \<longleftrightarrow> IsState (tk_State t) [Task_Completed] \<and> sql_eq (tk_Database t) database
     \<and> tk_DatabaseType t = dbType \<and> tk_Environment t = environment"

lemma latestCompletedTask_spec:
  assumes "latestCompletedTaskForRollback database dbType environment d = Some t"
  shows "t \<in> set (db_tasks d) \<and> completed_change database dbType environment t
     \<and> (\<forall>u \<in> set (db_tasks d). completed_change database dbType environment u \<longrightarrow> completion_key u \<le> completion_key t)"
  using latest_loop_spec [OF assms [unfolded latestCompletedTaskForRollback_def]]
  by (auto simp: tk_GetByDatabase_def newest_tasks_by_id_def completed_change_def rollbackTaskMatchesPlannerScope_def)

lemma ValidateRollbackSourceApply_InrD:
  assumes "ValidateRollbackSourceApply req d plans = Inr (a, plan)"
  obtains t where "GetByApplyIdentifier (rbq_ApplyIdentifier req) d = Some a" "validateRollbackSourceScope req a = None"
    "pl_GetByID (ap_PlanID a) plans = Some plan" "latestCompletedTaskForRollback (ap_Database a) (ap_DatabaseType a) (ap_Environment a) d = Some t"
    "tk_ApplyID t = ap_ID a" "tk_PlanID t = ap_PlanID a"
  using assms unfolding ValidateRollbackSourceApply_def by (auto split: if_splits option.splits)

lemma rollback_files_InrD:
  "rollback_files nss = Inr sf \<Longrightarrow> list_all (\<lambda>(ns, v). \<exists>nd. v = Some nd \<and> np_OriginalFilesCaptured nd) nss
     \<and> sf = map (\<lambda>(ns, v). (ns, map_option np_OriginalFiles v)) nss"
  by (induction nss arbitrary: sf rule: rollback_files.induct) (auto simp: bind_result_Inr_iff split: option.splits if_splits)

text \<open>What a rollback asks a data plane for: the files from before the change, in the namespaces of the plan, at the plan's target.\<close>

definition rollback_request :: "Apply \<Rightarrow> Plan \<Rightarrow> tern_plan_request" where
  "rollback_request a plan = \<lparr>tpr_Database = ap_Database a, tpr_Type = ap_DatabaseType a,
     tpr_SchemaFiles = map (\<lambda>(ns, v). (ns, map_option np_OriginalFiles v)) (pn_Namespaces plan), tpr_Repository = ap_Repository a,
     tpr_PullRequest = to_int32 (ap_PullRequest a), tpr_Environment = ap_Environment a, tpr_Target = pn_Target plan, tpr_SchemaPath = [], tpr_HeadSha = []\<rparr>"

lemma ExecuteRollbackPlan_InrD:
  assumes "ExecuteRollbackPlanForApply TernClient now a d = (Inr resp, d')"
  shows "\<exists>plan client answer. pl_GetByID (ap_PlanID a) d = Some plan \<and> TernClient (ap_Deployment a) (ap_Environment a) = Inr client
     \<and> list_all (\<lambda>(ns, v). \<exists>nd. v = Some nd \<and> np_OriginalFilesCaptured nd) (pn_Namespaces plan) \<and> pn_Namespaces plan \<noteq> []
     \<and> tcl_Plan client (rollback_request a plan) = Inr answer \<and> resp = planResponseFromProto answer"
proof -
  from assms obtain plan where p: "pl_GetByID (ap_PlanID a) d = Some plan"
    unfolding ExecuteRollbackPlanForApply_def by (auto split: if_splits option.splits)
  from assms p obtain sf where s: "rollbackSchemaFiles plan = Inr sf"
    unfolding ExecuteRollbackPlanForApply_def by (auto split: if_splits sum.splits)
  then have sf: "list_all (\<lambda>(ns, v). \<exists>nd. v = Some nd \<and> np_OriginalFilesCaptured nd) (pn_Namespaces plan)"
    "sf = map (\<lambda>(ns, v). (ns, map_option np_OriginalFiles v)) (pn_Namespaces plan)" "sf \<noteq> []"
    by (auto simp: rollbackSchemaFiles_def bind_result_Inr_iff split: if_splits dest!: rollback_files_InrD)
  from assms p s obtain client where c: "TernClient (ap_Deployment a) (ap_Environment a) = Inr client"
    unfolding ExecuteRollbackPlanForApply_def by (auto split: if_splits sum.splits)
  from assms p s c have "\<exists>answer. tcl_Plan client (rollback_request a plan) = Inr answer \<and> resp = planResponseFromProto answer"
    unfolding ExecuteRollbackPlanForApply_def Let_def rollback_request_def sf(2) [symmetric]
    by (auto split: if_splits sum.splits prod.splits option.splits)
  with p c sf show ?thesis by auto
qed

text \<open>
  (C38) A rollback is planned only for the apply of the latest completed task, and back to the files from before it: when the handler answers with a
  plan, the apply it names is completed and of the named environment; one of its tasks, made for the apply's plan, is completed, of the same database,
  type and environment, and no completed task of that database, type and environment was completed later; every namespace of the plan has its
  original files, and the answer is the data plane's to exactly these files at the target the plan was made for. Changes without a task do not
  count (\<open>rollback_passes_over_taskless_change\<close> below).
\<close>

theorem rollback_restores_the_latest_change:
  assumes "handleRollbackPlan TernClient now (Inr (applyID, environment)) d plans = (Inr resp, plans')"
  shows "\<exists>a plan t client answer. GetByApplyIdentifier applyID d = Some a \<and> IsState (ap_State a) [Apply_Completed] \<and> ap_Environment a = environment
     \<and> pl_GetByID (ap_PlanID a) plans = Some plan \<and> t \<in> set (db_tasks d) \<and> tk_ApplyID t = ap_ID a \<and> tk_PlanID t = ap_PlanID a
     \<and> IsState (tk_State t) [Task_Completed] \<and> sql_eq (tk_Database t) (ap_Database a) \<and> tk_DatabaseType t = ap_DatabaseType a \<and> tk_Environment t = environment
     \<and> (\<forall>u \<in> set (db_tasks d). IsState (tk_State u) [Task_Completed] \<and> sql_eq (tk_Database u) (ap_Database a) \<and> tk_DatabaseType u = ap_DatabaseType a
          \<and> tk_Environment u = environment \<longrightarrow> completion_key u \<le> completion_key t)
     \<and> list_all (\<lambda>(ns, v). \<exists>nd. v = Some nd \<and> np_OriginalFilesCaptured nd) (pn_Namespaces plan)
     \<and> TernClient (ap_Deployment a) environment = Inr client \<and> tcl_Plan client (rollback_request a plan) = Inr answer
     \<and> resp = planResponseFromProto answer"
proof -
  let ?req = "\<lparr>rbq_ApplyIdentifier = applyID, rbq_Environment = environment, rbq_Repository = [], rbq_PullRequest = 0, rbq_RequirePullRequestScope = False\<rparr>"
  from assms obtain a plan where v: "ValidateRollbackSourceApply ?req d plans = Inr (a, plan)"
    and x: "ExecuteRollbackPlanForApply TernClient now a plans = (Inr resp, plans')"
    unfolding handleRollbackPlan_def by (auto split: sum.splits prod.splits)
  from ValidateRollbackSourceApply_InrD [OF v] obtain t where g: "GetByApplyIdentifier applyID d = Some a" "validateRollbackSourceScope ?req a = None"
    "pl_GetByID (ap_PlanID a) plans = Some plan" "latestCompletedTaskForRollback (ap_Database a) (ap_DatabaseType a) (ap_Environment a) d = Some t"
    "tk_ApplyID t = ap_ID a" "tk_PlanID t = ap_PlanID a" by auto
  have s: "IsState (ap_State a) [Apply_Completed]" "ap_Environment a = environment"
    using g(2) by (auto simp: validateRollbackSourceScope_def split: if_splits)
  from ExecuteRollbackPlan_InrD [OF x] g latestCompletedTask_spec [OF g(4), unfolded completed_change_def] s show ?thesis by auto
qed

subsection \<open>Sample runs\<close>

definition sample_engine_status :: engine_status where
  "sample_engine_status = \<lparr>vitess_Requested = ''requested'', vitess_Cancelled = ''cancelled'', vitess_Queued = ''queued'',
     vitess_Ready = ''ready'', vitess_Running = ''running'', vitess_Complete = ''complete'', vitess_Failed = ''failed'',
     spirit_Close = ''close'', spirit_Checksum = ''checksum'', spirit_CopyRows = ''copyRows'', spirit_Initial = ''initial'',
     spirit_ApplyChangeset = ''applyChangeset'', spirit_RestoreSecondaryIndexes = ''restoreSecondaryIndexes'',
     spirit_AnalyzeTable = ''analyzeTable'', spirit_PostChecksum = ''postChecksum'', spirit_ErrCleanup = ''errCleanup'',
     spirit_WaitingOnSentinelTable = ''waitingOnSentinelTable'', spirit_CutOver = ''cutOver''\<rparr>"

text \<open>A local data plane that stops at once.\<close>

definition set_apply_state :: "string \<Rightarrow> db \<Rightarrow> db" where
  "set_apply_state st d = d\<lparr>db_applies := map (\<lambda>a. a\<lparr>ap_State := st\<rparr>) (db_applies d)\<rparr>"

definition sample_control_client :: control_client where
  "sample_control_client = \<lparr>cc_IsRemote = False, cc_Progress = (\<lambda>_ _. Inl ''not remote''),
     cc_Stop = (\<lambda>_ _ d. (Inr (Some \<lparr>sr_Accepted = True, sr_ErrorMessage = [], sr_Done = 1, sr_Skipped = 0\<rparr>), set_apply_state Apply_Stopped d)),
     cc_Volume = (\<lambda>_ _ v d. (Inr \<lparr>vr_Accepted = True, vr_ErrorMessage = [], vr_PreviousVolume = 1, vr_NewVolume = sint v\<rparr>, d)),
     cc_Revert = (\<lambda>_ _ d. (Inr (True, []), d)), cc_SkipRevert = (\<lambda>_ _ d. (Inr (True, []), d))\<rparr>"

definition sample_control :: control_env where
  "sample_control = \<lparr>ce_client = (\<lambda>_ _. Inr sample_control_client), ce_now = 300,
     ce_unmarshal = (\<lambda>s. if s = json_text [(''stopped_count'', JNum 1)] then Some [(''stopped_count'', JNum 1)] else None), ce_engine_status = sample_engine_status\<rparr>"

definition sample_control_db :: "string \<Rightarrow> string \<Rightarrow> db" where
  "sample_control_db st ts = empty_db\<lparr>db_applies := [sample_apply st], db_operations := [sample_operation 1 ''eu'' st ''t1''],
     db_tasks := [(sample_task 1 ''k1'' [])\<lparr>tk_State := ts, tk_DatabaseType := ''mysql''\<rparr>], next_apply_id := 2, next_operation_id := 2, next_task_id := 2\<rparr>"

definition sample_control_world :: "string \<Rightarrow> string \<Rightarrow> service_world" where
  "sample_control_world st ts = \<lparr>sw_db = sample_control_db st ts, sw_plans = no_plans, sw_locks = \<lparr>db_locks = [], next_lock_id = 1\<rparr>, sw_log = [],
     sw_pending_observers = [], sw_observers = []\<rparr>"

definition sample_control_request :: ControlRequest where
  "sample_control_request = \<lparr>crq_ApplyID = ''a1'', crq_Environment = ''prod'', crq_Caller = ''ann''\<rparr>"

lemma sample_target:
  "controlTarget sample_control (crq_ApplyID sample_control_request) (crq_Environment sample_control_request) (sw_db (sample_control_world st ts))
     = Inr (sample_control_client, sample_apply st, ''a1'')"
proof -
  have "GetByApplyIdentifier ''a1'' (sample_control_db st ts) = Some (sample_apply st)"
    by (simp add: GetByApplyIdentifier_def sample_control_db_def sample_apply_def)
  then show ?thesis
    by (simp add: controlTarget_def sample_control_request_def sample_control_world_def sample_control_def storedDeploymentForApply_def
        ternApplyIDForStoredApply_def sample_apply_def)
qed

theorem accepted_cutover_is_durable_witness:
  "pending_request (sw_db (snd (ExecuteCutover (\<lambda>_. id) (id, id) sample_control sample_control_request (sample_control_world Apply_Running Task_WaitingForCutover))))
     1 ControlOperationCutover"
proof -
  let ?r = "ExecuteCutover (\<lambda>_. id) (id, id) sample_control sample_control_request (sample_control_world Apply_Running Task_WaitingForCutover)"
  have f: "fst ?r = Inr (accepted_response [], 200)" by code_simp
  have r: "?r = (Inr (accepted_response [], 200), snd ?r)" unfolding f [symmetric] by simp
  have n: "cp_Status (accepted_response []) \<noteq> ControlStatusAlreadyInProgress" by code_simp
  have i: "ap_ID (sample_apply st) = 1" for st by (simp add: sample_apply_def)
  have g: "GetByApplyIdentifier (crq_ApplyID sample_control_request) (sw_db (sample_control_world Apply_Running Task_WaitingForCutover)) = Some (sample_apply Apply_Running)"
    by (simp add: GetByApplyIdentifier_def sample_control_request_def sample_control_world_def sample_control_db_def sample_apply_def)
  from accepted_cutover_is_durable [OF r] n show ?thesis unfolding g by (simp add: i)
qed

theorem accepted_stop_is_kept_witness:
  "let w' = snd (ExecuteStop (\<lambda>_. id) (id, id) sample_control sample_control_request (sample_control_world Apply_Running Task_Running)) in
   resolved_apply 1 (sw_db w') \<and> \<not> pending_request (sw_db w') 1 ControlOperationStop \<and> stop_kept 1 (sw_db w')"
proof -
  let ?r = "ExecuteStop (\<lambda>_. id) (id, id) sample_control sample_control_request (sample_control_world Apply_Running Task_Running)"
  let ?a = "\<lparr>cp_Accepted = True, cp_ErrorMessage = [], cp_Done = 1, cp_Skipped = 0, cp_Status = []\<rparr>"
  have f: "fst ?r = Inr (?a, 200)" by code_simp
  have r: "?r = (Inr (?a, 200), snd ?r)" unfolding f [symmetric] by simp
  have i: "ap_ID (sample_apply st) = 1" for st by (simp add: sample_apply_def)
  have st: "stopRequestCompletedByApplyState Apply_Stopped" by code_simp
  have k: "stop_kept 1 d \<Longrightarrow> stop_kept 1 (snd (cc_Stop sample_control_client tid e d))" for tid e d
    by (auto simp: stop_kept_def sample_control_client_def set_apply_state_def pending_request_def resolved_apply_def st list_ex_iff)
  have "stop_kept (ap_ID (sample_apply Apply_Running)) (sw_db (snd ?r))"
    by (rule accepted_stop_is_kept [OF r _ sample_target]) (simp_all add: i k)
  moreover have "resolved_apply 1 (sw_db (snd ?r))" "\<not> pending_request (sw_db (snd ?r)) 1 ControlOperationStop" by (code_simp, code_simp)
  ultimately show ?thesis by (simp add: i)
qed

theorem repeated_stop_answers_the_same_witness:
  "let w' = snd (queueStopForApplyOwner (\<lambda>_. id) (id, id) sample_control (sample_apply Apply_Running) ''ann'' (sample_control_world Apply_Running Task_Running)) in
   queueStopForApplyOwner (\<lambda>_. id) (id, id) sample_control (sample_apply Apply_Running) ''bob'' w'
     = (Inr (\<lparr>sr_Accepted = True, sr_ErrorMessage = [], sr_Done = 1, sr_Skipped = 0\<rparr>, ControlStatusAlreadyRequested), w')"
proof -
  let ?r = "queueStopForApplyOwner (\<lambda>_. id) (id, id) sample_control (sample_apply Apply_Running) ''ann'' (sample_control_world Apply_Running Task_Running)"
  let ?a = "\<lparr>sr_Accepted = True, sr_ErrorMessage = [], sr_Done = 1, sr_Skipped = 0\<rparr>"
  have f: "fst ?r = Inr (?a, [])" by code_simp
  have r: "?r = (Inr (?a, []), snd ?r)" unfolding f [symmetric] by simp
  have "queueStopForApplyOwner (\<lambda>_. id) (id, id) sample_control (sample_apply Apply_Running) ''bob'' (snd ?r)
      = (Inr (?a, ControlStatusAlreadyRequested), id (snd ?r))"
    by (rule repeated_stop_answers_the_same [OF r]) (simp_all add: control_metadata_def sample_control_def)
  then show ?thesis by simp
qed

theorem volume_in_bounds_witness:
  "snd (handleVolume (\<lambda>_. id) sample_control (Inr (''a1'', ''prod'', - 1)) (sample_control_world Apply_Running Task_Running)) = sample_control_world Apply_Running Task_Running
   \<and> fst (handleVolume (\<lambda>_. id) sample_control (Inr (''a1'', ''prod'', 11)) (sample_control_world Apply_Running Task_Running))
       = Inr \<lparr>vr_Accepted = True, vr_ErrorMessage = [], vr_PreviousVolume = 1, vr_NewVolume = 11\<rparr>"
proof -
  have n: "\<not> (1 \<le> sint (- 1 :: 32 word) \<and> sint (- 1 :: 32 word) \<le> 11)" by simp
  have "snd (handleVolume (\<lambda>_. id) sample_control (Inr (''a1'', ''prod'', - 1)) (sample_control_world Apply_Running Task_Running)) = sample_control_world Apply_Running Task_Running"
    using volume_in_bounds [of "\<lambda>_. id" undefined sample_control "Inr (''a1'', ''prod'', - 1)" "sample_control_world Apply_Running Task_Running"] n by blast
  moreover have "fst (handleVolume (\<lambda>_. id) sample_control (Inr (''a1'', ''prod'', 11)) (sample_control_world Apply_Running Task_Running))
       = Inr \<lparr>vr_Accepted = True, vr_ErrorMessage = [], vr_PreviousVolume = 1, vr_NewVolume = 11\<rparr>" by code_simp
  ultimately show ?thesis by blast
qed

definition rollback_db :: db where
  "rollback_db = (sample_control_db Apply_Completed Task_Completed)"

definition rollback_plans :: plan_db where
  "rollback_plans = snd (projr (pl_Create ((sharded_plan [''users''])\<lparr>pn_Database := ''shop'', pn_DatabaseType := ''mysql'', pn_Environment := ''prod'', pn_PlanIdentifier := ''plan-0''\<rparr>) no_plans))"

theorem rollback_restores_the_latest_change_witness:
  "\<exists>plan. pl_GetByID 1 rollback_plans = Some plan
     \<and> fst (handleRollbackPlan (\<lambda>_ _. Inr sample_client) 400 (Inr (''a1'', ''prod'')) rollback_db rollback_plans) = Inr (planResponseFromProto sample_answer)
     \<and> list_all (\<lambda>(ns, v). \<exists>nd. v = Some nd \<and> np_OriginalFilesCaptured nd) (pn_Namespaces plan)"
proof -
  let ?r = "handleRollbackPlan (\<lambda>_ _. Inr sample_client) 400 (Inr (''a1'', ''prod'')) rollback_db rollback_plans"
  have f: "fst ?r = Inr (planResponseFromProto sample_answer)" by code_simp
  have r: "?r = (Inr (planResponseFromProto sample_answer), snd ?r)" unfolding f [symmetric] by simp
  have g: "GetByApplyIdentifier ''a1'' rollback_db = Some (sample_apply Apply_Completed)"
    by (simp add: GetByApplyIdentifier_def rollback_db_def sample_control_db_def sample_apply_def)
  have i: "ap_PlanID (sample_apply Apply_Completed) = 1" by (simp add: sample_apply_def)
  from rollback_restores_the_latest_change [OF r] f show ?thesis unfolding g by (auto simp: i)
qed

subsection \<open>What goes wrong\<close>

text \<open>
  A rollback passes over a change that has no task: an apply of a VSchema alone has none, so when one completed after the apply that is named, the
  rollback of the older apply is planned all the same.
\<close>

definition taskless_change :: Apply where
  "taskless_change = (sample_apply Apply_Completed)\<lparr>ap_ID := 2, ap_ApplyIdentifier := ''a2'', ap_PlanID := 2, ap_CreatedAt := 800, ap_CompletedAt := Some 900\<rparr>"

lemma rollback_passes_over_taskless_change:
  "fst (handleRollbackPlan (\<lambda>_ _. Inr sample_client) 400 (Inr (''a1'', ''prod'')) (rollback_db\<lparr>db_applies := db_applies rollback_db @ [taskless_change]\<rparr>) rollback_plans)
     = Inr (planResponseFromProto sample_answer)
   \<and> (ap_Database taskless_change, ap_DatabaseType taskless_change, ap_Environment taskless_change)
     = (ap_Database (hd (db_applies rollback_db)), ap_DatabaseType (hd (db_applies rollback_db)), ap_Environment (hd (db_applies rollback_db)))
   \<and> list_all (\<lambda>t. tk_ApplyID t = 1 \<and> (case tk_CompletedAt t of None \<Rightarrow> tk_CreatedAt t < 800 | Some at \<Rightarrow> at < 800)) (db_tasks rollback_db)"
proof (intro conjI)
  show "fst (handleRollbackPlan (\<lambda>_ _. Inr sample_client) 400 (Inr (''a1'', ''prod'')) (rollback_db\<lparr>db_applies := db_applies rollback_db @ [taskless_change]\<rparr>) rollback_plans)
     = Inr (planResponseFromProto sample_answer)" by code_simp
qed code_simp+

text \<open>
  A sharded apply cannot be stopped: its tasks all carry a shard, and the tasks that the handlers count are those without one, so right after such
  an apply was queued a stop is refused because there is no active schema change.
\<close>

definition sharded_apply_world :: service_world where
  "sharded_apply_world = snd (ExecuteApply (\<lambda>_. id) sample_service sample_apply_request (sample_service_world [''users'']))"

theorem sharded_apply_cannot_be_stopped:
  "fst (ExecuteStop (\<lambda>_. id) (id, id) sample_control \<lparr>crq_ApplyID = ''apply-a1'', crq_Environment = ''staging'', crq_Caller = ''ann''\<rparr> sharded_apply_world)
     = Inl (controlConflictf ''no active schema change for apply'')
   \<and> map tk_State (filter (\<lambda>t. tk_ApplyID t = 1) (db_tasks (sw_db sharded_apply_world))) = replicate 4 Task_Pending"
proof (rule conjI)
  show "fst (ExecuteStop (\<lambda>_. id) (id, id) sample_control \<lparr>crq_ApplyID = ''apply-a1'', crq_Environment = ''staging'', crq_Caller = ''ann''\<rparr> sharded_apply_world)
     = Inl (controlConflictf ''no active schema change for apply'')" by code_simp
  show "map tk_State (filter (\<lambda>t. tk_ApplyID t = 1) (db_tasks (sw_db sharded_apply_world))) = replicate 4 Task_Pending" by code_simp
qed

text \<open>
  A start can undo the end of an apply: the handler marks the apply as stopped from the copy it read at the beginning, without a lease and without
  comparing the stored state, so an apply whose driver finished it in between is stopped again and queued for another run.
\<close>

definition finishing_driver :: service_others where
  "finishing_driver n w = (if n = 6 then w\<lparr>sw_db := set_apply_state Apply_Completed (sw_db w)\<rparr> else w)"

theorem start_reopens_a_finished_apply:
  "map ap_State (db_applies (sw_db (finishing_driver 6 (sample_control_world Apply_Running Task_Stopped)))) = [Apply_Completed]
   \<and> map ap_State (db_applies (sw_db (snd (ExecuteStart finishing_driver (id, id) sample_control sample_control_request
        (sample_control_world Apply_Running Task_Stopped))))) = [Apply_Stopped]"
proof (rule conjI)
  show "map ap_State (db_applies (sw_db (finishing_driver 6 (sample_control_world Apply_Running Task_Stopped)))) = [Apply_Completed]" by code_simp
  show "map ap_State (db_applies (sw_db (snd (ExecuteStart finishing_driver (id, id) sample_control sample_control_request
        (sample_control_world Apply_Running Task_Stopped))))) = [Apply_Stopped]" by code_simp
qed

end
