(* ===== verification/SB_PR_Control.thy ===== *)
theory SB_PR_Control
  imports SB_Control SB_Apply_Command
begin

section \<open>Control and rollback commands of a pull request (webhook/control.go, rollback.go)\<close>

text \<open>
  A comment stops, starts or cuts over an apply of its pull request, plans a rollback under the database lock and confirms it. The handlers are programs
  that may return early, as in \<^verbatim>\<open>SB_Apply_Command\<close>, over the tables of the service and the comments posted; \<open>prw_executed\<close> logs the requests handed to
  \<^verbatim>\<open>ExecuteApply\<close> with the tables at that moment. \<open>oth n\<close> is what others commit before the n-th call of a handler, \<open>px_others\<close> the same inside the service's
  own handlers, \<open>px_locks n\<close> during the n-th call of the lock store. The validation of a rollback reads one snapshot. What follows an accepted rollback -
  its check row, the progress comment and its observer - is that of an apply.
\<close>

subsection \<open>State and surroundings\<close>

datatype pr_comment = Pc_Error string | Pc_Control_Error control_error | Pc_Gate gate_block | Pc_Missing_Apply_ID | Pc_Apply_Not_Found | Pc_Not_Accepted string
  | Pc_Accepted control_response | Pc_Rejected control_error | Pc_Blocked_By_Lock Lock | Pc_Plan_Failed service_error | Pc_Nothing_To_Do | Pc_Plan PlanResponse
  | Pc_No_Lock | Pc_Already_Rolled_Back | Pc_Already_Rolled_Back_Lock_Held | Pc_Execute_Failed service_error | Pc_Progress int

record pr_world =
  prw_service :: service_world
  prw_comments :: "pr_comment list"
  prw_executed :: "(ApplyRequest \<times> service_world) list"

record pr_env =
  px_config :: ServerConfig
  px_gates :: gate_github
  px_clients :: bool
  px_client :: bool
  px_factory :: bool
  px_observer :: nat
  px_control :: control_env
  px_service :: service_env
  px_others :: service_others
  px_windows :: request_windows
  px_locks :: "nat \<Rightarrow> nat \<Rightarrow> lock_db stmt_env"
  px_lock_cancelled :: "nat \<Rightarrow> bool"
  px_now :: int

type_synonym 'a prc = "('a, pr_world) early"

definition say_pr :: "pr_comment \<Rightarrow> unit prc" where
  "say_pr c w = (Some (), w\<lparr>prw_comments := prw_comments w @ [c]\<rparr>)"

definition fail_pr :: "pr_comment \<Rightarrow> 'a prc" where
  "fail_pr c = seq (say_pr c) (\<lambda>_. stop)"

definition gate_pr :: "gate_block option \<Rightarrow> unit prc" where
  "gate_pr b = (case b of None \<Rightarrow> ret () | Some block \<Rightarrow> fail_pr (Pc_Gate block))"

definition at_service :: "service_others \<Rightarrow> nat \<Rightarrow> (service_world \<Rightarrow> 'a \<times> service_world) \<Rightarrow> 'a prc" where
  "at_service oth n f w = (case f (oth n (prw_service w)) of (x, sw) \<Rightarrow> (Some x, w\<lparr>prw_service := sw\<rparr>))"

definition read_pr :: "service_others \<Rightarrow> nat \<Rightarrow> (service_world \<Rightarrow> 'a) \<Rightarrow> 'a prc" where
  "read_pr oth n g = at_service oth n (\<lambda>sw. (g sw, sw))"

definition authorization_client :: "pr_env \<Rightarrow> gate_github option prc" where
  "authorization_client e =
     (if \<not> PRCommandAuthorizationEnabled (Some (px_config e)) \<or> \<not> px_clients e then ret None
      else if \<not> px_client e then fail_pr (Pc_Gate Authorization_Unavailable)
      else ret (Some (px_gates e)))"

subsection \<open>Stop, start and cutover (control.go)\<close>

definition loadApplyForPRControl :: "service_others \<Rightarrow> command_target \<Rightarrow> Apply prc" where
  "loadApplyForPRControl oth t = (let r = ct_result t in
     if cmd_ApplyID r = [] then fail_pr Pc_Missing_Apply_ID
     else seq (read_pr oth 0 (\<lambda>sw. GetByApplyIdentifier (cmd_ApplyID r) (sw_db sw))) (\<lambda>found. case found of
         None \<Rightarrow> fail_pr (Pc_Error ''Apply not found'')
       | Some apply \<Rightarrow>
           if ap_Repository apply \<noteq> ct_repo t \<or> ap_PullRequest apply \<noteq> ct_pr t then fail_pr (Pc_Error ''Apply is not associated with this PR'')
           else if ap_Environment apply \<noteq> cmd_Environment r then fail_pr (Pc_Error ''Apply belongs to another environment'')
           else ret apply))"

definition pr_caller :: "command_target \<Rightarrow> string" where
  "pr_caller t = ''github:'' @ ct_requestedBy t @ ''@'' @ ct_repo t @ ''#'' @ itoa (ct_pr t)"

definition runControlCommand ::
  "pr_env \<Rightarrow> service_others \<Rightarrow> command_target \<Rightarrow> (ControlRequest \<Rightarrow> service_world \<Rightarrow> (control_error + (control_response \<times> nat)) \<times> service_world) \<Rightarrow> control_response prc" where
  "runControlCommand e oth t execute =
     seq (loadApplyForPRControl oth t) (\<lambda>apply.
     seq (authorization_client e) (\<lambda>client.
     seq (gate_pr (enforcePRCommandActorAuthorization client (px_config e) (ct_requestedBy t) (ap_Database apply))) (\<lambda>_.
     seq (at_service oth 1 (execute \<lparr>crq_ApplyID = cmd_ApplyID (ct_result t), crq_Environment = cmd_Environment (ct_result t), crq_Caller = pr_caller t\<rparr>)) (\<lambda>r.
       case r of
         Inl err \<Rightarrow> fail_pr (Pc_Control_Error err)
       | Inr (resp, _) \<Rightarrow> if \<not> cp_Accepted resp then fail_pr (Pc_Not_Accepted (cp_ErrorMessage resp)) else ret resp))))"

definition handleStopCommand :: "pr_env \<Rightarrow> service_others \<Rightarrow> command_target \<Rightarrow> unit prc" where
  "handleStopCommand e oth t = seq (runControlCommand e oth t (ExecuteStop (px_others e) (px_windows e) (px_control e))) (\<lambda>resp. say_pr (Pc_Accepted resp))"

definition handleStartCommand :: "pr_env \<Rightarrow> service_others \<Rightarrow> command_target \<Rightarrow> unit prc" where
  "handleStartCommand e oth t = seq (runControlCommand e oth t (ExecuteStart (px_others e) (px_windows e) (px_control e))) (\<lambda>resp. say_pr (Pc_Accepted resp))"

definition handleCutoverCommand :: "pr_env \<Rightarrow> service_others \<Rightarrow> command_target \<Rightarrow> unit prc" where
  "handleCutoverCommand e oth t = seq (runControlCommand e oth t (ExecuteCutover (px_others e) (px_windows e) (px_control e))) (\<lambda>resp. say_pr (Pc_Accepted resp))"

subsection \<open>The lock store\<close>

definition pr_lock_Get :: "pr_env \<Rightarrow> service_others \<Rightarrow> nat \<Rightarrow> string \<Rightarrow> string \<Rightarrow> (mysql_error + Lock option) prc" where
  "pr_lock_Get e oth n database dbType = at_service oth n (\<lambda>sw.
     case exec_stmt (px_locks e n 0) 0 (get_stmt database dbType) (sw_locks sw) of (r, d) \<Rightarrow> (r, sw\<lparr>sw_locks := d\<rparr>))"

definition pr_lock_Acquire :: "pr_env \<Rightarrow> service_others \<Rightarrow> nat \<Rightarrow> Lock \<Rightarrow> lock_error option prc" where
  "pr_lock_Acquire e oth n lock = at_service oth n (\<lambda>sw.
     case lk_Acquire (px_lock_cancelled e) (px_locks e n) (px_now e) lock (sw_locks sw) of (r, d) \<Rightarrow> (r, sw\<lparr>sw_locks := d\<rparr>))"

definition pr_lock_Release :: "pr_env \<Rightarrow> service_others \<Rightarrow> nat \<Rightarrow> string \<Rightarrow> string \<Rightarrow> string \<Rightarrow> lock_error option prc" where
  "pr_lock_Release e oth n database dbType owner = at_service oth n (\<lambda>sw.
     case lk_Release (px_locks e n 0) database dbType owner (sw_locks sw) of (r, d) \<Rightarrow> (r, sw\<lparr>sw_locks := d\<rparr>))"

definition pr_lock_row :: "command_target \<Rightarrow> string \<Rightarrow> string \<Rightarrow> string \<Rightarrow> Lock" where
  "pr_lock_row t database dbType pendingPlanID = \<lparr>lk_ID = 0, lk_DatabaseName = database, lk_DatabaseType = dbType,
     lk_Repository = ct_repo t, lk_PullRequest = ct_pr t, lk_Owner = lockOwner t, lk_PendingPlanID = pendingPlanID, lk_CreatedAt = 0, lk_UpdatedAt = 0\<rparr>"

subsection \<open>Planning a rollback (rollback.go)\<close>

definition rollbackPendingPlanID :: "string \<Rightarrow> string" where
  "rollbackPendingPlanID planID = (if planID = [] then [] else rollbackPendingPlanPrefix @ planID)"

definition rollbackPlanIDFromLock :: "Lock \<Rightarrow> string option" where
  "rollbackPlanIDFromLock lock =
     (if \<not> has_prefix (lk_PendingPlanID lock) rollbackPendingPlanPrefix then None
      else (let planID = trim_prefix (lk_PendingPlanID lock) rollbackPendingPlanPrefix in if planID = [] then None else Some planID))"

definition rollbackPlanResponseHasChanges :: "PlanResponse \<Rightarrow> bool" where
  "rollbackPlanResponseHasChanges resp = list_ex (\<lambda>sc. length (scr_TableChanges sc) > 0
     \<or> lookup_text (scr_Metadata sc) ''vschema'' \<noteq> [] \<or> lookup_text (scr_Metadata sc) ''vschema_changed'' = ''true'') (plr_Changes resp)"

definition rollback_source :: "command_target \<Rightarrow> RollbackSourceRequest" where
  "rollback_source t = \<lparr>rbq_ApplyIdentifier = cmd_ApplyID (ct_result t), rbq_Environment = cmd_Environment (ct_result t), rbq_Repository = ct_repo t,
     rbq_PullRequest = ct_pr t, rbq_RequirePullRequestScope = True\<rparr>"

definition validate_rollback :: "service_others \<Rightarrow> nat \<Rightarrow> command_target \<Rightarrow> (control_error + (Apply \<times> Plan)) prc" where
  "validate_rollback oth n t = read_pr oth n (\<lambda>sw. ValidateRollbackSourceApply (rollback_source t) (sw_db sw) (sw_plans sw))"

definition handleRollbackSourceError :: "control_error \<Rightarrow> 'a prc" where
  "handleRollbackSourceError err = (let status = controlOperationHTTPStatus err in
     if status = 404 then fail_pr Pc_Apply_Not_Found else if status \<ge> 500 then fail_pr (Pc_Control_Error err) else fail_pr (Pc_Rejected err))"

definition releaseRollbackLockAfterRejectedPlan :: "pr_env \<Rightarrow> service_others \<Rightarrow> nat \<Rightarrow> command_target \<Rightarrow> Apply \<Rightarrow> bool \<Rightarrow> unit prc" where
  "releaseRollbackLockAfterRejectedPlan e oth n t apply release =
     (if \<not> release then ret () else seq (pr_lock_Release e oth n (ap_Database apply) (ap_DatabaseType apply) (lockOwner t)) (\<lambda>_. ret ()))"

text \<open>Up to the first validation.\<close>

definition rollback_gates :: "pr_env \<Rightarrow> service_others \<Rightarrow> command_target \<Rightarrow> Apply prc" where
  "rollback_gates e oth t =
     (if cmd_ApplyID (ct_result t) = [] then fail_pr Pc_Missing_Apply_ID
      else seq (read_pr oth 0 (\<lambda>sw. GetByApplyIdentifier (cmd_ApplyID (ct_result t)) (sw_db sw))) (\<lambda>found. case found of
          None \<Rightarrow> fail_pr Pc_Apply_Not_Found
        | Some apply \<Rightarrow>
            if \<not> IsEnvironmentAllowed (Some (px_config e)) (ap_Environment apply) then stop
            else seq (authorization_client e) (\<lambda>client.
              seq (gate_pr (enforcePRCommandActorAuthorization client (px_config e) (ct_requestedBy t) (ap_Database apply))) (\<lambda>_.
              seq (validate_rollback oth 1 t) (\<lambda>v. case v of
                  Inl err \<Rightarrow> handleRollbackSourceError err
                | Inr _ \<Rightarrow> ret apply)))))"

text \<open>The lock: whether this command acquired it.\<close>

definition rollback_take_lock :: "pr_env \<Rightarrow> service_others \<Rightarrow> command_target \<Rightarrow> Apply \<Rightarrow> bool prc" where
  "rollback_take_lock e oth t apply =
     seq (pr_lock_Get e oth 2 (ap_Database apply) (ap_DatabaseType apply)) (\<lambda>r. case r of
       Inl err \<Rightarrow> fail_pr (Pc_Error ''Failed to check lock status'')
     | Inr (Some existingLock) \<Rightarrow> if lk_Owner existingLock \<noteq> lockOwner t then fail_pr (Pc_Blocked_By_Lock existingLock) else ret False
     | Inr None \<Rightarrow> seq (pr_lock_Acquire e oth 3 (pr_lock_row t (ap_Database apply) (ap_DatabaseType apply) [])) (\<lambda>err.
         if err \<noteq> None then fail_pr (Pc_Error ''Failed to acquire lock'') else ret True))"

text \<open>The plan, made and pinned while the lock is held.\<close>

definition rollback_plan_under_lock :: "pr_env \<Rightarrow> service_others \<Rightarrow> command_target \<Rightarrow> Apply \<Rightarrow> bool \<Rightarrow> PlanResponse prc" where
  "rollback_plan_under_lock e oth t apply acquired =
     seq (validate_rollback oth 4 t) (\<lambda>v. case v of
       Inl err \<Rightarrow> seq (releaseRollbackLockAfterRejectedPlan e oth 7 t apply acquired) (\<lambda>_. fail_pr (Pc_Rejected err))
     | Inr _ \<Rightarrow>
         seq (at_service oth 5 (\<lambda>sw. case ExecuteRollbackPlanForApply (se_TernClient (px_service e)) (px_now e) apply (sw_plans sw) of (r, pd) \<Rightarrow> (r, sw\<lparr>sw_plans := pd\<rparr>))) (\<lambda>r. case r of
           Inl err \<Rightarrow> seq (releaseRollbackLockAfterRejectedPlan e oth 7 t apply acquired) (\<lambda>_. fail_pr (Pc_Plan_Failed err))
         | Inr planResp \<Rightarrow>
             if \<not> rollbackPlanResponseHasChanges planResp
             then seq (releaseRollbackLockAfterRejectedPlan e oth 7 t apply acquired) (\<lambda>_. fail_pr Pc_Nothing_To_Do)
             else seq (pr_lock_Acquire e oth 6 (pr_lock_row t (ap_Database apply) (ap_DatabaseType apply) (rollbackPendingPlanID (plr_PlanID planResp)))) (\<lambda>err.
               if err \<noteq> None
               then seq (releaseRollbackLockAfterRejectedPlan e oth 7 t apply acquired) (\<lambda>_. fail_pr (Pc_Error ''Failed to pin rollback plan on lock''))
               else seq (say_pr (Pc_Plan planResp)) (\<lambda>_. ret planResp))))"

definition handleRollbackCommand :: "pr_env \<Rightarrow> service_others \<Rightarrow> command_target \<Rightarrow> PlanResponse prc" where
  "handleRollbackCommand e oth t =
     seq (rollback_gates e oth t) (\<lambda>apply. seq (rollback_take_lock e oth t apply) (\<lambda>acquired. rollback_plan_under_lock e oth t apply acquired))"

subsection \<open>Confirming a rollback\<close>

definition rollbackPlanCommandMismatch :: "Plan \<Rightarrow> string \<Rightarrow> int \<Rightarrow> string \<Rightarrow> string \<Rightarrow> string \<Rightarrow> string option" where
  "rollbackPlanCommandMismatch plan repo pr database dbType environment =
     (if pn_Repository plan \<noteq> repo \<or> pn_PullRequest plan \<noteq> pr then Some ''rollback plan belongs to another pull request''
      else if pn_Database plan \<noteq> database then Some ''rollback plan belongs to another database''
      else if pn_DatabaseType plan \<noteq> dbType then Some ''rollback plan belongs to another database type''
      else if pn_Environment plan \<noteq> environment then Some ''rollback plan belongs to another environment''
      else None)"

text \<open>The loop over the locks of the pull request; the plans are read one by one, the n-th after \<open>oth n\<close>.\<close>

fun scan_rollback_locks :: "service_others \<Rightarrow> nat \<Rightarrow> command_target \<Rightarrow> (Lock \<times> Plan) option \<Rightarrow> Lock list \<Rightarrow> service_world
    \<Rightarrow> (string + (Lock \<times> Plan) option) \<times> service_world" where
  "scan_rollback_locks oth n t matched [] w = (Inr matched, w)"
| "scan_rollback_locks oth n t matched (lock # locks) w =
     (if \<not> has_prefix (lk_PendingPlanID lock) rollbackPendingPlanPrefix then scan_rollback_locks oth n t matched locks w
      else if lk_Owner lock \<noteq> lockOwner t then (Inl ''rollback lock belongs to another owner'', w)
      else case rollbackPlanIDFromLock lock of
        None \<Rightarrow> scan_rollback_locks oth n t matched locks w
      | Some planID \<Rightarrow>
          (let w1 = oth n w in case pl_Get planID (sw_plans w1) of
             None \<Rightarrow> (Inl ''rollback plan not found'', w1)
           | Some plan \<Rightarrow>
               if pn_Environment plan \<noteq> ct_environment t then scan_rollback_locks oth (n + 1) t matched locks w1
               else case rollbackPlanCommandMismatch plan (ct_repo t) (ct_pr t) (lk_DatabaseName lock) (lk_DatabaseType lock) (ct_environment t) of
                 Some mismatch \<Rightarrow> (Inl mismatch, w1)
               | None \<Rightarrow>
                   if matched \<noteq> None then (Inl ''multiple rollback plans are pending for environment'', w1)
                   else scan_rollback_locks oth (n + 1) t (Some (lock, plan)) locks w1))"

definition rollbackConfirmPlanForPR :: "pr_env \<Rightarrow> service_others \<Rightarrow> command_target \<Rightarrow> (string + (Lock \<times> Plan) option) prc" where
  "rollbackConfirmPlanForPR e oth t = at_service oth 0 (\<lambda>sw.
     case exec_stmt (px_locks e 0 0) 0 (\<lambda>d. (Inr (lk_GetByPR (ct_repo t) (ct_pr t) d), d)) (sw_locks sw) of
       (Inl err, d) \<Rightarrow> (Inl (snd err), sw\<lparr>sw_locks := d\<rparr>)
     | (Inr locks, d) \<Rightarrow> scan_rollback_locks oth 4 t None locks (sw\<lparr>sw_locks := d\<rparr>))"

text \<open>A nil namespace entry of the plan makes \<^verbatim>\<open>FlatDDLChanges\<close> panic: \<open>None\<close>.\<close>

definition planHasChanges :: "Plan \<Rightarrow> bool option" where
  "planHasChanges plan = map_option (\<lambda>cs. length cs > 0
     \<or> list_ex (\<lambda>(_, v). case v of None \<Rightarrow> False | Some nd \<Rightarrow> lookup_text (np_Artifacts nd) vSchemaArtifactName \<noteq> []) (pn_Namespaces plan)) (FlatDDLChanges (pn_Namespaces plan))"

definition deploymentForDatabaseEnvironment :: "ServerConfig \<Rightarrow> string \<Rightarrow> string \<Rightarrow> string \<Rightarrow> string option" where
  "deploymentForDatabaseEnvironment config database deployment environment =
     (if deployment \<noteq> [] then Some deployment
      else case ResolvePrimaryDatabaseTarget (Some config) database environment of Inl _ \<Rightarrow> None | Inr target \<Rightarrow> Some (et_Deployment target))"

definition SetPendingObserver :: "ServerConfig \<Rightarrow> string \<Rightarrow> string \<Rightarrow> string \<Rightarrow> nat option \<Rightarrow> service_world \<Rightarrow> service_world" where
  "SetPendingObserver config database deployment environment observer w =
     (case deploymentForDatabaseEnvironment config database deployment environment of
        None \<Rightarrow> w
      | Some dep \<Rightarrow> (let key = (database, dep, environment); others = filter (\<lambda>kv. fst kv \<noteq> key) (sw_pending_observers w) in
          w\<lparr>sw_pending_observers := (case observer of None \<Rightarrow> others | Some ob \<Rightarrow> (key, ob) # others)\<rparr>))"

definition rollback_apply_request :: "command_target \<Rightarrow> Plan \<Rightarrow> ApplyRequest" where
  "rollback_apply_request t plan = \<lparr>arq_PlanID = pn_PlanIdentifier plan, arq_Environment = ct_environment t,
     arq_Options = [(''allow_unsafe'', ''true''), (''rollback'', ''true'')] @ (if cmd_DeferCutover (ct_result t) then [(''defer_cutover'', ''true'')] else []),
     arq_Caller = lockOwner t, arq_InstallationID = ct_installation t\<rparr>"

definition execute_rollback :: "pr_env \<Rightarrow> service_others \<Rightarrow> ApplyRequest \<Rightarrow> (service_error + (string \<times> int)) prc" where
  "execute_rollback e oth req w = (let sw = oth 2 (prw_service w) in
     case ExecuteApply (px_others e) (px_service e) req sw of (r, sw') \<Rightarrow> (Some r, w\<lparr>prw_service := sw', prw_executed := prw_executed w @ [(req, sw)]\<rparr>))"

definition handleRollbackConfirmCommand :: "pr_env \<Rightarrow> service_others \<Rightarrow> command_target \<Rightarrow> int prc" where
  "handleRollbackConfirmCommand e oth t =
     (if \<not> px_client e then stop
      else seq (rollbackConfirmPlanForPR e oth t) (\<lambda>r. case r of
          Inl err \<Rightarrow> fail_pr (Pc_Error err)
        | Inr None \<Rightarrow> fail_pr Pc_No_Lock
        | Inr (Some (existingLock, plan)) \<Rightarrow>
            seq (gate_pr (enforcePRCommandActorAuthorization (Some (px_gates e)) (px_config e) (ct_requestedBy t) (pn_Database plan))) (\<lambda>_.
              case planHasChanges plan of
                None \<Rightarrow> stop
              | Some False \<Rightarrow> seq (pr_lock_Release e oth 1 (pn_Database plan) (pn_DatabaseType plan) (lockOwner t)) (\<lambda>err.
                  fail_pr (if err \<noteq> None then Pc_Already_Rolled_Back_Lock_Held else Pc_Already_Rolled_Back))
              | Some True \<Rightarrow>
                  if \<not> px_factory e then stop
                  else seq (at_service oth 1 (\<lambda>sw. ((), SetPendingObserver (px_config e) (pn_Database plan) (pn_Deployment plan) (ct_environment t) (Some (px_observer e)) sw))) (\<lambda>_.
                    seq (execute_rollback e oth (rollback_apply_request t plan)) (\<lambda>r. case r of
                      Inl err \<Rightarrow> seq (at_service oth 3 (\<lambda>sw. ((), SetPendingObserver (px_config e) (pn_Database plan) (pn_Deployment plan) (ct_environment t) None sw))) (\<lambda>_.
                        fail_pr (Pc_Execute_Failed err))
                    | Inr (_, applyID) \<Rightarrow> seq (say_pr (Pc_Progress applyID)) (\<lambda>_. ret applyID))))))"

subsection \<open>Rules for handlers\<close>

lemma seq_SomeD: "seq m f w = (Some y, w') \<Longrightarrow> \<exists>x w1. m w = (Some x, w1) \<and> f x w1 = (Some y, w')"
  by (auto simp: seq_def split: prod.splits option.splits)

lemma fail_pr_apply [simp]: "fail_pr c w = (None, w\<lparr>prw_comments := prw_comments w @ [c]\<rparr>)"
  by (simp add: fail_pr_def seq_def say_pr_def stop_def)

lemma say_pr_apply [simp]: "say_pr c w = (Some (), w\<lparr>prw_comments := prw_comments w @ [c]\<rparr>)"
  by (simp add: say_pr_def)

lemma gate_pr_apply: "gate_pr b w = (case b of None \<Rightarrow> (Some (), w) | Some block \<Rightarrow> (None, w\<lparr>prw_comments := prw_comments w @ [Pc_Gate block]\<rparr>))"
  by (simp add: gate_pr_def ret_def split: option.split)

lemma read_pr_apply [simp]: "read_pr oth n g w = (Some (g (oth n (prw_service w))), w\<lparr>prw_service := oth n (prw_service w)\<rparr>)"
  by (simp add: read_pr_def at_service_def)

lemma ret_apply [simp]: "ret x w = (Some x, w)"
  by (simp add: ret_def)

lemma stop_apply [simp]: "stop w = (None, w)"
  by (simp add: stop_def)

lemma authorization_client_cases:
  assumes "authorization_client e w = (r, w')"
  shows "prw_service w' = prw_service w \<and> prw_executed w' = prw_executed w
    \<and> (\<forall>client. r = Some client \<longrightarrow> PRCommandAuthorizationEnabled (Some (px_config e)) \<and> px_clients e \<longrightarrow> client = Some (px_gates e))"
  using assms by (auto simp: authorization_client_def split: if_splits)

subsection \<open>Control commands stay in their pull request\<close>

lemma loadApplyForPRControl_cases:
  assumes "loadApplyForPRControl oth t w = (r, w')"
  shows "prw_service w' \<in> {prw_service w, oth 0 (prw_service w)} \<and> (\<forall>a. r = Some a \<longrightarrow> prw_service w' = oth 0 (prw_service w)
     \<and> GetByApplyIdentifier (cmd_ApplyID (ct_result t)) (sw_db (oth 0 (prw_service w))) = Some a
     \<and> ap_Repository a = ct_repo t \<and> ap_PullRequest a = ct_pr t \<and> ap_Environment a = cmd_Environment (ct_result t))"
  using assms by (auto simp: loadApplyForPRControl_def Let_def seq_def split: if_splits option.splits)

definition authorised_for :: "pr_env \<Rightarrow> command_target \<Rightarrow> string \<Rightarrow> bool" where
  "authorised_for e t database \<longleftrightarrow> (\<exists>client. enforcePRCommandActorAuthorization client (px_config e) (ct_requestedBy t) database = None
     \<and> (PRCommandAuthorizationEnabled (Some (px_config e)) \<and> px_clients e \<longrightarrow> client = Some (px_gates e)))"

text \<open>What the command asks of the service: the operation on the apply the comment names, in its environment, for the author of the comment.\<close>

definition pr_request :: "command_target \<Rightarrow> ControlRequest" where
  "pr_request t = \<lparr>crq_ApplyID = cmd_ApplyID (ct_result t), crq_Environment = cmd_Environment (ct_result t),
     crq_Caller = ''github:'' @ ct_requestedBy t @ ''@'' @ ct_repo t @ ''#'' @ itoa (ct_pr t)\<rparr>"

lemma runControlCommand_scoped:
  assumes run: "runControlCommand e oth t execute w = (r, w')" and other: "prw_service w' \<notin> {prw_service w, oth 0 (prw_service w)}"
  shows "\<exists>a. GetByApplyIdentifier (cmd_ApplyID (ct_result t)) (sw_db (oth 0 (prw_service w))) = Some a \<and> ap_Repository a = ct_repo t
     \<and> ap_PullRequest a = ct_pr t \<and> ap_Environment a = cmd_Environment (ct_result t) \<and> authorised_for e t (ap_Database a)
     \<and> prw_service w' = snd (execute (pr_request t) (oth 1 (oth 0 (prw_service w))))"
proof -
  obtain l w1 where l: "loadApplyForPRControl oth t w = (l, w1)" by fastforce
  note c1 = loadApplyForPRControl_cases [OF l]
  from run other c1 obtain a where a: "l = Some a" by (cases l) (auto simp: runControlCommand_def seq_def l)
  obtain c w2 where c: "authorization_client e w1 = (c, w2)" by fastforce
  note c2 = authorization_client_cases [OF c]
  from run other c1 c2 a obtain client where cl: "c = Some client" by (cases c) (auto simp: runControlCommand_def seq_def l c)
  from run other c1 c2 a cl have ok: "enforcePRCommandActorAuthorization client (px_config e) (ct_requestedBy t) (ap_Database a) = None"
    by (auto simp: runControlCommand_def seq_def l c gate_pr_apply split: option.splits)
  obtain x sw where x: "execute (pr_request t) (oth 1 (oth 0 (prw_service w))) = (x, sw)" by fastforce
  have "prw_service w' = sw"
    using run c1 c2 a cl ok x
    by (auto simp: runControlCommand_def seq_def l c gate_pr_apply at_service_def pr_request_def pr_caller_def split: sum.splits if_splits)
  with c1 c2 a cl ok x show ?thesis by (auto simp: authorised_for_def)
qed

text \<open>
  (C34) A comment controls only applies of its own pull request: whenever a stop, start or cutover command changes the tables of the service beyond what
  others did before its first read, the apply it names is one of this repository and pull request, in the environment of the command, and the author of
  the comment is authorised for its database - by GitHub's answers whenever authorisation is on. The change is then exactly what the service's own
  stop, start or cutover makes of the request for that apply identifier and environment, in the name of the author, after what others did meanwhile.
\<close>

theorem control_commands_stay_in_their_pr:
  assumes "(h, execute) \<in> {(handleStopCommand e oth t, ExecuteStop (px_others e) (px_windows e) (px_control e)),
       (handleStartCommand e oth t, ExecuteStart (px_others e) (px_windows e) (px_control e)),
       (handleCutoverCommand e oth t, ExecuteCutover (px_others e) (px_windows e) (px_control e))}" "h w = (r, w')"
    and "prw_service w' \<notin> {prw_service w, oth 0 (prw_service w)}"
  shows "\<exists>a. GetByApplyIdentifier (cmd_ApplyID (ct_result t)) (sw_db (oth 0 (prw_service w))) = Some a \<and> ap_Repository a = ct_repo t
     \<and> ap_PullRequest a = ct_pr t \<and> ap_Environment a = cmd_Environment (ct_result t) \<and> authorised_for e t (ap_Database a)
     \<and> prw_service w' = snd (execute \<lparr>crq_ApplyID = cmd_ApplyID (ct_result t), crq_Environment = ap_Environment a,
         crq_Caller = ''github:'' @ ct_requestedBy t @ ''@'' @ ct_repo t @ ''#'' @ itoa (ct_pr t)\<rparr> (oth 1 (oth 0 (prw_service w))))"
proof -
  have "\<exists>r1 w1. runControlCommand e oth t execute w = (r1, w1) \<and> prw_service w1 = prw_service w'"
    if "seq (runControlCommand e oth t execute) (\<lambda>resp. say_pr (Pc_Accepted resp)) w = (r, w')"
  proof (cases "runControlCommand e oth t execute w")
    case (Pair r1 w1)
    then have "prw_service w1 = prw_service w'" using that by (auto simp: seq_def split: option.splits)
    with Pair show ?thesis by blast
  qed
  with assms(1,2) obtain r1 w1 where "runControlCommand e oth t execute w = (r1, w1)" "prw_service w1 = prw_service w'"
    unfolding handleStopCommand_def handleStartCommand_def handleCutoverCommand_def by auto
  with assms(3) runControlCommand_scoped [of e oth t execute w r1 w1] show ?thesis by (auto simp: pr_request_def)
qed

subsection \<open>A refused rollback leaves no lock\<close>

lemma exec_quiet [simp]: "exec_stmt quiet i f d = f d"
  by (simp add: exec_stmt_def quiet_def)

lemma withLockRetry_first: "fn 0 s = (None, s') \<Longrightarrow> withLockRetry cancelled fn s = (None, s')"
  by (simp add: withLockRetry_def lockRetryMaxAttempts_def eval_nat_numeral)

lemma acquire_free:
  assumes "lk_Get (lk_DatabaseName lock) (lk_DatabaseType lock) d = None"
  shows "lk_Acquire cancelled (\<lambda>_. quiet) now lock d = (None, \<lparr>db_locks = db_locks d @ [lock\<lparr>lk_ID := next_lock_id d, lk_CreatedAt := now, lk_UpdatedAt := now\<rparr>],
     next_lock_id = next_lock_id d + 1\<rparr>)"
proof -
  from assms have "\<not> list_ex (lock_selects (lk_DatabaseName lock) (lk_DatabaseType lock)) (db_locks d)"
    by (auto simp: lk_Get_def find_None_iff list_ex_iff)
  with assms show ?thesis unfolding lk_Acquire_def by (intro withLockRetry_first) (simp add: acquireOnce_def get_stmt_def insert_stmt_def)
qed

lemma acquire_own:
  assumes "lk_Get (lk_DatabaseName lock) (lk_DatabaseType lock) d = Some existing" "lk_Owner existing = lk_Owner lock"
  shows "fst (lk_Acquire cancelled (\<lambda>_. quiet) now lock d) = None"
proof -
  let ?sel = "\<lambda>r. lock_selects (lk_DatabaseName lock) (lk_DatabaseType lock) r \<and> sql_eq (lk_Owner r) (lk_Owner lock)"
  let ?f = "\<lambda>r. r\<lparr>lk_PendingPlanID := lk_PendingPlanID lock, lk_UpdatedAt := now\<rparr>"
  from assms have e: "existing \<in> set (db_locks d)" "?sel existing" by (auto simp: lk_Get_def find_Some_iff)
  have "rows_changed ?sel ?f (db_locks d) > 0" if "lk_PendingPlanID lock \<noteq> lk_PendingPlanID existing"
  proof -
    have "lk_PendingPlanID (?f existing) \<noteq> lk_PendingPlanID existing" using that by simp
    then have "?f existing \<noteq> existing" by metis
    with e show ?thesis by (auto simp: rows_changed_def filter_empty_conv)
  qed
  then have "\<exists>d'. acquireOnce quiet now lock d = (None, d')"
    using assms by (auto simp: acquireOnce_def get_stmt_def refreshPendingPlanID_def update_stmt_def)
  then show ?thesis unfolding lk_Acquire_def by (auto simp: withLockRetry_first)
qed

text \<open>What the calls do to the lock table when nobody else touches it.\<close>

definition locks_alone :: "pr_env \<Rightarrow> service_others \<Rightarrow> bool" where
  "locks_alone e oth \<longleftrightarrow> (\<forall>n v. sw_locks (oth n v) = sw_locks v) \<and> px_locks e = (\<lambda>_ _. quiet)"

definition pr_locks :: "pr_world \<Rightarrow> Lock list" where "pr_locks w = db_locks (sw_locks (prw_service w))"

lemma rollback_gates_locks: "locks_alone e oth \<Longrightarrow> rollback_gates e oth t w = (r, w') \<Longrightarrow> sw_locks (prw_service w') = sw_locks (prw_service w)"
  unfolding rollback_gates_def validate_rollback_def handleRollbackSourceError_def authorization_client_def
  by (auto simp: seq_def gate_pr_apply locks_alone_def Let_def split: if_splits option.splits sum.splits)

lemma release_taken:
  assumes "locks_alone e oth" "lk_Get (ap_Database apply) (ap_DatabaseType apply) d0 = None"
    and "pr_locks w = db_locks d0 @ [row]" "lock_selects (ap_Database apply) (ap_DatabaseType apply) row" "lk_Owner row = lockOwner t"
  shows "\<exists>u. releaseRollbackLockAfterRejectedPlan e oth n t apply True w = (Some (), u) \<and> pr_locks u = db_locks d0"
proof -
  have "filter (\<lambda>r. \<not> (lock_selects (ap_Database apply) (ap_DatabaseType apply) r \<and> sql_eq (lk_Owner r) (lockOwner t))) (db_locks d0) = db_locks d0"
    using assms(2) by (auto simp: lk_Get_def find_None_iff filter_id_conv)
  then show ?thesis using assms(1,3-5)
    by (auto simp: releaseRollbackLockAfterRejectedPlan_def seq_def pr_lock_Release_def at_service_def lk_Release_def delete_stmt_def locks_alone_def pr_locks_def)
qed

lemma under_lock_refused:
  assumes al: "locks_alone e oth" and own: "lk_Get (ap_Database apply) (ap_DatabaseType apply) (sw_locks (prw_service w)) = Some existing" "lk_Owner existing = lockOwner t"
    and r: "rollback_plan_under_lock e oth t apply acquired w = (None, w')"
  shows "\<exists>u v. sw_locks (prw_service u) = sw_locks (prw_service w) \<and> releaseRollbackLockAfterRejectedPlan e oth 7 t apply acquired u = (Some (), v)
     \<and> sw_locks (prw_service w') = sw_locks (prw_service v)"
proof -
  have al': "sw_locks (oth n v) = sw_locks v" for n v using al by (simp add: locks_alone_def)
  have rel: "\<exists>v. releaseRollbackLockAfterRejectedPlan e oth 7 t apply acquired u = (Some (), v)" for u
    by (auto simp: releaseRollbackLockAfterRejectedPlan_def seq_def pr_lock_Release_def at_service_def split: prod.splits)
  have acq: "\<exists>v. pr_lock_Acquire e oth 6 (pr_lock_row t (ap_Database apply) (ap_DatabaseType apply) p) u = (Some None, v)"
    if "sw_locks (prw_service u) = sw_locks (prw_service w)" for p u
  proof -
    have "fst (lk_Acquire (px_lock_cancelled e) (\<lambda>_. quiet) (px_now e) (pr_lock_row t (ap_Database apply) (ap_DatabaseType apply) p) (sw_locks (prw_service w))) = None"
      by (rule acquire_own [where existing = existing]) (use own in \<open>simp_all add: pr_lock_row_def\<close>)
    then show ?thesis using that al' al by (auto simp: pr_lock_Acquire_def at_service_def locks_alone_def split: prod.splits)
  qed
  let ?w1 = "w\<lparr>prw_service := oth 4 (prw_service w)\<rparr>"
  obtain x pd where x: "ExecuteRollbackPlanForApply (se_TernClient (px_service e)) (px_now e) apply (sw_plans (oth 5 (oth 4 (prw_service w)))) = (x, pd)" by fastforce
  let ?w2 = "w\<lparr>prw_service := (oth 5 (oth 4 (prw_service w)))\<lparr>sw_plans := pd\<rparr>\<rparr>"
  have same: "sw_locks (prw_service ?w1) = sw_locks (prw_service w)" "sw_locks (prw_service ?w2) = sw_locks (prw_service w)" by (simp_all add: al')
  from rel obtain v1 v2 where v: "releaseRollbackLockAfterRejectedPlan e oth 7 t apply acquired ?w1 = (Some (), v1)"
    "releaseRollbackLockAfterRejectedPlan e oth 7 t apply acquired ?w2 = (Some (), v2)" by blast
  from acq [OF same(2)] have a: "\<And>p. \<exists>v. pr_lock_Acquire e oth 6 (pr_lock_row t (ap_Database apply) (ap_DatabaseType apply) p) ?w2 = (Some None, v)" by blast
  from r have "sw_locks (prw_service w') = sw_locks (prw_service v1) \<or> sw_locks (prw_service w') = sw_locks (prw_service v2)"
    using v a unfolding rollback_plan_under_lock_def validate_rollback_def
    by (auto simp: seq_def at_service_def x split: sum.splits if_splits option.splits prod.splits) (metis Pair_inject option.inject option.distinct(1))+
  with v same show ?thesis by blast
qed

text \<open>
  (C33) A rollback that is refused leaves the locks as they were: when nobody else touches the lock table and its statements do not fail, a rollback command that
  ends without a pinned plan - refused by a gate, by another owner's lock, by the validation before or after the lock is taken, by the planner, or
  because nothing is to be rolled back - leaves exactly the locks that were there before it, so it gives back the lock it took and keeps the one its pull
  request held.
\<close>

theorem refused_rollback_keeps_locks:
  assumes "locks_alone e oth" "handleRollbackCommand e oth t w = (None, w')"
  shows "pr_locks w' = pr_locks w"
proof -
  obtain g w1 where g: "rollback_gates e oth t w = (g, w1)" by fastforce
  have l1: "sw_locks (prw_service w1) = sw_locks (prw_service w)" using rollback_gates_locks [OF assms(1) g] .
  have alone: "sw_locks (oth n v) = sw_locks v" "px_locks e = (\<lambda>_ _. quiet)" for n v using assms(1) by (simp_all add: locks_alone_def)
  show ?thesis
  proof (cases g)
    case None
    then show ?thesis using assms(2) g l1 by (simp add: handleRollbackCommand_def seq_def pr_locks_def)
  next
    case (Some a)
    let ?d = "sw_locks (prw_service w1)" and ?row = "pr_lock_row t (ap_Database a) (ap_DatabaseType a) []"
    let ?w2 = "w1\<lparr>prw_service := oth 2 (prw_service w1)\<rparr>"
    have h: "seq (rollback_take_lock e oth t a) (rollback_plan_under_lock e oth t a) w1 = (None, w')"
      using assms(2) g Some by (simp add: handleRollbackCommand_def seq_def)
    show ?thesis
    proof (cases "lk_Get (ap_Database a) (ap_DatabaseType a) ?d")
      case None
      let ?new = "?row\<lparr>lk_ID := next_lock_id ?d, lk_CreatedAt := px_now e, lk_UpdatedAt := px_now e\<rparr>"
      let ?d' = "\<lparr>db_locks = db_locks ?d @ [?new], next_lock_id = next_lock_id ?d + 1\<rparr>"
      let ?w3 = "w1\<lparr>prw_service := (oth 3 (prw_service ?w2))\<lparr>sw_locks := ?d'\<rparr>\<rparr>"
      have "lk_Acquire (px_lock_cancelled e) (\<lambda>_. quiet) (px_now e) ?row ?d = (None, ?d')"
        by (rule acquire_free) (use None in \<open>simp add: pr_lock_row_def\<close>)
      then have "rollback_plan_under_lock e oth t a True ?w3 = (None, w')" using h None alone
        by (simp add: rollback_take_lock_def pr_lock_Get_def pr_lock_Acquire_def seq_def at_service_def get_stmt_def split: prod.splits option.splits)
      moreover have "lk_Get (ap_Database a) (ap_DatabaseType a) (sw_locks (prw_service ?w3)) = Some ?new"
      proof -
        have "find P (xs @ [y]) = Some y" if "find P xs = None" "P y" for P and xs :: "Lock list" and y using that by (induction xs) (auto split: if_splits)
        with None show ?thesis by (simp add: lk_Get_def lock_selects_def pr_lock_row_def)
      qed
      ultimately obtain u v where uv: "sw_locks (prw_service u) = ?d'" "releaseRollbackLockAfterRejectedPlan e oth 7 t a True u = (Some (), v)"
        "sw_locks (prw_service w') = sw_locks (prw_service v)"
        using under_lock_refused [OF assms(1), of a ?w3 ?new t True w'] by (auto simp: pr_lock_row_def)
      then obtain v' where "releaseRollbackLockAfterRejectedPlan e oth 7 t a True u = (Some (), v')" "pr_locks v' = db_locks ?d"
        using release_taken [OF assms(1) None, of u ?new t 7] by (auto simp: pr_locks_def pr_lock_row_def lock_selects_def)
      with uv l1 show ?thesis by (simp add: pr_locks_def)
    next
      case (Some existing)
      show ?thesis
      proof (cases "lk_Owner existing = lockOwner t")
        case True
        then have "rollback_plan_under_lock e oth t a False ?w2 = (None, w')" using h Some alone
          by (simp add: rollback_take_lock_def pr_lock_Get_def seq_def at_service_def get_stmt_def)
        then obtain u v where "sw_locks (prw_service u) = ?d" "releaseRollbackLockAfterRejectedPlan e oth 7 t a False u = (Some (), v)"
          "sw_locks (prw_service w') = sw_locks (prw_service v)"
          using under_lock_refused [OF assms(1), of a ?w2 existing t False w'] Some True by (auto simp: alone)
        with l1 show ?thesis by (simp add: releaseRollbackLockAfterRejectedPlan_def pr_locks_def)
      next
        case False
        then show ?thesis using h Some alone l1
          by (auto simp: rollback_take_lock_def pr_lock_Get_def seq_def at_service_def get_stmt_def pr_locks_def)
      qed
    qed
  qed
qed

subsection \<open>Only the pinned plan is executed\<close>

lemma has_prefixD: "has_prefix s p \<Longrightarrow> s = p @ drop (length p) s"
  by (induction s p rule: has_prefix.induct) auto

lemma rollbackPlanIDFromLock_SomeD: "rollbackPlanIDFromLock lock = Some pid \<Longrightarrow> pid \<noteq> [] \<and> lk_PendingPlanID lock = rollbackPendingPlanID pid"
  by (auto simp: rollbackPlanIDFromLock_def rollbackPendingPlanID_def Let_def trim_prefix_def split: if_splits dest: has_prefixD)

text \<open>A lock of the command's pull request that pins a plan for the same pull request, database and environment.\<close>

definition pinned_plan :: "command_target \<Rightarrow> Lock list \<Rightarrow> plan_db \<Rightarrow> Plan \<Rightarrow> bool" where
  "pinned_plan t locks plans plan \<longleftrightarrow> (\<exists>lock pid. lock \<in> set locks \<and> lk_Owner lock = lockOwner t \<and> lk_PendingPlanID lock = rollbackPendingPlanID pid \<and> pid \<noteq> []
     \<and> pl_Get pid plans = Some plan \<and> pn_Repository plan = ct_repo t \<and> pn_PullRequest plan = ct_pr t \<and> pn_Database plan = lk_DatabaseName lock
     \<and> pn_DatabaseType plan = lk_DatabaseType lock \<and> pn_Environment plan = ct_environment t)"

definition plans_stay :: "service_others \<Rightarrow> bool" where
  "plans_stay oth \<longleftrightarrow> (\<forall>n v p q. pl_Get p (sw_plans v) = Some q \<longrightarrow> pl_Get p (sw_plans (oth n v)) = Some q)"

lemma mismatch_None:
  "rollbackPlanCommandMismatch plan repo pr database dbType environment = None \<longleftrightarrow> pn_Repository plan = repo \<and> pn_PullRequest plan = pr
     \<and> pn_Database plan = database \<and> pn_DatabaseType plan = dbType \<and> pn_Environment plan = environment"
  by (auto simp: rollbackPlanCommandMismatch_def split: if_splits)

lemma scan_rollback_locks_spec:
  assumes "scan_rollback_locks oth n t matched locks w = (Inr (Some (l, plan)), w')" "plans_stay oth" "set locks \<subseteq> set all"
    and "\<And>l q. matched = Some (l, q) \<Longrightarrow> pinned_plan t all (sw_plans w) q"
  shows "pinned_plan t all (sw_plans w') plan"
  using assms
proof (induction oth n t matched locks w rule: scan_rollback_locks.induct)
  case (1 oth n t matched w)
  then show ?case by auto
next
  case (2 oth n t matched lock locks w)
  let ?w1 = "oth n w"
  have step: "pinned_plan t all (sw_plans ?w1) q" if "pinned_plan t all (sw_plans w) q" for q
    using that "2.prems"(2) unfolding pinned_plan_def plans_stay_def by blast
  show ?case
  proof (cases "has_prefix (lk_PendingPlanID lock) rollbackPendingPlanPrefix \<and> lk_Owner lock = lockOwner t \<and> rollbackPlanIDFromLock lock \<noteq> None")
    case False
    with "2.prems" show ?thesis using "2.IH"(1,2) by (auto split: if_splits option.splits)
  next
    case True
    then obtain pid where pid: "rollbackPlanIDFromLock lock = Some pid" by blast
    from "2.prems"(1) True pid obtain q where q: "pl_Get pid (sw_plans ?w1) = Some q" by (auto simp: Let_def split: option.splits)
    show ?thesis
    proof (cases "pn_Environment q = ct_environment t")
      case False
      with "2.prems" True pid q show ?thesis using "2.IH"(3) [OF _ _ pid refl q] step by (auto simp: Let_def)
    next
      case env: True
      with "2.prems"(1) True pid q have m: "matched = None" "rollbackPlanCommandMismatch q (ct_repo t) (ct_pr t) (lk_DatabaseName lock) (lk_DatabaseType lock) (ct_environment t) = None"
        by (cases matched; auto simp: Let_def split: option.splits if_splits)+
      have "pinned_plan t all (sw_plans ?w1) q"
        unfolding pinned_plan_def using True pid q m(2) "2.prems"(3) rollbackPlanIDFromLock_SomeD [OF pid]
        by (intro exI [of _ lock] exI [of _ pid]) (auto simp: mismatch_None)
      with "2.prems" True pid q env m show ?thesis using "2.IH"(4) [OF _ _ pid refl q] by (auto simp: Let_def)
    qed
  qed
qed

text \<open>
  (C32) Confirming a rollback executes the pinned plan and nothing else: a rollback-confirm hands at most one request to the service, and then a lock of its pull
  request, held by it, pins exactly that plan as a rollback; the plan is stored, belongs to the same repository, pull request, database and environment,
  the author of the comment is authorised for the database, and the request asks for unsafe changes as a rollback on behalf of the lock's owner. Stored
  plans may be added by others meanwhile, but not changed.
\<close>

theorem rollback_confirm_runs_the_pinned_plan:
  assumes "handleRollbackConfirmCommand e oth t w = (r, w')" "plans_stay oth"
  shows "prw_executed w' = prw_executed w
    \<or> (\<exists>plan v. prw_executed w' = prw_executed w @ [(rollback_apply_request t plan, v)]
        \<and> pinned_plan t (lk_GetByPR (ct_repo t) (ct_pr t) (se_between (px_locks e 0 0) 0 (sw_locks (oth 0 (prw_service w))))) (sw_plans v) plan
        \<and> enforcePRCommandActorAuthorization (Some (px_gates e)) (px_config e) (ct_requestedBy t) (pn_Database plan) = None)"
proof (rule disjCI)
  assume ne: "\<not> (\<exists>plan v. prw_executed w' = prw_executed w @ [(rollback_apply_request t plan, v)]
        \<and> pinned_plan t (lk_GetByPR (ct_repo t) (ct_pr t) (se_between (px_locks e 0 0) 0 (sw_locks (oth 0 (prw_service w))))) (sw_plans v) plan
        \<and> enforcePRCommandActorAuthorization (Some (px_gates e)) (px_config e) (ct_requestedBy t) (pn_Database plan) = None)"
  let ?locks = "lk_GetByPR (ct_repo t) (ct_pr t) (se_between (px_locks e 0 0) 0 (sw_locks (oth 0 (prw_service w))))"
  obtain c w1 where c: "rollbackConfirmPlanForPR e oth t w = (c, w1)" by fastforce
  have c1: "prw_executed w1 = prw_executed w" "c \<noteq> None" using c by (auto simp: rollbackConfirmPlanForPR_def at_service_def split: prod.splits sum.splits)
  have c2: "pinned_plan t ?locks (sw_plans (prw_service w1)) plan" if "c = Some (Inr (Some (l, plan)))" for l plan
    using c that scan_rollback_locks_spec [OF _ assms(2), where matched = None and locks = ?locks and all = ?locks]
    by (fastforce simp: rollbackConfirmPlanForPR_def at_service_def exec_stmt_def Let_def split: prod.splits sum.splits option.splits)
  have obs: "sw_plans (SetPendingObserver cf db dep env ob v) = sw_plans v" for cf db dep env ob v
    by (simp add: SetPendingObserver_def Let_def split: option.split)
  have stay: "pinned_plan t ?locks (sw_plans (oth n v)) plan" if "pinned_plan t ?locks (sw_plans v) plan" for n v plan
    using that assms(2) unfolding pinned_plan_def plans_stay_def by blast
  consider "prw_executed w' = prw_executed w" | l plan where "c = Some (Inr (Some (l, plan)))"
    using assms(1) c c1 by (cases c) (auto simp: handleRollbackConfirmCommand_def seq_def split: if_splits sum.splits option.splits)
  then show "prw_executed w' = prw_executed w"
  proof cases
    case 2
    let ?v = "oth 2 (SetPendingObserver (px_config e) (pn_Database plan) (pn_Deployment plan) (ct_environment t) (Some (px_observer e)) (oth 1 (prw_service w1)))"
    have p: "pinned_plan t ?locks (sw_plans ?v) plan" using c2 [OF 2] by (intro stay) (simp add: obs stay)
    have "prw_executed w' = prw_executed w \<or> (enforcePRCommandActorAuthorization (Some (px_gates e)) (px_config e) (ct_requestedBy t) (pn_Database plan) = None
        \<and> prw_executed w' = prw_executed w @ [(rollback_apply_request t plan, ?v)])"
      using assms(1) c c1 2
      by (auto simp: handleRollbackConfirmCommand_def seq_def gate_pr_apply at_service_def execute_rollback_def pr_lock_Release_def Let_def
          split: if_splits sum.splits option.splits prod.splits bool.splits)
    with p ne show ?thesis by blast
  qed simp
qed

subsection \<open>Sample runs\<close>

definition pr_apply :: "string \<Rightarrow> Apply" where
  "pr_apply st = (sample_apply st)\<lparr>ap_Database := ''orders'', ap_Repository := ''org/app'', ap_PullRequest := 7, ap_Environment := ''staging''\<rparr>"

definition pr_plans :: plan_db where
  "pr_plans = snd (projr (pl_Create ((sharded_plan [''users''])\<lparr>pn_PlanIdentifier := ''plan-0'', pn_DatabaseType := ''mysql'', pn_Repository := ''org/app''\<rparr>) no_plans))"

definition sample_pr_world :: "string \<Rightarrow> string \<Rightarrow> Lock list \<Rightarrow> pr_world" where
  "sample_pr_world st ts locks = \<lparr>prw_service = (sample_control_world st ts)\<lparr>
       sw_db := (sample_control_db st ts)\<lparr>db_applies := [pr_apply st],
         db_tasks := map (\<lambda>t. t\<lparr>tk_Database := ''orders'', tk_Environment := ''staging''\<rparr>) (db_tasks (sample_control_db st ts))\<rparr>,
       sw_plans := pr_plans, sw_locks := \<lparr>db_locks = locks, next_lock_id = 9\<rparr>\<rparr>,
     prw_comments = [], prw_executed = []\<rparr>"

definition sample_pr_env :: "proto_schema_change option list \<Rightarrow> pr_env" where
  "sample_pr_env changes = \<lparr>px_config = sample_config, px_gates = sample_gate ''completed'', px_clients = True, px_client = True, px_factory = True, px_observer = 1,
     px_control = sample_control, px_service = sample_service\<lparr>se_TernClient := (\<lambda>_ _. Inr (sample_client\<lparr>tcl_Plan := (\<lambda>_. Inr (sample_answer\<lparr>ppr_Changes := changes\<rparr>))\<rparr>))\<rparr>,
     px_others = (\<lambda>_. id), px_windows = (id, id), px_locks = (\<lambda>_ _. quiet), px_lock_cancelled = (\<lambda>_. False), px_now = 100\<rparr>"

definition sample_pr_target :: command_target where
  "sample_pr_target = (SB_Apply_Command.sample_target ''staging'' False)\<lparr>ct_result := no_command\<lparr>cmd_ApplyID := ''a1'', cmd_Environment := ''staging'', cmd_Found := True\<rparr>\<rparr>"

theorem control_commands_stay_in_their_pr_witness:
  "authorised_for (sample_pr_env []) sample_pr_target ''orders''
   \<and> length (sw_log (prw_service (snd (handleStopCommand (sample_pr_env []) (\<lambda>_. id) sample_pr_target (sample_pr_world Apply_Running Task_Running []))))) = 2"
proof -
  let ?w = "sample_pr_world Apply_Running Task_Running []"
  let ?r = "handleStopCommand (sample_pr_env []) (\<lambda>_. id) sample_pr_target ?w"
  have n: "length (sw_log (prw_service (snd ?r))) = 2" by code_simp
  have "sw_log (prw_service ?w) = []" by code_simp
  with n have ch: "prw_service (snd ?r) \<notin> {prw_service ?w, (\<lambda>_. id) (0 :: nat) (prw_service ?w)}" by auto
  have g: "GetByApplyIdentifier (cmd_ApplyID (ct_result sample_pr_target)) (sw_db (id (prw_service ?w))) = Some (pr_apply Apply_Running)"
    by (simp add: GetByApplyIdentifier_def sample_pr_world_def sample_pr_target_def pr_apply_def sample_apply_def)
  have d: "ap_Database (pr_apply Apply_Running) = ''orders''" by (simp add: pr_apply_def)
  have "authorised_for (sample_pr_env []) sample_pr_target ''orders''"
    using control_commands_stay_in_their_pr [of "handleStopCommand (sample_pr_env []) (\<lambda>_. id) sample_pr_target"
        "ExecuteStop (px_others (sample_pr_env [])) (px_windows (sample_pr_env [])) (px_control (sample_pr_env []))"
        "sample_pr_env []" "\<lambda>_. id" sample_pr_target ?w "fst ?r" "snd ?r"] ch
    unfolding g by (auto simp: d)
  with n show ?thesis by blast
qed

theorem refused_rollback_keeps_locks_witness:
  "let w' = snd (handleRollbackCommand (sample_pr_env []) (\<lambda>_. id) sample_pr_target (sample_pr_world Apply_Completed Task_Completed [])) in
   pr_locks w' = [] \<and> prw_comments w' = [Pc_Nothing_To_Do] \<and> next_lock_id (sw_locks (prw_service w')) = 10"
proof -
  let ?w = "sample_pr_world Apply_Completed Task_Completed []"
  let ?r = "handleRollbackCommand (sample_pr_env []) (\<lambda>_. id) sample_pr_target ?w"
  have f: "fst ?r = None" by code_simp
  then have r: "?r = (None, snd ?r)" by (metis prod.collapse)
  have a: "locks_alone (sample_pr_env []) (\<lambda>_. id)" by (simp add: locks_alone_def sample_pr_env_def)
  have "pr_locks (snd ?r) = pr_locks ?w" by (rule refused_rollback_keeps_locks [OF a r])
  moreover have "pr_locks ?w = []" by (simp add: pr_locks_def sample_pr_world_def)
  moreover have "prw_comments (snd ?r) = [Pc_Nothing_To_Do]" "next_lock_id (sw_locks (prw_service (snd ?r))) = 10" by (code_simp, code_simp)
  ultimately show ?thesis by simp
qed

theorem rollback_confirm_runs_the_pinned_plan_witness:
  "\<exists>plan v. prw_executed (snd (handleRollbackConfirmCommand (sample_pr_env []) (\<lambda>_. id) sample_pr_target
       (sample_pr_world Apply_Completed Task_Completed [pr_lock_row sample_pr_target ''orders'' ''mysql'' ''rollback:plan-0'']))) = [(rollback_apply_request sample_pr_target plan, v)]
     \<and> pinned_plan sample_pr_target [pr_lock_row sample_pr_target ''orders'' ''mysql'' ''rollback:plan-0''] (sw_plans v) plan"
proof -
  let ?l = "pr_lock_row sample_pr_target ''orders'' ''mysql'' ''rollback:plan-0''"
  let ?w = "sample_pr_world Apply_Completed Task_Completed [?l]"
  let ?r = "handleRollbackConfirmCommand (sample_pr_env []) (\<lambda>_. id) sample_pr_target ?w"
  have n: "length (prw_executed (snd ?r)) = 1" by code_simp
  have e: "prw_executed ?w = []" by (simp add: sample_pr_world_def)
  have s: "plans_stay (\<lambda>_. id)" by (simp add: plans_stay_def)
  have l: "lk_GetByPR (ct_repo sample_pr_target) (ct_pr sample_pr_target) (se_between (px_locks (sample_pr_env []) 0 0) 0 (sw_locks (id (prw_service ?w)))) = [?l]"
    by (simp add: lk_GetByPR_def sample_pr_env_def quiet_def sample_pr_world_def sample_control_world_def pr_lock_row_def)
  have r: "?r = (fst ?r, snd ?r)" by simp
  from rollback_confirm_runs_the_pinned_plan [OF r s] n show ?thesis unfolding l e by auto
qed

subsection \<open>What goes wrong\<close>

text \<open>
  A rollback plan can be outdated when it is confirmed: rollback checks twice that its apply is the latest change, rollback-confirm does not, and an apply
  that the HTTP interface queues does not look at the lock. Here another apply completed after the plan was pinned: the validation would refuse, yet the
  confirmation executes the pinned plan with unsafe changes allowed.
\<close>

definition superseded_world :: pr_world where
  "superseded_world = (let w = sample_pr_world Apply_Completed Task_Completed [pr_lock_row sample_pr_target ''orders'' ''mysql'' ''rollback:plan-0''];
       t2 = (hd (db_tasks (sw_db (prw_service w))))\<lparr>tk_ID := 2, tk_ApplyID := 2, tk_CompletedAt := Some 500\<rparr> in
     w\<lparr>prw_service := (prw_service w)\<lparr>sw_db := (sw_db (prw_service w))\<lparr>db_tasks := db_tasks (sw_db (prw_service w)) @ [t2]\<rparr>\<rparr>\<rparr>)"

theorem outdated_rollback_is_executed:
  "map_sum id (\<lambda>_. ()) (ValidateRollbackSourceApply (rollback_source sample_pr_target) (sw_db (prw_service superseded_world)) (sw_plans (prw_service superseded_world)))
     = Inl (controlConflictf ''apply is not the schema change that the current rollback planner would select'')
   \<and> map (arq_PlanID \<circ> fst) (prw_executed (snd (handleRollbackConfirmCommand (sample_pr_env []) (\<lambda>_. id) sample_pr_target superseded_world))) = [''plan-0'']"
proof (rule conjI)
  show "map_sum id (\<lambda>_. ()) (ValidateRollbackSourceApply (rollback_source sample_pr_target) (sw_db (prw_service superseded_world)) (sw_plans (prw_service superseded_world)))
     = Inl (controlConflictf ''apply is not the schema change that the current rollback planner would select'')" by code_simp
  show "map (arq_PlanID \<circ> fst) (prw_executed (snd (handleRollbackConfirmCommand (sample_pr_env []) (\<lambda>_. id) sample_pr_target superseded_world))) = [''plan-0'']" by code_simp
qed

end
