(* ===== verification/SB_Local_Control.thy ===== *)
theory SB_Local_Control
  imports SB_Control
begin

section \<open>Control requests on the owner's side (tern/local\_control.go, control\_requests.go)\<close>

text \<open>
  The local client drives the engine of one database. A stop or cutover that reaches it is recorded in the same tables as a user's; the process that
  owns the apply works the requests off: it stops the engine first and only then marks tasks and apply, and it triggers a cutover only when no
  stop is pending. Every call is atomic; \<open>oth n\<close> is what other processes commit before the call numbered n. The engine, the credentials and the
  check of an engine's resume state are in \<open>local_env\<close>; a call of the engine may change the tables, since its goroutines write there, and is
  logged in \<open>lw_calls\<close> with the tables it found. \<open>le_error_text\<close> is the wording of errors, \<open>le_credentials\<close> and \<open>le_validate\<close> answer with a reason to refuse. The call's context with its lease is \<open>le_ctx\<close>;
  the texts an error is wrapped in on its way up are left out.
\<close>

subsection \<open>State and surroundings\<close>

datatype engine_call = Eng_Stop | Eng_Cutover | Eng_Volume "32 word" | Eng_Revert | Eng_SkipRevert

record local_world =
  lw_db :: db
  lw_log :: "apply_log list"
  lw_calls :: "(engine_call \<times> db) list"

record engine_result =
  er_Accepted :: bool
  er_Message :: string
  er_PreviousVolume :: int
  er_NewVolume :: int

record table_progress =
  tp_Namespace :: string
  tp_Table :: string
  tp_Progress :: int
  tp_RowsCopied :: int
  tp_RowsTotal :: int
  tp_ETASeconds :: int
  tp_ChecksumRowsChecked :: int
  tp_ChecksumRowsTotal :: int

datatype local_error = Local_Error string | Local_Storage storage_error | Local_Panic

record local_env =
  le_Database :: string
  le_Type :: string
  le_ctx :: call_ctx
  le_now :: int
  le_credentials :: "Task \<Rightarrow> string option"
  le_has_engine :: bool
  le_validate :: "engine_call \<Rightarrow> EngineResumeState option \<Rightarrow> string option"
  le_call :: "engine_call \<Rightarrow> EngineResumeState option \<Rightarrow> db \<Rightarrow> (string + engine_result option) \<times> db"
  le_progress :: "db \<Rightarrow> string + table_progress list option"
  le_error_text :: "local_error \<Rightarrow> string"

type_synonym local_others = "nat \<Rightarrow> local_world \<Rightarrow> local_world"

text \<open>A program that may end with an error.\<close>

type_synonym 'a lc = "local_world \<Rightarrow> (local_error + 'a) \<times> local_world"

definition lc_ret :: "'a \<Rightarrow> 'a lc" where "lc_ret x w = (Inr x, w)"
definition lc_err :: "local_error \<Rightarrow> 'a lc" where "lc_err e w = (Inl e, w)"

definition lc_bind :: "'a lc \<Rightarrow> ('a \<Rightarrow> 'b lc) \<Rightarrow> 'b lc" where
  "lc_bind m f w = (case m w of (Inl e, w1) \<Rightarrow> (Inl e, w1) | (Inr x, w1) \<Rightarrow> f x w1)"

definition lc_read :: "local_others \<Rightarrow> nat \<Rightarrow> (db \<Rightarrow> 'a) \<Rightarrow> 'a lc" where
  "lc_read oth n g w = (let w1 = oth n w in (Inr (g (lw_db w1)), w1))"

definition lc_write :: "local_others \<Rightarrow> nat \<Rightarrow> (db \<Rightarrow> storage_error + db) \<Rightarrow> unit lc" where
  "lc_write oth n f w = (let w1 = oth n w in case f (lw_db w1) of Inl e \<Rightarrow> (Inl (Local_Storage e), w1) | Inr d \<Rightarrow> (Inr (), w1\<lparr>lw_db := d\<rparr>))"

text \<open>A write whose failure is only logged.\<close>

definition lc_try :: "local_others \<Rightarrow> nat \<Rightarrow> (db \<Rightarrow> storage_error + db) \<Rightarrow> unit lc" where
  "lc_try oth n f w = (let w1 = oth n w in case f (lw_db w1) of Inl _ \<Rightarrow> (Inr (), w1) | Inr d \<Rightarrow> (Inr (), w1\<lparr>lw_db := d\<rparr>))"

definition lc_log :: "int \<Rightarrow> string \<Rightarrow> string \<Rightarrow> unit lc" where
  "lc_log applyID eventType message w = (Inr (), w\<lparr>lw_log := lw_log w @ [\<lparr>lg_ApplyID = applyID, lg_EventType = eventType, lg_Message = message\<rparr>]\<rparr>)"

definition lc_engine :: "local_env \<Rightarrow> local_others \<Rightarrow> nat \<Rightarrow> engine_call \<Rightarrow> EngineResumeState option \<Rightarrow> (string + engine_result option) lc" where
  "lc_engine e oth n c rs w = (let w1 = oth n w in case le_call e c rs (lw_db w1) of
     (r, d) \<Rightarrow> (Inr r, w1\<lparr>lw_db := d, lw_calls := lw_calls w1 @ [(c, lw_db w1)]\<rparr>))"

subsection \<open>Requests of an apply (control\_requests.go)\<close>

definition controlRequestCaller :: "ApplyControlRequest option \<Rightarrow> string" where
  "controlRequestCaller req = (case req of None \<Rightarrow> ''unknown'' | Some r \<Rightarrow> if cr_RequestedBy r = [] then ''unknown'' else cr_RequestedBy r)"

definition callerApplyLogSuffix :: "string \<Rightarrow> string" where
  "callerApplyLogSuffix caller = '' (caller: '' @ (if caller = [] then ''unknown'' else caller) @ '')''"

definition pendingControlRequest :: "local_others \<Rightarrow> nat \<Rightarrow> Apply \<Rightarrow> string \<Rightarrow> ApplyControlRequest option lc" where
  "pendingControlRequest oth n apply operation = lc_read oth n (GetPending (ap_ID apply) operation)"

definition ensureApplyLeaseForControlRequest :: "local_env \<Rightarrow> local_others \<Rightarrow> nat \<Rightarrow> Apply \<Rightarrow> unit lc" where
  "ensureApplyLeaseForControlRequest e oth n apply = (case ApplyLeaseFromContext (le_ctx e) of
       None \<Rightarrow> lc_ret ()
     | Some lease \<Rightarrow>
         if \<not> ApplyLease_Valid lease \<or> al_ApplyID lease \<noteq> ap_ID apply then lc_err (Local_Storage ErrApplyLeaseLost)
         else lc_write oth n (\<lambda>d. bind_result (CheckLease lease d) (\<lambda>_. Inr d)))"

definition completePendingControlRequests :: "local_env \<Rightarrow> local_others \<Rightarrow> nat \<Rightarrow> Apply \<Rightarrow> string \<Rightarrow> unit lc" where
  "completePendingControlRequests e oth n apply operation =
     lc_bind (ensureApplyLeaseForControlRequest e oth n apply) (\<lambda>_. lc_write oth (n + 1) (CompletePending (le_now e) (le_ctx e) (ap_ID apply) operation))"

definition failPendingControlRequests :: "local_env \<Rightarrow> local_others \<Rightarrow> nat \<Rightarrow> Apply \<Rightarrow> string \<Rightarrow> string \<Rightarrow> unit lc" where
  "failPendingControlRequests e oth n apply operation errorMessage =
     lc_bind (ensureApplyLeaseForControlRequest e oth n apply) (\<lambda>_. lc_write oth (n + 1) (FailPending (le_now e) (le_ctx e) (ap_ID apply) operation errorMessage))"

definition markApplyCuttingOverForControlRequest :: "local_env \<Rightarrow> local_others \<Rightarrow> nat \<Rightarrow> Apply \<Rightarrow> Apply lc" where
  "markApplyCuttingOverForControlRequest e oth n apply =
     (if \<not> IsState (ap_State apply) [Apply_WaitingForCutover, Apply_Running] then lc_ret apply
      else (let apply' = apply\<lparr>ap_State := Apply_CuttingOver, ap_UpdatedAt := le_now e\<rparr> in
        lc_bind (lc_write oth n (ap_Update (le_now e) (le_ctx e) apply')) (\<lambda>_. lc_ret apply')))"

definition applyReadyForCutoverRequest :: "local_others \<Rightarrow> nat \<Rightarrow> Apply \<Rightarrow> bool lc" where
  "applyReadyForCutoverRequest oth n apply =
     (if IsState (ap_State apply) [Apply_WaitingForCutover, Apply_CuttingOver] then lc_ret True
      else if \<not> IsState (ap_State apply) [Apply_Running] then lc_ret False
      else lc_read oth n (\<lambda>d. list_ex (\<lambda>t. IsState (tk_State t) [Task_WaitingForCutover, Task_CuttingOver]) (tk_GetByApplyID (ap_ID apply) d)))"

definition cutoverRequestResolvedByApplyState :: "string \<Rightarrow> bool" where
  "cutoverRequestResolvedByApplyState applyState \<longleftrightarrow> IsState applyState [Apply_RevertWindow, Apply_Completed, Apply_Reverted]"

definition cutoverRequestFailedByApplyState :: "string \<Rightarrow> bool" where
  "cutoverRequestFailedByApplyState applyState \<longleftrightarrow> IsTerminalApplyState applyState \<and> \<not> cutoverRequestResolvedByApplyState applyState"

text \<open>The apply as stored when the request was completed, or nothing.\<close>

definition completePendingStopIfStoredApplyResolved :: "local_env \<Rightarrow> local_others \<Rightarrow> nat \<Rightarrow> Apply \<Rightarrow> Apply option lc" where
  "completePendingStopIfStoredApplyResolved e oth n apply =
     lc_bind (lc_read oth n (ap_Get (ap_ID apply))) (\<lambda>stored. case stored of
       None \<Rightarrow> lc_err (Local_Storage ErrApplyNotFound)
     | Some storedApply \<Rightarrow>
         if \<not> IsTerminalApplyState (ap_State storedApply) then lc_ret None
         else lc_bind (completePendingControlRequests e oth (n + 1) storedApply ControlOperationStop) (\<lambda>_. lc_ret (Some storedApply)))"

subsection \<open>Stop terminality and the cutover barrier (stop\_terminality.go, cutover\_barrier.go)\<close>

definition stopTerminatesChange :: "string \<Rightarrow> bool" where
  "stopTerminatesChange databaseType \<longleftrightarrow> databaseType = DatabaseTypeVitess"

definition isCutoverDriveState :: "string \<Rightarrow> bool" where
  "isCutoverDriveState opState \<longleftrightarrow> IsState opState [Apply_WaitingForCutover, Apply_CuttingOver, Apply_RevertWindow]"

definition shouldAutoDeferCutover :: "bool \<Rightarrow> ApplyOperation option \<Rightarrow> bool" where
  "shouldAutoDeferCutover multiOperation ad \<longleftrightarrow> multiOperation \<and> (case ad of None \<Rightarrow> False | Some r \<Rightarrow> op_CutoverPolicy r = CutoverPolicyBarrier)"

definition shouldReleaseAtCutoverBarrier :: "Apply \<Rightarrow> bool \<Rightarrow> ApplyOperation option \<Rightarrow> bool" where
  "shouldReleaseAtCutoverBarrier apply multiOperation ad \<longleftrightarrow> \<not> DeferCutover (GetOptions apply) \<and> shouldAutoDeferCutover multiOperation ad"

definition effectiveCopyDriveOptions :: "Apply \<Rightarrow> bool \<Rightarrow> ApplyOperation option \<Rightarrow> ApplyOptions" where
  "effectiveCopyDriveOptions apply multiOperation ad = (let opts = GetOptions apply in
     if \<not> DeferCutover opts \<and> shouldAutoDeferCutover multiOperation ad then opts\<lparr>DeferCutover := True\<rparr> else opts)"

subsection \<open>Looking things up\<close>

definition getActiveTaskForDatabase :: "string \<Rightarrow> db \<Rightarrow> Task option" where
  "getActiveTaskForDatabase database d = find (\<lambda>t. \<not> IsTerminalTaskState (tk_State t)) (tk_GetByDatabase database d)"

text \<open>The apply of a stop or cutover request: the named one, or that of the database's active task; \<open>None\<close> when there is none.\<close>

definition resolveStopApply :: "local_env \<Rightarrow> local_others \<Rightarrow> nat \<Rightarrow> string \<Rightarrow> Apply option lc" where
  "resolveStopApply e oth n applyId =
     (if applyId \<noteq> [] then lc_bind (lc_read oth n (GetByApplyIdentifier applyId)) (\<lambda>found. case found of
          None \<Rightarrow> lc_err (Local_Storage ErrApplyNotFound) | Some apply \<Rightarrow> lc_ret (Some apply))
      else lc_bind (lc_read oth n (getActiveTaskForDatabase (le_Database e))) (\<lambda>task. case task of
          None \<Rightarrow> lc_ret None
        | Some t \<Rightarrow> lc_bind (lc_read oth (n + 1) (ap_Get (tk_ApplyID t))) (\<lambda>found. case found of
            None \<Rightarrow> lc_err (Local_Storage ErrApplyNotFound) | Some apply \<Rightarrow> lc_ret (Some apply))))"

definition resolveCutoverApply :: "local_env \<Rightarrow> local_others \<Rightarrow> nat \<Rightarrow> string \<Rightarrow> Apply option lc" where
  "resolveCutoverApply = resolveStopApply"

definition firstRevertWindowTask :: "Task list \<Rightarrow> int \<Rightarrow> Task option" where
  "firstRevertWindowTask tasks targetApplyID =
     find (\<lambda>t. \<not> (targetApplyID > 0 \<and> tk_ApplyID t \<noteq> targetApplyID) \<and> IsState (tk_State t) [Task_RevertWindow]) tasks"

definition revertWindowStopRejectionMessage :: "string \<Rightarrow> string" where
  "revertWindowStopRejectionMessage applyIdentifier = ''schema change '' @ applyIdentifier
     @ '' is in the revert window and has already been applied: use revert to undo it or skip-revert to finalize it''"

definition applyHasRevertWindowTask :: "local_others \<Rightarrow> nat \<Rightarrow> Apply \<Rightarrow> bool lc" where
  "applyHasRevertWindowTask oth n apply = lc_read oth n (\<lambda>d. firstRevertWindowTask (tk_GetByApplyID (ap_ID apply) d) (ap_ID apply) \<noteq> None)"

definition applyOperationIDForTask :: "Task \<Rightarrow> local_error + int" where
  "applyOperationIDForTask task = (case tk_ApplyOperationID task of
       None \<Rightarrow> Inl (Local_Error (''task '' @ tk_TaskIdentifier task @ '' has no apply_operation_id for engine resume state''))
     | Some i \<Rightarrow> if i = 0 then Inl (Local_Error (''task '' @ tk_TaskIdentifier task @ '' has no apply_operation_id for engine resume state'')) else Inr i)"

definition loadEngineResumeState :: "local_others \<Rightarrow> nat \<Rightarrow> Task \<Rightarrow> EngineResumeState lc" where
  "loadEngineResumeState oth n task = (case applyOperationIDForTask task of
       Inl err \<Rightarrow> lc_err err
     | Inr i \<Rightarrow> lc_bind (lc_read oth n (GetEngineResumeState i)) (\<lambda>r. case r of Inl err \<Rightarrow> lc_err (Local_Storage err) | Inr rs \<Rightarrow> lc_ret rs))"

definition buildControlRequest :: "local_env \<Rightarrow> local_others \<Rightarrow> nat \<Rightarrow> Task \<Rightarrow> engine_call \<Rightarrow> EngineResumeState option lc" where
  "buildControlRequest e oth n task operation =
     lc_bind (if le_Type e = DatabaseTypeVitess then lc_bind (loadEngineResumeState oth n task) (\<lambda>rs. lc_ret (Some rs)) else lc_ret None) (\<lambda>rs.
       case le_validate e operation rs of Some err \<Rightarrow> lc_err (Local_Error err) | None \<Rightarrow> lc_ret rs)"

subsection \<open>Recording requests\<close>

definition lc_request :: "local_env \<Rightarrow> local_others \<Rightarrow> nat \<Rightarrow> request_windows \<Rightarrow> Apply \<Rightarrow> string \<Rightarrow> string \<Rightarrow> bool lc" where
  "lc_request e oth n btw apply operation requestedBy w = (let w1 = oth n w in
     case RequestPending (le_now e) (fst btw) (snd btw) (control_row apply operation requestedBy []) (lw_db w1) of
       Inl err \<Rightarrow> (Inl (Local_Storage err), w1)
     | Inr (_, alreadyPending, d) \<Rightarrow> (Inr alreadyPending, w1\<lparr>lw_db := d\<rparr>))"

definition queueCutoverRequest :: "local_env \<Rightarrow> local_others \<Rightarrow> request_windows \<Rightarrow> Apply \<Rightarrow> string \<Rightarrow> unit lc" where
  "queueCutoverRequest e oth btw apply caller = (let requestedBy = (if caller = [] then ''tern-grpc'' else caller) in
     lc_bind (lc_request e oth 2 btw apply ControlOperationCutover requestedBy) (\<lambda>alreadyPending.
       if alreadyPending then lc_ret ()
       else lc_log (ap_ID apply) ''cutover_triggered'' (''Cutover request queued for apply owner'' @ callerApplyLogSuffix requestedBy)))"

definition requestCutover :: "local_env \<Rightarrow> local_others \<Rightarrow> request_windows \<Rightarrow> string \<Rightarrow> string \<Rightarrow> unit lc" where
  "requestCutover e oth btw applyId caller = lc_bind (resolveCutoverApply e oth 0 applyId) (\<lambda>found. case found of
     None \<Rightarrow> lc_err (Local_Error ''no active schema change'') | Some apply \<Rightarrow> queueCutoverRequest e oth btw apply caller)"

definition requestStop :: "local_env \<Rightarrow> local_others \<Rightarrow> request_windows \<Rightarrow> string \<Rightarrow> string \<Rightarrow> stop_response lc" where
  "requestStop e oth btw applyId caller = lc_bind (resolveStopApply e oth 0 applyId) (\<lambda>found. case found of
     None \<Rightarrow> lc_err (Local_Error ''no active schema change'')
   | Some apply \<Rightarrow> lc_bind (applyHasRevertWindowTask oth 2 apply) (\<lambda>revertWindow.
       if revertWindow then lc_err (Local_Error (revertWindowStopRejectionMessage (ap_ApplyIdentifier apply)))
       else (let requestedBy = (if caller = [] then ''tern-grpc'' else caller) in
         lc_bind (lc_request e oth 3 btw apply ControlOperationStop requestedBy) (\<lambda>alreadyPending.
         lc_bind (if alreadyPending then lc_ret () else lc_log (ap_ID apply) ''stop_requested'' (''Stop request queued for apply owner'' @ callerApplyLogSuffix requestedBy)) (\<lambda>_.
           lc_ret \<lparr>sr_Accepted = True, sr_ErrorMessage = [], sr_Done = 0, sr_Skipped = 0\<rparr>)))))"

subsection \<open>Stopping an owned apply\<close>

definition hasLiveEngineWork :: "string \<Rightarrow> bool" where
  "hasLiveEngineWork taskState \<longleftrightarrow>
     IsState taskState [Task_Running, Task_WaitingForCutover, Task_CuttingOver, Task_Recovering, Task_WaitingForDeploy, Task_FailedRetryable]"

text \<open>Whether the engine was stopped; the credentials it was stopped with are those of the task.\<close>

definition stopEngineForTasks :: "local_env \<Rightarrow> local_others \<Rightarrow> nat \<Rightarrow> Task list \<Rightarrow> int \<Rightarrow> bool lc" where
  "stopEngineForTasks e oth n tasks targetApplyID =
     (if \<not> le_has_engine e then lc_err (Local_Error (''no engine configured for type: '' @ le_Type e))
      else case find (\<lambda>t. \<not> (targetApplyID > 0 \<and> tk_ApplyID t \<noteq> targetApplyID) \<and> \<not> IsTerminalTaskState (tk_State t) \<and> hasLiveEngineWork (tk_State t)) tasks of
        None \<Rightarrow> lc_ret False
      | Some task \<Rightarrow> (case le_credentials e task of
          Some err \<Rightarrow> lc_err (Local_Error (''resolve credentials for stop task '' @ tk_TaskIdentifier task @ '': '' @ err))
        | None \<Rightarrow> lc_bind (buildControlRequest e oth n task Eng_Stop) (\<lambda>rs.
            lc_bind (lc_engine e oth (n + 1) Eng_Stop rs) (\<lambda>result. case result of
              Inl err \<Rightarrow> lc_err (Local_Error ((if le_Type e = DatabaseTypeVitess then ''cancel deploy request for task '' else ''stop local engine for task '')
                @ tk_TaskIdentifier task @ '': '' @ err))
            | Inr _ \<Rightarrow> lc_ret True))))"

definition progressTableKey :: "string \<Rightarrow> string \<Rightarrow> string" where
  "progressTableKey namespace tbl = namespace @ [CHR 0x00] @ tbl"

definition indexEngineTableProgress :: "table_progress list \<Rightarrow> string \<Rightarrow> table_progress option" where
  "indexEngineTableProgress tables key = find (\<lambda>tp. progressTableKey (tp_Namespace tp) (tp_Table tp) = key) (rev tables)"

definition engineProgressForTask :: "(string \<Rightarrow> table_progress option) \<Rightarrow> Task \<Rightarrow> table_progress option" where
  "engineProgressForTask index task = index (progressTableKey (tk_Namespace task) (tk_TableName task))"

definition snapshotEngineProgress :: "local_env \<Rightarrow> local_others \<Rightarrow> nat \<Rightarrow> bool \<Rightarrow> (string \<Rightarrow> table_progress option) lc" where
  "snapshotEngineProgress e oth n stopped =
     (if \<not> le_has_engine e \<or> \<not> stopped then lc_ret (\<lambda>_. None)
      else lc_bind (lc_read oth n (le_progress e)) (\<lambda>progress. case progress of
          Inl _ \<Rightarrow> lc_ret (\<lambda>_. None)
        | Inr None \<Rightarrow> lc_ret (\<lambda>_. None)
        | Inr (Some tables) \<Rightarrow> lc_ret (indexEngineTableProgress tables)))"

definition transitionTaskState :: "local_env \<Rightarrow> local_others \<Rightarrow> nat \<Rightarrow> Task \<Rightarrow> int \<Rightarrow> string \<Rightarrow> string \<Rightarrow> unit lc" where
  "transitionTaskState e oth n task applyID newState logMsg =
     lc_bind (lc_try oth n (tk_Update (le_now e) (le_ctx e) (task\<lparr>tk_State := newState, tk_UpdatedAt := le_now e\<rparr>))) (\<lambda>_.
       if logMsg \<noteq> [] \<and> applyID > 0 then lc_log applyID ''state_transition'' logMsg else lc_ret ())"

definition with_progress :: "table_progress option \<Rightarrow> Task \<Rightarrow> Task" where
  "with_progress progress task = (case progress of None \<Rightarrow> task | Some et \<Rightarrow>
     task\<lparr>tk_RowsCopied := tp_RowsCopied et, tk_RowsTotal := tp_RowsTotal et, tk_ProgressPercent := tp_Progress et, tk_ETASeconds := tp_ETASeconds et,
          tk_ChecksumRowsChecked := tp_ChecksumRowsChecked et, tk_ChecksumRowsTotal := tp_ChecksumRowsTotal et\<rparr>)"

text \<open>The loop's variables are the tasks stopped, the tasks skipped and the apply of the first targeted task.\<close>

primrec markTasksWithState ::
  "local_env \<Rightarrow> local_others \<Rightarrow> int \<Rightarrow> (string \<Rightarrow> table_progress option) \<Rightarrow> string \<Rightarrow> Task list \<Rightarrow> nat \<Rightarrow> int \<times> int \<times> int \<Rightarrow> (int \<times> int \<times> int) lc" where
  "markTasksWithState e oth targetApplyID engineProgress newState [] n counts = lc_ret counts"
| "markTasksWithState e oth targetApplyID engineProgress newState (task # tasks) n counts =
     (let (stopped, skipped, applyID) = counts in
      if targetApplyID > 0 \<and> tk_ApplyID task \<noteq> targetApplyID then markTasksWithState e oth targetApplyID engineProgress newState tasks (n + 1) counts
      else (let applyID' = (if applyID = 0 \<and> tk_ApplyID task > 0 then tk_ApplyID task else applyID) in
        if IsTerminalTaskState (tk_State task)
        then markTasksWithState e oth targetApplyID engineProgress newState tasks (n + 1) (stopped, skipped + 1, applyID')
        else lc_bind (transitionTaskState e oth n (with_progress (engineProgressForTask engineProgress task) task) (tk_ApplyID task) newState
                (''Task '' @ tk_TaskIdentifier task @ '' '' @ newState)) (\<lambda>_.
             markTasksWithState e oth targetApplyID engineProgress newState tasks (n + 1) (stopped + 1, skipped, applyID'))))"

definition tern_firstFailedTaskError :: "Task list \<Rightarrow> string" where
  "tern_firstFailedTaskError tasks =
     (let failed = (\<lambda>st. find (\<lambda>t. IsState (tk_State t) [st] \<and> null_text (tk_ErrorMessage t) \<noteq> []) tasks);
          reason = (\<lambda>t. ''table '' @ tk_TableName t @ '' failed: '' @ null_text (tk_ErrorMessage t)) in
      case failed Task_Failed of Some t \<Rightarrow> reason t
      | None \<Rightarrow> (case failed Task_FailedRetryable of Some t \<Rightarrow> reason t | None \<Rightarrow> []))"

definition ensureApplyFailureMessage :: "Apply \<Rightarrow> Task list \<Rightarrow> Apply" where
  "ensureApplyFailureMessage apply tasks =
     (if null_text (ap_ErrorMessage apply) \<noteq> [] then apply
      else if \<not> IsState (ap_State apply) [Apply_Failed] \<and> \<not> IsState (ap_State apply) [Apply_FailedRetryable] then apply
      else let msg = tern_firstFailedTaskError tasks in if msg \<noteq> [] then apply\<lparr>ap_ErrorMessage := Some msg\<rparr> else apply)"

definition load_apply :: "local_others \<Rightarrow> nat \<Rightarrow> int \<Rightarrow> Apply lc" where
  "load_apply oth n applyID = lc_bind (lc_read oth n (ap_Get applyID)) (\<lambda>found. case found of
     None \<Rightarrow> lc_err (Local_Storage ErrApplyNotFound) | Some a \<Rightarrow> lc_ret a)"

definition handleStopAllTasksTerminal :: "local_env \<Rightarrow> local_others \<Rightarrow> nat \<Rightarrow> int \<Rightarrow> int \<Rightarrow> stop_response lc" where
  "handleStopAllTasksTerminal e oth n applyID skippedCount = lc_bind (load_apply oth n applyID) (\<lambda>a.
     let answer = (\<lambda>st. \<lparr>sr_Accepted = True, sr_ErrorMessage = ''Schema change already '' @ st, sr_Done = 0, sr_Skipped = skippedCount\<rparr>) in
     if IsTerminalApplyState (ap_State a) then lc_ret (answer (ap_State a))
     else lc_bind (lc_read oth (n + 1) (tk_GetByApplyID applyID)) (\<lambda>tasks.
       let derivedState = DeriveApplyState (map tk_State tasks);
           a1 = a\<lparr>ap_State := derivedState\<rparr>;
           a2 = (if IsState derivedState [Apply_Failed] \<and> null_text (ap_ErrorMessage a1) = [] then a1\<lparr>ap_ErrorMessage := Some (tern_firstFailedTaskError tasks)\<rparr> else a1);
           a3 = (if IsTerminalApplyState derivedState then a2\<lparr>ap_CompletedAt := Some (le_now e)\<rparr> else a2)\<lparr>ap_UpdatedAt := le_now e\<rparr> in
       lc_bind (lc_write oth (n + 2) (ap_Update (le_now e) (le_ctx e) a3)) (\<lambda>_.
       lc_bind (lc_log applyID ''state_transition'' (''All tasks terminal before stop took effect; apply state derived from tasks: '' @ derivedState)) (\<lambda>_.
         lc_ret (answer derivedState)))))"

definition markApplyStopped :: "local_env \<Rightarrow> local_others \<Rightarrow> nat \<Rightarrow> int \<Rightarrow> unit lc" where
  "markApplyStopped e oth n applyID = lc_bind (load_apply oth n applyID) (\<lambda>a.
     if IsTerminalApplyState (ap_State a) \<and> \<not> IsState (ap_State a) [Apply_Stopped] then lc_ret ()
     else lc_write oth (n + 1) (ap_Update (le_now e) (le_ctx e) (a\<lparr>ap_State := Apply_Stopped, ap_CompletedAt := None, ap_UpdatedAt := le_now e\<rparr>)))"

definition markApplyCancelled :: "local_env \<Rightarrow> local_others \<Rightarrow> nat \<Rightarrow> int \<Rightarrow> unit lc" where
  "markApplyCancelled e oth n applyID = lc_bind (load_apply oth n applyID) (\<lambda>a.
     lc_write oth (n + 1) (ap_Update (le_now e) (le_ctx e) (a\<lparr>ap_State := Apply_Cancelled, ap_CompletedAt := Some (le_now e), ap_UpdatedAt := le_now e\<rparr>)))"

definition resolveRevertWindowApplyIdentifier :: "local_others \<Rightarrow> nat \<Rightarrow> string \<Rightarrow> Apply option \<Rightarrow> Task \<Rightarrow> string lc" where
  "resolveRevertWindowApplyIdentifier oth n applyId targetApply revertTask =
     (if applyId \<noteq> [] then lc_ret applyId
      else if targetApply \<noteq> None \<and> ap_ApplyIdentifier (the targetApply) \<noteq> [] then lc_ret (ap_ApplyIdentifier (the targetApply))
      else lc_bind (lc_read oth n (ap_Get (tk_ApplyID revertTask))) (\<lambda>found. case found of
          None \<Rightarrow> lc_ret (tk_TaskIdentifier revertTask) | Some a \<Rightarrow> lc_ret (ap_ApplyIdentifier a)))"

text \<open>
  What follows the stop of the engine: the tasks are marked, then the apply, and a stop that found only terminal tasks settles the apply from them. The cancelled
  context of the driving goroutine is not in the tables.
\<close>

definition recordStoppedApply ::
  "local_env \<Rightarrow> local_others \<Rightarrow> nat \<Rightarrow> Task list \<Rightarrow> Apply option \<Rightarrow> int \<Rightarrow> string \<Rightarrow> (string \<Rightarrow> table_progress option) \<Rightarrow> string \<Rightarrow> stop_response lc" where
  "recordStoppedApply e oth n tasks targetApply targetApplyID terminalState engineTableProgress caller =
     lc_bind (markTasksWithState e oth targetApplyID engineTableProgress terminalState tasks n (0, 0, 0)) (\<lambda>(stoppedCount, skippedCount, applyID).
     let m = n + length tasks;
         suffix = (if caller \<noteq> [] then callerApplyLogSuffix caller else []);
         counts = (\<lambda>verb. itoa stoppedCount @ '' tasks '' @ verb @ '', '' @ itoa skippedCount @ '' skipped'') in
     lc_bind (if applyID > 0 \<and> stoppedCount > 0 then
         (if terminalState = Task_Cancelled
          then lc_bind (markApplyCancelled e oth m applyID) (\<lambda>_.
            lc_log applyID ''stop_requested'' (''Cancel requested: '' @ counts ''cancelled'' @ '' (deploy request cancelled)'' @ suffix))
          else lc_bind (markApplyStopped e oth m applyID) (\<lambda>_. lc_log applyID ''stop_requested'' (''Stop requested: '' @ counts ''stopped'' @ suffix)))
       else lc_ret ()) (\<lambda>_.
     if stoppedCount = 0 \<and> skippedCount = 0 then lc_err (Local_Error ''no active schema change'')
     else if stoppedCount = 0 \<and> skippedCount > 0 \<and> applyID > 0 then
       (if targetApply \<noteq> None \<and> IsTerminalApplyState (ap_State (the targetApply)) \<and> \<not> IsState (ap_State (the targetApply)) [Apply_Completed]
        then lc_ret \<lparr>sr_Accepted = True, sr_ErrorMessage = [], sr_Done = 0, sr_Skipped = skippedCount\<rparr>
        else handleStopAllTasksTerminal e oth (m + 2) applyID skippedCount)
     else lc_ret \<lparr>sr_Accepted = stoppedCount > 0, sr_ErrorMessage = [], sr_Done = stoppedCount, sr_Skipped = skippedCount\<rparr>))"

definition stopOwnedApply :: "local_env \<Rightarrow> local_others \<Rightarrow> nat \<Rightarrow> string \<Rightarrow> string \<Rightarrow> stop_response lc" where
  "stopOwnedApply e oth n applyId caller =
     lc_bind (lc_read oth n (tk_GetByDatabase (le_Database e))) (\<lambda>tasks.
     lc_bind (if applyId \<noteq> [] then lc_bind (lc_read oth (n + 1) (GetByApplyIdentifier applyId)) (\<lambda>found. case found of
           None \<Rightarrow> lc_err (Local_Error (''apply '' @ applyId @ '' not found'')) | Some a \<Rightarrow> lc_ret (Some a))
         else lc_ret None) (\<lambda>targetApply.
     let targetApplyID = (case targetApply of None \<Rightarrow> 0 | Some a \<Rightarrow> ap_ID a) in
     case firstRevertWindowTask tasks targetApplyID of
       Some revertTask \<Rightarrow> lc_bind (resolveRevertWindowApplyIdentifier oth (n + 2) applyId targetApply revertTask) (\<lambda>applyIdentifier.
         lc_err (Local_Error (revertWindowStopRejectionMessage applyIdentifier)))
     | None \<Rightarrow>
         lc_bind (stopEngineForTasks e oth (n + 2) tasks targetApplyID) (\<lambda>stopped.
         lc_bind (if stopTerminatesChange (le_Type e) then lc_ret (\<lambda>_. None) else snapshotEngineProgress e oth (n + 4) stopped) (\<lambda>engineTableProgress.
           recordStoppedApply e oth (n + 5) tasks targetApply targetApplyID
             (if stopTerminatesChange (le_Type e) then Task_Cancelled else Task_Stopped) engineTableProgress caller))))"

subsection \<open>Working off the requests\<close>

definition hasPendingStartControlRequest :: "local_others \<Rightarrow> nat \<Rightarrow> Apply \<Rightarrow> bool lc" where
  "hasPendingStartControlRequest oth n apply = lc_bind (pendingControlRequest oth n apply ControlOperationStart) (\<lambda>req. lc_ret (req \<noteq> None))"

definition stopHandledUnlessStartPending :: "local_others \<Rightarrow> nat \<Rightarrow> Apply \<Rightarrow> bool lc" where
  "stopHandledUnlessStartPending oth n apply = lc_bind (hasPendingStartControlRequest oth n apply) (\<lambda>hasPendingStart. lc_ret (\<not> hasPendingStart))"

text \<open>
  Whether the request was handled, with the apply as the caller's variable then holds it. The code pairs every error with \<^verbatim>\<open>true\<close>, so an error is the left
  value alone. The second half, for an apply that is not over, refuses the stop in the revert window and otherwise stops the apply.
\<close>

definition stopUnresolvedApply :: "local_env \<Rightarrow> local_others \<Rightarrow> Apply \<Rightarrow> string \<Rightarrow> (bool \<times> Apply) lc" where
  "stopUnresolvedApply e oth apply caller = lc_bind (applyHasRevertWindowTask oth 4 apply) (\<lambda>revertWindow.
     if revertWindow then (let message = revertWindowStopRejectionMessage (ap_ApplyIdentifier apply) in
       lc_bind (lc_log (ap_ID apply) ''stop_requested'' (''Pending stop request rejected: '' @ message @ callerApplyLogSuffix caller)) (\<lambda>_.
       lc_bind (failPendingControlRequests e oth 5 apply ControlOperationStop message) (\<lambda>_. lc_ret (True, apply))))
     else lc_bind (stopOwnedApply e oth 10 (ap_ApplyIdentifier apply) caller) (\<lambda>resp.
       if \<not> sr_Accepted resp then lc_err (Local_Error (''process pending stop for apply '' @ ap_ApplyIdentifier apply @ '': ''
         @ (if sr_ErrorMessage resp \<noteq> [] then sr_ErrorMessage resp else ''not accepted'')))
       else lc_bind (completePendingStopIfStoredApplyResolved e oth 7 apply) (\<lambda>completed. case completed of
           None \<Rightarrow> lc_err (Local_Error (''process pending stop for apply '' @ ap_ApplyIdentifier apply @ '': storage did not reach a resolved stop state''))
         | Some storedApply \<Rightarrow> lc_ret (True, storedApply))))"

definition processPendingStopControlRequest :: "local_env \<Rightarrow> local_others \<Rightarrow> Apply \<Rightarrow> (bool \<times> Apply) lc" where
  "processPendingStopControlRequest e oth apply =
     lc_bind (pendingControlRequest oth 0 apply ControlOperationStop) (\<lambda>controlReq.
     if controlReq = None then lc_ret (False, apply)
     else lc_bind (completePendingStopIfStoredApplyResolved e oth 1 apply) (\<lambda>completed.
     let caller = controlRequestCaller controlReq;
         finish = (\<lambda>n a. lc_bind (stopHandledUnlessStartPending oth n a) (\<lambda>handled. lc_ret (handled, a))) in
     case completed of
       Some storedApply \<Rightarrow> lc_bind (lc_log (ap_ID storedApply) ''stop_requested''
           (''Pending stop request completed for resolved apply'' @ callerApplyLogSuffix caller)) (\<lambda>_. finish 4 storedApply)
     | None \<Rightarrow>
         if IsTerminalApplyState (ap_State apply) then
           lc_bind (lc_log (ap_ID apply) ''stop_requested'' (''Pending stop request completed for terminal apply'' @ callerApplyLogSuffix caller)) (\<lambda>_.
           lc_bind (completePendingControlRequests e oth 4 apply ControlOperationStop) (\<lambda>_. finish 6 apply))
         else stopUnresolvedApply e oth apply caller))"

text \<open>The first half of \<^verbatim>\<open>cutover\<close> finds the apply and the task; its answer is whether the engine accepted, with a message.\<close>

definition cutover_task :: "local_env \<Rightarrow> local_others \<Rightarrow> string \<Rightarrow> (Apply \<times> Task) lc" where
  "cutover_task e oth applyId =
     (let no_change = lc_err (Local_Error ''no active schema change'') in
      if applyId \<noteq> [] then lc_bind (lc_read oth 10 (GetByApplyIdentifier applyId)) (\<lambda>found. case found of
          None \<Rightarrow> lc_err (Local_Storage ErrApplyNotFound)
        | Some a \<Rightarrow> lc_bind (lc_read oth 11 (tk_GetByApplyID (ap_ID a))) (\<lambda>tasks. case find (\<lambda>t. \<not> IsTerminalTaskState (tk_State t)) tasks of
            Some task \<Rightarrow> lc_ret (a, task)
          | None \<Rightarrow> if tasks \<noteq> [] \<and> IsState (ap_State a) [Apply_WaitingForCutover, Apply_CuttingOver] then lc_ret (a, hd tasks) else no_change))
      else lc_bind (lc_read oth 10 (getActiveTaskForDatabase (le_Database e))) (\<lambda>found. case found of
          None \<Rightarrow> no_change
        | Some task \<Rightarrow> lc_bind (load_apply oth 11 (tk_ApplyID task)) (\<lambda>a. lc_ret (a, task))))"

definition cutover_answer :: "int \<Rightarrow> string + engine_result option \<Rightarrow> (bool \<times> string) lc" where
  "cutover_answer applyID result = (case result of
       Inl err \<Rightarrow> lc_bind (lc_log applyID ''error'' (''Cutover failed: '' @ err)) (\<lambda>_. lc_err (Local_Error (''cutover failed: '' @ err)))
     | Inr None \<Rightarrow> lc_bind (lc_log applyID ''error'' ''Cutover was not accepted: no response from engine'') (\<lambda>_. lc_ret (False, ''not accepted''))
     | Inr (Some r) \<Rightarrow>
         if \<not> er_Accepted r then (let errorMessage = (if er_Message r \<noteq> [] then er_Message r else ''not accepted'') in
           lc_bind (lc_log applyID ''error'' (''Cutover was not accepted: '' @ errorMessage)) (\<lambda>_. lc_ret (False, errorMessage)))
         else lc_ret (True, []))"

definition cutover :: "local_env \<Rightarrow> local_others \<Rightarrow> string \<Rightarrow> string \<Rightarrow> (bool \<times> string) lc" where
  "cutover e oth applyId caller = lc_bind (cutover_task e oth applyId) (\<lambda>(a, task).
     if IsState (ap_State a) [Apply_Recovering]
     then lc_ret (False, ''Schema change is recovering after restart; cutover will be available once recovery completes.'')
     else lc_bind (pendingControlRequest oth 12 a ControlOperationStop) (\<lambda>stop.
       if stop \<noteq> None then lc_err (Local_Error ''schema change has a pending stop request; cutover is blocked until stop is processed'')
       else case le_credentials e task of
         Some err \<Rightarrow> lc_err (Local_Error (''resolve credentials for cutover task '' @ tk_TaskIdentifier task @ '': '' @ err))
       | None \<Rightarrow>
           if \<not> le_has_engine e then lc_err (Local_Error (''no engine configured for type: '' @ le_Type e))
           else lc_bind (buildControlRequest e oth 13 task Eng_Cutover) (\<lambda>rs.
             lc_bind (lc_log (tk_ApplyID task) ''cutover_triggered'' (''Cutover triggered'' @ (if caller \<noteq> [] then callerApplyLogSuffix caller else []))) (\<lambda>_.
             lc_bind (lc_engine e oth 14 Eng_Cutover rs) (cutover_answer (tk_ApplyID task))))))"

text \<open>A program whose error its caller handles.\<close>

definition lc_catch :: "'a lc \<Rightarrow> (local_error + 'a) lc" where
  "lc_catch m w = (case m w of (r, w1) \<Rightarrow> (Inr r, w1))"

text \<open>The second half, for an apply that is ready, starts at the check for a pending stop.\<close>

definition rejectCutover :: "local_env \<Rightarrow> local_others \<Rightarrow> nat \<Rightarrow> Apply \<Rightarrow> string \<Rightarrow> unit lc" where
  "rejectCutover e oth n apply message = lc_bind (failPendingControlRequests e oth n apply ControlOperationCutover message) (\<lambda>_.
     lc_err (Local_Error (''process pending cutover for apply '' @ ap_ApplyIdentifier apply @ '': '' @ message)))"

definition triggerPendingCutover :: "local_env \<Rightarrow> local_others \<Rightarrow> Apply \<Rightarrow> string \<Rightarrow> unit lc" where
  "triggerPendingCutover e oth apply caller = lc_bind (pendingControlRequest oth 2 apply ControlOperationStop) (\<lambda>stopReq.
     if stopReq \<noteq> None then lc_err (Local_Error (''process pending cutover for apply '' @ ap_ApplyIdentifier apply
       @ '': schema change has a pending stop request; cutover is blocked until stop is processed''))
     else lc_bind (markApplyCuttingOverForControlRequest e oth 3 apply) (\<lambda>apply'.
          lc_bind (lc_catch (cutover e oth (ap_ApplyIdentifier apply') caller)) (\<lambda>resp. case resp of
            Inl err \<Rightarrow> rejectCutover e oth 15 apply' (le_error_text e err)
          | Inr (accepted, message) \<Rightarrow>
              if \<not> accepted then rejectCutover e oth 15 apply' (if message \<noteq> [] then message else ''not accepted'')
              else completePendingControlRequests e oth 15 apply' ControlOperationCutover)))"

definition processPendingCutoverControlRequest :: "local_env \<Rightarrow> local_others \<Rightarrow> Apply \<Rightarrow> unit lc" where
  "processPendingCutoverControlRequest e oth apply =
     lc_bind (pendingControlRequest oth 0 apply ControlOperationCutover) (\<lambda>controlReq.
     if controlReq = None then lc_ret ()
     else if cutoverRequestResolvedByApplyState (ap_State apply) then
       lc_bind (lc_log (ap_ID apply) ''cutover_triggered''
           (''Pending cutover request completed for resolved apply'' @ callerApplyLogSuffix (controlRequestCaller controlReq))) (\<lambda>_.
         completePendingControlRequests e oth 1 apply ControlOperationCutover)
     else if cutoverRequestFailedByApplyState (ap_State apply)
     then rejectCutover e oth 1 apply (''cutover request was not applied because apply is '' @ ap_State apply)
     else if IsState (ap_State apply) [Apply_Recovering] then lc_ret ()
     else lc_bind (applyReadyForCutoverRequest oth 1 apply) (\<lambda>readyForCutover.
       if \<not> readyForCutover then lc_ret () else triggerPendingCutover e oth apply (controlRequestCaller controlReq)))"

subsection \<open>Volume, revert and skip-revert\<close>

definition controlSetup :: "local_env \<Rightarrow> local_others \<Rightarrow> Task lc" where
  "controlSetup e oth = lc_bind (lc_read oth 0 (getActiveTaskForDatabase (le_Database e))) (\<lambda>found. case found of
     None \<Rightarrow> lc_err (Local_Error ''no active schema change'')
   | Some task \<Rightarrow> if \<not> le_has_engine e then lc_err (Local_Error (''no engine configured for type: '' @ le_Type e))
       else (case le_credentials e task of Some err \<Rightarrow> lc_err (Local_Error err) | None \<Rightarrow> lc_ret task))"

definition control_call :: "local_env \<Rightarrow> local_others \<Rightarrow> engine_call \<Rightarrow> (string + engine_result option) lc" where
  "control_call e oth c = lc_bind (controlSetup e oth) (\<lambda>task. lc_bind (buildControlRequest e oth 1 task c) (lc_engine e oth 2 c))"

definition Volume :: "local_env \<Rightarrow> local_others \<Rightarrow> string \<times> string \<times> 32 word \<Rightarrow> volume_response lc" where
  "Volume e oth req = (case req of (_, _, volume) \<Rightarrow>
     if sint volume < 1 \<or> sint volume > 11 then lc_err (Local_Error ''volume must be between 1 and 11'')
     else lc_bind (control_call e oth (Eng_Volume volume)) (\<lambda>result. case result of
         Inl err \<Rightarrow> lc_err (Local_Error (''volume failed: '' @ err))
       | Inr None \<Rightarrow> lc_err Local_Panic
       | Inr (Some r) \<Rightarrow> lc_ret \<lparr>vr_Accepted = er_Accepted r, vr_ErrorMessage = [], vr_PreviousVolume = er_PreviousVolume r, vr_NewVolume = er_NewVolume r\<rparr>))"

definition Revert :: "local_env \<Rightarrow> local_others \<Rightarrow> string \<times> string \<Rightarrow> unit lc" where
  "Revert e oth req = lc_bind (control_call e oth Eng_Revert) (\<lambda>result. case result of
     Inl err \<Rightarrow> lc_err (Local_Error (''revert failed: '' @ err)) | Inr _ \<Rightarrow> lc_ret ())"

definition SkipRevert :: "local_env \<Rightarrow> local_others \<Rightarrow> string \<times> string \<Rightarrow> unit lc" where
  "SkipRevert e oth req = lc_bind (control_call e oth Eng_SkipRevert) (\<lambda>result. case result of
     Inl err \<Rightarrow> lc_err (Local_Error (''skip revert failed: '' @ err)) | Inr _ \<Rightarrow> lc_ret ())"

subsection \<open>Rules for the programs\<close>

lemma lc_bind_InrE:
  assumes "lc_bind m f w = (Inr y, w')" obtains x w1 where "m w = (Inr x, w1)" "f x w1 = (Inr y, w')"
  using assms by (auto simp: lc_bind_def split: prod.splits sum.splits)

lemma lc_bind_ok: "m w = (Inr x, w1) \<Longrightarrow> lc_bind m f w = f x w1" by (simp add: lc_bind_def)
lemma lc_bind_read: "lc_bind (lc_read oth n q) f w = f (q (lw_db (oth n w))) (oth n w)" by (simp add: lc_bind_def lc_read_def Let_def)

lemma lc_ret_iff [simp]: "lc_ret x w = (r, w') \<longleftrightarrow> r = Inr x \<and> w' = w" by (auto simp: lc_ret_def)
lemma lc_err_iff [simp]: "lc_err x w = (r, w') \<longleftrightarrow> r = Inl x \<and> w' = w" by (auto simp: lc_err_def)

lemma lc_write_InrD: "lc_write oth n f w = (Inr u, w') \<Longrightarrow> \<exists>d. f (lw_db (oth n w)) = Inr d \<and> w' = (oth n w)\<lparr>lw_db := d\<rparr>"
  by (auto simp: lc_write_def Let_def split: sum.splits)

text \<open>A program that leaves a view of the world as it was, however it ends.\<close>

definition lc_keeps :: "(local_world \<Rightarrow> 'v) \<Rightarrow> 'a lc \<Rightarrow> bool" where
  "lc_keeps g m \<longleftrightarrow> (\<forall>w r w'. m w = (r, w') \<longrightarrow> g w' = g w)"

named_theorems lc_keeps_intros

lemma lc_keepsD: "lc_keeps g m \<Longrightarrow> m w = (r, w') \<Longrightarrow> g w' = g w" by (simp add: lc_keeps_def)

lemma lc_keeps_ret [lc_keeps_intros]: "lc_keeps g (lc_ret x)" by (simp add: lc_keeps_def)
lemma lc_keeps_err [lc_keeps_intros]: "lc_keeps g (lc_err x)" by (simp add: lc_keeps_def)

lemma lc_keeps_bind [lc_keeps_intros]: "lc_keeps g m \<Longrightarrow> (\<And>x. lc_keeps g (f x)) \<Longrightarrow> lc_keeps g (lc_bind m f)"
  unfolding lc_keeps_def lc_bind_def by (auto split: prod.splits sum.splits)

lemma lc_keeps_if [lc_keeps_intros]: "(b \<Longrightarrow> lc_keeps g m) \<Longrightarrow> (\<not> b \<Longrightarrow> lc_keeps g m') \<Longrightarrow> lc_keeps g (if b then m else m')" by simp

lemma lc_keeps_read [lc_keeps_intros]: "(\<And>w. g (oth n w) = g w) \<Longrightarrow> lc_keeps g (lc_read oth n q)" by (simp add: lc_keeps_def lc_read_def Let_def)

lemma lc_keeps_write: "(\<And>w. g (oth n w) = g w) \<Longrightarrow> (\<And>w d. f (lw_db w) = Inr d \<Longrightarrow> g (w\<lparr>lw_db := d\<rparr>) = g w) \<Longrightarrow> lc_keeps g (lc_write oth n f)"
  by (auto simp: lc_keeps_def lc_write_def Let_def split: sum.splits)

lemma lc_keeps_log [lc_keeps_intros]: "(\<And>w l. g (w\<lparr>lw_log := l\<rparr>) = g w) \<Longrightarrow> lc_keeps g (lc_log i t m)" by (simp add: lc_keeps_def lc_log_def)

subsection \<open>Requests that are worked off\<close>

lemma CheckLease_keeps: "lc_write oth n (\<lambda>d. bind_result (CheckLease lease d) (\<lambda>_. Inr d)) w = (Inr u, w') \<Longrightarrow> w' = oth n w"
  by (auto dest!: lc_write_InrD simp: bind_result_Inr_iff)

lemma finish_pending_clears:
  assumes "finish_pending f ctx i operation d = Inr d'" "\<And>cr. \<not> sql_eq (cr_Status (f cr)) ControlRequestPending"
  shows "GetPending i operation d' = None"
proof -
  show ?thesis unfolding GetPending_def finish_pendingD [OF assms(1)] using assms(2)
    by (auto simp: find_None_iff set_update_where split: if_splits)
qed

lemma finish_pending_others:
  "finish_pending f ctx i operation d = Inr d' \<Longrightarrow> db_applies d' = db_applies d \<and> db_tasks d' = db_tasks d"
  by (auto simp: finish_pending_def bind_result_Inr_iff Let_def split: option.splits)

lemma ensureApplyLease_InrD: "ensureApplyLeaseForControlRequest e oth n a w = (Inr u, w') \<Longrightarrow> w' = w \<or> w' = oth n w"
  by (auto simp: ensureApplyLeaseForControlRequest_def dest: CheckLease_keeps split: option.splits if_splits)

text \<open>Completing or failing a request leaves none pending and touches no task and no apply.\<close>

lemma work_off_InrD:
  assumes "lc_bind (ensureApplyLeaseForControlRequest e oth n a) (\<lambda>_. lc_write oth (n + 1) (finish_pending f (le_ctx e) (ap_ID a) operation)) w = (Inr u, w')"
    "\<And>cr. \<not> sql_eq (cr_Status (f cr)) ControlRequestPending"
  obtains v where "v = w \<or> v = oth n w" "GetPending (ap_ID a) operation (lw_db w') = None" "db_applies (lw_db w') = db_applies (lw_db (oth (n + 1) v))"
    "db_tasks (lw_db w') = db_tasks (lw_db (oth (n + 1) v))"
proof -
  from assms(1) obtain v where v: "ensureApplyLeaseForControlRequest e oth n a w = (Inr (), v)"
    "lc_write oth (n + 1) (finish_pending f (le_ctx e) (ap_ID a) operation) v = (Inr u, w')" by (elim lc_bind_InrE) simp
  from lc_write_InrD [OF v(2)] obtain d where d: "finish_pending f (le_ctx e) (ap_ID a) operation (lw_db (oth (n + 1) v)) = Inr d" "lw_db w' = d" by auto
  with that [OF ensureApplyLease_InrD [OF v(1)]] finish_pending_clears [OF d(1) assms(2)] finish_pending_others [OF d(1)] show thesis by auto
qed

lemma not_pending: "\<not> sql_eq ControlRequestCompleted ControlRequestPending" "\<not> sql_eq ControlRequestFailed ControlRequestPending"
  by code_simp+

definition in_revert_window :: "int \<Rightarrow> db \<Rightarrow> bool" where
  "in_revert_window i d \<longleftrightarrow> firstRevertWindowTask (tk_GetByApplyID i d) i \<noteq> None"

definition stored_terminal :: "int \<Rightarrow> db \<Rightarrow> bool" where
  "stored_terminal i d \<longleftrightarrow> (\<exists>a. ap_Get i d = Some a \<and> IsTerminalApplyState (ap_State a))"

text \<open>Others neither file a new stop for the apply nor reopen it, and its tasks stay in the revert window, while the owner works.\<close>

definition calm :: "int \<Rightarrow> local_others \<Rightarrow> bool" where
  "calm i oth \<longleftrightarrow> (\<forall>n w. (GetPending i ControlOperationStop (lw_db w) = None \<longrightarrow> GetPending i ControlOperationStop (lw_db (oth n w)) = None)
     \<and> (stored_terminal i (lw_db w) \<longrightarrow> stored_terminal i (lw_db (oth n w))) \<and> (in_revert_window i (lw_db w) \<longrightarrow> in_revert_window i (lw_db (oth n w))))"

lemma completePending_settles:
  assumes "completePendingControlRequests e oth n a ControlOperationStop w = (Inr u, w')" "calm (ap_ID a) oth" "stored_terminal (ap_ID a) (lw_db w)"
  shows "GetPending (ap_ID a) ControlOperationStop (lw_db w') = None \<and> stored_terminal (ap_ID a) (lw_db w')"
proof -
  from assms(1) [unfolded completePendingControlRequests_def CompletePending_def]
  obtain v where v: "v = w \<or> v = oth n w" "GetPending (ap_ID a) ControlOperationStop (lw_db w') = None" "db_applies (lw_db w') = db_applies (lw_db (oth (n + 1) v))"
    by (rule work_off_InrD) (auto simp: not_pending)
  have "stored_terminal (ap_ID a) (lw_db (oth (n + 1) v))" using v(1) assms(2,3) unfolding calm_def by blast
  with v show ?thesis by (simp add: stored_terminal_def ap_Get_def)
qed

lemma failPending_settles:
  assumes "failPendingControlRequests e oth n a ControlOperationStop message w = (Inr u, w')" "calm (ap_ID a) oth" "in_revert_window (ap_ID a) (lw_db w)"
  shows "GetPending (ap_ID a) ControlOperationStop (lw_db w') = None \<and> in_revert_window (ap_ID a) (lw_db w')"
proof -
  from assms(1) [unfolded failPendingControlRequests_def FailPending_def]
  obtain v where v: "v = w \<or> v = oth n w" "GetPending (ap_ID a) ControlOperationStop (lw_db w') = None" "db_tasks (lw_db w') = db_tasks (lw_db (oth (n + 1) v))"
    by (rule work_off_InrD) (auto simp: not_pending)
  have "in_revert_window (ap_ID a) (lw_db (oth (n + 1) v))" using v(1) assms(2,3) unfolding calm_def by blast
  with v show ?thesis by (simp add: in_revert_window_def tk_GetByApplyID_def)
qed

lemma completeIfResolved_SomeD:
  assumes "completePendingStopIfStoredApplyResolved e oth n a w = (Inr (Some b), w')" "calm (ap_ID a) oth"
  shows "GetPending (ap_ID a) ControlOperationStop (lw_db w') = None \<and> stored_terminal (ap_ID a) (lw_db w') \<and> ap_ID b = ap_ID a \<and> IsTerminalApplyState (ap_State b)"
proof -
  from assms(1) have g: "ap_Get (ap_ID a) (lw_db (oth n w)) = Some b" "IsTerminalApplyState (ap_State b)"
    "completePendingControlRequests e oth (n + 1) b ControlOperationStop (oth n w) = (Inr (), w')"
    by (auto simp: completePendingStopIfStoredApplyResolved_def lc_read_def Let_def elim!: lc_bind_InrE split: option.splits if_splits)
  have i: "ap_ID b = ap_ID a" using ap_Get_SomeD [OF g(1)] by simp
  from g have "stored_terminal (ap_ID a) (lw_db (oth n w))" by (auto simp: stored_terminal_def)
  with completePending_settles [OF g(3)] assms(2) g(2) i show ?thesis by simp
qed

lemma applyHasRevertWindowTask_eq: "applyHasRevertWindowTask oth n a w = (Inr (in_revert_window (ap_ID a) (lw_db (oth n w))), oth n w)"
  by (simp add: applyHasRevertWindowTask_def lc_read_def Let_def in_revert_window_def)

text \<open>
  (C35) A stop that the owner reports as handled is settled. While the owner works, let other callers file no new stop for the apply, not reopen it once it is
  terminal, and leave its tasks in the revert window. Then, when the driver of a running apply is told that a stop was handled, no stop request of the
  apply is pending any more, and either the apply is stored in a terminal state, which is also what the driver then holds, or a task of it is in the
  revert window, where a stop is refused. So a handled stop is never merely a request that was dropped. The engine may write what it likes when it is called.
\<close>

theorem handled_stop_is_settled:
  assumes "processPendingStopControlRequest e oth a w = (Inr (True, b), w')" "calm (ap_ID a) oth" "\<not> IsTerminalApplyState (ap_State a)"
  shows "GetPending (ap_ID a) ControlOperationStop (lw_db w') = None
    \<and> (stored_terminal (ap_ID a) (lw_db w') \<and> IsTerminalApplyState (ap_State b) \<or> in_revert_window (ap_ID a) (lw_db w'))"
proof -
  have calm: "GetPending (ap_ID a) ControlOperationStop (lw_db v) = None \<Longrightarrow> GetPending (ap_ID a) ControlOperationStop (lw_db (oth n v)) = None"
    "stored_terminal (ap_ID a) (lw_db v) \<Longrightarrow> stored_terminal (ap_ID a) (lw_db (oth n v))" for n v using assms(2) unfolding calm_def by blast+
  note unfolds = processPendingStopControlRequest_def pendingControlRequest_def lc_read_def Let_def
  obtain r w1 where c: "completePendingStopIfStoredApplyResolved e oth 1 a (oth 0 w) = (r, w1)" by fastforce
  obtain completed where r: "r = Inr completed" using assms(1) c by (cases r) (auto simp: unfolds lc_bind_def split: if_splits)
  show ?thesis
  proof (cases completed)
    case (Some s)
    from assms(1) c r Some have "b = s \<and> (\<exists>l. w' = oth 4 (w1\<lparr>lw_log := l\<rparr>))"
      by (auto simp: unfolds lc_bind_def lc_log_def stopHandledUnlessStartPending_def hasPendingStartControlRequest_def lc_ret_def split: if_splits)
    then show ?thesis using completeIfResolved_SomeD [OF c [unfolded r Some] assms(2)] calm by (metis local_world.select_convs(1) local_world.surjective local_world.update_convs(2))
  next
    case None
    from assms(1,3) c r None obtain caller where "stopUnresolvedApply e oth a caller w1 = (Inr (True, b), w')"
      by (auto simp: unfolds lc_bind_def split: if_splits)
    then consider
        (reject) l message where "in_revert_window (ap_ID a) (lw_db (oth 4 w1))"
          "failPendingControlRequests e oth 5 a ControlOperationStop message ((oth 4 w1)\<lparr>lw_log := l\<rparr>) = (Inr (), w')"
      | (stop) v where "completePendingStopIfStoredApplyResolved e oth 7 a v = (Inr (Some b), w')"
      by (auto simp: stopUnresolvedApply_def applyHasRevertWindowTask_eq lc_log_def Let_def elim!: lc_bind_InrE
          split: if_splits option.splits)
    then show ?thesis
    proof cases
      case reject
      then show ?thesis using failPending_settles [OF reject(2) assms(2)] by simp
    next
      case stop
      then show ?thesis using completeIfResolved_SomeD [OF stop assms(2)] by blast
    qed
  qed
qed

lemma live_not_terminal: "hasLiveEngineWork s \<Longrightarrow> \<not> IsTerminalTaskState s"
  by (auto simp: hasLiveEngineWork_def IsState_def IsTerminalTaskState_def)

subsection \<open>Cutovers\<close>

text \<open>
  What other callers do while the owner of an apply works off a cutover. Only the owner calls its engine; the apply's identifier goes on naming this apply; and
  nobody files a stop for it after the last check for one, that is at the two calls that follow the check in \<^verbatim>\<open>cutover\<close>. Up to that check others may
  file stops and withdraw or file cutovers, and they may change everything else at any time.
\<close>

definition names_apply :: "Apply \<Rightarrow> db \<Rightarrow> bool" where
  "names_apply a d \<longleftrightarrow> (\<forall>b \<in> set (db_applies d). sql_eq (ap_ApplyIdentifier b) (ap_ApplyIdentifier a) \<longrightarrow> ap_ID b = ap_ID a)"

definition cutover_rely :: "Apply \<Rightarrow> local_others \<Rightarrow> bool" where
  "cutover_rely a oth \<longleftrightarrow> (\<forall>n w. lw_calls (oth n w) = lw_calls w \<and> (names_apply a (lw_db w) \<longrightarrow> names_apply a (lw_db (oth n w)))
     \<and> (n \<in> {13, 14} \<longrightarrow> GetPending (ap_ID a) ControlOperationStop (lw_db w) = None \<longrightarrow> GetPending (ap_ID a) ControlOperationStop (lw_db (oth n w)) = None))"

lemma relyD:
  assumes "cutover_rely a oth"
  shows "lw_calls (oth n w) = lw_calls w" "names_apply a (lw_db w) \<Longrightarrow> names_apply a (lw_db (oth n w))"
    "n \<in> {13, 14} \<Longrightarrow> GetPending (ap_ID a) ControlOperationStop (lw_db w) = None \<Longrightarrow> GetPending (ap_ID a) ControlOperationStop (lw_db (oth n w)) = None"
  using assms by (auto simp: cutover_rely_def)

lemma ap_Update_names: "ap_Update now ctx b d = Inr d' \<Longrightarrow> names_apply a d \<Longrightarrow> names_apply a d'"
proof -
  assume u: "ap_Update now ctx b d = Inr d'" and names: "names_apply a d"
  have row: "ap_ID (updated_apply_row now b r) = ap_ID r" "ap_ApplyIdentifier (updated_apply_row now b r) = ap_ApplyIdentifier r" for r
    by (simp_all add: updated_apply_row_def Let_def split: option.split)
  from u obtain sel where "db_applies d' = update_where sel (updated_apply_row now b) (db_applies d)"
    by (cases "applyTargetForUpdate b d" rule: prod_cases4) (auto simp: ap_Update_def Let_def bind_result_Inr_iff split: if_splits option.splits)
  with names row show "names_apply a d'" by (auto simp: names_apply_def update_where_def)
qed

lemma keeps_calls:
  assumes "cutover_rely a oth"
  shows "lc_keeps lw_calls (lc_read oth n q)" "lc_keeps lw_calls (lc_log i t m)" "lc_keeps lw_calls (lc_write oth n f)"
  using assms by (auto intro!: lc_keeps_read lc_keeps_log lc_keeps_write simp: relyD(1))

lemma keeps_finish:
  assumes "cutover_rely a oth"
  shows "lc_keeps lw_calls (completePendingControlRequests e oth n b operation)" "lc_keeps lw_calls (failPendingControlRequests e oth n b operation m)"
    "lc_keeps lw_calls (rejectCutover e oth n b m)" "lc_keeps lw_calls (cutover_answer i result)" "lc_keeps lw_calls (buildControlRequest e oth n t c)"
    "lc_keeps lw_calls (cutover_task e oth k)"
  unfolding completePendingControlRequests_def failPendingControlRequests_def rejectCutover_def ensureApplyLeaseForControlRequest_def cutover_answer_def
    buildControlRequest_def loadEngineResumeState_def cutover_task_def load_apply_def Let_def
  by (auto intro!: lc_keeps_ret lc_keeps_err lc_keeps_bind keeps_calls [OF assms] split: option.split sum.split)

lemma cutover_task_names:
  assumes "cutover_task e oth (ap_ApplyIdentifier a) w = (Inr (b, task), w1)" "cutover_rely a oth" "names_apply a (lw_db w)" "ap_ApplyIdentifier a \<noteq> []"
  shows "ap_ID b = ap_ID a"
proof -
  from assms(1,4) have "GetByApplyIdentifier (ap_ApplyIdentifier a) (lw_db (oth 10 w)) = Some b"
    by (auto simp: cutover_task_def lc_read_def Let_def elim!: lc_bind_InrE split: option.splits if_splits)
  then have "b \<in> set (db_applies (lw_db (oth 10 w)))" "sql_eq (ap_ApplyIdentifier b) (ap_ApplyIdentifier a)"
    by (auto simp: GetByApplyIdentifier_def find_Some_iff)
  then show ?thesis using relyD(2) [OF assms(2,3), of 10] by (simp add: names_apply_def)
qed

lemma build_no_stop:
  assumes "buildControlRequest e oth 13 task c w = (r, w')" "cutover_rely a oth" "GetPending (ap_ID a) ControlOperationStop (lw_db w) = None"
  shows "GetPending (ap_ID a) ControlOperationStop (lw_db w') = None"
proof -
  have "w' = w \<or> w' = oth 13 w"
    using assms(1) by (auto simp: buildControlRequest_def loadEngineResumeState_def lc_bind_def lc_read_def lc_ret_def lc_err_def Let_def
        split: if_splits sum.splits option.splits prod.splits)
  with assms(3) relyD(3) [OF assms(2), of 13] show ?thesis by auto
qed

text \<open>\<open>guarded i w w'\<close>: the engine was not called, or once, to cut over, with no stop of the apply pending.\<close>

definition guarded :: "int \<Rightarrow> local_world \<Rightarrow> local_world \<Rightarrow> bool" where
  "guarded i w w' \<longleftrightarrow> lw_calls w' = lw_calls w
     \<or> (\<exists>d. lw_calls w' = lw_calls w @ [(Eng_Cutover, d)] \<and> GetPending i ControlOperationStop d = None)"

lemma engine_guarded:
  assumes "lc_engine e oth 14 Eng_Cutover rs w = (r, w')" "cutover_rely a oth" "GetPending (ap_ID a) ControlOperationStop (lw_db w) = None"
  shows "guarded (ap_ID a) w w'"
  using assms(1) relyD(1,3) [OF assms(2)] assms(3) by (auto simp: lc_engine_def guarded_def Let_def split: prod.splits)

lemma guarded_after: "lc_keeps lw_calls m \<Longrightarrow> m w1 = (r, w') \<Longrightarrow> guarded i w w1 \<Longrightarrow> guarded i w w'"
  by (auto simp: guarded_def dest: lc_keepsD)

lemma guarded_before: "lw_calls w1 = lw_calls w \<Longrightarrow> guarded i w1 w' \<Longrightarrow> guarded i w w'"
  by (simp add: guarded_def)

lemma cutover_engine:
  assumes run: "lc_bind (buildControlRequest e oth 13 task Eng_Cutover) (\<lambda>rs. lc_bind (lc_log i ev msg) (\<lambda>_.
      lc_bind (lc_engine e oth 14 Eng_Cutover rs) (cutover_answer i))) w = (r, w')"
    and rely: "cutover_rely a oth" and stop: "GetPending (ap_ID a) ControlOperationStop (lw_db w) = None"
  shows "guarded (ap_ID a) w w'"
proof -
  obtain b w1 where b: "buildControlRequest e oth 13 task Eng_Cutover w = (b, w1)" by fastforce
  have w1: "lw_calls w1 = lw_calls w" "GetPending (ap_ID a) ControlOperationStop (lw_db w1) = None"
    using lc_keepsD [OF keeps_finish(5) [OF rely] b] build_no_stop [OF b rely stop] .
  show ?thesis
  proof (cases b)
    case (Inl err)
    then show ?thesis using run b w1(1) by (auto simp: lc_bind_def guarded_def)
  next
    case (Inr rs)
    obtain l where l: "lc_log i ev msg w1 = (Inr (), w1\<lparr>lw_log := l\<rparr>)" by (auto simp: lc_log_def)
    obtain x w2 where x: "lc_engine e oth 14 Eng_Cutover rs (w1\<lparr>lw_log := l\<rparr>) = (Inr x, w2)"
      by (cases "le_call e Eng_Cutover rs (lw_db (oth 14 (w1\<lparr>lw_log := l\<rparr>)))") (simp add: lc_engine_def Let_def)
    have "cutover_answer i x w2 = (r, w')" using run b Inr l x by (simp add: lc_bind_def)
    moreover have "guarded (ap_ID a) w w2" using engine_guarded [OF x rely] w1 guarded_before [of "w1\<lparr>lw_log := l\<rparr>" w] by simp
    ultimately show ?thesis using guarded_after [OF keeps_finish(4) [OF rely]] by blast
  qed
qed

lemma cutover_guarded:
  assumes run: "cutover e oth (ap_ApplyIdentifier a) caller w = (r, w')" and rely: "cutover_rely a oth" "names_apply a (lw_db w)" "ap_ApplyIdentifier a \<noteq> []"
  shows "guarded (ap_ID a) w w'"
proof -
  obtain x w1 where x: "cutover_task e oth (ap_ApplyIdentifier a) w = (x, w1)" by fastforce
  have w1: "lw_calls w1 = lw_calls w" using lc_keepsD [OF keeps_finish(6) [OF rely(1)] x] .
  show ?thesis
  proof (cases x)
    case (Inl err)
    then show ?thesis using run x w1 by (auto simp: cutover_def lc_bind_def guarded_def)
  next
    case (Inr found)
    obtain b task where found: "found = (b, task)" by fastforce
    have id: "ap_ID b = ap_ID a" using cutover_task_names [OF x [unfolded Inr found] rely] .
    let ?w2 = "oth 12 w1" and ?stop = "GetPending (ap_ID a) ControlOperationStop (lw_db (oth 12 w1))"
    have w2: "lw_calls ?w2 = lw_calls w" using relyD(1) [OF rely(1)] w1 by simp
    note unfolds = cutover_def lc_bind_ok [where m = "cutover_task e oth (ap_ApplyIdentifier a)", OF x [unfolded Inr found]] pendingControlRequest_def lc_bind_read id
    show ?thesis
    proof (cases "\<not> IsState (ap_State b) [Apply_Recovering] \<and> ?stop = None \<and> le_credentials e task = None \<and> le_has_engine e")
      case True
      then have stop: "?stop = None"
        and go: "lc_bind (buildControlRequest e oth 13 task Eng_Cutover) (\<lambda>rs.
            lc_bind (lc_log (tk_ApplyID task) ''cutover_triggered'' (''Cutover triggered'' @ (if caller \<noteq> [] then callerApplyLogSuffix caller else []))) (\<lambda>_.
            lc_bind (lc_engine e oth 14 Eng_Cutover rs) (cutover_answer (tk_ApplyID task)))) ?w2 = (r, w')"
        using run by (simp_all add: unfolds)
      from cutover_engine [OF go rely(1) stop] guarded_before [OF w2] show ?thesis by blast
    next
      case False
      have "lw_calls w' = lw_calls w"
      proof (cases "IsState (ap_State b) [Apply_Recovering]")
        case True
        then show ?thesis using run w1 by (simp add: unfolds)
      next
        case live: False
        show ?thesis
        proof (cases "?stop = None")
          case True
          then show ?thesis using run live False w2 by (cases "le_credentials e task") (simp_all add: unfolds)
        next
          case stopped: False
          then show ?thesis using run live w2 by (simp add: unfolds)
        qed
      qed
      then show ?thesis by (simp add: guarded_def)
    qed
  qed
qed

lemma mark_names:
  assumes "markApplyCuttingOverForControlRequest e oth n a w = (r, w')" "cutover_rely a oth" "names_apply a (lw_db w)"
  shows "lw_calls w' = lw_calls w \<and> names_apply a (lw_db w') \<and> (\<forall>a'. r = Inr a' \<longrightarrow> ap_ApplyIdentifier a' = ap_ApplyIdentifier a)"
  using assms(1) relyD(1,2) [OF assms(2)] assms(3) ap_Update_names [of _ _ _ "lw_db (oth n w)" _ a]
  by (auto simp: markApplyCuttingOverForControlRequest_def lc_bind_def lc_write_def lc_ret_def Let_def split: if_splits sum.splits prod.splits)

lemma trigger_guarded:
  assumes run: "triggerPendingCutover e oth a caller w = (r, w')" and rely: "cutover_rely a oth" "names_apply a (lw_db w)" "ap_ApplyIdentifier a \<noteq> []"
  shows "guarded (ap_ID a) w w' \<and> (lw_calls w' \<noteq> lw_calls w \<longrightarrow> GetPending (ap_ID a) ControlOperationStop (lw_db (oth 2 w)) = None)"
proof (cases "GetPending (ap_ID a) ControlOperationStop (lw_db (oth 2 w))")
  case (Some req)
  then show ?thesis using run relyD(1) [OF rely(1)]
    by (auto simp: triggerPendingCutover_def pendingControlRequest_def lc_bind_def lc_read_def Let_def guarded_def)
next
  case None
  obtain m w1 where m: "markApplyCuttingOverForControlRequest e oth 3 a (oth 2 w) = (m, w1)" by fastforce
  note w1 = mark_names [OF m rely(1) relyD(2) [OF rely(1,2)], unfolded relyD(1) [OF rely(1)]]
  show ?thesis
  proof (cases m)
    case (Inl err)
    then show ?thesis using run None m w1
      by (auto simp: triggerPendingCutover_def pendingControlRequest_def lc_bind_def lc_read_def Let_def guarded_def)
  next
    case (Inr a')
    obtain c w2 where c: "cutover e oth (ap_ApplyIdentifier a) caller w1 = (c, w2)" by fastforce
    have g: "guarded (ap_ID a) w w2" using cutover_guarded [OF c rely(1) _ rely(3)] w1 guarded_before by blast
    let ?finish = "case c of Inl err \<Rightarrow> rejectCutover e oth 15 a' (le_error_text e err)
      | Inr (accepted, message) \<Rightarrow> if \<not> accepted then rejectCutover e oth 15 a' (if message \<noteq> [] then message else ''not accepted'')
          else completePendingControlRequests e oth 15 a' ControlOperationCutover"
    have "lc_keeps lw_calls ?finish" using keeps_finish [OF rely(1)] by (auto split: sum.split)
    moreover have "?finish w2 = (r, w')" using run None m Inr c w1
      by (auto simp: triggerPendingCutover_def pendingControlRequest_def lc_bind_def lc_read_def lc_catch_def Let_def)
    ultimately show ?thesis using guarded_after g None by blast
  qed
qed

text \<open>
  (C36) A cutover is triggered once, on request, and never against a stop. Working off the cutover request of an apply, the owner calls its engine at most once,
  to cut over. If it does, then a cutover request of the apply was pending when the owner looked for one; the apply was ready: waiting for cutover,
  cutting over, or running with a task that is; no stop of the apply was pending when the owner checked before marking it, and none is pending
  at the call of the engine. This relies on the identifier naming this apply throughout, on nobody else calling the owner's engine, and on nobody filing a stop
  after the check that \<^verbatim>\<open>cutover\<close> makes (at its last two calls); a stop filed before that check, after the owner's first one for instance, holds the
  cutover back.
\<close>

theorem cutover_only_when_asked_and_ready:
  assumes "processPendingCutoverControlRequest e oth a w = (r, w')" "cutover_rely a oth" "names_apply a (lw_db w)" "ap_ApplyIdentifier a \<noteq> []"
    and "lw_calls w' \<noteq> lw_calls w"
  shows "(\<exists>d. lw_calls w' = lw_calls w @ [(Eng_Cutover, d)] \<and> GetPending (ap_ID a) ControlOperationStop d = None)
     \<and> GetPending (ap_ID a) ControlOperationCutover (lw_db (oth 0 w)) \<noteq> None
     \<and> (IsState (ap_State a) [Apply_WaitingForCutover, Apply_CuttingOver] \<and> GetPending (ap_ID a) ControlOperationStop (lw_db (oth 2 (oth 0 w))) = None
        \<or> IsState (ap_State a) [Apply_Running] \<and> GetPending (ap_ID a) ControlOperationStop (lw_db (oth 2 (oth 1 (oth 0 w)))) = None
          \<and> list_ex (\<lambda>t. IsState (tk_State t) [Task_WaitingForCutover, Task_CuttingOver]) (tk_GetByApplyID (ap_ID a) (lw_db (oth 1 (oth 0 w)))))"
proof -
  note q = relyD(1) [OF assms(2)]
  let ?req = "GetPending (ap_ID a) ControlOperationCutover (lw_db (oth 0 w))"
  note unfolds = processPendingCutoverControlRequest_def pendingControlRequest_def lc_read_def Let_def
  have pending: "?req \<noteq> None" using assms(1,5) by (auto simp: unfolds lc_bind_def q split: if_splits)
  have "\<not> cutoverRequestResolvedByApplyState (ap_State a)"
    using assms(1,5) pending lc_keepsD [OF keeps_finish(1) [OF assms(2)]] by (auto simp: unfolds lc_bind_def lc_log_def q split: prod.splits sum.splits)
  moreover have "\<not> cutoverRequestFailedByApplyState (ap_State a)"
    using assms(1,5) pending calculation lc_keepsD [OF keeps_finish(3) [OF assms(2)]] by (auto simp: unfolds lc_bind_def q split: prod.splits sum.splits)
  moreover have "\<not> IsState (ap_State a) [Apply_Recovering]"
    using assms(1,5) pending calculation by (auto simp: unfolds lc_bind_def q)
  ultimately obtain ready v where v: "applyReadyForCutoverRequest oth 1 a (oth 0 w) = (Inr ready, v)" "v = oth 0 w \<or> v = oth 1 (oth 0 w)"
    and rest: "(if \<not> ready then lc_ret () else triggerPendingCutover e oth a (controlRequestCaller ?req)) v = (r, w')"
    using assms(1) pending by (auto simp: unfolds lc_bind_def applyReadyForCutoverRequest_def lc_ret_def split: if_splits)
  have ready: ready using rest assms(5) v(2) by (auto simp: q split: if_splits)
  have qv: "lw_calls v = lw_calls w" "names_apply a (lw_db v)" using v(2) q relyD(2) [OF assms(2)] assms(3) by auto
  from rest ready have t: "triggerPendingCutover e oth a (controlRequestCaller ?req) v = (r, w')" by simp
  from trigger_guarded [OF t assms(2) qv(2) assms(4)] assms(5) qv(1)
  have "\<exists>d. lw_calls w' = lw_calls w @ [(Eng_Cutover, d)] \<and> GetPending (ap_ID a) ControlOperationStop d = None"
    and stop: "GetPending (ap_ID a) ControlOperationStop (lw_db (oth 2 v)) = None" by (auto simp: guarded_def)
  moreover have "IsState (ap_State a) [Apply_WaitingForCutover, Apply_CuttingOver] \<and> v = oth 0 w \<or> IsState (ap_State a) [Apply_Running] \<and> v = oth 1 (oth 0 w)
        \<and> list_ex (\<lambda>t. IsState (tk_State t) [Task_WaitingForCutover, Task_CuttingOver]) (tk_GetByApplyID (ap_ID a) (lw_db (oth 1 (oth 0 w))))"
    using v(1) ready unfolding applyReadyForCutoverRequest_def lc_read_def Let_def by (auto split: if_splits simp del: IsState_def)
  ultimately show ?thesis using pending by auto
qed

subsection \<open>The engine goes first\<close>

text \<open>The tables after an attempt to stop the engine that failed: untouched, or as the engine left them.\<close>

definition engine_left :: "local_env \<Rightarrow> db \<Rightarrow> db \<Rightarrow> bool" where
  "engine_left e d d' \<longleftrightarrow> d' = d \<or> (\<exists>rs. d' = snd (le_call e Eng_Stop rs d))"

lemma buildControlRequest_world: "buildControlRequest e (\<lambda>_. id) n t c w = (r, w') \<Longrightarrow> w' = w"
  by (auto simp: buildControlRequest_def loadEngineResumeState_def lc_bind_def lc_read_def lc_ret_def lc_err_def split: sum.splits option.splits if_splits prod.splits)

lemma stopEngineForTasks_fails:
  assumes "\<And>rs d. isl (fst (le_call e Eng_Stop rs d))" "t \<in> set tasks" "tk_ApplyID t = i" "hasLiveEngineWork (tk_State t)"
    "stopEngineForTasks e (\<lambda>_. id) n tasks i w = (r, w')"
  shows "isl r \<and> engine_left e (lw_db w) (lw_db w') \<and> lw_log w' = lw_log w"
proof -
  let ?p = "\<lambda>t. \<not> (i > 0 \<and> tk_ApplyID t \<noteq> i) \<and> \<not> IsTerminalTaskState (tk_State t) \<and> hasLiveEngineWork (tk_State t)"
  obtain t' where t': "find ?p tasks = Some t'" using assms(2-4) live_not_terminal by (cases "find ?p tasks") (auto simp: find_None_iff)
  have call: "lc_engine e (\<lambda>_. id) m Eng_Stop rs w = (Inr (fst (le_call e Eng_Stop rs (lw_db w))),
      w\<lparr>lw_db := snd (le_call e Eng_Stop rs (lw_db w)), lw_calls := lw_calls w @ [(Eng_Stop, lw_db w)]\<rparr>)" for m rs
    by (simp add: lc_engine_def Let_def split: prod.splits)
  obtain rb wb where rb: "buildControlRequest e (\<lambda>_. id) n t' Eng_Stop w = (rb, wb)" by fastforce
  have "wb = w" using buildControlRequest_world [OF rb] .
  with assms(5) rb assms(1) [of "projr rb" "lw_db w"] show ?thesis unfolding stopEngineForTasks_def t' option.case
    by (cases rb) (auto simp: lc_bind_def call isl_def engine_left_def lc_err_def split: option.splits if_splits)
qed

text \<open>
  (C37) The engine goes first: when the engine of a running apply cannot be stopped, working off the stop request ends with an error that is not a rejection of the
  request, no task and no apply is marked - the tables are as they were, or as the failing engine left them - and nothing is written to the apply's
  log. So the stop request is still there for the next attempt and storage never shows a stop that did not happen.
\<close>

theorem failed_engine_stop_marks_nothing:
  assumes "\<And>rs d. isl (fst (le_call e Eng_Stop rs d))" "GetPending (ap_ID a) ControlOperationStop (lw_db w) \<noteq> None"
    and "ap_Get (ap_ID a) (lw_db w) = Some a" "\<not> IsTerminalApplyState (ap_State a)" "\<not> in_revert_window (ap_ID a) (lw_db w)"
    and "GetByApplyIdentifier (ap_ApplyIdentifier a) (lw_db w) = Some a" "ap_ApplyIdentifier a \<noteq> []"
    and "t \<in> set (tk_GetByDatabase (le_Database e) (lw_db w))" "tk_ApplyID t = ap_ID a" "hasLiveEngineWork (tk_State t)"
  shows "\<exists>err w'. processPendingStopControlRequest e (\<lambda>_. id) a w = (Inl err, w') \<and> engine_left e (lw_db w) (lw_db w') \<and> lw_log w' = lw_log w"
proof -
  let ?tasks = "tk_GetByDatabase (le_Database e) (lw_db w)"
  obtain rs ws where s: "stopEngineForTasks e (\<lambda>_. id) 12 ?tasks (ap_ID a) w = (rs, ws)" by fastforce
  note f = stopEngineForTasks_fails [OF assms(1,8,9,10) s]
  have o: "\<exists>err w'. stopOwnedApply e (\<lambda>_. id) 10 (ap_ApplyIdentifier a) caller w = (Inl err, w') \<and> engine_left e (lw_db w) (lw_db w') \<and> lw_log w' = lw_log w" for caller
    using f s assms(6,7) by (auto simp: stopOwnedApply_def lc_bind_def lc_read_def Let_def lc_ret_def lc_err_def resolveRevertWindowApplyIdentifier_def isl_def engine_left_def
        split: option.split)
  have c: "completePendingStopIfStoredApplyResolved e (\<lambda>_. id) 1 a w = (Inr None, w)"
    using assms(3,4) by (simp add: completePendingStopIfStoredApplyResolved_def lc_bind_def lc_read_def lc_ret_def Let_def)
  obtain caller where "processPendingStopControlRequest e (\<lambda>_. id) a w = stopUnresolvedApply e (\<lambda>_. id) a caller w"
    using assms(2,4) c by (auto simp: processPendingStopControlRequest_def pendingControlRequest_def lc_bind_def lc_read_def Let_def)
  moreover have "\<exists>err w'. stopUnresolvedApply e (\<lambda>_. id) a caller w = (Inl err, w') \<and> engine_left e (lw_db w) (lw_db w') \<and> lw_log w' = lw_log w"
    using o [of caller] assms(5) by (auto simp: stopUnresolvedApply_def applyHasRevertWindowTask_eq lc_bind_def)
  ultimately show ?thesis by simp
qed

subsection \<open>Samples, witnesses and findings\<close>

definition sample_local :: "bool \<Rightarrow> local_env" where
  "sample_local ok = \<lparr>le_Database = ''shop'', le_Type = ''mysql'', le_ctx = background, le_now = 200, le_credentials = (\<lambda>_. None), le_has_engine = True,
     le_validate = (\<lambda>_ _. None), le_call = (\<lambda>_ _ d. (if ok then Inr (Some \<lparr>er_Accepted = True, er_Message = [], er_PreviousVolume = 1, er_NewVolume = 1\<rparr>) else Inl ''busy'', d)),
     le_progress = (\<lambda>_. Inr None), le_error_text = (\<lambda>_. ''error'')\<rparr>"

definition sample_local_world :: "string \<Rightarrow> string \<Rightarrow> string list \<Rightarrow> local_world" where
  "sample_local_world st ts operations = \<lparr>lw_db = (sample_control_db st ts)\<lparr>db_control_requests := map (\<lambda>operation. control_row (sample_apply st) operation ''ann'' []) operations\<rparr>,
     lw_log = [], lw_calls = []\<rparr>"

theorem handled_stop_is_settled_witness:
  "stored_terminal 1 (lw_db (snd (processPendingStopControlRequest (sample_local True) (\<lambda>_. id) (sample_apply Apply_Running)
     (sample_local_world Apply_Running Task_Running [ControlOperationStop]))))"
proof -
  let ?r = "processPendingStopControlRequest (sample_local True) (\<lambda>_. id) (sample_apply Apply_Running) (sample_local_world Apply_Running Task_Running [ControlOperationStop])"
  have "\<not> isl (fst ?r)" "fst (projr (fst ?r))" by (code_simp, code_simp)
  then have r: "?r = (Inr (True, snd (projr (fst ?r))), snd ?r)" by (metis (full_types) prod.collapse sum.collapse(2))
  have c: "calm (ap_ID (sample_apply Apply_Running)) (\<lambda>_. id)" by (simp add: calm_def)
  have t: "\<not> IsTerminalApplyState (ap_State (sample_apply Apply_Running))" by code_simp
  have "firstRevertWindowTask (tk_GetByApplyID 1 (lw_db (snd ?r))) 1 = None" by code_simp
  with handled_stop_is_settled [OF r c t] show ?thesis by (simp add: in_revert_window_def sample_apply_def)
qed

theorem cutover_only_when_asked_and_ready_witness:
  "map fst (lw_calls (snd (processPendingCutoverControlRequest (sample_local True) (\<lambda>_. id) (sample_apply Apply_Running)
     (sample_local_world Apply_Running Task_WaitingForCutover [ControlOperationCutover])))) = [Eng_Cutover]"
proof -
  let ?w = "sample_local_world Apply_Running Task_WaitingForCutover [ControlOperationCutover]"
  let ?r = "processPendingCutoverControlRequest (sample_local True) (\<lambda>_. id) (sample_apply Apply_Running) ?w"
  have r: "?r = (fst ?r, snd ?r)" by simp
  have q: "cutover_rely (sample_apply Apply_Running) (\<lambda>_. id)" by (simp add: cutover_rely_def)
  have n: "names_apply (sample_apply Apply_Running) (lw_db ?w)" "ap_ApplyIdentifier (sample_apply Apply_Running) \<noteq> []"
    by (simp_all add: names_apply_def sample_local_world_def sample_control_db_def sample_apply_def)
  have w: "lw_calls ?w = []" by (simp add: sample_local_world_def)
  have "length (lw_calls (snd ?r)) = 1" by code_simp
  then have "lw_calls (snd ?r) \<noteq> lw_calls ?w" using w by auto
  from cutover_only_when_asked_and_ready [OF r q n this] obtain d where "lw_calls (snd ?r) = lw_calls ?w @ [(Eng_Cutover, d)]" by blast
  then show ?thesis unfolding w by simp
qed

text \<open>A stop filed between the owner's first check and the one in \<^verbatim>\<open>cutover\<close>: the engine is not called.\<close>

lemma late_stop_holds_back_cutover:
  "let oth = (\<lambda>n w. if n = 11 then w\<lparr>lw_db := (lw_db w)\<lparr>db_control_requests := db_control_requests (lw_db w)
         @ [control_row (sample_apply Apply_Running) ControlOperationStop ''bob'' []]\<rparr>\<rparr> else w)
   in lw_calls (snd (processPendingCutoverControlRequest (sample_local True) oth (sample_apply Apply_Running)
        (sample_local_world Apply_Running Task_WaitingForCutover [ControlOperationCutover]))) = []"
  by code_simp

theorem failed_engine_stop_marks_nothing_witness:
  "lw_db (snd (processPendingStopControlRequest (sample_local False) (\<lambda>_. id) (sample_apply Apply_Running) (sample_local_world Apply_Running Task_Running [ControlOperationStop])))
     = lw_db (sample_local_world Apply_Running Task_Running [ControlOperationStop])"
proof -
  let ?w = "sample_local_world Apply_Running Task_Running [ControlOperationStop]" and ?a = "sample_apply Apply_Running"
  let ?t = "(sample_task 1 ''k1'' [])\<lparr>tk_State := Task_Running, tk_DatabaseType := ''mysql''\<rparr>"
  have call: "le_call (sample_local False) c rs d = (Inl ''busy'', d)" for c rs d by (simp add: sample_local_def)
  have "GetPending (ap_ID ?a) ControlOperationStop (lw_db ?w) \<noteq> None" "\<not> IsTerminalApplyState (ap_State ?a)" "hasLiveEngineWork (tk_State ?t)"
    by (code_simp, code_simp, code_simp)
  moreover have "ap_Get (ap_ID ?a) (lw_db ?w) = Some ?a" "GetByApplyIdentifier (ap_ApplyIdentifier ?a) (lw_db ?w) = Some ?a"
    "ap_ApplyIdentifier ?a \<noteq> []" "tk_ApplyID ?t = ap_ID ?a"
    by (simp_all add: sample_local_world_def sample_control_db_def ap_Get_def GetByApplyIdentifier_def sample_apply_def sample_task_def)
  moreover have "\<not> in_revert_window (ap_ID ?a) (lw_db ?w)" unfolding in_revert_window_def by code_simp
  moreover have "?t \<in> set (tk_GetByDatabase (le_Database (sample_local False)) (lw_db ?w))"
    by (simp add: sample_local_def sample_local_world_def sample_control_db_def tk_GetByDatabase_def newest_tasks_by_id_def sample_task_def)
  ultimately obtain err w' where "processPendingStopControlRequest (sample_local False) (\<lambda>_. id) ?a ?w = (Inl err, w')" "engine_left (sample_local False) (lw_db ?w) (lw_db w')"
    using failed_engine_stop_marks_nothing [of "sample_local False" ?a ?w ?t] by (auto simp: call)
  then show ?thesis by (auto simp: engine_left_def call)
qed

text \<open>
  Volume, revert and skip-revert name an apply and an environment, which are not looked at: the engine is called for the newest unfinished task of the database,
  here one of another apply in another environment, although the named apply is over.
\<close>

definition two_environments :: local_world where
  "two_environments = \<lparr>lw_db = (sample_control_db Apply_Completed Task_Completed)\<lparr>db_applies := [sample_apply Apply_Completed,
       (sample_apply Apply_Running)\<lparr>ap_ID := 2, ap_ApplyIdentifier := ''a2'', ap_Environment := ''staging''\<rparr>],
     db_tasks := [(sample_task 1 ''k1'' [])\<lparr>tk_State := Task_Completed, tk_DatabaseType := ''mysql''\<rparr>,
       (sample_task 2 ''k2'' [])\<lparr>tk_ApplyID := 2, tk_Environment := ''staging'', tk_DatabaseType := ''mysql''\<rparr>]\<rparr>, lw_log = [], lw_calls = []\<rparr>"

theorem control_ignores_the_named_apply:
  "map fst (lw_calls (snd (Revert (sample_local True) (\<lambda>_. id) (''a1'', ''prod'') two_environments))) = [Eng_Revert]
   \<and> map fst (lw_calls (snd (SkipRevert (sample_local True) (\<lambda>_. id) (''a1'', ''prod'') two_environments))) = [Eng_SkipRevert]
   \<and> map fst (lw_calls (snd (Volume (sample_local True) (\<lambda>_. id) (''a1'', ''prod'', 5) two_environments))) = [Eng_Volume 5]
   \<and> list_all (\<lambda>t. tk_ApplyID t = 1 \<longrightarrow> IsTerminalTaskState (tk_State t)) (db_tasks (lw_db two_environments))"
  by (intro conjI; code_simp)

text \<open>
  A stop of an apply whose tasks are per shard is meant to be refused for good in the revert window; the check reads only tasks without a shard, so the refusal
  comes from the stop itself as an error and the request stays pending, to be tried again.
\<close>

definition sharded_revert_window :: local_world where
  "sharded_revert_window = (let w = sample_local_world Apply_RevertWindow Task_RevertWindow [ControlOperationStop] in
     w\<lparr>lw_db := (lw_db w)\<lparr>db_tasks := [(sample_task 1 ''k1'' ''-80'')\<lparr>tk_State := Task_RevertWindow\<rparr>]\<rparr>\<rparr>)"

theorem sharded_revert_window_stop_is_retried:
  "let r = processPendingStopControlRequest (sample_local True) (\<lambda>_. id) (sample_apply Apply_RevertWindow) sharded_revert_window in
   isl (fst r) \<and> GetPending 1 ControlOperationStop (lw_db (snd r)) \<noteq> None"
  by code_simp

end
