(* ===== verification/Spec2Isabelle.thy ===== *)
theory Spec2Isabelle
  imports SB_Rollout SB_Operator SB_Mutex SB_Webhook SB_PR_Cleanup SB_Discovery SB_PR_Control SB_Local_Control
begin

section \<open>SchemaBot: the control plane of a schema-change orchestrator\<close>

text \<open>
  SchemaBot plans schema changes from pull requests and applies them to databases through engines (Spirit for MySQL, PlanetScale for
  Vitess). An \<^emph>\<open>apply\<close> has one \<^emph>\<open>operation\<close> per deployment and one \<^emph>\<open>task\<close> per table (and shard). Drivers - goroutines of several
  server processes - poll the storage database for work, claim a row by writing a fresh lease token on it, run the engine and write the
  outcome back; the parent apply's state is a projection of its operations, moved by a compare-and-swap. Users stop, start and cut over
  through control requests; the pull request is gated by GitHub check runs computed from check rows. All coordination goes through MySQL
  rows, so the hard part is what the interleavings of the drivers' transactions may and may not do. That part is what the library models.

  \<^bold>\<open>Parts and theories\<close> (paths under src/):

    \<^item> \<^verbatim>\<open>SB_Prelude\<close>: text as the code and MySQL compare it (case-insensitive collation), rows updated in place with MySQL's count of
      \<^emph>\<open>changed\<close> rows, results as sums.
    \<^item> \<^verbatim>\<open>SB_State\<close> (pkg/state): the state vocabulary, normalisation, DeriveApplyState and the rollout projection
      DeriveRolloutApplyState. Proved: both equal declarative specifications, and a failure is never masked.
    \<^item> \<^verbatim>\<open>SB_Storage\<close>, \<^verbatim>\<open>SB_Leases\<close> (pkg/storage): the rows, option encodings with their round trips, leases carried on the context.
    \<^item> \<^verbatim>\<open>SB_Op_Store\<close> (mysqlstore/apply\_operations.go): every read and write of the operation store, the copy claim and the cutover
      claim. Proved: fencing, authority of the claimed lease, idempotence of guarded writes, stop requests win the race with a claim.
    \<^item> \<^verbatim>\<open>SB_Apply_Store\<close> (mysqlstore/applies.go): creation under target locks, claims, the derived-state compare-and-swap, expiry. Proved: at
      most one active apply per target is kept by creation and by claims, a stale projection changes nothing, the retry budget is respected.
    \<^item> \<^verbatim>\<open>SB_Control_Requests\<close> (mysqlstore/control\_requests.go) and \<^verbatim>\<open>SB_Task_Store\<close> (mysqlstore/tasks.go).
    \<^item> \<^verbatim>\<open>SB_Rollout\<close>: the ordered-cutover protocol as a step relation over the cutover claim and the guarded writes. Proved for every
      reachable state: cutovers of one apply never overlap and follow the deployment order; a rollout that can go on is not stuck.
    \<^item> \<^verbatim>\<open>SB_Retry\<close>, \<^verbatim>\<open>SB_Locks\<close> (mysqlstore/retry.go, locks.go): deadlock retry and the database locks; \<^verbatim>\<open>SB_Mutex\<close>: the lock store refines a
      map from databases to owners. Proved: a held lock excludes others whatever runs between the statements of an acquire.
    \<^item> \<^verbatim>\<open>SB_Check_Store\<close>, \<^verbatim>\<open>SB_Merge_Gate\<close> (mysqlstore/checks.go, webhook/check\_*.go): ownership of check rows and the aggregate check
      run. Proved: a green gate is earned.
    \<^item> \<^verbatim>\<open>SB_Text\<close>, \<^verbatim>\<open>SB_Source_Policy\<close>, \<^verbatim>\<open>SB_Config\<close> (api/config.go, source\_policy.go, actor\_authorization.go): Go's text and path helpers,
      the server configuration, its validation and the questions asked of it. Proved: a validated configuration routes every environment, in
      the configured order; environments are ordered for promotion; an authorised schema path stays under its directory.
    \<^item> \<^verbatim>\<open>SB_Gates\<close> (webhook/actor\_authorization.go, review\_gate.go, apply\_gating.go, check\_prior\_env.go and the reads of pkg/github behind
      them): the gates in front of an apply. Proved for each: what holds when it lets a command through.
    \<^item> \<^verbatim>\<open>SB_Commands\<close>, \<^verbatim>\<open>SB_Webhook\<close> (webhook/commands.go, handler.go, issue\_comment.go, check\_run.go, pull\_request.go): the comment parser with
      its regular expressions, and the way from an HTTP delivery to one handler. Proved: only authentic deliveries have effects, one line of a
      comment decides, and of several instances one answers.
    \<^item> \<^verbatim>\<open>SB_Apply_Command\<close>, \<^verbatim>\<open>SB_PR_Cleanup\<close> (webhook/apply\_handlers.go, apply\_execute.go, plan\_freshness.go, schema\_freshness.go, plan\_retry.go,
      schema\_reconciliation.go, schema\_source\_policy.go, apply\_check\_records.go, the closing part of pull\_request.go): the handlers of apply, apply -y,
      apply-confirm and unlock from the first gate to the request handed to the service, and what a close or a new commit cleans up. Handlers are
      programs that may return early; the lemmas \<open>triple_*\<close> are their rules. Proved: what holds of every request handed over, that the comparison
      of plans is exact, and that no lock is taken from a running apply.
    \<^item> \<^verbatim>\<open>SB_Discovery\<close> (github/config.go, schema.go, client.go, schema/namespace.go): from a pull request to the schema request - the listing of its
      files page by page, the search for configuration files, the schema files grouped into namespaces. Proved: a request is built from the files
      at the head of the pull request under the directory of its configuration, the discovery covers the changed files, the listing ends.
    \<^item> \<^verbatim>\<open>SB_Plans\<close>, \<^verbatim>\<open>SB_Enqueue\<close> (mysqlstore/plans.go, api/plan\_handlers.go, proto\_helpers.go): planning, the stored plan, and how an accepted
      request to apply becomes an apply with its operations and tasks. Proved: a plan comes back from the store as it went in, the queued work
      is exactly the plan's on every target and shard, and targets stay exclusive.
    \<^item> \<^verbatim>\<open>SB_Control\<close> (api/control\_handlers.go, tern/state\_converters.go, the rollback part of plan\_handlers.go): the handlers of stop, start,
      cutover, volume, revert, skip-revert and rollback planning. Proved: what the service accepts is durable, a repeated stop gets the same
      answer, volumes are bounded, and a rollback is planned only for the latest change and back to the files from before it.
    \<^item> \<^verbatim>\<open>SB_PR_Control\<close> (webhook/control.go, rollback.go): stop, start, cutover, revert, skip-revert, rollback and rollback-confirm as comments of a
      pull request. Proved: a control command reaches only an apply of its own pull request and environment, a refused rollback leaves the locks as
      they were, and what rollback-confirm executes is the rollback plan pinned to the lock.
    \<^item> \<^verbatim>\<open>SB_Local_Control\<close> (tern/local\_control.go, control\_requests.go, stop\_terminality.go, cutover\_barrier.go): the other end of a control request,
      at the process that drives the engine of an apply. Proved: a handled stop is settled, the engine is stopped before anything is marked, and a
      cutover is triggered once, on request, when ready and never against a pending stop.
    \<^item> \<^verbatim>\<open>SB_Operator\<close> (api/operator.go): the scheduling loop's handlers, composed from the stores. Proved: the projection shows the
      operations, becoming terminal is one transition, a settled apply is not driven, a stop settles the rollout.

  \<^bold>\<open>How concurrency is modelled.\<close> One transaction is atomic. Where the code reads and writes in separate statements or transactions the
  definition takes what others commit in between as an argument (\<open>between\<close>, \<open>oth\<close>, \<open>stmt_env\<close>), an arbitrary function on the database
  unless a theorem restricts it. Rows locked by others (SKIP LOCKED) are the argument \<open>locked\<close>; fresh lease tokens are arguments, and where
  a theorem needs them fresh it says so. Times are integers (seconds), MySQL's clock and Go's clock separate arguments.

  \<^bold>\<open>Bounds.\<close> Loops of the code are recursion over lists or bounded retries (five attempts on a deadlock, four reads of a prior
  environment by default), so no fuel is needed anywhere. The loops that follow GitHub's page numbers are \<open>partial_function (option)\<close>: that they
  end is proved where page numbers grow and are bounded, as GitHub documents them.

  \<^bold>\<open>Not modelled.\<close> Engines (pkg/engine) and the drives of the data plane (pkg/tern but for its control requests) appear as the parameter \<open>oe_engine\<close> of the operator and as the records of
  answers \<open>tern_client\<close> and \<open>control_client\<close> of the service, the engine under control as \<open>local_env\<close>; GitHub as a record
  of answers. Driver and infrastructure errors of database/sql appear only where the code reacts to them (retry.go). Rendering (templates,
  CLI, TUI), metrics, logging, reading configuration files and the wire protocol are left out.
\<close>

end
